(* ===== verification/Prelude.thy ===== *)
theory Prelude
  imports Main "HOL-Library.Word" "HOL-Library.Monad_Syntax" "HOL-Library.Sublist"
    "HOL-Library.List_Lexorder" "HOL-Library.Char_ord"
begin

text \<open>
  The vocabulary the components share: Go's byte slices, fixed-width integers, strings, slicing
  with its run-time panics, durations and instants, and the parts of the packages
  \<^verbatim>\<open>encoding/binary\<close>, \<^verbatim>\<open>strings\<close> and \<^verbatim>\<open>strconv\<close> that the program calls.

  \<^item> A \<^verbatim>\<open>[]byte\<close> is a \<open>byte list\<close> and a Go \<^verbatim>\<open>string\<close> is an Isabelle \<open>string\<close> (both are
    sequences of bytes); \<open>bytes_of\<close> and \<open>string_of\<close> are the two conversions.
  \<^item> \<^verbatim>\<open>uint16\<close>, \<^verbatim>\<open>uint32\<close>, \<^verbatim>\<open>uint64\<close> are words of that width, so arithmetic wraps as in Go.
    \<^verbatim>\<open>int\<close> and \<^verbatim>\<open>int64\<close> values that the program only compares or stores are \<open>int\<close>; slice
    lengths and indexes are \<open>nat\<close>.
  \<^item> An operation that may index out of range returns an \<open>option\<close> whose \<open>None\<close> is Go's run-time
    panic; an error return is an \<open>Inl\<close> below it.
  \<^item> An instant is the number of nanoseconds since Go's zero time, so \<open>IsZero t\<close> is \<open>t = 0\<close>.
  \<^item> \<open>ToLower\<close> and \<open>EqualFold\<close> are those of ASCII text: the names they are applied to (profiles,
    policies, protocols, actions) are ASCII identifiers.
\<close>

unbundle bit_operations_syntax

type_synonym byte = "8 word"
type_synonym bytes = "byte list"
type_synonym uint16 = "16 word"
type_synonym uint32 = "32 word"
type_synonym uint64 = "64 word"
type_synonym time = int
type_synonym duration = int

named_theorems go_slice \<open>rules that evaluate indexing and slicing inside the bounds\<close>
named_theorems be_simps \<open>rules for the big-endian encodings\<close>

subsection \<open>Indexing and slicing\<close>

definition index :: "'a list \<Rightarrow> nat \<Rightarrow> 'a option" where
  "index xs i = (if i < length xs then Some (xs ! i) else None)"

definition slice :: "'a list \<Rightarrow> nat \<Rightarrow> nat \<Rightarrow> 'a list option" where
  "slice xs a b = (if a \<le> b \<and> b \<le> length xs then Some (take (b - a) (drop a xs)) else None)"

lemma index_ok [go_slice]: "i < length xs \<Longrightarrow> index xs i = Some (xs ! i)"
  by (simp add: index_def)

lemma slice_ok [go_slice]:
  "a \<le> b \<Longrightarrow> b \<le> length xs \<Longrightarrow> slice xs a b = Some (take (b - a) (drop a xs))"
  by (simp add: slice_def)

lemma index_eq_Some: "index xs i = Some x \<longleftrightarrow> i < length xs \<and> xs ! i = x"
  by (simp add: index_def)

lemma slice_eq_Some:
  "slice xs a b = Some ys \<longleftrightarrow> a \<le> b \<and> b \<le> length xs \<and> ys = take (b - a) (drop a xs)"
  by (auto simp: slice_def)

lemma length_sliced: "a \<le> b \<Longrightarrow> b \<le> length xs \<Longrightarrow> length (take (b - a) (drop a xs)) = b - a"
  by simp

subsection \<open>Overwriting a run of elements\<close>

definition put_at :: "'a list \<Rightarrow> nat \<Rightarrow> 'a list \<Rightarrow> 'a list" where
  "put_at xs i ys = take i xs @ ys @ drop (i + length ys) xs"

lemma length_put_at [simp]: "i + length ys \<le> length xs \<Longrightarrow> length (put_at xs i ys) = length xs"
  by (simp add: put_at_def)

lemma nth_put_at:
  assumes "i + length ys \<le> length xs"
  shows "put_at xs i ys ! j = (if i \<le> j \<and> j < i + length ys then ys ! (j - i) else xs ! j)"
proof (cases "i + length ys \<le> j")
  case True
  then have "i + length ys + (j - (i + length ys)) = j" "\<not> j - i < length ys" by simp_all
  with True assms show ?thesis by (simp add: put_at_def nth_append)
next
  case False
  with assms show ?thesis by (auto simp: put_at_def nth_append)
qed

lemma take_put_at: "n \<le> i \<Longrightarrow> i + length ys \<le> length xs \<Longrightarrow> take n (put_at xs i ys) = take n xs"
  by (simp add: put_at_def)

lemma put_at_zeros:
  "length xs = i \<Longrightarrow> length ys \<le> n \<Longrightarrow> put_at (xs @ replicate n z) i ys = xs @ ys @ replicate (n - length ys) z"
  by (auto simp: put_at_def)

subsection \<open>Ranges of the fixed-width integers\<close>

lemma unat_byte: "unat (b :: byte) < 256"
  using unsigned_less [of b, where ?'a = nat] by simp

lemma unat_uint16: "unat (w :: uint16) < 65536"
  using unsigned_less [of w, where ?'a = nat] by simp

lemma unat_widen: "unat (ucast (b :: byte) :: uint16) = unat b" "unat (ucast (b :: byte) :: uint32) = unat b"
    "unat (ucast (w :: uint16) :: uint32) = unat w"
  using unat_byte [of b] unat_uint16 [of w] by (simp_all add: unsigned_ucast_eq take_bit_eq_mod)

lemma unat_complement: "unat (NOT w) = 65535 - unat w" for w :: uint16
proof -
  have "NOT w = - 1 - w" by (simp add: not_eq_complement)
  also have "unat (- 1 - w) = unat (- 1 :: uint16) - unat w" by (rule unat_sub) simp
  finally show ?thesis by (simp add: unsigned_minus_1_eq_mask mask_eq_exp_minus_1)
qed

subsection \<open>Big-endian integers\<close>

definition be16 :: "uint16 \<Rightarrow> bytes" where
  "be16 w = [ucast (drop_bit 8 w), ucast w]"

definition be32 :: "uint32 \<Rightarrow> bytes" where
  "be32 w = be16 (ucast (drop_bit 16 w)) @ be16 (ucast w)"

definition be64 :: "uint64 \<Rightarrow> bytes" where
  "be64 w = be32 (ucast (drop_bit 32 w)) @ be32 (ucast w)"

fun Uint16 :: "bytes \<Rightarrow> uint16 option" where
  "Uint16 (a # b # _) = Some (push_bit 8 (ucast a) OR ucast b)"
| "Uint16 _ = None"

fun Uint32 :: "bytes \<Rightarrow> uint32 option" where
  "Uint32 (a # b # c # d # _) =
     Some (push_bit 24 (ucast a) OR push_bit 16 (ucast b) OR push_bit 8 (ucast c) OR ucast d)"
| "Uint32 _ = None"

definition Uint64 :: "bytes \<Rightarrow> uint64 option" where
  "Uint64 bs =
     do { hi \<leftarrow> Uint32 bs; lo \<leftarrow> Uint32 (drop 4 bs);
          Some (push_bit 32 (ucast hi) OR ucast lo) }"

lemma length_be [simp]: "length (be16 w) = 2" "length (be32 v) = 4" "length (be64 u) = 8"
  by (simp_all add: be16_def be32_def be64_def)

lemma Uint16_be16 [be_simps]: "Uint16 (be16 w @ xs) = Some w"
  by (simp add: be16_def, rule bit_word_eqI)
    (auto simp: bit_simps not_less)

lemma Uint32_be32 [be_simps]: "Uint32 (be32 w @ xs) = Some w"
  by (simp add: be32_def be16_def, rule bit_word_eqI)
    (auto simp: bit_simps not_less)

lemma join_halves: "push_bit 32 (ucast (ucast (drop_bit 32 w) :: uint32)) OR ucast (ucast w :: uint32) = w"
  for w :: uint64
  by (rule bit_word_eqI) (auto simp: bit_simps not_less)

lemma Uint64_be64 [be_simps]: "Uint64 (be64 w @ xs) = Some w"
  by (simp add: Uint64_def be64_def be_simps join_halves)

lemma Uint16_Some: "2 \<le> length xs \<Longrightarrow> \<exists>w. Uint16 xs = Some w"
  by (cases xs rule: Uint16.cases) auto

lemma Uint32_Some: "4 \<le> length xs \<Longrightarrow> \<exists>w. Uint32 xs = Some w"
  by (cases xs rule: Uint32.cases) auto

lemma Uint64_Some: "8 \<le> length xs \<Longrightarrow> \<exists>w. Uint64 xs = Some w"
proof -
  assume "8 \<le> length xs"
  then have "4 \<le> length xs" "4 \<le> length (drop 4 xs)" by simp_all
  then obtain v w where "Uint32 xs = Some v" "Uint32 (drop 4 xs) = Some w"
    using Uint32_Some by blast
  then show ?thesis by (simp add: Uint64_def)
qed

lemma be16_inject: "be16 v = be16 w \<Longrightarrow> v = w"
  by (metis Uint16_be16 append.right_neutral option.inject)

lemma be32_inject: "be32 v = be32 w \<Longrightarrow> v = w"
  by (metis Uint32_be32 append.right_neutral option.inject)

lemma be64_inject: "be64 v = be64 w \<Longrightarrow> v = w"
  by (metis Uint64_be64 append.right_neutral option.inject)

subsection \<open>Instants and durations\<close>

text \<open>\<^verbatim>\<open>Time.Sub\<close> saturates at the largest and smallest 64-bit duration.\<close>

definition time_Sub :: "time \<Rightarrow> time \<Rightarrow> duration" where
  "time_Sub t u = max (- (2 ^ 63)) (min (2 ^ 63 - 1) (t - u))"

definition IsZero :: "time \<Rightarrow> bool" where
  "IsZero t \<longleftrightarrow> t = 0"

definition Millisecond :: duration where "Millisecond = 1000000"

definition Second :: duration where "Second = 1000 * Millisecond"

definition Minute :: duration where "Minute = 60 * Second"

lemmas duration_defs = Minute_def Second_def Millisecond_def

lemma time_Sub_self [simp]: "time_Sub t t = 0"
  by (simp add: time_Sub_def)

lemma time_Sub_le: "- (2 ^ 63) \<le> d \<Longrightarrow> d < 2 ^ 63 - 1 \<Longrightarrow> time_Sub t u \<le> d \<longleftrightarrow> t - u \<le> d"
  by (auto simp: time_Sub_def)

lemma time_Sub_mono: "t \<le> t' \<Longrightarrow> time_Sub t u \<le> time_Sub t' u"
  by (auto simp: time_Sub_def)

subsection \<open>Byte slices and strings\<close>

definition bytes_of :: "string \<Rightarrow> bytes" where
  "bytes_of s = map (\<lambda>c. of_nat (of_char c)) s"

definition string_of :: "bytes \<Rightarrow> string" where
  "string_of bs = map (\<lambda>b. char_of (unat b)) bs"

lemma length_bytes_of [simp]: "length (bytes_of s) = length s"
  by (simp add: bytes_of_def)

lemma length_string_of [simp]: "length (string_of bs) = length bs"
  by (simp add: string_of_def)

lemma unat_of_char_byte: "unat (of_nat (of_char c) :: byte) = of_char c"
  by (simp add: unat_of_nat)

lemma string_of_bytes_of [simp]: "string_of (bytes_of s) = s"
  by (simp add: string_of_def bytes_of_def unat_of_char_byte o_def)

lemma bytes_of_inject: "bytes_of s = bytes_of t \<longleftrightarrow> s = t"
  by (metis string_of_bytes_of)

lemma bytes_of_string_of [simp]: "bytes_of (string_of bs) = bs"
  using unat_byte by (simp add: bytes_of_def string_of_def o_def map_idI)

lemma be16_of_Uint16: "Uint16 xs = Some w \<Longrightarrow> length xs \<le> 2 \<Longrightarrow> be16 w = xs"
proof (cases xs rule: Uint16.cases)
  case (1 a b r)
  assume w: "Uint16 xs = Some w" and "length xs \<le> 2"
  then have r: "r = []" and w: "w = push_bit 8 (ucast a) OR ucast b" using 1 by simp_all
  have "ucast (drop_bit 8 w) = a" "ucast w = b" unfolding w
    by (rule bit_word_eqI; auto simp: bit_simps dest: bit_imp_le_length)+
  then show ?thesis by (simp add: 1 r be16_def)
qed simp_all

end
