(* ===== verification/PacketSession.thy ===== *)
theory PacketSession
  imports Prelude
begin

text \<open>
  The packet session layer, \<^verbatim>\<open>internal/packet/session.go\<close>: the sliding replay window, the frame
  codec of the data plane and the derivation of the two directional session keys.

  The AEAD (\<^verbatim>\<open>golang.org/x/crypto/chacha20poly1305\<close>) and HKDF (\<^verbatim>\<open>golang.org/x/crypto/hkdf\<close>) are
  third-party packages.  The AEAD is a record of the three operations of the interface
  \<^verbatim>\<open>cipherAEAD\<close>; its constructor and HKDF are function arguments.  The only law of the AEAD that a
  theorem relies on is \<open>aead_correct\<close>: \<^verbatim>\<open>Seal\<close> appends \<^verbatim>\<open>Overhead()\<close> more bytes than the plaintext
  has to its destination, and \<^verbatim>\<open>Open\<close> inverts it.

  The locale \<open>replay_filter\<close> is the contract between the window and the codec; the window
  provides it (interpretation \<open>window\<close>) and the codec's no-replay theorem is its consequence.
\<close>

subsection \<open>Data\<close>

definition TypeIPv4 :: byte where "TypeIPv4 = 1"

definition frameVersion :: byte where "frameVersion = 1"

definition headerLen :: nat where "headerLen = 4 + 1 + 1 + 1 + 1 + 8 + 8"

definition replayWindowSize :: uint64 where "replayWindowSize = 64"

definition magic :: bytes where "magic = bytes_of ''UDPL''"

datatype packet_error =
    ErrBadKey
  | ErrFrame
  | ErrReplay
  | ErrFrameBecause string
  | ErrDerive string
  | ErrCipher string

record SessionKeys =
  keys_AB :: bytes
  keys_BA :: bytes

record cipherAEAD =
  aead_Seal :: "bytes \<Rightarrow> bytes \<Rightarrow> bytes \<Rightarrow> bytes \<Rightarrow> bytes"
  aead_Open :: "bytes \<Rightarrow> bytes \<Rightarrow> bytes \<Rightarrow> bytes \<Rightarrow> string + bytes"
  aead_Overhead :: nat

record replayWindow =
  rw_max :: uint64
  rw_bits :: uint64

record Codec =
  codec_networkID :: uint64
  codec_typ :: byte
  codec_aead :: "cipherAEAD option"
  codec_nextSeq :: uint64
  codec_replay :: replayWindow

definition new_window :: replayWindow where
  "new_window = \<lparr>rw_max = 0, rw_bits = 0\<rparr>"

subsection \<open>The replay window\<close>

definition Accept :: "replayWindow \<Rightarrow> uint64 \<Rightarrow> replayWindow \<times> bool" where
  "Accept w seq =
     (if seq = 0 then (w, False)
      else if rw_max w = 0 then (\<lparr>rw_max = seq, rw_bits = 1\<rparr>, True)
      else if rw_max w < seq then
        (let shift = seq - rw_max w;
             bits = (if replayWindowSize \<le> shift then 1
                     else push_bit (unat shift) (rw_bits w) OR 1)
         in (\<lparr>rw_max = seq, rw_bits = bits\<rparr>, True))
      else
        (let delta = rw_max w - seq in
         if replayWindowSize \<le> delta \<or> rw_bits w AND push_bit (unat delta) 1 \<noteq> 0 then (w, False)
         else (w\<lparr>rw_bits := rw_bits w OR push_bit (unat delta) 1\<rparr>, True)))"

definition Rollback :: "replayWindow \<Rightarrow> uint64 \<Rightarrow> replayWindow" where
  "Rollback w seq =
     (if rw_max w = seq then w\<lparr>rw_bits := rw_bits w AND NOT 1\<rparr>
      else if seq < rw_max w then
        (let delta = rw_max w - seq in
         if delta < replayWindowSize then w\<lparr>rw_bits := rw_bits w AND NOT (push_bit (unat delta) 1)\<rparr>
         else w)
      else w)"

subsection \<open>The codec\<close>

definition nonceFrom :: "uint64 \<Rightarrow> uint64 \<Rightarrow> bytes" where
  "nonceFrom networkID seq = be64 networkID @ be32 (ucast seq)"

definition NewCodec ::
  "(bytes \<Rightarrow> string + cipherAEAD) \<Rightarrow> bytes \<Rightarrow> uint64 \<Rightarrow> byte \<Rightarrow> packet_error + Codec"
where
  "NewCodec new_aead key networkID typ =
     (case new_aead key of
        Inl err \<Rightarrow> Inl (ErrCipher err)
      | Inr aead \<Rightarrow>
          let typ = (if typ = 0 then TypeIPv4 else typ)
          in Inr \<lparr>codec_networkID = networkID, codec_typ = typ, codec_aead = Some aead,
                  codec_nextSeq = 1, codec_replay = new_window\<rparr>)"

definition Codec_header :: "Codec \<Rightarrow> uint64 \<Rightarrow> bytes" where
  "Codec_header c seq =
     (let h = replicate headerLen 0;
          h = put_at h 0 magic;
          h = h[4 := frameVersion];
          h = h[5 := codec_typ c];
          h = h[6 := 0];
          h = h[7 := 0];
          h = put_at h 8 (be64 (codec_networkID c))
      in put_at h 16 (be64 seq))"

definition Codec_Seal :: "Codec option \<Rightarrow> bytes \<Rightarrow> Codec option \<times> (packet_error + bytes)" where
  "Codec_Seal p payload =
     (case p of
        None \<Rightarrow> (None, Inl ErrBadKey)
      | Some c \<Rightarrow>
          (case codec_aead c of
            None \<Rightarrow> (Some c, Inl ErrBadKey)
          | Some aead \<Rightarrow>
              let seq = codec_nextSeq c;
                  c = c\<lparr>codec_nextSeq := codec_nextSeq c + 1\<rparr>;
                  hdr = Codec_header c seq;
                  nonce = nonceFrom (codec_networkID c) seq
              in (Some c, Inr (aead_Seal aead hdr nonce payload hdr))))"

text \<open>\<open>None\<close> is the panic of an index out of range; \<open>Codec_Open_step\<close> below excludes it.\<close>

definition Codec_Open :: "Codec option \<Rightarrow> bytes \<Rightarrow> (Codec option \<times> (packet_error + bytes)) option" where
  "Codec_Open p frame =
     (case p of
        None \<Rightarrow> Some (None, Inl ErrBadKey)
      | Some c \<Rightarrow>
        (case codec_aead c of
          None \<Rightarrow> Some (Some c, Inl ErrBadKey)
        | Some aead \<Rightarrow>
            if length frame < headerLen + aead_Overhead aead then Some (Some c, Inl ErrFrame)
            else do {
              m \<leftarrow> Prelude.slice frame 0 4;
              v \<leftarrow> index frame 4;
              if m \<noteq> magic \<or> v \<noteq> frameVersion then Some (Some c, Inl ErrFrame)
              else do {
                t \<leftarrow> index frame 5;
                if t \<noteq> codec_typ c then Some (Some c, Inl ErrFrame)
                else do {
                  networkID \<leftarrow> Prelude.slice frame 8 16 \<bind> Uint64;
                  if networkID \<noteq> codec_networkID c then Some (Some c, Inl ErrFrame)
                  else do {
                    seq \<leftarrow> Prelude.slice frame 16 24 \<bind> Uint64;
                    (case Accept (codec_replay c) seq of
                      (w, False) \<Rightarrow> Some (Some (c\<lparr>codec_replay := w\<rparr>), Inl ErrReplay)
                    | (w, True) \<Rightarrow> do {
                        hdr \<leftarrow> Prelude.slice frame 0 headerLen;
                        body \<leftarrow> Prelude.slice frame headerLen (length frame);
                        (case aead_Open aead [] (nonceFrom networkID seq) body hdr of
                           Inl err \<Rightarrow> Some (Some (c\<lparr>codec_replay := Rollback w seq\<rparr>), Inl (ErrFrameBecause err))
                         | Inr plain \<Rightarrow> Some (Some (c\<lparr>codec_replay := w\<rparr>), Inr plain)) }) } } } }))"

subsection \<open>Session keys\<close>

definition hkdfKey ::
  "(bytes \<Rightarrow> bytes \<Rightarrow> bytes \<Rightarrow> string + bytes) \<Rightarrow> bytes \<Rightarrow> bytes \<Rightarrow> bytes \<Rightarrow> packet_error + bytes"
where
  "hkdfKey hkdf secret salt info =
     (case hkdf secret salt info of Inl err \<Rightarrow> Inl (ErrDerive err) | Inr key \<Rightarrow> Inr key)"

definition session_salt :: "uint64 \<Rightarrow> string \<Rightarrow> string \<Rightarrow> string \<Rightarrow> bytes" where
  "session_salt networkID sessionID deviceA deviceB =
     (let devices = sort [deviceA, deviceB];
          salt = be64 networkID;
          salt = salt @ [0];
          salt = salt @ bytes_of sessionID;
          salt = salt @ [0];
          salt = salt @ bytes_of (devices ! 0);
          salt = salt @ [0]
      in salt @ bytes_of (devices ! 1))"

definition DeriveSessionKeys ::
  "(bytes \<Rightarrow> bytes \<Rightarrow> bytes \<Rightarrow> string + bytes) \<Rightarrow> bytes \<Rightarrow> uint64 \<Rightarrow> string \<Rightarrow> string \<Rightarrow> string \<Rightarrow>
     packet_error + SessionKeys"
where
  "DeriveSessionKeys hkdf sharedSecret networkID sessionID deviceA deviceB =
     (if sharedSecret = [] then Inl ErrBadKey
      else
        let salt = session_salt networkID sessionID deviceA deviceB in
        case hkdfKey hkdf sharedSecret salt (bytes_of ''udp-tunnel-lan/session/v1/a-to-b'') of
          Inl err \<Rightarrow> Inl err
        | Inr ab \<Rightarrow>
            (case hkdfKey hkdf sharedSecret salt (bytes_of ''udp-tunnel-lan/session/v1/b-to-a'') of
              Inl err \<Rightarrow> Inl err
            | Inr ba \<Rightarrow> Inr \<lparr>keys_AB = ab, keys_BA = ba\<rparr>))"

subsection \<open>What the window promises: an ideal window\<close>

text \<open>The specification of the window: the highest number accepted and the set of the accepted
  numbers less than 64 below it, over unbounded naturals.\<close>

definition spec_accept :: "nat \<times> nat set \<Rightarrow> nat \<Rightarrow> (nat \<times> nat set) \<times> bool" where
  "spec_accept S s =
     (if s = 0 \<or> s + 64 \<le> fst S \<or> s \<in> snd S then (S, False)
      else (let top = max (fst S) s in ((top, {t \<in> insert s (snd S). top < t + 64}), True)))"

definition seen :: "replayWindow \<Rightarrow> nat set" where
  "seen w = {s. 0 < s \<and> s \<le> unat (rw_max w) \<and> unat (rw_max w) < s + 64
              \<and> bit (rw_bits w) (unat (rw_max w) - s)}"

definition window_abs :: "replayWindow \<Rightarrow> nat \<times> nat set" where
  "window_abs w = (unat (rw_max w), seen w)"

lemma unat_seq_pos [simp]: "0 < unat s \<longleftrightarrow> s \<noteq> 0" for s :: uint64
  by (simp add: unat_gt_0)

lemma unat_minus: "s \<le> m \<Longrightarrow> unat (m - s) = unat m - unat s" for s m :: uint64
  by (simp add: unat_sub)

lemma window_size_le: "s \<le> m \<Longrightarrow> replayWindowSize \<le> m - s \<longleftrightarrow> unat s + 64 \<le> unat m" for s m :: uint64
  using unat_minus [of s m] by (simp add: replayWindowSize_def word_le_nat_alt) linarith

lemma in_seen_unat:
  "unat s \<in> seen w \<longleftrightarrow> s \<noteq> 0 \<and> s \<le> rw_max w \<and> unat (rw_max w) < unat s + 64
     \<and> bit (rw_bits w) (unat (rw_max w) - unat s)"
  by (simp add: seen_def word_le_nat_alt)

lemma Accept_iff:
  "snd (Accept w s) \<longleftrightarrow> s \<noteq> 0 \<and> unat (rw_max w) < unat s + 64 \<and> unat s \<notin> seen w"
proof (cases "s = 0 \<or> rw_max w = 0 \<or> rw_max w < s")
  case True
  then show ?thesis
    by (auto simp: Accept_def in_seen_unat Let_def dest: less_imp_le simp: word_less_nat_alt not_le)
next
  case False
  then have le: "s \<le> rw_max w" by (simp add: not_less)
  show ?thesis
  proof (cases "replayWindowSize \<le> rw_max w - s")
    case True
    with False le show ?thesis by (simp add: Accept_def window_size_le)
  next
    case small: False
    then have "unat (rw_max w) < unat s + 64" using le by (simp add: window_size_le)
    with False le small show ?thesis
      by (simp add: Accept_def in_seen_unat Let_def unat_minus and_exp_eq_0_iff_not_bit)
  qed
qed

lemma Accept_refused: "\<not> snd (Accept w s) \<Longrightarrow> fst (Accept w s) = w"
  by (auto simp: Accept_def Let_def split: if_splits)

lemma Accept_max: "snd (Accept w s) \<Longrightarrow> rw_max (fst (Accept w s)) = max (rw_max w) s"
  by (auto simp: Accept_def Let_def max_def split: if_splits)

lemma Accept_newer:
  assumes "rw_max w < s"
  shows "\<exists>w'. Accept w s = (w', True) \<and> rw_max w' = s"
proof -
  have "snd (Accept w s)"
    using assms by (auto simp: Accept_def Let_def)
  moreover have "max (rw_max w) s = s" using assms by simp
  ultimately show ?thesis using Accept_max [of w s] by (cases "Accept w s") auto
qed

lemma seen_advance:
  assumes "rw_max w < s"
  shows "seen \<lparr>rw_max = s, rw_bits = (if replayWindowSize \<le> s - rw_max w then 1
             else push_bit (unat (s - rw_max w)) (rw_bits w) OR 1)\<rparr>
       = {t \<in> insert (unat s) (seen w). unat s < t + 64}" (is "seen ?w' = ?R")
proof (rule set_eqI)
  fix t
  have lt: "unat (rw_max w) < unat s" using assms by (simp add: word_less_nat_alt)
  have sz: "replayWindowSize \<le> s - rw_max w \<longleftrightarrow> unat (rw_max w) + 64 \<le> unat s"
    using assms by (simp add: window_size_le)
  have sh: "unat (s - rw_max w) = unat s - unat (rw_max w)" using assms by (simp add: unat_minus)
  show "t \<in> seen ?w' \<longleftrightarrow> t \<in> ?R"
  proof (cases "unat (rw_max w) + 64 \<le> unat s")
    case True
    then show ?thesis using lt by (auto simp: seen_def sz bit_1_iff)
  next
    case False
    have "bit (push_bit (unat s - unat (rw_max w)) (rw_bits w) OR 1) (unat s - t)
        \<longleftrightarrow> t = unat s \<or> t \<le> unat (rw_max w) \<and> bit (rw_bits w) (unat (rw_max w) - t)"
      if "t \<le> unat s" "unat s < t + 64"
    proof -
      have "unat s - t - (unat s - unat (rw_max w)) = unat (rw_max w) - t" using that lt by linarith
      then show ?thesis using that lt by (auto simp: bit_simps)
    qed
    then show ?thesis using False lt by (auto simp: seen_def sz sh)
  qed
qed

lemma seen_mark:
  assumes "s \<noteq> 0" "s \<le> rw_max w" "unat (rw_max w) < unat s + 64"
  shows "seen (w\<lparr>rw_bits := rw_bits w OR push_bit (unat (rw_max w - s)) 1\<rparr>) = insert (unat s) (seen w)"
proof (rule set_eqI)
  fix t
  have le: "unat s \<le> unat (rw_max w)" using assms(2) by (simp add: word_le_nat_alt)
  have "unat (rw_max w) - t = unat (rw_max w) - unat s \<longleftrightarrow> t = unat s" if "t \<le> unat (rw_max w)"
    using that le by linarith
  then show "t \<in> seen (w\<lparr>rw_bits := rw_bits w OR push_bit (unat (rw_max w - s)) 1\<rparr>)
      \<longleftrightarrow> t \<in> insert (unat s) (seen w)"
    using assms le by (auto simp: seen_def unat_minus bit_simps)
qed

lemma seen_window: "t \<in> seen w \<Longrightarrow> unat (rw_max w) < t + 64"
  by (simp add: seen_def)

lemma seen_first: "s \<noteq> 0 \<Longrightarrow> seen \<lparr>rw_max = s, rw_bits = 1\<rparr> = {unat s}"
  by (auto simp: seen_def bit_1_iff)

lemma seen_Accept:
  assumes "snd (Accept w s)"
  shows "seen (fst (Accept w s)) = {t \<in> insert (unat s) (seen w). unat (max (rw_max w) s) < t + 64}"
proof -
  have s: "s \<noteq> 0" "unat (rw_max w) < unat s + 64" using assms by (simp_all add: Accept_iff)
  consider "rw_max w = 0" | "rw_max w \<noteq> 0" "rw_max w < s" | "rw_max w \<noteq> 0" "s \<le> rw_max w"
    by (meson linorder_le_less_linear)
  then show ?thesis
  proof cases
    case 1
    then have "seen w = {}" by (auto simp: seen_def)
    with 1 s show ?thesis by (auto simp: Accept_def seen_first max_def)
  next
    case 2
    then show ?thesis using s seen_advance [of w s] by (simp add: Accept_def Let_def max_absorb2)
  next
    case 3
    have "fst (Accept w s) = w\<lparr>rw_bits := rw_bits w OR push_bit (unat (rw_max w - s)) 1\<rparr>"
      using assms 3 by (auto simp: Accept_def Let_def split: if_splits)
    then have "seen (fst (Accept w s)) = insert (unat s) (seen w)"
      using seen_mark [OF s(1) 3(2) s(2)] by simp
    also have "\<dots> = {t \<in> insert (unat s) (seen w). unat (max (rw_max w) s) < t + 64}"
      using 3(2) s(2) seen_window by (auto simp: max_def)
    finally show ?thesis .
  qed
qed

lemma seen_Rollback:
  "seen (Rollback w s) = seen w - {unat s}"
proof (rule set_eqI)
  fix t
  have eq: "unat (rw_max w) - t = unat (rw_max w) - unat s \<longleftrightarrow> t = unat s"
    if "t \<le> unat (rw_max w)" "unat s \<le> unat (rw_max w)" for t
    using that by linarith
  show "t \<in> seen (Rollback w s) \<longleftrightarrow> t \<in> seen w - {unat s}"
  proof (cases "s \<le> rw_max w")
    case True
    then have le: "unat s \<le> unat (rw_max w)" by (simp add: word_le_nat_alt)
    have u: "unat (rw_max w - s) = unat (rw_max w) - unat s" using True by (rule unat_minus)
    have d: "rw_max w - s < replayWindowSize \<longleftrightarrow> unat (rw_max w) < unat s + 64"
      using window_size_le [OF True] by (simp add: not_le [symmetric])
    show ?thesis
    proof (cases "rw_max w = s")
      case True
      then show ?thesis by (auto simp: Rollback_def seen_def bit_simps)
    next
      case False
      then show ?thesis
        using True le d eq [of t] by (auto simp: Rollback_def Let_def seen_def bit_simps u)
    qed
  next
    case False
    then have "Rollback w s = w" by (auto simp: Rollback_def)
    then show ?thesis using False by (auto simp: seen_def word_le_nat_alt)
  qed
qed

lemma Rollback_max [simp]: "rw_max (Rollback w s) = rw_max w"
  by (simp add: Rollback_def Let_def)

text \<open>C1. The 64-bit window, with its shifts and masks on machine words, implements the ideal window:
  \<^verbatim>\<open>Accept\<close> returns the verdict of the specification and leaves the state that represents the
  specification's next state, for every state and every sequence number.\<close>

theorem Accept_refines:
  "(window_abs (fst (Accept w s)), snd (Accept w s)) = spec_accept (window_abs w) (unat s)"
proof (cases "snd (Accept w s)")
  case True
  then have ok: "s \<noteq> 0" "unat (rw_max w) < unat s + 64" "unat s \<notin> seen w" by (simp_all add: Accept_iff)
  then have "\<not> unat s + 64 \<le> unat (rw_max w)" by simp
  moreover have "max (unat (rw_max w)) (unat s) = unat (max (rw_max w) s)"
    by (simp add: max_def word_le_nat_alt)
  ultimately show ?thesis
    using True ok by (simp add: spec_accept_def window_abs_def seen_Accept Accept_max unat_eq_0 Let_def)
next
  case False
  then show ?thesis
    using Accept_refused [OF False]
    by (auto simp: spec_accept_def window_abs_def Accept_iff unat_eq_0 not_less)
qed

subsection \<open>The contract of a replay filter\<close>

locale replay_filter =
  fixes accept :: "'w \<Rightarrow> 's \<Rightarrow> 'w \<times> bool"
    and rollback :: "'w \<Rightarrow> 's \<Rightarrow> 'w"
  assumes accept_once: "snd (accept w s) \<Longrightarrow> \<not> snd (accept (fst (accept w s)) s)"
    and accept_keeps: "\<not> snd (accept w s) \<Longrightarrow> \<not> snd (accept (fst (accept w t)) s)"
    and rollback_keeps:
      "\<not> snd (accept w s) \<Longrightarrow> snd (accept w t) \<Longrightarrow> \<not> snd (accept (rollback (fst (accept w t)) t) s)"
begin

text \<open>One frame: its number is offered to the filter first, and taken back when the frame then
  fails authentication.  The verdict is whether the frame is delivered.\<close>

definition filter_step :: "'w \<Rightarrow> 's \<Rightarrow> bool \<Rightarrow> 'w \<times> bool" where
  "filter_step w s authentic =
     (case accept w s of
        (w', False) \<Rightarrow> (w', False)
      | (w', True) \<Rightarrow> if authentic then (w', True) else (rollback w' s, False))"

fun deliver :: "'w \<Rightarrow> ('s \<times> bool) list \<Rightarrow> 's list" where
  "deliver w [] = []"
| "deliver w ((s, authentic) # evs) =
     (if snd (filter_step w s authentic) then [s] else []) @ deliver (fst (filter_step w s authentic)) evs"

lemma blocked_step:
  assumes "\<not> snd (accept w s)"
  shows "\<not> snd (accept (fst (filter_step w t authentic)) s)"
  using assms accept_keeps [of w s t] rollback_keeps [of w s t]
  by (auto simp: filter_step_def split: prod.splits bool.splits)

lemma delivered_blocks:
  "snd (filter_step w s authentic) \<Longrightarrow> \<not> snd (accept (fst (filter_step w s authentic)) s)"
  using accept_once [of w s] by (auto simp: filter_step_def split: prod.splits bool.splits if_splits)

lemma delivered_accepted: "snd (filter_step w s authentic) \<Longrightarrow> snd (accept w s)"
  by (auto simp: filter_step_def split: prod.splits bool.splits)

lemma blocked_never_delivered: "\<not> snd (accept w s) \<Longrightarrow> s \<notin> set (deliver w evs)"
proof (induction evs arbitrary: w)
  case (Cons ev evs)
  obtain t authentic where ev: "ev = (t, authentic)" by (cases ev)
  have "s \<notin> set (deliver (fst (filter_step w t authentic)) evs)"
    using Cons.IH blocked_step [OF Cons.prems] by blast
  moreover have "snd (filter_step w t authentic) \<Longrightarrow> s \<noteq> t"
    using delivered_accepted Cons.prems by blast
  ultimately show ?case by (auto simp: ev)
qed simp

theorem deliver_distinct: "distinct (deliver w evs)"
proof (induction evs arbitrary: w)
  case (Cons ev evs)
  then show ?case
    by (cases ev) (auto dest!: delivered_blocks blocked_never_delivered)
qed simp

end

interpretation window: replay_filter Accept Rollback
proof
  fix w :: replayWindow and s t :: uint64
  have mem: "unat s \<in> seen (fst (Accept w t))"
    if "unat s \<in> insert (unat t) (seen w)" "unat (max (rw_max w) t) < unat s + 64" "snd (Accept w t)"
    for w :: replayWindow and s t :: uint64
    using that by (simp add: seen_Accept)
  have keeps: "\<not> snd (Accept w' s)"
    if "\<not> snd (Accept w s)" "snd (Accept w t)" "rw_max w' = max (rw_max w) t"
       "seen w' \<supseteq> seen (fst (Accept w t)) - {unat t}" for w'
  proof -
    have "unat s \<noteq> unat t" using that(1,2) by (metis word_unat_eq_iff)
    have ge: "unat (rw_max w) \<le> unat (max (rw_max w) t)"
      by (simp add: word_le_nat_alt [symmetric])
    show ?thesis
    proof (cases "s \<noteq> 0 \<and> unat (max (rw_max w) t) < unat s + 64")
      case True
      then have "unat s \<in> seen w" using that(1) ge by (simp add: Accept_iff)
      then have "unat s \<in> seen w'" using True mem [of s t w] that(2,4) \<open>unat s \<noteq> unat t\<close> by auto
      then show ?thesis by (simp add: Accept_iff)
    next
      case False
      then show ?thesis using that(3) by (auto simp: Accept_iff)
    qed
  qed
  show "snd (Accept w s) \<Longrightarrow> \<not> snd (Accept (fst (Accept w s)) s)"
    using mem [of s s w] by (cases "rw_max w \<le> s") (auto simp: Accept_iff max_def)
  show "\<not> snd (Accept w s) \<Longrightarrow> \<not> snd (Accept (fst (Accept w t)) s)"
    using keeps [of "fst (Accept w t)"] by (cases "snd (Accept w t)") (auto simp: Accept_max Accept_refused)
  show "\<not> snd (Accept w s) \<Longrightarrow> snd (Accept w t) \<Longrightarrow> \<not> snd (Accept (Rollback (fst (Accept w t)) t) s)"
    using keeps [of "Rollback (fst (Accept w t)) t"] by (simp add: Accept_max seen_Rollback)
qed

text \<open>A frame that fails authentication does not use up the number it carries: the genuine frame
  with that number is still accepted afterwards.\<close>

lemma Rollback_readmits:
  assumes "snd (Accept w s)"
  shows "snd (Accept (Rollback (fst (Accept w s)) s) s)"
  using assms by (auto simp: Accept_iff Accept_max seen_Rollback max_def)

subsection \<open>Frames\<close>

lemma header_layout:
  "Codec_header c seq = magic @ [frameVersion, codec_typ c, 0, 0] @ be64 (codec_networkID c) @ be64 seq"
  by (simp add: Codec_header_def Let_def put_at_def headerLen_def magic_def bytes_of_def numeral_eq_Suc
      take_Suc_conv_app_nth)

lemma length_header [simp]: "length (Codec_header c seq) = headerLen"
  by (simp add: header_layout headerLen_def magic_def)

definition aead_correct :: "cipherAEAD \<Rightarrow> bool" where
  "aead_correct A \<longleftrightarrow> (\<forall>dst nonce plain ad. \<exists>body.
     aead_Seal A dst nonce plain ad = dst @ body \<and> length body = length plain + aead_Overhead A
     \<and> aead_Open A [] nonce body ad = Inr plain)"

definition frame_seq :: "bytes \<Rightarrow> uint64 option" where
  "frame_seq frame = Prelude.slice frame 16 24 \<bind> Uint64"

lemma slice_Uint64: "a + 8 \<le> length xs \<Longrightarrow> \<exists>v. Prelude.slice xs a (a + 8) \<bind> Uint64 = Some v"
  using Uint64_Some [of "take 8 (drop a xs)"] by (simp add: slice_ok)

text \<open>Opening never panics, and it treats the window as the filter contract says: either the frame
  is refused unseen and the codec is unchanged, or its number went through one filter step.\<close>

lemma Codec_Open_step:
  "\<exists>c' r. Codec_Open (Some c) frame = Some (Some c', r)
     \<and> (c' = c \<and> isl r
        \<or> (\<exists>s authentic. frame_seq frame = Some s
             \<and> c' = c\<lparr>codec_replay := fst (window.filter_step (codec_replay c) s authentic)\<rparr>
             \<and> (isl r \<longleftrightarrow> \<not> snd (window.filter_step (codec_replay c) s authentic))))"
proof (cases "codec_aead c")
  case None
  then show ?thesis by (simp add: Codec_Open_def)
next
  case (Some A)
  show ?thesis
  proof (cases "length frame < headerLen + aead_Overhead A")
    case True
    then show ?thesis by (simp add: Codec_Open_def Some)
  next
    case False
    then have len: "24 \<le> length frame" by (simp add: headerLen_def)
    obtain i where i: "Prelude.slice frame 8 16 \<bind> Uint64 = Some i" using slice_Uint64 [of 8 frame] len by auto
    obtain s where s: "Prelude.slice frame 16 24 \<bind> Uint64 = Some s" using slice_Uint64 [of 16 frame] len by auto
    obtain w ok where w: "Accept (codec_replay c) s = (w, ok)" by (cases "Accept (codec_replay c) s")
    define ct where "ct = aead_Open A [] (nonceFrom i s) (drop headerLen frame) (take headerLen frame)"
    have pre: "Prelude.slice frame 0 4 = Some (take 4 frame)" "index frame 4 = Some (frame ! 4)"
      "index frame 5 = Some (frame ! 5)" "Prelude.slice frame 0 headerLen = Some (take headerLen frame)"
      "Prelude.slice frame headerLen (length frame) = Some (drop headerLen frame)"
      using len by (simp_all add: go_slice headerLen_def)
    note eval = Codec_Open_def Some pre i s w window.filter_step_def frame_seq_def
    show ?thesis
    proof (cases ok)
      case False
      then show ?thesis using \<open>\<not> length frame < headerLen + aead_Overhead A\<close>
        using Accept_refused [of "codec_replay c" s] by (simp add: eval)
    next
      case True
      then show ?thesis using \<open>\<not> length frame < headerLen + aead_Overhead A\<close>
        by (cases ct) (auto simp: eval ct_def)
    qed
  qed
qed

subsection \<open>Sequences of frames\<close>

fun seal_all :: "Codec option \<Rightarrow> bytes list \<Rightarrow> Codec option \<times> (packet_error + bytes) list" where
  "seal_all p [] = (p, [])"
| "seal_all p (m # ms) =
     (let (p', r) = Codec_Seal p m; (p'', rs) = seal_all p' ms in (p'', r # rs))"

fun open_all :: "Codec option \<Rightarrow> bytes list \<Rightarrow> (Codec option \<times> (packet_error + bytes) list) option" where
  "open_all p [] = Some (p, [])"
| "open_all p (f # fs) =
     do { (p', r) \<leftarrow> Codec_Open p f; (p'', rs) \<leftarrow> open_all p' fs; Some (p'', r # rs) }"

definition delivered_seqs :: "bytes list \<Rightarrow> (packet_error + bytes) list \<Rightarrow> uint64 option list" where
  "delivered_seqs frames rs = map (\<lambda>(f, r). frame_seq f) (filter (\<lambda>(f, r). \<not> isl r) (zip frames rs))"

lemma open_all_filter:
  "\<exists>q rs evs. open_all (Some c) frames = Some (q, rs) \<and> length rs = length frames
     \<and> delivered_seqs frames rs = map Some (window.deliver (codec_replay c) evs)"
proof (induction frames arbitrary: c)
  case Nil
  then show ?case by (auto simp: delivered_seqs_def intro: exI [of _ "[]"])
next
  case (Cons f fs)
  obtain c' r where o: "Codec_Open (Some c) f = Some (Some c', r)"
    and step: "c' = c \<and> isl r
        \<or> (\<exists>s authentic. frame_seq f = Some s
             \<and> c' = c\<lparr>codec_replay := fst (window.filter_step (codec_replay c) s authentic)\<rparr>
             \<and> (isl r \<longleftrightarrow> \<not> snd (window.filter_step (codec_replay c) s authentic)))"
    using Codec_Open_step [of c f] by blast
  obtain q rs evs where IH: "open_all (Some c') fs = Some (q, rs)" "length rs = length fs"
    "delivered_seqs fs rs = map Some (window.deliver (codec_replay c') evs)"
    using Cons.IH [of c'] by blast
  have "\<exists>evs'. delivered_seqs (f # fs) (r # rs) = map Some (window.deliver (codec_replay c) evs')"
    using step
  proof (elim disjE exE conjE)
    assume "c' = c" "isl r"
    then show ?thesis using IH(3) by (auto simp: delivered_seqs_def)
  next
    fix s authentic
    assume s: "frame_seq f = Some s" "isl r \<longleftrightarrow> \<not> snd (window.filter_step (codec_replay c) s authentic)"
      "c' = c\<lparr>codec_replay := fst (window.filter_step (codec_replay c) s authentic)\<rparr>"
    have "delivered_seqs (f # fs) (r # rs)
        = map Some (window.deliver (codec_replay c) ((s, authentic) # evs))"
      using IH(3) s by (simp add: delivered_seqs_def)
    then show ?thesis by blast
  qed
  then show ?case using o IH(1,2) by auto
qed

text \<open>C2. Whatever frames the network hands to a codec, in any order, forged, repeated or cut short:
  opening never panics, every frame gets an answer, and no sequence number is delivered twice.\<close>

theorem open_all_no_replay:
  "\<exists>q rs. open_all (Some c) frames = Some (q, rs) \<and> length rs = length frames
     \<and> distinct (delivered_seqs frames rs)"
proof -
  obtain q rs evs where "open_all (Some c) frames = Some (q, rs)" "length rs = length frames"
    "delivered_seqs frames rs = map Some (window.deliver (codec_replay c) evs)"
    using open_all_filter by blast
  then show ?thesis using window.deliver_distinct by (auto simp: distinct_map)
qed

definition paired :: "cipherAEAD \<Rightarrow> Codec \<Rightarrow> Codec \<Rightarrow> bool" where
  "paired A a b \<longleftrightarrow> codec_aead a = Some A \<and> codec_aead b = Some A
     \<and> codec_networkID a = codec_networkID b \<and> codec_typ a = codec_typ b"

lemma Open_Seal:
  assumes "aead_correct A" "paired A a b"
    and new: "rw_max (codec_replay b) < codec_nextSeq a"
  obtains frame w where
    "Codec_Seal (Some a) m = (Some (a\<lparr>codec_nextSeq := codec_nextSeq a + 1\<rparr>), Inr frame)"
    "Codec_Open (Some b) frame = Some (Some (b\<lparr>codec_replay := w\<rparr>), Inr m)"
    "rw_max w = codec_nextSeq a"
proof -
  let ?s = "codec_nextSeq a" and ?h = "Codec_header a (codec_nextSeq a)"
  have ab: "codec_aead a = Some A" "codec_aead b = Some A"
    "codec_networkID a = codec_networkID b" "codec_typ a = codec_typ b"
    using assms(2) by (simp_all add: paired_def)
  obtain body where body: "aead_Seal A ?h (nonceFrom (codec_networkID a) ?s) m ?h = ?h @ body"
    "length body = length m + aead_Overhead A"
    "aead_Open A [] (nonceFrom (codec_networkID a) ?s) body ?h = Inr m"
    using assms(1) unfolding aead_correct_def by blast
  have hdr: "Codec_header (a\<lparr>codec_nextSeq := ?s + 1\<rparr>) ?s = ?h" by (simp add: header_layout)
  have "\<not> ?s = 0" "rw_max (codec_replay b) < ?s" using new by auto
  then obtain w where w: "Accept (codec_replay b) ?s = (w, True)" "rw_max w = ?s"
    using Accept_newer by blast
  have m4: "length magic = 4" by (simp add: magic_def)
  have l: "\<not> length (?h @ body) < headerLen + aead_Overhead A" by (simp add: body)
  have parse: "Prelude.slice (?h @ body) 0 4 = Some magic" "index (?h @ body) 4 = Some frameVersion"
    "index (?h @ body) 5 = Some (codec_typ b)"
    "Prelude.slice (?h @ body) 8 16 = Some (be64 (codec_networkID b))"
    "Prelude.slice (?h @ body) 16 24 = Some (be64 ?s)"
    using ab m4 by (simp_all add: header_layout go_slice nth_append)
  have parts: "Prelude.slice (?h @ body) 0 headerLen = Some ?h"
    "Prelude.slice (?h @ body) headerLen (length (?h @ body)) = Some body"
    by (simp_all add: go_slice)
  have u: "Uint64 (be64 v) = Some v" for v using Uint64_be64 [of v "[]"] by simp
  show ?thesis
  proof (rule that)
    show "Codec_Seal (Some a) m = (Some (a\<lparr>codec_nextSeq := ?s + 1\<rparr>), Inr (?h @ body))"
      by (simp add: Codec_Seal_def ab Let_def hdr flip: body(1))
    show "Codec_Open (Some b) (?h @ body) = Some (Some (b\<lparr>codec_replay := w\<rparr>), Inr m)"
      unfolding Codec_Open_def using ab l parse parts w(1) u body(3) by simp
  qed (rule w(2))
qed

definition surviving :: "bool list \<Rightarrow> 'a list \<Rightarrow> 'a list" where
  "surviving lost xs = map fst (filter (\<lambda>(x, l). \<not> l) (zip xs lost))"

lemma surviving_Cons [simp]:
  "surviving (l # ls) (x # xs) = (if l then surviving ls xs else x # surviving ls xs)"
  by (simp add: surviving_def)

lemma surviving_Nil [simp]: "surviving ls [] = []" "surviving [] xs = []"
  by (simp_all add: surviving_def)

lemma unat_next: "unat s + 1 < 2 ^ 64 \<Longrightarrow> unat (s + 1) = unat s + 1" for s :: uint64
  by (simp add: unat_word_ariths)

text \<open>C3. The two ends of a session agree.  Frames sealed by one end, before its 64-bit counter wraps,
  open at the other end to the payloads that were sealed, in order, whatever subset of the frames
  the network loses on the way.\<close>

theorem session_delivers:
  assumes "aead_correct A" "paired A a b" "rw_max (codec_replay b) < codec_nextSeq a"
    and "unat (codec_nextSeq a) + length ms \<le> 2 ^ 64"
  shows "\<exists>q. open_all (Some b) (surviving lost (map projr (snd (seal_all (Some a) ms))))
               = Some (q, map Inr (surviving lost ms))"
  using assms
proof (induction ms arbitrary: a b lost)
  case (Cons m ms)
  let ?a = "a\<lparr>codec_nextSeq := codec_nextSeq a + 1\<rparr>"
  obtain frame w where f: "Codec_Seal (Some a) m = (Some ?a, Inr frame)"
    "Codec_Open (Some b) frame = Some (Some (b\<lparr>codec_replay := w\<rparr>), Inr m)" "rw_max w = codec_nextSeq a"
    using Open_Seal [OF Cons.prems(1-3)] by blast
  show ?case
  proof (cases ms)
    case Nil
    then show ?thesis using f(1,2) by (cases lost) (auto simp: case_prod_beta)
  next
    case (Cons m' ms')
    have inc: "codec_nextSeq a < codec_nextSeq ?a"
      and bound: "unat (codec_nextSeq ?a) + length ms \<le> 2 ^ 64"
      using Cons.prems(4) Cons unat_next [of "codec_nextSeq a"] by (simp_all add: word_less_nat_alt)
    have pr: "paired A ?a b" "paired A ?a (b\<lparr>codec_replay := w\<rparr>)"
      using Cons.prems(2) by (simp_all add: paired_def)
    have lt: "rw_max (codec_replay b) < codec_nextSeq ?a"
      "rw_max (codec_replay (b\<lparr>codec_replay := w\<rparr>)) < codec_nextSeq ?a"
      using Cons.prems(3) inc f(3) by simp_all
    show ?thesis
    proof (cases lost)
      case Nil
      then show ?thesis by simp
    next
      case (Cons l ls)
      then show ?thesis
        using Cons.IH [OF Cons.prems(1) pr(1) lt(1) bound, of ls]
          Cons.IH [OF Cons.prems(1) pr(2) lt(2) bound, of ls] f(1,2)
        by (cases l) (auto simp: case_prod_beta)
    qed
  qed
qed simp

text \<open>A concrete AEAD for the witnesses: the tag is sixteen copies of the sum of the nonce, the
  plaintext and the additional data.\<close>

definition sum_tag :: "bytes \<Rightarrow> bytes \<Rightarrow> bytes \<Rightarrow> bytes" where
  "sum_tag nonce plain ad = replicate 16 (sum_list nonce + sum_list plain + sum_list ad + 1)"

definition sum_aead :: cipherAEAD where
  "sum_aead = \<lparr>aead_Seal = \<lambda>dst nonce plain ad. dst @ plain @ sum_tag nonce plain ad,
     aead_Open = \<lambda>dst nonce body ad.
       (let n = length body - 16 in
        if 16 \<le> length body \<and> drop n body = sum_tag nonce (take n body) ad
        then Inr (dst @ take n body) else Inl ''message authentication failed''),
     aead_Overhead = 16\<rparr>"

lemma sum_aead_correct: "aead_correct sum_aead"
  by (simp add: aead_correct_def sum_aead_def sum_tag_def)

definition demo_codec :: "uint64 \<Rightarrow> Codec" where
  "demo_codec n = \<lparr>codec_networkID = n, codec_typ = TypeIPv4, codec_aead = Some sum_aead,
     codec_nextSeq = 1, codec_replay = new_window\<rparr>"

theorem session_delivers_witness:
  "\<exists>q. open_all (Some (demo_codec 7))
        (surviving [False, True, False] (map projr (snd (seal_all (Some (demo_codec 7)) [[1], [2, 3], []]))))
      = Some (q, [Inr [1], Inr []])"
  using session_delivers [OF sum_aead_correct, of "demo_codec 7" "demo_codec 7" "[[1], [2, 3], []]"
      "[False, True, False]"]
  by (simp add: paired_def demo_codec_def new_window_def)

subsection \<open>What a forged frame can do\<close>

text \<open>The window moves before the frame is authenticated, and \<^verbatim>\<open>Rollback\<close> clears the bit of the
  number but leaves the highest number where the forged frame put it.\<close>

lemma accepted_max: "Accept w s = (w', True) \<Longrightarrow> rw_max w' = max (rw_max w) s"
  using Accept_max [of w s] by simp


definition demo_frame :: "uint64 \<Rightarrow> bytes" where
  "demo_frame s = Codec_header (demo_codec 7) s @ replicate 16 0"

lemma demo_frame_seq: "frame_seq (demo_frame s) = Some s"
  using Uint64_be64 [of s "[]"]
  by (simp add: frame_seq_def demo_frame_def header_layout magic_def go_slice)

lemma demo_forgery:
  "\<exists>c'. Codec_Open (Some (demo_codec 7)) (demo_frame 1000)
     = Some (Some c', Inl (ErrFrameBecause ''message authentication failed''))"
proof -
  have pre: "Prelude.slice (demo_frame 1000) 0 4 = Some magic" "index (demo_frame 1000) 4 = Some frameVersion"
    "index (demo_frame 1000) 5 = Some TypeIPv4"
    "Prelude.slice (demo_frame 1000) 0 headerLen = Some (Codec_header (demo_codec 7) 1000)"
    "Prelude.slice (demo_frame 1000) 8 16 = Some (be64 7)"
    "Prelude.slice (demo_frame 1000) headerLen (length (demo_frame 1000)) = Some (replicate 16 0)"
    by (simp_all add: demo_frame_def header_layout magic_def go_slice demo_codec_def headerLen_def nth_append)
  have s: "Prelude.slice (demo_frame 1000) 16 24 \<bind> Uint64 = Some 1000"
    using demo_frame_seq [of 1000] by (simp add: frame_seq_def)
  have l: "\<not> length (demo_frame 1000) < headerLen + 16" by (simp add: demo_frame_def)
  have u: "Uint64 (be64 7) = Some 7" using Uint64_be64 [of 7 "[]"] by simp
  have "sum_tag (nonceFrom 7 1000) [] (Codec_header (demo_codec 7) 1000) \<noteq> replicate 16 0"
    by (simp add: sum_tag_def nonceFrom_def header_layout magic_def bytes_of_def demo_codec_def
        be64_def be32_def be16_def frameVersion_def TypeIPv4_def)
  then show ?thesis
    using pre s l u
    by (simp add: Codec_Open_def demo_codec_def sum_aead_def Accept_def new_window_def)
qed


subsection \<open>Nonces and keys\<close>

lemma low_half_eq: "(ucast s :: uint32) = ucast t \<longleftrightarrow> unat s mod 2 ^ 32 = unat t mod 2 ^ 32"
  for s t :: uint64
  by (simp add: word_unat_eq_iff unsigned_ucast_eq take_bit_eq_mod)

text \<open>Under one key, two frames get the same nonce exactly when their sequence numbers agree
  modulo \<open>2 ^ 32\<close>: the first \<open>2 ^ 32\<close> frames of a session have distinct nonces, and the
  next one repeats the first nonce.\<close>

theorem nonceFrom_eq_iff:
  "nonceFrom n s = nonceFrom n t \<longleftrightarrow> unat s mod 2 ^ 32 = unat t mod 2 ^ 32"
proof -
  have "nonceFrom n s = nonceFrom n t \<longleftrightarrow> (ucast s :: uint32) = ucast t"
    using be32_inject by (auto simp: nonceFrom_def)
  then show ?thesis by (simp only: low_half_eq)
qed

text \<open>Both ends of a session derive the same keys, whichever of them is named first.\<close>

theorem DeriveSessionKeys_sym:
  "DeriveSessionKeys hkdf secret n sid a b = DeriveSessionKeys hkdf secret n sid b a"
proof -
  have "sort [a, b] = sort [b, a]" by (cases a b rule: linorder_cases) auto
  then show ?thesis by (simp add: DeriveSessionKeys_def session_salt_def)
qed

definition no_nul :: "string \<Rightarrow> bool" where
  "no_nul s \<longleftrightarrow> (0 :: byte) \<notin> set (bytes_of s)"

lemma append_separator:
  "z \<notin> set xs \<Longrightarrow> z \<notin> set ys \<Longrightarrow> xs @ z # us = ys @ z # vs \<longleftrightarrow> xs = ys \<and> us = vs"
proof (induction xs arbitrary: ys)
  case Nil
  then show ?case by (cases ys) auto
next
  case (Cons x xs)
  then show ?case by (cases ys) auto
qed

text \<open>The salt of the key derivation separates sessions: for session and device ids without NUL
  bytes, equal salts mean the same network, the same session and the same pair of devices.\<close>

theorem session_salt_inject:
  assumes "no_nul sid" "no_nul sid'" "no_nul a" "no_nul b" "no_nul a'" "no_nul b'"
    and "session_salt n sid a b = session_salt n' sid' a' b'"
  shows "n = n' \<and> sid = sid' \<and> {a, b} = {a', b'}"
proof -
  let ?d = "sort [a, b]" and ?e = "sort [a', b']"
  have d: "{?d ! 0, ?d ! 1} = {a, b}" "{?e ! 0, ?e ! 1} = {a', b'}" by auto
  have nn: "no_nul (?d ! 0)" "no_nul (?e ! 0)" using assms by auto
  have eq: "be64 n @ 0 # bytes_of sid @ 0 # bytes_of (?d ! 0) @ 0 # bytes_of (?d ! 1)
      = be64 n' @ 0 # bytes_of sid' @ 0 # bytes_of (?e ! 0) @ 0 # bytes_of (?e ! 1)"
    using assms(7) by (simp add: session_salt_def Let_def)
  then have "be64 n = be64 n'" and rest: "bytes_of sid @ 0 # bytes_of (?d ! 0) @ 0 # bytes_of (?d ! 1)
      = bytes_of sid' @ 0 # bytes_of (?e ! 0) @ 0 # bytes_of (?e ! 1)" by simp_all
  then have "n = n'" "sid = sid' \<and> ?d ! 0 = ?e ! 0 \<and> ?d ! 1 = ?e ! 1"
    using assms(1,2) nn unfolding no_nul_def
    by (simp_all only: be64_inject append_separator bytes_of_inject simp_thms)
  then show ?thesis using d by metis
qed

theorem session_salt_inject_witness:
  "session_salt 1 ''s1'' ''alice'' ''bob'' = session_salt 1 ''s1'' ''bob'' ''alice''
   \<and> {''alice'', ''bob''} = {''bob'', ''alice''}"
proof -
  have "session_salt 1 ''s1'' ''alice'' ''bob'' = session_salt 1 ''s1'' ''bob'' ''alice''"
    by (simp add: session_salt_def insort_key.simps)
  moreover have "no_nul ''s1''" "no_nul ''alice''" "no_nul ''bob''"
    by (simp_all add: no_nul_def bytes_of_def)
  ultimately show ?thesis
    using session_salt_inject [of "''s1''" "''s1''" "''alice''" "''bob''" "''bob''" "''alice''" 1 1] by blast
qed

end
