(* ===== verification/GoText.thy ===== *)
theory GoText
  imports Prelude
begin

text \<open>
  What the program uses of Go's \<^verbatim>\<open>strings\<close> and \<^verbatim>\<open>strconv\<close> packages: trimming, case folding,
  cutting, splitting and joining, and decimal numbers. \<open>TrimSpace\<close> knows the UTF-8 encodings of
  the runes of \<^verbatim>\<open>unicode.IsSpace\<close>. The decimal printer and parser are inverse to each other
  (\<open>Atoi_FormatInt\<close>), and the split and join functions round-trip (\<open>Split_Join\<close>).
\<close>

subsection \<open>Trimming\<close>

definition space_runes :: "string list" where
  "space_runes =
     map (\<lambda>n. [char_of (n::nat)]) [9, 10, 11, 12, 13, 32]
     @ map (\<lambda>n. [char_of (194::nat), char_of (n::nat)]) [133, 160]
     @ [[char_of (225::nat), char_of (154::nat), char_of (128::nat)]]
     @ map (\<lambda>n. [char_of (226::nat), char_of (128::nat), char_of (n::nat)])
         [128, 129, 130, 131, 132, 133, 134, 135, 136, 137, 138, 168, 169, 175]
     @ [[char_of (226::nat), char_of (129::nat), char_of (159::nat)],
        [char_of (227::nat), char_of (128::nat), char_of (128::nat)]]"

lemma find_prefix_shorter:
  "find (\<lambda>p. p \<noteq> [] \<and> prefix p s) ps = Some p \<Longrightarrow> length (drop (length p) s) < length s"
  by (cases s) (auto simp: find_Some_iff)

function strip :: "string list \<Rightarrow> string \<Rightarrow> string" where
  "strip ps s =
     (case find (\<lambda>p. p \<noteq> [] \<and> prefix p s) ps of
        None \<Rightarrow> s
      | Some p \<Rightarrow> strip ps (drop (length p) s))"
  by pat_completeness auto
termination
  by (relation "measure (\<lambda>(ps, s). length s)")
    (auto dest: find_prefix_shorter simp del: length_drop)

declare strip.simps [simp del]

definition TrimSpace :: "string \<Rightarrow> string" where
  "TrimSpace s = rev (strip (map rev space_runes) (rev (strip space_runes s)))"

text \<open>\<^verbatim>\<open>strings.TrimRight(s, cutset)\<close> and \<^verbatim>\<open>strings.Trim(s, cutset)\<close> for a cutset of ASCII characters.\<close>

definition TrimRight :: "string \<Rightarrow> string \<Rightarrow> string" where
  "TrimRight s cutset = rev (dropWhile (\<lambda>c. c \<in> set cutset) (rev s))"

definition Trim :: "string \<Rightarrow> string \<Rightarrow> string" where
  "Trim s cutset = TrimRight (dropWhile (\<lambda>c. c \<in> set cutset) s) cutset"

lemma strip_fixpoint: "find (\<lambda>p. p \<noteq> [] \<and> prefix p (strip ps s)) ps = None"
proof (induction ps s rule: strip.induct)
  case (1 ps s)
  show ?case
    by (cases "find (\<lambda>p. p \<noteq> [] \<and> prefix p s) ps")
      (use 1 in \<open>simp_all add: strip.simps [of ps s]\<close>)
qed

lemma strip_id: "find (\<lambda>p. p \<noteq> [] \<and> prefix p s) ps = None \<Longrightarrow> strip ps s = s"
  by (simp add: strip.simps)

lemma strip_idem [simp]: "strip ps (strip ps s) = strip ps s"
  by (simp add: strip_id strip_fixpoint)

lemma strip_Nil [simp]: "strip ps [] = []"
  by (rule strip_id) (auto simp: find_None_iff)

lemma strip_suffix: "suffix (strip ps s) s"
proof (induction ps s rule: strip.induct)
  case (1 ps s)
  show ?case
    by (cases "find (\<lambda>p. p \<noteq> [] \<and> prefix p s) ps")
      (use 1 in \<open>auto simp: strip.simps [of ps s] intro: suffix_order.trans suffix_drop\<close>)
qed

lemma TrimSpace_idem [simp]: "TrimSpace (TrimSpace s) = TrimSpace s"
proof -
  define u where "u = strip space_runes s"
  define v where "v = rev (strip (map rev space_runes) (rev u))"
  have "prefix v u" using strip_suffix [of "map rev space_runes" "rev u"] unfolding v_def
    by (metis rev_rev_ident suffix_to_prefix)
  moreover have "find (\<lambda>p. p \<noteq> [] \<and> prefix p u) space_runes = None" unfolding u_def by (rule strip_fixpoint)
  ultimately have "find (\<lambda>p. p \<noteq> [] \<and> prefix p v) space_runes = None"
    by (auto simp: find_None_iff intro: prefix_order.trans)
  then have "strip space_runes v = v" by (rule strip_id)
  moreover have "TrimSpace s = v" by (simp add: TrimSpace_def u_def v_def)
  ultimately show ?thesis by (simp add: TrimSpace_def) (simp add: v_def)
qed

lemma TrimSpace_Nil [simp]: "TrimSpace [] = []"
  by (simp add: TrimSpace_def)

text \<open>A string that starts and ends with an ASCII character other than a blank is not changed.\<close>

definition plain_char :: "char \<Rightarrow> bool" where
  "plain_char c \<longleftrightarrow> 33 \<le> (of_char c :: nat) \<and> (of_char c :: nat) < 127"

lemma space_runes_ends:
  "p \<in> set space_runes \<Longrightarrow> p \<noteq> [] \<and> \<not> plain_char (hd p) \<and> \<not> plain_char (last p)"
  by (auto simp: space_runes_def plain_char_def)

lemma prefix_hd: "prefix p s \<Longrightarrow> p \<noteq> [] \<Longrightarrow> hd s = hd p"
  by (auto simp: prefix_def)

lemma TrimSpace_plain:
  assumes "s \<noteq> []" "plain_char (hd s)" "plain_char (last s)"
  shows "TrimSpace s = s"
proof -
  have "strip space_runes s = s"
    using assms space_runes_ends by (intro strip_id) (auto simp: find_None_iff dest!: prefix_hd)
  moreover have "strip (map rev space_runes) (rev s) = rev s"
    using assms space_runes_ends
    by (intro strip_id) (auto simp: find_None_iff hd_rev dest!: prefix_hd)
  ultimately show ?thesis by (simp add: TrimSpace_def)
qed

text \<open>Trimming never empties a string that starts with such a character.\<close>

lemma strip_keeps_last:
  assumes "\<And>p. p \<in> set ps \<Longrightarrow> p \<noteq> [] \<Longrightarrow> last p \<noteq> c" "s \<noteq> []" "last s = c"
  shows "strip ps s \<noteq> [] \<and> last (strip ps s) = c"
  using assms
proof (induction ps s rule: strip.induct)
  case (1 ps s)
  show ?case
  proof (cases "find (\<lambda>p. p \<noteq> [] \<and> prefix p s) ps")
    case None
    then show ?thesis using 1 by (simp add: strip.simps [of ps s])
  next
    case (Some p)
    then have p: "p \<in> set ps" "p \<noteq> []" "prefix p s" by (auto simp: find_Some_iff)
    then obtain t where t: "s = p @ t" by (auto simp: prefix_def)
    have "t \<noteq> []" using p t 1(2) [OF p(1,2)] 1(4) by auto
    then have "strip ps t \<noteq> [] \<and> last (strip ps t) = c" using 1(1) [OF Some] 1(2,4) t by simp
    moreover have "strip ps s = strip ps t" using Some t by (subst strip.simps) simp
    ultimately show ?thesis by simp
  qed
qed

lemma TrimSpace_nonblank: "s \<noteq> [] \<Longrightarrow> plain_char (hd s) \<Longrightarrow> TrimSpace s \<noteq> []"
proof -
  assume s: "s \<noteq> []" "plain_char (hd s)"
  then have "strip space_runes s = s"
    using space_runes_ends by (intro strip_id) (auto simp: find_None_iff dest!: prefix_hd)
  moreover have "last p \<noteq> hd s" if "p \<in> set (map rev space_runes)" for p
    using that s(2) space_runes_ends by (auto simp: last_rev) metis
  then have "strip (map rev space_runes) (rev s) \<noteq> []"
    using strip_keeps_last [of "map rev space_runes" "hd s" "rev s"] s by (simp add: last_rev)
  ultimately show ?thesis by (simp add: TrimSpace_def)
qed

subsection \<open>Case, prefixes, cutting, splitting, joining\<close>

definition lower_char :: "char \<Rightarrow> char" where
  "lower_char c = (if 65 \<le> (of_char c :: nat) \<and> (of_char c :: nat) \<le> 90
     then char_of ((of_char c :: nat) + 32) else c)"

definition ToLower :: "string \<Rightarrow> string" where
  "ToLower s = map lower_char s"

definition EqualFold :: "string \<Rightarrow> string \<Rightarrow> bool" where
  "EqualFold s t \<longleftrightarrow> ToLower s = ToLower t"

definition HasPrefix :: "string \<Rightarrow> string \<Rightarrow> bool" where
  "HasPrefix s p \<longleftrightarrow> prefix p s"

definition TrimPrefix :: "string \<Rightarrow> string \<Rightarrow> string" where
  "TrimPrefix s p = (if prefix p s then drop (length p) s else s)"

fun Cut :: "string \<Rightarrow> char \<Rightarrow> (string \<times> string) option" where
  "Cut [] c = None"
| "Cut (x # xs) c = (if x = c then Some ([], xs)
     else map_option (\<lambda>(a, b). (x # a, b)) (Cut xs c))"

fun Split :: "string \<Rightarrow> char \<Rightarrow> string list" where
  "Split [] c = [[]]"
| "Split (x # xs) c = (if x = c then [] # Split xs c
     else (case Split xs c of y # ys \<Rightarrow> (x # y) # ys | [] \<Rightarrow> [[x]]))"

fun Join :: "string list \<Rightarrow> string \<Rightarrow> string" where
  "Join [] sep = []"
| "Join [s] sep = s"
| "Join (s # t # ss) sep = s @ sep @ Join (t # ss) sep"

lemma lower_char_idem [simp]: "lower_char (lower_char c) = lower_char c"
  by (auto simp: lower_char_def)

lemma ToLower_idem [simp]: "ToLower (ToLower s) = ToLower s"
  by (simp add: ToLower_def o_def)

lemma Split_nonempty [simp]: "Split s c \<noteq> []"
  by (induction s c rule: Split.induct) (auto split: list.splits)

lemma Split_no_sep: "c \<notin> set s \<Longrightarrow> Split s c = [s]"
  by (induction s c rule: Split.induct) auto

lemma Split_append: "c \<notin> set s \<Longrightarrow> Split (s @ c # t) c = s # Split t c"
  by (induction s) (auto split: list.splits)

lemma Split_Join:
  assumes "ss \<noteq> []" "\<forall>s \<in> set ss. c \<notin> set s"
  shows "Split (Join ss [c]) c = ss"
  using assms by (induction ss "[c]" rule: Join.induct) (auto simp: Split_no_sep Split_append)

lemma Join_inject:
  assumes "ss \<noteq> []" "ts \<noteq> []" "\<forall>s \<in> set ss. c \<notin> set s" "\<forall>t \<in> set ts. c \<notin> set t"
    and "Join ss [c] = Join ts [c]"
  shows "ss = ts"
  using assms Split_Join by metis

lemma Cut_append: "c \<notin> set s \<Longrightarrow> Cut (s @ c # t) c = Some (s, t)"
  by (induction s) auto

lemma Cut_eq_None: "Cut s c = None \<longleftrightarrow> c \<notin> set s"
  by (induction s c rule: Cut.induct) auto

lemma Cut_eq_Some: "Cut s c = Some (a, b) \<Longrightarrow> s = a @ c # b \<and> c \<notin> set a"
  by (induction s c arbitrary: a rule: Cut.induct) (auto split: if_splits)

subsection \<open>Decimal numbers\<close>

definition is_digit :: "char \<Rightarrow> bool" where
  "is_digit c \<longleftrightarrow> 48 \<le> (of_char c :: nat) \<and> (of_char c :: nat) \<le> 57"

definition digit_val :: "char \<Rightarrow> nat" where
  "digit_val c = of_char c - 48"

definition digit_char :: "nat \<Rightarrow> char" where
  "digit_char n = char_of (48 + n)"

function dec_nat :: "nat \<Rightarrow> string" where
  "dec_nat n = (if n < 10 then [digit_char n] else dec_nat (n div 10) @ [digit_char (n mod 10)])"
  by pat_completeness auto
termination by (relation "measure id") auto

declare dec_nat.simps [simp del]

definition dec_val :: "string \<Rightarrow> nat" where
  "dec_val s = foldl (\<lambda>v c. 10 * v + digit_val c) 0 s"

definition FormatInt :: "int \<Rightarrow> string" where
  "FormatInt i = (if i < 0 then CHR ''-'' # dec_nat (nat (- i)) else dec_nat (nat i))"

text \<open>\<^verbatim>\<open>strconv.Atoi\<close> and \<^verbatim>\<open>strconv.ParseInt(s, 10, 64)\<close>: an optional sign, decimal digits, the
  64-bit range.\<close>

definition Atoi :: "string \<Rightarrow> int option" where
  "Atoi s =
     (let neg = (s \<noteq> [] \<and> hd s = CHR ''-'');
          ds = (if s \<noteq> [] \<and> (hd s = CHR ''-'' \<or> hd s = CHR ''+'') then tl s else s);
          v = (if neg then - int (dec_val ds) else int (dec_val ds))
      in if ds = [] \<or> \<not> list_all is_digit ds \<or> v < - (2 ^ 63) \<or> 2 ^ 63 \<le> v then None else Some v)"

lemma digit_char_props [simp]:
  "n < 10 \<Longrightarrow> is_digit (digit_char n)" "n < 10 \<Longrightarrow> digit_val (digit_char n) = n"
  by (simp_all add: is_digit_def digit_val_def digit_char_def)

lemma dec_val_snoc [simp]: "dec_val (s @ [c]) = 10 * dec_val s + digit_val c"
  by (simp add: dec_val_def)

lemma dec_nat_digits: "list_all is_digit (dec_nat n)"
proof (induction n rule: dec_nat.induct)
  case (1 n)
  then show ?case by (subst dec_nat.simps) auto
qed

lemma dec_nat_nonempty [simp]: "dec_nat n \<noteq> []"
  by (subst dec_nat.simps) auto

lemma dec_val_dec_nat [simp]: "dec_val (dec_nat n) = n"
proof (induction n rule: dec_nat.induct)
  case (1 n)
  then show ?case by (subst dec_nat.simps) (auto simp: dec_val_def)
qed

lemma dec_nat_inject: "dec_nat m = dec_nat n \<longleftrightarrow> m = n"
  by (metis dec_val_dec_nat)

lemma dec_nat_not_sign: "c \<in> set (dec_nat n) \<Longrightarrow> is_digit c"
  using dec_nat_digits by (auto simp: list_all_iff)

lemma not_digit [simp]:
  "\<not> is_digit CHR ''-''" "\<not> is_digit CHR ''+''" "\<not> is_digit CHR ''.''" "\<not> is_digit CHR '':''"
  by (simp_all add: is_digit_def)

lemma hd_dec_nat: "is_digit (hd (dec_nat n))"
  by (rule dec_nat_not_sign [of _ n]) simp

lemma Atoi_FormatInt: "- (2 ^ 63) \<le> i \<Longrightarrow> i < 2 ^ 63 \<Longrightarrow> Atoi (FormatInt i) = Some i"
  using hd_dec_nat [of "nat i"] not_digit
  by (auto simp: Atoi_def FormatInt_def dec_nat_digits Let_def)

lemma FormatInt_inject: "FormatInt i = FormatInt j \<longleftrightarrow> i = j"
proof
  assume eq: "FormatInt i = FormatInt j"
  have "hd (dec_nat n) \<noteq> CHR ''-''" for n using hd_dec_nat [of n] by auto
  then have neq: "CHR ''-'' # s \<noteq> dec_nat n" for s n by (metis list.sel(1))
  then show "i = j"
    using eq neq [symmetric] by (auto simp: FormatInt_def dec_nat_inject split: if_splits)
qed simp

lemma split_at_nul: "a @ CHR 0x00 # b = c @ CHR 0x00 # d \<Longrightarrow> CHR 0x00 \<notin> set a \<Longrightarrow> CHR 0x00 \<notin> set c \<Longrightarrow> a = c \<and> b = d"
  by (induction a arbitrary: c) (case_tac c; auto)+

end
