(* ===== verification/GoNet.thy ===== *)
theory GoNet
  imports GoText
begin

text \<open>
  What the program uses of Go's \<^verbatim>\<open>net\<close> package: \<^verbatim>\<open>net.IP\<close> (4 or 16 bytes, \<open>[]\<close> for nil),
  \<^verbatim>\<open>ParseIP\<close>, \<^verbatim>\<open>To4\<close>, \<^verbatim>\<open>String\<close> of an IPv4 address, \<^verbatim>\<open>IPNet\<close> with \<^verbatim>\<open>ParseCIDR\<close>,
  \<^verbatim>\<open>Contains\<close>, \<^verbatim>\<open>Mask.Size\<close>, and \<^verbatim>\<open>JoinHostPort\<close>/\<^verbatim>\<open>SplitHostPort\<close>. The main facts: printing
  an IPv4 address and parsing it back gives the address (\<open>ParseIP_String\<close>), and membership in an
  IPv4 network is agreement on the mask (\<open>Contains4\<close>).
\<close>

type_synonym ip = bytes

subsection \<open>IPv4 text\<close>

definition parse_octet :: "string \<Rightarrow> byte option" where
  "parse_octet s =
     (if s = [] \<or> \<not> list_all is_digit s \<or> (1 < length s \<and> hd s = CHR ''0'') \<or> 255 < dec_val s
      then None else Some (of_nat (dec_val s)))"

definition parseIPv4 :: "string \<Rightarrow> bytes option" where
  "parseIPv4 s =
     (case Split s CHR ''.'' of
        [a, b, c, d] \<Rightarrow>
          do { w \<leftarrow> parse_octet a; x \<leftarrow> parse_octet b; y \<leftarrow> parse_octet c; z \<leftarrow> parse_octet d;
               Some [w, x, y, z] }
      | _ \<Rightarrow> None)"

definition IPv4String :: "bytes \<Rightarrow> string" where
  "IPv4String bs = Join (map (\<lambda>b. dec_nat (unat b)) bs) ''.''"

subsection \<open>IPv6 text\<close>

definition is_hex :: "char \<Rightarrow> bool" where
  "is_hex c \<longleftrightarrow> is_digit c \<or> (97 \<le> (of_char c :: nat) \<and> (of_char c :: nat) \<le> 102)
     \<or> (65 \<le> (of_char c :: nat) \<and> (of_char c :: nat) \<le> 70)"

definition hex_val :: "char \<Rightarrow> nat" where
  "hex_val c = (let n = of_char c in if is_digit c then n - 48 else if 97 \<le> n then n - 87 else n - 55)"

definition hex_group :: "string \<Rightarrow> uint16" where
  "hex_group s = of_nat (foldl (\<lambda>v c. 16 * v + hex_val c) 0 s)"

definition expand_ellipsis :: "bytes \<Rightarrow> nat option \<Rightarrow> bytes option" where
  "expand_ellipsis acc e =
     (if length acc < 16 then
        (case e of None \<Rightarrow> None
         | Some p \<Rightarrow> Some (take p acc @ replicate (16 - length acc) 0 @ drop p acc))
      else if e \<noteq> None then None else Some acc)"

text \<open>The loop of \<^verbatim>\<open>parseIPv6\<close>; a group adds two bytes, so eight rounds are enough.\<close>

fun parse_groups :: "nat \<Rightarrow> string \<Rightarrow> bytes \<Rightarrow> nat option \<Rightarrow> bytes option" where
  "parse_groups 0 s acc e = None"
| "parse_groups (Suc k) s acc e =
     (let ds = takeWhile is_hex s; r = dropWhile is_hex s; acc' = acc @ be16 (hex_group ds) in
      if ds = [] \<or> 4 < length ds then None
      else if r \<noteq> [] \<and> hd r = CHR ''.'' then
        (if (e = None \<and> length acc \<noteq> 12) \<or> 16 < length acc + 4 then None
         else do { v4 \<leftarrow> parseIPv4 s; expand_ellipsis (acc @ v4) e })
      else
        (case r of
           [] \<Rightarrow> expand_ellipsis acc' e
         | [_] \<Rightarrow> None
         | c # d # r' \<Rightarrow>
             if c \<noteq> CHR '':'' then None
             else if d = CHR '':'' then
               (if e \<noteq> None then None
                else if r' = [] then expand_ellipsis acc' (Some (length acc'))
                else parse_groups k r' acc' (Some (length acc')))
             else parse_groups k (d # r') acc' e))"

definition parseIPv6 :: "string \<Rightarrow> bytes option" where
  "parseIPv6 s =
     (if prefix ''::'' s then
        (if length s = 2 then Some (replicate 16 0) else parse_groups 8 (drop 2 s) [] (Some 0))
      else parse_groups 8 s [] None)"

subsection \<open>Parsing and printing addresses\<close>

definition v4InV6Prefix :: bytes where
  "v4InV6Prefix = replicate 10 0 @ [255, 255]"

text \<open>\<^verbatim>\<open>netip.ParseAddr\<close> without a zone: the first dot or colon decides the family. The result is the
  16-byte form with the bit length of the family.\<close>

definition ParseAddr :: "string \<Rightarrow> (bytes \<times> nat) option" where
  "ParseAddr s =
     (case filter (\<lambda>c. c = CHR ''.'' \<or> c = CHR '':'' \<or> c = CHR ''%'') s of
        [] \<Rightarrow> None
      | c # _ \<Rightarrow>
          if CHR ''%'' \<in> set s then None
          else if c = CHR ''.'' then map_option (\<lambda>v4. (v4InV6Prefix @ v4, 32)) (parseIPv4 s)
          else map_option (\<lambda>v6. (v6, 128)) (parseIPv6 s))"

definition ParseIP :: "string \<Rightarrow> ip" where
  "ParseIP s = (case ParseAddr s of None \<Rightarrow> [] | Some (b, _) \<Rightarrow> b)"

definition To4 :: "ip \<Rightarrow> ip" where
  "To4 i = (if length i = 4 then i
            else if length i = 16 \<and> take 12 i = v4InV6Prefix then drop 12 i else [])"

definition IP_Equal :: "ip \<Rightarrow> ip \<Rightarrow> bool" where
  "IP_Equal x y \<longleftrightarrow>
     (if length x = length y then x = y
      else if length x = 4 \<and> length y = 16 then take 12 y = v4InV6Prefix \<and> x = drop 12 y
      else if length x = 16 \<and> length y = 4 then take 12 x = v4InV6Prefix \<and> drop 12 x = y
      else False)"

subsection \<open>Networks\<close>

record IPNet =
  net_IP :: ip
  net_Mask :: bytes

definition mask_byte :: "nat \<Rightarrow> byte" where
  "mask_byte n = NOT (mask (8 - min 8 n))"

definition CIDRMask :: "nat \<Rightarrow> nat \<Rightarrow> bytes" where
  "CIDRMask ones bits = map (\<lambda>i. mask_byte (ones - 8 * i)) [0..<bits div 8]"

definition and_bytes :: "bytes \<Rightarrow> bytes \<Rightarrow> bytes" where
  "and_bytes xs ys = map2 (\<lambda>x y. x AND y) xs ys"

definition dtoi :: "string \<Rightarrow> nat option" where
  "dtoi s = (if s = [] \<or> \<not> list_all is_digit s \<or> 16777215 \<le> dec_val s then None else Some (dec_val s))"

text \<open>\<^verbatim>\<open>ParseCIDR\<close> returns the address in 16-byte form and the network in the form of its family.\<close>

definition ParseCIDR :: "string \<Rightarrow> (ip \<times> IPNet) option" where
  "ParseCIDR s =
     do { (addr, m) \<leftarrow> Cut s CHR ''/'';
          (b, bits) \<leftarrow> ParseAddr addr;
          n \<leftarrow> dtoi m;
          if bits < n then None
          else Some (b, \<lparr>net_IP = and_bytes (if bits = 32 then drop 12 b else b) (CIDRMask n bits),
                         net_Mask = CIDRMask n bits\<rparr>) }"

text \<open>\<^verbatim>\<open>networkNumberAndMask\<close> and \<^verbatim>\<open>IPNet.Contains\<close>.\<close>

definition network_and_mask :: "IPNet \<Rightarrow> bytes \<times> bytes" where
  "network_and_mask n =
     (let i = (if To4 (net_IP n) \<noteq> [] then To4 (net_IP n)
               else if length (net_IP n) = 16 then net_IP n else []);
          m = net_Mask n
      in if i = [] then ([], [])
         else if length m = 4 then (if length i = 4 then (i, m) else ([], []))
         else if length m = 16 then (i, if length i = 4 then drop 12 m else m)
         else ([], []))"

definition Contains :: "IPNet \<Rightarrow> ip \<Rightarrow> bool" where
  "Contains n i =
     (let (nn, m) = network_and_mask n; i' = (if To4 i \<noteq> [] then To4 i else i) in
      length i' = length nn \<and> and_bytes nn m = and_bytes i' m)"

definition Mask_Size :: "bytes \<Rightarrow> nat \<times> nat" where
  "Mask_Size m =
     (case filter (\<lambda>k. m = CIDRMask k (8 * length m)) [0..<8 * length m + 1] of
        k # _ \<Rightarrow> (k, 8 * length m)
      | [] \<Rightarrow> (0, 0))"

subsection \<open>Host and port\<close>

definition JoinHostPort :: "string \<Rightarrow> string \<Rightarrow> string" where
  "JoinHostPort host port =
     (if CHR '':'' \<in> set host then ''['' @ host @ '']:'' @ port else host @ '':'' @ port)"

text \<open>\<^verbatim>\<open>SplitHostPort\<close>; \<open>None\<close> is its error. The port is what follows the last colon.\<close>

definition SplitHostPort :: "string \<Rightarrow> (string \<times> string) option" where
  "SplitHostPort hp =
     (if CHR '':'' \<notin> set hp then None
      else
        let port = rev (takeWhile (\<lambda>c. c \<noteq> CHR '':'') (rev hp));
            i = length hp - length port - 1
        in if hd hp = CHR ''['' then
             (case Cut hp CHR '']'' of
                None \<Rightarrow> None
              | Some (a, b) \<Rightarrow>
                  if length a + 1 = length hp \<or> length a + 1 \<noteq> i then None
                  else if CHR ''['' \<in> set (tl a) \<or> CHR ''['' \<in> set b \<or> CHR '']'' \<in> set b then None
                  else Some (tl a, port))
           else
             (let host = take i hp in
              if CHR '':'' \<in> set host \<or> CHR ''['' \<in> set hp \<or> CHR '']'' \<in> set hp then None
              else Some (host, port)))"

subsection \<open>Facts\<close>

lemma split_four:
  assumes "CHR ''.'' \<notin> set a" "CHR ''.'' \<notin> set b" "CHR ''.'' \<notin> set c" "CHR ''.'' \<notin> set d"
  shows "Split (Join [a, b, c, d] ''.'') CHR ''.'' = [a, b, c, d]"
  using assms by (intro Split_Join) auto

lemma dot_notin_dec_nat: "CHR ''.'' \<notin> set (dec_nat n)"
  using dec_nat_not_sign by fastforce

lemma hd_dec_nat_zero: "1 < length (dec_nat n) \<Longrightarrow> hd (dec_nat n) \<noteq> CHR ''0''"
proof (induction n rule: dec_nat.induct)
  case (1 n)
  have *: "digit_char m \<noteq> CHR ''0''" if "0 < m" "m < 10" for m
    using that digit_char_props(2) [of m] by (auto simp: digit_val_def)
  show ?case
  proof (cases "n div 10 < 10")
    case True
    with 1(2) * [of "n div 10"] show ?thesis
      by (auto simp: dec_nat.simps [of n] dec_nat.simps [of "n div 10"] split: if_splits)
  next
    case False
    then have "1 < length (dec_nat (n div 10))" by (subst dec_nat.simps) (auto simp: neq_Nil_conv)
    with 1 False show ?thesis by (auto simp: dec_nat.simps [of n])
  qed
qed

lemma parse_octet_dec_nat: "parse_octet (dec_nat (unat b)) = Some b"
proof -
  have "unat b < 256" using unsigned_less [of b] by simp
  then show ?thesis
    using hd_dec_nat_zero [of "unat b"] by (auto simp: parse_octet_def dec_nat_digits)
qed

lemma parseIPv4_String: "length bs = 4 \<Longrightarrow> parseIPv4 (IPv4String bs) = Some bs"
  by (auto simp: parseIPv4_def IPv4String_def numeral_eq_Suc length_Suc_conv parse_octet_dec_nat
      Split_append Split_no_sep dot_notin_dec_nat)

lemma parse_octet_Some: "parse_octet s = Some b \<Longrightarrow> dec_val s = unat b \<and> list_all is_digit s"
  by (auto simp: parse_octet_def unat_of_nat split: if_splits)

lemma parseIPv4_length: "parseIPv4 s = Some bs \<Longrightarrow> length bs = 4"
  by (auto simp: parseIPv4_def split: list.splits Option.bind_splits)

lemma set_Join: "c \<in> set (Join ss sep) \<Longrightarrow> c \<in> set sep \<or> (\<exists>s \<in> set ss. c \<in> set s)"
  by (induction ss sep rule: Join.induct) auto

lemma chars_IPv4String: "c \<in> set (IPv4String bs) \<Longrightarrow> is_digit c \<or> c = CHR ''.''"
  unfolding IPv4String_def by (drule set_Join) (auto dest: dec_nat_not_sign)

lemma dot_in_IPv4String: "length bs = 4 \<Longrightarrow> CHR ''.'' \<in> set (IPv4String bs)"
  by (auto simp: IPv4String_def numeral_eq_Suc length_Suc_conv)

lemma filter_first:
  assumes "x \<in> set xs" "P x" "\<And>y. y \<in> set xs \<Longrightarrow> P y \<Longrightarrow> y = x"
  shows "\<exists>r. filter P xs = x # r"
proof (cases "filter P xs")
  case Nil
  with assms(1,2) show ?thesis by (auto simp: filter_empty_conv)
next
  case (Cons y r)
  then have "y \<in> set (filter P xs)" by simp
  then have "y \<in> set xs \<and> P y" by simp
  then have "y = x" using assms(3) by blast
  with Cons show ?thesis by simp
qed

lemma ParseAddr_String:
  assumes "length bs = 4"
  shows "ParseAddr (IPv4String bs) = Some (v4InV6Prefix @ bs, 32)"
proof -
  let ?s = "IPv4String bs"
  have no: "c \<notin> set ?s" if "\<not> is_digit c" "c \<noteq> CHR ''.''" for c
    using chars_IPv4String [of c bs] that by blast
  have "\<not> is_digit CHR ''%''" by (simp add: is_digit_def)
  with no have notin: "CHR ''%'' \<notin> set ?s" "CHR '':'' \<notin> set ?s" by auto
  have "\<exists>r. filter (\<lambda>c. c = CHR ''.'' \<or> c = CHR '':'' \<or> c = CHR ''%'') ?s = CHR ''.'' # r"
    by (rule filter_first) (use notin dot_in_IPv4String [OF assms] in auto)
  then obtain r where "filter (\<lambda>c. c = CHR ''.'' \<or> c = CHR '':'' \<or> c = CHR ''%'') ?s = CHR ''.'' # r" ..
  then show ?thesis using notin by (simp add: ParseAddr_def parseIPv4_String assms)
qed

lemma To4_mapped [simp]: "length bs = 4 \<Longrightarrow> To4 (v4InV6Prefix @ bs) = bs"
  by (simp add: To4_def v4InV6Prefix_def)

lemma To4_4 [simp]: "length bs = 4 \<Longrightarrow> To4 bs = bs"
  by (simp add: To4_def)

lemma ParseIP_String: "length bs = 4 \<Longrightarrow> To4 (ParseIP (IPv4String bs)) = bs"
  by (simp add: ParseIP_def ParseAddr_String)

lemma length_To4: "To4 i \<noteq> [] \<Longrightarrow> length (To4 i) = 4"
  by (auto simp: To4_def split: if_splits)

lemma IPv4String_inject:
  "length bs = 4 \<Longrightarrow> length cs = 4 \<Longrightarrow> IPv4String bs = IPv4String cs \<longleftrightarrow> bs = cs"
  by (metis ParseIP_String)

lemma plain_IPv4String: "length bs = 4 \<Longrightarrow> TrimSpace (IPv4String bs) = IPv4String bs"
proof -
  assume "length bs = 4"
  then have ne: "IPv4String bs \<noteq> []" using dot_in_IPv4String [of bs] by auto
  have "plain_char c" if "c \<in> set (IPv4String bs)" for c
    using chars_IPv4String [OF that] by (auto simp: plain_char_def is_digit_def)
  then show ?thesis using ne by (intro TrimSpace_plain) auto
qed

lemma length_CIDRMask [simp]: "length (CIDRMask n bits) = bits div 8"
  by (simp add: CIDRMask_def)

lemma length_and_bytes [simp]: "length (and_bytes xs ys) = min (length xs) (length ys)"
  by (simp add: and_bytes_def)

lemma Contains4:
  assumes "length (net_IP n) = 4" "length (net_Mask n) = 4" "length i = 4"
  shows "Contains n i \<longleftrightarrow> and_bytes (net_IP n) (net_Mask n) = and_bytes i (net_Mask n)"
proof -
  have "network_and_mask n = (net_IP n, net_Mask n)" "i \<noteq> []"
    using assms by (auto simp: network_and_mask_def Let_def To4_def)
  with assms show ?thesis by (simp add: Contains_def)
qed

end
