(* ===== verification/Vnet.thy ===== *)
theory Vnet
  imports GoNet
begin

text \<open>
  The package \<^verbatim>\<open>internal/vnet\<close>: the default addressing of the virtual network, conflict detection
  between a candidate network and the host's routes, the choice of a free network and the TCP
  segment size for an MTU. \<open>cidrOverlap\<close> is proved to be non-empty intersection of the two
  networks; \<open>NextAvailableCIDR\<close> returns a network that meets no known route.
\<close>

definition DefaultCIDR :: string where "DefaultCIDR = ''172.16.10.0/24''"

definition DefaultMTU :: int where "DefaultMTU = 1280"

definition DefaultMSS :: int where "DefaultMSS = 1200"

record Route =
  route_CIDR :: string
  route_Interface :: string

record Conflict =
  conflict_CIDR :: string
  conflict_Existing :: Route
  conflict_Conflicts :: bool

definition empty_route :: Route where
  "empty_route = \<lparr>route_CIDR = [], route_Interface = []\<rparr>"

definition MSSForMTU :: "int \<Rightarrow> int" where
  "MSSForMTU mtu0 =
     (let mtu = (if mtu0 \<le> 0 then DefaultMTU else mtu0); mss = mtu - 40 in
      if DefaultMSS < mss then DefaultMSS else if mss < 536 then 536 else mss)"

definition isDefaultRoute :: "IPNet \<Rightarrow> bool" where
  "isDefaultRoute n = (let (ones, bits) = Mask_Size (net_Mask n) in bits = 32 \<and> ones = 0)"

text \<open>\<open>None\<close> is the panic of \<^verbatim>\<open>binary.BigEndian.Uint32\<close> on a mask of fewer than four bytes.\<close>

definition ipNetLast :: "IPNet \<Rightarrow> ip option" where
  "ipNetLast n =
     (if To4 (net_IP n) = [] then Some (net_IP n)
      else do { v \<leftarrow> Uint32 (To4 (net_IP n)); m \<leftarrow> Uint32 (net_Mask n); Some (be32 (v OR NOT m)) })"

definition cidrOverlap :: "IPNet \<Rightarrow> IPNet \<Rightarrow> bool option" where
  "cidrOverlap a b =
     (if Contains a (net_IP b) \<or> Contains b (net_IP a) then Some True
      else do { la \<leftarrow> ipNetLast a;
                if IP_Equal la (net_IP b) then Some True
                else do { lb \<leftarrow> ipNetLast b; Some (IP_Equal lb (net_IP a)) } })"

text \<open>The loop of \<^verbatim>\<open>DetectConflict\<close>: the first route that overlaps the target.\<close>

fun find_conflict :: "IPNet \<Rightarrow> Route list \<Rightarrow> Route option option" where
  "find_conflict target [] = Some None"
| "find_conflict target (r # rs) =
     (if route_CIDR r = [] then find_conflict target rs
      else case ParseCIDR (route_CIDR r) of
        None \<Rightarrow> find_conflict target rs
      | Some (_, existing) \<Rightarrow>
          if isDefaultRoute existing then find_conflict target rs
          else do { o1 \<leftarrow> cidrOverlap target existing;
                    if o1 then Some (Some r) else find_conflict target rs })"

datatype vnet_error = BadCIDR string | NoAvailableCIDR

definition DetectConflict :: "string \<Rightarrow> Route list \<Rightarrow> (vnet_error + Conflict) option" where
  "DetectConflict targetCIDR routes =
     (case ParseCIDR targetCIDR of
        None \<Rightarrow> Some (Inl (BadCIDR targetCIDR))
      | Some (_, target) \<Rightarrow>
          map_option (\<lambda>res. Inr
            (case res of
               None \<Rightarrow> \<lparr>conflict_CIDR = targetCIDR, conflict_Existing = empty_route, conflict_Conflicts = False\<rparr>
             | Some r \<Rightarrow> \<lparr>conflict_CIDR = targetCIDR, conflict_Existing = r, conflict_Conflicts = True\<rparr>))
          (find_conflict target routes))"

fun first_free :: "string list \<Rightarrow> Route list \<Rightarrow> (vnet_error + string) option" where
  "first_free [] routes = Some (Inl NoAvailableCIDR)"
| "first_free (c # cs) routes =
     do { r \<leftarrow> DetectConflict c routes;
          case r of
            Inl e \<Rightarrow> Some (Inl e)
          | Inr k \<Rightarrow> if \<not> conflict_Conflicts k then Some (Inr c) else first_free cs routes }"

definition candidate_cidr :: "nat \<Rightarrow> string" where
  "candidate_cidr i = ''172.16.'' @ dec_nat i @ ''.0/24''"

definition NextAvailableCIDR :: "string \<Rightarrow> Route list \<Rightarrow> (vnet_error + string) option" where
  "NextAvailableCIDR preferred routes =
     first_free (preferred # map candidate_cidr [10..<255]) routes"

subsection \<open>Segment size\<close>

lemma MSSForMTU_bounds: "536 \<le> MSSForMTU mtu \<and> MSSForMTU mtu \<le> DefaultMSS"
  by (auto simp: MSSForMTU_def Let_def DefaultMTU_def DefaultMSS_def)

lemma MSSForMTU_fits: "576 \<le> mtu \<Longrightarrow> MSSForMTU mtu + 40 \<le> mtu"
  by (auto simp: MSSForMTU_def Let_def DefaultMTU_def DefaultMSS_def)

subsection \<open>IPv4 networks\<close>

text \<open>The networks \<^verbatim>\<open>ParseCIDR\<close> builds: a base address masked by a prefix mask.\<close>

definition net4 :: "IPNet \<Rightarrow> nat \<Rightarrow> bool" where
  "net4 n p \<longleftrightarrow> p \<le> 32 \<and> net_Mask n = CIDRMask p 32 \<and> length (net_IP n) = 4
     \<and> and_bytes (net_IP n) (net_Mask n) = net_IP n"

lemma net4D:
  assumes "net4 n p"
  shows "net_Mask n = CIDRMask p 32" "length (net_IP n) = 4" "and_bytes (net_IP n) (CIDRMask p 32) = net_IP n"
  using assms unfolding net4_def by metis+

lemma mask_byte_mono: "m \<le> n \<Longrightarrow> mask_byte n AND mask_byte m = mask_byte m"
  unfolding mask_byte_def
  by (rule bit_word_eqI) (auto simp: bit_simps)

lemma and_bytes_eq_iff:
  assumes "length x = length m" "length y = length m"
  shows "and_bytes x m = and_bytes y m \<longleftrightarrow> (\<forall>i < length m. x ! i AND m ! i = y ! i AND m ! i)"
  using assms by (auto simp: and_bytes_def list_eq_iff_nth_eq)

lemma CIDRMask_nth: "i < 4 \<Longrightarrow> CIDRMask p 32 ! i = mask_byte (p - 8 * i)"
  by (simp add: CIDRMask_def)

lemma and_bytes_coarser:
  assumes "p \<le> q" "length x = 4" "length y = 4"
    and "and_bytes x (CIDRMask q 32) = and_bytes y (CIDRMask q 32)"
  shows "and_bytes x (CIDRMask p 32) = and_bytes y (CIDRMask p 32)"
proof -
  have "x ! i AND mask_byte (p - 8 * i) = y ! i AND mask_byte (p - 8 * i)" if "i < 4" for i
  proof -
    have *: "(z AND mask_byte (q - 8 * i)) AND mask_byte (p - 8 * i) = z AND mask_byte (p - 8 * i)" for z
      using mask_byte_mono [of "p - 8 * i" "q - 8 * i"] assms(1) by (simp add: and.assoc)
    have "x ! i AND mask_byte (q - 8 * i) = y ! i AND mask_byte (q - 8 * i)"
      using assms(2-4) that by (simp add: and_bytes_eq_iff CIDRMask_nth)
    then show ?thesis using * [of "x ! i"] * [of "y ! i"] by simp
  qed
  with assms(2,3) show ?thesis by (simp add: and_bytes_eq_iff CIDRMask_nth)
qed

lemma Contains_net4:
  assumes "net4 n p" "length x = 4"
  shows "Contains n x \<longleftrightarrow> and_bytes x (CIDRMask p 32) = net_IP n"
  using assms by (auto simp: net4_def Contains4)

lemma Contains_own_base: "net4 n p \<Longrightarrow> Contains n (net_IP n)"
  by (simp add: Contains_net4 net4D)

text \<open>Two prefix networks that share an address are nested: the base of one lies in the other.\<close>

lemma shared_address_nested:
  assumes "net4 a p" "net4 b q" "p \<le> q" "length x = 4" "Contains a x" "Contains b x"
  shows "Contains a (net_IP b)"
proof -
  have b: "net_IP b = and_bytes x (CIDRMask q 32)" and lb: "length (net_IP b) = 4"
    using assms by (auto simp: Contains_net4 net4_def)
  have "and_bytes (net_IP b) (CIDRMask q 32) = and_bytes x (CIDRMask q 32)"
    using assms(2) b unfolding net4_def by metis
  then have "and_bytes (net_IP b) (CIDRMask p 32) = and_bytes x (CIDRMask p 32)"
    using assms(3,4) lb by (intro and_bytes_coarser [of p q]) auto
  with assms lb show ?thesis by (simp add: Contains_net4)
qed

lemma last_byte: "(x OR NOT m) AND m = x AND m" for x m :: byte
  by (rule bit_word_eqI) (auto simp: bit_simps)

lemma byte_no_high_bit: "8 \<le> k \<Longrightarrow> \<not> bit (b :: byte) k"
  using bit_imp_le_length [of b k] by auto

lemma be32_Uint32: "Uint32 xs = Some w \<Longrightarrow> length xs = 4 \<Longrightarrow> be32 w = xs"
  by (cases xs rule: Uint32.cases)
    (auto simp: be32_def be16_def bit_simps byte_no_high_bit intro!: bit_word_eqI)

lemma be32_or_not: "be32 (v OR NOT w) = map2 (\<lambda>x m. x OR NOT m) (be32 v) (be32 w)"
  by (auto simp: be32_def be16_def bit_simps intro!: bit_word_eqI)

lemma ipNetLast4:
  assumes "length (net_IP n) = 4" "length (net_Mask n) = 4"
  shows "ipNetLast n = Some (map2 (\<lambda>x m. x OR NOT m) (net_IP n) (net_Mask n))"
proof -
  obtain v m where "Uint32 (net_IP n) = Some v" "Uint32 (net_Mask n) = Some m"
    using assms Uint32_Some [of "net_IP n"] Uint32_Some [of "net_Mask n"] by auto
  moreover have "net_IP n \<noteq> []" using assms by auto
  ultimately show ?thesis
    using assms by (simp add: ipNetLast_def be32_or_not be32_Uint32)
qed

lemma ipNetLast_in:
  assumes "net4 n p" "ipNetLast n = Some l"
  shows "length l = 4 \<and> Contains n l"
proof -
  have l: "l = map2 (\<lambda>x m. x OR NOT m) (net_IP n) (CIDRMask p 32)"
    using assms ipNetLast4 [of n] by (auto simp: net4_def)
  have "and_bytes l (CIDRMask p 32) = and_bytes (net_IP n) (CIDRMask p 32)"
    using assms(1) by (subst and_bytes_eq_iff) (auto simp: l last_byte net4_def)
  moreover have "length l = 4" using assms(1) l by (simp add: net4_def)
  ultimately show ?thesis using assms(1) by (simp add: Contains_net4 net4D)
qed

lemma cidrOverlap_total: "net4 a p \<Longrightarrow> net4 b q \<Longrightarrow> \<exists>r. cidrOverlap a b = Some r"
  by (auto simp: cidrOverlap_def ipNetLast4 net4_def)

lemma cidrOverlap_sound:
  assumes "net4 a p" "net4 b q" "cidrOverlap a b = Some True"
  shows "Contains a (net_IP b) \<or> Contains b (net_IP a)"
proof -
  have eq: "IP_Equal l (net_IP n) \<Longrightarrow> length l = 4 \<Longrightarrow> length (net_IP n) = 4 \<Longrightarrow> l = net_IP n" for l and n :: IPNet
    by (simp add: IP_Equal_def)
  show ?thesis
    using assms(3) ipNetLast_in [OF assms(1)] ipNetLast_in [OF assms(2)] eq assms(1,2)
    by (auto simp: cidrOverlap_def net4_def split: if_splits Option.bind_splits)
qed

lemma cidrOverlap_iff:
  assumes "net4 a p" "net4 b q"
  shows "cidrOverlap a b = Some (\<exists>x. length x = 4 \<and> Contains a x \<and> Contains b x)"
proof (cases "\<exists>x. length x = 4 \<and> Contains a x \<and> Contains b x")
  case True
  then obtain x where "length x = 4" "Contains a x" "Contains b x" by blast
  then have "Contains a (net_IP b) \<or> Contains b (net_IP a)"
    using assms shared_address_nested [of a p b q x] shared_address_nested [of b q a p x]
    by (cases "p \<le> q") auto
  with True show ?thesis by (simp add: cidrOverlap_def)
next
  case False
  have "\<not> (Contains a (net_IP b) \<or> Contains b (net_IP a))"
    using False assms Contains_own_base [of a p] Contains_own_base [of b q]
    by (auto simp: net4_def)
  then have "cidrOverlap a b \<noteq> Some True" using cidrOverlap_sound assms by blast
  with cidrOverlap_total [OF assms] False show ?thesis by auto
qed

subsection \<open>What \<^verbatim>\<open>ParseCIDR\<close> builds\<close>

lemma and_bytes_idem: "and_bytes (and_bytes x m) m = and_bytes x m"
  by (auto simp: and_bytes_def list_eq_iff_nth_eq and.assoc)

lemma expand_ellipsis_length:
  "expand_ellipsis acc e = Some v \<Longrightarrow> length acc \<le> 16 \<Longrightarrow> (\<forall>p. e = Some p \<longrightarrow> p \<le> length acc) \<Longrightarrow> length v = 16"
  by (auto simp: expand_ellipsis_def split: if_splits option.splits)

lemma parse_groups_length:
  "parse_groups k s acc e = Some v \<Longrightarrow> length acc + 2 * k = 16 \<Longrightarrow>
   (\<forall>p. e = Some p \<longrightarrow> p \<le> length acc) \<Longrightarrow> length v = 16"
proof (induction k arbitrary: s acc e)
  case (Suc k)
  have IH: "parse_groups k t (acc @ be16 w) e' = Some v \<Longrightarrow>
      (\<forall>p. e' = Some p \<longrightarrow> p \<le> length acc + 2) \<Longrightarrow> length v = 16" for t w e'
    using Suc.IH [of t "acc @ be16 w" e'] Suc.prems(2) by simp
  show ?case
    using Suc.prems
    by (auto simp: Let_def split: if_splits list.splits Option.bind_splits
        dest!: expand_ellipsis_length parseIPv4_length dest: IH)
qed simp

lemma ParseAddr_length: "ParseAddr s = Some (b, bits) \<Longrightarrow> length b = 16 \<and> (bits = 32 \<or> bits = 128)"
  by (auto simp: ParseAddr_def parseIPv6_def v4InV6Prefix_def split: list.splits if_splits
      dest!: parseIPv4_length parse_groups_length)

lemma net4_CIDRMask: "length b = 4 \<Longrightarrow> k \<le> 32 \<Longrightarrow>
    net4 \<lparr>net_IP = and_bytes b (CIDRMask k 32), net_Mask = CIDRMask k 32\<rparr> k"
  by (simp add: net4_def and_bytes_idem)

lemma ParseCIDR_shape:
  assumes "ParseCIDR s = Some (i, n)"
  shows "(\<exists>p. net4 n p) \<or> (length (net_IP n) = 16 \<and> length (net_Mask n) = 16)"
proof -
  have "\<exists>p. net4 \<lparr>net_IP = and_bytes (drop 12 i) (CIDRMask k 32), net_Mask = CIDRMask k 32\<rparr> p"
    if "length i = 16" "k \<le> 32" for k
    using that net4_CIDRMask [of "drop 12 i" k] by auto
  with assms show ?thesis
    by (fastforce simp: ParseCIDR_def not_less split: Option.bind_splits if_splits
        dest!: ParseAddr_length)
qed

lemma slash_notin_IPv4String: "CHR ''/'' \<notin> set (IPv4String bs)"
  using chars_IPv4String [of "CHR ''/''" bs] by (auto simp: is_digit_def)

text \<open>Reading back a network written as address, slash and prefix length.\<close>

lemma ParseCIDR_text:
  assumes "length bs = 4" "n \<le> 32"
  shows "ParseCIDR (IPv4String bs @ CHR ''/'' # dec_nat n) =
     Some (v4InV6Prefix @ bs,
           \<lparr>net_IP = and_bytes bs (CIDRMask n 32), net_Mask = CIDRMask n 32\<rparr>)"
proof -
  have "length v4InV6Prefix = 12" by (simp add: v4InV6Prefix_def)
  then show ?thesis
    using assms
    by (simp add: ParseCIDR_def Cut_append slash_notin_IPv4String ParseAddr_String dtoi_def dec_nat_digits)
qed

lemma cidrOverlap_no_panic:
  assumes "4 \<le> length (net_Mask a)" "4 \<le> length (net_Mask b)"
  shows "cidrOverlap a b \<noteq> None"
proof -
  have *: "\<exists>l. ipNetLast n = Some l" if m: "4 \<le> length (net_Mask n)" for n :: IPNet
  proof (cases "To4 (net_IP n) = []")
    case False
    then have "4 \<le> length (To4 (net_IP n))" using length_To4 by simp
    with m show ?thesis using Uint32_Some [of "net_Mask n"] Uint32_Some [of "To4 (net_IP n)"] False
      by (auto simp: ipNetLast_def)
  qed (simp add: ipNetLast_def)
  with * [OF assms(1)] * [OF assms(2)] show ?thesis by (auto simp: cidrOverlap_def)
qed

lemma ParseCIDR_mask: "ParseCIDR s = Some (i, n) \<Longrightarrow> 4 \<le> length (net_Mask n)"
  using ParseCIDR_shape [of s i n] by (auto simp: net4_def)

lemma find_conflict_no_panic:
  assumes "4 \<le> length (net_Mask t)"
  shows "find_conflict t rs \<noteq> None"
proof (induction rs)
  case (Cons r rs)
  have "cidrOverlap t e \<noteq> None" if "ParseCIDR (route_CIDR r) = Some (i, e)" for i e
    using cidrOverlap_no_panic assms ParseCIDR_mask [OF that] by blast
  with Cons show ?case by (auto split: option.splits Option.bind_splits)
qed simp

lemma DetectConflict_no_panic: "DetectConflict c rs \<noteq> None"
  using find_conflict_no_panic ParseCIDR_mask [of c] by (auto simp: DetectConflict_def split: option.splits)

lemma first_free_no_panic: "first_free cs rs \<noteq> None"
  using DetectConflict_no_panic by (induction cs) (auto split: Option.bind_splits sum.splits)

lemma ParseCIDR_Nil: "ParseCIDR [] = None"
  by (simp add: ParseCIDR_def)

lemma find_conflict_None:
  assumes "find_conflict t rs = Some None" "r \<in> set rs" "ParseCIDR (route_CIDR r) = Some (i, e)"
    and "\<not> isDefaultRoute e"
  shows "cidrOverlap t e = Some False"
  using assms
proof (induction rs)
  case (Cons r' rs)
  have ne: "route_CIDR r \<noteq> []" using Cons.prems(3) by (auto simp: ParseCIDR_Nil)
  have rest: "find_conflict t rs = Some None" if "r \<noteq> r'"
    using Cons.prems(1) by (auto split: if_splits option.splits Option.bind_splits)
  show ?case
  proof (cases "r = r'")
    case True
    with Cons.prems ne show ?thesis by (auto split: Option.bind_splits if_splits)
  next
    case False
    with Cons rest show ?thesis by simp
  qed
qed simp

lemma first_free_Inr:
  "first_free cs rs = Some (Inr c) \<Longrightarrow> \<exists>i t. ParseCIDR c = Some (i, t) \<and> find_conflict t rs = Some None"
  by (induction cs)
    (auto split: Option.bind_splits sum.splits if_splits option.splits simp: DetectConflict_def)

lemma NextAvailableCIDR_total: "\<exists>res. NextAvailableCIDR preferred routes = Some res"
  unfolding NextAvailableCIDR_def using first_free_no_panic by blast

text \<open>The network \<^verbatim>\<open>NextAvailableCIDR\<close> returns shares no IPv4 address with any IPv4 route of
  the host other than a default route; the function itself never panics.\<close>

theorem NextAvailableCIDR_disjoint:
  assumes "NextAvailableCIDR preferred routes = Some (Inr c)" "ParseCIDR c = Some (i, t)" "net4 t p"
    and "r \<in> set routes" "ParseCIDR (route_CIDR r) = Some (j, e)" "net4 e q" "\<not> isDefaultRoute e"
  shows "\<not> (\<exists>x. length x = 4 \<and> Contains t x \<and> Contains e x)"
proof -
  have "find_conflict t routes = Some None"
    using assms(1,2) first_free_Inr unfolding NextAvailableCIDR_def by fastforce
  then have "cidrOverlap t e = Some False" using assms(4,5,7) by (rule find_conflict_None)
  with assms(3,6) show ?thesis by (simp add: cidrOverlap_iff)
qed

lemmas eval_cidr_text = IPv4String_def dec_nat.simps digit_char_def char_of_def bit_Suc_0_iff

lemma cidr_texts:
  "DefaultCIDR = IPv4String [172, 16, 10, 0] @ CHR ''/'' # dec_nat 24"
  "''10.0.0.0/8'' = IPv4String [10, 0, 0, 0] @ CHR ''/'' # dec_nat 8"
  by (simp_all add: DefaultCIDR_def eval_cidr_text)

lemma masks_8_24: "CIDRMask 24 32 = [255, 255, 255, 0]" "CIDRMask 8 32 = [255, 0, 0, 0]"
  by (simp_all add: CIDRMask_def mask_byte_def upt_rec mask_eq_exp_minus_1)

lemma ParseCIDR_DefaultCIDR:
  "ParseCIDR DefaultCIDR = Some (v4InV6Prefix @ [172, 16, 10, 0], \<lparr>net_IP = [172, 16, 10, 0], net_Mask = [255, 255, 255, 0]\<rparr>)"
  unfolding cidr_texts(1) by (subst ParseCIDR_text) (simp_all add: masks_8_24 and_bytes_def)

theorem NextAvailableCIDR_disjoint_witness:
  "\<not> (\<exists>x. length x = 4
        \<and> Contains \<lparr>net_IP = [172, 16, 10, 0], net_Mask = [255, 255, 255, 0]\<rparr> x
        \<and> Contains \<lparr>net_IP = [10, 0, 0, 0], net_Mask = [255, 0, 0, 0]\<rparr> x)"
proof -
  let ?t = "\<lparr>net_IP = [172, 16, 10, 0], net_Mask = [255, 255, 255, 0]\<rparr> :: IPNet"
  let ?e = "\<lparr>net_IP = [10, 0, 0, 0], net_Mask = [255, 0, 0, 0]\<rparr> :: IPNet"
  let ?r = "\<lparr>route_CIDR = ''10.0.0.0/8'', route_Interface = ''eth0''\<rparr> :: Route"
  note masks = masks_8_24 and t = ParseCIDR_DefaultCIDR
  have e: "ParseCIDR ''10.0.0.0/8'' = Some (v4InV6Prefix @ [10, 0, 0, 0], ?e)"
    unfolding cidr_texts(2) by (subst ParseCIDR_text) (simp_all add: masks and_bytes_def)
  have n: "net4 ?t 24" "net4 ?e 8" by (simp_all add: net4_def masks and_bytes_def)
  have d: "\<not> isDefaultRoute ?e"
    by (simp add: isDefaultRoute_def Mask_Size_def CIDRMask_def mask_byte_def mask_eq_exp_minus_1 upt_rec)
  have "cidrOverlap ?t ?e = Some False"
    by (simp add: cidrOverlap_def Contains4 and_bytes_def ipNetLast4 IP_Equal_def)
  then have "DetectConflict DefaultCIDR [?r] = Some (Inr \<lparr>conflict_CIDR = DefaultCIDR,
      conflict_Existing = empty_route, conflict_Conflicts = False\<rparr>)"
    using t e d by (simp add: DetectConflict_def)
  then have "NextAvailableCIDR DefaultCIDR [?r] = Some (Inr DefaultCIDR)"
    by (simp add: NextAvailableCIDR_def del: upt_rec_numeral)
  from NextAvailableCIDR_disjoint [OF this t n(1), of ?r] e n(2) d show ?thesis by simp
qed

end
