(* ===== verification/StoreTypes.thy ===== *)
theory StoreTypes
  imports GoText
begin

text \<open>
  The records the components exchange, \<^verbatim>\<open>internal/store/store.go\<close>, field by field (a Go \<^verbatim>\<open>int\<close> or
  \<^verbatim>\<open>int64\<close> that is only stored and compared is an \<open>int\<close>), with the two pieces of logic of that
  package: the normal form of a transport profile and the validation of a forward rule.
\<close>

record ForwardRule =
  rule_ID :: int
  rule_Name :: string
  rule_SourceID :: string
  rule_TargetID :: string
  rule_Profile :: string
  rule_LocalPort :: int
  rule_TargetHost :: string
  rule_TargetPort :: int
  rule_Enabled :: bool
  rule_CreatedAt :: string
  rule_UpdatedAt :: string
  rule_RuntimeState :: string
  rule_LastError :: string
  rule_LastUpdatedAt :: string
  rule_Attempt :: int
  rule_NextRetryAt :: string

record VirtualNetwork =
  vn_ID :: int
  vn_Name :: string
  vn_CIDR :: string
  vn_MTU :: int
  vn_MSS :: int
  vn_PathPolicy :: string
  vn_TCPFastPath :: string
  vn_Enabled :: bool
  vn_CreatedAt :: string
  vn_UpdatedAt :: string

record VirtualAddress =
  va_DeviceID :: string
  va_NetworkID :: int
  va_VirtualIP :: string
  va_Hostname :: string
  va_DNSEnabled :: bool
  va_CreatedAt :: string
  va_UpdatedAt :: string

record VirtualDeviceKey =
  vk_DeviceID :: string
  vk_Algorithm :: string
  vk_PublicKey :: string
  vk_CreatedAt :: string
  vk_UpdatedAt :: string

record VirtualDeviceGroupMember =
  gm_GroupID :: string
  gm_DeviceID :: string
  gm_CreatedAt :: string

record VirtualACLRule =
  acl_ID :: int
  acl_NetworkID :: int
  acl_SourceDeviceID :: string
  acl_SourceGroupID :: string
  acl_TargetDeviceID :: string
  acl_TargetGroupID :: string
  acl_Protocol :: string
  acl_PortStart :: int
  acl_PortEnd :: int
  acl_Action :: string
  acl_Enabled :: bool
  acl_CreatedAt :: string
  acl_UpdatedAt :: string

record VirtualRoute =
  vr_ID :: int
  vr_DeviceID :: string
  vr_NetworkID :: int
  vr_CIDR :: string
  vr_Advertise :: bool
  vr_Accept :: bool
  vr_CreatedAt :: string
  vr_UpdatedAt :: string

record VirtualPeerState =
  ps_DeviceID :: string
  ps_PeerID :: string
  ps_NetworkID :: int
  ps_State :: string
  ps_Path :: string
  ps_DataPath :: string
  ps_PathReason :: string
  ps_NATType :: string
  ps_FallbackReason :: string
  ps_TrafficClass :: string
  ps_TCPFastPath :: string
  ps_AdapterState :: string
  ps_RouteConflict :: string
  ps_SelectedCIDR :: string
  ps_MTU :: int
  ps_MSS :: int
  ps_RTTMs :: int
  ps_EstimatedBps :: int
  ps_TxBytes :: int
  ps_RxBytes :: int
  ps_DropReason :: string
  ps_LastError :: string
  ps_ActiveSessions :: int
  ps_HotPaths :: int
  ps_RelayDisabled :: bool
  ps_SocketRotations :: uint64
  ps_LastRotationAt :: string
  ps_LastRotationReason :: string
  ps_LastHandshakeAt :: string
  ps_LastTransitionAt :: string
  ps_UpdatedAt :: string

record VirtualLearnedPath =
  lp_DeviceID :: string
  lp_PeerID :: string
  lp_NetworkID :: int
  lp_DstPort :: int
  lp_Protocol :: string
  lp_Path :: string
  lp_PublicAddr :: string
  lp_SuccessCount :: int
  lp_FailureCount :: int
  lp_LastSuccessAt :: string
  lp_LastFailureAt :: string
  lp_LastFailure :: string
  lp_Quality :: string
  lp_PreheatEnabled :: bool
  lp_UpdatedAt :: string

record Device =
  dev_ID :: string
  dev_Name :: string
  dev_Addr :: string
  dev_UpnpAddr :: string
  dev_Want :: string
  dev_Online :: bool
  dev_Enabled :: bool
  dev_LastSeen :: string
  dev_CreatedAt :: string
  dev_HealthSummary :: string
  dev_LastError :: string
  dev_ProductCapabilities :: "string list"
  dev_AgentOnline :: bool
  dev_LastAgentSeen :: string
  dev_AgentLastSource :: string
  dev_LANOnline :: bool
  dev_LastLANSeen :: string
  dev_LANLastSource :: string
  dev_LANLastError :: string
  dev_LANVirtualIP :: string
  dev_LANNetworkID :: int
  dev_LANAdapterState :: string
  dev_LANSelectedCIDR :: string
  dev_LANRouteConflict :: string
  dev_LANPathSummary :: string
  dev_LANActiveSessions :: int
  dev_LANHotPaths :: int
  dev_LANSocketRotations :: uint64
  dev_LANRotationReason :: string

record VirtualDeviceGroup =
  vg_ID :: string
  vg_Name :: string
  vg_CreatedAt :: string
  vg_UpdatedAt :: string

record VirtualPeerPathEvent =
  ppe_ID :: int
  ppe_DeviceID :: string
  ppe_PeerID :: string
  ppe_NetworkID :: int
  ppe_Path :: string
  ppe_DataPath :: string
  ppe_PathReason :: string
  ppe_TrafficClass :: string
  ppe_TxBytes :: int
  ppe_RxBytes :: int
  ppe_CreatedAt :: string

text \<open>A value of the free-form metadata of a product state.\<close>

datatype json_value = JInt int | JString string | JBool bool

record DeviceProductState =
  dps_DeviceID :: string
  dps_Product :: string
  dps_Online :: bool
  dps_LastSeenAt :: string
  dps_LastSource :: string
  dps_Version :: string
  dps_LastError :: string
  dps_Metadata :: "(string \<times> json_value) list"

definition ProfileInteractive :: string where "ProfileInteractive = ''interactive''"

definition ProfileBulk :: string where "ProfileBulk = ''bulk''"

definition ProfileLANPacket :: string where "ProfileLANPacket = ''lan-packet''"

definition NormalizeProfile :: "string \<Rightarrow> string" where
  "NormalizeProfile profile =
     (let profile = TrimSpace (ToLower profile) in
      if profile = '''' then ProfileInteractive else profile)"

definition ValidProfile :: "string \<Rightarrow> bool" where
  "ValidProfile profile \<longleftrightarrow> NormalizeProfile profile \<in> {ProfileInteractive, ProfileBulk}"

datatype rule_error =
    BadProfile
  | MissingDevice
  | SameDevice
  | BadPorts
  | MissingHost

definition Validate :: "ForwardRule \<Rightarrow> rule_error option" where
  "Validate r =
     (let r = r\<lparr>rule_Profile := NormalizeProfile (rule_Profile r)\<rparr> in
      if \<not> ValidProfile (rule_Profile r) then Some BadProfile
      else if rule_SourceID r = '''' \<or> rule_TargetID r = '''' then Some MissingDevice
      else if rule_SourceID r = rule_TargetID r then Some SameDevice
      else if rule_LocalPort r \<le> 0 \<or> 65536 \<le> rule_LocalPort r
            \<or> rule_TargetPort r \<le> 0 \<or> 65536 \<le> rule_TargetPort r then Some BadPorts
      else if rule_TargetHost r = '''' then Some MissingHost
      else None)"

text \<open>Normalising a profile is idempotent and leaves the three known profiles alone.\<close>

lemma NormalizeProfile_known [simp]:
  "NormalizeProfile '''' = ''interactive''" "NormalizeProfile ''interactive'' = ''interactive''"
  "NormalizeProfile ''bulk'' = ''bulk''" "NormalizeProfile ''lan-packet'' = ''lan-packet''"
  by (simp_all add: NormalizeProfile_def ToLower_def lower_char_def Let_def ProfileInteractive_def TrimSpace_plain plain_char_def)

end
