(* ===== verification/Router.thy ===== *)
theory Router
  imports PacketSession Vnet StoreTypes
begin

text \<open>
  The packet router, \<^verbatim>\<open>internal/packet/router.go\<close>: the IPv4 parser, the access-control list, TCP
  MSS clamping with the two Internet checksums, and \<^verbatim>\<open>RouteOutbound\<close>, which decides for every
  packet read from the virtual adapter which device gets it or why it is dropped.

  A \<^verbatim>\<open>*Router\<close> is a \<open>Router option\<close> (\<open>None\<close> is the nil pointer).  Methods that update the router
  return the updated value; a method runs as one step (the code's mutex covers its reads and its
  writes of the statistics).  The outer \<open>option\<close> of an operation on packet bytes is the
  panic of an index out of range; \<open>ParseIPv4_total\<close>, \<open>ClampTCPMSS_total\<close> and \<open>RouteOutbound_total\<close>
  show that it does not happen.
\<close>

subsection \<open>Data\<close>

definition IPv4ProtocolICMP :: byte where "IPv4ProtocolICMP = 1"

definition IPv4ProtocolTCP :: byte where "IPv4ProtocolTCP = 6"

definition IPv4ProtocolUDP :: byte where "IPv4ProtocolUDP = 17"

lemmas protocol_defs = IPv4ProtocolICMP_def IPv4ProtocolTCP_def IPv4ProtocolUDP_def

datatype drop_reason =
    DropACLDeny
  | DropRouteMiss
  | DropMTU
  | DropPeerUnavailable
  | DropInvalidPacket
  | DropUnsupportedProtocol

datatype router_error =
    ErrInvalidIPv4 string
  | ErrRouteMiss
  | ErrACLDeny
  | ErrMTUDrop
  | ErrPeerUnavailable
  | ErrUnsupportedProtocol
  | ErrNetworkIDRequired
  | ErrSourceDeviceRequired
  | ErrNilRouter

record IPv4Header =
  ih_HeaderLen :: nat
  ih_TotalLen :: nat
  ih_Protocol :: byte
  ih_SourceIP :: bytes
  ih_DestIP :: bytes
  ih_SourcePort :: int
  ih_DestPort :: int
  ih_TCPSYN :: bool
  ih_PayloadSize :: nat

record RoutedFrame =
  rf_NetworkID :: int
  rf_SrcDevice :: string
  rf_DstDevice :: string
  rf_PacketType :: byte
  rf_Payload :: bytes
  rf_Header :: IPv4Header

record DropStats =
  ds_ACLDeny :: uint64
  ds_RouteMiss :: uint64
  ds_MTU :: uint64
  ds_PeerUnavailable :: uint64
  ds_InvalidPacket :: uint64
  ds_UnsupportedProtocol :: uint64

record RouterStats =
  rs_TxBytes :: uint64
  rs_RxBytes :: uint64
  rs_TxPackets :: uint64
  rs_RxPackets :: uint64
  rs_Drops :: DropStats

record RouterConfig =
  rc_NetworkID :: int
  rc_SourceDeviceID :: string
  rc_MTU :: int
  rc_Addresses :: "VirtualAddress list"
  rc_ACLRules :: "VirtualACLRule list"
  rc_PeerAvailable :: "string \<rightharpoonup> bool"

record Router =
  r_networkID :: int
  r_sourceDeviceID :: string
  r_mtu :: int
  r_routes :: "string \<rightharpoonup> string"
  r_acl :: "VirtualACLRule list"
  r_peerAvailable :: "string \<rightharpoonup> bool"
  r_stats :: RouterStats

definition no_drops :: DropStats where
  "no_drops = \<lparr>ds_ACLDeny = 0, ds_RouteMiss = 0, ds_MTU = 0, ds_PeerUnavailable = 0,
     ds_InvalidPacket = 0, ds_UnsupportedProtocol = 0\<rparr>"

definition no_stats :: RouterStats where
  "no_stats = \<lparr>rs_TxBytes = 0, rs_RxBytes = 0, rs_TxPackets = 0, rs_RxPackets = 0, rs_Drops = no_drops\<rparr>"

definition empty_header :: IPv4Header where
  "empty_header = \<lparr>ih_HeaderLen = 0, ih_TotalLen = 0, ih_Protocol = 0, ih_SourceIP = [], ih_DestIP = [],
     ih_SourcePort = 0, ih_DestPort = 0, ih_TCPSYN = False, ih_PayloadSize = 0\<rparr>"

subsection \<open>Parsing\<close>

definition port_at :: "bytes \<Rightarrow> nat \<Rightarrow> int option" where
  "port_at bs i = do { w \<leftarrow> Prelude.slice bs i (i + 2) \<bind> Uint16; Some (uint w) }"

definition ParseIPv4 :: "bytes \<Rightarrow> (router_error + IPv4Header) option" where
  "ParseIPv4 packet =
     (if length packet < 20 then Some (Inl (ErrInvalidIPv4 ''too short''))
      else do {
        b0 \<leftarrow> index packet 0;
        if drop_bit 4 b0 \<noteq> 4 then Some (Inl (ErrInvalidIPv4 ''bad version''))
        else
          let ihl = unat (b0 AND 0x0f) * 4 in
          if ihl < 20 \<or> length packet < ihl then Some (Inl (ErrInvalidIPv4 ''bad header length''))
          else do {
            tl \<leftarrow> Prelude.slice packet 2 4 \<bind> Uint16;
            let totalLen = unat tl in
            if totalLen < ihl \<or> length packet < totalLen then Some (Inl (ErrInvalidIPv4 ''bad total length''))
            else do {
              proto \<leftarrow> index packet 9;
              src \<leftarrow> Prelude.slice packet 12 16;
              dst \<leftarrow> Prelude.slice packet 16 20;
              let header = \<lparr>ih_HeaderLen = ihl, ih_TotalLen = totalLen, ih_Protocol = proto,
                ih_SourceIP = src, ih_DestIP = dst, ih_SourcePort = 0, ih_DestPort = 0,
                ih_TCPSYN = False, ih_PayloadSize = totalLen - ihl\<rparr> in
              if proto = IPv4ProtocolTCP \<and> ihl + 20 \<le> totalLen then do {
                tcp \<leftarrow> Prelude.slice packet ihl totalLen;
                b12 \<leftarrow> index tcp 12;
                let dataOffset = unat (drop_bit 4 b12) * 4 in
                if 20 \<le> dataOffset \<and> dataOffset \<le> length tcp then do {
                  sp \<leftarrow> port_at tcp 0;
                  dp \<leftarrow> port_at tcp 2;
                  b13 \<leftarrow> index tcp 13;
                  Some (Inr (header\<lparr>ih_SourcePort := sp, ih_DestPort := dp, ih_TCPSYN := b13 AND 0x02 \<noteq> 0\<rparr>)) }
                else Some (Inr header) }
              else if proto = IPv4ProtocolUDP \<and> ihl + 8 \<le> totalLen then do {
                udp \<leftarrow> Prelude.slice packet ihl totalLen;
                sp \<leftarrow> port_at udp 0;
                dp \<leftarrow> port_at udp 2;
                Some (Inr (header\<lparr>ih_SourcePort := sp, ih_DestPort := dp\<rparr>)) }
              else Some (Inr header) } } })"

subsection \<open>Checksums\<close>

fun checksum_words :: "bytes \<Rightarrow> uint32 \<Rightarrow> uint32" where
  "checksum_words (a # b # rest) acc = checksum_words rest (acc + ucast (the (Uint16 [a, b])))"
| "checksum_words [a] acc = acc + push_bit 8 (ucast a)"
| "checksum_words [] acc = acc"

lemma fold_halves: "unat ((s AND 0xffff) + drop_bit 16 s) = unat s mod 65536 + unat s div 65536" for s :: uint32
proof -
  have h: "unat (drop_bit 16 s) = unat s div 65536" by (simp add: unat_drop_bit_eq drop_bit_eq_div unat_div)
  have "s AND 0xffff = take_bit 16 s" by (simp add: take_bit_eq_mask mask_eq_exp_minus_1)
  then have l: "unat (s AND 0xffff) = unat s mod 65536" by (simp add: unsigned_take_bit_eq take_bit_eq_mod unat_mod)
  have "unat s < 2 ^ 32" using unsigned_less [of s] by simp
  then have "unat s mod 65536 + unat s div 65536 < 2 ^ 32" by (simp add: less_mult_imp_div_less)
  then show ?thesis by (simp add: unat_word_ariths h l)
qed

lemma high_half_zero: "drop_bit 16 s = 0 \<longleftrightarrow> unat s < 65536" for s :: uint32
proof -
  have "drop_bit 16 s = 0 \<longleftrightarrow> unat (drop_bit 16 s) = 0" by (simp add: unat_eq_0)
  then show ?thesis by (simp add: unat_drop_bit_eq drop_bit_eq_div unat_div div_eq_0_iff)
qed

function checksum_fold :: "uint32 \<Rightarrow> uint32" where
  "checksum_fold acc = (if drop_bit 16 acc \<noteq> 0 then checksum_fold ((acc AND 0xffff) + drop_bit 16 acc) else acc)"
  by pat_completeness auto
termination
proof (relation "measure unat")
  fix s :: uint32
  assume "drop_bit 16 s \<noteq> 0"
  then have "65536 \<le> unat s" by (simp add: high_half_zero)
  then have "unat s mod 65536 + unat s div 65536 < unat s"
    using div_mult_mod_eq [of "unat s" 65536] by linarith
  then show "((s AND 0xffff) + drop_bit 16 s, s) \<in> measure unat" by (simp only: in_measure fold_halves)
qed simp

declare checksum_fold.simps [simp del]

definition checksum :: "bytes \<Rightarrow> uint16" where
  "checksum data = NOT (ucast (checksum_fold (checksum_words data 0)))"

definition recomputeIPv4HeaderChecksum :: "bytes \<Rightarrow> bytes option" where
  "recomputeIPv4HeaderChecksum header =
     (if 12 \<le> length header then
        let h = header[10 := 0, 11 := 0] in Some (put_at h 10 (be16 (checksum h)))
      else None)"

text \<open>The slice \<^verbatim>\<open>tcp\<close> of the code aliases \<^verbatim>\<open>packet[header.HeaderLen:header.TotalLen]\<close>, so what is written
  to it is written back at that offset.\<close>

definition recomputeTCPChecksum :: "bytes \<Rightarrow> IPv4Header \<Rightarrow> bytes option" where
  "recomputeTCPChecksum packet header = do {
     tcp \<leftarrow> Prelude.slice packet (ih_HeaderLen header) (ih_TotalLen header);
     if length tcp < 18 then None
     else do {
       let tcp = tcp[16 := 0, 17 := 0];
       packet \<leftarrow> Some (put_at packet (ih_HeaderLen header) tcp);
       src \<leftarrow> Prelude.slice packet 12 16;
       dst \<leftarrow> Prelude.slice packet 16 20;
       let pseudo = src;
       let pseudo = pseudo @ dst;
       let pseudo = pseudo @ [0, IPv4ProtocolTCP];
       let pseudo = pseudo @ be16 (of_nat (length tcp));
       let pseudo = pseudo @ tcp;
       let pseudo = (if length pseudo mod 2 = 1 then pseudo @ [0] else pseudo);
       Some (put_at packet (ih_HeaderLen header) (put_at tcp 16 (be16 (checksum pseudo)))) } }"

subsection \<open>MSS clamping\<close>

function clamp_options :: "int \<Rightarrow> nat \<Rightarrow> bytes \<Rightarrow> nat \<Rightarrow> bool \<Rightarrow> (bytes \<times> bool) option" where
  "clamp_options maxMSS dataOffset tcp i changed =
     (if i < dataOffset then do {
        kind \<leftarrow> index tcp i;
        if kind = 0 then clamp_options maxMSS dataOffset tcp dataOffset changed
        else if kind = 1 then clamp_options maxMSS dataOffset tcp (i + 1) changed
        else if dataOffset \<le> i + 1 then clamp_options maxMSS dataOffset tcp dataOffset changed
        else do {
          b \<leftarrow> index tcp (i + 1);
          let l = unat b;
          if l < 2 \<or> dataOffset < i + l then clamp_options maxMSS dataOffset tcp dataOffset changed
          else if kind = 2 \<and> l = 4 then do {
            mss \<leftarrow> Prelude.slice tcp (i + 2) (i + 4) \<bind> Uint16;
            if maxMSS < uint mss
            then clamp_options maxMSS dataOffset (put_at tcp (i + 2) (be16 (of_int maxMSS))) (i + l) True
            else clamp_options maxMSS dataOffset tcp (i + l) changed }
          else clamp_options maxMSS dataOffset tcp (i + l) changed } }
      else Some (tcp, changed))"
  by pat_completeness auto
termination
  by (relation "measure (\<lambda>(maxMSS, dataOffset, tcp, i, changed). dataOffset - i)") auto

declare clamp_options.simps [simp del]

definition ClampTCPMSS :: "bytes \<Rightarrow> int \<Rightarrow> (bytes \<times> bool) option" where
  "ClampTCPMSS packet maxMSS = do {
     res \<leftarrow> ParseIPv4 packet;
     case res of
       Inl _ \<Rightarrow> Some (packet, False)
     | Inr header \<Rightarrow>
         if ih_Protocol header \<noteq> IPv4ProtocolTCP \<or> \<not> ih_TCPSYN header \<or> maxMSS \<le> 0
         then Some (packet, False)
         else do {
           tcp \<leftarrow> Prelude.slice packet (ih_HeaderLen header) (ih_TotalLen header);
           b12 \<leftarrow> index tcp 12;
           let dataOffset = unat (drop_bit 4 b12) * 4;
           if dataOffset < 20 \<or> length tcp < dataOffset then Some (packet, False)
           else do {
             (tcp, changed) \<leftarrow> clamp_options maxMSS dataOffset tcp 20 False;
             packet \<leftarrow> Some (put_at packet (ih_HeaderLen header) tcp);
             if changed then do {
               h \<leftarrow> Prelude.slice packet 0 (ih_HeaderLen header) \<bind> recomputeIPv4HeaderChecksum;
               packet \<leftarrow> Some (put_at packet 0 h);
               p \<leftarrow> Prelude.slice packet 0 (ih_TotalLen header) \<bind> (\<lambda>p. recomputeTCPChecksum p header);
               Some (put_at packet 0 p, True) }
             else Some (packet, False) } } }"

subsection \<open>The access-control list\<close>

definition matchProtocol :: "string \<Rightarrow> byte \<Rightarrow> bool" where
  "matchProtocol ruleProtocol packetProtocol =
     (let p = ToLower (TrimSpace ruleProtocol) in
      if p \<in> {'''', ''any'', ''*''} then True
      else if p = ''tcp'' then packetProtocol = IPv4ProtocolTCP
      else if p = ''icmp'' then packetProtocol = IPv4ProtocolICMP
      else if p = ''udp'' then packetProtocol = IPv4ProtocolUDP
      else (case Atoi ruleProtocol of
              None \<Rightarrow> False
            | Some n \<Rightarrow> 0 \<le> n \<and> n \<le> 255 \<and> of_int n = packetProtocol))"

definition matchACLRule :: "VirtualACLRule \<Rightarrow> int \<Rightarrow> string \<Rightarrow> string \<Rightarrow> IPv4Header \<Rightarrow> bool" where
  "matchACLRule rule networkID srcDevice dstDevice header =
     (if acl_SourceDeviceID rule \<noteq> '''' \<and> acl_SourceDeviceID rule \<noteq> srcDevice then False
      else if acl_TargetDeviceID rule \<noteq> '''' \<and> acl_TargetDeviceID rule \<noteq> dstDevice then False
      else if acl_SourceGroupID rule \<noteq> '''' \<and> acl_SourceGroupID rule \<noteq> FormatInt networkID then False
      else if acl_TargetGroupID rule \<noteq> '''' \<and> acl_TargetGroupID rule \<noteq> FormatInt networkID then False
      else if \<not> matchProtocol (acl_Protocol rule) (ih_Protocol header) then False
      else if acl_PortStart rule \<le> 0 \<and> acl_PortEnd rule \<le> 0 then True
      else if ih_DestPort header \<le> 0 then False
      else
        let start = acl_PortStart rule; stop = acl_PortEnd rule;
            start = (if start \<le> 0 then stop else start);
            stop = (if stop \<le> 0 then start else stop)
        in start \<le> ih_DestPort header \<and> ih_DestPort header \<le> stop)"

fun allowACL_loop :: "bool \<Rightarrow> VirtualACLRule list \<Rightarrow> int \<Rightarrow> string \<Rightarrow> string \<Rightarrow> IPv4Header \<Rightarrow> bool" where
  "allowACL_loop allowed [] networkID src dst header = allowed"
| "allowACL_loop allowed (rule # acl) networkID src dst header =
     (if \<not> acl_Enabled rule \<or> acl_NetworkID rule \<noteq> networkID \<or> \<not> matchACLRule rule networkID src dst header
      then allowACL_loop allowed acl networkID src dst header
      else if EqualFold (TrimSpace (acl_Action rule)) ''deny'' then False
      else if EqualFold (TrimSpace (acl_Action rule)) ''allow'' \<or> TrimSpace (acl_Action rule) = ''''
      then allowACL_loop True acl networkID src dst header
      else allowACL_loop allowed acl networkID src dst header)"

definition allowACL :: "VirtualACLRule list \<Rightarrow> int \<Rightarrow> string \<Rightarrow> string \<Rightarrow> IPv4Header \<Rightarrow> bool" where
  "allowACL acl networkID src dst header = allowACL_loop True acl networkID src dst header"

subsection \<open>Routes and the router\<close>

definition add_route :: "int \<Rightarrow> VirtualAddress \<Rightarrow> (string \<rightharpoonup> string) \<Rightarrow> (string \<rightharpoonup> string)" where
  "add_route networkID address routes =
     (if va_NetworkID address \<noteq> networkID \<or> TrimSpace (va_DeviceID address) = '''' then routes
      else
        let ip = To4 (ParseIP (TrimSpace (va_VirtualIP address))) in
        if ip = [] then routes
        else routes(IPv4String ip \<mapsto> va_DeviceID address))"

definition buildRoutes :: "int \<Rightarrow> VirtualAddress list \<Rightarrow> (string \<rightharpoonup> string)" where
  "buildRoutes networkID addresses = fold (add_route networkID) addresses Map.empty"

definition NewRouter :: "RouterConfig \<Rightarrow> router_error + Router" where
  "NewRouter cfg =
     (if rc_NetworkID cfg \<le> 0 then Inl ErrNetworkIDRequired
      else if TrimSpace (rc_SourceDeviceID cfg) = '''' then Inl ErrSourceDeviceRequired
      else
        let mtu = rc_MTU cfg;
            mtu = (if mtu \<le> 0 then DefaultMTU else mtu);
            routes = fold (add_route (rc_NetworkID cfg)) (rc_Addresses cfg) Map.empty
        in Inr \<lparr>r_networkID = rc_NetworkID cfg, r_sourceDeviceID = rc_SourceDeviceID cfg, r_mtu = mtu,
             r_routes = routes, r_acl = rc_ACLRules cfg, r_peerAvailable = rc_PeerAvailable cfg,
             r_stats = no_stats\<rparr>)"

definition recordDrop :: "Router \<Rightarrow> drop_reason \<Rightarrow> Router" where
  "recordDrop r reason =
     (let s = r_stats r; d = rs_Drops s;
          d = (case reason of
                 DropACLDeny \<Rightarrow> d\<lparr>ds_ACLDeny := ds_ACLDeny d + 1\<rparr>
               | DropRouteMiss \<Rightarrow> d\<lparr>ds_RouteMiss := ds_RouteMiss d + 1\<rparr>
               | DropMTU \<Rightarrow> d\<lparr>ds_MTU := ds_MTU d + 1\<rparr>
               | DropPeerUnavailable \<Rightarrow> d\<lparr>ds_PeerUnavailable := ds_PeerUnavailable d + 1\<rparr>
               | DropUnsupportedProtocol \<Rightarrow> d\<lparr>ds_UnsupportedProtocol := ds_UnsupportedProtocol d + 1\<rparr>
               | DropInvalidPacket \<Rightarrow> d\<lparr>ds_InvalidPacket := ds_InvalidPacket d + 1\<rparr>)
      in r\<lparr>r_stats := s\<lparr>rs_Drops := d\<rparr>\<rparr>)"

definition UpdateConfig ::
  "Router option \<Rightarrow> VirtualAddress list \<Rightarrow> VirtualACLRule list \<Rightarrow> (string \<rightharpoonup> bool) \<Rightarrow> Router option"
where
  "UpdateConfig p addresses acl peerAvailable =
     (case p of
        None \<Rightarrow> None
      | Some r \<Rightarrow> Some (r\<lparr>r_routes := buildRoutes (r_networkID r) addresses, r_acl := acl,
                        r_peerAvailable := peerAvailable\<rparr>))"

definition RecordInbound :: "Router option \<Rightarrow> RoutedFrame \<Rightarrow> Router option" where
  "RecordInbound p frame =
     (case p of
        None \<Rightarrow> None
      | Some r \<Rightarrow>
          let s = r_stats r in
          Some (r\<lparr>r_stats := s\<lparr>rs_RxPackets := rs_RxPackets s + 1,
                                rs_RxBytes := rs_RxBytes s + of_nat (length (rf_Payload frame))\<rparr>\<rparr>))"

definition Stats :: "Router option \<Rightarrow> RouterStats" where
  "Stats p = (case p of None \<Rightarrow> no_stats | Some r \<Rightarrow> r_stats r)"

definition RouteOutbound ::
  "Router option \<Rightarrow> bytes \<Rightarrow> (Router option \<times> (router_error + RoutedFrame)) option"
where
  "RouteOutbound p packet =
     (case p of
        None \<Rightarrow> Some (None, Inl ErrNilRouter)
      | Some r \<Rightarrow>
          if r_mtu r < int (length packet) then Some (Some (recordDrop r DropMTU), Inl ErrMTUDrop)
          else do {
            res \<leftarrow> ParseIPv4 packet;
            case res of
              Inl err \<Rightarrow> Some (Some (recordDrop r DropInvalidPacket), Inl err)
            | Inr header \<Rightarrow>
                if ih_Protocol header \<notin> {IPv4ProtocolTCP, IPv4ProtocolUDP, IPv4ProtocolICMP}
                then Some (Some (recordDrop r DropUnsupportedProtocol), Inl ErrUnsupportedProtocol)
                else
                  let dstDevice = (case r_routes r (IPv4String (ih_DestIP header)) of None \<Rightarrow> '''' | Some d \<Rightarrow> d) in
                  if dstDevice = '''' then Some (Some (recordDrop r DropRouteMiss), Inl ErrRouteMiss)
                  else if r_peerAvailable r dstDevice = Some False
                  then Some (Some (recordDrop r DropPeerUnavailable), Inl ErrPeerUnavailable)
                  else if \<not> allowACL (r_acl r) (r_networkID r) (r_sourceDeviceID r) dstDevice header
                  then Some (Some (recordDrop r DropACLDeny), Inl ErrACLDeny)
                  else do {
                    payload \<leftarrow> Prelude.slice packet 0 (ih_TotalLen header);
                    (payload, header) \<leftarrow>
                      (if ih_Protocol header = IPv4ProtocolTCP then do {
                         (payload, _) \<leftarrow> ClampTCPMSS payload (MSSForMTU (r_mtu r));
                         res \<leftarrow> ParseIPv4 payload;
                         Some (payload, case res of Inl _ \<Rightarrow> empty_header | Inr h \<Rightarrow> h) }
                       else Some (payload, header));
                    let frame = \<lparr>rf_NetworkID = r_networkID r, rf_SrcDevice = r_sourceDeviceID r,
                      rf_DstDevice = dstDevice, rf_PacketType = TypeIPv4, rf_Payload = payload,
                      rf_Header = header\<rparr>;
                    let s = r_stats r;
                    let s = s\<lparr>rs_TxPackets := rs_TxPackets s + 1,
                               rs_TxBytes := rs_TxBytes s + of_nat (length payload)\<rparr>;
                    Some (Some (r\<lparr>r_stats := s\<rparr>), Inr frame) } })"

section \<open>The parser\<close>

definition u16_at :: "bytes \<Rightarrow> nat \<Rightarrow> uint16" where
  "u16_at bs i = push_bit 8 (ucast (bs ! i)) OR ucast (bs ! Suc i)"

lemma two_bytes: "i + 2 \<le> length bs \<Longrightarrow> take 2 (drop i bs) = [bs ! i, bs ! Suc i]"
  by (simp add: numeral_2_eq_2 take_Suc_conv_app_nth flip: Cons_nth_drop_Suc)

lemma slice_Uint16 [go_slice]:
  "i + 2 \<le> length bs \<Longrightarrow> Prelude.slice bs i (i + 2) \<bind> Uint16 = Some (u16_at bs i)"
  by (simp add: slice_ok two_bytes u16_at_def)

lemma port_at_ok [go_slice]: "i + 2 \<le> length bs \<Longrightarrow> port_at bs i = Some (uint (u16_at bs i))"
  using slice_Uint16 [of i bs] unfolding port_at_def by simp

definition header_len :: "bytes \<Rightarrow> nat" where
  "header_len p = unat (p ! 0 AND 0x0f) * 4"

definition total_len :: "bytes \<Rightarrow> nat" where
  "total_len p = unat (u16_at p 2)"

definition valid_ipv4 :: "bytes \<Rightarrow> bool" where
  "valid_ipv4 p \<longleftrightarrow> 20 \<le> length p \<and> drop_bit 4 (p ! 0) = 4 \<and> 20 \<le> header_len p \<and> header_len p \<le> total_len p
     \<and> total_len p \<le> length p"

definition tcp_offset :: "bytes \<Rightarrow> nat" where
  "tcp_offset p = unat (drop_bit 4 (p ! (header_len p + 12))) * 4"

definition has_tcp :: "bytes \<Rightarrow> bool" where
  "has_tcp p \<longleftrightarrow> p ! 9 = IPv4ProtocolTCP \<and> header_len p + 20 \<le> total_len p \<and> 20 \<le> tcp_offset p
     \<and> tcp_offset p \<le> total_len p - header_len p"

definition has_udp :: "bytes \<Rightarrow> bool" where
  "has_udp p \<longleftrightarrow> p ! 9 = IPv4ProtocolUDP \<and> header_len p + 8 \<le> total_len p"

definition header_of :: "bytes \<Rightarrow> IPv4Header" where
  "header_of p =
     \<lparr>ih_HeaderLen = header_len p, ih_TotalLen = total_len p, ih_Protocol = p ! 9,
      ih_SourceIP = take 4 (drop 12 p), ih_DestIP = take 4 (drop 16 p),
      ih_SourcePort = (if has_tcp p \<or> has_udp p then uint (u16_at p (header_len p)) else 0),
      ih_DestPort = (if has_tcp p \<or> has_udp p then uint (u16_at p (header_len p + 2)) else 0),
      ih_TCPSYN = (has_tcp p \<and> p ! (header_len p + 13) AND 0x02 \<noteq> 0),
      ih_PayloadSize = total_len p - header_len p\<rparr>"

lemma u16_at_drop:
  "i + j + 2 \<le> b \<Longrightarrow> b \<le> length p \<Longrightarrow> u16_at (take (b - i) (drop i p)) j = u16_at p (i + j)"
  by (simp add: u16_at_def)

lemma fixed_reads:
  assumes "20 \<le> length p"
  shows "index p 0 = Some (p ! 0)" "Prelude.slice p 2 4 \<bind> Uint16 = Some (u16_at p 2)"
    "index p 9 = Some (p ! 9)" "Prelude.slice p 12 16 = Some (take 4 (drop 12 p))"
    "Prelude.slice p 16 20 = Some (take 4 (drop 16 p))"
  using assms slice_Uint16 [of 2 p] by (auto simp: index_def slice_ok)

text \<open>\<^verbatim>\<open>ParseIPv4\<close> accepts exactly the packets of \<open>valid_ipv4\<close> and reads the fields of \<open>header_of\<close>; it never
  panics.\<close>

lemma ParseIPv4_valid: "valid_ipv4 p \<Longrightarrow> ParseIPv4 p = Some (Inr (header_of p))"
proof -
  assume v: "valid_ipv4 p"
  then have len: "20 \<le> length p" "drop_bit 4 (p ! 0) = 4" "20 \<le> header_len p" "header_len p \<le> total_len p"
    "total_len p \<le> length p" by (simp_all add: valid_ipv4_def)
  let ?i = "header_len p" and ?n = "total_len p" and ?tcp = "take (total_len p - header_len p) (drop (header_len p) p)"
  have base: "Prelude.slice p ?i ?n = Some ?tcp" "unat (p ! 0 AND 15) * 4 = ?i" "unat (u16_at p 2) = ?n"
    "header_len p \<le> length p"
    using len by (simp_all add: go_slice header_len_def total_len_def)
  note base = base fixed_reads [OF len(1)]
  have tcp: "index ?tcp 12 = Some (p ! (?i + 12))" "index ?tcp 13 = Some (p ! (?i + 13))"
    if "?i + 20 \<le> ?n" using that len by (simp_all add: go_slice)
  have ports: "port_at ?tcp 0 = Some (uint (u16_at p ?i))" "port_at ?tcp 2 = Some (uint (u16_at p (?i + 2)))"
    if "?i + 8 \<le> ?n"
    using that len u16_at_drop [of ?i 0 ?n p] u16_at_drop [of ?i 2 ?n p] by (simp_all add: port_at_ok)
  have lt: "length ?tcp = ?n - ?i" using len by simp
  show ?thesis
  proof (cases "p ! 9 = IPv4ProtocolTCP \<and> ?i + 20 \<le> ?n")
    case True
    then show ?thesis
      using len base tcp ports lt
      by (auto simp: ParseIPv4_def header_of_def has_tcp_def has_udp_def tcp_offset_def protocol_defs Let_def)
  next
    case False
    then show ?thesis
      using len base ports lt
      by (auto simp: ParseIPv4_def header_of_def has_tcp_def has_udp_def Let_def protocol_defs)
  qed
qed

lemma ParseIPv4_invalid: "\<not> valid_ipv4 p \<Longrightarrow> \<exists>e. ParseIPv4 p = Some (Inl (ErrInvalidIPv4 e))"
proof (cases "20 \<le> length p")
  case True
  note reads = fixed_reads [OF True]
  assume "\<not> valid_ipv4 p"
  then have "drop_bit 4 (p ! 0) \<noteq> 4 \<or> unat (p ! 0 AND 15) * 4 < 20 \<or> length p < unat (p ! 0 AND 15) * 4
      \<or> unat (u16_at p 2) < unat (p ! 0 AND 15) * 4 \<or> length p < unat (u16_at p 2)"
    using True by (auto simp: valid_ipv4_def header_len_def total_len_def)
  then show ?thesis
    using True unfolding ParseIPv4_def Let_def reads by (auto simp: reads Let_def)
next
  case False
  then show ?thesis by (simp add: ParseIPv4_def)
qed

lemma ParseIPv4_Inr: "ParseIPv4 p = Some (Inr h) \<longleftrightarrow> valid_ipv4 p \<and> h = header_of p"
  using ParseIPv4_valid ParseIPv4_invalid by (cases "valid_ipv4 p") fastforce+

lemma header_len_bound: "header_len p \<le> 60"
proof -
  have "p ! 0 AND 15 = take_bit 4 (p ! 0)" by (simp add: take_bit_eq_mask mask_eq_exp_minus_1)
  then have "unat (p ! 0 AND 15) < 2 ^ 4" by (simp add: unsigned_take_bit_eq take_bit_eq_mod unat_mod)
  then show ?thesis by (simp add: header_len_def)
qed

lemma total_len_bound: "total_len p < 65536"
  using unsigned_less [of "u16_at p 2"] by (simp add: total_len_def)

lemma header_of_cong:
  assumes "total_len p \<le> length q" "\<And>i. i < 20 \<Longrightarrow> i \<noteq> 10 \<Longrightarrow> i \<noteq> 11 \<Longrightarrow> q ! i = p ! i"
    and "\<And>i. header_len p \<le> i \<Longrightarrow> i < header_len p + 14 \<Longrightarrow> i < total_len p \<Longrightarrow> q ! i = p ! i"
    and "valid_ipv4 p"
  shows "valid_ipv4 q \<and> header_of q = header_of p"
proof -
  have len: "20 \<le> length p" "20 \<le> length q" using assms(1,4) by (simp_all add: valid_ipv4_def)
  have hl: "header_len q = header_len p" "total_len q = total_len p" "q ! 9 = p ! 9" "q ! 0 = p ! 0"
    using assms(2) [of 0] assms(2) [of 2] assms(2) [of 3] assms(2) [of 9]
    by (simp_all add: header_len_def total_len_def u16_at_def)
  have ips: "take 4 (drop 12 q) = take 4 (drop 12 p)" "take 4 (drop 16 q) = take 4 (drop 16 p)"
    using assms(1,2) len by (auto intro!: nth_equalityI)
  have tcp: "has_tcp q \<longleftrightarrow> has_tcp p" using assms(3) [of "header_len p + 12"] by (auto simp: has_tcp_def tcp_offset_def hl)
  have udp: "has_udp q \<longleftrightarrow> has_udp p" by (simp add: has_udp_def hl)
  have nth: "q ! (header_len p + j) = p ! (header_len p + j)" if "j < 4" "has_tcp p \<or> has_udp p" for j
    using that assms(3) [of "header_len p + j"] by (auto simp: has_tcp_def has_udp_def)
  have syn: "q ! (header_len p + 13) = p ! (header_len p + 13)" if "has_tcp p"
    using that assms(3) [of "header_len p + 13"] by (auto simp: has_tcp_def)
  have ports: "has_tcp p \<or> has_udp p \<Longrightarrow> u16_at q (header_len p) = u16_at p (header_len p)"
    "has_tcp p \<or> has_udp p \<Longrightarrow> u16_at q (header_len p + 2) = u16_at p (header_len p + 2)"
    using nth [of 0] nth [of 1] nth [of 2] nth [of 3] by (auto simp: u16_at_def numeral_3_eq_3 numeral_2_eq_2)
  show ?thesis
    using assms(1,4) hl ips tcp udp ports syn by (auto simp: valid_ipv4_def header_of_def)
qed

section \<open>Internet checksums\<close>

text \<open>The reference: the sum of the big-endian 16-bit words of the data as a natural number.  A
  checksum field is right when the one's-complement sum over the data, field included, is zero.\<close>

fun word_sum :: "bytes \<Rightarrow> nat" where
  "word_sum (a # b # rest) = unat a * 256 + unat b + word_sum rest"
| "word_sum [a] = unat a * 256"
| "word_sum [] = 0"

lemma Uint16_val: "Uint16 [a, b] = Some w \<Longrightarrow> unat w = unat a * 256 + unat b"
proof -
  assume "Uint16 [a, b] = Some w"
  then have w: "w = push_bit 8 (ucast a) OR ucast b" by simp
  have "push_bit 8 (ucast a :: uint16) AND ucast b = 0"
    by (rule bit_word_eqI) (auto simp: bit_simps dest: bit_imp_le_length)
  then have "w = push_bit 8 (ucast a) + ucast b" unfolding w by (simp add: disjunctive_add_eq_or)
  moreover have "unat a * 256 + unat b < 65536" using unat_byte [of a] unat_byte [of b] by simp
  ultimately show ?thesis
    by (simp add: push_bit_eq_mult unat_word_ariths unat_widen)
qed

lemma word_sum_bound: "word_sum bs \<le> 65535 * ((length bs + 1) div 2)"
proof (induction bs rule: word_sum.induct)
  case (1 a b rest)
  then show ?case using unat_byte [of a] unat_byte [of b] by simp
next
  case (2 a)
  then show ?case using unat_byte [of a] by simp
qed simp

lemma word_sum_le: "length bs \<le> 2 * k \<Longrightarrow> word_sum bs \<le> 65535 * k"
proof -
  assume "length bs \<le> 2 * k"
  then have "(length bs + 1) div 2 \<le> k" by linarith
  then have "65535 * ((length bs + 1) div 2) \<le> 65535 * k" by simp
  then show ?thesis using word_sum_bound [of bs] by (rule order_trans [rotated])
qed

lemma word_sum_append: "even (length xs) \<Longrightarrow> word_sum (xs @ ys) = word_sum xs + word_sum ys"
  by (induction xs rule: word_sum.induct) simp_all

lemma word_sum_pad: "odd (length xs) \<Longrightarrow> word_sum (xs @ [0]) = word_sum xs"
  by (induction xs rule: word_sum.induct) simp_all

lemma word_sum_be16: "word_sum (be16 w) = unat w"
  using Uint16_val [of _ _ w] Uint16_be16 [of w "[]"] by (simp add: be16_def)

lemma checksum_words_sum:
  "unat acc + word_sum bs < 2 ^ 32 \<Longrightarrow> unat (checksum_words bs acc) = unat acc + word_sum bs"
proof (induction bs acc rule: checksum_words.induct)
  case (1 a b rest acc)
  obtain w where w: "Uint16 [a, b] = Some w" by simp
  have "unat (ucast w :: uint32) = unat a * 256 + unat b"
    using Uint16_val [OF w] by (simp add: unat_widen)
  then have "unat (acc + ucast w) = unat acc + (unat a * 256 + unat b)"
    using 1 by (simp add: unat_word_ariths)
  then show ?case using 1 w by simp
next
  case (2 a acc)
  have "unat (push_bit 8 (ucast a) :: uint32) = unat a * 256"
    using unat_byte [of a] by (simp add: push_bit_eq_mult unat_word_ariths unat_widen)
  then show ?case using 2 by (simp add: unat_word_ariths)
qed simp

lemma mod_div_65535: "(n mod 65536 + n div 65536) mod 65535 = n mod 65535" for n :: nat
proof -
  have "n mod 65535 = (n div 65536 * 65536 + n mod 65536) mod 65535" by simp
  also have "\<dots> = (n div 65536 * 65535 + (n mod 65536 + n div 65536)) mod 65535"
    by (rule arg_cong [where f = "\<lambda>x. x mod 65535"]) (simp add: algebra_simps)
  also have "\<dots> = (n mod 65536 + n div 65536) mod 65535"
    by (rule mod_mult_self3)
  finally show ?thesis by simp
qed

lemma checksum_fold_spec:
  "unat (checksum_fold s) < 65536 \<and> unat (checksum_fold s) mod 65535 = unat s mod 65535
     \<and> (unat (checksum_fold s) = 0 \<longleftrightarrow> unat s = 0)"
proof (induction s rule: checksum_fold.induct)
  case (1 s)
  let ?t = "(s AND 0xffff) + drop_bit 16 s"
  show ?case
  proof (cases "drop_bit 16 s = 0")
    case True
    then show ?thesis using high_half_zero [of s] by (simp add: checksum_fold.simps)
  next
    case False
    then have eq: "checksum_fold s = checksum_fold ?t" by (subst checksum_fold.simps) simp
    have t: "unat ?t = unat s mod 65536 + unat s div 65536" by (rule fold_halves)
    have "65536 \<le> unat s" using False by (simp add: high_half_zero)
    then have "unat ?t \<noteq> 0" "unat s \<noteq> 0" unfolding t by auto
    moreover have "unat ?t mod 65535 = unat s mod 65535" unfolding t by (rule mod_div_65535)
    ultimately show ?thesis using 1 [OF False] unfolding eq by (simp only:)
  qed
qed

lemma checksum_val:
  assumes "word_sum bs < 2 ^ 32"
  obtains f where "f < 65536" "f mod 65535 = word_sum bs mod 65535" "f = 0 \<longleftrightarrow> word_sum bs = 0"
    "unat (checksum bs) = 65535 - f"
proof -
  let ?s = "checksum_words bs 0"
  let ?f = "unat (checksum_fold ?s)"
  have s: "unat ?s = word_sum bs" using checksum_words_sum [of 0 bs] assms by simp
  have f: "?f < 65536" using checksum_fold_spec by blast
  have "unat (NOT (ucast (checksum_fold ?s) :: uint16)) = 65535 - unat (ucast (checksum_fold ?s) :: uint16)"
    by (rule unat_complement)
  moreover have "unat (ucast (checksum_fold ?s) :: uint16) = ?f"
    using f by (simp add: unsigned_ucast_eq take_bit_eq_mod)
  ultimately show ?thesis
    using checksum_fold_spec [of ?s] s that [of ?f] by (simp add: checksum_def)
qed

lemma checksum_zero_iff:
  assumes "word_sum bs < 2 ^ 32"
  shows "checksum bs = 0 \<longleftrightarrow> 0 < word_sum bs \<and> word_sum bs mod 65535 = 0"
proof -
  obtain f where f: "f < 65536" "f mod 65535 = word_sum bs mod 65535" "f = 0 \<longleftrightarrow> word_sum bs = 0"
    "unat (checksum bs) = 65535 - f" by (rule checksum_val [OF assms])
  have "checksum bs = 0 \<longleftrightarrow> unat (checksum bs) = 0" by (simp add: unat_eq_0)
  also have "\<dots> \<longleftrightarrow> f = 65535" using f(1,4) by linarith
  also have "\<dots> \<longleftrightarrow> 0 < word_sum bs \<and> word_sum bs mod 65535 = 0"
  proof
    assume "0 < word_sum bs \<and> word_sum bs mod 65535 = 0"
    then have "0 < f" "65535 dvd f" using f(2,3) by (auto simp: dvd_eq_mod_eq_0)
    then show "f = 65535" using f(1) by (auto simp: dvd_def)
  qed (use f in auto)
  finally show ?thesis .
qed

lemma checksum_fill:
  assumes "even (length xs)" "word_sum (xs @ [0, 0] @ ys) + 65535 < 2 ^ 32"
  shows "checksum (xs @ be16 (checksum (xs @ [0, 0] @ ys)) @ ys) = 0"
proof -
  let ?S = "word_sum (xs @ [0, 0] @ ys)"
  obtain f where f: "f < 65536" "f mod 65535 = ?S mod 65535" "f = 0 \<longleftrightarrow> ?S = 0"
    "unat (checksum (xs @ [0, 0] @ ys)) = 65535 - f" using assms(2) by (auto intro: checksum_val [of "xs @ [0, 0] @ ys"])
  have eq: "word_sum (xs @ be16 (checksum (xs @ [0, 0] @ ys)) @ ys) = ?S + (65535 - f)"
    using assms(1) f(4) by (simp add: word_sum_append word_sum_be16)
  have "(?S + (65535 - f)) mod 65535 = (f + (65535 - f)) mod 65535" using f(2) by (metis mod_add_left_eq)
  then have "(?S + (65535 - f)) mod 65535 = 0" using f(1) by simp
  moreover have "0 < ?S + (65535 - f)" using f(3) by (cases "f = 0") auto
  ultimately show ?thesis using eq assms(2) checksum_zero_iff by simp
qed

section \<open>MSS clamping\<close>

text \<open>The MSS values that a receiver reads from the TCP options, in order.\<close>

function mss_options :: "nat \<Rightarrow> bytes \<Rightarrow> nat \<Rightarrow> uint16 list" where
  "mss_options dataOffset tcp i =
     (if dataOffset \<le> i \<or> tcp ! i = 0 then []
      else if tcp ! i = 1 then mss_options dataOffset tcp (i + 1)
      else
        let l = unat (tcp ! (i + 1)) in
        if dataOffset \<le> i + 1 \<or> l < 2 \<or> dataOffset < i + l then []
        else (if tcp ! i = 2 \<and> l = 4 then [u16_at tcp (i + 2)] else []) @ mss_options dataOffset tcp (i + l))"
  by pat_completeness auto
termination
  by (relation "measure (\<lambda>(dataOffset, tcp, i). dataOffset - i)") auto

declare mss_options.simps [simp del]

definition clamped :: "int \<Rightarrow> uint16 \<Rightarrow> uint16" where
  "clamped maxMSS m = (if maxMSS < uint m then of_int maxMSS else m)"

lemma mss_options_nop: "i < d \<Longrightarrow> tcp ! i = 1 \<Longrightarrow> mss_options d tcp i = mss_options d tcp (i + 1)"
  by (simp add: mss_options.simps [of d tcp i])

lemma mss_options_stop:
  "d \<le> i \<or> tcp ! i = 0 \<or> tcp ! i \<noteq> 1 \<and> (d \<le> i + 1 \<or> unat (tcp ! (i + 1)) < 2 \<or> d < i + unat (tcp ! (i + 1)))
   \<Longrightarrow> mss_options d tcp i = []"
  by (auto simp: mss_options.simps [of d tcp i] Let_def)

lemma mss_options_opt:
  "tcp ! i \<noteq> 0 \<Longrightarrow> tcp ! i \<noteq> 1 \<Longrightarrow> unat (tcp ! (i + 1)) = l \<Longrightarrow> 2 \<le> l \<Longrightarrow> i + l \<le> d
   \<Longrightarrow> mss_options d tcp i
      = (if tcp ! i = 2 \<and> l = 4 then [u16_at tcp (i + 2)] else []) @ mss_options d tcp (i + l)"
  by (simp add: mss_options.simps [of d tcp i] Let_def)

lemma mss_options_cong:
  "(\<And>j. i \<le> j \<Longrightarrow> j < d \<Longrightarrow> tcp' ! j = tcp ! j) \<Longrightarrow> mss_options d tcp' i = mss_options d tcp i"
proof (induction d tcp i rule: mss_options.induct)
  case (1 d tcp i)
  consider "d \<le> i \<or> tcp ! i = 0 \<or> tcp ! i \<noteq> 1 \<and> (d \<le> i + 1 \<or> unat (tcp ! (i + 1)) < 2 \<or> d < i + unat (tcp ! (i + 1)))"
    | "i < d" "tcp ! i = 1"
    | "tcp ! i \<noteq> 0" "tcp ! i \<noteq> 1" "2 \<le> unat (tcp ! (i + 1))" "i + unat (tcp ! (i + 1)) \<le> d" "i + 1 < d"
    by linarith
  then show ?case
  proof cases
    case 1
    then have "d \<le> i \<or> tcp' ! i = 0 \<or> tcp' ! i \<noteq> 1
        \<and> (d \<le> i + 1 \<or> unat (tcp' ! (i + 1)) < 2 \<or> d < i + unat (tcp' ! (i + 1)))"
      using "1.prems" [of i] "1.prems" [of "i + 1"] by (cases "i + 1 < d") auto
    then show ?thesis using 1 by (simp only: mss_options_stop)
  next
    case 2
    then have "tcp' ! i = 1" "mss_options d tcp' (i + 1) = mss_options d tcp (i + 1)"
      using "1.prems" "1.IH"(1) by auto
    then show ?thesis using 2 by (simp add: mss_options_nop)
  next
    case 3
    let ?l = "unat (tcp ! (i + 1))"
    have "tcp' ! i = tcp ! i" "unat (tcp' ! (i + 1)) = ?l" using "1.prems" 3 by simp_all
    moreover have "mss_options d tcp' (i + ?l) = mss_options d tcp (i + ?l)"
      using "1.IH"(2) 3 "1.prems" by simp
    moreover have "u16_at tcp' (i + 2) = u16_at tcp (i + 2)" if "?l = 4"
      using that 3 "1.prems" by (simp add: u16_at_def)
    ultimately show ?thesis using 3 by (auto simp: mss_options_opt)
  qed
qed

lemma u16_at_put: "i + 2 \<le> length bs \<Longrightarrow> u16_at (put_at bs i (be16 w)) i = w"
proof -
  assume i: "i + 2 \<le> length bs"
  obtain a b where w: "be16 w = [a, b]" by (simp add: be16_def)
  then have "push_bit 8 (ucast a) OR ucast b = w" using Uint16_be16 [of w "[]"] by simp
  then show ?thesis using i by (simp add: u16_at_def nth_put_at w)
qed

text \<open>The walk over the options ends without a panic; it changes nothing before its start or from the
  end of the header on, it changes nothing at all unless it reports a change, and it leaves
  exactly the clamped values of the options that were there.\<close>

definition clamp_ok :: "int \<Rightarrow> nat \<Rightarrow> bytes \<Rightarrow> nat \<Rightarrow> bool \<Rightarrow> bytes \<Rightarrow> bool \<Rightarrow> bool" where
  "clamp_ok m d tcp i changed tcp' changed' \<longleftrightarrow>
     length tcp' = length tcp \<and> (\<forall>j. j < i \<or> d \<le> j \<longrightarrow> tcp' ! j = tcp ! j)
     \<and> (changed' \<or> (tcp' = tcp \<and> \<not> changed)) \<and> (changed \<longrightarrow> changed')
     \<and> mss_options d tcp' i = map (clamped m) (mss_options d tcp i)"

lemma clamp_ok_stop: "mss_options d tcp i = [] \<Longrightarrow> clamp_ok m d tcp i changed tcp changed"
  by (auto simp: clamp_ok_def)

lemma clamp_ok_skip:
  assumes "clamp_ok m d tcp (i + l) changed tcp' changed'" "i < d" "i + l \<le> d"
    and "l = 1 \<and> tcp ! i = 1 \<or> 2 \<le> l \<and> l = unat (tcp ! (i + 1)) \<and> tcp ! i \<notin> {0, 1}
           \<and> (tcp ! i = 2 \<and> l = 4 \<longrightarrow> clamped m (u16_at tcp (i + 2)) = u16_at tcp (i + 2))"
  shows "clamp_ok m d tcp i changed tcp' changed'"
proof -
  have same: "tcp' ! j = tcp ! j" if "j < i + l" for j using assms(1) that by (simp add: clamp_ok_def)
  have "mss_options d tcp' i = map (clamped m) (mss_options d tcp i)"
    using assms(4)
  proof (elim disjE conjE)
    assume "l = 1" "tcp ! i = 1"
    then show ?thesis
      using assms(1,2) same [of i] by (simp add: clamp_ok_def mss_options_nop)
  next
    assume l: "2 \<le> l" "l = unat (tcp ! (i + 1))" and k: "tcp ! i \<notin> {0, 1}"
      and u: "tcp ! i = 2 \<and> l = 4 \<longrightarrow> clamped m (u16_at tcp (i + 2)) = u16_at tcp (i + 2)"
    have "u16_at tcp' (i + 2) = u16_at tcp (i + 2)" if "l = 4" using that same by (simp add: u16_at_def)
    then show ?thesis
      using assms(1,3) l k u same [of i] same [of "i + 1"] by (simp add: clamp_ok_def mss_options_opt)
  qed
  then show ?thesis using assms(1) by (simp add: clamp_ok_def)
qed

lemma clamp_ok_write:
  assumes "clamp_ok m d (put_at tcp (i + 2) (be16 (of_int m))) (i + 4) True tcp' changed'"
    and "i + 4 \<le> d" "d \<le> length tcp" "tcp ! i = 2" "unat (tcp ! (i + 1)) = 4" "m < uint (u16_at tcp (i + 2))"
  shows "clamp_ok m d tcp i changed tcp' changed'"
proof -
  let ?w = "put_at tcp (i + 2) (be16 (of_int m))"
  have w: "?w ! j = tcp ! j" if "j < i + 2 \<or> i + 4 \<le> j" for j
    using that assms(2,3) by (auto simp: nth_put_at)
  have ch: "changed'" and len: "length tcp' = length tcp"
    using assms(1,2,3) by (auto simp: clamp_ok_def)
  have same: "tcp' ! j = ?w ! j" if "j < i + 4 \<or> d \<le> j" for j
    using assms(1) that unfolding clamp_ok_def by blast
  have "u16_at tcp' (i + 2) = of_int m"
    using u16_at_put [of "i + 2" tcp "of_int m"] same assms(2,3) by (simp add: u16_at_def)
  moreover have "mss_options d ?w (i + 4) = mss_options d tcp (i + 4)" by (rule mss_options_cong) (rule w, simp)
  moreover have "tcp' ! i = tcp ! i" "tcp' ! (i + 1) = tcp ! (i + 1)"
    using same [of i] same [of "i + 1"] w [of i] w [of "i + 1"] by simp_all
  ultimately have "mss_options d tcp' i = map (clamped m) (mss_options d tcp i)"
    using assms by (simp add: clamp_ok_def mss_options_opt clamped_def)
  moreover have "tcp' ! j = tcp ! j" if "j < i \<or> d \<le> j" for j using that same [of j] w [of j] assms(2) by auto
  ultimately show ?thesis using ch len by (simp add: clamp_ok_def)
qed

lemma clamp_options_ok:
  "d \<le> length tcp \<Longrightarrow> \<exists>tcp' changed'. clamp_options m d tcp i changed = Some (tcp', changed')
     \<and> clamp_ok m d tcp i changed tcp' changed'"
proof (induction "d - i" arbitrary: tcp i changed rule: less_induct)
  case less
  note IH = less.hyps and len = less.prems
  have stop: "clamp_options m d tcp d changed = Some (tcp, changed)" by (simp add: clamp_options.simps)
  consider "d \<le> i"
    | "i < d" "tcp ! i = 0 \<or> tcp ! i \<noteq> 1 \<and> (d \<le> i + 1 \<or> unat (tcp ! (i + 1)) < 2 \<or> d < i + unat (tcp ! (i + 1)))"
    | "i < d" "tcp ! i = 1"
    | "i < d" "tcp ! i \<noteq> 0" "tcp ! i \<noteq> 1" "2 \<le> unat (tcp ! (i + 1))" "i + unat (tcp ! (i + 1)) \<le> d" "i + 1 < d"
    by linarith
  then show ?case
  proof cases
    case 1
    then show ?thesis by (simp add: clamp_options.simps [of m d tcp i] clamp_ok_stop mss_options_stop)
  next
    case 2
    then have "clamp_options m d tcp i changed = Some (tcp, changed)"
      using len stop by (auto simp: clamp_options.simps [of m d tcp i] go_slice)
    then show ?thesis using 2 by (auto intro!: clamp_ok_stop mss_options_stop)
  next
    case 3
    then obtain tcp' changed' where r: "clamp_options m d tcp (i + 1) changed = Some (tcp', changed')"
      "clamp_ok m d tcp (i + 1) changed tcp' changed'"
      using IH [of "i + 1" tcp changed] len by (auto simp: diff_less_mono2)
    then show ?thesis
      using 3 len clamp_ok_skip [OF r(2)] by (simp add: clamp_options.simps [of m d tcp i] go_slice)
  next
    case 4
    let ?l = "unat (tcp ! (i + 1))"
    have idx: "index tcp i = Some (tcp ! i)" "index tcp (i + 1) = Some (tcp ! (i + 1))"
      using 4 len by (simp_all add: go_slice)
    have mss: "Prelude.slice tcp (i + 2) (i + 4) \<bind> Uint16 = Some (u16_at tcp (i + 2))" if "?l = 4"
      using that 4 len slice_Uint16 [of "i + 2" tcp] by (simp add: numeral_eq_Suc)
    show ?thesis
    proof (cases "tcp ! i = 2 \<and> ?l = 4 \<and> m < uint (u16_at tcp (i + 2))")
      case True
      then obtain tcp' changed' where r:
        "clamp_options m d (put_at tcp (i + 2) (be16 (of_int m))) (i + 4) True = Some (tcp', changed')"
        "clamp_ok m d (put_at tcp (i + 2) (be16 (of_int m))) (i + 4) True tcp' changed'"
        using IH [of "i + 4" "put_at tcp (i + 2) (be16 (of_int m))" True] 4 len
        by (auto simp: diff_less_mono2)
      then show ?thesis
        using True 4 idx mss len clamp_ok_write [OF r(2)] by (simp add: clamp_options.simps [of m d tcp i])
    next
      case False
      then obtain tcp' changed' where r: "clamp_options m d tcp (i + ?l) changed = Some (tcp', changed')"
        "clamp_ok m d tcp (i + ?l) changed tcp' changed'"
        using IH [of "i + ?l" tcp changed] 4 len by (auto simp: diff_less_mono2)
      moreover have "clamp_options m d tcp i changed = clamp_options m d tcp (i + ?l) changed"
        using False 4 idx mss by (auto simp: clamp_options.simps [of m d tcp i] Let_def)
      moreover have "clamp_ok m d tcp i changed tcp' changed'"
        using clamp_ok_skip [OF r(2)] False 4 by (auto simp: clamped_def)
      ultimately show ?thesis by simp
    qed
  qed
qed

lemma recomputeIPv4HeaderChecksum_ok:
  assumes "12 \<le> length h" "length h \<le> 60"
  shows "\<exists>h'. recomputeIPv4HeaderChecksum h = Some h' \<and> length h' = length h \<and> checksum h' = 0
    \<and> (\<forall>j. j \<noteq> 10 \<and> j \<noteq> 11 \<longrightarrow> h' ! j = h ! j)"
proof -
  let ?z = "h[10 := 0, 11 := 0]"
  have len: "length (take 10 h) = 10" using assms by simp
  have z: "?z = take 10 h @ [0, 0] @ drop 12 h"
    using assms by (intro nth_equalityI) (auto simp: nth_append nth_list_update nth_Cons' not_less)
  have "word_sum ?z \<le> 65535 * 30" using assms by (intro word_sum_le) simp
  then have "checksum (take 10 h @ be16 (checksum ?z) @ drop 12 h) = 0"
    unfolding z using len by (intro checksum_fill) simp_all
  moreover have "put_at ?z 10 (be16 (checksum ?z)) = take 10 h @ be16 (checksum ?z) @ drop 12 h"
    using len by (simp add: put_at_def z)
  moreover have "put_at ?z 10 (be16 (checksum ?z)) ! j = h ! j" if "j \<noteq> 10" "j \<noteq> 11" for j
    using that assms by (auto simp: nth_put_at)
  ultimately show ?thesis using assms by (simp add: recomputeIPv4HeaderChecksum_def Let_def)
qed

definition pseudo_header :: "bytes \<Rightarrow> bytes \<Rightarrow> bytes" where
  "pseudo_header h tcp = take 4 (drop 12 h) @ take 4 (drop 16 h) @ [0, IPv4ProtocolTCP] @ be16 (of_nat (length tcp))"

lemma put_at_mid: "length b' = length b \<Longrightarrow> put_at (a @ b @ c) (length a) b' = a @ b' @ c"
  by (simp add: put_at_def)

lemma recomputeTCPChecksum_ok:
  assumes "20 \<le> length h" "18 \<le> length tcp" "length tcp < 65536"
    and "ih_HeaderLen H = length h" "ih_TotalLen H = length h + length tcp"
  shows "\<exists>tcp'. recomputeTCPChecksum (h @ tcp) H = Some (h @ tcp') \<and> length tcp' = length tcp
    \<and> checksum (pseudo_header h tcp @ tcp') = 0 \<and> (\<forall>j. j \<noteq> 16 \<and> j \<noteq> 17 \<longrightarrow> tcp' ! j = tcp ! j)"
proof -
  let ?z = "tcp[16 := 0, 17 := 0]" and ?ps = "pseudo_header h tcp"
  let ?pad = "if odd (length tcp) then [0] else []"
  have len: "length (take 16 tcp) = 16" and lps: "length ?ps = 12" using assms by (simp_all add: pseudo_header_def)
  have z: "?z = take 16 tcp @ [0, 0] @ drop 18 tcp"
    using assms by (intro nth_equalityI) (auto simp: nth_append nth_list_update nth_Cons' not_less)
  define c where "c = checksum (?ps @ ?z @ ?pad)"
  have pad: "word_sum (xs @ ys @ ?pad) = word_sum (xs @ ys)" if "even (length xs)" "length ys = length tcp" for xs ys
    using that word_sum_pad [of ys] by (simp add: word_sum_append)
  have bound: "word_sum (?ps @ take 16 tcp @ [0, 0] @ drop 18 tcp @ ?pad) + 65535 < 2 ^ 32"
    using word_sum_le [of "?ps @ take 16 tcp @ [0, 0] @ drop 18 tcp @ ?pad" 40000] assms lps by (cases "odd (length tcp)") simp_all
  have fill: "checksum ((?ps @ take 16 tcp) @ be16 c @ drop 18 tcp @ ?pad) = 0"
    unfolding c_def z using bound lps len
    by (simp add: checksum_fill [where xs = "pseudo_header h tcp @ take 16 tcp", simplified])
  let ?t = "take 16 tcp @ be16 c @ drop 18 tcp"
  have t: "put_at ?z 16 (be16 c) = ?t" using len by (simp add: put_at_def z)
  have lt: "length ?t = length tcp" using assms by simp
  have ws: "word_sum (?ps @ ?t @ ?pad) = word_sum (?ps @ ?t)" using lps lt by (intro pad) simp_all
  have "word_sum (?ps @ ?t) < 2 ^ 32" using word_sum_le [of "?ps @ ?t" 40000] assms lps lt by simp
  then have ok: "checksum (?ps @ ?t) = 0" using fill ws checksum_zero_iff [of "?ps @ ?t"]
      checksum_zero_iff [of "?ps @ ?t @ ?pad"] by simp
  have mid: "put_at (h @ tcp) (length h) ?z = h @ ?z" "put_at (h @ ?z) (length h) ?t = h @ ?t"
    using put_at_mid [of ?z tcp h "[]"] put_at_mid [of ?t ?z h "[]"] lt by simp_all
  have "recomputeTCPChecksum (h @ tcp) H = Some (h @ ?t)"
  proof -
    have s: "Prelude.slice (h @ tcp) (length h) (length h + length tcp) = Some tcp"
      "Prelude.slice (h @ ?z) 12 16 = Some (take 4 (drop 12 h))"
      "Prelude.slice (h @ ?z) 16 20 = Some (take 4 (drop 16 h))"
      using assms(1) by (simp_all add: go_slice)
    have par: "(12 + length tcp) mod 2 = 1 \<longleftrightarrow> odd (length tcp)" by presburger
    have ps: "((((take 4 (drop 12 h) @ take 4 (drop 16 h)) @ [0, IPv4ProtocolTCP])
          @ be16 (of_nat (length ?z))) @ ?z) = ?ps @ ?z" "length (?ps @ ?z) = 12 + length tcp"
      using lps by (simp_all add: pseudo_header_def)
    have "recomputeTCPChecksum (h @ tcp) H = Some (put_at (h @ ?z) (length h) (put_at ?z 16 (be16 c)))"
      unfolding recomputeTCPChecksum_def assms s bind.bind_lunit Let_def mid(1) ps c_def par
      using assms(2) by simp
    then show ?thesis by (simp only: t mid(2))
  qed
  moreover have "?t ! j = tcp ! j" if "j \<noteq> 16" "j \<noteq> 17" for j
    using that assms(2) unfolding t [symmetric] by (auto simp: nth_put_at)
  ultimately show ?thesis using ok lt by blast
qed

definition tcp_of :: "bytes \<Rightarrow> bytes" where
  "tcp_of p = take (total_len p - header_len p) (drop (header_len p) p)"

definition tcp_mss :: "bytes \<Rightarrow> uint16 list" where
  "tcp_mss p = mss_options (tcp_offset p) (tcp_of p) 20"

definition ip_checksum_ok :: "bytes \<Rightarrow> bool" where
  "ip_checksum_ok p \<longleftrightarrow> checksum (take (header_len p) p) = 0"

definition tcp_checksum_ok :: "bytes \<Rightarrow> bool" where
  "tcp_checksum_ok p \<longleftrightarrow> checksum (pseudo_header p (tcp_of p) @ tcp_of p) = 0"

lemma packet_parts:
  assumes "valid_ipv4 p"
  shows "p = take (header_len p) p @ tcp_of p @ drop (total_len p) p"
    and "length (take (header_len p) p) = header_len p" "length (tcp_of p) = total_len p - header_len p"
proof -
  have b: "20 \<le> length p" "20 \<le> header_len p" "header_len p \<le> total_len p" "total_len p \<le> length p"
    using assms by (simp_all add: valid_ipv4_def)
  have "tcp_of p @ drop (total_len p) p = drop (header_len p) p"
    using append_take_drop_id [of "total_len p - header_len p" "drop (header_len p) p"] b by (simp add: tcp_of_def)
  then show "p = take (header_len p) p @ tcp_of p @ drop (total_len p) p" by simp
qed (use assms in \<open>auto simp: valid_ipv4_def tcp_of_def\<close>)

lemma header_of_fields [simp]:
  "ih_HeaderLen (header_of p) = header_len p" "ih_TotalLen (header_of p) = total_len p"
  "ih_Protocol (header_of p) = p ! 9" "ih_DestIP (header_of p) = take 4 (drop 16 p)"
  by (simp_all add: header_of_def)

lemma ClampTCPMSS_unchanged:
  "\<not> (valid_ipv4 p \<and> has_tcp p \<and> ih_TCPSYN (header_of p) \<and> 0 < m) \<Longrightarrow> ClampTCPMSS p m = Some (p, False)"
  using ParseIPv4_valid [of p] ParseIPv4_invalid [of p]
  by (cases "valid_ipv4 p") (auto simp: ClampTCPMSS_def header_of_def has_tcp_def)

lemma ClampTCPMSS_run:
  assumes v: "valid_ipv4 p" and "has_tcp p" "ih_TCPSYN (header_of p)" "0 < m"
    and run: "clamp_options m (tcp_offset p) (tcp_of p) 20 False = Some (tcp', changed)"
    and len: "length tcp' = length (tcp_of p)"
  obtains "\<not> changed" "ClampTCPMSS p m = Some (take (header_len p) p @ tcp' @ drop (total_len p) p, False)"
  | h tcp'' where "changed" "ClampTCPMSS p m = Some (h @ tcp'' @ drop (total_len p) p, True)"
    "length h = header_len p" "checksum h = 0" "\<And>j. j \<noteq> 10 \<Longrightarrow> j \<noteq> 11 \<Longrightarrow> h ! j = take (header_len p) p ! j"
    "length tcp'' = length tcp'" "checksum (pseudo_header h tcp' @ tcp'') = 0"
    "\<And>j. j \<noteq> 16 \<Longrightarrow> j \<noteq> 17 \<Longrightarrow> tcp'' ! j = tcp' ! j"
proof -
  let ?hl = "header_len p" and ?tl = "total_len p" and ?H = "take (header_len p) p" and ?R = "drop (total_len p) p"
  have b: "20 \<le> ?hl" "?hl \<le> ?tl" "?tl \<le> length p" "?hl + 20 \<le> ?tl" "?hl \<le> 60" "?tl < 65536"
    using assms(1,2) header_len_bound [of p] total_len_bound [of p] by (simp_all add: valid_ipv4_def has_tcp_def)
  note parts = packet_parts [OF v]
  have off: "\<not> (tcp_offset p < 20 \<or> length (tcp_of p) < tcp_offset p)"
    using assms(2) parts(3) by (simp add: has_tcp_def)
  have s: "Prelude.slice p ?hl ?tl = Some (tcp_of p)" "index (tcp_of p) 12 = Some (p ! (?hl + 12))"
    using b by (simp_all add: go_slice tcp_of_def)
  have p1: "put_at p ?hl tcp' = ?H @ tcp' @ ?R"
    using put_at_mid [of tcp' "tcp_of p" ?H ?R] len parts by metis
  have start: "ClampTCPMSS p m = (if changed then do {
       h \<leftarrow> Prelude.slice (?H @ tcp' @ ?R) 0 ?hl \<bind> recomputeIPv4HeaderChecksum;
       packet \<leftarrow> Some (put_at (?H @ tcp' @ ?R) 0 h);
       q \<leftarrow> Prelude.slice packet 0 ?tl \<bind> (\<lambda>q. recomputeTCPChecksum q (header_of p));
       Some (put_at packet 0 q, True) } else Some (?H @ tcp' @ ?R, False))"
    using assms(2-4) s off run p1 ParseIPv4_valid [OF v]
    by (simp add: ClampTCPMSS_def header_of_def has_tcp_def tcp_offset_def Let_def)
  have tcp: "18 \<le> length tcp'" "length tcp' < 65536" "?tl = ?hl + length tcp'"
    using len parts(3) b by linarith+
  obtain h where h: "recomputeIPv4HeaderChecksum ?H = Some h" "length h = ?hl" "checksum h = 0"
    "\<forall>j. j \<noteq> 10 \<and> j \<noteq> 11 \<longrightarrow> h ! j = ?H ! j"
    using recomputeIPv4HeaderChecksum_ok [of ?H] b parts(2) by auto
  obtain tcp'' where t: "recomputeTCPChecksum (h @ tcp') (header_of p) = Some (h @ tcp'')"
    "length tcp'' = length tcp'" "checksum (pseudo_header h tcp' @ tcp'') = 0"
    "\<forall>j. j \<noteq> 16 \<and> j \<noteq> 17 \<longrightarrow> tcp'' ! j = tcp' ! j"
    using recomputeTCPChecksum_ok [of h tcp' "header_of p"] h(2) tcp b(1) by auto
  have "Prelude.slice (?H @ tcp' @ ?R) 0 ?hl = Some ?H" using b by (simp add: go_slice)
  moreover have "put_at (?H @ tcp' @ ?R) 0 h = h @ tcp' @ ?R"
    using h(2) parts(2) put_at_mid [of h ?H "[]" "tcp' @ ?R"] by simp
  moreover have "Prelude.slice (h @ tcp' @ ?R) 0 ?tl = Some (h @ tcp')"
    using h(2) len parts(3) b by (simp add: go_slice)
  moreover have "put_at (h @ tcp' @ ?R) 0 (h @ tcp'') = h @ tcp'' @ ?R"
    using t(2) put_at_mid [of "h @ tcp''" "h @ tcp'" "[]" ?R] by simp
  ultimately have "changed \<Longrightarrow> ClampTCPMSS p m = Some (h @ tcp'' @ ?R, True)"
    using start h(1) t(1) by simp
  then show ?thesis using that start h t by (cases changed) simp_all
qed

lemma clamped_packet:
  assumes v: "valid_ipv4 p" and hl: "length h = header_len p" and tl: "length t = length (tcp_of p)"
    and h: "\<forall>j. j \<noteq> 10 \<and> j \<noteq> 11 \<longrightarrow> h ! j = take (header_len p) p ! j"
    and t: "\<forall>j < 14. t ! j = tcp_of p ! j"
  defines "q \<equiv> h @ t @ drop (total_len p) p"
  shows "length q = length p" "valid_ipv4 q" "header_of q = header_of p" "take (header_len p) q = h" "tcp_of q = t"
    "header_len p + 20 \<le> total_len p \<Longrightarrow> tcp_offset q = tcp_offset p"
    "pseudo_header q t = pseudo_header h t"
    "j < length p \<Longrightarrow> q ! j = (if j < header_len p then h ! j
       else if j < total_len p then t ! (j - header_len p) else p ! j)"
proof -
  let ?hl = "header_len p" and ?tl = "total_len p"
  have b: "20 \<le> ?hl" "?hl \<le> ?tl" "?tl \<le> length p" using v by (simp_all add: valid_ipv4_def)
  have lt: "length t = ?tl - ?hl" using tl packet_parts(3) [OF v] by simp
  show len: "length q = length p" using b hl lt by (simp add: q_def)
  show nth: "q ! j = (if j < ?hl then h ! j else if j < ?tl then t ! (j - ?hl) else p ! j)" if "j < length p" for j
    using that b hl lt by (auto simp: q_def nth_append)
  have lo: "q ! j = p ! j" if "j < 20" "j \<noteq> 10" "j \<noteq> 11" for j
    using that nth [of j] h b by simp
  have mid: "q ! j = p ! j" if "?hl \<le> j" "j < ?hl + 14" "j < ?tl" for j
    using that nth [of j] t b by (simp add: tcp_of_def)
  have cong: "valid_ipv4 q \<and> header_of q = header_of p"
    by (rule header_of_cong [OF _ lo mid v]) (use len b in simp)
  then show "valid_ipv4 q" "header_of q = header_of p" by simp_all
  then have "header_len q = ?hl" "total_len q = ?tl" using header_of_fields by metis+
  then show "take ?hl q = h" "tcp_of q = t"
    "?hl + 20 \<le> ?tl \<Longrightarrow> tcp_offset q = tcp_offset p"
    using hl lt b mid [of "?hl + 12"] by (simp_all add: q_def tcp_of_def tcp_offset_def)
  show "pseudo_header q t = pseudo_header h t"
    using hl b by (simp add: pseudo_header_def q_def)
qed

lemma ClampTCPMSS_spec:
  "\<exists>q changed. ClampTCPMSS p m = Some (q, changed) \<and> length q = length p
     \<and> (\<not> changed \<longrightarrow> q = p)
     \<and> (changed \<longrightarrow> valid_ipv4 q \<and> header_of q = header_of p \<and> ip_checksum_ok q \<and> tcp_checksum_ok q
          \<and> (\<forall>j < length p. j \<notin> {10, 11, header_len p + 16, header_len p + 17}
                \<and> \<not> (header_len p + 20 \<le> j \<and> j < header_len p + tcp_offset p) \<longrightarrow> q ! j = p ! j))
     \<and> (valid_ipv4 p \<and> ih_TCPSYN (header_of p) \<and> 0 < m \<longrightarrow> tcp_mss q = map (clamped m) (tcp_mss p))"
proof (cases "valid_ipv4 p \<and> has_tcp p \<and> ih_TCPSYN (header_of p) \<and> 0 < m")
  case False
  then have "\<not> (valid_ipv4 p \<and> ih_TCPSYN (header_of p) \<and> 0 < m)" by (auto simp: header_of_def)
  then show ?thesis using ClampTCPMSS_unchanged [OF False] by auto
next
  case True
  then have v: "valid_ipv4 p" and pre: "has_tcp p" "ih_TCPSYN (header_of p)" "0 < m" by simp_all
  have d: "header_len p + 20 \<le> total_len p" "tcp_offset p \<le> length (tcp_of p)"
    using pre(1) packet_parts(3) [OF v] by (simp_all add: has_tcp_def)
  obtain tcp' changed where run: "clamp_options m (tcp_offset p) (tcp_of p) 20 False = Some (tcp', changed)"
    and ok: "clamp_ok m (tcp_offset p) (tcp_of p) 20 False tcp' changed"
    using clamp_options_ok [OF d(2)] by blast
  then have len: "length tcp' = length (tcp_of p)"
    and out: "\<And>j. j < 20 \<or> tcp_offset p \<le> j \<Longrightarrow> tcp' ! j = tcp_of p ! j"
    and mss: "mss_options (tcp_offset p) tcp' 20 = map (clamped m) (tcp_mss p)"
    and same: "changed \<or> tcp' = tcp_of p"
    by (auto simp: clamp_ok_def tcp_mss_def)
  from ClampTCPMSS_run [OF v pre run len] show ?thesis
  proof cases
    case 1
    then show ?thesis using same mss packet_parts(1) [OF v] by (auto simp: tcp_mss_def)
  next
    case (2 h t)
    let ?q = "h @ t @ drop (total_len p) p"
    have h10: "\<forall>j. j \<noteq> 10 \<and> j \<noteq> 11 \<longrightarrow> h ! j = take (header_len p) p ! j" using 2(5) by blast
    have t14: "\<forall>j < 14. t ! j = tcp_of p ! j" using 2(8) out by simp
    have lt: "length t = length (tcp_of p)" using 2(6) len by simp
    note q = clamped_packet [OF v 2(3) lt h10 t14]
    have ops: "tcp_mss ?q = map (clamped m) (tcp_mss p)"
      using mss_options_cong [of 20 "tcp_offset p" t tcp'] 2(8) mss q(5) q(6) [OF d(1)] by (simp add: tcp_mss_def)
    have hl: "header_len ?q = header_len p" using q(3) header_of_fields(1) by metis
    have ps: "pseudo_header h t = pseudo_header h tcp'" by (simp add: pseudo_header_def 2(6))
    have sums: "ip_checksum_ok ?q" "tcp_checksum_ok ?q"
      unfolding ip_checksum_ok_def tcp_checksum_ok_def hl q(4,5,7) ps by (rule 2(4), rule 2(7))
    have "?q ! j = p ! j" if "j < length p" "j \<notin> {10, 11, header_len p + 16, header_len p + 17}"
      "\<not> (header_len p + 20 \<le> j \<and> j < header_len p + tcp_offset p)" for j
    proof -
      have "t ! (j - header_len p) = p ! j" if j: "header_len p \<le> j" "j < total_len p"
      proof -
        have "j - header_len p \<noteq> 16" "j - header_len p \<noteq> 17"
          "j - header_len p < 20 \<or> tcp_offset p \<le> j - header_len p"
          using j \<open>j \<notin> _\<close> \<open>\<not> (_ \<and> _)\<close> by auto
        then show ?thesis
          using j 2(8) [of "j - header_len p"] out [of "j - header_len p"] \<open>j < length p\<close> by (simp add: tcp_of_def)
      qed
      then show ?thesis using that q(8) [of j] 2(5) [of j] by auto
    qed
    then show ?thesis using 2(2) q(1,2,3) ops sums by auto
  qed
qed

text \<open>C27. Clamping the MSS of a SYN packet never panics and is right on every branch.  The length of the
  packet, its parsed header and every byte outside the two checksum fields and the TCP options
  are kept; each MSS option above the limit becomes the limit and the others keep their value;
  and when anything changed, the IPv4 header checksum and the TCP checksum are both valid.\<close>

theorem ClampTCPMSS_correct:
  "\<exists>q changed. ClampTCPMSS p m = Some (q, changed) \<and> length q = length p
     \<and> (\<not> changed \<longrightarrow> q = p)
     \<and> (changed \<longrightarrow> valid_ipv4 q \<and> header_of q = header_of p \<and> ip_checksum_ok q \<and> tcp_checksum_ok q
          \<and> (\<forall>j < length p. j \<notin> {10, 11, header_len p + 16, header_len p + 17}
                \<and> \<not> (header_len p + 20 \<le> j \<and> j < header_len p + tcp_offset p) \<longrightarrow> q ! j = p ! j))
     \<and> (valid_ipv4 p \<and> ih_TCPSYN (header_of p) \<and> 0 < m \<longrightarrow> tcp_mss q = map (clamped m) (tcp_mss p))"
  by (rule ClampTCPMSS_spec)

text \<open>A SYN packet of 44 bytes from 172.16.10.2 to 172.16.10.3, port 3389, that offers an MSS of 1460.\<close>

definition demo_syn :: bytes where
  "demo_syn = [0x45, 0, 0, 44, 0, 0, 0, 0, 64, 6, 0, 0, 172, 16, 10, 2, 172, 16, 10, 3,
     0xc0, 1, 0x0d, 0x3d, 0, 0, 0, 0, 0, 0, 0, 0, 0x60, 2, 0xff, 0xff, 0, 0, 0, 0, 2, 4, 0x05, 0xb4]"

lemma demo_syn_fields:
  "length demo_syn = 44" "header_len demo_syn = 20" "total_len demo_syn = 44" "tcp_offset demo_syn = 24"
  "demo_syn ! 9 = IPv4ProtocolTCP" "valid_ipv4 demo_syn" "has_tcp demo_syn"
proof -
  show l: "length demo_syn = 44" "header_len demo_syn = 20" "total_len demo_syn = 44"
    by (simp_all add: demo_syn_def header_len_def total_len_def u16_at_def)
  then show "tcp_offset demo_syn = 24" "demo_syn ! 9 = IPv4ProtocolTCP" "valid_ipv4 demo_syn"
    by (simp_all add: demo_syn_def tcp_offset_def protocol_defs valid_ipv4_def)
  with l show "has_tcp demo_syn" by (simp add: has_tcp_def)
qed

lemma demo_syn_SYN: "ih_TCPSYN (header_of demo_syn)"
  using demo_syn_fields by (simp add: header_of_def) (simp add: demo_syn_def)

lemma demo_syn_mss: "tcp_mss demo_syn = [1460]"
  unfolding tcp_mss_def tcp_of_def demo_syn_fields
  by (simp add: demo_syn_def mss_options.simps u16_at_def)

theorem ClampTCPMSS_correct_witness:
  "\<exists>q changed. ClampTCPMSS demo_syn 1240 = Some (q, changed) \<and> tcp_mss q = [1240] \<and> length q = 44"
  using ClampTCPMSS_correct [of demo_syn 1240] demo_syn_fields demo_syn_SYN demo_syn_mss
  by (auto simp: clamped_def)

section \<open>The access-control list\<close>

definition denied_by :: "int \<Rightarrow> string \<Rightarrow> string \<Rightarrow> IPv4Header \<Rightarrow> VirtualACLRule \<Rightarrow> bool" where
  "denied_by networkID src dst header rule \<longleftrightarrow>
     acl_Enabled rule \<and> acl_NetworkID rule = networkID \<and> matchACLRule rule networkID src dst header
     \<and> EqualFold (TrimSpace (acl_Action rule)) ''deny''"

lemma allowACL_loop_iff:
  "allowACL_loop allowed acl n src dst h \<longleftrightarrow> \<not> list_ex (denied_by n src dst h) acl \<and>
     (allowed \<or> allowACL_loop False acl n src dst h)"
  by (induction allowed acl n src dst h rule: allowACL_loop.induct) (auto simp: denied_by_def)

text \<open>An explicit deny takes precedence: a packet is let through exactly when no enabled rule of the
  network that matches it denies it, wherever the rule stands in the list.\<close>

theorem allowACL_iff: "allowACL acl n src dst h \<longleftrightarrow> \<not> list_ex (denied_by n src dst h) acl"
  using allowACL_loop_iff [of True] by (simp add: allowACL_def)

section \<open>Routing\<close>

definition owns :: "int \<Rightarrow> bytes \<Rightarrow> VirtualAddress \<Rightarrow> bool" where
  "owns networkID ip address \<longleftrightarrow> va_NetworkID address = networkID \<and> TrimSpace (va_DeviceID address) \<noteq> ''''
     \<and> To4 (ParseIP (TrimSpace (va_VirtualIP address))) = ip"

lemma add_route_lookup:
  assumes "length ip = 4"
  shows "add_route n a routes (IPv4String ip) = (if owns n ip a then Some (va_DeviceID a) else routes (IPv4String ip))"
proof -
  define i where "i = To4 (ParseIP (TrimSpace (va_VirtualIP a)))"
  have "ip \<noteq> []" using assms by auto
  show ?thesis
  proof (cases "i = []")
    case True
    then show ?thesis using \<open>ip \<noteq> []\<close> by (simp add: add_route_def owns_def Let_def flip: i_def)
  next
    case False
    then have "length i = 4" using length_To4 unfolding i_def by blast
    then have "IPv4String i = IPv4String ip \<longleftrightarrow> i = ip" using assms by (rule IPv4String_inject)
    then show ?thesis using False \<open>ip \<noteq> []\<close> by (auto simp: add_route_def owns_def Let_def simp flip: i_def)
  qed
qed

text \<open>The route table maps an IPv4 destination to the device of the last address record of the
  network that holds this address (records of other networks, with a blank device or with an
  unparsable address do not count), although the table is keyed by the printed address.\<close>

theorem buildRoutes_lookup:
  assumes "length ip = 4"
  shows "buildRoutes n addresses (IPv4String ip) = map_option va_DeviceID (find (owns n ip) (rev addresses))"
proof (induction addresses rule: rev_induct)
  case (snoc a as)
  then show ?case using assms by (simp add: buildRoutes_def add_route_lookup)
qed (simp add: buildRoutes_def)

definition demo_address :: VirtualAddress where
  "demo_address = \<lparr>va_DeviceID = ''dev-b'', va_NetworkID = 1, va_VirtualIP = IPv4String [172, 16, 10, 3],
     va_Hostname = '''', va_DNSEnabled = False, va_CreatedAt = '''', va_UpdatedAt = ''''\<rparr>"

lemma demo_address_owns: "owns 1 [172, 16, 10, 3] demo_address"
  by (simp add: owns_def demo_address_def TrimSpace_plain plain_IPv4String ParseIP_String plain_char_def)

theorem buildRoutes_lookup_witness:
  "buildRoutes 1 [demo_address] (IPv4String [172, 16, 10, 3]) = Some ''dev-b''"
  using buildRoutes_lookup [of "[172, 16, 10, 3]" 1 "[demo_address]"] demo_address_owns
  by (simp add: demo_address_def)

text \<open>What the router admits, as a condition on its configuration and the packet.\<close>

definition admitted :: "Router \<Rightarrow> bytes \<Rightarrow> string \<Rightarrow> bool" where
  "admitted r packet dev \<longleftrightarrow>
     int (length packet) \<le> r_mtu r \<and> valid_ipv4 packet
     \<and> packet ! 9 \<in> {IPv4ProtocolTCP, IPv4ProtocolUDP, IPv4ProtocolICMP}
     \<and> r_routes r (IPv4String (take 4 (drop 16 packet))) = Some dev \<and> dev \<noteq> ''''
     \<and> r_peerAvailable r dev \<noteq> Some False
     \<and> allowACL (r_acl r) (r_networkID r) (r_sourceDeviceID r) dev (header_of packet)"

definition outgoing :: "Router \<Rightarrow> bytes \<Rightarrow> bytes" where
  "outgoing r packet =
     (let p = take (total_len packet) packet in
      if packet ! 9 = IPv4ProtocolTCP then fst (the (ClampTCPMSS p (MSSForMTU (r_mtu r)))) else p)"

definition count_sent :: "Router \<Rightarrow> nat \<Rightarrow> Router" where
  "count_sent r n = r\<lparr>r_stats := (r_stats r)\<lparr>rs_TxPackets := rs_TxPackets (r_stats r) + 1,
     rs_TxBytes := rs_TxBytes (r_stats r) + of_nat n\<rparr>\<rparr>"

lemma header_of_take:
  assumes "valid_ipv4 p"
  shows "valid_ipv4 (take (total_len p) p) \<and> header_of (take (total_len p) p) = header_of p"
proof (rule header_of_cong [OF _ _ _ assms])
  show "total_len p \<le> length (take (total_len p) p)" using assms by (simp add: valid_ipv4_def)
qed (use assms in \<open>simp_all add: valid_ipv4_def\<close>)

lemma outgoing_spec:
  assumes "valid_ipv4 p"
  shows "length (outgoing r p) = total_len p" "header_of (outgoing r p) = header_of p" "valid_ipv4 (outgoing r p)"
    and "p ! 9 = IPv4ProtocolTCP \<Longrightarrow>
      \<exists>c. ClampTCPMSS (take (total_len p) p) (MSSForMTU (r_mtu r)) = Some (outgoing r p, c)"
proof -
  obtain q c where c: "ClampTCPMSS (take (total_len p) p) (MSSForMTU (r_mtu r)) = Some (q, c)"
    "length q = length (take (total_len p) p)" "\<not> c \<longrightarrow> q = take (total_len p) p"
    "c \<longrightarrow> valid_ipv4 q \<and> header_of q = header_of (take (total_len p) p)"
    using ClampTCPMSS_spec [of "take (total_len p) p" "MSSForMTU (r_mtu r)"] by blast
  then show "length (outgoing r p) = total_len p" "header_of (outgoing r p) = header_of p" "valid_ipv4 (outgoing r p)"
    using header_of_take [OF assms] assms by (cases c; auto simp: outgoing_def Let_def valid_ipv4_def)+
  show "\<exists>c. ClampTCPMSS (take (total_len p) p) (MSSForMTU (r_mtu r)) = Some (outgoing r p, c)"
    if "p ! 9 = IPv4ProtocolTCP" using that c(1) by (simp add: outgoing_def)
qed

lemma RouteOutbound_admitted:
  assumes "admitted r p dev"
  shows "RouteOutbound (Some r) p = Some (Some (count_sent r (total_len p)),
    Inr \<lparr>rf_NetworkID = r_networkID r, rf_SrcDevice = r_sourceDeviceID r, rf_DstDevice = dev,
          rf_PacketType = TypeIPv4, rf_Payload = outgoing r p, rf_Header = header_of p\<rparr>)"
proof -
  have v: "valid_ipv4 p" using assms by (simp add: admitted_def)
  have s: "Prelude.slice p 0 (total_len p) = Some (take (total_len p) p)"
    using v by (simp add: go_slice valid_ipv4_def)
  have out: "length (outgoing r p) = total_len p" "ParseIPv4 (outgoing r p) = Some (Inr (header_of p))"
    using outgoing_spec(1-3) [OF v, of r] ParseIPv4_valid by simp_all
  show ?thesis
  proof (cases "p ! 9 = IPv4ProtocolTCP")
    case True
    obtain c where "ClampTCPMSS (take (total_len p) p) (MSSForMTU (r_mtu r)) = Some (outgoing r p, c)"
      using outgoing_spec(4) [OF v True] by blast
    then show ?thesis
      using assms True s out ParseIPv4_valid [OF v]
      by (simp add: RouteOutbound_def admitted_def count_sent_def Let_def)
  next
    case False
    then have "outgoing r p = take (total_len p) p" by (simp add: outgoing_def)
    then show ?thesis
      using assms False s out ParseIPv4_valid [OF v]
      by (simp add: RouteOutbound_def admitted_def count_sent_def Let_def)
  qed
qed

lemma RouteOutbound_refused:
  assumes "\<nexists>dev. admitted r p dev"
  shows "\<exists>reason err. RouteOutbound (Some r) p = Some (Some (recordDrop r reason), Inl err)"
proof (cases "int (length p) \<le> r_mtu r \<and> valid_ipv4 p")
  case True
  then show ?thesis
    using assms ParseIPv4_valid [of p]
    by (auto simp: RouteOutbound_def admitted_def Let_def split: option.split)
next
  case False
  then show ?thesis
    using ParseIPv4_invalid [of p] ParseIPv4_valid [of p]
    by (cases "int (length p) \<le> r_mtu r") (auto simp: RouteOutbound_def)
qed

lemma admitted_unique: "admitted r p dev \<Longrightarrow> admitted r p dev' \<Longrightarrow> dev = dev'"
  by (auto simp: admitted_def)

text \<open>C25. Routing is complete and sound: the router never panics, it hands a packet to a device
  exactly when the packet fits the MTU, is a well-formed IPv4 packet of a supported protocol,
  and has a routed, available destination that the access-control list allows.\<close>

theorem RouteOutbound_iff_admitted:
  "\<exists>q res. RouteOutbound (Some r) p = Some (Some q, res)
     \<and> (\<forall>dev. (\<exists>f. res = Inr f \<and> rf_DstDevice f = dev) \<longleftrightarrow> admitted r p dev)"
proof (cases "\<exists>dev. admitted r p dev")
  case True
  then obtain dev where "admitted r p dev" by blast
  then show ?thesis using RouteOutbound_admitted admitted_unique by fastforce
next
  case False
  then show ?thesis using RouteOutbound_refused [OF False] by auto
qed

definition packets_counted :: "RouterStats \<Rightarrow> uint64" where
  "packets_counted s = rs_TxPackets s + ds_ACLDeny (rs_Drops s) + ds_RouteMiss (rs_Drops s) + ds_MTU (rs_Drops s)
     + ds_PeerUnavailable (rs_Drops s) + ds_InvalidPacket (rs_Drops s) + ds_UnsupportedProtocol (rs_Drops s)"

lemma packets_counted_step:
  "packets_counted (r_stats (recordDrop r reason)) = packets_counted (r_stats r) + 1"
  "packets_counted (r_stats (count_sent r n)) = packets_counted (r_stats r) + 1"
  by (cases reason) (simp_all add: packets_counted_def recordDrop_def count_sent_def Let_def)

text \<open>No packet goes unaccounted: every call to \<^verbatim>\<open>RouteOutbound\<close> adds one to exactly one of the
  counters (sent, or one of the six drop reasons), and the sent counter moves exactly when a
  frame is returned, by the length of its payload.  The configuration does not change.\<close>

theorem RouteOutbound_accounting:
  "\<exists>q res. RouteOutbound (Some r) p = Some (Some q, res)
     \<and> packets_counted (r_stats q) = packets_counted (r_stats r) + 1
     \<and> (case res of
          Inl _ \<Rightarrow> rs_TxPackets (r_stats q) = rs_TxPackets (r_stats r) \<and> rs_TxBytes (r_stats q) = rs_TxBytes (r_stats r)
        | Inr f \<Rightarrow> rs_TxPackets (r_stats q) = rs_TxPackets (r_stats r) + 1
             \<and> rs_TxBytes (r_stats q) = rs_TxBytes (r_stats r) + of_nat (length (rf_Payload f)))
     \<and> q\<lparr>r_stats := r_stats r\<rparr> = r"
proof (cases "\<exists>dev. admitted r p dev")
  case True
  then obtain dev where a: "admitted r p dev" by blast
  then have "valid_ipv4 p" by (simp add: admitted_def)
  then show ?thesis
    using RouteOutbound_admitted [OF a] packets_counted_step(2) [of r "total_len p"] outgoing_spec(1)
    by (simp add: count_sent_def)
next
  case False
  then obtain reason err where "RouteOutbound (Some r) p = Some (Some (recordDrop r reason), Inl err)"
    using RouteOutbound_refused by blast
  then show ?thesis
    using packets_counted_step(1) [of r reason] by (simp add: recordDrop_def Let_def)
qed

text \<open>What leaves the router for a TCP connection fits the tunnel: a frame's payload is one whole
  IPv4 packet with the header of the packet that came in, no longer than the MTU, and when it is a
  SYN every MSS it offers leaves room for the IPv4 and TCP headers within the MTU.\<close>

theorem RouteOutbound_fits:
  assumes "RouteOutbound (Some r) p = Some (q, Inr f)" "576 \<le> r_mtu r"
  shows "header_of (rf_Payload f) = header_of p \<and> rf_Header f = header_of p
    \<and> length (rf_Payload f) = total_len p \<and> int (length (rf_Payload f)) \<le> r_mtu r
    \<and> (ih_TCPSYN (rf_Header f) \<longrightarrow> list_all (\<lambda>m. uint m + 40 \<le> r_mtu r) (tcp_mss (rf_Payload f)))"
proof -
  have "\<exists>dev. admitted r p dev"
    using assms(1) RouteOutbound_refused [of r p] by fastforce
  then obtain dev where a: "admitted r p dev" by blast
  then have v: "valid_ipv4 p" "int (length p) \<le> r_mtu r" by (simp_all add: admitted_def)
  have f: "rf_Payload f = outgoing r p" "rf_Header f = header_of p"
    using assms(1) RouteOutbound_admitted [OF a] by auto
  note out = outgoing_spec [OF v(1), of r]
  have "list_all (\<lambda>m. uint m + 40 \<le> r_mtu r) (tcp_mss (outgoing r p))" if syn: "ih_TCPSYN (header_of p)"
  proof -
    let ?m = "MSSForMTU (r_mtu r)" and ?t = "take (total_len p) p"
    have tcp: "p ! 9 = IPv4ProtocolTCP" using syn by (simp add: header_of_def has_tcp_def)
    obtain c where "ClampTCPMSS ?t ?m = Some (outgoing r p, c)" using out(4) [OF tcp] by blast
    then have "tcp_mss (outgoing r p) = map (clamped ?m) (tcp_mss ?t)"
      using ClampTCPMSS_spec [of ?t ?m] header_of_take [OF v(1)] syn MSSForMTU_bounds [of "r_mtu r"] by auto
    moreover have "uint (clamped ?m w) + 40 \<le> r_mtu r" for w
    proof -
      have "uint (of_int ?m :: uint16) = ?m"
        using MSSForMTU_bounds [of "r_mtu r"] by (simp add: uint_word_of_int DefaultMSS_def)
      then show ?thesis using MSSForMTU_fits [OF assms(2)] by (auto simp: clamped_def)
    qed
    ultimately show ?thesis by (simp add: list_all_iff)
  qed
  then show ?thesis using f out v by (auto simp: valid_ipv4_def)
qed

definition demo_config :: RouterConfig where
  "demo_config = \<lparr>rc_NetworkID = 1, rc_SourceDeviceID = ''dev-a'', rc_MTU = 1280, rc_Addresses = [demo_address],
     rc_ACLRules = [], rc_PeerAvailable = Map.empty\<rparr>"

definition demo_router :: Router where
  "demo_router = projr (NewRouter demo_config)"

lemma demo_router_new: "NewRouter demo_config = Inr demo_router"
  by (simp add: demo_router_def NewRouter_def demo_config_def TrimSpace_plain plain_char_def)

lemma demo_router_fields:
  "r_mtu demo_router = 1280" "r_routes demo_router = buildRoutes 1 [demo_address]"
  "r_acl demo_router = []" "r_peerAvailable demo_router = Map.empty"
  by (simp_all add: demo_router_def NewRouter_def demo_config_def TrimSpace_plain plain_char_def buildRoutes_def)

lemma demo_admitted: "admitted demo_router demo_syn ''dev-b''"
proof -
  have "take 4 (drop 16 demo_syn) = [172, 16, 10, 3]" by (simp add: demo_syn_def)
  then show ?thesis
    using add_route_lookup [of "[172, 16, 10, 3]" 1 demo_address Map.empty] demo_address_owns demo_syn_fields demo_router_fields
    by (simp add: admitted_def buildRoutes_def allowACL_def) (simp add: demo_address_def)
qed

theorem RouteOutbound_fits_witness:
  "\<exists>q f. RouteOutbound (Some demo_router) demo_syn = Some (q, Inr f) \<and> length (rf_Payload f) = 44
     \<and> list_all (\<lambda>m. uint m + 40 \<le> 1280) (tcp_mss (rf_Payload f))"
proof -
  obtain q f where r: "RouteOutbound (Some demo_router) demo_syn = Some (q, Inr f)"
    using RouteOutbound_admitted [OF demo_admitted] by blast
  show ?thesis
    using RouteOutbound_fits [OF r] r demo_syn_SYN demo_syn_fields demo_router_fields by auto
qed

text \<open>Changing the configuration of a running router gives the router that would be built from the
  new configuration, with the statistics kept.\<close>

theorem UpdateConfig_like_NewRouter:
  assumes "NewRouter cfg = Inr r"
  shows "\<exists>r'. NewRouter (cfg\<lparr>rc_Addresses := addresses, rc_ACLRules := acl, rc_PeerAvailable := peers\<rparr>) = Inr r'
    \<and> UpdateConfig (Some (r\<lparr>r_stats := s\<rparr>)) addresses acl peers = Some (r'\<lparr>r_stats := s\<rparr>)"
  using assms by (auto simp: NewRouter_def UpdateConfig_def buildRoutes_def Let_def split: if_splits)

theorem UpdateConfig_like_NewRouter_witness:
  "\<exists>r'. NewRouter (demo_config\<lparr>rc_Addresses := [], rc_ACLRules := [], rc_PeerAvailable := [''dev-b'' \<mapsto> False]\<rparr>) = Inr r'
    \<and> UpdateConfig (Some (demo_router\<lparr>r_stats := no_stats\<rparr>)) [] [] [''dev-b'' \<mapsto> False] = Some (r'\<lparr>r_stats := no_stats\<rparr>)"
  using UpdateConfig_like_NewRouter [OF demo_router_new] by blast

end
