(* ===== verification/Machine.thy ===== *)
theory Machine
  imports Prelude "HOL-Library.AList" "HOL-Library.Multiset"
begin

text \<open>
  What the stateful components share: the contract of a component whose operations keep an
  invariant, as a locale, and Go's maps as association lists.

  A Go \<^verbatim>\<open>map[K]V\<close> is an association list with distinct keys.  Reading is \<open>map_of\<close>, assignment is
  \<open>AList.update\<close> and \<^verbatim>\<open>delete\<close> is \<open>AList.delete\<close>; the position of an entry stands for the order in
  which one particular \<^verbatim>\<open>range\<close> loop visits it, which Go leaves open.  Operations whose result
  must not depend on that order have a lemma that says so.
\<close>

subsection \<open>Components with an invariant\<close>

locale invariant_machine =
  fixes step :: "'s \<Rightarrow> 'op \<Rightarrow> 's"
    and inv :: "'s \<Rightarrow> bool"
  assumes step_inv: "inv s \<Longrightarrow> inv (step s op)"
begin

definition run :: "'s \<Rightarrow> 'op list \<Rightarrow> 's" where
  "run s ops = foldl step s ops"

lemma run_Nil [simp]: "run s [] = s"
  by (simp add: run_def)

lemma run_Cons [simp]: "run s (op # ops) = run (step s op) ops"
  by (simp add: run_def)

lemma run_inv: "inv s \<Longrightarrow> inv (run s ops)"
  by (induction ops arbitrary: s) (auto intro: step_inv)

text \<open>What holds of every state with the invariant and is kept by single steps from such states is
  kept by runs.\<close>

lemma run_relation:
  assumes "inv s" "\<And>s. rel s s" "\<And>s t u. rel s t \<Longrightarrow> rel t u \<Longrightarrow> rel s u"
    and "\<And>s op. inv s \<Longrightarrow> rel s (step s op)"
  shows "rel s (run s ops)"
  using assms(1)
proof (induction ops arbitrary: s)
  case (Cons op ops)
  then have "rel (step s op) (run (step s op) ops)" by (blast intro: step_inv)
  then show ?case using assms(3) assms(4) [OF Cons.prems] by auto
qed (simp add: assms(2))

end

subsection \<open>Maps as association lists\<close>

definition keys_distinct :: "('k \<times> 'v) list \<Rightarrow> bool" where
  "keys_distinct m \<longleftrightarrow> distinct (map fst m)"

lemma keys_distinct_Nil [simp]: "keys_distinct []"
  by (simp add: keys_distinct_def)

lemma keys_distinct_update [simp]: "keys_distinct m \<Longrightarrow> keys_distinct (AList.update k v m)"
  by (simp add: keys_distinct_def distinct_update)

lemma keys_distinct_delete [simp]: "keys_distinct m \<Longrightarrow> keys_distinct (AList.delete k m)"
  by (simp add: keys_distinct_def distinct_delete)

lemma keys_distinct_filter [simp]: "keys_distinct m \<Longrightarrow> keys_distinct (filter P m)"
  by (auto simp: keys_distinct_def distinct_map intro: inj_on_subset)

lemma keys_distinct_map_snd: "keys_distinct (map (\<lambda>(k, v). (k, f k v)) m) \<longleftrightarrow> keys_distinct m"
  by (simp add: keys_distinct_def case_prod_beta comp_def)

lemma map_of_in: "keys_distinct m \<Longrightarrow> map_of m k = Some v \<longleftrightarrow> (k, v) \<in> set m"
  by (simp add: keys_distinct_def)

lemma length_update: "length (AList.update k v m) = (if map_of m k = None then length m + 1 else length m)"
  by (induction m) auto

lemma keys_update: "fst ` set (AList.update k v m) = insert k (fst ` set m)"
  by (induction m) auto

lemma in_update:
  assumes "keys_distinct m"
  shows "(k', v') \<in> set (AList.update k v m) \<longleftrightarrow> (if k' = k then v' = v else (k', v') \<in> set m)"
  by (simp add: assms update_conv flip: map_of_in) (use assms in \<open>auto simp flip: map_of_in\<close>)

lemma set_delete: "set (AList.delete k m) = {x \<in> set m. fst x \<noteq> k}"
  by (auto simp: AList.delete_eq)

lemma length_delete: "keys_distinct m \<Longrightarrow> map_of m k \<noteq> None \<Longrightarrow> length (AList.delete k m) + 1 = length m"
proof (induction m)
  case (Cons p m)
  have "AList.delete k m = m" if "k \<notin> fst ` set m"
    using that by (force simp: AList.delete_eq filter_id_conv)
  then show ?case
    using Cons by (cases p; cases "fst p = k") (force simp: keys_distinct_def map_of_eq_None_iff)+
qed simp

lemma map_of_permute:
  assumes "keys_distinct m" "mset m = mset m'"
  shows "map_of m = map_of m'"
proof -
  have "keys_distinct m'" using assms unfolding keys_distinct_def by (metis mset_map mset_eq_imp_distinct_iff)
  moreover have "set m = set m'" using assms(2) by (rule mset_eq_setD)
  ultimately show ?thesis using assms(1) map_of_inject_set by (fastforce simp: keys_distinct_def)
qed

subsection \<open>Sorting by a key\<close>

lemma map_sort_key: "map f (sort_key f xs) = sort (map f xs)"
  by (rule properties_for_sort [symmetric]) (simp_all add: mset_map)

lemma sort_permute: "mset xs = mset ys \<Longrightarrow> sort xs = sort ys"
  by (rule properties_for_sort) simp_all

lemma sort_key_permute: "mset xs = mset ys \<Longrightarrow> inj_on f (set xs) \<Longrightarrow> sort_key f xs = sort_key f ys"
  by (rule sort_key_inj_key_eq) simp_all

end
