(* ===== verification/Link.thy ===== *)
theory Link
  imports Machine StoreTypes
begin

text \<open>
  The peer session table of the LAN packet engine, \<^verbatim>\<open>internal/packet/link.go\<close>: which path each peer
  session takes, keep-alives, the session limit, the rebuild after a network change and the
  removal of idle sessions.

  Each operation holds the manager's mutex throughout, so it is one step on the state.  The clock
  \<^verbatim>\<open>m.now()\<close> is read once per operation; its value is the argument \<open>now\<close>.  The session table is an
  association list (see \<open>Machine\<close>); the pointers it holds are never shared outside the mutex, so an
  update through a pointer is an update of the table.
\<close>

subsection \<open>Data\<close>

definition LinkPathP2P :: string where "LinkPathP2P = ''p2p''"

definition LinkPathRelay :: string where "LinkPathRelay = ''relay''"

definition DefaultMaxPeerSessions :: int where "DefaultMaxPeerSessions = 64"

definition DefaultKeepAliveEvery :: duration where "DefaultKeepAliveEvery = 15 * Second"

definition DefaultIdleTimeout :: duration where "DefaultIdleTimeout = 2 * Minute"

datatype link_error =
    ErrPeerSessionLimit
  | ErrPeerNotFound
  | ErrLinkUnavailable

record PeerEndpoint =
  pe_DeviceID :: string
  pe_Addr :: string
  pe_UPnPAddr :: string

record LinkConfig =
  lc_DeviceID :: string
  lc_ForceRelay :: bool
  lc_MaxPeerSessions :: int
  lc_KeepAliveEvery :: duration
  lc_IdleTimeout :: duration

record PeerSession =
  pses_PeerID :: string
  pses_Profile :: string
  pses_Path :: string
  pses_Endpoint :: PeerEndpoint
  pses_Relay :: PeerEndpoint
  pses_State :: string
  pses_Attempt :: int
  pses_LastError :: string
  pses_CreatedAt :: time
  pses_LastSeenAt :: time
  pses_LastSentAt :: time
  pses_LastRecvAt :: time
  pses_NetworkEpoch :: uint64
  pses_TxBytes :: uint64
  pses_RxBytes :: uint64
  pses_RelayBytes :: uint64
  pses_KeepAlives :: uint64

record LinkStats =
  ls_ActiveSessions :: uint64
  ls_Created :: uint64
  ls_Rebuilt :: uint64
  ls_Closed :: uint64
  ls_TxBytes :: uint64
  ls_RxBytes :: uint64
  ls_RelayBytes :: uint64
  ls_KeepAlives :: uint64
  ls_LimitDrops :: uint64

record LinkManager =
  lm_deviceID :: string
  lm_forceRelay :: bool
  lm_maxSessions :: int
  lm_keepAliveEvery :: duration
  lm_idleTimeout :: duration
  lm_sessions :: "(string \<times> PeerSession) list"
  lm_stats :: LinkStats

record LinkFrame =
  lf_PeerID :: string
  lf_Path :: string
  lf_Payload :: bytes

definition no_endpoint :: PeerEndpoint where
  "no_endpoint = \<lparr>pe_DeviceID = '''', pe_Addr = '''', pe_UPnPAddr = ''''\<rparr>"

definition new_session :: "string \<Rightarrow> time \<Rightarrow> PeerSession" where
  "new_session key now = \<lparr>pses_PeerID = key, pses_Profile = ProfileLANPacket, pses_Path = '''',
     pses_Endpoint = no_endpoint, pses_Relay = no_endpoint, pses_State = '''', pses_Attempt = 0,
     pses_LastError = '''', pses_CreatedAt = now, pses_LastSeenAt = 0, pses_LastSentAt = 0,
     pses_LastRecvAt = 0, pses_NetworkEpoch = 0, pses_TxBytes = 0, pses_RxBytes = 0,
     pses_RelayBytes = 0, pses_KeepAlives = 0\<rparr>"

definition no_link_stats :: LinkStats where
  "no_link_stats = \<lparr>ls_ActiveSessions = 0, ls_Created = 0, ls_Rebuilt = 0, ls_Closed = 0, ls_TxBytes = 0,
     ls_RxBytes = 0, ls_RelayBytes = 0, ls_KeepAlives = 0, ls_LimitDrops = 0\<rparr>"

subsection \<open>Operations\<close>

definition NewLinkManager :: "LinkConfig \<Rightarrow> LinkManager" where
  "NewLinkManager cfg =
     (let maxSessions = lc_MaxPeerSessions cfg;
          maxSessions = (if maxSessions \<le> 0 then DefaultMaxPeerSessions else maxSessions);
          keepAliveEvery = lc_KeepAliveEvery cfg;
          keepAliveEvery = (if keepAliveEvery \<le> 0 then DefaultKeepAliveEvery else keepAliveEvery);
          idleTimeout = lc_IdleTimeout cfg;
          idleTimeout = (if idleTimeout \<le> 0 then DefaultIdleTimeout else idleTimeout)
      in \<lparr>lm_deviceID = lc_DeviceID cfg, lm_forceRelay = lc_ForceRelay cfg, lm_maxSessions = maxSessions,
          lm_keepAliveEvery = keepAliveEvery, lm_idleTimeout = idleTimeout, lm_sessions = [],
          lm_stats = no_link_stats\<rparr>)"

definition UpsertPeer ::
  "LinkManager \<Rightarrow> time \<Rightarrow> PeerEndpoint \<Rightarrow> PeerEndpoint \<Rightarrow> bool \<Rightarrow> LinkManager \<times> (link_error + PeerSession)"
where
  "UpsertPeer m now peer relay p2pReady =
     (let key = pe_DeviceID peer; stats = lm_stats m in
      if key = '''' then (m, Inl ErrPeerNotFound)
      else
        let found = map_of (lm_sessions m) key in
        if found = None \<and> lm_maxSessions m \<le> int (length (lm_sessions m))
        then (m\<lparr>lm_stats := stats\<lparr>ls_LimitDrops := ls_LimitDrops stats + 1\<rparr>\<rparr>, Inl ErrPeerSessionLimit)
        else
          let session = (case found of None \<Rightarrow> new_session key now | Some s \<Rightarrow> s);
              stats = (if found = None then stats\<lparr>ls_Created := ls_Created stats + 1\<rparr> else stats);
              path = (if \<not> lm_forceRelay m \<and> p2pReady then LinkPathP2P else LinkPathRelay);
              stats = (if pses_Path session \<noteq> '''' \<and> pses_Path session \<noteq> path
                       then stats\<lparr>ls_Rebuilt := ls_Rebuilt stats + 1\<rparr> else stats);
              session = session\<lparr>pses_Endpoint := peer, pses_Relay := relay, pses_Path := path,
                pses_State := path, pses_LastError := '''', pses_LastSeenAt := now\<rparr>
          in (m\<lparr>lm_sessions := AList.update key session (lm_sessions m), lm_stats := stats\<rparr>, Inr session))"

definition Send :: "LinkManager \<Rightarrow> time \<Rightarrow> string \<Rightarrow> bytes \<Rightarrow> LinkManager \<times> (link_error + LinkFrame)" where
  "Send m now peerID payload =
     (case map_of (lm_sessions m) peerID of
        None \<Rightarrow> (m, Inl ErrPeerNotFound)
      | Some session \<Rightarrow>
          if pses_State session = '''' \<or> pses_Path session = '''' then (m, Inl ErrLinkUnavailable)
          else
            let n = of_nat (length payload); stats = lm_stats m;
                session = session\<lparr>pses_LastSentAt := now, pses_TxBytes := pses_TxBytes session + n\<rparr>;
                relayed = pses_Path session = LinkPathRelay;
                session = (if relayed then session\<lparr>pses_RelayBytes := pses_RelayBytes session + n\<rparr> else session);
                stats = (if relayed then stats\<lparr>ls_RelayBytes := ls_RelayBytes stats + n\<rparr> else stats);
                stats = stats\<lparr>ls_TxBytes := ls_TxBytes stats + n\<rparr>
            in (m\<lparr>lm_sessions := AList.update peerID session (lm_sessions m), lm_stats := stats\<rparr>,
                Inr \<lparr>lf_PeerID = peerID, lf_Path = pses_Path session, lf_Payload = payload\<rparr>))"

definition Receive :: "LinkManager \<Rightarrow> time \<Rightarrow> string \<Rightarrow> bytes \<Rightarrow> string \<Rightarrow> LinkManager \<times> link_error option" where
  "Receive m now peerID payload path =
     (case map_of (lm_sessions m) peerID of
        None \<Rightarrow> (m, Some ErrPeerNotFound)
      | Some session \<Rightarrow>
          let n = of_nat (length payload); stats = lm_stats m;
              session = session\<lparr>pses_LastRecvAt := now, pses_RxBytes := pses_RxBytes session + n\<rparr>;
              session = (if path \<noteq> '''' \<and> path \<noteq> pses_Path session
                         then session\<lparr>pses_Path := path, pses_State := path\<rparr> else session)
          in (m\<lparr>lm_sessions := AList.update peerID session (lm_sessions m),
                lm_stats := stats\<lparr>ls_RxBytes := ls_RxBytes stats + n\<rparr>\<rparr>, None))"

definition keepalive_due :: "LinkManager \<Rightarrow> time \<Rightarrow> PeerSession \<Rightarrow> bool" where
  "keepalive_due m now session \<longleftrightarrow>
     \<not> (pses_Path session = '''' \<or> pses_State session = '''')
     \<and> (IsZero (pses_LastSentAt session) \<or> lm_keepAliveEvery m \<le> time_Sub now (pses_LastSentAt session))"

fun keepalive_loop ::
  "LinkManager \<Rightarrow> time \<Rightarrow> (string \<times> PeerSession) list \<Rightarrow> LinkStats \<Rightarrow> LinkFrame list \<Rightarrow>
     (string \<times> PeerSession) list \<times> LinkStats \<times> LinkFrame list"
where
  "keepalive_loop m now [] stats out = ([], stats, out)"
| "keepalive_loop m now ((key, session) # rest) stats out =
     (if keepalive_due m now session then
        let session = session\<lparr>pses_LastSentAt := now, pses_KeepAlives := pses_KeepAlives session + 1\<rparr>;
            stats = stats\<lparr>ls_KeepAlives := ls_KeepAlives stats + 1\<rparr>;
            frame = \<lparr>lf_PeerID = pses_PeerID session, lf_Path = pses_Path session, lf_Payload = []\<rparr>;
            (rest, stats, out) = keepalive_loop m now rest stats (out @ [frame])
        in ((key, session) # rest, stats, out)
      else
        let (rest, stats, out) = keepalive_loop m now rest stats out
        in ((key, session) # rest, stats, out))"

definition DueKeepAlives :: "LinkManager \<Rightarrow> time \<Rightarrow> LinkManager \<times> LinkFrame list" where
  "DueKeepAlives m now =
     (let (sessions, stats, out) = keepalive_loop m now (lm_sessions m) (lm_stats m) []
      in (m\<lparr>lm_sessions := sessions, lm_stats := stats\<rparr>, sort_key lf_PeerID out))"

definition rebuild_session :: "time \<Rightarrow> PeerSession \<Rightarrow> PeerSession" where
  "rebuild_session now session =
     session\<lparr>pses_NetworkEpoch := pses_NetworkEpoch session + 1, pses_Path := '''',
       pses_State := ''rebuilding'', pses_LastError := ''network_changed'', pses_LastSeenAt := now\<rparr>"

definition RebuildForNetworkChange :: "LinkManager \<Rightarrow> time \<Rightarrow> LinkManager" where
  "RebuildForNetworkChange m now =
     (let stats = lm_stats m in
      m\<lparr>lm_sessions := map (\<lambda>(key, session). (key, rebuild_session now session)) (lm_sessions m),
        lm_stats := stats\<lparr>ls_Rebuilt := ls_Rebuilt stats + of_nat (length (lm_sessions m))\<rparr>\<rparr>)"

definition is_idle :: "LinkManager \<Rightarrow> time \<Rightarrow> PeerSession \<Rightarrow> bool" where
  "is_idle m now session \<longleftrightarrow>
     (if \<not> IsZero (pses_LastSeenAt session) \<and> time_Sub now (pses_LastSeenAt session) \<le> lm_idleTimeout m then False
      else if IsZero (pses_LastSeenAt session) \<and> time_Sub now (pses_CreatedAt session) \<le> lm_idleTimeout m then False
      else True)"

fun cleanup_loop ::
  "LinkManager \<Rightarrow> time \<Rightarrow> (string \<times> PeerSession) list \<Rightarrow> LinkManager \<Rightarrow> string list \<Rightarrow> LinkManager \<times> string list"
where
  "cleanup_loop cfg now [] m closed = (m, closed)"
| "cleanup_loop cfg now ((peerID, session) # rest) m closed =
     (if is_idle cfg now session then
        cleanup_loop cfg now rest
          (m\<lparr>lm_sessions := AList.delete peerID (lm_sessions m),
             lm_stats := (lm_stats m)\<lparr>ls_Closed := ls_Closed (lm_stats m) + 1\<rparr>\<rparr>)
          (closed @ [peerID])
      else cleanup_loop cfg now rest m closed)"

definition CleanupIdle :: "LinkManager \<Rightarrow> time \<Rightarrow> LinkManager \<times> string list" where
  "CleanupIdle m now =
     (let (m', closed) = cleanup_loop m now (lm_sessions m) m [] in (m', sort closed))"

definition Session :: "LinkManager \<Rightarrow> string \<Rightarrow> PeerSession option" where
  "Session m peerID = map_of (lm_sessions m) peerID"

definition Sessions :: "LinkManager \<Rightarrow> PeerSession list" where
  "Sessions m = sort_key pses_PeerID (map snd (lm_sessions m))"

definition LinkManager_Stats :: "LinkManager \<Rightarrow> LinkStats" where
  "LinkManager_Stats m = (lm_stats m)\<lparr>ls_ActiveSessions := of_nat (length (lm_sessions m))\<rparr>"

section \<open>The invariant\<close>

definition session_ok :: "string \<times> PeerSession \<Rightarrow> bool" where
  "session_ok e \<longleftrightarrow> fst e \<noteq> '''' \<and> pses_PeerID (snd e) = fst e"

definition link_inv :: "LinkManager \<Rightarrow> bool" where
  "link_inv m \<longleftrightarrow> keys_distinct (lm_sessions m) \<and> list_all session_ok (lm_sessions m)
     \<and> int (length (lm_sessions m)) \<le> lm_maxSessions m
     \<and> 0 < lm_maxSessions m \<and> 0 < lm_keepAliveEvery m \<and> 0 < lm_idleTimeout m
     \<and> ls_Created (lm_stats m) = ls_Closed (lm_stats m) + of_nat (length (lm_sessions m))"

lemma link_invD:
  assumes "link_inv m"
  shows "keys_distinct (lm_sessions m)" "\<And>k s. (k, s) \<in> set (lm_sessions m) \<Longrightarrow> k \<noteq> '''' \<and> pses_PeerID s = k"
    "int (length (lm_sessions m)) \<le> lm_maxSessions m" "0 < lm_keepAliveEvery m"
    "ls_Created (lm_stats m) = ls_Closed (lm_stats m) + of_nat (length (lm_sessions m))"
  using assms by (auto simp: link_inv_def list_all_iff session_ok_def)

lemma session_ok_update:
  assumes "keys_distinct ss" "list_all session_ok ss" "k \<noteq> ''''" "pses_PeerID s = k"
  shows "list_all session_ok (AList.update k s ss)"
proof -
  have "session_ok (k', s')" if "(k', s') \<in> set (AList.update k s ss)" for k' s'
    using that assms by (cases "k' = k") (auto simp: in_update list_all_iff session_ok_def)
  then show ?thesis by (auto simp: list_all_iff)
qed

lemma NewLinkManager_inv: "link_inv (NewLinkManager cfg)"
  by (simp add: NewLinkManager_def link_inv_def Let_def no_link_stats_def DefaultMaxPeerSessions_def
      DefaultKeepAliveEvery_def DefaultIdleTimeout_def duration_defs)

lemma replace_session_inv:
  assumes "link_inv m" "map_of (lm_sessions m) k = Some s" "pses_PeerID s' = pses_PeerID s"
    and "ls_Created stats = ls_Created (lm_stats m)" "ls_Closed stats = ls_Closed (lm_stats m)"
  shows "link_inv (m\<lparr>lm_sessions := AList.update k s' (lm_sessions m), lm_stats := stats\<rparr>)"
proof -
  have "k \<noteq> ''''" "pses_PeerID s = k" using assms(1,2) link_invD(2) by (auto dest: map_of_SomeD)
  then show ?thesis
    using assms session_ok_update [of "lm_sessions m" k s'] by (simp add: link_inv_def length_update)
qed

lemma replace_session_inv':
  assumes "link_inv m" "map_of (lm_sessions m) k = Some s" "pses_PeerID s' = pses_PeerID s"
  shows "link_inv (m\<lparr>lm_sessions := AList.update k s' (lm_sessions m)\<rparr>)"
  using replace_session_inv [OF assms refl refl] by simp

lemma UpsertPeer_inv: "link_inv m \<Longrightarrow> link_inv (fst (UpsertPeer m now peer relay ready))"
proof (cases "map_of (lm_sessions m) (pe_DeviceID peer)")
  case None
  assume "link_inv m"
  then show ?thesis using None
    by (auto simp: UpsertPeer_def Let_def link_inv_def length_update new_session_def intro!: session_ok_update)
next
  case (Some s)
  assume "link_inv m"
  then show ?thesis using Some
    by (auto simp: UpsertPeer_def Let_def intro!: replace_session_inv replace_session_inv')
qed

lemma Send_inv: "link_inv m \<Longrightarrow> link_inv (fst (Send m now k payload))"
  by (auto simp: Send_def Let_def split: option.split intro!: replace_session_inv)

lemma Receive_inv: "link_inv m \<Longrightarrow> link_inv (fst (Receive m now k payload path))"
  by (auto simp: Receive_def Let_def split: option.split intro!: replace_session_inv)

subsection \<open>Keep-alives\<close>

definition mark_sent :: "time \<Rightarrow> PeerSession \<Rightarrow> PeerSession" where
  "mark_sent now s = s\<lparr>pses_LastSentAt := now, pses_KeepAlives := pses_KeepAlives s + 1\<rparr>"

definition keepalive_frame :: "PeerSession \<Rightarrow> LinkFrame" where
  "keepalive_frame s = \<lparr>lf_PeerID = pses_PeerID s, lf_Path = pses_Path s, lf_Payload = []\<rparr>"

lemma keepalive_loop_eq:
  "keepalive_loop m now ss stats out =
     (map (\<lambda>(k, s). (k, if keepalive_due m now s then mark_sent now s else s)) ss,
      stats\<lparr>ls_KeepAlives := ls_KeepAlives stats + of_nat (length (filter (keepalive_due m now \<circ> snd) ss))\<rparr>,
      out @ map (keepalive_frame \<circ> snd) (filter (keepalive_due m now \<circ> snd) ss))"
  by (induction m now ss stats out rule: keepalive_loop.induct)
    (simp_all add: mark_sent_def keepalive_frame_def add.assoc)

lemma map_sessions_inv:
  assumes "link_inv m" "\<And>k s. pses_PeerID (f k s) = pses_PeerID s"
    and "ls_Created stats = ls_Created (lm_stats m)" "ls_Closed stats = ls_Closed (lm_stats m)"
  shows "link_inv (m\<lparr>lm_sessions := map (\<lambda>(k, s). (k, f k s)) (lm_sessions m), lm_stats := stats\<rparr>)"
  using assms by (auto simp: link_inv_def keys_distinct_map_snd list_all_iff session_ok_def)

lemma DueKeepAlives_inv: "link_inv m \<Longrightarrow> link_inv (fst (DueKeepAlives m now))"
  using map_sessions_inv [of m "\<lambda>k s. if keepalive_due m now s then mark_sent now s else s"]
  by (simp add: DueKeepAlives_def keepalive_loop_eq mark_sent_def)

lemma RebuildForNetworkChange_inv: "link_inv m \<Longrightarrow> link_inv (RebuildForNetworkChange m now)"
  using map_sessions_inv [of m "\<lambda>k. rebuild_session now"]
  by (simp add: RebuildForNetworkChange_def rebuild_session_def Let_def)

subsection \<open>Idle sessions\<close>

lemma delete_keys_filter:
  assumes "keys_distinct ss"
  shows "filter (\<lambda>(k, s). k \<notin> set (map fst (filter (P \<circ> snd) ss))) ss = filter (Not \<circ> P \<circ> snd) ss"
proof (rule filter_cong [OF refl])
  fix e assume e: "e \<in> set ss"
  obtain k s where ks: "e = (k, s)" by (cases e)
  have "k \<in> set (map fst (filter (P \<circ> snd) ss)) \<longleftrightarrow> P s"
  proof
    assume "k \<in> set (map fst (filter (P \<circ> snd) ss))"
    then obtain s' where s': "(k, s') \<in> set ss" "P s'" by auto
    have "map_of ss k = Some s'" "map_of ss k = Some s"
      using s'(1) e assms by (simp_all add: ks map_of_in)
    then show "P s" using s'(2) by simp
  next
    assume "P s"
    then show "k \<in> set (map fst (filter (P \<circ> snd) ss))" using e unfolding ks by force
  qed
  then show "(case e of (k, s) \<Rightarrow> k \<notin> set (map fst (filter (P \<circ> snd) ss))) = (Not \<circ> P \<circ> snd) e"
    by (simp add: ks)
qed

lemma cleanup_loop_eq:
  "cleanup_loop cfg now ss m closed =
    (let idle = map fst (filter (is_idle cfg now \<circ> snd) ss) in
     (m\<lparr>lm_sessions := filter (\<lambda>(k, s). k \<notin> set idle) (lm_sessions m),
        lm_stats := (lm_stats m)\<lparr>ls_Closed := ls_Closed (lm_stats m) + of_nat (length idle)\<rparr>\<rparr>,
      closed @ idle))"
proof (induction cfg now ss m closed rule: cleanup_loop.induct)
  case (2 cfg now peerID session rest m closed)
  have "filter (\<lambda>(k, s). k \<notin> X) (AList.delete peerID ss) = filter (\<lambda>(k, s). k \<noteq> peerID \<and> k \<notin> X) ss"
    for X and ss :: "(string \<times> PeerSession) list"
    by (auto simp: AList.delete_eq intro: filter_cong)
  then show ?case using 2 by (simp add: Let_def add.assoc)
qed simp

lemma CleanupIdle_eq:
  assumes "keys_distinct (lm_sessions m)"
  shows "CleanupIdle m now =
    (m\<lparr>lm_sessions := filter (Not \<circ> is_idle m now \<circ> snd) (lm_sessions m),
       lm_stats := (lm_stats m)\<lparr>ls_Closed := ls_Closed (lm_stats m)
          + of_nat (length (filter (is_idle m now \<circ> snd) (lm_sessions m)))\<rparr>\<rparr>,
     sort (map fst (filter (is_idle m now \<circ> snd) (lm_sessions m))))"
  using delete_keys_filter [OF assms, of "is_idle m now"]
  by (simp add: CleanupIdle_def cleanup_loop_eq Let_def)

lemma CleanupIdle_inv: "link_inv m \<Longrightarrow> link_inv (fst (CleanupIdle m now))"
proof -
  assume inv: "link_inv m"
  let ?P = "is_idle m now \<circ> snd"
  have n: "length (lm_sessions m) = length (filter ?P (lm_sessions m)) + length (filter (Not \<circ> ?P) (lm_sessions m))"
    using sum_length_filter_compl [of ?P "lm_sessions m"] by (simp add: comp_def)
  have "length (filter (Not \<circ> ?P) (lm_sessions m)) \<le> length (lm_sessions m)" by simp
  then show ?thesis
    using inv n by (auto simp: CleanupIdle_eq link_inv_def list_all_iff comp_assoc simp del: length_filter_le)
qed

section \<open>Runs of the manager\<close>

datatype link_op =
    OpUpsert time PeerEndpoint PeerEndpoint bool
  | OpSend time string bytes
  | OpReceive time string bytes string
  | OpKeepAlives time
  | OpRebuild time
  | OpCleanup time

fun link_step :: "LinkManager \<Rightarrow> link_op \<Rightarrow> LinkManager" where
  "link_step m (OpUpsert now peer relay ready) = fst (UpsertPeer m now peer relay ready)"
| "link_step m (OpSend now k payload) = fst (Send m now k payload)"
| "link_step m (OpReceive now k payload path) = fst (Receive m now k payload path)"
| "link_step m (OpKeepAlives now) = fst (DueKeepAlives m now)"
| "link_step m (OpRebuild now) = RebuildForNetworkChange m now"
| "link_step m (OpCleanup now) = fst (CleanupIdle m now)"

interpretation link: invariant_machine link_step link_inv
proof
  fix m op
  assume "link_inv m"
  then show "link_inv (link_step m op)"
    by (cases op) (simp_all add: UpsertPeer_inv Send_inv Receive_inv DueKeepAlives_inv
        RebuildForNetworkChange_inv CleanupIdle_inv)
qed

lemma link_step_max: "lm_maxSessions (link_step m op) = lm_maxSessions m"
  by (cases op) (auto simp: UpsertPeer_def Send_def Receive_def DueKeepAlives_def keepalive_loop_eq
      RebuildForNetworkChange_def CleanupIdle_def cleanup_loop_eq Let_def split: option.split)

text \<open>C29. Whatever sequence of operations a link manager goes through, it never holds more sessions
  than the configured limit, every session is stored once and under the id of its peer, and the
  counters of created and closed sessions differ by exactly the number of open sessions.\<close>

theorem link_manager_invariant:
  "let m = link.run (NewLinkManager cfg) ops in
     int (length (lm_sessions m)) \<le> lm_maxSessions (NewLinkManager cfg)
     \<and> distinct (map fst (lm_sessions m)) \<and> map pses_PeerID (map snd (lm_sessions m)) = map fst (lm_sessions m)
     \<and> ls_Created (lm_stats m) = ls_Closed (lm_stats m) + ls_ActiveSessions (LinkManager_Stats m)"
proof -
  let ?m = "link.run (NewLinkManager cfg) ops"
  have inv: "link_inv ?m" by (rule link.run_inv [OF NewLinkManager_inv])
  have "lm_maxSessions (NewLinkManager cfg) = lm_maxSessions ?m"
    by (rule link.run_relation [where rel = "\<lambda>a b. lm_maxSessions a = lm_maxSessions b", OF NewLinkManager_inv])
      (simp_all add: link_step_max)
  moreover have "map pses_PeerID (map snd (lm_sessions ?m)) = map fst (lm_sessions ?m)"
    using link_invD(2) [OF inv] by auto
  ultimately show ?thesis
    using inv by (simp add: Let_def link_inv_def LinkManager_Stats_def keys_distinct_def)
qed

text \<open>Keep-alives go to exactly the peers that are due, each once, in the order of their ids,
  and none of them is due again at the same instant.\<close>

theorem DueKeepAlives_exact:
  assumes "link_inv m" "0 < now"
  shows "map lf_PeerID (snd (DueKeepAlives m now))
       = sort (map fst (filter (\<lambda>(k, s). keepalive_due m now s) (lm_sessions m)))
    \<and> distinct (map lf_PeerID (snd (DueKeepAlives m now)))
    \<and> snd (DueKeepAlives (fst (DueKeepAlives m now)) now) = []"
proof -
  let ?due = "filter (keepalive_due m now \<circ> snd) (lm_sessions m)"
  let ?frames = "map (keepalive_frame \<circ> snd) ?due"
  have ids: "map lf_PeerID ?frames = map fst ?due"
    using link_invD(2) [OF assms(1)] by (auto simp: keepalive_frame_def)
  have out: "snd (DueKeepAlives m' now) = sort_key lf_PeerID (map (keepalive_frame \<circ> snd)
      (filter (keepalive_due m' now \<circ> snd) (lm_sessions m')))" for m'
    by (simp add: DueKeepAlives_def keepalive_loop_eq)
  have "map lf_PeerID (snd (DueKeepAlives m now)) = sort (map fst ?due)"
    unfolding out map_sort_key ids ..
  moreover have "distinct (map fst ?due)"
    using link_invD(1) [OF assms(1)] keys_distinct_filter [of "lm_sessions m"] unfolding keys_distinct_def by blast
  moreover have "\<not> keepalive_due (fst (DueKeepAlives m now)) now s"
    if "(k, s) \<in> set (lm_sessions (fst (DueKeepAlives m now)))" for k s
    using that assms link_invD(4) [OF assms(1)]
    by (auto simp: DueKeepAlives_def keepalive_loop_eq keepalive_due_def mark_sent_def IsZero_def split: if_splits)
  then have "filter (keepalive_due (fst (DueKeepAlives m now)) now \<circ> snd) (lm_sessions (fst (DueKeepAlives m now))) = []"
    by (auto simp: filter_empty_conv)
  ultimately show ?thesis
    by (simp add: out [of "fst (DueKeepAlives m now)"] case_prod_beta' comp_def)
qed

definition demo_peer :: PeerEndpoint where
  "demo_peer = \<lparr>pe_DeviceID = ''b'', pe_Addr = ''198.51.100.7:4000'', pe_UPnPAddr = ''''\<rparr>"

definition demo_link :: LinkManager where
  "demo_link = fst (UpsertPeer (NewLinkManager \<lparr>lc_DeviceID = ''a'', lc_ForceRelay = False, lc_MaxPeerSessions = 0,
     lc_KeepAliveEvery = 0, lc_IdleTimeout = 0\<rparr>) 1000 demo_peer no_endpoint True)"

lemma demo_link_inv: "link_inv demo_link"
  unfolding demo_link_def by (rule UpsertPeer_inv [OF NewLinkManager_inv])

lemmas demo_link_eval = demo_link_def UpsertPeer_def NewLinkManager_def demo_peer_def new_session_def
  LinkPathP2P_def LinkPathRelay_def Let_def DefaultMaxPeerSessions_def

theorem DueKeepAlives_exact_witness:
  "map lf_PeerID (snd (DueKeepAlives demo_link 2000)) = [''b'']
   \<and> snd (DueKeepAlives (fst (DueKeepAlives demo_link 2000)) 2000) = []"
  using DueKeepAlives_exact [OF demo_link_inv, of 2000]
  by (simp add: demo_link_eval keepalive_due_def IsZero_def)

text \<open>The removal of idle sessions closes exactly the sessions that are idle, reports their ids in
  order, and leaves every other session as it was; no report or remaining session depends on the
  order in which the map is visited.\<close>

theorem CleanupIdle_exact:
  assumes "link_inv m" "mset (lm_sessions m') = mset (lm_sessions m)"
    and "m' = m\<lparr>lm_sessions := lm_sessions m'\<rparr>"
  shows "snd (CleanupIdle m now) = sort (map fst (filter (\<lambda>(k, s). is_idle m now s) (lm_sessions m)))
    \<and> lm_sessions (fst (CleanupIdle m now)) = filter (\<lambda>(k, s). \<not> is_idle m now s) (lm_sessions m)
    \<and> snd (CleanupIdle m' now) = snd (CleanupIdle m now)
    \<and> Session (fst (CleanupIdle m' now)) k = Session (fst (CleanupIdle m now)) k"
proof -
  have d: "keys_distinct (lm_sessions m)" using assms(1) by (simp add: link_inv_def)
  have d': "keys_distinct (lm_sessions m')"
    using d assms(2) unfolding keys_distinct_def by (metis mset_map mset_eq_imp_distinct_iff)
  have idle: "is_idle m' now = is_idle m now"
    by (rule ext, subst assms(3)) (simp add: is_idle_def)
  have "mset (map fst (filter (is_idle m now \<circ> snd) (lm_sessions m')))
      = mset (map fst (filter (is_idle m now \<circ> snd) (lm_sessions m)))"
    using assms(2) by (simp add: mset_filter mset_map)
  then have "snd (CleanupIdle m' now) = snd (CleanupIdle m now)"
    by (simp add: CleanupIdle_eq d d' idle sort_permute)
  moreover have "map_of (filter (Not \<circ> is_idle m now \<circ> snd) (lm_sessions m'))
      = map_of (filter (Not \<circ> is_idle m now \<circ> snd) (lm_sessions m))"
    using assms(2) by (intro map_of_permute keys_distinct_filter d') (simp add: mset_filter)
  ultimately show ?thesis
    by (simp add: CleanupIdle_eq d d' idle Session_def case_prod_beta' comp_def)
qed

theorem CleanupIdle_exact_witness:
  "snd (CleanupIdle demo_link (1000 + 3 * Minute)) = [''b'']"
  using CleanupIdle_exact [OF demo_link_inv refl, of "1000 + 3 * Minute"]
  by (simp add: demo_link_eval is_idle_def IsZero_def time_Sub_def duration_defs DefaultIdleTimeout_def)

text \<open>After a network change no session sends on its old path: sending to a known peer is refused
  until the peer's endpoint is set again, and then the frame takes the path just chosen.\<close>

theorem rebuild_blocks_until_upsert:
  assumes "link_inv m" "Session m (pe_DeviceID peer) = Some s"
  shows "snd (Send (RebuildForNetworkChange m t1) t2 (pe_DeviceID peer) payload) = Inl ErrLinkUnavailable
    \<and> snd (Send (fst (UpsertPeer (RebuildForNetworkChange m t1) t2 peer relay ready)) t3 (pe_DeviceID peer) payload)
      = Inr \<lparr>lf_PeerID = pe_DeviceID peer,
             lf_Path = (if \<not> lm_forceRelay m \<and> ready then LinkPathP2P else LinkPathRelay), lf_Payload = payload\<rparr>"
proof -
  have k: "pe_DeviceID peer \<noteq> ''''"
    using assms link_invD(2) by (auto simp: Session_def dest: map_of_SomeD)
  have "map_of (map (\<lambda>(k, s). (k, rebuild_session t1 s)) (lm_sessions m)) (pe_DeviceID peer)
      = Some (rebuild_session t1 s)"
    using assms(2) by (simp add: Session_def map_of_map)
  then show ?thesis
    using k by (simp add: RebuildForNetworkChange_def Let_def Send_def UpsertPeer_def rebuild_session_def
        update_conv LinkPathP2P_def LinkPathRelay_def)
qed

theorem rebuild_blocks_until_upsert_witness:
  "snd (Send (RebuildForNetworkChange demo_link 5) 6 ''b'' [1]) = Inl ErrLinkUnavailable"
proof -
  have "\<exists>s. Session demo_link (pe_DeviceID demo_peer) = Some s" by (simp add: Session_def demo_link_eval)
  then obtain s where "Session demo_link (pe_DeviceID demo_peer) = Some s" by blast
  from rebuild_blocks_until_upsert [OF demo_link_inv this, of 5 6 "[1]"] show ?thesis by (simp add: demo_peer_def)
qed

end
