(* ===== verification/Transport.thy ===== *)
theory Transport
  imports PacketSession
begin

text \<open>
  The LAN datagram transport, \<^verbatim>\<open>internal/lantransport\<close> (relay frames and the sealed datagrams), and
  the PSK-encrypted frames of the port-forwarding transport, \<^verbatim>\<open>internal/secure/frame.go\<close>.

  The locale \<open>framing\<close> is the contract of a frame format: what is packed unpacks to itself and is
  recognised.  The relay frame format provides it (interpretation \<open>relay\<close>).  The HMAC, HKDF and
  XChaCha20-Poly1305 of the secure frames are arguments, as in \<open>PacketSession\<close>.
\<close>

subsection \<open>Frame formats\<close>

locale framing =
  fixes pack :: "'a \<Rightarrow> 'e + bytes"
    and unpack :: "bytes \<Rightarrow> 'e + 'a"
    and recognised :: "bytes \<Rightarrow> bool"
  assumes unpack_pack: "pack x = Inr bs \<Longrightarrow> unpack bs = Inr x"
    and recognised_pack: "pack x = Inr bs \<Longrightarrow> recognised bs"
    and unpack_recognised: "unpack bs = Inr x \<Longrightarrow> recognised bs"
begin

lemma pack_inject: "pack x = Inr bs \<Longrightarrow> pack y = Inr bs \<Longrightarrow> x = y"
  by (metis unpack_pack sum.inject(2))

lemma unpack_other: "\<not> recognised bs \<Longrightarrow> isl (unpack bs)"
  using unpack_recognised by (cases "unpack bs") auto

end

subsection \<open>Relay frames\<close>

definition relayMagic :: bytes where "relayMagic = bytes_of ''ULR1''"

datatype transport_error =
    ErrUnavailable
  | ErrRelayFrame
  | ErrCodec packet_error
  | ErrWrite string

record RelayFrame =
  rl_SrcDevice :: string
  rl_DstDevice :: string
  rl_Payload :: bytes

definition IsRelayFrame :: "bytes \<Rightarrow> bool" where
  "IsRelayFrame data \<longleftrightarrow> 4 \<le> length data \<and> data ! 0 = relayMagic ! 0 \<and> data ! 1 = relayMagic ! 1
     \<and> data ! 2 = relayMagic ! 2 \<and> data ! 3 = relayMagic ! 3"

definition PackRelayFrame :: "RelayFrame \<Rightarrow> transport_error + bytes" where
  "PackRelayFrame frame =
     (let src = bytes_of (rl_SrcDevice frame); dst = bytes_of (rl_DstDevice frame) in
      if src = [] \<or> dst = [] \<or> rl_Payload frame = [] \<or> 255 < length src \<or> 255 < length dst
      then Inl ErrRelayFrame
      else
        let out = replicate (8 + length src + length dst + length (rl_Payload frame)) 0;
            out = put_at out 0 relayMagic;
            out = put_at out 4 (be16 (of_nat (length src)));
            out = put_at out 6 (be16 (of_nat (length dst)));
            off = 8;
            out = put_at out off src;
            off = off + length src;
            out = put_at out off dst;
            off = off + length dst
        in Inr (put_at out off (rl_Payload frame)))"

text \<open>\<open>None\<close> is a panic; \<open>UnpackRelayFrameView_total\<close> excludes it.\<close>

definition UnpackRelayFrameView :: "bytes \<Rightarrow> (transport_error + RelayFrame) option" where
  "UnpackRelayFrameView data =
     (if \<not> IsRelayFrame data \<or> length data < 8 then Some (Inl ErrRelayFrame)
      else do {
        s \<leftarrow> Prelude.slice data 4 6 \<bind> Uint16;
        d \<leftarrow> Prelude.slice data 6 8 \<bind> Uint16;
        let srcLen = unat s; dstLen = unat d; off = 8 in
        if srcLen = 0 \<or> dstLen = 0 \<or> length data \<le> off + srcLen + dstLen then Some (Inl ErrRelayFrame)
        else do {
          src \<leftarrow> Prelude.slice data off (off + srcLen);
          dst \<leftarrow> Prelude.slice data (off + srcLen) (off + srcLen + dstLen);
          payload \<leftarrow> Prelude.slice data (off + srcLen + dstLen) (length data);
          if payload = [] then Some (Inl ErrRelayFrame)
          else Some (Inr \<lparr>rl_SrcDevice = string_of src, rl_DstDevice = string_of dst, rl_Payload = payload\<rparr>) } })"

definition UnpackRelayFrame :: "bytes \<Rightarrow> (transport_error + RelayFrame) option" where
  "UnpackRelayFrame data = do {
     res \<leftarrow> UnpackRelayFrameView data;
     (case res of
        Inl err \<Rightarrow> Some (Inl err)
      | Inr frame \<Rightarrow> Some (Inr (frame\<lparr>rl_Payload := [] @ rl_Payload frame\<rparr>))) }"

subsection \<open>Sealed datagrams\<close>

definition IsFrame :: "bytes \<Rightarrow> bool" where
  "IsFrame data \<longleftrightarrow> 4 \<le> length data \<and> data ! 0 = of_char CHR ''U'' \<and> data ! 1 = of_char CHR ''D''
     \<and> data ! 2 = of_char CHR ''P'' \<and> data ! 3 = of_char CHR ''L''"

definition Transport_Seal :: "Codec option \<Rightarrow> bytes \<Rightarrow> Codec option \<times> (transport_error + bytes)" where
  "Transport_Seal codec payload =
     (if codec = None then (None, Inl ErrUnavailable)
      else (case Codec_Seal codec payload of
              (c, Inl err) \<Rightarrow> (c, Inl (ErrCodec err))
            | (c, Inr frame) \<Rightarrow> (c, Inr frame)))"

definition Transport_Open :: "Codec option \<Rightarrow> bytes \<Rightarrow> (Codec option \<times> (transport_error + bytes)) option" where
  "Transport_Open codec frame =
     (if codec = None then Some (None, Inl ErrUnavailable)
      else do {
        (c, res) \<leftarrow> Codec_Open codec frame;
        (case res of Inl err \<Rightarrow> Some (c, Inl (ErrCodec err)) | Inr plain \<Rightarrow> Some (c, Inr plain)) })"

text \<open>\<open>conn\<close> is the socket, as the function that writes a datagram to an address and may report an
  error; \<open>None\<close> is a nil connection.  The result is the error, if any.\<close>

definition Transport_Send ::
  "(bytes \<Rightarrow> 'addr \<Rightarrow> string option) option \<Rightarrow> 'addr option \<Rightarrow> Codec option \<Rightarrow> bytes \<Rightarrow>
     Codec option \<times> transport_error option"
where
  "Transport_Send conn dst codec payload =
     (case (conn, dst, codec) of
        (Some write, Some addr, Some c) \<Rightarrow>
          (case Transport_Seal codec payload of
             (c', Inl err) \<Rightarrow> (c', Some err)
           | (c', Inr frame) \<Rightarrow> (c', map_option ErrWrite (write frame addr)))
      | _ \<Rightarrow> (codec, Some ErrUnavailable))"

subsection \<open>Facts on relay frames\<close>

lemma u16_length: "n \<le> 255 \<Longrightarrow> unat (of_nat n :: uint16) = n"
  by (simp add: unat_of_nat)

lemma length_relayMagic [simp]: "length relayMagic = 4"
  by (simp add: relayMagic_def)

lemma IsRelayFrame_iff: "IsRelayFrame data \<longleftrightarrow> (\<exists>rest. data = relayMagic @ rest)"
proof
  assume "IsRelayFrame data"
  then have "4 \<le> length data" "take 4 data = relayMagic"
    by (auto simp: IsRelayFrame_def relayMagic_def intro!: nth_equalityI simp: less_Suc_eq numeral_eq_Suc)
  then show "\<exists>rest. data = relayMagic @ rest" by (metis append_take_drop_id)
qed (auto simp: IsRelayFrame_def nth_append)

lemma PackRelayFrame_layout:
  assumes "PackRelayFrame f = Inr bs"
  shows "bs = relayMagic @ be16 (of_nat (length (rl_SrcDevice f))) @ be16 (of_nat (length (rl_DstDevice f)))
    @ bytes_of (rl_SrcDevice f) @ bytes_of (rl_DstDevice f) @ rl_Payload f"
proof -
  let ?s = "bytes_of (rl_SrcDevice f)" and ?d = "bytes_of (rl_DstDevice f)" and ?p = "rl_Payload f"
  let ?S = "be16 (of_nat (length ?s))" and ?D = "be16 (of_nat (length ?d))"
  let ?n = "length ?s + length ?d + length ?p"
  have 1: "put_at (replicate (8 + length ?s + length ?d + length ?p) 0) 0 relayMagic = relayMagic @ replicate (4 + ?n) 0"
    using put_at_zeros [of "[]" 0 relayMagic "8 + ?n" 0] by (simp add: add.assoc)
  have 2: "put_at (relayMagic @ replicate (4 + ?n) 0) 4 ?S = (relayMagic @ ?S) @ replicate (2 + ?n) 0"
    by (subst put_at_zeros) simp_all
  have 3: "put_at ((relayMagic @ ?S) @ replicate (2 + ?n) 0) 6 ?D = (relayMagic @ ?S @ ?D) @ replicate ?n 0"
    by (subst put_at_zeros) simp_all
  have 4: "put_at ((relayMagic @ ?S @ ?D) @ replicate ?n 0) 8 ?s
      = (relayMagic @ ?S @ ?D @ ?s) @ replicate (length ?d + length ?p) 0"
    by (subst put_at_zeros) simp_all
  have 5: "put_at ((relayMagic @ ?S @ ?D @ ?s) @ replicate (length ?d + length ?p) 0) (8 + length ?s) ?d
      = (relayMagic @ ?S @ ?D @ ?s @ ?d) @ replicate (length ?p) 0"
    by (subst put_at_zeros) simp_all
  have 6: "put_at ((relayMagic @ ?S @ ?D @ ?s @ ?d) @ replicate (length ?p) 0) (8 + length ?s + length ?d) ?p
      = relayMagic @ ?S @ ?D @ ?s @ ?d @ ?p"
    by (subst put_at_zeros) simp_all
  have "PackRelayFrame f = Inr (relayMagic @ ?S @ ?D @ ?s @ ?d @ ?p)"
    using assms unfolding PackRelayFrame_def Let_def 1 2 3 4 5 6 by (simp split: if_splits)
  then show ?thesis using assms by simp
qed

lemma UnpackRelayFrameView_layout:
  assumes "0 < length src" "0 < length dst" "length src \<le> 65535" "length dst \<le> 65535" "payload \<noteq> []"
  shows "UnpackRelayFrameView (relayMagic @ be16 (of_nat (length src)) @ be16 (of_nat (length dst)) @ src @ dst @ payload)
    = Some (Inr \<lparr>rl_SrcDevice = string_of src, rl_DstDevice = string_of dst, rl_Payload = payload\<rparr>)"
proof -
  let ?d = "relayMagic @ be16 (of_nat (length src)) @ be16 (of_nat (length dst)) @ src @ dst @ payload"
  have u: "Uint16 (be16 w) = Some w" for w using Uint16_be16 [of w "[]"] by simp
  have l: "unat (of_nat (length src) :: uint16) = length src" "unat (of_nat (length dst) :: uint16) = length dst"
    using assms(3,4) by (simp_all add: unat_of_nat)
  have "IsRelayFrame ?d" by (auto simp: IsRelayFrame_iff)
  moreover have "Prelude.slice ?d 4 6 = Some (be16 (of_nat (length src)))"
    "Prelude.slice ?d 6 8 = Some (be16 (of_nat (length dst)))"
    "Prelude.slice ?d 8 (8 + length src) = Some src"
    "Prelude.slice ?d (8 + length src) (8 + length src + length dst) = Some dst"
    "Prelude.slice ?d (8 + length src + length dst) (length ?d) = Some payload"
    by (simp_all add: go_slice)
  ultimately show ?thesis
    unfolding UnpackRelayFrameView_def using assms(1,2,5) by (simp add: u l Let_def)
qed

lemma UnpackRelayFrameView_total: "\<exists>res. UnpackRelayFrameView data = Some res"
proof (cases "\<not> IsRelayFrame data \<or> length data < 8")
  case True
  then show ?thesis by (auto simp: UnpackRelayFrameView_def)
next
  case False
  then have "2 \<le> length (take 2 (drop 4 data))" "2 \<le> length (take 2 (drop 6 data))" by auto
  then obtain s d where "Uint16 (take 2 (drop 4 data)) = Some s" "Uint16 (take 2 (drop 6 data)) = Some d"
    using Uint16_Some by blast
  then show ?thesis using False by (auto simp: UnpackRelayFrameView_def Let_def go_slice)
qed

definition unpack_relay :: "bytes \<Rightarrow> transport_error + RelayFrame" where
  "unpack_relay data = the (UnpackRelayFrame data)"

lemma UnpackRelayFrame_eq: "UnpackRelayFrame = UnpackRelayFrameView"
proof
  fix data
  obtain res where "UnpackRelayFrameView data = Some res" using UnpackRelayFrameView_total by blast
  then show "UnpackRelayFrame data = UnpackRelayFrameView data"
    by (cases res) (simp_all add: UnpackRelayFrame_def)
qed

lemma Unpack_Pack:
  assumes "PackRelayFrame f = Inr bs"
  shows "UnpackRelayFrame bs = Some (Inr f)"
proof -
  have "0 < length (rl_SrcDevice f)" "0 < length (rl_DstDevice f)" "length (rl_SrcDevice f) \<le> 255"
    "length (rl_DstDevice f) \<le> 255" "rl_Payload f \<noteq> []"
    using assms by (auto simp: PackRelayFrame_def Let_def bytes_of_def split: if_splits)
  then show ?thesis
    unfolding PackRelayFrame_layout [OF assms] UnpackRelayFrame_eq
    using UnpackRelayFrameView_layout [of "bytes_of (rl_SrcDevice f)" "bytes_of (rl_DstDevice f)" "rl_Payload f"]
    by simp
qed

interpretation relay: framing PackRelayFrame unpack_relay IsRelayFrame
proof
  show "unpack_relay bs = Inr x" if "PackRelayFrame x = Inr bs" for x bs
    using Unpack_Pack [OF that] by (simp add: unpack_relay_def)
  show "IsRelayFrame bs" if "PackRelayFrame x = Inr bs" for x bs
    using PackRelayFrame_layout [OF that] by (auto simp: IsRelayFrame_iff)
  show "IsRelayFrame bs" if "unpack_relay bs = Inr x" for x bs
    using that by (cases "IsRelayFrame bs") (auto simp: unpack_relay_def UnpackRelayFrame_eq UnpackRelayFrameView_def)
qed

text \<open>Relay frames round-trip: a frame that can be packed unpacks to itself, byte for byte, and two
  different frames never pack to the same datagram.\<close>

theorem relay_frame_roundtrip:
  assumes "PackRelayFrame f = Inr bs"
  shows "UnpackRelayFrame bs = Some (Inr f) \<and> UnpackRelayFrameView bs = Some (Inr f)
    \<and> (PackRelayFrame g = Inr bs \<longrightarrow> g = f)"
  using Unpack_Pack [OF assms] relay.pack_inject [OF assms] by (auto simp: UnpackRelayFrame_eq)

theorem relay_frame_roundtrip_witness:
  "\<exists>bs. PackRelayFrame \<lparr>rl_SrcDevice = ''a'', rl_DstDevice = ''b'', rl_Payload = [1, 2, 3]\<rparr> = Inr bs
     \<and> UnpackRelayFrame bs = Some (Inr \<lparr>rl_SrcDevice = ''a'', rl_DstDevice = ''b'', rl_Payload = [1, 2, 3]\<rparr>)"
proof -
  obtain bs where "PackRelayFrame \<lparr>rl_SrcDevice = ''a'', rl_DstDevice = ''b'', rl_Payload = [1, 2, 3]\<rparr> = Inr bs"
    by (simp add: PackRelayFrame_def Let_def bytes_of_def)
  with relay_frame_roundtrip [OF this] show ?thesis by blast
qed

lemma take_slices:
  assumes "8 + a + b \<le> length (data :: 'a list)"
  shows "data = take 4 data @ take 2 (drop 4 data) @ take 2 (drop 6 data) @ take a (drop 8 data)
    @ take b (drop (8 + a) data) @ drop (8 + a + b) data"
proof -
  have split: "drop i data = take n (drop i data) @ drop (i + n) data" for i n
    by (metis append_take_drop_id drop_drop add.commute)
  show ?thesis
    using split [of 0 4] split [of 4 2] split [of 6 2] split [of 8 a] split [of "8 + a" b] by simp
qed

text \<open>The relay sees exactly what was packed: a datagram that unpacks, with device ids of at most
  255 bytes, is the packing of the frame it unpacks to, so forwarding a re-packed frame forwards
  the same bytes.  Unpacking any datagram gives an answer and never panics.\<close>

theorem relay_frame_canonical:
  assumes "UnpackRelayFrame data = Some (Inr f)" "length (rl_SrcDevice f) \<le> 255" "length (rl_DstDevice f) \<le> 255"
  shows "PackRelayFrame f = Inr data"
proof -
  have len: "IsRelayFrame data" "8 \<le> length data"
    using assms(1) by (auto simp: UnpackRelayFrame_eq UnpackRelayFrameView_def not_less split: if_splits)
  have l2: "2 \<le> length (take 2 (drop 4 data))" "2 \<le> length (take 2 (drop 6 data))" using len by auto
  obtain s d where sd: "Prelude.slice data 4 6 = Some (take 2 (drop 4 data))" "Uint16 (take 2 (drop 4 data)) = Some s"
    "Prelude.slice data 6 8 = Some (take 2 (drop 6 data))" "Uint16 (take 2 (drop 6 data)) = Some d"
    using len Uint16_Some [OF l2(1)] Uint16_Some [OF l2(2)] by (auto simp: slice_ok)
  have b: "0 < unat s" "0 < unat d" "8 + unat s + unat d < length data"
    and f: "f = \<lparr>rl_SrcDevice = string_of (take (unat s) (drop 8 data)),
      rl_DstDevice = string_of (take (unat d) (drop (8 + unat s) data)), rl_Payload = drop (8 + unat s + unat d) data\<rparr>"
    using assms(1) len sd
    by (auto simp: UnpackRelayFrame_eq UnpackRelayFrameView_def Let_def go_slice split: if_splits)
  have be: "be16 s = take 2 (drop 4 data)" "be16 d = take 2 (drop 6 data)"
    using sd be16_of_Uint16 l2 by simp_all
  have bo: "bytes_of (string_of bs) = bs" for bs by (simp add: bytes_of_string_of)
  have lens: "length (rl_SrcDevice f) = unat s" "length (rl_DstDevice f) = unat d" using b f by simp_all
  have magic: "take 4 data = relayMagic" using len(1) by (auto simp: IsRelayFrame_iff)
  have "0 < length (bytes_of (rl_SrcDevice f))" "0 < length (bytes_of (rl_DstDevice f))" "0 < length (rl_Payload f)"
    using b lens f by simp_all
  then have "\<exists>bs. PackRelayFrame f = Inr bs"
    using assms(2,3) by (simp add: PackRelayFrame_def Let_def bytes_of_def)
  then obtain bs where bs: "PackRelayFrame f = Inr bs" by blast
  have "bs = data"
    using PackRelayFrame_layout [OF bs] take_slices [of "unat s" "unat d" data] b magic
    by (simp add: lens be f bo)
  then show ?thesis using bs by simp
qed

theorem relay_frame_canonical_witness:
  "\<exists>data f. UnpackRelayFrame data = Some (Inr f) \<and> PackRelayFrame f = Inr data"
proof -
  let ?d = "relayMagic @ be16 (of_nat (length [65 :: byte])) @ be16 (of_nat (length [66 :: byte])) @ [65] @ [66] @ [7]"
  have "UnpackRelayFrame ?d = Some (Inr \<lparr>rl_SrcDevice = string_of [65], rl_DstDevice = string_of [66], rl_Payload = [7]\<rparr>)"
    unfolding UnpackRelayFrame_eq by (rule UnpackRelayFrameView_layout) simp_all
  from relay_frame_canonical [OF this] this show ?thesis by auto
qed

section \<open>PSK-encrypted frames\<close>

definition KindControl :: byte where "KindControl = 1"

definition KindKCP :: byte where "KindKCP = 2"

definition NonceSizeX :: nat where "NonceSizeX = 24"

definition secure_frameVersion :: byte where "secure_frameVersion = 1"

definition secure_headerLen :: nat where "secure_headerLen = 4 + 1 + 1 + NonceSizeX"

definition secure_magic :: bytes where "secure_magic = bytes_of ''UDPT''"

definition infoFrameKey :: bytes where "infoFrameKey = bytes_of ''udp-tunnel/frame-key/v1''"

definition infoConvIDKey :: bytes where "infoConvIDKey = bytes_of ''udp-tunnel/kcp-conv/v1''"

datatype secure_error =
    ErrNotFrame
  | ErrBadFrame
  | ErrBadPSK
  | ErrDeriveKey string
  | ErrNonce string
  | ErrAEAD string

record SecureCodec =
  sc_aead :: cipherAEAD

definition derive ::
  "(bytes \<Rightarrow> bytes \<Rightarrow> bytes \<Rightarrow> nat \<Rightarrow> string + bytes) \<Rightarrow> string \<Rightarrow> bytes \<Rightarrow> nat \<Rightarrow> secure_error + bytes"
where
  "derive hkdf psk info keySize =
     (case hkdf (bytes_of psk) [] info keySize of Inl err \<Rightarrow> Inl (ErrDeriveKey err) | Inr key \<Rightarrow> Inr key)"

definition SecureCodec_New ::
  "(bytes \<Rightarrow> bytes \<Rightarrow> bytes \<Rightarrow> nat \<Rightarrow> string + bytes) \<Rightarrow> (bytes \<Rightarrow> string + cipherAEAD) \<Rightarrow> string \<Rightarrow>
     secure_error + SecureCodec"
where
  "SecureCodec_New hkdf newX psk =
     (if psk = '''' then Inl ErrBadPSK
      else
        (case derive hkdf psk infoFrameKey 32 of
           Inl err \<Rightarrow> Inl err
         | Inr key \<Rightarrow>
             (case newX key of
                Inl err \<Rightarrow> Inl (ErrAEAD err)
              | Inr aead \<Rightarrow> Inr \<lparr>sc_aead = aead\<rparr>)))"

definition secure_IsFrame :: "bytes \<Rightarrow> bool" where
  "secure_IsFrame b \<longleftrightarrow> 6 \<le> length b \<and> b ! 0 = secure_magic ! 0 \<and> b ! 1 = secure_magic ! 1
     \<and> b ! 2 = secure_magic ! 2 \<and> b ! 3 = secure_magic ! 3"

text \<open>\<open>rand\<close> is the result of \<^verbatim>\<open>rand.Read(nonce)\<close>: the 24 random bytes, or its error.\<close>

definition SecureCodec_Seal :: "SecureCodec option \<Rightarrow> (string + bytes) \<Rightarrow> byte \<Rightarrow> bytes \<Rightarrow> secure_error + bytes" where
  "SecureCodec_Seal c rand kind plaintext =
     (case c of
        None \<Rightarrow> Inl ErrBadPSK
      | Some c \<Rightarrow>
          (case rand of
             Inl err \<Rightarrow> Inl (ErrNonce err)
           | Inr nonce \<Rightarrow>
               let out = secure_magic;
                   out = out @ [secure_frameVersion, kind];
                   out = out @ nonce;
                   ad = take secure_headerLen out
               in Inr (aead_Seal (sc_aead c) out nonce plaintext ad)))"

definition SecureCodec_Open :: "SecureCodec option \<Rightarrow> bytes \<Rightarrow> (secure_error + byte \<times> bytes) option" where
  "SecureCodec_Open c frame =
     (case c of
        None \<Rightarrow> Some (Inl ErrBadPSK)
      | Some c \<Rightarrow>
          if \<not> secure_IsFrame frame then Some (Inl ErrNotFrame)
          else if length frame < secure_headerLen + 16 then Some (Inl ErrBadFrame)
          else do {
            v \<leftarrow> index frame 4;
            if v \<noteq> secure_frameVersion then Some (Inl ErrBadFrame)
            else do {
              kind \<leftarrow> index frame 5;
              nonce \<leftarrow> Prelude.slice frame 6 secure_headerLen;
              ad \<leftarrow> Prelude.slice frame 0 secure_headerLen;
              body \<leftarrow> Prelude.slice frame secure_headerLen (length frame);
              (case aead_Open (sc_aead c) [] nonce body ad of
                 Inl err \<Rightarrow> Some (Inl (ErrAEAD err))
               | Inr plain \<Rightarrow> Some (Inr (kind, plain))) } })"

definition conv_message :: "string \<Rightarrow> string \<Rightarrow> string \<Rightarrow> bytes" where
  "conv_message a b profile =
     (let ids = sort [a, b];
          m = infoConvIDKey;
          m = m @ [0];
          m = m @ bytes_of (ids ! 0);
          m = m @ [0];
          m = m @ bytes_of (ids ! 1);
          m = m @ [0]
      in m @ bytes_of profile)"

definition ConvID :: "(bytes \<Rightarrow> bytes \<Rightarrow> bytes) \<Rightarrow> string \<Rightarrow> string \<Rightarrow> string \<Rightarrow> string \<Rightarrow> uint32 option" where
  "ConvID hmac psk a b profile = do {
     v \<leftarrow> Prelude.slice (hmac (bytes_of psk) (conv_message a b profile)) 0 4 \<bind> Uint32;
     Some (if v = 0 then 1 else v) }"

subsection \<open>Facts on secure frames\<close>

lemma secure_lengths [simp]: "length secure_magic = 4" "secure_headerLen = 30"
  by (simp_all add: secure_magic_def secure_headerLen_def NonceSizeX_def)

lemma Seal_Open:
  assumes "aead_correct A" "aead_Overhead A = 16" "length nonce = NonceSizeX"
  shows "\<exists>frame. SecureCodec_Seal (Some \<lparr>sc_aead = A\<rparr>) (Inr nonce) kind plain = Inr frame
    \<and> SecureCodec_Open (Some \<lparr>sc_aead = A\<rparr>) frame = Some (Inr (kind, plain)) \<and> secure_IsFrame frame"
proof -
  let ?h = "secure_magic @ [secure_frameVersion, kind] @ nonce"
  have l: "length nonce = 24" "length ?h = 30" using assms(3) by (simp_all add: NonceSizeX_def)
  obtain body where body: "aead_Seal A ?h nonce plain ?h = ?h @ body" "length body = length plain + 16"
    "aead_Open A [] nonce body ?h = Inr plain"
    using assms(1,2) unfolding aead_correct_def by metis
  have "SecureCodec_Seal (Some \<lparr>sc_aead = A\<rparr>) (Inr nonce) kind plain = Inr (?h @ body)"
    using body(1) l by (simp add: SecureCodec_Seal_def Let_def)
  moreover have "secure_IsFrame (?h @ body)" by (simp add: secure_IsFrame_def nth_append)
  moreover have "\<not> length (?h @ body) < 30 + 16" using body(2) l by simp
  moreover have "index (?h @ body) 4 = Some secure_frameVersion" "index (?h @ body) 5 = Some kind"
    "Prelude.slice (?h @ body) 6 30 = Some nonce" "Prelude.slice (?h @ body) 0 30 = Some ?h"
    "Prelude.slice (?h @ body) 30 (length (?h @ body)) = Some body"
    using l by (simp_all add: go_slice nth_append)
  ultimately show ?thesis using body(3) by (simp add: SecureCodec_Open_def)
qed

text \<open>Secure frames round-trip: what one end seals under a 24-byte nonce, the other end opens to
  the same kind and plaintext.\<close>

theorem secure_frame_roundtrip:
  assumes "aead_correct A" "aead_Overhead A = 16" "length nonce = NonceSizeX"
  shows "\<exists>frame. SecureCodec_Seal (Some \<lparr>sc_aead = A\<rparr>) (Inr nonce) kind plain = Inr frame
    \<and> SecureCodec_Open (Some \<lparr>sc_aead = A\<rparr>) frame = Some (Inr (kind, plain))"
  using Seal_Open [OF assms] by blast

theorem secure_frame_roundtrip_witness:
  "\<exists>frame. SecureCodec_Seal (Some \<lparr>sc_aead = sum_aead\<rparr>) (Inr (replicate 24 9)) KindKCP [1, 2] = Inr frame
    \<and> SecureCodec_Open (Some \<lparr>sc_aead = sum_aead\<rparr>) frame = Some (Inr (KindKCP, [1, 2]))"
  using secure_frame_roundtrip [OF sum_aead_correct, of "replicate 24 9" KindKCP "[1, 2]"]
  by (simp add: sum_aead_def NonceSizeX_def)

text \<open>Opening answers on every input, never panicking, and hands out a plaintext only for a frame
  with the magic, the version and at least a full header and tag.\<close>

theorem SecureCodec_Open_total:
  "\<exists>res. SecureCodec_Open c frame = Some res
     \<and> (isl res \<or> secure_IsFrame frame \<and> 46 \<le> length frame \<and> frame ! 4 = secure_frameVersion)"
proof (cases c)
  case (Some a)
  show ?thesis
  proof (cases "secure_IsFrame frame \<and> \<not> length frame < 46")
    case True
    then show ?thesis by (auto simp: SecureCodec_Open_def Some go_slice split: sum.split)
  next
    case False
    then show ?thesis by (auto simp: SecureCodec_Open_def Some)
  qed
qed (simp add: SecureCodec_Open_def)

lemma sort_pair_commute: "sort [a, b] = sort [b, a]" for a b :: string
  by (cases a b rule: linorder_cases) auto

text \<open>Both ends of a tunnel compute the same KCP conversation id, and it is never zero.\<close>

theorem ConvID_agrees:
  assumes "\<And>k m. 4 \<le> length (hmac k m)"
  shows "\<exists>v. ConvID hmac psk a b profile = Some v \<and> ConvID hmac psk b a profile = Some v \<and> v \<noteq> 0"
proof -
  have len: "4 \<le> length (hmac (bytes_of psk) (conv_message a b profile))" using assms .
  have "conv_message b a profile = conv_message a b profile" unfolding conv_message_def sort_pair_commute [of b a] ..
  moreover obtain v where "Uint32 (take 4 (hmac (bytes_of psk) (conv_message a b profile))) = Some v"
    using Uint32_Some [of "take 4 (hmac (bytes_of psk) (conv_message a b profile))"] len by auto
  ultimately show ?thesis using len by (simp add: ConvID_def slice_ok)
qed

theorem ConvID_agrees_witness:
  "\<exists>v. ConvID (\<lambda>k m. [0, 0, 0, 0]) ''psk'' ''a'' ''b'' ''bulk'' = Some v
     \<and> ConvID (\<lambda>k m. [0, 0, 0, 0]) ''psk'' ''b'' ''a'' ''bulk'' = Some v \<and> v \<noteq> 0"
  using ConvID_agrees [of "\<lambda>k m. [0, 0, 0, 0]"] by simp

text \<open>The sockets carry four kinds of datagrams, told apart by their first bytes.  The three frame
  formats exclude each other, and none of them is read as a JSON object.\<close>

theorem datagram_kinds_disjoint:
  "\<not> (IsFrame d \<and> IsRelayFrame d) \<and> \<not> (IsFrame d \<and> secure_IsFrame d) \<and> \<not> (IsRelayFrame d \<and> secure_IsFrame d)
   \<and> \<not> ((IsFrame d \<or> IsRelayFrame d \<or> secure_IsFrame d) \<and> d ! 0 = of_char CHR ''{'')"
  by (auto simp: IsFrame_def IsRelayFrame_def secure_IsFrame_def relayMagic_def secure_magic_def bytes_of_def)

end
