(* ===== verification/GoBase64.thy ===== *)
theory GoBase64
  imports Prelude
begin

text \<open>
  Go's \<^verbatim>\<open>base64.StdEncoding\<close>, which carries packet payloads and keys in the JSON interfaces:
  \<^verbatim>\<open>EncodeToString\<close> and \<^verbatim>\<open>DecodeString\<close>.  The decoder skips carriage returns and newlines, requires
  padding and does not look at the unused bits of a padded group (the encoding is not strict).
\<close>

definition b64_alphabet :: string where
  "b64_alphabet = ''ABCDEFGHIJKLMNOPQRSTUVWXYZabcdefghijklmnopqrstuvwxyz0123456789+/''"

definition b64_char :: "nat \<Rightarrow> char" where
  "b64_char n = b64_alphabet ! n"

fun position :: "'a \<Rightarrow> 'a list \<Rightarrow> nat option" where
  "position x [] = None"
| "position x (y # ys) = (if x = y then Some 0 else map_option Suc (position x ys))"

definition b64_val :: "char \<Rightarrow> nat option" where
  "b64_val c = position c b64_alphabet"

fun EncodeToString :: "bytes \<Rightarrow> string" where
  "EncodeToString (a # b # c # rest) =
     (let n = unat a * 65536 + unat b * 256 + unat c in
      [b64_char (n div 262144), b64_char (n div 4096 mod 64), b64_char (n div 64 mod 64), b64_char (n mod 64)]
      @ EncodeToString rest)"
| "EncodeToString [a, b] =
     (let n = unat a * 65536 + unat b * 256 in
      [b64_char (n div 262144), b64_char (n div 4096 mod 64), b64_char (n div 64 mod 64), CHR ''=''])"
| "EncodeToString [a] =
     (let n = unat a * 65536 in
      [b64_char (n div 262144), b64_char (n div 4096 mod 64), CHR ''='', CHR ''=''])"
| "EncodeToString [] = []"

fun decode_quads :: "string \<Rightarrow> bytes option" where
  "decode_quads [] = Some []"
| "decode_quads (p # q # r # s # rest) =
     (if r = CHR ''='' \<and> s = CHR ''='' \<and> rest = [] then do {
        i \<leftarrow> b64_val p; j \<leftarrow> b64_val q;
        Some [of_nat ((i * 262144 + j * 4096) div 65536)] }
      else if s = CHR ''='' \<and> rest = [] then do {
        i \<leftarrow> b64_val p; j \<leftarrow> b64_val q; k \<leftarrow> b64_val r;
        let n = i * 262144 + j * 4096 + k * 64;
        Some [of_nat (n div 65536), of_nat (n div 256 mod 256)] }
      else do {
        i \<leftarrow> b64_val p; j \<leftarrow> b64_val q; k \<leftarrow> b64_val r; l \<leftarrow> b64_val s;
        let n = i * 262144 + j * 4096 + k * 64 + l;
        more \<leftarrow> decode_quads rest;
        Some (of_nat (n div 65536) # of_nat (n div 256 mod 256) # of_nat (n mod 256) # more) })"
| "decode_quads _ = None"

definition DecodeString :: "string \<Rightarrow> bytes option" where
  "DecodeString s = decode_quads (filter (\<lambda>c. of_char c \<noteq> (13 :: nat) \<and> of_char c \<noteq> (10 :: nat)) s)"

lemma length_alphabet: "length b64_alphabet = 64"
  by (simp add: b64_alphabet_def)

lemma position_nth: "distinct xs \<Longrightarrow> i < length xs \<Longrightarrow> position (xs ! i) xs = Some i"
proof (induction xs arbitrary: i)
  case (Cons x xs)
  then show ?case by (cases i) auto
qed simp

lemma distinct_alphabet: "distinct b64_alphabet"
  by (simp add: b64_alphabet_def)

lemma b64_val_char [simp]: "n < 64 \<Longrightarrow> b64_val (b64_char n) = Some n"
  by (simp add: b64_val_def b64_char_def position_nth distinct_alphabet length_alphabet)

lemma alphabet_chars: "c \<in> set b64_alphabet \<Longrightarrow> c \<noteq> CHR ''='' \<and> of_char c \<noteq> (13 :: nat) \<and> of_char c \<noteq> (10 :: nat)"
  by (auto simp: b64_alphabet_def)

lemma b64_char_plain [simp]: "n < 64 \<Longrightarrow> b64_char n \<noteq> CHR ''=''" "n < 64 \<Longrightarrow> of_char (b64_char n) \<noteq> (13 :: nat)"
  "n < 64 \<Longrightarrow> of_char (b64_char n) \<noteq> (10 :: nat)"
  using alphabet_chars [of "b64_char n"] nth_mem [of n b64_alphabet] by (simp_all add: b64_char_def length_alphabet)

lemma encoded_plain:
  "filter (\<lambda>c. of_char c \<noteq> (13 :: nat) \<and> of_char c \<noteq> (10 :: nat)) (EncodeToString bs) = EncodeToString bs"
proof (induction bs rule: EncodeToString.induct)
  case (1 a b c rest)
  have "(unat a * 65536 + unat b * 256 + unat c) div 262144 < 64"
    using unat_byte [of a] unat_byte [of b] unat_byte [of c] by simp
  with 1 show ?case by (simp add: Let_def)
next
  case (2 a b)
  have "(unat a * 65536 + unat b * 256) div 262144 < 64" using unat_byte [of a] unat_byte [of b] by simp
  then show ?case by (simp add: Let_def)
next
  case (3 a)
  have "unat a * 65536 div 262144 < 64" using unat_byte [of a] by simp
  then show ?case by (simp add: Let_def)
qed simp

lemma digits64:
  "n div 262144 * 262144 + n div 4096 mod 64 * 4096 + n div 64 mod 64 * 64 + n mod 64 = n" for n :: nat
proof -
  have "n mod 4096 = 64 * (n div 64 mod 64) + n mod 64" using mod_mult2_eq [of n 64 64] by simp
  moreover have "n = 4096 * (n div 4096) + n mod 4096" by simp
  moreover have "n div 4096 = 64 * (n div 262144) + n div 4096 mod 64"
    using div_mult2_eq [of n 4096 64] mult_div_mod_eq [of 64 "n div 4096"] by simp
  ultimately show ?thesis by linarith
qed

lemma bytes24:
  fixes a b c :: nat
  assumes "a < 256" "b < 256" "c < 256"
  shows "(a * 65536 + b * 256 + c) div 65536 = a" "(a * 65536 + b * 256 + c) div 256 mod 256 = b"
    "(a * 65536 + b * 256 + c) mod 256 = c" "(a * 65536 + b * 256 + c) div 262144 < 64"
proof -
  have e: "a * 65536 + b * 256 + c = c + (a * 256 + b) * 256" by simp
  have "(c + (a * 256 + b) * 256) div 256 = b + a * 256" using div_mult_self1 [of 256 c "a * 256 + b"] assms by simp
  moreover have "(b + a * 256) mod 256 = b" using assms by (simp only: mod_mult_self1) simp
  ultimately show "(a * 65536 + b * 256 + c) div 256 mod 256 = b" by (simp only: e)
  show "(a * 65536 + b * 256 + c) mod 256 = c" unfolding e using assms by (simp only: mod_mult_self1) simp
qed (use assms in simp_all)

lemma decode_group:
  assumes "n div 262144 < 64"
  shows "decode_quads (b64_char (n div 262144) # b64_char (n div 4096 mod 64) # b64_char (n div 64 mod 64)
      # b64_char (n mod 64) # rest)
    = map_option (\<lambda>more. of_nat (n div 65536) # of_nat (n div 256 mod 256) # of_nat (n mod 256) # more) (decode_quads rest)"
  using assms digits64 [of n] by (cases "decode_quads rest") (simp_all add: Let_def)

lemma decode_group2:
  assumes "n div 262144 < 64" "n mod 64 = 0"
  shows "decode_quads [b64_char (n div 262144), b64_char (n div 4096 mod 64), b64_char (n div 64 mod 64), CHR ''='']
    = Some [of_nat (n div 65536), of_nat (n div 256 mod 256)]"
  using assms digits64 [of n] by (simp add: Let_def)

lemma decode_group1:
  assumes "n div 262144 < 64" "n mod 64 = 0" "n div 64 mod 64 = 0"
  shows "decode_quads [b64_char (n div 262144), b64_char (n div 4096 mod 64), CHR ''='', CHR ''='']
    = Some [of_nat (n div 65536)]"
  using assms digits64 [of n] by simp

lemma low_bits_zero: "(a * 65536 + b * 256) mod 64 = 0" "a * 65536 div 64 mod 64 = 0" for a b :: nat
proof -
  have "a * 65536 + b * 256 = 64 * (a * 1024 + b * 4)" "a * 65536 div 64 = 64 * (a * 16)" by simp_all
  then show "(a * 65536 + b * 256) mod 64 = 0" "a * 65536 div 64 mod 64 = 0" by (simp_all only: mod_mult_self1_is_0)
qed

lemma decode_encode: "decode_quads (EncodeToString bs) = Some bs"
proof (induction bs rule: EncodeToString.induct)
  case (1 a b c rest)
  note n = bytes24 [OF unat_byte [of a] unat_byte [of b] unat_byte [of c]]
  show ?case unfolding EncodeToString.simps(1) Let_def append_Cons append_Nil decode_group [OF n(4)] 1 [OF refl] n(1-3) by simp
next
  case (2 a b)
  note n = bytes24 [OF unat_byte [of a] unat_byte [of b], of 0, unfolded add_0_right, OF zero_less_numeral]
  show ?case unfolding EncodeToString.simps(2) Let_def decode_group2 [OF n(4) low_bits_zero(1)] n(1-2) by simp
next
  case (3 a)
  note n = bytes24 [OF unat_byte [of a], of 0 0, unfolded add_0_right mult_zero_left, OF zero_less_numeral zero_less_numeral]
  note z = low_bits_zero(1) [of "unat a" 0, unfolded mult_zero_left add_0_right]
  show ?case unfolding EncodeToString.simps(3) Let_def decode_group1 [OF n(4) z low_bits_zero(2)] n(1) by simp
qed simp

lemma DecodeString_Encode [simp]: "DecodeString (EncodeToString bs) = Some bs"
  by (simp add: DecodeString_def encoded_plain decode_encode)

lemma EncodeToString_inject: "EncodeToString a = EncodeToString b \<longleftrightarrow> a = b"
  by (metis DecodeString_Encode option.inject)

end
