(* ===== verification/LanRelay.thy ===== *)
theory LanRelay
  imports Machine GoBase64 GoText
begin

text \<open>
  The HTTP packet relay of the control server, \<^verbatim>\<open>internal/server/lan_packet_relay.go\<close>: a bounded
  first-in-first-out queue per destination device, and the two handlers that feed and drain it.

  The queue is stated as the contract \<open>device_queues\<close> (what the content of each queue is after an
  enqueue and after a poll), interpreted on \<^verbatim>\<open>Enqueue\<close> and \<^verbatim>\<open>Poll\<close>; order and conservation of
  frames are proved once from the contract.  The handlers take the decoded request (\<open>None\<close> is a
  body that is not the expected JSON) and return the response; the long poll of
  \<^verbatim>\<open>handleLANPacketPoll\<close> is a recursion over the ticks before the two-second deadline, each with
  what the other requests do to the relay in between.
\<close>

subsection \<open>The relay\<close>

definition lanPacketMaxBatch :: int where "lanPacketMaxBatch = 64"

definition lanPacketMaxPayload :: nat where "lanPacketMaxPayload = 64 * 1024"

record lanPacketRelayFrame =
  prf_NetworkID :: int
  prf_SrcDevice :: string
  prf_DstDevice :: string
  prf_Type :: byte
  prf_Payload :: string
  prf_QueuedAt :: string

record lanPacketRelay =
  lpr_limit :: int
  lpr_byDevice :: "string \<rightharpoonup> lanPacketRelayFrame list"
  lpr_dropped :: uint64

definition newLANPacketRelay :: "int \<Rightarrow> lanPacketRelay" where
  "newLANPacketRelay limit =
     (let limit = (if limit \<le> 0 then 256 else limit)
      in \<lparr>lpr_limit = limit, lpr_byDevice = Map.empty, lpr_dropped = 0\<rparr>)"

definition queue_of :: "lanPacketRelay \<Rightarrow> string \<Rightarrow> lanPacketRelayFrame list" where
  "queue_of r d = (case lpr_byDevice r d of None \<Rightarrow> [] | Some q \<Rightarrow> q)"

definition Enqueue :: "lanPacketRelay \<Rightarrow> string \<Rightarrow> lanPacketRelayFrame \<Rightarrow> lanPacketRelay" where
  "Enqueue r now frame =
     (let frame = frame\<lparr>prf_QueuedAt := now\<rparr>;
          q = queue_of r (prf_DstDevice frame) @ [frame]
      in if lpr_limit r < int (length q) then
           let over = nat (int (length q) - lpr_limit r)
           in r\<lparr>lpr_dropped := lpr_dropped r + of_nat over,
                lpr_byDevice := (lpr_byDevice r)(prf_DstDevice frame \<mapsto> drop over q)\<rparr>
         else r\<lparr>lpr_byDevice := (lpr_byDevice r)(prf_DstDevice frame \<mapsto> q)\<rparr>)"

definition Poll ::
  "lanPacketRelay \<Rightarrow> string \<Rightarrow> int \<Rightarrow> lanPacketRelay \<times> lanPacketRelayFrame list \<times> nat \<times> uint64"
where
  "Poll r deviceID maxFrames =
     (let q = queue_of r deviceID in
      if length q = 0 then (r, [], 0, lpr_dropped r)
      else
        let m = (if maxFrames \<le> 0 \<or> lanPacketMaxBatch < maxFrames then lanPacketMaxBatch else maxFrames);
            m = (if int (length q) < m then int (length q) else m);
            out = take (nat m) q;
            r = (if m = int (length q) then r\<lparr>lpr_byDevice := (lpr_byDevice r)(deviceID := None)\<rparr>
                 else r\<lparr>lpr_byDevice := (lpr_byDevice r)(deviceID \<mapsto> drop (nat m) q)\<rparr>)
        in (r, out, length (queue_of r deviceID), lpr_dropped r))"

subsection \<open>The handlers\<close>

record relay_app =
  ra_lanRelay :: lanPacketRelay
  ra_totalRelayed :: uint64

datatype relay_response =
    RelayDisabled
  | BadJSON
  | Accepted nat
  | Frames "lanPacketRelayFrame list"

record send_request =
  sr_DeviceID :: string
  sr_Frames :: "lanPacketRelayFrame list"

record poll_request =
  pr_DeviceID :: string
  pr_Max :: int

fun send_loop :: "string \<Rightarrow> string \<Rightarrow> lanPacketRelayFrame list \<Rightarrow> relay_app \<Rightarrow> nat \<Rightarrow> relay_app \<times> nat" where
  "send_loop now deviceID [] a accepted = (a, accepted)"
| "send_loop now deviceID (frame # frames) a accepted =
     (let frame = (if prf_SrcDevice frame = '''' then frame\<lparr>prf_SrcDevice := deviceID\<rparr> else frame) in
      if prf_SrcDevice frame \<noteq> deviceID \<or> prf_DstDevice frame = '''' \<or> prf_NetworkID frame \<le> 0
      then send_loop now deviceID frames a accepted
      else (case DecodeString (prf_Payload frame) of
              None \<Rightarrow> send_loop now deviceID frames a accepted
            | Some payload \<Rightarrow>
                if length payload = 0 \<or> lanPacketMaxPayload < length payload
                then send_loop now deviceID frames a accepted
                else
                  let frame = frame\<lparr>prf_Payload := EncodeToString payload\<rparr>
                  in send_loop now deviceID frames
                       (a\<lparr>ra_lanRelay := Enqueue (ra_lanRelay a) now frame,
                          ra_totalRelayed := ra_totalRelayed a + of_nat (length payload)\<rparr>)
                       (accepted + 1)))"

definition handleLANPacketSend ::
  "bool \<Rightarrow> string \<Rightarrow> relay_app \<Rightarrow> send_request option \<Rightarrow> relay_app \<times> relay_response"
where
  "handleLANPacketSend allowRelay now a body =
     (if \<not> allowRelay then (a, RelayDisabled)
      else (case body of
              None \<Rightarrow> (a, BadJSON)
            | Some req \<Rightarrow>
                if TrimSpace (sr_DeviceID req) = '''' then (a, BadJSON)
                else
                  let (a', accepted) = send_loop now (sr_DeviceID req) (sr_Frames req) a 0
                  in (a', Accepted accepted)))"

fun poll_loop ::
  "lanPacketRelay \<Rightarrow> string \<Rightarrow> int \<Rightarrow> (lanPacketRelay \<Rightarrow> lanPacketRelay) list \<Rightarrow>
     lanPacketRelay \<times> lanPacketRelayFrame list"
where
  "poll_loop r deviceID maxFrames ticks =
     (let (r, frames, remaining, dropped) = Poll r deviceID maxFrames in
      if frames \<noteq> [] then (r, frames)
      else (case ticks of
              [] \<Rightarrow> (r, [])
            | others # ticks \<Rightarrow> poll_loop (others r) deviceID maxFrames ticks))"

declare poll_loop.simps [simp del]

definition handleLANPacketPoll ::
  "bool \<Rightarrow> relay_app \<Rightarrow> poll_request option \<Rightarrow> (lanPacketRelay \<Rightarrow> lanPacketRelay) list \<Rightarrow> relay_app \<times> relay_response"
where
  "handleLANPacketPoll allowRelay a body ticks =
     (if \<not> allowRelay then (a, RelayDisabled)
      else (case body of
              None \<Rightarrow> (a, BadJSON)
            | Some req \<Rightarrow>
                if TrimSpace (pr_DeviceID req) = '''' then (a, BadJSON)
                else
                  let (r, frames) = poll_loop (ra_lanRelay a) (pr_DeviceID req) (pr_Max req) ticks
                  in (a\<lparr>ra_lanRelay := r\<rparr>, Frames frames)))"

section \<open>The contract of per-device queues\<close>

locale device_queues =
  fixes inv :: "'q \<Rightarrow> bool"
    and key :: "'a \<Rightarrow> 'd"
    and enq :: "'q \<Rightarrow> 'a \<Rightarrow> 'q"
    and deq :: "'q \<Rightarrow> 'd \<Rightarrow> int \<Rightarrow> 'q \<times> 'a list"
    and queue :: "'q \<Rightarrow> 'd \<Rightarrow> 'a list"
    and lost :: "'q \<Rightarrow> uint64"
    and limit :: "'q \<Rightarrow> nat"
  assumes inv_enq: "inv q \<Longrightarrow> inv (enq q x)"
    and inv_deq: "inv q \<Longrightarrow> inv (fst (deq q d m))"
    and queue_enq: "inv q \<Longrightarrow> queue (enq q x) e =
      (if e = key x then drop (length (queue q e) + 1 - limit q) (queue q e @ [x]) else queue q e)"
    and lost_enq: "inv q \<Longrightarrow> lost (enq q x) = lost q + of_nat (length (queue q (key x)) + 1 - limit q)"
    and limit_enq: "limit (enq q x) = limit q"
    and queue_deq: "queue (fst (deq q d m)) e = (if e = d then drop (length (snd (deq q d m))) (queue q d) else queue q e)"
    and deq_front: "snd (deq q d m) = take (length (snd (deq q d m))) (queue q d)"
    and lost_deq: "lost (fst (deq q d m)) = lost q"
    and limit_deq: "limit (fst (deq q d m)) = limit q"
begin

text \<open>The trace of one device through a sequence of enqueues and polls of all devices: the state
  reached, what was enqueued for it and what its polls returned.\<close>

fun trace :: "'d \<Rightarrow> ('a + 'd \<times> int) list \<Rightarrow> 'q \<Rightarrow> 'q \<times> 'a list \<times> 'a list" where
  "trace e [] q = (q, [], [])"
| "trace e (Inl x # ops) q =
     (let (q', ins, outs) = trace e ops (enq q x) in (q', (if key x = e then x # ins else ins), outs))"
| "trace e (Inr (d, m) # ops) q =
     (let (q', ins, outs) = trace e ops (fst (deq q d m))
      in (q', ins, (if d = e then snd (deq q d m) @ outs else outs)))"

lemma subseq_drop_mid: "subseq (drop n xs @ ys) (xs @ ys)"
  using list_emb_append2 [of "(=)" "drop n xs" "drop n xs" "take n xs"] by (simp add: subseq_append')

lemma deq_split: "queue q d = snd (deq q d m) @ drop (length (snd (deq q d m))) (queue q d)"
  by (metis deq_front append_take_drop_id)

lemma trace_subseq:
  "trace e ops q = (q', ins, outs) \<Longrightarrow> inv q \<Longrightarrow> inv q' \<and> subseq (outs @ queue q' e) (queue q e @ ins)"
proof (induction e ops q arbitrary: q' ins outs rule: trace.induct)
  case (2 e x ops q)
  obtain ins' where t: "trace e ops (enq q x) = (q', ins', outs)" and i: "ins = (if key x = e then x # ins' else ins')"
    using 2(2) by (auto simp: Let_def split: prod.splits)
  have IH: "inv q' \<and> subseq (outs @ queue q' e) (queue (enq q x) e @ ins')"
    using 2(1) [OF t inv_enq [OF 2(3)]] .
  moreover have "subseq (queue (enq q x) e @ ins') (queue q e @ ins)"
    using subseq_drop_mid [of "length (queue q e) + 1 - limit q" "queue q e @ [x]" ins'] i
    by (auto simp: queue_enq [OF 2(3)])
  ultimately show ?case using subseq_order.trans by blast
next
  case (3 e d m ops q)
  obtain outs' where t: "trace e ops (fst (deq q d m)) = (q', ins, outs')"
    and o: "outs = (if d = e then snd (deq q d m) @ outs' else outs')"
    using 3(2) by (auto simp: Let_def split: prod.splits)
  have IH: "inv q' \<and> subseq (outs' @ queue q' e) (queue (fst (deq q d m)) e @ ins)"
    using 3(1) [OF t inv_deq [OF 3(3)]] .
  show ?case
  proof (cases "d = e")
    case True
    have "subseq (snd (deq q e m) @ outs' @ queue q' e) (snd (deq q e m) @ drop (length (snd (deq q e m))) (queue q e) @ ins)"
      by (rule list_emb_append_mono [OF subseq_order.order_refl]) (use IH True in \<open>simp add: queue_deq\<close>)
    then show ?thesis using IH True o deq_split [of q e m] by (metis append.assoc)
  next
    case False
    then show ?thesis using IH o by (simp add: queue_deq)
  qed
qed simp

text \<open>Counting over all devices: \<open>pending D q\<close> is the number of queued elements of the devices \<open>D\<close>.\<close>

definition pending :: "'d set \<Rightarrow> 'q \<Rightarrow> nat" where
  "pending D q = (\<Sum>d\<in>D. length (queue q d))"

fun totals :: "('a + 'd \<times> int) list \<Rightarrow> 'q \<Rightarrow> 'q \<times> nat \<times> nat" where
  "totals [] q = (q, 0, 0)"
| "totals (Inl x # ops) q = (let (q', i, j) = totals ops (enq q x) in (q', i + 1, j))"
| "totals (Inr (d, m) # ops) q =
     (let (q', i, j) = totals ops (fst (deq q d m)) in (q', i, j + length (snd (deq q d m))))"

lemma pending_enq:
  assumes "finite D" "inv q" "key x \<in> D"
  shows "of_nat (pending D (enq q x)) + lost (enq q x) = of_nat (pending D q) + 1 + lost q"
proof -
  let ?d = "key x" and ?rest = "\<Sum>d\<in>D - {key x}. length (queue q d)"
  let ?over = "length (queue q (key x)) + 1 - limit q"
  have "pending D (enq q x) = length (queue (enq q x) ?d) + (\<Sum>d\<in>D - {?d}. length (queue (enq q x) d))"
    using assms unfolding pending_def by (simp add: sum.remove)
  moreover have "(\<Sum>d\<in>D - {?d}. length (queue (enq q x) d)) = ?rest"
    by (rule sum.cong) (auto simp: queue_enq [OF assms(2)])
  moreover have "pending D q = length (queue q ?d) + ?rest" using assms unfolding pending_def by (simp add: sum.remove)
  moreover have "length (queue (enq q x) ?d) + ?over = length (queue q ?d) + 1" by (simp add: queue_enq [OF assms(2)])
  ultimately have "pending D (enq q x) + ?over = pending D q + 1" by linarith
  then have "of_nat (pending D (enq q x)) + of_nat ?over = (of_nat (pending D q) + 1 :: uint64)"
    by (metis of_nat_add of_nat_1)
  then show ?thesis using lost_enq [OF assms(2), of x] by (simp add: ac_simps)
qed

lemma pending_deq:
  assumes "finite D" "d \<in> D"
  shows "pending D (fst (deq q d m)) + length (snd (deq q d m)) = pending D q"
proof -
  have "pending D (fst (deq q d m)) = length (queue (fst (deq q d m)) d)
      + (\<Sum>d'\<in>D - {d}. length (queue (fst (deq q d m)) d'))"
    using assms unfolding pending_def by (simp add: sum.remove)
  moreover have "(\<Sum>d'\<in>D - {d}. length (queue (fst (deq q d m)) d')) = (\<Sum>d'\<in>D - {d}. length (queue q d'))"
    by (rule sum.cong) (auto simp: queue_deq)
  moreover have "pending D q = length (queue q d) + (\<Sum>d'\<in>D - {d}. length (queue q d'))"
    using assms unfolding pending_def by (simp add: sum.remove)
  moreover have "length (queue q d) = length (queue (fst (deq q d m)) d) + length (snd (deq q d m))"
    using arg_cong [OF deq_split [of q d m], of length] by (simp add: queue_deq)
  ultimately show ?thesis by linarith
qed

lemma totals_count:
  assumes "finite D"
  shows "totals ops q = (q', i, j) \<Longrightarrow> inv q \<Longrightarrow> key ` {x. Inl x \<in> set ops} \<subseteq> D \<Longrightarrow> fst ` {x. Inr x \<in> set ops} \<subseteq> D
    \<Longrightarrow> of_nat (pending D q) + of_nat i + lost q = of_nat (pending D q') + of_nat j + lost q'"
proof (induction ops q arbitrary: q' i j rule: totals.induct)
  case (2 x ops q)
  obtain i' where t: "totals ops (enq q x) = (q', i', j)" and i: "i = i' + 1"
    using 2(2) by (auto simp: Let_def split: prod.splits)
  have D: "key x \<in> D" "key ` {x. Inl x \<in> set ops} \<subseteq> D" "fst ` {x. Inr x \<in> set ops} \<subseteq> D" using 2(4,5) by auto
  have A: "of_nat (pending D (enq q x)) + of_nat i' + lost (enq q x) = of_nat (pending D q') + of_nat j + lost q'"
    using 2(1) [OF t inv_enq [OF 2(3)] D(2,3)] .
  have "of_nat (pending D q) + of_nat i + lost q = (of_nat (pending D q) + 1 + lost q) + of_nat i'"
    unfolding i by (simp add: ac_simps)
  also have "\<dots> = of_nat (pending D (enq q x)) + of_nat i' + lost (enq q x)"
    unfolding pending_enq [OF assms 2(3) D(1), symmetric] by (simp add: ac_simps)
  finally show ?case using A by simp
next
  case (3 d m ops q)
  obtain j' where t: "totals ops (fst (deq q d m)) = (q', i, j')" and j: "j = j' + length (snd (deq q d m))"
    using 3(2) by (auto simp: Let_def split: prod.splits)
  have D: "d \<in> D" "key ` {x. Inl x \<in> set ops} \<subseteq> D" "fst ` {x. Inr x \<in> set ops} \<subseteq> D" using 3(4,5) by force+
  have A: "of_nat (pending D (fst (deq q d m))) + of_nat i + lost q = of_nat (pending D q') + of_nat j' + lost q'"
    using 3(1) [OF t inv_deq [OF 3(3)] D(2,3)] by (simp add: lost_deq)
  let ?s = "of_nat (length (snd (deq q d m))) :: uint64"
  have B: "of_nat (pending D (fst (deq q d m))) + ?s = (of_nat (pending D q) :: uint64)"
    using pending_deq [OF assms D(1), of q m] by (metis of_nat_add)
  have "of_nat (pending D q) + of_nat i + lost q = (of_nat (pending D (fst (deq q d m))) + of_nat i + lost q) + ?s"
    unfolding B [symmetric] by (simp add: ac_simps)
  also have "\<dots> = of_nat (pending D q') + of_nat j + lost q'"
    unfolding A j by (simp add: ac_simps)
  finally show ?case .
qed auto

lemma trace_limit: "trace e ops q = (q', ins, outs) \<Longrightarrow> limit q' = limit q"
proof (induction e ops q arbitrary: q' ins outs rule: trace.induct)
  case (2 e x ops q)
  then show ?case using limit_enq [of q x] by (auto simp: Let_def split: prod.splits)
next
  case (3 e d m ops q)
  then show ?case using limit_deq [of q d m] by (auto simp: Let_def split: prod.splits)
qed simp

end

section \<open>The relay provides the contract\<close>

definition relay_inv :: "lanPacketRelay \<Rightarrow> bool" where
  "relay_inv r \<longleftrightarrow> 0 < lpr_limit r \<and> (\<forall>d. int (length (queue_of r d)) \<le> lpr_limit r)"

definition relay_enq :: "lanPacketRelay \<Rightarrow> lanPacketRelayFrame \<Rightarrow> lanPacketRelay" where
  "relay_enq r frame = Enqueue r (prf_QueuedAt frame) frame"

definition relay_poll :: "lanPacketRelay \<Rightarrow> string \<Rightarrow> int \<Rightarrow> lanPacketRelay \<times> lanPacketRelayFrame list" where
  "relay_poll r d m = (fst (Poll r d m), fst (snd (Poll r d m)))"

lemma newLANPacketRelay_inv: "relay_inv (newLANPacketRelay limit)"
  by (simp add: newLANPacketRelay_def relay_inv_def queue_of_def Let_def)

lemma queue_of_upd:
  "queue_of (r\<lparr>lpr_byDevice := (lpr_byDevice r)(d := v)\<rparr>) e
     = (if e = d then (case v of None \<Rightarrow> [] | Some q \<Rightarrow> q) else queue_of r e)"
  "queue_of (r\<lparr>lpr_dropped := n, lpr_byDevice := (lpr_byDevice r)(d := v)\<rparr>) e
     = (if e = d then (case v of None \<Rightarrow> [] | Some q \<Rightarrow> q) else queue_of r e)"
  by (simp_all add: queue_of_def)

lemma Enqueue_queue:
  assumes "0 < lpr_limit r"
  shows "queue_of (Enqueue r now frame) e =
    (if e = prf_DstDevice frame
     then drop (length (queue_of r e) + 1 - nat (lpr_limit r)) (queue_of r e @ [frame\<lparr>prf_QueuedAt := now\<rparr>])
     else queue_of r e)"
    "lpr_dropped (Enqueue r now frame)
       = lpr_dropped r + of_nat (length (queue_of r (prf_DstDevice frame)) + 1 - nat (lpr_limit r))"
    "lpr_limit (Enqueue r now frame) = lpr_limit r"
proof -
  let ?q = "queue_of r (prf_DstDevice frame)"
  have "nat (int (length ?q + 1) - lpr_limit r) = length ?q + 1 - nat (lpr_limit r)" using assms by linarith
  then show "queue_of (Enqueue r now frame) e =
    (if e = prf_DstDevice frame
     then drop (length (queue_of r e) + 1 - nat (lpr_limit r)) (queue_of r e @ [frame\<lparr>prf_QueuedAt := now\<rparr>])
     else queue_of r e)"
    "lpr_dropped (Enqueue r now frame)
       = lpr_dropped r + of_nat (length (queue_of r (prf_DstDevice frame)) + 1 - nat (lpr_limit r))"
    "lpr_limit (Enqueue r now frame) = lpr_limit r"
    using assms by (auto simp: Enqueue_def Let_def queue_of_upd)
qed

definition batch :: "int \<Rightarrow> nat \<Rightarrow> nat" where
  "batch m n = min n (nat (if m \<le> 0 \<or> lanPacketMaxBatch < m then lanPacketMaxBatch else m))"

lemma Poll_eq:
  "Poll r d m = (let n = batch m (length (queue_of r d)) in
     (if queue_of r d = [] then r
      else if n = length (queue_of r d) then r\<lparr>lpr_byDevice := (lpr_byDevice r)(d := None)\<rparr>
      else r\<lparr>lpr_byDevice := (lpr_byDevice r)(d \<mapsto> drop n (queue_of r d))\<rparr>,
      take n (queue_of r d), length (queue_of r d) - n, lpr_dropped r))"
proof -
  let ?q = "queue_of r d" and ?k = "if m \<le> 0 \<or> lanPacketMaxBatch < m then lanPacketMaxBatch else m"
  define k where "k = (if int (length ?q) < ?k then int (length ?q) else ?k)"
  have k: "nat k = batch m (length ?q)" "0 < ?k" by (auto simp: k_def batch_def lanPacketMaxBatch_def)
  then have "k = int (length ?q) \<longleftrightarrow> batch m (length ?q) = length ?q" "batch m (length ?q) \<le> length ?q"
    by (auto simp: k_def batch_def)
  then show ?thesis
    unfolding Poll_def Let_def k_def [symmetric] k(1) by (auto simp: queue_of_upd)
qed

lemma Poll_queue:
  "queue_of (fst (Poll r d m)) e =
     (if e = d then drop (length (fst (snd (Poll r d m)))) (queue_of r d) else queue_of r e)"
  "fst (snd (Poll r d m)) = take (length (fst (snd (Poll r d m)))) (queue_of r d)"
  "lpr_dropped (fst (Poll r d m)) = lpr_dropped r" "lpr_limit (fst (Poll r d m)) = lpr_limit r"
  by (auto simp: Poll_eq Let_def queue_of_upd batch_def)

lemma Poll_progress: "queue_of r d \<noteq> [] \<Longrightarrow> fst (snd (Poll r d m)) \<noteq> []"
  by (auto simp: Poll_eq Let_def batch_def lanPacketMaxBatch_def)

interpretation relayq: device_queues relay_inv prf_DstDevice relay_enq relay_poll queue_of lpr_dropped "nat \<circ> lpr_limit"
proof
  fix q x e d m
  show "relay_inv (relay_enq q x)" if "relay_inv q"
    using that by (auto simp: relay_inv_def relay_enq_def Enqueue_queue)
  show "relay_inv (fst (relay_poll q d m))" if "relay_inv q"
  proof -
    have "length (queue_of (fst (Poll q d m)) d') \<le> length (queue_of q d')" for d' by (simp add: Poll_queue(1))
    then have "int (length (queue_of (fst (Poll q d m)) d')) \<le> lpr_limit q" for d'
      using that unfolding relay_inv_def by (meson of_nat_mono order_trans)
    then show ?thesis using that by (simp add: relay_inv_def relay_poll_def Poll_queue(4))
  qed
  show "queue_of (relay_enq q x) e = (if e = prf_DstDevice x
      then drop (length (queue_of q e) + 1 - (nat \<circ> lpr_limit) q) (queue_of q e @ [x]) else queue_of q e)"
    if "relay_inv q"
    using that by (simp add: relay_enq_def relay_inv_def Enqueue_queue(1))
  show "lpr_dropped (relay_enq q x) = lpr_dropped q
      + of_nat (length (queue_of q (prf_DstDevice x)) + 1 - (nat \<circ> lpr_limit) q)" if "relay_inv q"
    using that by (simp add: relay_enq_def relay_inv_def Enqueue_queue(2))
  show "(nat \<circ> lpr_limit) (relay_enq q x) = (nat \<circ> lpr_limit) q"
    by (simp add: relay_enq_def Enqueue_def Let_def)
  show "queue_of (fst (relay_poll q d m)) e
      = (if e = d then drop (length (snd (relay_poll q d m))) (queue_of q d) else queue_of q e)"
    by (simp add: relay_poll_def Poll_queue(1))
  show "snd (relay_poll q d m) = take (length (snd (relay_poll q d m))) (queue_of q d)"
    unfolding relay_poll_def snd_conv by (rule Poll_queue(2))
  show "lpr_dropped (fst (relay_poll q d m)) = lpr_dropped q"
    "(nat \<circ> lpr_limit) (fst (relay_poll q d m)) = (nat \<circ> lpr_limit) q"
    by (simp_all add: relay_poll_def Poll_queue(3,4))
qed

section \<open>Properties\<close>

text \<open>C28. The relay delivers in order: over any sequence of enqueues and polls of all devices, what the
  polls of a device return, followed by what is still queued for it, is a subsequence of what was
  enqueued for it; the queue never exceeds the limit.\<close>

theorem relay_fifo:
  "case relayq.trace device ops (newLANPacketRelay limit) of (r, ins, outs) \<Rightarrow>
     subseq (outs @ queue_of r device) ins \<and> int (length (queue_of r device)) \<le> lpr_limit (newLANPacketRelay limit)"
proof -
  obtain r ins outs where t: "relayq.trace device ops (newLANPacketRelay limit) = (r, ins, outs)"
    using prod_cases3 by blast
  have "relay_inv r \<and> subseq (outs @ queue_of r device) (queue_of (newLANPacketRelay limit) device @ ins)"
    using relayq.trace_subseq [OF t newLANPacketRelay_inv] .
  moreover have "nat (lpr_limit r) = nat (lpr_limit (newLANPacketRelay limit))" using relayq.trace_limit [OF t] by simp
  then have "lpr_limit r = lpr_limit (newLANPacketRelay limit)"
    using calculation newLANPacketRelay_inv [of limit] unfolding relay_inv_def by (simp add: nat_eq_iff2)
  moreover have "queue_of (newLANPacketRelay limit) device = []"
    by (simp add: queue_of_def newLANPacketRelay_def Let_def)
  ultimately show ?thesis using t by (auto simp: relay_inv_def)
qed

text \<open>No frame disappears uncounted: over any sequence of operations, the frames accepted equal the
  frames handed out plus the frames still queued plus the value of the drop counter (modulo
  \<open>2 ^ 64\<close>, the range of the counter).\<close>

theorem relay_conservation:
  assumes "finite D" "prf_DstDevice ` {x. Inl x \<in> set ops} \<subseteq> D" "fst ` {x. Inr x \<in> set ops} \<subseteq> D"
    and "relayq.totals ops (newLANPacketRelay limit) = (r, accepted, delivered)"
  shows "of_nat accepted = (of_nat delivered + of_nat (\<Sum>d\<in>D. length (queue_of r d)) + lpr_dropped r :: uint64)"
proof -
  have "of_nat (relayq.pending D (newLANPacketRelay limit)) + of_nat accepted + lpr_dropped (newLANPacketRelay limit)
      = of_nat (relayq.pending D r) + of_nat delivered + lpr_dropped r"
    using relayq.totals_count [OF assms(1,4) newLANPacketRelay_inv assms(2,3)] .
  moreover have "relayq.pending D (newLANPacketRelay limit) = 0" "lpr_dropped (newLANPacketRelay limit) = 0"
    by (simp_all add: relayq.pending_def queue_of_def newLANPacketRelay_def Let_def)
  ultimately show ?thesis unfolding relayq.pending_def by (simp add: ac_simps)
qed

definition demo_relay_frame :: "string \<Rightarrow> lanPacketRelayFrame" where
  "demo_relay_frame p = \<lparr>prf_NetworkID = 1, prf_SrcDevice = ''a'', prf_DstDevice = ''b'', prf_Type = 1,
     prf_Payload = p, prf_QueuedAt = ''t''\<rparr>"

theorem relay_conservation_witness:
  "\<exists>r. relayq.totals [Inl (demo_relay_frame ''AA==''), Inl (demo_relay_frame ''BA==''), Inl (demo_relay_frame ''CA=='')] (newLANPacketRelay 2)
     = (r, 3, 0) \<and> of_nat 3 = (of_nat 0 + of_nat (\<Sum>d\<in>{''b''}. length (queue_of r d)) + lpr_dropped r :: uint64)"
proof -
  let ?ops = "[Inl (demo_relay_frame ''AA==''), Inl (demo_relay_frame ''BA==''), Inl (demo_relay_frame ''CA=='')]"
  obtain r where r: "relayq.totals ?ops (newLANPacketRelay 2) = (r, 3, 0)" by (simp add: Let_def)
  have "prf_DstDevice ` {x. Inl x \<in> set ?ops} \<subseteq> {''b''}" "fst ` {x :: string \<times> int. Inr x \<in> set ?ops} \<subseteq> {''b''}"
    by (auto simp: demo_relay_frame_def)
  from relay_conservation [OF _ this r] r show ?thesis by auto
qed

definition admissible :: "string \<Rightarrow> string \<Rightarrow> lanPacketRelayFrame \<Rightarrow> bool" where
  "admissible sender d f \<longleftrightarrow> prf_SrcDevice f = sender \<and> prf_DstDevice f = d \<and> d \<noteq> '''' \<and> 0 < prf_NetworkID f
     \<and> (\<exists>p. prf_Payload f = EncodeToString p \<and> 0 < length p \<and> length p \<le> lanPacketMaxPayload)"

definition checked_frame :: "string \<Rightarrow> lanPacketRelayFrame \<Rightarrow> (lanPacketRelayFrame \<times> bytes) option" where
  "checked_frame sender frame =
     (let g = (if prf_SrcDevice frame = '''' then frame\<lparr>prf_SrcDevice := sender\<rparr> else frame) in
      if prf_SrcDevice g \<noteq> sender \<or> prf_DstDevice g = '''' \<or> prf_NetworkID g \<le> 0 then None
      else (case DecodeString (prf_Payload g) of
              None \<Rightarrow> None
            | Some p \<Rightarrow> if length p = 0 \<or> lanPacketMaxPayload < length p then None
                        else Some (g\<lparr>prf_Payload := EncodeToString p\<rparr>, p)))"

lemma send_loop_step:
  "send_loop now sender (frame # frames) a n =
     (case checked_frame sender frame of
        None \<Rightarrow> send_loop now sender frames a n
      | Some (g, p) \<Rightarrow> send_loop now sender frames
          (a\<lparr>ra_lanRelay := Enqueue (ra_lanRelay a) now g,
             ra_totalRelayed := ra_totalRelayed a + of_nat (length p)\<rparr>) (n + 1))"
  by (simp add: checked_frame_def Let_def split: option.split)

lemma checked_frame_admissible: "checked_frame sender frame = Some (g, p) \<Longrightarrow> admissible sender (prf_DstDevice g) g"
  by (auto simp: checked_frame_def admissible_def Let_def not_less split: if_splits option.splits)

lemma send_loop_queues:
  "0 < lpr_limit (ra_lanRelay a) \<Longrightarrow> f \<in> set (queue_of (ra_lanRelay (fst (send_loop now sender frames a n))) d)
   \<Longrightarrow> f \<in> set (queue_of (ra_lanRelay a) d) \<or> admissible sender d f"
proof (induction frames arbitrary: a n)
  case (Cons frame frames)
  show ?case
  proof (cases "checked_frame sender frame")
    case None
    then show ?thesis using Cons.IH [of a n] Cons.prems unfolding send_loop_step by simp
  next
    case (Some gp)
    obtain g p where gp: "gp = (g, p)" by (cases gp)
    let ?a = "a\<lparr>ra_lanRelay := Enqueue (ra_lanRelay a) now g, ra_totalRelayed := ra_totalRelayed a + of_nat (length p)\<rparr>"
    have "f \<in> set (queue_of (ra_lanRelay ?a) d) \<or> admissible sender d f"
      using Cons.IH [of ?a "n + 1"] Cons.prems Some gp unfolding send_loop_step by (simp add: Enqueue_queue(3))
    moreover have "f \<in> set (queue_of (ra_lanRelay a) d) \<or> d = prf_DstDevice g \<and> f = g\<lparr>prf_QueuedAt := now\<rparr>"
      if "f \<in> set (queue_of (ra_lanRelay ?a) d)"
      using that Enqueue_queue(1) [OF Cons.prems(1), of now g d] by (auto split: if_splits dest: in_set_dropD)
    moreover have "admissible sender (prf_DstDevice g) (g\<lparr>prf_QueuedAt := now\<rparr>)"
      using checked_frame_admissible [of sender frame g p] Some gp by (simp add: admissible_def)
    ultimately show ?thesis by blast
  qed
qed simp

text \<open>A device cannot put frames in the name of another device into the relay: every frame that is
  queued after a send request and was not queued before names the requesting device as its
  source, has a destination and a positive network id, and carries the canonical base64 text of a
  payload of between one byte and 64 KiB.\<close>

theorem handleLANPacketSend_sound:
  assumes "relay_inv (ra_lanRelay a)" "handleLANPacketSend allow now a (Some req) = (a', resp)"
    and "f \<in> set (queue_of (ra_lanRelay a') d)" "f \<notin> set (queue_of (ra_lanRelay a) d)"
  shows "admissible (sr_DeviceID req) d f \<and> allow"
proof -
  have run: "allow \<and> a' = fst (send_loop now (sr_DeviceID req) (sr_Frames req) a 0)"
    using assms(2-4) by (auto simp: handleLANPacketSend_def Let_def split: if_splits prod.splits)
  have "0 < lpr_limit (ra_lanRelay a)" using assms(1) by (simp add: relay_inv_def)
  then show ?thesis using send_loop_queues assms(3,4) run by blast
qed

definition demo_relay_app :: relay_app where
  "demo_relay_app = \<lparr>ra_lanRelay = newLANPacketRelay 0, ra_totalRelayed = 0\<rparr>"

definition demo_send_request :: send_request where
  "demo_send_request = \<lparr>sr_DeviceID = ''a'', sr_Frames = [demo_relay_frame (EncodeToString [7])]\<rparr>"

theorem handleLANPacketSend_sound_witness:
  "\<exists>a' resp f. handleLANPacketSend True ''t'' demo_relay_app (Some demo_send_request) = (a', resp)
     \<and> f \<in> set (queue_of (ra_lanRelay a') ''b'') \<and> admissible ''a'' ''b'' f"
proof -
  let ?f = "demo_relay_frame (EncodeToString [7])"
  have q: "queue_of (newLANPacketRelay 0) d = []" "lpr_limit (newLANPacketRelay 0) = 256" for d
    by (simp_all add: queue_of_def newLANPacketRelay_def)
  have c: "checked_frame ''a'' ?f = Some (?f, [7])"
    by (simp add: checked_frame_def demo_relay_frame_def lanPacketMaxPayload_def del: EncodeToString.simps)
  have "TrimSpace ''a'' = ''a''" by (simp add: TrimSpace_plain plain_char_def)
  then obtain a' resp where r: "handleLANPacketSend True ''t'' demo_relay_app (Some demo_send_request) = (a', resp)"
    and a': "a' = \<lparr>ra_lanRelay = Enqueue (newLANPacketRelay 0) ''t'' ?f, ra_totalRelayed = 1\<rparr>"
    by (simp add: handleLANPacketSend_def demo_send_request_def demo_relay_app_def send_loop_step c
        del: send_loop.simps(2) EncodeToString.simps)
  have "?f\<lparr>prf_QueuedAt := ''t''\<rparr> \<in> set (queue_of (ra_lanRelay a') ''b'')"
    using Enqueue_queue(1) [of "newLANPacketRelay 0" "''t''" ?f "''b''"] q by (simp add: a' demo_relay_frame_def)
  moreover have "?f\<lparr>prf_QueuedAt := ''t''\<rparr> \<notin> set (queue_of (ra_lanRelay demo_relay_app) ''b'')"
    by (simp add: demo_relay_app_def q)
  ultimately have "admissible ''a'' ''b'' (?f\<lparr>prf_QueuedAt := ''t''\<rparr>)"
    using handleLANPacketSend_sound [OF _ r] newLANPacketRelay_inv [of 0]
    by (auto simp: demo_relay_app_def demo_send_request_def)
  then show ?thesis using r \<open>_ \<in> set (queue_of (ra_lanRelay a') ''b'')\<close> by blast
qed

fun states_seen :: "lanPacketRelay \<Rightarrow> (lanPacketRelay \<Rightarrow> lanPacketRelay) list \<Rightarrow> lanPacketRelay list" where
  "states_seen r [] = [r]"
| "states_seen r (others # ticks) = r # states_seen (others r) ticks"

text \<open>The long poll misses nothing: its answer is empty exactly when the device's queue was empty at
  every tick up to the deadline, whatever the other requests did to the relay in between.\<close>

theorem poll_loop_empty_iff:
  "snd (poll_loop r d m ticks) = [] \<longleftrightarrow> list_all (\<lambda>s. queue_of s d = []) (states_seen r ticks)"
proof (induction ticks arbitrary: r)
  case Nil
  show ?case
    using Poll_progress [of r d m] Poll_queue(2) [of r d m]
    by (cases "Poll r d m") (auto simp: poll_loop.simps [of r d m])
next
  case (Cons others ticks)
  show ?case
  proof (cases "queue_of r d = []")
    case True
    then have "Poll r d m = (r, [], 0, lpr_dropped r)" by (simp add: Poll_def)
    then show ?thesis using Cons True by (simp add: poll_loop.simps [of r d m])
  next
    case False
    then show ?thesis
      using Poll_progress [OF False, of m] by (cases "Poll r d m") (auto simp: poll_loop.simps [of r d m])
  qed
qed
end
