(* ===== verification/LanIdentity.thy ===== *)
theory LanIdentity
  imports GoText GoBase64
begin

text \<open>
  Device identities and signed registrations of the LAN product, \<^verbatim>\<open>internal/lan/identity.go\<close> and
  \<^verbatim>\<open>internal/lan/signature.go\<close>.  Ed25519 is an argument: the three operations of the record
  \<open>ed25519\<close>, with the correctness of signatures (\<open>ed25519_correct\<close>) as the one law a theorem uses.
  Files, the operating system's random source and JSON are outside the model.
\<close>

record ed25519 =
  ed_Sign :: "bytes \<Rightarrow> bytes \<Rightarrow> bytes"
  ed_Verify :: "bytes \<Rightarrow> bytes \<Rightarrow> bytes \<Rightarrow> bool"
  ed_Public :: "bytes \<Rightarrow> bytes"

definition PrivateKeySize :: nat where "PrivateKeySize = 64"

definition PublicKeySize :: nat where "PublicKeySize = 32"

definition SignatureSize :: nat where "SignatureSize = 64"

definition IdentityKeyAlgorithm :: string where "IdentityKeyAlgorithm = ''ed25519''"

record Identity =
  id_Algorithm :: string
  id_PrivateKey :: string
  id_PublicKey :: string

datatype identity_error =
    UnsupportedAlgorithm string
  | InvalidPrivateKey
  | InvalidPublicKey
  | KeyMismatch
  | InvalidSignature
  | BadSignature
  | KeyGeneration string

definition GenerateIdentity :: "string + bytes \<times> bytes \<Rightarrow> identity_error + Identity" where
  "GenerateIdentity generated =
     (case generated of
        Inl err \<Rightarrow> Inl (KeyGeneration err)
      | Inr (pub, priv) \<Rightarrow>
          Inr \<lparr>id_Algorithm = IdentityKeyAlgorithm, id_PrivateKey = EncodeToString priv,
               id_PublicKey = EncodeToString pub\<rparr>)"

definition ValidateIdentity :: "ed25519 \<Rightarrow> Identity \<Rightarrow> identity_error option" where
  "ValidateIdentity ed i =
     (if id_Algorithm i \<noteq> IdentityKeyAlgorithm then Some (UnsupportedAlgorithm (id_Algorithm i))
      else (case DecodeString (id_PrivateKey i) of
              None \<Rightarrow> Some InvalidPrivateKey
            | Some priv \<Rightarrow>
                if length priv \<noteq> PrivateKeySize then Some InvalidPrivateKey
                else (case DecodeString (id_PublicKey i) of
                        None \<Rightarrow> Some InvalidPublicKey
                      | Some pub \<Rightarrow>
                          if length pub \<noteq> PublicKeySize then Some InvalidPublicKey
                          else if ed_Public ed priv \<noteq> pub then Some KeyMismatch
                          else None)))"

definition RegisterTranscriptPayload :: "string \<Rightarrow> string \<Rightarrow> string \<Rightarrow> int \<Rightarrow> string \<Rightarrow> bytes" where
  "RegisterTranscriptPayload from peer profile ts payload =
     (let parts = [''udp-tunnel-lan/register/v1'', TrimSpace from, TrimSpace peer, TrimSpace profile,
                   FormatInt ts, TrimSpace payload]
      in bytes_of (Join parts [char_of (10 :: nat)]))"

definition RegisterTranscript :: "string \<Rightarrow> string \<Rightarrow> string \<Rightarrow> int \<Rightarrow> bytes" where
  "RegisterTranscript from peer profile ts = RegisterTranscriptPayload from peer profile ts ''''"

definition SignRegisterPayload ::
  "ed25519 \<Rightarrow> Identity \<Rightarrow> string \<Rightarrow> string \<Rightarrow> string \<Rightarrow> int \<Rightarrow> string \<Rightarrow> identity_error + string"
where
  "SignRegisterPayload ed i from peer profile ts payload =
     (case DecodeString (id_PrivateKey i) of
        None \<Rightarrow> Inl InvalidPrivateKey
      | Some priv \<Rightarrow>
          if length priv \<noteq> PrivateKeySize then Inl InvalidPrivateKey
          else Inr (EncodeToString (ed_Sign ed priv (RegisterTranscriptPayload from peer profile ts payload))))"

definition SignRegister ::
  "ed25519 \<Rightarrow> Identity \<Rightarrow> string \<Rightarrow> string \<Rightarrow> string \<Rightarrow> int \<Rightarrow> identity_error + string"
where
  "SignRegister ed i from peer profile ts = SignRegisterPayload ed i from peer profile ts ''''"

definition VerifyRegisterPayload ::
  "ed25519 \<Rightarrow> string \<Rightarrow> string \<Rightarrow> string \<Rightarrow> string \<Rightarrow> int \<Rightarrow> string \<Rightarrow> string \<Rightarrow> identity_error option"
where
  "VerifyRegisterPayload ed publicKey from peer profile ts payload signature =
     (case DecodeString publicKey of
        None \<Rightarrow> Some InvalidPublicKey
      | Some pubRaw \<Rightarrow>
          if length pubRaw \<noteq> PublicKeySize then Some InvalidPublicKey
          else (case DecodeString signature of
                  None \<Rightarrow> Some InvalidSignature
                | Some sigRaw \<Rightarrow>
                    if length sigRaw \<noteq> SignatureSize then Some InvalidSignature
                    else if \<not> ed_Verify ed pubRaw (RegisterTranscriptPayload from peer profile ts payload) sigRaw
                    then Some BadSignature
                    else None))"

definition VerifyRegister ::
  "ed25519 \<Rightarrow> string \<Rightarrow> string \<Rightarrow> string \<Rightarrow> string \<Rightarrow> int \<Rightarrow> string \<Rightarrow> identity_error option"
where
  "VerifyRegister ed publicKey from peer profile ts signature =
     VerifyRegisterPayload ed publicKey from peer profile ts '''' signature"

subsection \<open>Properties\<close>

definition ed25519_correct :: "ed25519 \<Rightarrow> bool" where
  "ed25519_correct ed \<longleftrightarrow> (\<forall>priv m. length priv = PrivateKeySize \<longrightarrow>
     length (ed_Sign ed priv m) = SignatureSize \<and> ed_Verify ed (ed_Public ed priv) m (ed_Sign ed priv m))"

text \<open>A registration signed with a valid identity verifies against the identity's public key, for
  the same device, peer, profile, time and payload.\<close>

theorem SignRegister_verifies:
  assumes "ed25519_correct ed" "ValidateIdentity ed i = None"
  shows "\<exists>sig. SignRegisterPayload ed i from peer profile ts payload = Inr sig
    \<and> VerifyRegisterPayload ed (id_PublicKey i) from peer profile ts payload sig = None"
proof -
  obtain priv where "DecodeString (id_PrivateKey i) = Some priv" "length priv = PrivateKeySize"
    "DecodeString (id_PublicKey i) = Some (ed_Public ed priv)" "length (ed_Public ed priv) = PublicKeySize"
    using assms(2) by (auto simp: ValidateIdentity_def split: if_splits option.splits)
  then show ?thesis
    using assms(1) by (simp add: SignRegisterPayload_def VerifyRegisterPayload_def ed25519_correct_def)
qed

definition toy_ed25519 :: ed25519 where
  "toy_ed25519 = \<lparr>ed_Sign = \<lambda>priv m. replicate 64 (sum_list m + sum_list (take 32 priv)),
     ed_Verify = \<lambda>pub m sig. sig = replicate 64 (sum_list m + sum_list pub),
     ed_Public = \<lambda>priv. take 32 priv\<rparr>"

definition toy_identity :: Identity where
  "toy_identity = \<lparr>id_Algorithm = IdentityKeyAlgorithm, id_PrivateKey = EncodeToString (replicate 64 1),
     id_PublicKey = EncodeToString (replicate 32 1)\<rparr>"

lemma toy_correct: "ed25519_correct toy_ed25519" "ValidateIdentity toy_ed25519 toy_identity = None"
  by (simp_all add: ed25519_correct_def toy_ed25519_def ValidateIdentity_def toy_identity_def
      PrivateKeySize_def PublicKeySize_def SignatureSize_def del: EncodeToString.simps)

theorem SignRegister_verifies_witness:
  "\<exists>sig. SignRegisterPayload toy_ed25519 toy_identity ''a'' ''b'' ''lan-packet'' 1700000000 ''k'' = Inr sig
    \<and> VerifyRegisterPayload toy_ed25519 (id_PublicKey toy_identity) ''a'' ''b'' ''lan-packet'' 1700000000 ''k'' sig = None"
  by (rule SignRegister_verifies [OF toy_correct])

definition one_line :: "string \<Rightarrow> bool" where
  "one_line s \<longleftrightarrow> char_of (10 :: nat) \<notin> set (TrimSpace s)"

lemma one_line_FormatInt: "char_of (10 :: nat) \<notin> set (FormatInt ts)"
proof -
  have "\<not> is_digit (char_of (10 :: nat))" by (simp add: is_digit_def)
  then have "char_of (10 :: nat) \<notin> set (dec_nat n)" for n using dec_nat_not_sign by blast
  moreover have "char_of (10 :: nat) \<noteq> CHR ''-''" by (simp add: char_of_def)
  ultimately show ?thesis by (simp add: FormatInt_def)
qed

text \<open>A signature binds every field of the registration: for fields that are single lines once
  trimmed, equal transcripts mean equal device, peer, profile, time and payload, up to
  surrounding white space.\<close>

theorem RegisterTranscript_inject:
  assumes "one_line from" "one_line peer" "one_line profile" "one_line payload"
    and "one_line from'" "one_line peer'" "one_line profile'" "one_line payload'"
    and "RegisterTranscriptPayload from peer profile ts payload = RegisterTranscriptPayload from' peer' profile' ts' payload'"
  shows "TrimSpace from = TrimSpace from' \<and> TrimSpace peer = TrimSpace peer' \<and> TrimSpace profile = TrimSpace profile'
    \<and> ts = ts' \<and> TrimSpace payload = TrimSpace payload'"
proof -
  let ?nl = "char_of (10 :: nat) :: char"
  let ?a = "[''udp-tunnel-lan/register/v1'', TrimSpace from, TrimSpace peer, TrimSpace profile, FormatInt ts, TrimSpace payload]"
  let ?b = "[''udp-tunnel-lan/register/v1'', TrimSpace from', TrimSpace peer', TrimSpace profile', FormatInt ts', TrimSpace payload']"
  have pre: "?nl \<notin> set ''udp-tunnel-lan/register/v1''" by (simp add: char_of_def)
  have "Join ?a [?nl] = Join ?b [?nl]"
    using assms(9) by (simp only: RegisterTranscriptPayload_def Let_def bytes_of_inject)
  moreover have "\<forall>s \<in> set ?a. ?nl \<notin> set s" "\<forall>s \<in> set ?b. ?nl \<notin> set s"
    using assms(1-8) pre one_line_FormatInt by (auto simp: one_line_def)
  ultimately have "?a = ?b" by (intro Join_inject [of ?a ?b ?nl]) simp_all
  then show ?thesis by (simp add: FormatInt_inject)
qed

theorem RegisterTranscript_inject_witness:
  "one_line ''a'' \<and> one_line ''b'' \<and> one_line ''p''
   \<and> (RegisterTranscriptPayload ''a'' ''b'' ''p'' 7 ''p'' = RegisterTranscriptPayload ''a'' ''b'' ''p'' 7 ''p''
      \<and> TrimSpace ''b'' = ''b'')"
proof -
  have l: "one_line ''a''" "one_line ''b''" "one_line ''p''"
    by (simp_all add: one_line_def TrimSpace_plain plain_char_def char_of_def)
  show ?thesis
    using RegisterTranscript_inject [OF l(1) l(2) l(3) l(3) l(1) l(2) l(3) l(3), of 7 7] l
    by (simp add: TrimSpace_plain plain_char_def)
qed

end
