(* ===== verification/Protocol.thy ===== *)
theory Protocol
  imports Prelude
begin

text \<open>
  The control messages between agents and server, \<^verbatim>\<open>internal/protocol/protocol.go\<close>: one record for all
  kinds, and the kinds.  Their JSON encoding is the standard library's, so decoding is an argument of
  the operations that receive messages.
\<close>

record Message =
  msg_Type :: string
  msg_From :: string
  msg_Name :: string
  msg_Peer :: string
  msg_Profile :: string
  msg_Addr :: string
  msg_UpnpAddr :: string
  msg_Payload :: string
  msg_Timestamp :: int
  msg_Signature :: string

definition no_message :: Message where
  "no_message = \<lparr>msg_Type = '''', msg_From = '''', msg_Name = '''', msg_Peer = '''', msg_Profile = '''',
     msg_Addr = '''', msg_UpnpAddr = '''', msg_Payload = '''', msg_Timestamp = 0, msg_Signature = ''''\<rparr>"

definition MsgRegister :: string where "MsgRegister = ''register''"

definition MsgPeerInfo :: string where "MsgPeerInfo = ''peer''"

definition MsgStunReq :: string where "MsgStunReq = ''stunq''"

definition MsgStunResp :: string where "MsgStunResp = ''stunr''"

definition MsgLANRegister :: string where "MsgLANRegister = ''lan_register''"

definition MsgPunch :: string where "MsgPunch = ''punch''"

definition MsgPunchAck :: string where "MsgPunchAck = ''punchack''"

definition MsgData :: string where "MsgData = ''data''"

definition MsgKeepAlive :: string where "MsgKeepAlive = ''ka''"
end
