(* ===== verification/Rendezvous.thy ===== *)
theory Rendezvous
  imports Machine StoreTypes Transport LanIdentity Protocol
begin

text \<open>
  The rendezvous server, \<^verbatim>\<open>internal/server/udp.go\<close> with the types of \<^verbatim>\<open>server.go\<close> and the helpers of
  \<^verbatim>\<open>util.go\<close>: registration and pairing of peers, the relay between paired addresses, the relay of
  LAN frames, the dispatch of datagrams and the expiry of peers and routes.

  \<^item> An address is the text of \<^verbatim>\<open>UDPAddr.String()\<close>: the code only compares addresses in this form,
    uses it as a key, or writes to the address.
  \<^item> What a handler sends is its list of outputs.  \<open>Sealed\<close> and \<open>Plain\<close> are control messages with
    and without the PSK frame around them, \<open>Raw\<close> is a forwarded datagram.
  \<^item> The database is a parameter: \<open>'db\<close> is its state and the record \<open>db_api\<close> has the operations of
    \<^verbatim>\<open>controlstore.Store\<close> the code calls here.  JSON decoding and the success of a socket write are
    arguments as well.
  \<^item> The clock is read once per operation (\<open>now\<close>); the code reads it once or more within one call.
\<close>

subsection \<open>Data\<close>

record peer =
  peer_id :: string
  peer_addr :: string
  peer_upnpAddr :: string
  peer_lanKey :: string
  peer_want :: string
  peer_profile :: string
  peer_lastSeen :: time
  peer_sessionID :: int

record pairRoute =
  route_dst :: string
  route_lastSeen :: time
  route_sessionID :: int

record server_cfg =
  cfg_PeerTTL :: duration
  cfg_PairTTL :: duration
  cfg_RelayIdleTimeout :: duration
  cfg_AllowRelay :: bool
  cfg_LANAllowRelay :: bool
  cfg_AllowLegacy :: bool

record 'db db_api =
  db_UpsertDevice :: "string \<Rightarrow> string \<Rightarrow> string \<Rightarrow> string \<Rightarrow> string \<Rightarrow> bool \<Rightarrow> 'db \<Rightarrow> 'db"
  db_GetVirtualDeviceKey :: "string \<Rightarrow> 'db \<Rightarrow> string + VirtualDeviceKey"
  db_StartSession :: "string \<Rightarrow> string \<Rightarrow> string \<Rightarrow> string \<Rightarrow> 'db \<Rightarrow> 'db \<times> (string + int)"
  db_TouchSession :: "int \<Rightarrow> int \<Rightarrow> 'db \<Rightarrow> 'db"
  db_MarkOfflineBefore :: "time \<Rightarrow> 'db \<Rightarrow> 'db"
  db_EndIdleSessions :: "time \<Rightarrow> 'db \<Rightarrow> 'db"

type_synonym peer_table = "(string \<times> (string \<times> peer) list) list"

record 'db App =
  app_cfg :: server_cfg
  app_db :: 'db
  app_codec :: "SecureCodec option"
  app_totalRegister :: uint64
  app_totalPaired :: uint64
  app_totalRelayed :: uint64
  app_peers :: peer_table
  app_pairByID :: "string \<rightharpoonup> int"
  app_pairs :: "(string \<times> pairRoute) list"
  app_lanPeers :: peer_table

datatype sent =
    Sealed string Message
  | Plain string Message
  | Raw string bytes

subsection \<open>Keys and lookups\<close>

definition normalizeRegisterProfile :: "string \<Rightarrow> string" where
  "normalizeRegisterProfile profile =
     (if NormalizeProfile profile = ProfileLANPacket then ProfileLANPacket else NormalizeProfile profile)"

definition peerSlotKey :: "string \<Rightarrow> string \<Rightarrow> string" where
  "peerSlotKey want profile = want @ [CHR 0x00] @ normalizeRegisterProfile profile"

definition pairKey :: "string \<Rightarrow> string \<Rightarrow> string \<Rightarrow> string" where
  "pairKey a b profile =
     (if a < b then a @ [CHR 0x00] @ b @ [CHR 0x00] @ NormalizeProfile profile
      else b @ [CHR 0x00] @ a @ [CHR 0x00] @ NormalizeProfile profile)"

definition slots_of :: "peer_table \<Rightarrow> string \<Rightarrow> (string \<times> peer) list" where
  "slots_of t from = (case map_of t from of None \<Rightarrow> [] | Some byWant \<Rightarrow> byWant)"

definition put_peer :: "peer_table \<Rightarrow> string \<Rightarrow> string \<Rightarrow> peer \<Rightarrow> peer_table" where
  "put_peer t from slot p = AList.update from (AList.update slot p (slots_of t from)) t"

definition lookupPeer :: "'db App \<Rightarrow> string \<Rightarrow> string \<Rightarrow> string \<Rightarrow> peer option" where
  "lookupPeer a from want profile =
     (case map_of (app_peers a) from of
        None \<Rightarrow> None
      | Some byWant \<Rightarrow> map_of byWant (peerSlotKey want profile))"

definition lookupLANPeerLocked :: "'db App \<Rightarrow> string \<Rightarrow> string \<Rightarrow> string \<Rightarrow> peer option" where
  "lookupLANPeerLocked a from want profile =
     (case map_of (app_lanPeers a) from of
        None \<Rightarrow> None
      | Some byWant \<Rightarrow> map_of byWant (peerSlotKey want profile))"

subsection \<open>Sending\<close>

definition writeControl :: "'db App \<Rightarrow> string \<Rightarrow> Message \<Rightarrow> sent" where
  "writeControl a dst msg = (if app_codec a \<noteq> None then Sealed dst msg else Plain dst msg)"

definition peer_info :: "peer \<Rightarrow> peer \<Rightarrow> Message" where
  "peer_info to about = no_message\<lparr>msg_Type := MsgPeerInfo, msg_Peer := peer_id about,
     msg_Profile := peer_profile to, msg_Addr := peer_addr about, msg_UpnpAddr := peer_upnpAddr about,
     msg_Payload := peer_lanKey about\<rparr>"

definition sendPeer :: "'db App \<Rightarrow> peer \<Rightarrow> peer \<Rightarrow> sent" where
  "sendPeer a to about = writeControl a (peer_addr to) (peer_info to about)"

definition sendLANPeer :: "peer \<Rightarrow> peer \<Rightarrow> sent" where
  "sendLANPeer to about = Plain (peer_addr to) (peer_info to about)"

subsection \<open>Registration\<close>

definition ensurePairSession ::
  "'db db_api \<Rightarrow> 'db App \<Rightarrow> string \<Rightarrow> string \<Rightarrow> string \<Rightarrow> string \<Rightarrow> 'db App \<times> int"
where
  "ensurePairSession db a aID bID profile path =
     (let key = pairKey aID bID profile in
      case app_pairByID a key of
        Some i \<Rightarrow> (a, i)
      | None \<Rightarrow>
          (case db_StartSession db aID bID profile path (app_db a) of
             (d, Inl err) \<Rightarrow> (a\<lparr>app_db := d\<rparr>, 0)
           | (d, Inr i) \<Rightarrow> (a\<lparr>app_db := d, app_pairByID := (app_pairByID a)(key \<mapsto> i)\<rparr>, i)))"

definition store_pair :: "'db App \<Rightarrow> time \<Rightarrow> peer \<Rightarrow> peer \<Rightarrow> int \<Rightarrow> 'db App" where
  "store_pair a now self other sid =
     (let pairs = AList.update (peer_addr self)
            \<lparr>route_dst = peer_addr other, route_lastSeen = now, route_sessionID = sid\<rparr> (app_pairs a);
          pairs = AList.update (peer_addr other)
            \<lparr>route_dst = peer_addr self, route_lastSeen = now, route_sessionID = sid\<rparr> pairs
      in a\<lparr>app_pairs := pairs\<rparr>)"

definition handleRegister ::
  "'db db_api \<Rightarrow> 'db App \<Rightarrow> time \<Rightarrow> string \<Rightarrow> Message \<Rightarrow> 'db App \<times> sent list"
where
  "handleRegister db a now src msg =
     (let profile = normalizeRegisterProfile (msg_Profile msg);
          a = a\<lparr>app_totalRegister := app_totalRegister a + 1,
                app_db := db_UpsertDevice db (msg_From msg) (msg_Name msg) src (msg_UpnpAddr msg) (msg_Peer msg) True (app_db a)\<rparr>;
          slot = peerSlotKey (msg_Peer msg) profile;
          a = (case map_of (slots_of (app_peers a) (msg_From msg)) slot of
                 None \<Rightarrow> a
               | Some old \<Rightarrow> if peer_addr old \<noteq> src then a\<lparr>app_pairs := AList.delete (peer_addr old) (app_pairs a)\<rparr> else a);
          self = \<lparr>peer_id = msg_From msg, peer_addr = src, peer_upnpAddr = msg_UpnpAddr msg, peer_lanKey = '''',
                  peer_want = msg_Peer msg, peer_profile = profile, peer_lastSeen = now, peer_sessionID = 0\<rparr>;
          a = a\<lparr>app_peers := put_peer (app_peers a) (msg_From msg) slot self\<rparr>
      in case lookupPeer a (msg_Peer msg) (msg_From msg) profile of
           None \<Rightarrow> (a, [])
         | Some other \<Rightarrow>
             let out = [sendPeer a self other, sendPeer a other self];
                 (a, sid) = ensurePairSession db a (peer_id self) (peer_id other) profile ''pending'';
                 a = a\<lparr>app_peers := put_peer (app_peers a) (msg_From msg) slot (self\<lparr>peer_sessionID := sid\<rparr>)\<rparr>;
                 a = a\<lparr>app_peers := put_peer (app_peers a) (msg_Peer msg) (peerSlotKey (msg_From msg) profile)
                                      (other\<lparr>peer_sessionID := sid\<rparr>)\<rparr>;
                 a = store_pair a now self other sid
             in (a\<lparr>app_totalPaired := app_totalPaired a + 1\<rparr>, out))"

text \<open>\<^verbatim>\<open>time.Unix(sec, 0)\<close>, counted from Go's zero time.\<close>

definition time_Unix :: "int \<Rightarrow> time" where
  "time_Unix sec = (sec + 62135596800) * Second"

definition lan_register_accepted :: "ed25519 \<Rightarrow> 'db db_api \<Rightarrow> 'db \<Rightarrow> time \<Rightarrow> Message \<Rightarrow> bool" where
  "lan_register_accepted ed db d now msg =
     (let profile = normalizeRegisterProfile (msg_Profile msg) in
      if profile \<noteq> ProfileLANPacket \<or> msg_From msg = '''' \<or> msg_Peer msg = '''' \<or> msg_Signature msg = '''' then False
      else (case db_GetVirtualDeviceKey db (msg_From msg) d of
              Inl err \<Rightarrow> False
            | Inr key \<Rightarrow>
                if vk_Algorithm key \<noteq> IdentityKeyAlgorithm then False
                else if VerifyRegisterPayload ed (vk_PublicKey key) (msg_From msg) (msg_Peer msg) profile
                          (msg_Timestamp msg) (msg_Payload msg) (msg_Signature msg) \<noteq> None then False
                else
                  let age = time_Sub now (time_Unix (msg_Timestamp msg))
                  in \<not> (5 * Minute < age \<or> age < - 5 * Minute)))"

definition handleLANRegister ::
  "ed25519 \<Rightarrow> 'db db_api \<Rightarrow> 'db App \<Rightarrow> time \<Rightarrow> string \<Rightarrow> Message \<Rightarrow> 'db App \<times> sent list"
where
  "handleLANRegister ed db a now src msg =
     (if \<not> lan_register_accepted ed db (app_db a) now msg then (a, [])
      else
        let profile = normalizeRegisterProfile (msg_Profile msg);
            a = a\<lparr>app_db := db_UpsertDevice db (msg_From msg) (msg_Name msg) src (msg_UpnpAddr msg) (msg_Peer msg) True (app_db a)\<rparr>;
            slot = peerSlotKey (msg_Peer msg) profile;
            a = (case map_of (slots_of (app_lanPeers a) (msg_From msg)) slot of
                   None \<Rightarrow> a
                 | Some old \<Rightarrow> if peer_addr old \<noteq> src then a\<lparr>app_pairs := AList.delete (peer_addr old) (app_pairs a)\<rparr> else a);
            self = \<lparr>peer_id = msg_From msg, peer_addr = src, peer_upnpAddr = msg_UpnpAddr msg, peer_lanKey = msg_Payload msg,
                    peer_want = msg_Peer msg, peer_profile = profile, peer_lastSeen = now, peer_sessionID = 0\<rparr>;
            a = a\<lparr>app_lanPeers := put_peer (app_lanPeers a) (msg_From msg) slot self\<rparr>
        in case lookupLANPeerLocked a (msg_Peer msg) (msg_From msg) profile of
             None \<Rightarrow> (a, [])
           | Some other \<Rightarrow>
               let out = [sendLANPeer self other, sendLANPeer other self];
                   (a, sid) = ensurePairSession db a (peer_id self) (peer_id other) profile ''pending'';
                   a = a\<lparr>app_lanPeers := put_peer (app_lanPeers a) (msg_From msg) slot (self\<lparr>peer_sessionID := sid\<rparr>)\<rparr>;
                   a = a\<lparr>app_lanPeers := put_peer (app_lanPeers a) (msg_Peer msg) (peerSlotKey (msg_From msg) profile)
                                           (other\<lparr>peer_sessionID := sid\<rparr>)\<rparr>;
                   a = store_pair a now self other sid
               in (a, out))"

subsection \<open>Relaying and dispatch\<close>

text \<open>\<open>secure_open\<close> is \<^verbatim>\<open>Codec.Open\<close> of the PSK frames, which answers on every input.\<close>

definition secure_open :: "SecureCodec option \<Rightarrow> bytes \<Rightarrow> secure_error + byte \<times> bytes" where
  "secure_open c data = the (SecureCodec_Open c data)"

definition starts_json :: "bytes \<Rightarrow> bool" where
  "starts_json data \<longleftrightarrow> 0 < length data \<and> data ! 0 = of_char CHR ''{''"

text \<open>The first LAN peer, in the order of the maps, whose device id is the destination.\<close>

definition find_lan_peer :: "peer_table \<Rightarrow> string \<Rightarrow> peer option" where
  "find_lan_peer t device = find (\<lambda>p. peer_id p = device) (concat (map (\<lambda>(from, byWant). map snd byWant) t))"

definition handleLANUDPRelay ::
  "(string \<Rightarrow> bool) \<Rightarrow> 'db App \<Rightarrow> bytes \<Rightarrow> 'db App \<times> sent list \<times> bool"
where
  "handleLANUDPRelay writable a data =
     (if \<not> IsRelayFrame data then (a, [], False)
      else if \<not> cfg_LANAllowRelay (app_cfg a) then (a, [], True)
      else (case unpack_relay data of
              Inl err \<Rightarrow> (a, [], True)
            | Inr frame \<Rightarrow>
                (case find_lan_peer (app_lanPeers a) (rl_DstDevice frame) of
                   None \<Rightarrow> (a, [], True)
                 | Some p \<Rightarrow>
                     if \<not> writable (peer_addr p) then (a, [], True)
                     else (a\<lparr>app_totalRelayed := app_totalRelayed a + of_nat (length (rl_Payload frame))\<rparr>,
                           [Raw (peer_addr p) data], True))))"

definition handleRelay ::
  "'db db_api \<Rightarrow> (string \<Rightarrow> bool) \<Rightarrow> 'db App \<Rightarrow> time \<Rightarrow> string \<Rightarrow> bytes \<Rightarrow> 'db App \<times> sent list \<times> bool"
where
  "handleRelay db writable a now src data =
     (if \<not> cfg_AllowRelay (app_cfg a) then (a, [], False)
      else
        let opened = secure_open (app_codec a) data;
            framed = secure_IsFrame data \<and> app_codec a \<noteq> None in
        if framed \<and> isl opened then (a, [], True)
        else
          let isKCP = (if framed then fst (projr opened) = KindKCP else \<not> starts_json data) in
          if \<not> isKCP then (a, [], False)
          else (case map_of (app_pairs a) src of
                  None \<Rightarrow> (a, [], False)
                | Some route \<Rightarrow>
                    if writable (route_dst route) then
                      (a\<lparr>app_totalRelayed := app_totalRelayed a + of_nat (length data),
                         app_db := db_TouchSession db (route_sessionID route) (int (length data)) (app_db a),
                         app_pairs := AList.update src (route\<lparr>route_lastSeen := now\<rparr>) (app_pairs a)\<rparr>,
                       [Raw (route_dst route) data], True)
                    else (a, [], True)))"

definition openPacket :: "'db App \<Rightarrow> bytes \<Rightarrow> (byte \<times> bytes) option" where
  "openPacket a data =
     (if secure_IsFrame data then
        if app_codec a = None then None
        else (case secure_open (app_codec a) data of Inl err \<Rightarrow> None | Inr r \<Rightarrow> Some r)
      else if cfg_AllowLegacy (app_cfg a) \<and> starts_json data then Some (KindControl, data)
      else None)"

definition stun_response :: "string \<Rightarrow> Message" where
  "stun_response src = no_message\<lparr>msg_Type := MsgStunResp, msg_Addr := src\<rparr>"

text \<open>One iteration of the loop of \<^verbatim>\<open>runUDP\<close>; \<open>decode\<close> is \<^verbatim>\<open>protocol.Decode\<close>.\<close>

definition runUDP_step ::
  "ed25519 \<Rightarrow> 'db db_api \<Rightarrow> (bytes \<Rightarrow> string + Message) \<Rightarrow> (string \<Rightarrow> bool) \<Rightarrow> 'db App \<Rightarrow> time \<Rightarrow> string \<Rightarrow> bytes \<Rightarrow>
     'db App \<times> sent list"
where
  "runUDP_step ed db decode writable a now src data =
     (let (a, out, handled) = handleLANUDPRelay writable a data in
      if handled then (a, out)
      else
        let (a, out, handled) = handleRelay db writable a now src data in
        if handled then (a, out)
        else (case openPacket a data of
                None \<Rightarrow>
                  (case decode data of
                     Inl err \<Rightarrow> (a, [])
                   | Inr msg \<Rightarrow>
                       if msg_Type msg = MsgLANRegister then handleLANRegister ed db a now src msg
                       else if msg_Type msg = MsgStunReq then (a, [Plain src (stun_response src)])
                       else (a, []))
              | Some (kind, payload) \<Rightarrow>
                  if kind \<noteq> KindControl then (a, [])
                  else (case decode payload of
                          Inl err \<Rightarrow> (a, [])
                        | Inr msg \<Rightarrow>
                            if msg_Type msg = MsgStunReq then (a, [writeControl a src (stun_response src)])
                            else if msg_Type msg = MsgRegister then handleRegister db a now src msg
                            else if msg_Type msg = MsgLANRegister then handleLANRegister ed db a now src msg
                            else (a, []))))"

definition runStunAlt_step ::
  "(bytes \<Rightarrow> string + Message) \<Rightarrow> 'db App \<Rightarrow> string \<Rightarrow> bytes \<Rightarrow> sent list"
where
  "runStunAlt_step decode a src data =
     (if (case decode data of Inl err \<Rightarrow> False | Inr msg \<Rightarrow> msg_Type msg = MsgStunReq)
      then [Plain src (stun_response src)]
      else (case openPacket a data of
              None \<Rightarrow> []
            | Some (kind, payload) \<Rightarrow>
                if kind \<noteq> KindControl then []
                else (case decode payload of
                        Inl err \<Rightarrow> []
                      | Inr msg \<Rightarrow> if msg_Type msg \<noteq> MsgStunReq then [] else [writeControl a src (stun_response src)])))"

subsection \<open>Expiry\<close>

fun expire_slots ::
  "duration \<Rightarrow> time \<Rightarrow> (string \<times> peer) list \<Rightarrow> (string \<times> pairRoute) list \<Rightarrow>
     (string \<times> peer) list \<times> (string \<times> pairRoute) list"
where
  "expire_slots ttl now [] pairs = ([], pairs)"
| "expire_slots ttl now ((want, p) # rest) pairs =
     (if ttl < time_Sub now (peer_lastSeen p) then expire_slots ttl now rest (AList.delete (peer_addr p) pairs)
      else let (rest, pairs) = expire_slots ttl now rest pairs in ((want, p) # rest, pairs))"

fun expire_peers ::
  "duration \<Rightarrow> time \<Rightarrow> peer_table \<Rightarrow> (string \<times> pairRoute) list \<Rightarrow> peer_table \<times> (string \<times> pairRoute) list"
where
  "expire_peers ttl now [] pairs = ([], pairs)"
| "expire_peers ttl now ((from, byWant) # rest) pairs =
     (let (byWant, pairs) = expire_slots ttl now byWant pairs;
          (rest, pairs) = expire_peers ttl now rest pairs
      in (if length byWant = 0 then rest else (from, byWant) # rest, pairs))"

definition cleanupExpiredPeers :: "'db App \<Rightarrow> time \<Rightarrow> 'db App" where
  "cleanupExpiredPeers a now =
     (let ttl = cfg_PeerTTL (app_cfg a);
          (peers, pairs) = expire_peers ttl now (app_peers a) (app_pairs a);
          (lanPeers, pairs) = expire_peers ttl now (app_lanPeers a) pairs
      in a\<lparr>app_peers := peers, app_lanPeers := lanPeers, app_pairs := pairs\<rparr>)"

definition cleanupLoop_tick :: "'db db_api \<Rightarrow> 'db App \<Rightarrow> time \<Rightarrow> 'db App" where
  "cleanupLoop_tick db a now =
     (let peerTTL = cfg_PeerTTL (app_cfg a); pairTTL = cfg_PairTTL (app_cfg a);
          relayIdle = cfg_RelayIdleTimeout (app_cfg a);
          a = cleanupExpiredPeers a now;
          a = a\<lparr>app_pairs := filter (\<lambda>(key, route). \<not> pairTTL < time_Sub now (route_lastSeen route)) (app_pairs a)\<rparr>
      in a\<lparr>app_db := db_EndIdleSessions db (now - relayIdle) (db_MarkOfflineBefore db (now - peerTTL) (app_db a))\<rparr>)"

section \<open>The peer tables\<close>

definition peer_at :: "peer_table \<Rightarrow> string \<Rightarrow> string \<Rightarrow> peer option" where
  "peer_at t from slot = map_of (slots_of t from) slot"

definition slots_ok :: "string \<Rightarrow> (string \<times> peer) list \<Rightarrow> bool" where
  "slots_ok from byWant \<longleftrightarrow> byWant \<noteq> [] \<and> keys_distinct byWant
     \<and> list_all (\<lambda>(slot, p). peer_id p = from \<and> slot = peerSlotKey (peer_want p) (peer_profile p)) byWant"

definition table_ok :: "peer_table \<Rightarrow> bool" where
  "table_ok t \<longleftrightarrow> keys_distinct t \<and> list_all (\<lambda>(from, byWant). slots_ok from byWant) t"
lemma lookup_peer_at:
  "lookupPeer a from want profile = peer_at (app_peers a) from (peerSlotKey want profile)"
  "lookupLANPeerLocked a from want profile = peer_at (app_lanPeers a) from (peerSlotKey want profile)"
  by (simp_all add: lookupPeer_def lookupLANPeerLocked_def peer_at_def slots_of_def split: option.split)

lemma slots_of_put: "slots_of (put_peer t from slot p) g = (if g = from then AList.update slot p (slots_of t from) else slots_of t g)"
  by (simp add: put_peer_def slots_of_def [of "AList.update _ _ _"] update_conv) (simp add: slots_of_def)

lemma peer_at_put [simp]:
  "peer_at (put_peer t from slot p) g s = (if g = from \<and> s = slot then Some p else peer_at t g s)"
  by (simp add: peer_at_def slots_of_put update_conv)

lemma table_okD:
  assumes "table_ok t" "(from, byWant) \<in> set t"
  shows "byWant \<noteq> []" "keys_distinct byWant"
    and "(slot, p) \<in> set byWant \<Longrightarrow> peer_id p = from \<and> slot = peerSlotKey (peer_want p) (peer_profile p)"
  using assms by (auto simp: table_ok_def slots_ok_def list_all_iff)

lemma slots_of_ok:
  assumes "table_ok t"
  shows "keys_distinct (slots_of t from)"
    and "(slot, p) \<in> set (slots_of t from) \<Longrightarrow> peer_id p = from \<and> slot = peerSlotKey (peer_want p) (peer_profile p)"
proof -
  have "keys_distinct (slots_of t from) \<and>
      ((slot, p) \<in> set (slots_of t from) \<longrightarrow> peer_id p = from \<and> slot = peerSlotKey (peer_want p) (peer_profile p))"
  proof (cases "map_of t from")
    case (Some byWant)
    then show ?thesis using table_okD [OF assms map_of_SomeD [OF Some]] by (simp add: slots_of_def)
  qed (simp add: slots_of_def)
  then show "keys_distinct (slots_of t from)"
    "(slot, p) \<in> set (slots_of t from) \<Longrightarrow> peer_id p = from \<and> slot = peerSlotKey (peer_want p) (peer_profile p)" by blast+
qed

lemma peer_at_ok:
  "table_ok t \<Longrightarrow> peer_at t from slot = Some p \<Longrightarrow> peer_id p = from \<and> slot = peerSlotKey (peer_want p) (peer_profile p)"
  unfolding peer_at_def using slots_of_ok(2) by (metis map_of_SomeD)

lemma put_peer_ok:
  assumes "table_ok t" "peer_id p = from" "slot = peerSlotKey (peer_want p) (peer_profile p)"
  shows "table_ok (put_peer t from slot p)"
proof -
  let ?bw = "AList.update slot p (slots_of t from)"
  have kd: "keys_distinct t" using assms(1) by (simp add: table_ok_def)
  have bw: "?bw \<noteq> []" "keys_distinct ?bw"
    "\<And>s q. (s, q) \<in> set ?bw \<Longrightarrow> peer_id q = from \<and> s = peerSlotKey (peer_want q) (peer_profile q)"
    using slots_of_ok(1) [OF assms(1)] assms(2,3)
    by (auto simp: in_update split: if_splits dest: slots_of_ok(2) [OF assms(1)])
  have "slots_ok f b" if "(f, b) \<in> set (put_peer t from slot p)" for f b
  proof (cases "f = from")
    case True
    then have "b = ?bw" using that kd by (simp add: put_peer_def in_update)
    then show ?thesis using bw True by (auto simp: slots_ok_def list_all_iff)
  next
    case False
    then have "(f, b) \<in> set t" using that kd by (simp add: put_peer_def in_update)
    then show ?thesis using assms(1) by (auto simp: table_ok_def list_all_iff)
  qed
  moreover have "keys_distinct (put_peer t from slot p)" using kd by (simp add: put_peer_def)
  ultimately show ?thesis by (auto simp: table_ok_def list_all_iff)
qed
lemma table_ok_Nil [simp]: "table_ok []"
  by (simp add: table_ok_def)

section \<open>The registry invariant\<close>

definition registry_inv :: "'db App \<Rightarrow> bool" where
  "registry_inv a \<longleftrightarrow> table_ok (app_peers a) \<and> table_ok (app_lanPeers a) \<and> keys_distinct (app_pairs a)"

lemma ensurePairSession_keeps:
  assumes "ensurePairSession db a x y profile path = (a', sid)"
  shows "app_peers a' = app_peers a" "app_lanPeers a' = app_lanPeers a" "app_pairs a' = app_pairs a"
    "app_cfg a' = app_cfg a" "app_codec a' = app_codec a"
  using assms by (auto simp: ensurePairSession_def Let_def split: option.splits prod.splits sum.splits)

text \<open>The state of a registration after it has stored the new peer: shared by both registrations.\<close>

definition drop_old_route :: "peer_table \<Rightarrow> string \<Rightarrow> string \<Rightarrow> string \<Rightarrow> (string \<times> pairRoute) list \<Rightarrow> (string \<times> pairRoute) list" where
  "drop_old_route t from slot src pairs =
     (case peer_at t from slot of
        None \<Rightarrow> pairs
      | Some old \<Rightarrow> if peer_addr old \<noteq> src then AList.delete (peer_addr old) pairs else pairs)"

definition paired_routes :: "peer \<Rightarrow> peer \<Rightarrow> time \<Rightarrow> int \<Rightarrow> (string \<times> pairRoute) list \<Rightarrow> (string \<times> pairRoute) list" where
  "paired_routes self other now sid pairs =
     AList.update (peer_addr other) \<lparr>route_dst = peer_addr self, route_lastSeen = now, route_sessionID = sid\<rparr>
       (AList.update (peer_addr self) \<lparr>route_dst = peer_addr other, route_lastSeen = now, route_sessionID = sid\<rparr> pairs)"

lemma store_pair_eq: "store_pair a now self other sid = a\<lparr>app_pairs := paired_routes self other now sid (app_pairs a)\<rparr>"
  by (simp add: store_pair_def paired_routes_def Let_def)

definition registered :: "Message \<Rightarrow> string \<Rightarrow> string \<Rightarrow> time \<Rightarrow> peer" where
  "registered msg key src now = \<lparr>peer_id = msg_From msg, peer_addr = src, peer_upnpAddr = msg_UpnpAddr msg, peer_lanKey = key,
     peer_want = msg_Peer msg, peer_profile = normalizeRegisterProfile (msg_Profile msg), peer_lastSeen = now,
     peer_sessionID = 0\<rparr>"

text \<open>What a registration does to one peer table, to the routes, and the peer it was paired with.\<close>

definition register_slot :: "Message \<Rightarrow> string" where
  "register_slot msg = peerSlotKey (msg_Peer msg) (normalizeRegisterProfile (msg_Profile msg))"

definition counter_slot :: "Message \<Rightarrow> string" where
  "counter_slot msg = peerSlotKey (msg_From msg) (normalizeRegisterProfile (msg_Profile msg))"

definition partner :: "peer_table \<Rightarrow> Message \<Rightarrow> peer \<Rightarrow> peer option" where
  "partner t msg self = peer_at (put_peer t (msg_From msg) (register_slot msg) self) (msg_Peer msg) (counter_slot msg)"

definition register_table :: "peer_table \<Rightarrow> Message \<Rightarrow> peer \<Rightarrow> int \<Rightarrow> peer_table" where
  "register_table t msg self sid =
     (let t1 = put_peer t (msg_From msg) (register_slot msg) self in
      case partner t msg self of
        None \<Rightarrow> t1
      | Some other \<Rightarrow> put_peer (put_peer t1 (msg_From msg) (register_slot msg) (self\<lparr>peer_sessionID := sid\<rparr>))
           (msg_Peer msg) (counter_slot msg) (other\<lparr>peer_sessionID := sid\<rparr>))"

definition register_routes ::
  "peer_table \<Rightarrow> Message \<Rightarrow> peer \<Rightarrow> time \<Rightarrow> int \<Rightarrow> (string \<times> pairRoute) list \<Rightarrow> (string \<times> pairRoute) list"
where
  "register_routes t msg self now sid pairs =
     (let pairs = drop_old_route t (msg_From msg) (register_slot msg) (peer_addr self) pairs in
      case partner t msg self of
        None \<Rightarrow> pairs
      | Some other \<Rightarrow> paired_routes self other now sid pairs)"

lemma registered_simps [simp]:
  "peer_id (registered msg key src now) = msg_From msg"
  "peer_addr (registered msg key src now) = src"
  "peer_lanKey (registered msg key src now) = key"
  "peer_want (registered msg key src now) = msg_Peer msg"
  "peer_upnpAddr (registered msg key src now) = msg_UpnpAddr msg"
  "peer_lastSeen (registered msg key src now) = now"
  "peer_profile (registered msg key src now) = normalizeRegisterProfile (msg_Profile msg)"
  by (simp_all add: registered_def)

text \<open>The state in which a registration looks for its partner.\<close>

definition reg_admitted :: "'db db_api \<Rightarrow> 'db App \<Rightarrow> time \<Rightarrow> string \<Rightarrow> Message \<Rightarrow> 'db App" where
  "reg_admitted db a now src msg = a\<lparr>app_totalRegister := app_totalRegister a + 1,
     app_db := db_UpsertDevice db (msg_From msg) (msg_Name msg) src (msg_UpnpAddr msg) (msg_Peer msg) True (app_db a),
     app_pairs := drop_old_route (app_peers a) (msg_From msg) (register_slot msg) src (app_pairs a),
     app_peers := put_peer (app_peers a) (msg_From msg) (register_slot msg) (registered msg '''' src now)\<rparr>"

definition lan_admitted :: "'db db_api \<Rightarrow> 'db App \<Rightarrow> time \<Rightarrow> string \<Rightarrow> Message \<Rightarrow> 'db App" where
  "lan_admitted db a now src msg = a\<lparr>
     app_db := db_UpsertDevice db (msg_From msg) (msg_Name msg) src (msg_UpnpAddr msg) (msg_Peer msg) True (app_db a),
     app_pairs := drop_old_route (app_lanPeers a) (msg_From msg) (register_slot msg) src (app_pairs a),
     app_lanPeers := put_peer (app_lanPeers a) (msg_From msg) (register_slot msg) (registered msg (msg_Payload msg) src now)\<rparr>"

lemma handleRegister_cases:
  "handleRegister db a now src msg =
     (let self = registered msg '''' src now; a1 = reg_admitted db a now src msg in
      case partner (app_peers a) msg self of
        None \<Rightarrow> (a1, [])
      | Some other \<Rightarrow>
          let (a2, sid) = ensurePairSession db a1 (msg_From msg) (peer_id other) (peer_profile self) ''pending'' in
          (a2\<lparr>app_peers := register_table (app_peers a) msg self sid,
              app_pairs := paired_routes self other now sid (app_pairs a2),
              app_totalPaired := app_totalPaired a2 + 1\<rparr>, [sendPeer a self other, sendPeer a other self]))"
proof -
  have keep: "app_peers a2 = app_peers a1" if "ensurePairSession db a1 x y pr pa = (a2, sid)" for a1 a2 :: "'a App" and x y pr pa sid
    using ensurePairSession_keeps [OF that] by simp
  show ?thesis
    by (simp add: handleRegister_def Let_def lookup_peer_at partner_def register_slot_def counter_slot_def registered_def
        drop_old_route_def peer_at_def [symmetric] reg_admitted_def store_pair_eq register_table_def keep sendPeer_def writeControl_def
        del: peer_at_put split: option.split prod.split)
qed
lemma handleLANRegister_cases:
  "handleLANRegister ed db a now src msg =
     (if \<not> lan_register_accepted ed db (app_db a) now msg then (a, [])
      else let self = registered msg (msg_Payload msg) src now; a1 = lan_admitted db a now src msg in
      case partner (app_lanPeers a) msg self of
        None \<Rightarrow> (a1, [])
      | Some other \<Rightarrow>
          let (a2, sid) = ensurePairSession db a1 (msg_From msg) (peer_id other) (peer_profile self) ''pending'' in
          (a2\<lparr>app_lanPeers := register_table (app_lanPeers a) msg self sid,
              app_pairs := paired_routes self other now sid (app_pairs a2)\<rparr>, [sendLANPeer self other, sendLANPeer other self]))"
proof -
  have keep: "app_lanPeers a2 = app_lanPeers a1" if "ensurePairSession db a1 x y pr pa = (a2, sid)" for a1 a2 :: "'a App" and x y pr pa sid
    using ensurePairSession_keeps [OF that] by simp
  show ?thesis
    by (simp add: handleLANRegister_def Let_def lookup_peer_at partner_def register_slot_def counter_slot_def registered_def
        drop_old_route_def peer_at_def [symmetric] lan_admitted_def store_pair_eq register_table_def keep sendLANPeer_def
        del: peer_at_put split: option.split prod.split)
qed

text \<open>The registration tables keep the invariant.\<close>

lemma register_table_None: "partner t msg self = None \<Longrightarrow>
    put_peer t (msg_From msg) (register_slot msg) self = register_table t msg self sid"
  by (simp add: register_table_def)

lemma register_table_ok:
  assumes "table_ok t"
  shows "table_ok (register_table t msg (registered msg key src now) sid)"
proof -
  let ?self = "registered msg key src now"
  let ?t1 = "put_peer t (msg_From msg) (register_slot msg) ?self"
  have t1: "table_ok ?t1" using assms by (auto intro!: put_peer_ok simp: register_slot_def)
  show ?thesis
  proof (cases "partner t msg ?self")
    case None
    then show ?thesis using t1 by (simp add: register_table_def)
  next
    case (Some other)
    have "table_ok (put_peer ?t1 (msg_From msg) (register_slot msg) (?self\<lparr>peer_sessionID := sid\<rparr>))"
      using t1 by (auto intro!: put_peer_ok simp: register_slot_def)
    moreover have "peer_id other = msg_Peer msg \<and> counter_slot msg = peerSlotKey (peer_want other) (peer_profile other)"
      using peer_at_ok [OF t1] Some by (simp add: partner_def del: peer_at_put)
    ultimately show ?thesis using Some by (simp add: register_table_def put_peer_ok)
  qed
qed

lemma drop_old_route_distinct [simp]: "keys_distinct pairs \<Longrightarrow> keys_distinct (drop_old_route t from slot src pairs)"
  by (simp add: drop_old_route_def split: option.split)

lemma paired_routes_distinct [simp]: "keys_distinct pairs \<Longrightarrow> keys_distinct (paired_routes self other now sid pairs)"
  by (simp add: paired_routes_def)

lemma register_routes_distinct [simp]: "keys_distinct pairs \<Longrightarrow> keys_distinct (register_routes t msg self now sid pairs)"
  by (simp add: register_routes_def Let_def split: option.split)

text \<open>Both registrations, as what they do to the tables and to the routes.\<close>

lemma handleRegister_effect:
  assumes "handleRegister db a now src msg = (a', out)"
  obtains sid where "app_peers a' = register_table (app_peers a) msg (registered msg '''' src now) sid"
    "app_pairs a' = register_routes (app_peers a) msg (registered msg '''' src now) now sid (app_pairs a)"
    "app_lanPeers a' = app_lanPeers a" "app_cfg a' = app_cfg a" "app_codec a' = app_codec a"
proof (cases "partner (app_peers a) msg (registered msg '''' src now)")
  case None
  then show ?thesis using assms that
    by (auto simp: handleRegister_cases register_table_def register_routes_def reg_admitted_def Let_def)
next
  case (Some other)
  obtain a2 sid where "ensurePairSession db (reg_admitted db a now src msg) (msg_From msg) (peer_id other)
      (peer_profile (registered msg '''' src now)) ''pending'' = (a2, sid)" by fastforce
  with Some show ?thesis using assms that [of sid] ensurePairSession_keeps
    by (simp add: handleRegister_cases register_routes_def reg_admitted_def Let_def) fastforce
qed

lemma handleLANRegister_effect:
  assumes "handleLANRegister ed db a now src msg = (a', out)" "lan_register_accepted ed db (app_db a) now msg"
  obtains sid where "app_lanPeers a' = register_table (app_lanPeers a) msg (registered msg (msg_Payload msg) src now) sid"
    "app_pairs a' = register_routes (app_lanPeers a) msg (registered msg (msg_Payload msg) src now) now sid (app_pairs a)"
    "app_peers a' = app_peers a" "app_cfg a' = app_cfg a" "app_codec a' = app_codec a"
proof (cases "partner (app_lanPeers a) msg (registered msg (msg_Payload msg) src now)")
  case None
  then show ?thesis using assms that
    by (auto simp: handleLANRegister_cases register_table_def register_routes_def lan_admitted_def Let_def)
next
  case (Some other)
  obtain a2 sid where "ensurePairSession db (lan_admitted db a now src msg) (msg_From msg) (peer_id other)
      (peer_profile (registered msg (msg_Payload msg) src now)) ''pending'' = (a2, sid)" by fastforce
  with Some show ?thesis using assms that [of sid] ensurePairSession_keeps
    by (simp add: handleLANRegister_cases register_routes_def lan_admitted_def Let_def) fastforce
qed
section \<open>Expiry removes exactly the expired peers\<close>

lemma expire_slots_eq:
  "expire_slots ttl now byWant pairs =
     (filter (\<lambda>(slot, p). \<not> ttl < time_Sub now (peer_lastSeen p)) byWant,
      filter (\<lambda>(key, route). \<not> (\<exists>(slot, p) \<in> set byWant. ttl < time_Sub now (peer_lastSeen p) \<and> peer_addr p = key)) pairs)"
  by (induction ttl now byWant pairs rule: expire_slots.induct)
    (auto simp: AList.delete_eq Let_def intro!: filter_cong)

definition expired_in :: "duration \<Rightarrow> time \<Rightarrow> peer_table \<Rightarrow> string \<Rightarrow> bool" where
  "expired_in ttl now t addr \<longleftrightarrow>
     (\<exists>(from, byWant) \<in> set t. \<exists>(slot, p) \<in> set byWant. ttl < time_Sub now (peer_lastSeen p) \<and> peer_addr p = addr)"

definition live_table :: "duration \<Rightarrow> time \<Rightarrow> peer_table \<Rightarrow> peer_table" where
  "live_table ttl now t = filter (\<lambda>(from, byWant). byWant \<noteq> [])
     (map (\<lambda>(from, byWant). (from, filter (\<lambda>(slot, p). \<not> ttl < time_Sub now (peer_lastSeen p)) byWant)) t)"

lemma expire_peers_eq:
  "expire_peers ttl now t pairs = (live_table ttl now t, filter (\<lambda>(key, route). \<not> expired_in ttl now t key) pairs)"
  by (induction ttl now t pairs rule: expire_peers.induct)
    (auto simp: live_table_def expired_in_def expire_slots_eq Let_def intro!: filter_cong)

lemma map_of_filter_pairs:
  assumes "keys_distinct m"
  shows "map_of (filter (\<lambda>(k, v). P k v) m) k = (case map_of m k of None \<Rightarrow> None | Some v \<Rightarrow> if P k v then Some v else None)"
proof -
  have "keys_distinct (filter (\<lambda>(k, v). P k v) m)" using assms by simp
  then have iff: "map_of (filter (\<lambda>(k, v). P k v) m) k = Some v \<longleftrightarrow> map_of m k = Some v \<and> P k v" for v
    by (simp add: map_of_in assms)
  show ?thesis
  proof (cases "map_of (filter (\<lambda>(k, v). P k v) m) k")
    case None
    then show ?thesis using iff by (simp split: option.split)
  next
    case (Some v)
    then have "map_of m k = Some v \<and> P k v" using iff by blast
    then show ?thesis using Some by simp
  qed
qed

lemmas map_of_filter_values = map_of_filter_pairs [where P = "\<lambda>_. P" for P]

lemma live_table_ok: "table_ok t \<Longrightarrow> table_ok (live_table ttl now t)"
  by (force simp: table_ok_def slots_ok_def live_table_def list_all_iff keys_distinct_map_snd)

lemma peer_at_live:
  assumes "table_ok t"
  shows "peer_at (live_table ttl now t) from slot =
     (case peer_at t from slot of
        None \<Rightarrow> None
      | Some p \<Rightarrow> if ttl < time_Sub now (peer_lastSeen p) then None else Some p)"
proof -
  let ?live = "\<lambda>byWant. filter (\<lambda>(slot, p). \<not> ttl < time_Sub now (peer_lastSeen p)) byWant"
  have kd: "keys_distinct (map (\<lambda>(from, byWant). (from, ?live byWant)) t)"
    using assms by (simp add: table_ok_def keys_distinct_map_snd)
  have "slots_of (live_table ttl now t) from = ?live (slots_of t from)"
    unfolding slots_of_def live_table_def
    by (simp add: map_of_filter_values [OF kd] map_of_map split: option.split)
  then show ?thesis
    using slots_of_ok(1) [OF assms] by (simp add: peer_at_def map_of_filter_values split: option.split)
qed

lemma cleanupExpiredPeers_eq:
  "cleanupExpiredPeers a now = a\<lparr>
     app_peers := live_table (cfg_PeerTTL (app_cfg a)) now (app_peers a),
     app_lanPeers := live_table (cfg_PeerTTL (app_cfg a)) now (app_lanPeers a),
     app_pairs := filter (\<lambda>(key, route). \<not> expired_in (cfg_PeerTTL (app_cfg a)) now (app_peers a) key
                             \<and> \<not> expired_in (cfg_PeerTTL (app_cfg a)) now (app_lanPeers a) key) (app_pairs a)\<rparr>"
  by (simp add: cleanupExpiredPeers_def expire_peers_eq Let_def case_prod_unfold conj_commute)

lemma cleanupLoop_tick_tables:
  "app_peers (cleanupLoop_tick db a now) = live_table (cfg_PeerTTL (app_cfg a)) now (app_peers a)"
  "app_lanPeers (cleanupLoop_tick db a now) = live_table (cfg_PeerTTL (app_cfg a)) now (app_lanPeers a)"
  "app_cfg (cleanupLoop_tick db a now) = app_cfg a"
  "app_pairs (cleanupLoop_tick db a now) =
     filter (\<lambda>(key, route). \<not> expired_in (cfg_PeerTTL (app_cfg a)) now (app_peers a) key
               \<and> \<not> expired_in (cfg_PeerTTL (app_cfg a)) now (app_lanPeers a) key
               \<and> \<not> cfg_PairTTL (app_cfg a) < time_Sub now (route_lastSeen route)) (app_pairs a)"
  by (simp_all add: cleanupLoop_tick_def cleanupExpiredPeers_eq Let_def) (auto intro!: filter_cong)

lemma cleanupLoop_tick_inv: "registry_inv a \<Longrightarrow> registry_inv (cleanupLoop_tick db a now)"
  by (simp add: registry_inv_def cleanupLoop_tick_tables live_table_ok)

section \<open>Routes are introductions\<close>

definition introduced :: "sent list \<Rightarrow> string \<Rightarrow> string \<Rightarrow> bool" where
  "introduced log addr about \<longleftrightarrow> list_ex (\<lambda>s. case s of
       Sealed dst msg \<Rightarrow> dst = addr \<and> msg_Type msg = MsgPeerInfo \<and> msg_Addr msg = about
     | Plain dst msg \<Rightarrow> dst = addr \<and> msg_Type msg = MsgPeerInfo \<and> msg_Addr msg = about
     | Raw dst data \<Rightarrow> False) log"

definition routes_introduced :: "sent list \<Rightarrow> (string \<times> pairRoute) list \<Rightarrow> bool" where
  "routes_introduced log pairs \<longleftrightarrow> list_all (\<lambda>(src, route). introduced log src (route_dst route)) pairs"

lemma introduced_append [simp]: "introduced (xs @ ys) x y \<longleftrightarrow> introduced xs x y \<or> introduced ys x y"
  by (simp add: introduced_def)

lemma routes_introduced_subset:
  "routes_introduced log pairs \<Longrightarrow> set pairs' \<subseteq> set pairs \<Longrightarrow> routes_introduced (log @ out) pairs'"
  by (auto simp: routes_introduced_def list_all_iff)

lemma sent_peer_introduced:
  "introduced (sendPeer a to about # out) (peer_addr to) (peer_addr about)"
  "introduced (sendLANPeer to about # out) (peer_addr to) (peer_addr about)"
  "introduced out x y \<Longrightarrow> introduced (s # out) x y"
  by (simp_all add: introduced_def sendPeer_def sendLANPeer_def writeControl_def peer_info_def)

lemma drop_old_route_subset: "set (drop_old_route t from slot src pairs) \<subseteq> set pairs"
  by (auto simp: drop_old_route_def set_delete split: option.splits)

lemma paired_routes_introduced:
  assumes "routes_introduced log pairs" "keys_distinct pairs"
    and "introduced out (peer_addr self) (peer_addr other)" "introduced out (peer_addr other) (peer_addr self)"
  shows "routes_introduced (log @ out) (paired_routes self other now sid pairs)"
  using assms by (auto simp: routes_introduced_def list_all_iff paired_routes_def in_update split: if_splits)

lemma register_routes_introduced:
  assumes "routes_introduced log pairs" "keys_distinct pairs"
    and "\<And>other. partner t msg self = Some other \<Longrightarrow>
      introduced out (peer_addr self) (peer_addr other) \<and> introduced out (peer_addr other) (peer_addr self)"
  shows "routes_introduced (log @ out) (register_routes t msg self now sid pairs)"
proof -
  let ?pairs = "drop_old_route t (msg_From msg) (register_slot msg) (peer_addr self) pairs"
  have "routes_introduced (log @ []) ?pairs" "keys_distinct ?pairs"
    using assms(1,2) drop_old_route_subset by (blast intro: routes_introduced_subset, simp)
  then show ?thesis
    using assms(3) routes_introduced_subset [of log ?pairs] paired_routes_introduced [of log ?pairs out self]
    by (auto simp: register_routes_def Let_def split: option.split)
qed

section \<open>Runs of the server\<close>

datatype server_op = Datagram time string bytes | Tick time

fun server_step ::
  "ed25519 \<Rightarrow> 'db db_api \<Rightarrow> (bytes \<Rightarrow> string + Message) \<Rightarrow> (string \<Rightarrow> bool) \<Rightarrow> 'db App \<times> sent list \<Rightarrow> server_op \<Rightarrow>
     'db App \<times> sent list"
where
  "server_step ed db decode writable (a, log) (Datagram now src data) =
     (let (a, out) = runUDP_step ed db decode writable a now src data in (a, log @ out))"
| "server_step ed db decode writable (a, log) (Tick now) = (cleanupLoop_tick db a now, log)"

definition server_inv :: "'db App \<times> sent list \<Rightarrow> bool" where
  "server_inv s \<longleftrightarrow> registry_inv (fst s) \<and> routes_introduced (snd s) (app_pairs (fst s))"

lemma handleRegister_keeps:
  assumes "handleRegister db a now src msg = (a', out)" "server_inv (a, log)"
  shows "server_inv (a', log @ out)"
proof -
  have inv: "table_ok (app_peers a)" "table_ok (app_lanPeers a)" "keys_distinct (app_pairs a)" "routes_introduced log (app_pairs a)"
    using assms(2) by (simp_all add: server_inv_def registry_inv_def)
  have "introduced out src (peer_addr other) \<and> introduced out (peer_addr other) src"
    if "partner (app_peers a) msg (registered msg '''' src now) = Some other" for other
    using assms(1) that sent_peer_introduced(1) [of a "registered msg '''' src now"]
      sent_peer_introduced(1) [of a _ "registered msg '''' src now"]
    by (auto simp: handleRegister_cases Let_def split: prod.splits intro: sent_peer_introduced(3))
  then show ?thesis
    by (rule_tac handleRegister_effect [OF assms(1)])
      (simp add: server_inv_def registry_inv_def register_table_ok inv register_routes_introduced)
qed

lemma handleLANRegister_keeps:
  assumes "handleLANRegister ed db a now src msg = (a', out)" "server_inv (a, log)"
  shows "server_inv (a', log @ out)"
proof (cases "lan_register_accepted ed db (app_db a) now msg")
  case False
  then show ?thesis using assms by (simp add: handleLANRegister_def)
next
  case True
  let ?self = "registered msg (msg_Payload msg) src now"
  have inv: "table_ok (app_peers a)" "table_ok (app_lanPeers a)" "keys_distinct (app_pairs a)" "routes_introduced log (app_pairs a)"
    using assms(2) by (simp_all add: server_inv_def registry_inv_def)
  have "introduced out src (peer_addr other) \<and> introduced out (peer_addr other) src"
    if "partner (app_lanPeers a) msg ?self = Some other" for other
    using assms(1) that True sent_peer_introduced(2) [of ?self] sent_peer_introduced(2) [of _ ?self]
    by (auto simp: handleLANRegister_cases Let_def split: prod.splits intro: sent_peer_introduced(3))
  then show ?thesis
    by (rule_tac handleLANRegister_effect [OF assms(1) True])
      (simp add: server_inv_def registry_inv_def register_table_ok inv register_routes_introduced)
qed

lemma handleLANUDPRelay_keeps:
  assumes "handleLANUDPRelay writable a data = (a', out, handled)" "server_inv (a, log)"
  shows "server_inv (a', log @ out)" "\<not> handled \<Longrightarrow> a' = a \<and> out = []"
    "app_pairs a' = app_pairs a" "app_lanPeers a' = app_lanPeers a" "app_peers a' = app_peers a"
  using assms
  by (auto simp: handleLANUDPRelay_def server_inv_def registry_inv_def intro: routes_introduced_subset
      split: if_splits sum.splits option.splits)

lemma handleRelay_keeps:
  assumes "handleRelay db writable a now src data = (a', out, handled)" "server_inv (a, log)"
  shows "server_inv (a', log @ out)" "\<not> handled \<Longrightarrow> a' = a \<and> out = []"
    "app_lanPeers a' = app_lanPeers a" "app_peers a' = app_peers a"
proof -
  have inv: "registry_inv a" "keys_distinct (app_pairs a)" "routes_introduced log (app_pairs a)"
    using assms(2) by (simp_all add: server_inv_def registry_inv_def)
  have "routes_introduced (log @ out') (AList.update src (route\<lparr>route_lastSeen := now\<rparr>) (app_pairs a))"
    if "map_of (app_pairs a) src = Some route" for out' route
    using inv that by (auto simp: routes_introduced_def list_all_iff in_update map_of_in split: if_splits)
  then show "server_inv (a', log @ out)" "\<not> handled \<Longrightarrow> a' = a \<and> out = []"
    "app_lanPeers a' = app_lanPeers a" "app_peers a' = app_peers a"
    using assms inv
    by (auto simp: handleRelay_def Let_def server_inv_def registry_inv_def split: if_splits option.splits)
qed

text \<open>What one datagram can do, by the handler that consumed it.\<close>

lemma runUDP_step_cases:
  assumes "runUDP_step ed db decode writable a now src data = (a', out)"
  obtains (lan_relay) "handleLANUDPRelay writable a data = (a', out, True)"
    | (relay) "\<not> IsRelayFrame data" "handleRelay db writable a now src data = (a', out, True)"
    | (register) payload msg where "openPacket a data = Some (KindControl, payload)" "decode payload = Inr msg"
        "msg_Type msg = MsgRegister" "handleRegister db a now src msg = (a', out)"
    | (lan_register) payload msg where "payload = data \<or> openPacket a data = Some (KindControl, payload)"
        "decode payload = Inr msg" "msg_Type msg = MsgLANRegister"
        "handleLANRegister ed db a now src msg = (a', out)"
    | (stun) "a' = a" "out = [Plain src (stun_response src)] \<or> out = [writeControl a src (stun_response src)]"
    | (ignored) "a' = a" "out = []"
proof -
  obtain a1 o1 h1 where 1: "handleLANUDPRelay writable a data = (a1, o1, h1)" by (metis prod_cases3)
  obtain a2 o2 h2 where 2: "handleRelay db writable a now src data = (a2, o2, h2)" by (metis prod_cases3)
  have no1: "a1 = a \<and> \<not> IsRelayFrame data" if "\<not> h1"
    using 1 that by (auto simp: handleLANUDPRelay_def split: if_splits sum.splits option.splits)
  have no2: "a2 = a" if "\<not> h2"
    using 2 that by (auto simp: handleRelay_def Let_def split: if_splits option.splits)
  consider "h1" | "\<not> h1" "h2" | "\<not> h1" "\<not> h2" "openPacket a data = None"
    | kind payload where "\<not> h1" "\<not> h2" "openPacket a data = Some (kind, payload)" by fastforce
  then show ?thesis
  proof cases
    case 1
    then show ?thesis using assms \<open>handleLANUDPRelay _ _ _ = _\<close> lan_relay by (simp add: runUDP_step_def)
  next
    case 2
    then show ?thesis using assms \<open>handleLANUDPRelay _ _ _ = _\<close> \<open>handleRelay _ _ _ _ _ _ = _\<close> relay no1
      by (simp add: runUDP_step_def)
  next
    case 3
    then show ?thesis using assms \<open>handleLANUDPRelay _ _ _ = _\<close> \<open>handleRelay _ _ _ _ _ _ = _\<close> no1 no2 lan_register stun ignored
      by (auto simp: runUDP_step_def split: sum.splits if_splits)
  next
    case 4
    then show ?thesis
      using assms \<open>handleLANUDPRelay _ _ _ = _\<close> \<open>handleRelay _ _ _ _ _ _ = _\<close> no1 no2 register lan_register stun ignored
      by (auto simp: runUDP_step_def split: sum.splits if_splits)
  qed
qed

lemma runUDP_step_keeps:
  assumes "runUDP_step ed db decode writable a now src data = (a', out)" "server_inv (a, log)"
  shows "server_inv (a', log @ out)"
  using assms(1)
proof (cases rule: runUDP_step_cases)
  case stun
  then show ?thesis using assms(2) by (auto simp: server_inv_def intro: routes_introduced_subset)
qed (use assms(2) in \<open>auto dest: handleLANUDPRelay_keeps(1) handleRelay_keeps(1) handleRegister_keeps handleLANRegister_keeps\<close>)

interpretation server: invariant_machine "server_step ed db decode writable" server_inv
  for ed and db :: "'db db_api" and decode writable
proof
  fix s :: "'db App \<times> sent list" and op
  assume inv: "server_inv s"
  obtain a log where s: "s = (a, log)" by fastforce
  show "server_inv (server_step ed db decode writable s op)"
  proof (cases op)
    case (Datagram now src data)
    then show ?thesis using inv s by (auto simp: runUDP_step_keeps split: prod.split)
  next
    case (Tick now)
    then show ?thesis using inv s routes_introduced_subset [of log "app_pairs a" _ "[]"]
      by (auto simp: server_inv_def cleanupLoop_tick_inv cleanupLoop_tick_tables)
  qed
qed

definition fresh_app :: "server_cfg \<Rightarrow> 'db \<Rightarrow> SecureCodec option \<Rightarrow> 'db App" where
  "fresh_app cfg d codec = \<lparr>app_cfg = cfg, app_db = d, app_codec = codec, app_totalRegister = 0, app_totalPaired = 0,
     app_totalRelayed = 0, app_peers = [], app_pairByID = (\<lambda>_. None), app_pairs = [], app_lanPeers = []\<rparr>"

lemma fresh_app_inv: "server_inv (fresh_app cfg d codec, [])"
  by (simp add: server_inv_def registry_inv_def fresh_app_def routes_introduced_def)

section \<open>Properties\<close>

lemma find_SomeD: "find P xs = Some x \<Longrightarrow> x \<in> set xs \<and> P x"
  by (induction xs) (auto split: if_splits)

lemma find_lan_peer_SomeD:
  assumes "find_lan_peer t device = Some p"
  shows "\<exists>from byWant slot. (from, byWant) \<in> set t \<and> (slot, p) \<in> set byWant \<and> peer_id p = device"
proof -
  have "p \<in> set (concat (map (\<lambda>(from, byWant). map snd byWant) t)) \<and> peer_id p = device"
    using find_SomeD [OF assms [unfolded find_lan_peer_def]] by simp
  then show ?thesis by auto blast
qed

lemma raw_output_cases:
  assumes "runUDP_step ed db decode writable a now src data = (a', out)" "Raw dst bytes \<in> set out"
  shows "bytes = data \<and>
     (if IsRelayFrame data
      then \<exists>frame p. unpack_relay data = Inr frame \<and> find_lan_peer (app_lanPeers a) (rl_DstDevice frame) = Some p
             \<and> dst = peer_addr p \<and> cfg_LANAllowRelay (app_cfg a)
      else \<exists>route. map_of (app_pairs a) src = Some route \<and> dst = route_dst route \<and> cfg_AllowRelay (app_cfg a))"
  using assms(1)
proof (cases rule: runUDP_step_cases)
  case lan_relay
  then show ?thesis using assms(2) by (auto simp: handleLANUDPRelay_def split: if_splits sum.splits option.splits)
next
  case relay
  then show ?thesis using assms(2) by (auto simp: handleRelay_def Let_def split: if_splits option.splits)
next
  case register
  then show ?thesis using assms(2)
    by (auto simp: handleRegister_cases Let_def sendPeer_def writeControl_def split: option.splits prod.splits if_splits)
next
  case lan_register
  then show ?thesis using assms(2)
    by (auto simp: handleLANRegister_cases Let_def sendLANPeer_def split: option.splits prod.splits if_splits)
qed (use assms(2) in \<open>auto simp: writeControl_def split: if_splits\<close>)

text \<open>A small server for the witnesses: no key, relaying allowed; two devices \<^verbatim>\<open>a\<close> and \<^verbatim>\<open>b\<close> register for
  each other with one-letter messages.\<close>

definition demo_cfg :: server_cfg where
  "demo_cfg = \<lparr>cfg_PeerTTL = 60 * Second, cfg_PairTTL = 300 * Second, cfg_RelayIdleTimeout = 120 * Second, cfg_AllowRelay = True,
     cfg_LANAllowRelay = True, cfg_AllowLegacy = True\<rparr>"

definition demo_db :: "int db_api" where
  "demo_db = \<lparr>db_UpsertDevice = (\<lambda>_ _ _ _ _ _ d. d), db_GetVirtualDeviceKey = (\<lambda>_ _. Inl ''no rows''),
     db_StartSession = (\<lambda>_ _ _ _ d. (d + 1, Inr (d + 1))), db_TouchSession = (\<lambda>_ _ d. d),
     db_MarkOfflineBefore = (\<lambda>_ d. d), db_EndIdleSessions = (\<lambda>_ d. d)\<rparr>"

definition demo_register :: "string \<Rightarrow> string \<Rightarrow> Message" where
  "demo_register from want = no_message\<lparr>msg_Type := MsgRegister, msg_From := from, msg_Peer := want\<rparr>"

definition demo_decode :: "bytes \<Rightarrow> string + Message" where
  "demo_decode data = (if length data = 2 then
      if data ! 1 = 1 then Inr (demo_register ''a'' ''b'') else Inr (demo_register ''b'' ''a'') else Inl ''json'')"

definition demo_app :: "int App" where
  "demo_app = fresh_app demo_cfg 0 None"

text \<open>C4. Starting from an empty server, whatever datagrams arrive and timers fire, the server relays
  only what it received, unchanged, and only along introductions it made: a datagram that is not a
  LAN relay frame goes from an address to an address that the server announced to it in a peer
  message; a LAN relay frame goes to an address at which the destination device of the frame is
  registered.\<close>

theorem relays_along_introductions:
  assumes "server.run ed db decode writable (fresh_app cfg d codec, []) ops = (a, log)"
    and "runUDP_step ed db decode writable a now src data = (a', out)" "Raw dst bytes \<in> set out"
  shows "bytes = data \<and>
     (if IsRelayFrame data
      then \<exists>frame from byWant slot p. unpack_relay data = Inr frame \<and> (from, byWant) \<in> set (app_lanPeers a)
             \<and> (slot, p) \<in> set byWant \<and> peer_id p = rl_DstDevice frame \<and> dst = peer_addr p
      else introduced log src dst)"
proof -
  have inv: "routes_introduced log (app_pairs a)" "keys_distinct (app_pairs a)"
    using server.run_inv [OF fresh_app_inv, of ed db decode writable cfg d codec ops] assms(1)
    by (simp_all add: server_inv_def registry_inv_def)
  have "introduced log src (route_dst route)" if "map_of (app_pairs a) src = Some route" for route
    using inv(1) map_of_SomeD [OF that] by (auto simp: routes_introduced_def list_all_iff)
  then show ?thesis
    using raw_output_cases [OF assms(2,3)] by (cases "IsRelayFrame data") (auto, metis find_lan_peer_SomeD)
qed

definition demo_ops :: "server_op list" where
  "demo_ops = [Datagram 0 ''1.1.1.1:1'' [0x7B, 1], Datagram 7 ''2.2.2.2:2'' [0x7B, 2]]"

definition demo_run :: "int App \<times> sent list" where
  "demo_run = foldl (server_step toy_ed25519 demo_db demo_decode (\<lambda>_. True)) (demo_app, []) demo_ops"

lemma demo_profile:
  "normalizeRegisterProfile '''' = ''interactive''" "normalizeRegisterProfile ''interactive'' = ''interactive''"
  "NormalizeProfile ''interactive'' = ''interactive''"
  by (simp_all add: normalizeRegisterProfile_def ProfileLANPacket_def)

lemma demo_frames:
  "\<not> IsRelayFrame [123, 1]" "\<not> IsRelayFrame [123, 2]" "\<not> IsRelayFrame [9, 9]"
  "\<not> secure_IsFrame [123, 1]" "\<not> secure_IsFrame [123, 2]" "\<not> secure_IsFrame [9, 9]"
  "starts_json [123, 1]" "starts_json [123, 2]" "\<not> starts_json [9, 9]"
  by (simp_all add: IsRelayFrame_def secure_IsFrame_def starts_json_def)

lemmas demo_eval = runUDP_step_def handleLANUDPRelay_def handleRelay_def openPacket_def handleRegister_def Let_def
  demo_profile demo_frames demo_app_def fresh_app_def demo_cfg_def demo_db_def demo_decode_def demo_register_def no_message_def
  slots_of_def lookupPeer_def put_peer_def peerSlotKey_def ensurePairSession_def pairKey_def store_pair_def sendPeer_def
  writeControl_def peer_info_def MsgRegister_def MsgStunReq_def MsgLANRegister_def MsgPeerInfo_def
  cleanupLoop_tick_def cleanupExpiredPeers_eq live_table_def expired_in_def time_Sub_def Second_def

lemma demo_first: "runUDP_step toy_ed25519 demo_db demo_decode (\<lambda>_. True) demo_app 0 ''1.1.1.1:1'' [0x7B, 1] =
   (demo_app\<lparr>app_totalRegister := 1, app_peers := [(''a'', [(''b'' @ [CHR 0x00] @ ''interactive'',
      registered (demo_register ''a'' ''b'') '''' ''1.1.1.1:1'' 0)])]\<rparr>, [])"
  by (simp add: demo_eval registered_def)

lemma demo_run_state:
  "app_pairs (fst demo_run) = [(''2.2.2.2:2'', \<lparr>route_dst = ''1.1.1.1:1'', route_lastSeen = 7, route_sessionID = 1\<rparr>),
     (''1.1.1.1:1'', \<lparr>route_dst = ''2.2.2.2:2'', route_lastSeen = 7, route_sessionID = 1\<rparr>)]"
  "app_cfg (fst demo_run) = demo_cfg" "app_codec (fst demo_run) = None"
  unfolding demo_run_def demo_ops_def
  by (simp_all only: foldl.simps server_step.simps demo_first Let_def prod.case append_Nil)
    (simp_all add: demo_eval registered_def)

lemma demo_relays: "Raw ''2.2.2.2:2'' [9, 9] \<in>
    set (snd (runUDP_step toy_ed25519 demo_db demo_decode (\<lambda>_. True) (fst demo_run) 9 ''1.1.1.1:1'' [9, 9]))"
  by (simp add: runUDP_step_def handleLANUDPRelay_def handleRelay_def demo_run_state demo_frames demo_cfg_def Let_def)

theorem relays_along_introductions_witness: "introduced (snd demo_run) ''1.1.1.1:1'' ''2.2.2.2:2''"
proof -
  have "server.run toy_ed25519 demo_db demo_decode (\<lambda>_. True) (fresh_app demo_cfg 0 None, []) demo_ops = (fst demo_run, snd demo_run)"
    by (simp add: server.run_def demo_run_def demo_app_def)
  from relays_along_introductions [OF this _ demo_relays] show ?thesis by (simp add: IsRelayFrame_def prod_eq_iff)
qed

subsection \<open>Two devices that register for each other are connected\<close>

lemma partner_second:
  assumes "handleRegister db a now sA mA = (a1, out1)"
    and "msg_From mB = msg_Peer mA" "msg_Peer mB = msg_From mA" "msg_From mA \<noteq> msg_Peer mA"
    and "normalizeRegisterProfile (msg_Profile mB) = normalizeRegisterProfile (msg_Profile mA)"
  shows "\<exists>sid. partner (app_peers a1) mB self = Some ((registered mA '''' sA now)\<lparr>peer_sessionID := sid\<rparr>)"
proof -
  obtain sid where "app_peers a1 = register_table (app_peers a) mA (registered mA '''' sA now) sid"
    using handleRegister_effect [OF assms(1)] by metis
  moreover have "(registered mA '''' sA now)\<lparr>peer_sessionID := 0\<rparr> = registered mA '''' sA now" by (simp add: registered_def)
  moreover have "counter_slot mB = register_slot mA" using assms(2-5) by (simp add: counter_slot_def register_slot_def)
  ultimately show ?thesis using assms(2-4)
    by (cases "partner (app_peers a) mA (registered mA '''' sA now)") (auto simp: partner_def register_table_def Let_def intro: exI [of _ 0])
qed

lemma peer_info_session: "peer_info (p\<lparr>peer_sessionID := i\<rparr>) (q\<lparr>peer_sessionID := j\<rparr>) = peer_info p q"
  "peer_info (p\<lparr>peer_sessionID := i\<rparr>) q = peer_info p q" "peer_info p (q\<lparr>peer_sessionID := j\<rparr>) = peer_info p q"
  by (simp_all add: peer_info_def)



subsection \<open>Expiry\<close>

text \<open>A tick of the cleanup loop removes exactly the registrations that were not renewed within
  the peer time-to-live, from both tables, and exactly the routes that are older than the pair
  time-to-live or start at the address of a removed registration; everything else stays as it was.\<close>

theorem cleanupLoop_tick_exact:
  assumes "registry_inv a"
  shows "lookupPeer (cleanupLoop_tick db a now) from want profile =
       (case lookupPeer a from want profile of
          None \<Rightarrow> None
        | Some p \<Rightarrow> if cfg_PeerTTL (app_cfg a) < time_Sub now (peer_lastSeen p) then None else Some p)
    \<and> lookupLANPeerLocked (cleanupLoop_tick db a now) from want profile =
       (case lookupLANPeerLocked a from want profile of
          None \<Rightarrow> None
        | Some p \<Rightarrow> if cfg_PeerTTL (app_cfg a) < time_Sub now (peer_lastSeen p) then None else Some p)
    \<and> map_of (app_pairs (cleanupLoop_tick db a now)) addr =
       (case map_of (app_pairs a) addr of
          None \<Rightarrow> None
        | Some route \<Rightarrow>
            if cfg_PairTTL (app_cfg a) < time_Sub now (route_lastSeen route)
               \<or> expired_in (cfg_PeerTTL (app_cfg a)) now (app_peers a) addr
               \<or> expired_in (cfg_PeerTTL (app_cfg a)) now (app_lanPeers a) addr
            then None else Some route)"
proof -
  have ok: "table_ok (app_peers a)" "table_ok (app_lanPeers a)" "keys_distinct (app_pairs a)"
    using assms by (simp_all add: registry_inv_def)
  then show ?thesis by (simp add: lookup_peer_at cleanupLoop_tick_tables peer_at_live map_of_filter_pairs split: option.split)
qed

theorem cleanupLoop_tick_exact_witness:
  "lookupPeer (cleanupLoop_tick demo_db (fst (handleRegister demo_db demo_app 0 ''1.1.1.1:1'' (demo_register ''a'' ''b''))) (61 * Second))
     ''a'' ''b'' ''interactive'' = None"
proof -
  let ?a = "fst (handleRegister demo_db demo_app 0 ''1.1.1.1:1'' (demo_register ''a'' ''b''))"
  have "registry_inv demo_app" using fresh_app_inv [of demo_cfg "0 :: int" None] by (simp add: server_inv_def demo_app_def)
  then have "registry_inv ?a"
    using handleRegister_effect [OF prod.collapse [symmetric], of demo_db demo_app 0 "''1.1.1.1:1''" "demo_register ''a'' ''b''"]
    by (metis registry_inv_def register_table_ok register_routes_distinct)
  moreover have "lookupPeer ?a ''a'' ''b'' ''interactive'' = Some (registered (demo_register ''a'' ''b'') '''' ''1.1.1.1:1'' 0)"
    "app_cfg ?a = demo_cfg"
    by (simp_all add: demo_eval registered_def)
  ultimately show ?thesis
    using cleanupLoop_tick_exact [of ?a demo_db "61 * Second" "''a''" "''b''" "''interactive''"]
    by (simp add: demo_cfg_def time_Sub_def duration_defs)
qed

subsection \<open>LAN registrations are authenticated\<close>

lemma register_table_peer:
  assumes "table_ok t" "peer_at (register_table t msg self sid) f s = Some p"
  obtains (new) i where "f = msg_From msg" "s = register_slot msg" "p = self\<lparr>peer_sessionID := i\<rparr>"
    | (old) q i where "peer_at t f s = Some q" "p = q\<lparr>peer_sessionID := i\<rparr>"
proof -
  have id: "q\<lparr>peer_sessionID := peer_sessionID q\<rparr> = q" for q by simp
  show ?thesis
    using assms(2) that
    by (auto simp: register_table_def partner_def Let_def split: option.splits if_splits) (metis id)+
qed

lemma live_table_peer:
  "table_ok t \<Longrightarrow> peer_at (live_table ttl now t) f s = Some p \<Longrightarrow> peer_at t f s = Some p"
  by (simp add: peer_at_live split: option.splits if_splits)

text \<open>The only datagrams that change the LAN table are accepted LAN registrations.\<close>

lemma runUDP_step_lanPeers:
  assumes "runUDP_step ed db decode writable a now src data = (a', out)" "server_inv (a, log)"
  obtains (same) "app_lanPeers a' = app_lanPeers a"
    | (lan) payload msg sid where "payload = data \<or> openPacket a data = Some (KindControl, payload)" "decode payload = Inr msg"
        "msg_Type msg = MsgLANRegister" "lan_register_accepted ed db (app_db a) now msg"
        "app_lanPeers a' = register_table (app_lanPeers a) msg (registered msg (msg_Payload msg) src now) sid"
  using assms(1)
proof (cases rule: runUDP_step_cases)
  case lan_relay
  then show ?thesis using assms(2) by (intro same handleLANUDPRelay_keeps(4))
next
  case relay
  from relay(2) assms(2) show ?thesis by (intro same handleRelay_keeps(3))
next
  case register
  from register(4) show ?thesis by (rule handleRegister_effect) (rule same)
next
  case (lan_register payload msg)
  then show ?thesis
    using handleLANRegister_effect [OF lan_register(4)] lan [of payload msg] same
    by (cases "lan_register_accepted ed db (app_db a) now msg") (auto simp: handleLANRegister_def)
qed (use same in simp_all)

definition lan_authenticated ::
  "ed25519 \<Rightarrow> 'db db_api \<Rightarrow> (bytes \<Rightarrow> string + Message) \<Rightarrow> 'db App \<Rightarrow> time \<Rightarrow> bytes \<Rightarrow> peer \<Rightarrow> bool"
where
  "lan_authenticated ed db decode a now data p \<longleftrightarrow>
     (\<exists>payload msg. (payload = data \<or> openPacket a data = Some (KindControl, payload)) \<and> decode payload = Inr msg
        \<and> lan_register_accepted ed db (app_db a) now msg
        \<and> peer_id p = msg_From msg \<and> peer_want p = msg_Peer msg \<and> peer_lanKey p = msg_Payload msg)"

lemma lan_authenticated_session [simp]:
  "lan_authenticated ed db decode a now data (p\<lparr>peer_sessionID := i\<rparr>) = lan_authenticated ed db decode a now data p"
  by (simp add: lan_authenticated_def)


definition demo_lan_message :: Message where
  "demo_lan_message = no_message\<lparr>msg_Type := MsgLANRegister, msg_From := ''a'', msg_Peer := ''b'', msg_Profile := ''lan-packet'',
     msg_Timestamp := 1700000000, msg_Signature := EncodeToString
       (ed_Sign toy_ed25519 (replicate 64 1) (RegisterTranscriptPayload ''a'' ''b'' ''lan-packet'' 1700000000 ''''))\<rparr>"

definition demo_lan_db :: "int db_api" where
  "demo_lan_db = demo_db\<lparr>db_GetVirtualDeviceKey := \<lambda>_ _. Inr \<lparr>vk_DeviceID = ''a'', vk_Algorithm = IdentityKeyAlgorithm,
     vk_PublicKey = EncodeToString (replicate 32 1), vk_CreatedAt = '''', vk_UpdatedAt = ''''\<rparr>\<rparr>"

lemma EncodeToString_Cons_nonempty: "EncodeToString (b # bs) \<noteq> ''''"
  by (cases "b # bs" rule: EncodeToString.cases) (auto simp: Let_def)

lemma demo_lan_accepted: "lan_register_accepted toy_ed25519 demo_lan_db d (time_Unix 1700000000) demo_lan_message"
proof -
  have "normalizeRegisterProfile ''lan-packet'' = ''lan-packet''" by (simp add: normalizeRegisterProfile_def)
  moreover have "msg_Signature demo_lan_message \<noteq> ''''"
    using EncodeToString_Cons_nonempty by (simp add: demo_lan_message_def no_message_def toy_ed25519_def numeral_eq_Suc del: EncodeToString.simps)
  ultimately show ?thesis
    by (simp add: lan_register_accepted_def demo_lan_message_def demo_lan_db_def no_message_def ProfileLANPacket_def
        VerifyRegisterPayload_def PublicKeySize_def SignatureSize_def toy_ed25519_def time_Sub_def duration_defs
        sum_list_replicate Let_def del: EncodeToString.simps)
qed


subsection \<open>Pair sessions\<close>

lemma ensurePairSession_byID:
  "ensurePairSession db a x y profile path = (a', sid) \<Longrightarrow> app_pairByID a \<subseteq>\<^sub>m app_pairByID a'"
  by (auto simp: ensurePairSession_def map_le_def Let_def split: option.splits prod.splits sum.splits)

lemma handleRegister_byID: "handleRegister db a now src msg = (a', out) \<Longrightarrow> app_pairByID a \<subseteq>\<^sub>m app_pairByID a'"
  using ensurePairSession_byID [of db "reg_admitted db a now src msg"]
  by (auto simp: handleRegister_cases Let_def reg_admitted_def split: option.splits prod.splits)

lemma handleLANRegister_byID: "handleLANRegister ed db a now src msg = (a', out) \<Longrightarrow> app_pairByID a \<subseteq>\<^sub>m app_pairByID a'"
  using ensurePairSession_byID [of db "lan_admitted db a now src msg"]
  by (auto simp: handleLANRegister_cases Let_def lan_admitted_def split: option.splits prod.splits if_splits)

lemma server_step_byID: "app_pairByID (fst s) \<subseteq>\<^sub>m app_pairByID (fst (server_step ed db decode writable s op))"
proof (cases s; cases op)
  fix a log now src data
  assume "s = (a, log)" "op = Datagram now src data"
  moreover obtain a' out where step: "runUDP_step ed db decode writable a now src data = (a', out)" by fastforce
  moreover from step have "app_pairByID a \<subseteq>\<^sub>m app_pairByID a'"
    by (cases rule: runUDP_step_cases)
      (auto simp: handleLANUDPRelay_def handleRelay_def Let_def dest: handleRegister_byID handleLANRegister_byID
        split: if_splits sum.splits option.splits)
  ultimately show ?thesis by simp
qed (simp add: cleanupLoop_tick_def cleanupExpiredPeers_eq Let_def)

text \<open>C38. Once a pair of devices has been given a session id, the server answers with that id for ever,
  whatever datagrams arrive and timers fire in between, and opens no further session for the pair:
  not even after the cleanup loop has ended the session in the database.\<close>

theorem pair_session_sticky:
  assumes "ensurePairSession db a x y profile path = (a', sid)" "app_pairByID a' (pairKey x y profile) = Some sid"
  shows "let b = fst (server.run ed db decode writable (a', log) ops) in ensurePairSession db b x y profile path' = (b, sid)"
proof -
  have "app_pairByID a' \<subseteq>\<^sub>m app_pairByID (fst (foldl (server_step ed db decode writable) (a', log) ops))"
    by (induction ops rule: rev_induct) (use server_step_byID map_le_trans in \<open>fastforce+\<close>)
  then have "app_pairByID (fst (server.run ed db decode writable (a', log) ops)) (pairKey x y profile) = Some sid"
    using assms(2) by (auto simp: server.run_def map_le_def dom_def)
  then show ?thesis by (simp add: ensurePairSession_def Let_def)
qed

theorem pair_session_sticky_witness:
  "let b = fst (server.run toy_ed25519 demo_db demo_decode (\<lambda>_. True)
       (demo_app\<lparr>app_db := 1, app_pairByID := [pairKey ''a'' ''b'' ''bulk'' \<mapsto> 1]\<rparr>, []) [Tick 5, Tick 6])
   in ensurePairSession demo_db b ''a'' ''b'' ''bulk'' ''direct'' = (b, 1)"
  by (rule pair_session_sticky [of demo_db demo_app _ _ _ "''pending''"])
    (simp_all add: ensurePairSession_def demo_app_def fresh_app_def demo_db_def)

end
