(* ===== verification/ServerApi.thy ===== *)
theory ServerApi
  imports StoreTypes GoNet
begin

text \<open>
  What the HTTP handlers of the server share: \<^verbatim>\<open>internal/server/util.go\<close> and the path and query
  parsers at the end of \<^verbatim>\<open>internal/server/handlers_lan.go\<close>.

  \<^item> An error is an \<open>ApiError\<close> of the code, \<^verbatim>\<open>sql.ErrNoRows\<close>, or any other error with its text.
  \<^item> The database is a state \<open>'db\<close>; a handler is an \<open>action\<close>: it turns the state into a new state and a
    value or an error, or (\<open>None\<close>) does not return.  \<open>andThen\<close> is the code's early return on
    \<^verbatim>\<open>err != nil\<close>.
  \<^item> A request has its method, path, host, query values, and the addresses the code reads; its body
    is decoded by \<^verbatim>\<open>encoding/json\<close>, whose result (or error) is an argument of the handler.
\<close>

subsection \<open>Errors and answers\<close>

record apiError =
  ae_Status :: int
  ae_Code :: string
  ae_Message :: string

datatype server_error = ApiError apiError | ErrNoRows | OtherError string

definition badRequest :: "string \<Rightarrow> string \<Rightarrow> server_error" where
  "badRequest code message = ApiError \<lparr>ae_Status = 400, ae_Code = code, ae_Message = message\<rparr>"

definition unauthorized :: "string \<Rightarrow> string \<Rightarrow> server_error" where
  "unauthorized code message = ApiError \<lparr>ae_Status = 401, ae_Code = code, ae_Message = message\<rparr>"

definition methodNotAllowed :: server_error where
  "methodNotAllowed = ApiError \<lparr>ae_Status = 405, ae_Code = ''method_not_allowed'', ae_Message = ''method not allowed''\<rparr>"

datatype 'v reply = Json int 'v | Failed int string string

definition writeJSONOrError :: "server_error + 'v \<Rightarrow> 'v reply" where
  "writeJSONOrError r =
     (case r of
        Inr v \<Rightarrow> Json 200 v
      | Inl (ApiError e) \<Rightarrow> Failed (ae_Status e) (ae_Code e) (ae_Message e)
      | Inl ErrNoRows \<Rightarrow> Failed 404 ''internal_error'' ''sql: no rows in result set''
      | Inl (OtherError text) \<Rightarrow> Failed 500 ''internal_error'' text)"

subsection \<open>Actions\<close>

type_synonym ('db, 'a) store_op = "'db \<Rightarrow> 'db \<times> (server_error + 'a)"

type_synonym ('db, 'a) action = "'db \<Rightarrow> ('db \<times> (server_error + 'a)) option"

definition call :: "('db, 'a) store_op \<Rightarrow> ('db, 'a) action" where
  "call m d = Some (m d)"

definition ret :: "'a \<Rightarrow> ('db, 'a) action" where
  "ret x d = Some (d, Inr x)"

definition fail :: "server_error \<Rightarrow> ('db, 'a) action" where
  "fail e d = Some (d, Inl e)"

definition result :: "server_error + 'a \<Rightarrow> ('db, 'a) action" where
  "result r d = Some (d, r)"

definition andThen :: "('db, 'a) action \<Rightarrow> ('a \<Rightarrow> ('db, 'b) action) \<Rightarrow> ('db, 'b) action" where
  "andThen m f d =
     (case m d of
        None \<Rightarrow> None
      | Some (d', Inl e) \<Rightarrow> Some (d', Inl e)
      | Some (d', Inr x) \<Rightarrow> f x d')"

text \<open>Branching on the error of a call, and leaving it out of account.\<close>

definition onResult :: "('db, 'a) action \<Rightarrow> (server_error + 'a \<Rightarrow> ('db, 'b) action) \<Rightarrow> ('db, 'b) action" where
  "onResult m f d = (case m d of None \<Rightarrow> None | Some (d', r) \<Rightarrow> f r d')"

definition check :: "server_error option \<Rightarrow> ('db, unit) action" where
  "check e d = Some (d, case e of None \<Rightarrow> Inr () | Some err \<Rightarrow> Inl err)"

lemma action_simps [simp]:
  "andThen (ret x) f = f x" "andThen (fail e) f = fail e" "onResult (result r) g = g r"
  by (simp_all add: fun_eq_iff andThen_def ret_def fail_def onResult_def result_def)

lemma andThen_assoc: "andThen (andThen m f) g = andThen m (\<lambda>x. andThen (f x) g)"
  by (auto simp: fun_eq_iff andThen_def split: option.splits sum.splits prod.splits)

lemma andThen_Inr:
  "andThen m f d = Some (d', Inr y) \<longleftrightarrow> (\<exists>d1 x. m d = Some (d1, Inr x) \<and> f x d1 = Some (d', Inr y))"
  by (auto simp: andThen_def split: option.splits sum.splits prod.splits)

lemma call_eq: "call m d = Some (d', r) \<longleftrightarrow> m d = (d', r)"
  by (simp add: call_def)

lemma ret_eq: "ret x d = Some (d', Inr y) \<longleftrightarrow> d' = d \<and> y = x"
  by (auto simp: ret_def)

subsection \<open>Requests\<close>

record request =
  r_Method :: string
  r_Path :: string
  r_Query :: "string \<Rightarrow> string"
  r_RemoteAddr :: string
  r_Host :: string

definition requestAddr :: "request \<Rightarrow> string" where
  "requestAddr r =
     (case SplitHostPort (r_RemoteAddr r) of
        None \<Rightarrow> r_RemoteAddr r
      | Some (host, port) \<Rightarrow> JoinHostPort host port)"

definition externalUDPAddr :: "request \<Rightarrow> string \<Rightarrow> string" where
  "externalUDPAddr r udpListen =
     (let host = (case SplitHostPort (r_Host r) of None \<Rightarrow> '''' | Some (h, _) \<Rightarrow> h);
          host = (if host = '''' then r_Host r else host)
      in case SplitHostPort udpListen of
           None \<Rightarrow> JoinHostPort host ''7000''
         | Some (udpHost, udpPort) \<Rightarrow>
             JoinHostPort (if udpHost \<in> {'''', ''0.0.0.0'', ''::''} then host else udpHost) udpPort)"

definition portFromAddr :: "string \<Rightarrow> int \<Rightarrow> int" where
  "portFromAddr addr fallback =
     (case SplitHostPort addr of
        None \<Rightarrow> fallback
      | Some (_, p) \<Rightarrow> (case Atoi p of None \<Rightarrow> fallback | Some n \<Rightarrow> n))"

fun firstNonEmpty :: "string list \<Rightarrow> string" where
  "firstNonEmpty [] = ''''"
| "firstNonEmpty (v # vs) = (if TrimSpace v \<noteq> '''' then TrimSpace v else firstNonEmpty vs)"

definition parseLANPathID :: "string \<Rightarrow> string \<Rightarrow> server_error + int" where
  "parseLANPathID path pre =
     (case Atoi (TrimPrefix path pre) of
        None \<Rightarrow> Inl (badRequest ''bad_id'' ''bad id'')
      | Some i \<Rightarrow> if i \<le> 0 then Inl (badRequest ''bad_id'' ''bad id'') else Inr i)"

definition optionalInt64Query :: "request \<Rightarrow> string \<Rightarrow> server_error + int" where
  "optionalInt64Query r key =
     (let raw = TrimSpace (r_Query r key) in
      if raw = '''' then Inr 0
      else (case Atoi raw of
              None \<Rightarrow> Inl (badRequest (''bad_'' @ key) (''bad '' @ key))
            | Some i \<Rightarrow> if i < 0 then Inl (badRequest (''bad_'' @ key) (''bad '' @ key)) else Inr i))"

definition optionalIntQuery :: "request \<Rightarrow> string \<Rightarrow> server_error + int" where
  "optionalIntQuery r key =
     (let raw = TrimSpace (r_Query r key) in
      if raw = '''' then Inr 0
      else (case Atoi raw of
              None \<Rightarrow> Inl (badRequest (''bad_'' @ key) (''bad '' @ key))
            | Some i \<Rightarrow> if i < 0 then Inl (badRequest (''bad_'' @ key) (''bad '' @ key)) else Inr i))"

definition requiredInt64Query :: "request \<Rightarrow> string \<Rightarrow> server_error + int" where
  "requiredInt64Query r key =
     (case optionalInt64Query r key of
        Inl e \<Rightarrow> Inl e
      | Inr v \<Rightarrow> if v \<le> 0 then Inl (badRequest (''missing_'' @ key) (key @ '' is required'')) else Inr v)"

definition parseLANAddressAction :: "string \<Rightarrow> string \<times> string" where
  "parseLANAddressAction path =
     (case Split (TrimPrefix path ''/api/admin/lan/addresses/'') CHR ''/'' of
        [a, b] \<Rightarrow> (TrimSpace a, TrimSpace b)
      | _ \<Rightarrow> ('''', ''''))"

lemma requiredInt64Query_pos: "requiredInt64Query r key = Inr v \<Longrightarrow> 0 < v"
  by (auto simp: requiredInt64Query_def split: sum.splits if_splits)

end
