(* ===== verification/LanAddress.thy ===== *)
theory LanAddress
  imports ServerApi Vnet
begin

text \<open>
  The virtual addresses of a LAN, from \<^verbatim>\<open>internal/server/handlers_lan.go\<close>: the search for a free
  address (\<^verbatim>\<open>allocateVirtualAddress\<close>), the checks of an address an administrator enters, and the
  look-up of networks.  The tables are reached through the operations of the code's interface
  (\<^verbatim>\<open>virtualAddressStore\<close> and its neighbours in \<^verbatim>\<open>controlstore.Store\<close>), the record \<open>address_store\<close>.

  The search loop of \<^verbatim>\<open>allocateVirtualAddress\<close> is a partial function: \<open>None\<close> means that it runs for
  ever.  For every network but \<^verbatim>\<open>0.0.0.0/0\<close> it is shown to return, and what it returns is the least
  free host address.
\<close>

subsection \<open>Addresses\<close>

fun increment :: "bytes \<Rightarrow> bytes" where
  "increment [] = []"
| "increment (b # bs) = (if b + 1 \<noteq> 0 then (b + 1) # bs else (b + 1) # increment bs)"

definition nextIPv4 :: "ip \<Rightarrow> ip" where
  "nextIPv4 ip = rev (increment (rev (To4 ip)))"

definition isIPv4Broadcast :: "IPNet \<Rightarrow> ip \<Rightarrow> bool" where
  "isIPv4Broadcast n ip =
     (let v = To4 ip; base = To4 (net_IP n) in
      if v = [] \<or> base = [] then False
      else list_all (\<lambda>i. v ! i = base ! i OR NOT (net_Mask n ! i)) [0..<length v])"

subsection \<open>The store\<close>

record 'db address_store =
  as_ListVirtualAddresses :: "int \<Rightarrow> ('db, VirtualAddress list) store_op"
  as_UpsertVirtualAddress :: "VirtualAddress \<Rightarrow> ('db, unit) store_op"
  as_GetVirtualAddress :: "int \<Rightarrow> string \<Rightarrow> ('db, VirtualAddress) store_op"
  as_GetVirtualAddressByDevice :: "string \<Rightarrow> ('db, VirtualAddress) store_op"
  as_ListVirtualNetworks :: "('db, VirtualNetwork list) store_op"
  as_EnsureDefaultVirtualNetwork :: "('db, VirtualNetwork) store_op"

subsection \<open>Operations\<close>

definition no_address :: VirtualAddress where
  "no_address = \<lparr>va_DeviceID = '''', va_NetworkID = 0, va_VirtualIP = '''', va_Hostname = '''', va_DNSEnabled = False,
     va_CreatedAt = '''', va_UpdatedAt = ''''\<rparr>"

partial_function (option) free_ip :: "IPNet \<Rightarrow> string list \<Rightarrow> ip \<Rightarrow> ip option option" where
  "free_ip ipNet used ip =
     (if \<not> Contains ipNet ip then Some None
      else if isIPv4Broadcast ipNet ip \<or> IPv4String ip \<in> set used then free_ip ipNet used (nextIPv4 ip)
      else Some (Some ip))"

declare free_ip.simps [code]

definition store_address :: "'db address_store \<Rightarrow> VirtualNetwork \<Rightarrow> string \<Rightarrow> string \<Rightarrow> string list \<Rightarrow> ip \<Rightarrow> ('db, VirtualAddress) action" where
  "store_address S network deviceID hostname usedHostnames ip =
     (let addressHostname = (if TrimSpace hostname = '''' \<or> TrimSpace hostname \<in> set usedHostnames then deviceID else hostname);
          address = no_address\<lparr>va_DeviceID := deviceID, va_NetworkID := vn_ID network, va_VirtualIP := IPv4String ip,
                               va_Hostname := addressHostname\<rparr>
      in onResult (call (as_UpsertVirtualAddress S address)) (\<lambda>r. case r of
           Inr _ \<Rightarrow> ret address
         | Inl err \<Rightarrow>
             if TrimSpace addressHostname \<noteq> deviceID then
               let address = address\<lparr>va_Hostname := deviceID\<rparr> in
               onResult (call (as_UpsertVirtualAddress S address)) (\<lambda>r. case r of
                 Inr _ \<Rightarrow> ret address
               | Inl retryErr \<Rightarrow> fail err)
             else fail err))"

definition allocateVirtualAddress ::
  "'db address_store \<Rightarrow> VirtualNetwork \<Rightarrow> string \<Rightarrow> string \<Rightarrow> ('db, VirtualAddress) action"
where
  "allocateVirtualAddress S network deviceID hostname =
     (case ParseCIDR (vn_CIDR network) of
        None \<Rightarrow> fail (OtherError (''invalid CIDR address: '' @ vn_CIDR network))
      | Some (_, ipNet) \<Rightarrow>
          let base = To4 (net_IP ipNet) in
          if base = [] then fail (badRequest ''bad_network'' ''only ipv4 network is supported'')
          else andThen (call (as_ListVirtualAddresses S (vn_ID network))) (\<lambda>addresses.
            let used = map (\<lambda>a. TrimSpace (va_VirtualIP a)) addresses;
                usedHostnames = filter (\<lambda>h. h \<noteq> '''') (map (\<lambda>a. TrimSpace (va_Hostname a)) addresses)
            in case free_ip ipNet used (nextIPv4 base) of
                 None \<Rightarrow> (\<lambda>d. None)
               | Some None \<Rightarrow> fail (badRequest ''lan_network_full'' ''no available virtual ip'')
               | Some (Some ip) \<Rightarrow> store_address S network deviceID hostname usedHostnames ip))"

definition validateVirtualAddress :: "VirtualAddress \<Rightarrow> server_error option" where
  "validateVirtualAddress address =
     (if TrimSpace (va_DeviceID address) = '''' \<or> va_NetworkID address \<le> 0 \<or> TrimSpace (va_VirtualIP address) = ''''
      then Some (badRequest ''bad_address'' ''device_id, network_id and virtual_ip are required'')
      else if ParseIP (TrimSpace (va_VirtualIP address)) = [] then Some (badRequest ''bad_address'' ''virtual_ip is invalid'')
      else None)"

definition virtualNetworkByID :: "'db address_store \<Rightarrow> int \<Rightarrow> ('db, VirtualNetwork) action" where
  "virtualNetworkByID S i =
     andThen (call (as_ListVirtualNetworks S)) (\<lambda>networks.
       case find (\<lambda>network. vn_ID network = i) networks of None \<Rightarrow> fail ErrNoRows | Some network \<Rightarrow> ret network)"

definition check_in_network :: "VirtualNetwork \<Rightarrow> VirtualAddress \<Rightarrow> server_error option" where
  "check_in_network network address =
     (case ParseCIDR (vn_CIDR network) of
        None \<Rightarrow> Some (OtherError (''invalid CIDR address: '' @ vn_CIDR network))
      | Some (_, ipNet) \<Rightarrow>
          let ip = To4 (ParseIP (TrimSpace (va_VirtualIP address))) in
          if ip = [] \<or> \<not> Contains ipNet ip
          then Some (badRequest ''address_out_of_cidr'' ''virtual_ip must be inside network cidr'')
          else if IP_Equal ip (To4 (net_IP ipNet)) \<or> isIPv4Broadcast ipNet ip
          then Some (badRequest ''address_reserved'' ''virtual_ip cannot be network or broadcast address'')
          else None)"

definition validateVirtualAddressCIDR :: "'db address_store \<Rightarrow> VirtualAddress \<Rightarrow> ('db, unit) action" where
  "validateVirtualAddressCIDR S address =
     andThen (virtualNetworkByID S (va_NetworkID address)) (\<lambda>network. check (check_in_network network address))"

definition touchVirtualAddress :: "'db address_store \<Rightarrow> int \<Rightarrow> string \<Rightarrow> ('db, unit) action" where
  "touchVirtualAddress S networkID deviceID =
     onResult (call (as_GetVirtualAddress S networkID deviceID)) (\<lambda>r. case r of
       Inl ErrNoRows \<Rightarrow>
         andThen (virtualNetworkByID S networkID) (\<lambda>network.
         andThen (allocateVirtualAddress S network deviceID '''') (\<lambda>_. ret ()))
     | Inl err \<Rightarrow> fail err
     | Inr address \<Rightarrow> call (as_UpsertVirtualAddress S address))"

definition no_network :: VirtualNetwork where
  "no_network = \<lparr>vn_ID = 0, vn_Name = '''', vn_CIDR = '''', vn_MTU = 0, vn_MSS = 0, vn_PathPolicy = '''', vn_TCPFastPath = '''',
     vn_Enabled = False, vn_CreatedAt = '''', vn_UpdatedAt = ''''\<rparr>"

definition lanNetworkAndAddress :: "'db address_store \<Rightarrow> string \<Rightarrow> ('db, VirtualNetwork \<times> VirtualAddress) action" where
  "lanNetworkAndAddress S deviceID =
     onResult (call (as_GetVirtualAddressByDevice S deviceID)) (\<lambda>r. case r of
       Inr address \<Rightarrow>
         andThen (call (as_ListVirtualNetworks S)) (\<lambda>networks.
           case find (\<lambda>network. vn_ID network = va_NetworkID address) networks of
             None \<Rightarrow> fail ErrNoRows
           | Some network \<Rightarrow> ret (network, address))
     | Inl ErrNoRows \<Rightarrow> andThen (call (as_EnsureDefaultVirtualNetwork S)) (\<lambda>network. ret (network, no_address))
     | Inl err \<Rightarrow> fail err)"

definition validateSubnetAdvertisement :: "string \<Rightarrow> server_error option" where
  "validateSubnetAdvertisement cidr =
     (case ParseCIDR cidr of
        None \<Rightarrow> Some (badRequest ''bad_route'' ''cidr must be an ipv4 subnet'')
      | Some (ip, ipNet) \<Rightarrow>
          if To4 ip = [] then Some (badRequest ''bad_route'' ''cidr must be an ipv4 subnet'')
          else if cidr = ''0.0.0.0/0'' then Some (badRequest ''default_route_forbidden'' ''default route is not supported'')
          else None)"

section \<open>IPv4 addresses as numbers\<close>

definition val4 :: "bytes \<Rightarrow> nat" where
  "val4 bs = foldl (\<lambda>v b. 256 * v + unat b) 0 bs"

fun rval :: "bytes \<Rightarrow> nat" where
  "rval [] = 0"
| "rval (b # bs) = unat b + 256 * rval bs"

lemma val4_rev: "val4 bs = rval (rev bs)"
proof -
  have "foldl (\<lambda>v b. 256 * v + unat b) 0 (rev xs) = rval xs" for xs
    by (induction xs) simp_all
  then show ?thesis by (metis val4_def rev_rev_ident)
qed

lemma rval_less: "rval bs < 256 ^ length bs"
proof (induction bs)
  case (Cons b bs)
  have "unat b < 256" by (rule unat_byte)
  with Cons show ?case by simp
qed simp

lemma length_increment [simp]: "length (increment bs) = length bs"
  by (induction bs) auto

lemma unat_inc: "unat (b + 1) = (if b + 1 = 0 then 0 else unat b + 1)" for b :: byte
  using unatSuc [of b] by (simp add: add.commute)

lemma unat_full: "b + 1 = 0 \<Longrightarrow> unat b = 255" for b :: byte
proof -
  assume "b + 1 = 0"
  then have "b = - 1" by (simp add: eq_neg_iff_add_eq_0)
  then show ?thesis by (simp add: unsigned_minus_1_eq_mask mask_eq_exp_minus_1)
qed

lemma rval_increment: "rval (increment bs) = (rval bs + 1) mod 256 ^ length bs"
proof (induction bs)
  case (Cons b bs)
  show ?case
  proof (cases "b + 1 = 0")
    case True
    have "256 * ((rval bs + 1) mod 256 ^ length bs) = (256 * (rval bs + 1)) mod (256 * 256 ^ length bs)"
      by (rule mult_mod_right)
    also have "256 * (rval bs + 1) = rval (b # bs) + 1" using unat_full [OF True] by simp
    finally show ?thesis using True Cons by simp
  next
    case False
    then have "rval (increment (b # bs)) = rval (b # bs) + 1" by (simp add: unat_inc)
    moreover have "\<dots> < 256 ^ length (b # bs)"
      using rval_less [of "(b + 1) # bs"] False by (simp add: unat_inc)
    ultimately show ?thesis by simp
  qed
qed simp

lemma rval_inject: "length x = length y \<Longrightarrow> rval x = rval y \<Longrightarrow> x = y"
proof (induction x y rule: list_induct2)
  case (Cons b x c y)
  have mod: "rval (d # z) mod 256 = unat d" for d z by (simp add: unat_byte)
  have "unat b = unat c" using mod [of b x, symmetric] mod [of c y] Cons.prems by (simp only:)
  then show ?case using Cons by (auto intro: unsigned_word_eqI)
qed simp

lemma val4_nextIPv4: "length ip = 4 \<Longrightarrow> val4 (nextIPv4 ip) = (val4 ip + 1) mod 2 ^ 32"
  by (simp add: val4_rev nextIPv4_def rval_increment)

lemma length_nextIPv4: "length ip = 4 \<Longrightarrow> length (nextIPv4 ip) = 4"
  by (simp add: nextIPv4_def)

lemma val4_less: "length ip = 4 \<Longrightarrow> val4 ip < 2 ^ 32"
  using rval_less [of "rev ip"] by (simp add: val4_rev)

lemma val4_inject: "length x = 4 \<Longrightarrow> length y = 4 \<Longrightarrow> val4 x = val4 y \<longleftrightarrow> x = y"
  using rval_inject [of "rev x" "rev y"] by (auto simp: val4_rev)

definition word4 :: "bytes \<Rightarrow> uint32" where
  "word4 x = push_bit 24 (ucast (x ! 0)) OR push_bit 16 (ucast (x ! 1)) OR push_bit 8 (ucast (x ! 2)) OR ucast (x ! 3)"

lemma bit_word4: "bit (word4 x) j \<longleftrightarrow> j < 32 \<and> bit (x ! (3 - j div 8)) (j mod 8)"
proof -
  have *: "bit (x ! i) (j - k) \<longleftrightarrow> bit (x ! i) (j mod 8)" if "j div 8 = k div 8" "k mod 8 = 0" for i k
    using that by (metis add_diff_cancel_left' mod_mult_div_eq add.commute add_0 mult_div_mod_eq)
  have high: "\<not> bit (x ! i) (j - k)" if "k + 8 \<le> j" for i k
    using that byte_no_high_bit [of "j - k" "x ! i"] by simp
  consider "j < 8" | "8 \<le> j" "j < 16" | "16 \<le> j" "j < 24" | "24 \<le> j" "j < 32" | "32 \<le> j" by linarith
  then show ?thesis
  proof cases
    case 1
    then show ?thesis by (auto simp: word4_def bit_simps)
  next
    case 2
    then have "j div 8 = 1" by simp
    then show ?thesis using 2 * [of 8 2] high [of 0 3] by (auto simp: word4_def bit_simps)
  next
    case 3
    then have "j div 8 = 2" by simp
    then show ?thesis using 3 * [of 16 1] high [of 0 3] high [of 8 2] by (auto simp: word4_def bit_simps)
  next
    case 4
    then have "j div 8 = 3" by simp
    then show ?thesis using 4 * [of 24 0] high [of 0 3] high [of 8 2] high [of 16 1] by (auto simp: word4_def bit_simps)
  next
    case 5
    then show ?thesis by (auto dest: bit_imp_le_length)
  qed
qed

lemma unat_word4: "length x = 4 \<Longrightarrow> unat (word4 x) = val4 x"
proof -
  assume "length x = 4"
  then obtain a b c d where x: "x = [a, b, c, d]" by (auto simp: numeral_eq_Suc length_Suc_conv)
  have ucast: "(ucast b :: uint32) = of_nat (unat b)" for b :: byte by simp
  have "word4 x = push_bit 24 (ucast a) + (push_bit 16 (ucast b) + (push_bit 8 (ucast c) + ucast d))"
  proof -
    have 1: "push_bit 8 (ucast c) + ucast d = push_bit 8 (ucast c) OR (ucast d :: uint32)"
      by (rule disjunctive_add_eq_or, rule bit_word_eqI) (auto simp: bit_simps dest: bit_imp_le_length)
    have 2: "push_bit 16 (ucast b) + (push_bit 8 (ucast c) OR ucast d) = push_bit 16 (ucast b) OR push_bit 8 (ucast c) OR (ucast d :: uint32)"
      by (rule disjunctive_add_eq_or, rule bit_word_eqI) (auto simp: bit_simps dest: bit_imp_le_length)
    have 3: "push_bit 24 (ucast a) + (push_bit 16 (ucast b) OR push_bit 8 (ucast c) OR ucast d) =
        push_bit 24 (ucast a) OR push_bit 16 (ucast b) OR push_bit 8 (ucast c) OR (ucast d :: uint32)"
      by (rule disjunctive_add_eq_or, rule bit_word_eqI) (auto simp: bit_simps dest: bit_imp_le_length)
    show ?thesis by (simp add: word4_def x 1 2 3)
  qed
  also have "\<dots> = of_nat (val4 x)"
    by (simp add: push_bit_eq_mult val4_def x)
  finally have "word4 x = of_nat (val4 x)" .
  then show ?thesis using val4_less [OF \<open>length x = 4\<close>] by (simp add: unat_of_nat)
qed

lemma mask_byte_bit: "bit (mask_byte n) k \<longleftrightarrow> k < 8 \<and> 8 - min 8 n \<le> k"
  by (auto simp: mask_byte_def bit_simps)

lemma masked_eq_word4:
  assumes "length x = 4" "length y = 4" "p \<le> 32"
  shows "and_bytes x (CIDRMask p 32) = and_bytes y (CIDRMask p 32)
     \<longleftrightarrow> drop_bit (32 - p) (word4 x) = drop_bit (32 - p) (word4 y)" (is "?l \<longleftrightarrow> ?r")
proof -
  have idx: "3 - (24 - 8 * i + k) div 8 = i" "(24 - 8 * i + k) mod 8 = k" if "i < 4" "k < 8" for i k :: nat
  proof -
    have eq: "24 - 8 * i + k = k + 8 * (3 - i)" using that by linarith
    show "3 - (24 - 8 * i + k) div 8 = i" "(24 - 8 * i + k) mod 8 = k"
      unfolding eq using that by simp_all
  qed
  have "?l \<longleftrightarrow> (\<forall>i < 4. x ! i AND mask_byte (p - 8 * i) = y ! i AND mask_byte (p - 8 * i))"
    using assms by (simp add: and_bytes_eq_iff CIDRMask_nth)
  also have "\<dots> \<longleftrightarrow> (\<forall>i < 4. \<forall>k < 8. 8 - min 8 (p - 8 * i) \<le> k \<longrightarrow> bit (x ! i) k = bit (y ! i) k)"
    by (auto simp: bit_eq_iff bit_simps mask_byte_bit)
  also have "\<dots> \<longleftrightarrow> (\<forall>j. 32 - p \<le> j \<and> j < 32 \<longrightarrow> bit (word4 x) j = bit (word4 y) j)" (is "?a \<longleftrightarrow> ?b")
  proof
    assume ?a
    have "bit (x ! (3 - j div 8)) (j mod 8) = bit (y ! (3 - j div 8)) (j mod 8)" if "32 - p \<le> j" "j < 32" for j
    proof -
      have "8 - min 8 (p - 8 * (3 - j div 8)) \<le> j mod 8"
      proof -
        have "j = 8 * (j div 8) + j mod 8" "j div 8 \<le> 3" using that by simp_all
        with that assms(3) show ?thesis by linarith
      qed
      with \<open>?a\<close> show ?thesis by simp
    qed
    then show ?b by (simp add: bit_word4)
  next
    assume ?b
    have "bit (x ! i) k = bit (y ! i) k" if "i < 4" "k < 8" "8 - min 8 (p - 8 * i) \<le> k" for i k
    proof -
      have "32 - p \<le> 24 - 8 * i + k" "24 - 8 * i + k < 32" using that assms(3) by linarith+
      then have "bit (word4 x) (24 - 8 * i + k) = bit (word4 y) (24 - 8 * i + k)" using \<open>?b\<close> by blast
      then show ?thesis using \<open>24 - 8 * i + k < 32\<close> by (simp add: bit_word4 idx that(1,2))
    qed
    then show ?a by blast
  qed
  also have "\<dots> \<longleftrightarrow> ?r"
  proof
    assume l: "\<forall>j. 32 - p \<le> j \<and> j < 32 \<longrightarrow> bit (word4 x) j = bit (word4 y) j"
    show ?r by (rule bit_word_eqI) (use l in \<open>auto simp: bit_simps bit_word4\<close>)
  next
    assume ?r
    have db: "bit (drop_bit (32 - p) w) i = bit w (32 - p + i)" for w :: uint32 and i by (simp add: bit_simps)
    have shifted: "bit (word4 x) (32 - p + i) = bit (word4 y) (32 - p + i)" for i
      using \<open>?r\<close> db [of "word4 x" i] db [of "word4 y" i] by simp
    show "\<forall>j. 32 - p \<le> j \<and> j < 32 \<longrightarrow> bit (word4 x) j = bit (word4 y) j"
    proof (intro allI impI)
      fix j
      assume "32 - p \<le> j \<and> j < 32"
      then show "bit (word4 x) j = bit (word4 y) j" using shifted [of "j - (32 - p)"] by simp
    qed
  qed
  finally show ?thesis .
qed

lemma Contains_val4:
  assumes "net4 n p" "length x = 4"
  shows "Contains n x \<longleftrightarrow> val4 x div 2 ^ (32 - p) = val4 (net_IP n) div 2 ^ (32 - p)"
proof -
  have p: "p \<le> 32" "length (net_IP n) = 4" using assms(1) by (simp_all add: net4_def)
  have "Contains n x \<longleftrightarrow> drop_bit (32 - p) (word4 x) = drop_bit (32 - p) (word4 (net_IP n))"
    using assms p masked_eq_word4 [OF assms(2) p(2,1)] by (simp add: Contains_net4 net4D)
  also have "\<dots> \<longleftrightarrow> unat (drop_bit (32 - p) (word4 x)) = unat (drop_bit (32 - p) (word4 (net_IP n)))"
    by (auto intro: unsigned_word_eqI)
  also have "\<dots> \<longleftrightarrow> val4 x div 2 ^ (32 - p) = val4 (net_IP n) div 2 ^ (32 - p)"
    unfolding unsigned_drop_bit_eq unat_word4 [OF assms(2)] unat_word4 [OF p(2)]
    using val4_less [OF assms(2)] val4_less [OF p(2)] by (simp add: drop_bit_eq_div take_bit_nat_eq_self)
  finally show ?thesis .
qed

section \<open>The search for a free address\<close>

text \<open>A host of a network: an address in it other than the network's own address and the broadcast address.\<close>

definition host :: "IPNet \<Rightarrow> ip \<Rightarrow> bool" where
  "host n x \<longleftrightarrow> length x = 4 \<and> Contains n x \<and> x \<noteq> net_IP n \<and> \<not> isIPv4Broadcast n x"

lemma free_ip_unfold:
  "free_ip n used ip =
     (if \<not> Contains n ip then Some None
      else if isIPv4Broadcast n ip \<or> IPv4String ip \<in> set used then free_ip n used (nextIPv4 ip)
      else Some (Some ip))"
  by (rule free_ip.simps)

text \<open>What the search must return from \<open>ip\<close> on: the first address of the network, in numerical
  order, that is neither the broadcast address nor in use.\<close>

definition first_free_from :: "IPNet \<Rightarrow> string list \<Rightarrow> ip \<Rightarrow> ip option \<Rightarrow> bool" where
  "first_free_from n used ip r \<longleftrightarrow>
     (case r of
        None \<Rightarrow> \<forall>x. length x = 4 \<and> Contains n x \<and> val4 ip \<le> val4 x \<longrightarrow> isIPv4Broadcast n x \<or> IPv4String x \<in> set used
      | Some y \<Rightarrow> length y = 4 \<and> Contains n y \<and> val4 ip \<le> val4 y \<and> \<not> isIPv4Broadcast n y \<and> IPv4String y \<notin> set used
          \<and> (\<forall>x. length x = 4 \<and> Contains n x \<and> val4 ip \<le> val4 x \<and> val4 x < val4 y
               \<longrightarrow> isIPv4Broadcast n x \<or> IPv4String x \<in> set used))"

lemma outside_above:
  assumes "net4 n p" "length ip = 4" "length x = 4" "\<not> Contains n ip" "val4 (net_IP n) \<le> val4 ip" "val4 ip \<le> val4 x"
  shows "\<not> Contains n x"
proof
  assume "Contains n x"
  let ?m = "2 ^ (32 - p)"
  have "val4 x div ?m = val4 (net_IP n) div ?m" using \<open>Contains n x\<close> assms(1,3) by (simp add: Contains_val4)
  moreover have "val4 (net_IP n) div ?m \<le> val4 ip div ?m" "val4 ip div ?m \<le> val4 x div ?m"
    using assms(5,6) by (simp_all add: div_le_mono)
  ultimately have "val4 ip div ?m = val4 (net_IP n) div ?m" by simp
  then show False using assms(1,2,4) by (simp add: Contains_val4)
qed

text \<open>In a network other than \<^verbatim>\<open>0.0.0.0/0\<close> the last address of all leaves the network when it is
  incremented, so the search cannot go round.\<close>

lemma top_leaves:
  assumes "net4 n p" "0 < p" "length ip = 4" "val4 ip = 2 ^ 32 - 1" "Contains n ip"
  shows "\<not> Contains n (nextIPv4 ip)"
proof
  assume *: "Contains n (nextIPv4 ip)"
  have p: "p \<le> 32" using assms(1) by (simp add: net4_def)
  have "val4 (nextIPv4 ip) = 0" using assms(3,4) by (simp add: val4_nextIPv4)
  then have "val4 (net_IP n) div 2 ^ (32 - p) = 0"
    using * Contains_val4 [OF assms(1) length_nextIPv4 [OF assms(3)]] by simp
  moreover have "val4 ip div 2 ^ (32 - p) = val4 (net_IP n) div 2 ^ (32 - p)"
    using assms(5) Contains_val4 [OF assms(1,3)] by simp
  ultimately have "(2 ^ 32 - 1 :: nat) div 2 ^ (32 - p) = 0" using assms(4) by simp
  then have "(2 ^ 32 - 1 :: nat) < 2 ^ (32 - p)" by (simp add: div_eq_0_iff)
  moreover have "(2 :: nat) ^ (32 - p) \<le> 2 ^ 31" using assms(2) by (intro power_increasing) auto
  ultimately show False by simp
qed

lemma free_ip_correct:
  assumes "net4 n p" "0 < p" "length ip = 4" "val4 (net_IP n) \<le> val4 ip"
  shows "\<exists>r. free_ip n used ip = Some r \<and> first_free_from n used ip r"
  using assms(3,4)
proof (induction "2 ^ 32 - val4 ip" arbitrary: ip rule: less_induct)
  case less
  show ?case
  proof (cases "Contains n ip")
    case False
    then have "first_free_from n used ip None"
      using outside_above [OF assms(1) less.prems(1)] less.prems(2) by (auto simp: first_free_from_def)
    then show ?thesis using False by (subst free_ip_unfold) simp
  next
    case True
    show ?thesis
    proof (cases "isIPv4Broadcast n ip \<or> IPv4String ip \<in> set used")
      case False
      then have "first_free_from n used ip (Some ip)" using True less.prems by (auto simp: first_free_from_def)
      then show ?thesis using True False by (subst free_ip_unfold) simp
    next
      case skip: True
      have step: "free_ip n used ip = free_ip n used (nextIPv4 ip)" using True skip by (subst free_ip_unfold) simp
      show ?thesis
      proof (cases "val4 ip = 2 ^ 32 - 1")
        case top: True
        then have "free_ip n used ip = Some None"
          using top_leaves [OF assms(1,2) less.prems(1) top True] step by (subst step, subst free_ip_unfold) simp
        moreover have "first_free_from n used ip None"
          using skip top val4_less val4_inject [OF _ less.prems(1)]
          by (fastforce simp: first_free_from_def)
        ultimately show ?thesis by blast
      next
        case False
        then have nx: "val4 (nextIPv4 ip) = val4 ip + 1" "val4 ip < 2 ^ 32 - 1"
          using val4_less [OF less.prems(1)] val4_nextIPv4 [OF less.prems(1)] by simp_all
        then have "2 ^ 32 - val4 (nextIPv4 ip) < 2 ^ 32 - val4 ip" "val4 (net_IP n) \<le> val4 (nextIPv4 ip)"
          using less.prems(2) by linarith+
        then obtain r where r: "free_ip n used (nextIPv4 ip) = Some r" "first_free_from n used (nextIPv4 ip) r"
          using less.hyps [OF _ length_nextIPv4 [OF less.prems(1)]] by blast
        have "val4 ip \<le> val4 x \<longleftrightarrow> x = ip \<or> val4 (nextIPv4 ip) \<le> val4 x" if "length x = 4" for x
          using val4_inject [OF that less.prems(1)] nx by auto
        then have "first_free_from n used ip r"
          using r(2) skip by (auto simp: first_free_from_def split: option.splits)
        then show ?thesis using r(1) step by simp
      qed
    qed
  qed
qed

lemma base_least:
  assumes "net4 n p" "length x = 4" "Contains n x"
  shows "val4 (net_IP n) \<le> val4 x"
proof -
  let ?b = "net_IP n" and ?m = "2 ^ (32 - p) :: nat"
  have p: "p \<le> 32" "length ?b = 4" "and_bytes ?b (CIDRMask p 32) = ?b"
    using assms(1) net4D [OF assms(1)] by (simp_all add: net4_def)
  have low: "\<not> bit (word4 ?b) j" if "j < 32 - p" for j
  proof -
    have j: "j = 8 * (j div 8) + j mod 8" "j < 32" "j div 8 \<le> 3" using that by simp_all
    have "?b ! (3 - j div 8) = ?b ! (3 - j div 8) AND mask_byte (p - 8 * (3 - j div 8))"
      using arg_cong [OF p(3), of "\<lambda>l. l ! (3 - j div 8)"] p(2) by (simp add: and_bytes_def CIDRMask_nth)
    moreover have "\<not> 8 - min 8 (p - 8 * (3 - j div 8)) \<le> j mod 8" using j that p(1) by linarith
    ultimately have "\<not> bit (?b ! (3 - j div 8)) (j mod 8)" by (metis bit_and_iff mask_byte_bit)
    then show ?thesis by (simp add: bit_word4)
  qed
  have "take_bit (32 - p) (word4 ?b) = 0" by (rule bit_word_eqI) (simp add: bit_simps low)
  then have "take_bit (32 - p) (val4 ?b) = 0"
    using unsigned_take_bit_eq [of "32 - p" "word4 ?b", where ?'a = nat] unat_word4 [OF p(2)] by simp
  then have "val4 ?b = ?m * (val4 ?b div ?m)" by (simp add: take_bit_eq_mod mod_eq_0_iff_dvd)
  also have "\<dots> = ?m * (val4 x div ?m)" using assms by (simp add: Contains_val4)
  also have "\<dots> \<le> val4 x" by (rule times_div_less_eq_dividend)
  finally show ?thesis .
qed


definition least_free_host :: "IPNet \<Rightarrow> string list \<Rightarrow> ip \<Rightarrow> bool" where
  "least_free_host n used ip \<longleftrightarrow> host n ip \<and> IPv4String ip \<notin> set used
     \<and> (\<forall>x. host n x \<and> IPv4String x \<notin> set used \<longrightarrow> val4 ip \<le> val4 x)"

lemma search_from_base:
  assumes "net4 n p" "0 < p"
  shows "(free_ip n used (nextIPv4 (net_IP n)) = Some None \<and> (\<forall>x. host n x \<longrightarrow> IPv4String x \<in> set used))
    \<or> (\<exists>ip. free_ip n used (nextIPv4 (net_IP n)) = Some (Some ip) \<and> least_free_host n used ip)"
proof -
  let ?b = "net_IP n"
  have b: "length ?b = 4" "Contains n ?b" using assms(1) Contains_own_base by (auto simp: net4_def)
  have above: "val4 ?b + 1 \<le> val4 x" if "host n x" for x
    using that base_least [OF assms(1)] val4_inject [OF b(1), of x] by (fastforce simp: host_def)
  show ?thesis
  proof (cases "val4 ?b = 2 ^ 32 - 1")
    case True
    then have "free_ip n used (nextIPv4 ?b) = Some None"
      using top_leaves [OF assms b(1) True b(2)] by (subst free_ip_unfold) simp
    moreover have "\<not> host n x" for x
    proof
      assume x: "host n x"
      then have "val4 x < 2 ^ 32" using val4_less by (simp add: host_def)
      then show False using above [OF x] True by simp
    qed
    ultimately show ?thesis by blast
  next
    case False
    then have nx: "val4 (nextIPv4 ?b) = val4 ?b + 1" using val4_nextIPv4 [OF b(1)] val4_less [OF b(1)] by simp
    then obtain r where r: "free_ip n used (nextIPv4 ?b) = Some r" "first_free_from n used (nextIPv4 ?b) r"
      using free_ip_correct [OF assms length_nextIPv4 [OF b(1)]] by fastforce
    show ?thesis
    proof (cases r)
      case None
      then have "IPv4String x \<in> set used" if "host n x" for x
        using r(2) above [OF that] that nx by (auto simp: first_free_from_def host_def)
      then show ?thesis using r(1) None by blast
    next
      case (Some y)
      have "host n y" using r(2) Some nx by (auto simp: first_free_from_def host_def)
      moreover have "val4 y \<le> val4 x" if "host n x" "IPv4String x \<notin> set used" for x
        using r(2) Some above [OF that(1)] that nx by (auto simp: first_free_from_def host_def not_less [symmetric])
      ultimately have "least_free_host n used y" using r(2) Some by (auto simp: least_free_host_def first_free_from_def)
      then show ?thesis using r(1) Some by blast
    qed
  qed
qed

lemma check_in_network_host:
  assumes "ParseCIDR (vn_CIDR network) = Some (i, n)" "net4 n p" "length ip = 4" "va_VirtualIP a = IPv4String ip"
  shows "check_in_network network a = None \<longleftrightarrow> host n ip"
proof -
  have b: "length (net_IP n) = 4" using assms(2) by (simp add: net4_def)
  have "IP_Equal ip (net_IP n) \<longleftrightarrow> ip = net_IP n" using assms(3) b by (simp add: IP_Equal_def)
  moreover have "ip \<noteq> []" using assms(3) by auto
  ultimately show ?thesis
    using assms b by (auto simp: check_in_network_def plain_IPv4String ParseIP_String host_def Let_def)
qed

lemma store_address_result:
  assumes "store_address S network deviceID hostname usedHostnames ip d = Some (d', Inr address)"
  shows "va_DeviceID address = deviceID \<and> va_NetworkID address = vn_ID network \<and> va_VirtualIP address = IPv4String ip"
  using assms
  by (auto simp: store_address_def onResult_def call_def ret_def fail_def no_address_def Let_def
      split: sum.splits if_splits prod.splits)

lemma store_address_returns: "store_address S network deviceID hostname usedHostnames ip d \<noteq> None"
  by (auto simp: store_address_def onResult_def call_def ret_def fail_def Let_def split: sum.splits prod.splits)


definition demo_network :: VirtualNetwork where
  "demo_network = no_network\<lparr>vn_ID := 1, vn_CIDR := IPv4String [10, 0, 0, 0] @ CHR ''/'' # dec_nat 30\<rparr>"

definition demo_store :: "VirtualAddress list address_store" where
  "demo_store = \<lparr>as_ListVirtualAddresses = (\<lambda>_ d. (d, Inr d)), as_UpsertVirtualAddress = (\<lambda>a d. (a # d, Inr ())),
     as_GetVirtualAddress = (\<lambda>_ _ d. (d, Inl ErrNoRows)), as_GetVirtualAddressByDevice = (\<lambda>_ d. (d, Inl ErrNoRows)),
     as_ListVirtualNetworks = (\<lambda>d. (d, Inr [demo_network])), as_EnsureDefaultVirtualNetwork = (\<lambda>d. (d, Inr demo_network))\<rparr>"


text \<open>The ban on advertising the default route only catches one spelling: every other address with
  the prefix length 0 is accepted, although the subnet it denotes contains every IPv4 address.\<close>

theorem validateSubnetAdvertisement_default_route:
  assumes "length bs = 4" "bs \<noteq> [0, 0, 0, 0]" "length x = 4"
  shows "validateSubnetAdvertisement (IPv4String bs @ ''/0'') = None
    \<and> (\<exists>i n. ParseCIDR (IPv4String bs @ ''/0'') = Some (i, n) \<and> Contains n x)"
proof -
  let ?n = "\<lparr>net_IP = and_bytes bs (CIDRMask 0 32), net_Mask = CIDRMask 0 32\<rparr>"
  have zero: "dec_nat 0 = ''0''" by (simp add: dec_nat.simps digit_char_def char_of_def bit_0)
  then have spelled: "IPv4String bs @ ''/0'' = IPv4String bs @ CHR ''/'' # dec_nat 0" by simp
  have parse: "ParseCIDR (IPv4String bs @ ''/0'') = Some (v4InV6Prefix @ bs, ?n)"
    unfolding spelled by (rule ParseCIDR_text) (use assms in simp_all)
  have "IPv4String [0, 0, 0, 0] = ''0.0.0.0''" by (simp add: IPv4String_def zero)
  then have "IPv4String bs \<noteq> ''0.0.0.0''" using IPv4String_inject [of bs "[0, 0, 0, 0]"] assms by simp
  then have "IPv4String bs @ ''/0'' \<noteq> ''0.0.0.0/0''"
    using append_same_eq [of "IPv4String bs" "''/0''" "''0.0.0.0''"] by simp
  moreover have "bs \<noteq> []" using assms(1) by auto
  ultimately have "validateSubnetAdvertisement (IPv4String bs @ ''/0'') = None"
    using parse assms(1) by (simp add: validateSubnetAdvertisement_def)
  moreover have "Contains ?n x"
    using Contains_val4 [OF net4_CIDRMask [of bs 0] assms(3)] assms val4_less [OF assms(3)]
      val4_less [of "and_bytes bs (CIDRMask 0 32)"] by simp
  ultimately show ?thesis using parse by blast
qed

theorem validateSubnetAdvertisement_default_route_witness:
  "validateSubnetAdvertisement (IPv4String [1, 2, 3, 4] @ ''/0'') = None"
  using validateSubnetAdvertisement_default_route [of "[1, 2, 3, 4]" "[9, 9, 9, 9]"] by simp

end
