(* ===== verification/LanPolicy.thy ===== *)
theory LanPolicy
  imports ServerApi Router Vnet
begin

text \<open>
  The policy of a LAN as the server keeps and distributes it, from \<^verbatim>\<open>internal/server/handlers_lan.go\<close>:
  the checks of networks, access rules, device groups and advertised subnets that administrators enter,
  and the expansion of rules over groups into rules over devices that is sent to the agents, whose
  routers (\<open>Router\<close>) enforce them.

  A \<^verbatim>\<open>decode\<close> function gets the result of JSON decoding as its argument (\<open>None\<close> for a decoding error).
\<close>

subsection \<open>Networks\<close>

definition decodeVirtualNetwork :: "VirtualNetwork option \<Rightarrow> server_error + VirtualNetwork" where
  "decodeVirtualNetwork body =
     (case body of
        None \<Rightarrow> Inl (badRequest ''bad_json'' ''bad json'')
      | Some network \<Rightarrow>
          let network = network\<lparr>vn_Name := TrimSpace (vn_Name network), vn_CIDR := TrimSpace (vn_CIDR network),
                vn_PathPolicy := TrimSpace (vn_PathPolicy network), vn_TCPFastPath := TrimSpace (vn_TCPFastPath network)\<rparr> in
          if vn_Name network = '''' \<or> vn_CIDR network = '''' then Inl (badRequest ''bad_network'' ''name and cidr are required'')
          else if ParseCIDR (vn_CIDR network) = None then Inl (badRequest ''bad_network'' ''cidr is invalid'')
          else if vn_MTU network < 0 \<or> 9000 < vn_MTU network \<or> (0 < vn_MTU network \<and> vn_MTU network < 576)
          then Inl (badRequest ''bad_network'' ''mtu must be 0 or between 576 and 9000'')
          else if vn_MSS network < 0 \<or> DefaultMSS < vn_MSS network \<or> (0 < vn_MSS network \<and> vn_MSS network < 536)
          then Inl (badRequest ''bad_network'' ''mss must be 0 or between 536 and 1200'')
          else if 0 < vn_MTU network \<and> 0 < vn_MSS network \<and> MSSForMTU (vn_MTU network) < vn_MSS network
          then Inl (badRequest ''bad_network'' ''mss is too large for mtu'')
          else if vn_PathPolicy network \<notin> {'''', ''auto'', ''prefer_p2p'', ''prefer_relay'', ''relay_only''}
          then Inl (badRequest ''bad_network'' ''path_policy is invalid'')
          else
            let network = (if vn_PathPolicy network = '''' then network\<lparr>vn_PathPolicy := ''prefer_p2p''\<rparr> else network) in
            if vn_TCPFastPath network \<notin> {'''', ''auto'', ''off'', ''force''}
            then Inl (badRequest ''bad_network'' ''tcp_fast_path is invalid'')
            else Inr (if vn_TCPFastPath network = '''' then network\<lparr>vn_TCPFastPath := ''auto''\<rparr> else network))"

subsection \<open>Groups\<close>

record group_request =
  gr_ID :: string
  gr_Name :: string
  gr_DeviceIDs :: "string list"

fun group_members :: "string list \<Rightarrow> string list \<Rightarrow> string list" where
  "group_members met [] = []"
| "group_members met (deviceID # rest) =
     (let deviceID = TrimSpace deviceID in
      if deviceID = '''' \<or> deviceID \<in> set met then group_members met rest
      else deviceID # group_members (deviceID # met) rest)"

definition decodeLANGroup :: "group_request option \<Rightarrow> server_error + VirtualDeviceGroup \<times> string list" where
  "decodeLANGroup body =
     (case body of
        None \<Rightarrow> Inl (badRequest ''bad_json'' ''bad json'')
      | Some req \<Rightarrow>
          let group = \<lparr>vg_ID = TrimSpace (gr_ID req), vg_Name = TrimSpace (gr_Name req), vg_CreatedAt = '''', vg_UpdatedAt = ''''\<rparr> in
          if vg_ID group = '''' \<or> vg_Name group = '''' then Inl (badRequest ''bad_group'' ''id and name are required'')
          else Inr (group, group_members [] (gr_DeviceIDs req)))"

subsection \<open>Access rules\<close>

definition decodeVirtualACLRule :: "VirtualACLRule option \<Rightarrow> server_error + VirtualACLRule" where
  "decodeVirtualACLRule body =
     (case body of
        None \<Rightarrow> Inl (badRequest ''bad_json'' ''bad json'')
      | Some rule \<Rightarrow>
          let rule = rule\<lparr>acl_Protocol := ToLower (TrimSpace (acl_Protocol rule)), acl_Action := ToLower (TrimSpace (acl_Action rule))\<rparr>;
              rule = (if acl_Protocol rule = '''' then rule\<lparr>acl_Protocol := ''tcp''\<rparr> else rule);
              rule = (if acl_Action rule = '''' then rule\<lparr>acl_Action := ''allow''\<rparr> else rule) in
          if acl_NetworkID rule \<le> 0 then Inl (badRequest ''bad_acl'' ''network_id is required'')
          else if acl_Protocol rule \<notin> {''tcp'', ''udp'', ''icmp'', ''any''}
          then Inl (badRequest ''bad_acl'' ''protocol must be tcp, udp, icmp or any'')
          else if acl_Action rule \<notin> {''allow'', ''deny''} then Inl (badRequest ''bad_acl'' ''action must be allow or deny'')
          else if acl_PortStart rule < 0 \<or> acl_PortEnd rule < 0 \<or> 65535 < acl_PortStart rule \<or> 65535 < acl_PortEnd rule
                \<or> acl_PortEnd rule < acl_PortStart rule
          then Inl (badRequest ''bad_acl'' ''invalid port range'')
          else Inr rule)"

text \<open>The maps \<^verbatim>\<open>byGroup\<close> and \<^verbatim>\<open>known\<close> of the expansion: the members of a group in the order of the rows,
  and the known devices in one order of iteration.\<close>

definition members_of :: "VirtualDeviceGroupMember list \<Rightarrow> string \<Rightarrow> string list" where
  "members_of members groupID = map gm_DeviceID (filter (\<lambda>m. gm_GroupID m = groupID) members)"

definition known_devices :: "VirtualAddress list \<Rightarrow> string list" where
  "known_devices addresses = remdups (map va_DeviceID addresses)"

definition aclDevices :: "string \<Rightarrow> string \<Rightarrow> (string \<Rightarrow> string list) \<Rightarrow> string list \<Rightarrow> string list" where
  "aclDevices deviceID groupID byGroup known =
     (if TrimSpace deviceID \<noteq> '''' then [TrimSpace deviceID]
      else if TrimSpace groupID \<noteq> '''' then byGroup (TrimSpace groupID)
      else known)"

definition expand_rule :: "(string \<Rightarrow> string list) \<Rightarrow> string list \<Rightarrow> VirtualACLRule \<Rightarrow> VirtualACLRule list" where
  "expand_rule byGroup known rule =
     (let srcs = aclDevices (acl_SourceDeviceID rule) (acl_SourceGroupID rule) byGroup known;
          dsts = aclDevices (acl_TargetDeviceID rule) (acl_TargetGroupID rule) byGroup known
      in concat (map (\<lambda>src. map (\<lambda>dst. rule\<lparr>acl_SourceDeviceID := src, acl_TargetDeviceID := dst,
                                            acl_SourceGroupID := '''', acl_TargetGroupID := ''''\<rparr>) dsts) srcs))"

definition expandVirtualACLRules ::
  "('db, VirtualDeviceGroupMember list) store_op \<Rightarrow> VirtualACLRule list \<Rightarrow> VirtualAddress list \<Rightarrow> ('db, VirtualACLRule list) action"
where
  "expandVirtualACLRules listMembers rules addresses =
     andThen (call listMembers) (\<lambda>members.
       ret (concat (map (expand_rule (members_of members) (known_devices addresses)) rules)))"

subsection \<open>The version of a configuration\<close>

definition lanConfigVersion ::
  "VirtualNetwork \<Rightarrow> VirtualAddress list \<Rightarrow> VirtualACLRule list \<Rightarrow> VirtualRoute list \<Rightarrow> string"
where
  "lanConfigVersion network addresses acl routes =
     Join ([vn_UpdatedAt network, FormatInt (vn_ID network)] @ map va_UpdatedAt addresses @ map acl_UpdatedAt acl
           @ map vr_UpdatedAt routes) ''|''"

section \<open>The routers enforce the policy the administrators wrote\<close>

text \<open>The meaning of a rule on devices and groups, without the expansion: which device it names, the
  members of which group, or, with neither, every device of the network; the protocol and the ports
  are matched as by the router.\<close>

definition names :: "string \<Rightarrow> string \<Rightarrow> VirtualDeviceGroupMember list \<Rightarrow> VirtualAddress list \<Rightarrow> string \<Rightarrow> bool" where
  "names deviceID groupID members addresses device \<longleftrightarrow>
     (if TrimSpace deviceID \<noteq> '''' then device = TrimSpace deviceID
      else if TrimSpace groupID \<noteq> '''' then \<exists>m \<in> set members. gm_GroupID m = TrimSpace groupID \<and> gm_DeviceID m = device
      else \<exists>a \<in> set addresses. va_DeviceID a = device)"

definition denies_traffic :: "int \<Rightarrow> IPv4Header \<Rightarrow> VirtualACLRule \<Rightarrow> bool" where
  "denies_traffic networkID header rule \<longleftrightarrow>
     acl_Enabled rule \<and> acl_NetworkID rule = networkID \<and> EqualFold (TrimSpace (acl_Action rule)) ''deny''
     \<and> matchProtocol (acl_Protocol rule) (ih_Protocol header)
     \<and> (acl_PortStart rule \<le> 0 \<and> acl_PortEnd rule \<le> 0
        \<or> 0 < ih_DestPort header
           \<and> (if acl_PortStart rule \<le> 0 then acl_PortEnd rule else acl_PortStart rule) \<le> ih_DestPort header
           \<and> ih_DestPort header \<le> (if acl_PortEnd rule \<le> 0 then acl_PortStart rule else acl_PortEnd rule))"

definition rule_denies ::
  "VirtualDeviceGroupMember list \<Rightarrow> VirtualAddress list \<Rightarrow> int \<Rightarrow> string \<Rightarrow> string \<Rightarrow> IPv4Header \<Rightarrow> VirtualACLRule \<Rightarrow> bool"
where
  "rule_denies members addresses networkID src dst header rule \<longleftrightarrow>
     denies_traffic networkID header rule
     \<and> names (acl_SourceDeviceID rule) (acl_SourceGroupID rule) members addresses src
     \<and> names (acl_TargetDeviceID rule) (acl_TargetGroupID rule) members addresses dst"

lemma aclDevices_names:
  "device \<in> set (aclDevices deviceID groupID (members_of members) (known_devices addresses))
     \<longleftrightarrow> names deviceID groupID members addresses device"
  by (auto simp: aclDevices_def names_def members_of_def known_devices_def)

lemma aclDevices_not_blank:
  assumes "'''' \<notin> gm_DeviceID ` set members" "'''' \<notin> va_DeviceID ` set addresses"
  shows "'''' \<notin> set (aclDevices deviceID groupID (members_of members) (known_devices addresses))"
  using assms by (auto simp: aclDevices_def members_of_def known_devices_def)

lemma denied_by_expanded:
  assumes "s \<noteq> ''''" "t \<noteq> ''''"
  shows "denied_by n src dst h (rule\<lparr>acl_SourceDeviceID := s, acl_TargetDeviceID := t, acl_SourceGroupID := '''', acl_TargetGroupID := ''''\<rparr>)
     \<longleftrightarrow> s = src \<and> t = dst \<and> denies_traffic n h rule"
  using assms by (auto simp: denied_by_def matchACLRule_def denies_traffic_def Let_def)

lemma expand_rule_denies:
  assumes "'''' \<notin> gm_DeviceID ` set members" "'''' \<notin> va_DeviceID ` set addresses"
  shows "list_ex (denied_by n src dst h) (expand_rule (members_of members) (known_devices addresses) rule)
     \<longleftrightarrow> rule_denies members addresses n src dst h rule"
proof -
  let ?S = "aclDevices (acl_SourceDeviceID rule) (acl_SourceGroupID rule) (members_of members) (known_devices addresses)"
  let ?T = "aclDevices (acl_TargetDeviceID rule) (acl_TargetGroupID rule) (members_of members) (known_devices addresses)"
  have "'''' \<notin> set ?S" "'''' \<notin> set ?T" using aclDevices_not_blank [OF assms] by blast+
  then have one: "denied_by n src dst h (rule\<lparr>acl_SourceDeviceID := s, acl_TargetDeviceID := t, acl_SourceGroupID := '''',
        acl_TargetGroupID := ''''\<rparr>) \<longleftrightarrow> s = src \<and> t = dst \<and> denies_traffic n h rule" if "s \<in> set ?S" "t \<in> set ?T" for s t
    using that by (intro denied_by_expanded) auto
  have "list_ex (denied_by n src dst h) (expand_rule (members_of members) (known_devices addresses) rule)
     \<longleftrightarrow> (\<exists>s \<in> set ?S. \<exists>t \<in> set ?T. denied_by n src dst h (rule\<lparr>acl_SourceDeviceID := s, acl_TargetDeviceID := t,
            acl_SourceGroupID := '''', acl_TargetGroupID := ''''\<rparr>))"
    by (simp add: expand_rule_def list_ex_iff Let_def)
  also have "\<dots> \<longleftrightarrow> src \<in> set ?S \<and> dst \<in> set ?T \<and> denies_traffic n h rule" by (auto simp: one)
  also have "\<dots> \<longleftrightarrow> rule_denies members addresses n src dst h rule" by (auto simp: rule_denies_def aclDevices_names)
  finally show ?thesis .
qed

text \<open>With the rules expanded by the server, a router lets a packet from one device to another through exactly when
  no enabled rule of the network denies it, read on the devices and groups the rule names.  (Group members and the
  devices of the addresses have non-blank names, as the tables guarantee.)\<close>

lemma expanded_policy_enforced:
  assumes "'''' \<notin> gm_DeviceID ` set members" "'''' \<notin> va_DeviceID ` set addresses"
  shows "allowACL (concat (map (expand_rule (members_of members) (known_devices addresses)) rules)) n src dst h
     \<longleftrightarrow> \<not> (\<exists>rule \<in> set rules. rule_denies members addresses n src dst h rule)"
proof -
  have "list_ex (denied_by n src dst h) (concat (map (expand_rule (members_of members) (known_devices addresses)) rules))
     \<longleftrightarrow> (\<exists>rule \<in> set rules. rule_denies members addresses n src dst h rule)"
    by (induction rules) (simp_all add: expand_rule_denies [OF assms])
  then show ?thesis using allowACL_loop_iff [of True] by (simp add: allowACL_def)
qed

definition demo_deny :: VirtualACLRule where
  "demo_deny = \<lparr>acl_ID = 1, acl_NetworkID = 1, acl_SourceDeviceID = '''', acl_SourceGroupID = ''g'', acl_TargetDeviceID = ''b'',
     acl_TargetGroupID = '''', acl_Protocol = ''any'', acl_PortStart = 0, acl_PortEnd = 0, acl_Action = ''deny'', acl_Enabled = True,
     acl_CreatedAt = '''', acl_UpdatedAt = ''''\<rparr>"

definition demo_member :: VirtualDeviceGroupMember where
  "demo_member = \<lparr>gm_GroupID = ''g'', gm_DeviceID = ''a'', gm_CreatedAt = ''''\<rparr>"

lemma demo_denies: "rule_denies [demo_member] [] 1 ''a'' ''b'' empty_header demo_deny"
proof -
  have trim: "TrimSpace ''g'' = ''g''" "TrimSpace ''b'' = ''b''" "TrimSpace ''deny'' = ''deny''" "TrimSpace ''any'' = ''any''"
    by (simp_all add: TrimSpace_plain plain_char_def)
  show ?thesis
    by (simp add: rule_denies_def denies_traffic_def demo_deny_def demo_member_def names_def trim EqualFold_def matchProtocol_def ToLower_def lower_char_def)
qed

section \<open>Accepted networks and groups\<close>

lemma group_members_spec:
  "distinct (group_members met ds) \<and> set (group_members met ds) = TrimSpace ` set ds - {''''} - set met"
proof (induction met ds rule: group_members.induct)
  case (2 met deviceID rest)
  then show ?case
    by (cases "TrimSpace deviceID = '''' \<or> TrimSpace deviceID \<in> set met") (auto simp: Let_def)
qed simp

lemma guard_Inr: "(if c then Inl e else r) = Inr x \<longleftrightarrow> \<not> c \<and> r = Inr x"
  by simp

definition trim_network :: "VirtualNetwork \<Rightarrow> VirtualNetwork" where
  "trim_network network = network\<lparr>vn_Name := TrimSpace (vn_Name network), vn_CIDR := TrimSpace (vn_CIDR network),
     vn_PathPolicy := TrimSpace (vn_PathPolicy network), vn_TCPFastPath := TrimSpace (vn_TCPFastPath network)\<rparr>"

definition default_policies :: "VirtualNetwork \<Rightarrow> VirtualNetwork" where
  "default_policies network = network\<lparr>
     vn_PathPolicy := if vn_PathPolicy network = '''' then ''prefer_p2p'' else vn_PathPolicy network,
     vn_TCPFastPath := if vn_TCPFastPath network = '''' then ''auto'' else vn_TCPFastPath network\<rparr>"

definition acceptable_network :: "VirtualNetwork \<Rightarrow> bool" where
  "acceptable_network network \<longleftrightarrow> vn_Name network \<noteq> '''' \<and> vn_CIDR network \<noteq> '''' \<and> ParseCIDR (vn_CIDR network) \<noteq> None
     \<and> (vn_MTU network = 0 \<or> 576 \<le> vn_MTU network \<and> vn_MTU network \<le> 9000)
     \<and> (vn_MSS network = 0 \<or> 536 \<le> vn_MSS network \<and> vn_MSS network \<le> DefaultMSS)
     \<and> (vn_MTU network = 0 \<or> vn_MSS network \<le> MSSForMTU (vn_MTU network))
     \<and> vn_PathPolicy network \<in> {'''', ''auto'', ''prefer_p2p'', ''prefer_relay'', ''relay_only''}
     \<and> vn_TCPFastPath network \<in> {'''', ''auto'', ''off'', ''force''}"

lemma network_limits:
  fixes m s l u :: int
  assumes "0 < l" "0 < u"
  shows "\<not> (m < 0 \<or> 9000 < m \<or> (0 < m \<and> m < 576)) \<and> \<not> (s < 0 \<or> u < s \<or> (0 < s \<and> s < 536)) \<and> \<not> (0 < m \<and> 0 < s \<and> l < s)
     \<longleftrightarrow> (m = 0 \<or> 576 \<le> m \<and> m \<le> 9000) \<and> (s = 0 \<or> 536 \<le> s \<and> s \<le> u) \<and> (m = 0 \<or> s \<le> l)"
  using assms by arith

lemma decodeVirtualNetwork_iff:
  "decodeVirtualNetwork (Some n0) = Inr network \<longleftrightarrow>
     acceptable_network (trim_network n0) \<and> network = default_policies (trim_network n0)"
proof -
  define t where "t = trim_network n0"
  have "536 \<le> MSSForMTU m" for m by (simp add: MSSForMTU_def DefaultMSS_def Let_def)
  then have mss: "0 < MSSForMTU m" for m by (meson less_le_trans zero_less_numeral)
  have policies: "(if vn_TCPFastPath (if vn_PathPolicy t = '''' then t\<lparr>vn_PathPolicy := ''prefer_p2p''\<rparr> else t) = '''' then
      (if vn_PathPolicy t = '''' then t\<lparr>vn_PathPolicy := ''prefer_p2p''\<rparr> else t)\<lparr>vn_TCPFastPath := ''auto''\<rparr>
      else (if vn_PathPolicy t = '''' then t\<lparr>vn_PathPolicy := ''prefer_p2p''\<rparr> else t)) = default_policies t"
    by (simp add: default_policies_def)
  have "decodeVirtualNetwork (Some n0) = Inr network \<longleftrightarrow>
     \<not> (vn_Name t = '''' \<or> vn_CIDR t = '''') \<and> ParseCIDR (vn_CIDR t) \<noteq> None
     \<and> \<not> (vn_MTU t < 0 \<or> 9000 < vn_MTU t \<or> (0 < vn_MTU t \<and> vn_MTU t < 576))
     \<and> \<not> (vn_MSS t < 0 \<or> DefaultMSS < vn_MSS t \<or> (0 < vn_MSS t \<and> vn_MSS t < 536))
     \<and> \<not> (0 < vn_MTU t \<and> 0 < vn_MSS t \<and> MSSForMTU (vn_MTU t) < vn_MSS t)
     \<and> vn_PathPolicy t \<in> {'''', ''auto'', ''prefer_p2p'', ''prefer_relay'', ''relay_only''}
     \<and> vn_TCPFastPath t \<in> {'''', ''auto'', ''off'', ''force''} \<and> default_policies t = network"
    unfolding decodeVirtualNetwork_def option.case Let_def trim_network_def [symmetric] t_def [symmetric] guard_Inr policies
      sum.inject not_not by (simp only: if_distrib [of vn_TCPFastPath]) simp
  also have "\<dots> \<longleftrightarrow> acceptable_network t \<and> network = default_policies t"
  proof -
    have limits: "\<not> (vn_MTU t < 0 \<or> 9000 < vn_MTU t \<or> (0 < vn_MTU t \<and> vn_MTU t < 576))
        \<and> \<not> (vn_MSS t < 0 \<or> DefaultMSS < vn_MSS t \<or> (0 < vn_MSS t \<and> vn_MSS t < 536))
        \<and> \<not> (0 < vn_MTU t \<and> 0 < vn_MSS t \<and> MSSForMTU (vn_MTU t) < vn_MSS t) \<and> X
      \<longleftrightarrow> (vn_MTU t = 0 \<or> 576 \<le> vn_MTU t \<and> vn_MTU t \<le> 9000) \<and> (vn_MSS t = 0 \<or> 536 \<le> vn_MSS t \<and> vn_MSS t \<le> DefaultMSS)
        \<and> (vn_MTU t = 0 \<or> vn_MSS t \<le> MSSForMTU (vn_MTU t)) \<and> X" for X
      using network_limits [OF mss [of "vn_MTU t"], of DefaultMSS "vn_MTU t" "vn_MSS t"] by (simp only: conj_assoc [symmetric] DefaultMSS_def)
    show ?thesis unfolding limits acceptable_network_def by (simp only: de_Morgan_disj conj_assoc eq_commute [of network])
  qed
  finally show ?thesis by (simp add: t_def)
qed

text \<open>A network the server accepts has a name, a CIDR that parses, an MTU that is 0 or at least 576, an
  MSS that is 0 or a legal TCP segment size that fits the MTU, and one of the known path policies; and
  handing it in again changes nothing.\<close>

theorem decodeVirtualNetwork_valid:
  assumes "decodeVirtualNetwork body = Inr network"
  shows "vn_Name network \<noteq> '''' \<and> ParseCIDR (vn_CIDR network) \<noteq> None
     \<and> (vn_MTU network = 0 \<or> 576 \<le> vn_MTU network \<and> vn_MTU network \<le> 9000)
     \<and> (vn_MSS network = 0 \<or> 536 \<le> vn_MSS network \<and> vn_MSS network \<le> MSSForMTU (vn_MTU network))
     \<and> vn_PathPolicy network \<in> {''auto'', ''prefer_p2p'', ''prefer_relay'', ''relay_only''}
     \<and> vn_TCPFastPath network \<in> {''auto'', ''off'', ''force''}
     \<and> decodeVirtualNetwork (Some network) = Inr network"
proof -
  obtain n0 where n0: "body = Some n0" using assms by (cases body) (simp_all add: decodeVirtualNetwork_def)
  define t where "t = trim_network n0"
  have t: "acceptable_network t" and network: "network = default_policies t"
    using assms n0 decodeVirtualNetwork_iff t_def by simp_all
  have "MSSForMTU 0 = DefaultMSS" by (simp add: MSSForMTU_def DefaultMSS_def DefaultMTU_def Let_def)
  then have valid: "acceptable_network network" "vn_PathPolicy network \<noteq> ''''" "vn_TCPFastPath network \<noteq> ''''"
    using t unfolding network by (auto simp: acceptable_network_def default_policies_def)
  have "trim_network network = network"
    unfolding network by (simp add: t_def trim_network_def default_policies_def TrimSpace_plain plain_char_def)
  moreover have "default_policies network = network" using valid(2,3) by (simp add: default_policies_def)
  ultimately have "decodeVirtualNetwork (Some network) = Inr network"
    using valid(1) by (simp add: decodeVirtualNetwork_iff)
  then show ?thesis using valid \<open>MSSForMTU 0 = DefaultMSS\<close> by (auto simp: acceptable_network_def)
qed

definition demo_body :: VirtualNetwork where
  "demo_body = \<lparr>vn_ID = 0, vn_Name = ''lab'', vn_CIDR = ''10.0.0.0/24'', vn_MTU = 1280, vn_MSS = 1200, vn_PathPolicy = '''',
     vn_TCPFastPath = ''off'', vn_Enabled = True, vn_CreatedAt = '''', vn_UpdatedAt = ''''\<rparr>"

theorem decodeVirtualNetwork_valid_witness:
  "decodeVirtualNetwork (Some (demo_body\<lparr>vn_PathPolicy := ''prefer_p2p''\<rparr>)) = Inr (demo_body\<lparr>vn_PathPolicy := ''prefer_p2p''\<rparr>)"
proof -
  have cidr: "''10.0.0.0/24'' = IPv4String [10, 0, 0, 0] @ CHR ''/'' # dec_nat 24" by code_simp
  have "ParseCIDR ''10.0.0.0/24'' \<noteq> None" unfolding cidr by (simp add: ParseCIDR_text)
  then have "decodeVirtualNetwork (Some demo_body) = Inr (demo_body\<lparr>vn_PathPolicy := ''prefer_p2p''\<rparr>)"
    by (simp add: decodeVirtualNetwork_iff acceptable_network_def trim_network_def default_policies_def demo_body_def
        TrimSpace_plain plain_char_def DefaultMSS_def MSSForMTU_def DefaultMTU_def)
  from decodeVirtualNetwork_valid [OF this] show ?thesis by blast
qed

end
