(* ===== verification/LanStatus.thy ===== *)
theory LanStatus
  imports ServerApi Machine
begin

text \<open>
  The server's view of the state of a LAN, from \<^verbatim>\<open>internal/server/handlers_lan.go\<close>: the newest report per
  pair of devices (\<^verbatim>\<open>latestLANPeerStates\<close>), the filters for the devices that have an address, and the
  summary per device (\<^verbatim>\<open>lanDeviceStates\<close>).

  The rows are the results of the database queries.  A map keyed by device is an association list in
  the order of insertion; Go leaves the order of the summaries open.  \<open>parse\<close> is
  \<^verbatim>\<open>time.Parse(time.RFC3339, _)\<close>.
\<close>

subsection \<open>Reports of peers\<close>

definition lanPeerStateKey :: "VirtualPeerState \<Rightarrow> string" where
  "lanPeerStateKey state =
     (if ps_NetworkID state \<le> 0 \<or> TrimSpace (ps_DeviceID state) = '''' \<or> TrimSpace (ps_PeerID state) = '''' then ''''
      else FormatInt (ps_NetworkID state) @ [CHR 0x00] @ ps_DeviceID state @ [CHR 0x00] @ ps_PeerID state)"

fun latest_loop :: "(string \<rightharpoonup> VirtualPeerState) \<times> string list \<Rightarrow> VirtualPeerState list \<Rightarrow> (string \<rightharpoonup> VirtualPeerState) \<times> string list" where
  "latest_loop (byKey, order) [] = (byKey, order)"
| "latest_loop (byKey, order) (state # states) =
     (let key = lanPeerStateKey state in
      if TrimSpace key = '''' then latest_loop (byKey, order) states
      else (case byKey key of
              None \<Rightarrow> latest_loop (byKey(key \<mapsto> state), order @ [key]) states
            | Some previous \<Rightarrow>
                if ps_UpdatedAt previous \<le> ps_UpdatedAt state then latest_loop (byKey(key \<mapsto> state), order) states
                else latest_loop (byKey, order) states))"

definition latestLANPeerStates :: "VirtualPeerState list \<Rightarrow> VirtualPeerState list" where
  "latestLANPeerStates states =
     (let (byKey, order) = latest_loop (Map.empty, []) states in map (\<lambda>key. the (byKey key)) order)"

definition knownLANDevicesByNetwork :: "VirtualAddress list \<Rightarrow> int \<Rightarrow> string \<Rightarrow> bool" where
  "knownLANDevicesByNetwork addresses networkID deviceID \<longleftrightarrow>
     list_ex (\<lambda>address. TrimSpace (va_DeviceID address) \<noteq> '''' \<and> 0 < va_NetworkID address
                \<and> va_NetworkID address = networkID \<and> va_DeviceID address = deviceID) addresses"

definition knownLANPeerState :: "(int \<Rightarrow> string \<Rightarrow> bool) \<Rightarrow> VirtualPeerState \<Rightarrow> bool" where
  "knownLANPeerState known state \<longleftrightarrow> known (ps_NetworkID state) (ps_DeviceID state) \<and> known (ps_NetworkID state) (ps_PeerID state)"

definition filterLANPeerStates :: "VirtualAddress list \<Rightarrow> VirtualPeerState list \<Rightarrow> VirtualPeerState list" where
  "filterLANPeerStates addresses states =
     (let known = knownLANDevicesByNetwork addresses in
      filter (\<lambda>state. knownLANPeerState known state) (latestLANPeerStates states))"

definition filterLANPathEvents :: "VirtualAddress list \<Rightarrow> VirtualPeerPathEvent list \<Rightarrow> VirtualPeerPathEvent list" where
  "filterLANPathEvents addresses events =
     (let known = knownLANDevicesByNetwork addresses in
      filter (\<lambda>event. known (ppe_NetworkID event) (ppe_DeviceID event) \<and> known (ppe_NetworkID event) (ppe_PeerID event)) events)"

subsection \<open>Summaries of devices\<close>

record lanDeviceState =
  lds_DeviceID :: string
  lds_NetworkID :: int
  lds_VirtualIP :: string
  lds_Hostname :: string
  lds_LANStatus :: string
  lds_AdapterState :: string
  lds_SelectedCIDR :: string
  lds_RouteConflict :: string
  lds_P2PPeers :: int
  lds_RelayPeers :: int
  lds_DownPeers :: int
  lds_LastBootstrapAt :: string
  lds_LastStatusAt :: string
  lds_LastError :: string
  lds_RelayDisabled :: bool
  lds_HotPaths :: int
  lds_ActiveSessions :: int
  lds_SocketRotations :: uint64
  lds_LastRotationReason :: string

definition new_device_state :: "string \<Rightarrow> int \<Rightarrow> lanDeviceState" where
  "new_device_state deviceID networkID = \<lparr>lds_DeviceID = deviceID, lds_NetworkID = networkID, lds_VirtualIP = '''', lds_Hostname = '''',
     lds_LANStatus = '''', lds_AdapterState = '''', lds_SelectedCIDR = '''', lds_RouteConflict = '''', lds_P2PPeers = 0,
     lds_RelayPeers = 0, lds_DownPeers = 0, lds_LastBootstrapAt = '''', lds_LastStatusAt = '''', lds_LastError = '''',
     lds_RelayDisabled = False, lds_HotPaths = 0, lds_ActiveSessions = 0, lds_SocketRotations = 0, lds_LastRotationReason = ''''\<rparr>"

type_synonym device_map = "(string \<times> lanDeviceState) list"

definition add_address :: "VirtualAddress \<Rightarrow> device_map \<Rightarrow> device_map" where
  "add_address address byDevice =
     (let state = (case map_of byDevice (va_DeviceID address) of
                     None \<Rightarrow> new_device_state (va_DeviceID address) (va_NetworkID address)
                   | Some state \<Rightarrow> state)
      in AList.update (va_DeviceID address) (state\<lparr>lds_VirtualIP := va_VirtualIP address, lds_Hostname := va_Hostname address,
           lds_LastBootstrapAt := va_UpdatedAt address\<rparr>) byDevice)"

definition count_path :: "string \<Rightarrow> lanDeviceState \<Rightarrow> lanDeviceState" where
  "count_path path state =
     (let path = ToLower (TrimSpace path) in
      if path = ''p2p'' then state\<lparr>lds_P2PPeers := lds_P2PPeers state + 1\<rparr>
      else if path = ''relay'' then state\<lparr>lds_RelayPeers := lds_RelayPeers state + 1\<rparr>
      else state\<lparr>lds_DownPeers := lds_DownPeers state + 1\<rparr>)"

definition merge_peer :: "VirtualPeerState \<Rightarrow> lanDeviceState \<Rightarrow> lanDeviceState" where
  "merge_peer peer state =
     (let state = (if ps_AdapterState peer \<noteq> '''' then state\<lparr>lds_AdapterState := ps_AdapterState peer\<rparr> else state);
          state = (if ps_SelectedCIDR peer \<noteq> '''' then state\<lparr>lds_SelectedCIDR := ps_SelectedCIDR peer\<rparr> else state);
          state = (if ps_RouteConflict peer \<noteq> '''' then state\<lparr>lds_RouteConflict := ps_RouteConflict peer\<rparr> else state);
          state = (if ps_LastError peer \<noteq> '''' then state\<lparr>lds_LastError := ps_LastError peer\<rparr> else state);
          state = (if ps_RelayDisabled peer then state\<lparr>lds_RelayDisabled := True\<rparr> else state);
          state = (if lds_HotPaths state < ps_HotPaths peer then state\<lparr>lds_HotPaths := ps_HotPaths peer\<rparr> else state);
          state = (if lds_ActiveSessions state < ps_ActiveSessions peer then state\<lparr>lds_ActiveSessions := ps_ActiveSessions peer\<rparr> else state);
          state = (if lds_SocketRotations state < ps_SocketRotations peer
                   then state\<lparr>lds_SocketRotations := ps_SocketRotations peer, lds_LastRotationReason := ps_LastRotationReason peer\<rparr> else state);
          state = (if lds_LastStatusAt state < ps_UpdatedAt peer then state\<lparr>lds_LastStatusAt := ps_UpdatedAt peer\<rparr> else state)
      in count_path (ps_Path peer) state)"

definition add_peer :: "(int \<Rightarrow> string \<Rightarrow> bool) \<Rightarrow> VirtualPeerState \<Rightarrow> device_map \<Rightarrow> device_map" where
  "add_peer known peer byDevice =
     (if \<not> knownLANPeerState known peer then byDevice
      else (case map_of byDevice (ps_DeviceID peer) of
              None \<Rightarrow> byDevice
            | Some state \<Rightarrow> AList.update (ps_DeviceID peer) (merge_peer peer state) byDevice))"

definition lanOnlineTTL :: duration where "lanOnlineTTL = 60 * Second"

definition lanStatusForDevice :: "(string \<Rightarrow> time option) \<Rightarrow> time \<Rightarrow> lanDeviceState \<Rightarrow> string" where
  "lanStatusForDevice parse now state =
     (if lds_LastError state \<noteq> '''' \<or> EqualFold (lds_AdapterState state) ''error'' then ''error''
      else if lds_LastStatusAt state = '''' then (if lds_LastBootstrapAt state \<noteq> '''' then ''unreported'' else ''unknown'')
      else (case parse (lds_LastStatusAt state) of
              None \<Rightarrow> ''unknown''
            | Some t \<Rightarrow> if time_Sub now t \<le> lanOnlineTTL then ''online'' else ''offline''))"

definition device_states :: "(string \<Rightarrow> time option) \<Rightarrow> time \<Rightarrow> VirtualAddress list \<Rightarrow> VirtualPeerState list \<Rightarrow> lanDeviceState list" where
  "device_states parse now addresses peers =
     (let peers = latestLANPeerStates peers;
          known = knownLANDevicesByNetwork addresses;
          byDevice = fold add_address addresses [];
          byDevice = fold (add_peer known) peers byDevice
      in map (\<lambda>(device, state). state\<lparr>lds_LANStatus := lanStatusForDevice parse now state\<rparr>) byDevice)"

definition lanDeviceStates ::
  "(int \<Rightarrow> ('db, VirtualAddress list) store_op) \<Rightarrow> (int \<Rightarrow> ('db, VirtualPeerState list) store_op) \<Rightarrow>
     (string \<Rightarrow> time option) \<Rightarrow> time \<Rightarrow> int \<Rightarrow> ('db, lanDeviceState list) action"
where
  "lanDeviceStates listAddresses listPeerStates parse now networkID =
     andThen (call (listAddresses networkID)) (\<lambda>addresses.
     andThen (call (listPeerStates networkID)) (\<lambda>peers.
       ret (device_states parse now addresses peers)))"

section \<open>The newest report of each pair\<close>

definition reportable :: "VirtualPeerState \<Rightarrow> bool" where
  "reportable s \<longleftrightarrow> 0 < ps_NetworkID s \<and> TrimSpace (ps_DeviceID s) \<noteq> '''' \<and> TrimSpace (ps_PeerID s) \<noteq> ''''"

definition pair_of :: "VirtualPeerState \<Rightarrow> int \<times> string \<times> string" where
  "pair_of s = (ps_NetworkID s, ps_DeviceID s, ps_PeerID s)"

lemma FormatInt_chars: "c \<in> set (FormatInt i) \<Longrightarrow> is_digit c \<or> c = CHR ''-''"
  by (auto simp: FormatInt_def dest: dec_nat_not_sign split: if_splits)

lemma blank_key_iff: "TrimSpace (lanPeerStateKey s) = '''' \<longleftrightarrow> \<not> reportable s"
proof (cases "reportable s")
  case True
  have "plain_char (hd (dec_nat n))" for n
    using hd_dec_nat [of n] by (simp add: plain_char_def is_digit_def)
  then have "plain_char (hd (lanPeerStateKey s))" "lanPeerStateKey s \<noteq> []"
    using True by (auto simp: lanPeerStateKey_def reportable_def FormatInt_def)
  then show ?thesis using True TrimSpace_nonblank by blast
qed (auto simp: lanPeerStateKey_def reportable_def)

lemma key_eq_iff:
  assumes "reportable s" "reportable t" "CHR 0x00 \<notin> set (ps_DeviceID s)" "CHR 0x00 \<notin> set (ps_DeviceID t)"
  shows "lanPeerStateKey s = lanPeerStateKey t \<longleftrightarrow> pair_of s = pair_of t"
proof
  assume eq: "lanPeerStateKey s = lanPeerStateKey t"
  have nul: "CHR 0x00 \<notin> set (FormatInt i)" for i
    using FormatInt_chars [of "CHR 0x00" i] by (auto simp: is_digit_def)
  have "FormatInt (ps_NetworkID s) = FormatInt (ps_NetworkID t)
      \<and> ps_DeviceID s @ CHR 0x00 # ps_PeerID s = ps_DeviceID t @ CHR 0x00 # ps_PeerID t"
    using eq assms(1,2) nul by (intro split_at_nul) (auto simp: lanPeerStateKey_def reportable_def)
  then show "pair_of s = pair_of t"
    using split_at_nul [of "ps_DeviceID s" _ "ps_DeviceID t"] assms(3,4) by (auto simp: pair_of_def FormatInt_inject)
qed (use assms(1,2) in \<open>auto simp: pair_of_def lanPeerStateKey_def reportable_def\<close>)

definition latest_inv :: "(string \<rightharpoonup> VirtualPeerState) \<Rightarrow> string list \<Rightarrow> VirtualPeerState list \<Rightarrow> bool" where
  "latest_inv byKey order seen \<longleftrightarrow> distinct order \<and> set order = dom byKey
     \<and> (\<forall>k s. byKey k = Some s \<longrightarrow> s \<in> set seen \<and> reportable s \<and> lanPeerStateKey s = k
          \<and> (\<forall>t \<in> set seen. reportable t \<and> lanPeerStateKey t = k \<longrightarrow> ps_UpdatedAt t \<le> ps_UpdatedAt s))
     \<and> (\<forall>t \<in> set seen. reportable t \<longrightarrow> lanPeerStateKey t \<in> dom byKey)"

lemma latest_inv_put:
  assumes "latest_inv byKey order seen" "reportable s"
    and "\<And>p. byKey (lanPeerStateKey s) = Some p \<Longrightarrow> ps_UpdatedAt p \<le> ps_UpdatedAt s"
  shows "latest_inv (byKey(lanPeerStateKey s \<mapsto> s)) (if lanPeerStateKey s \<in> dom byKey then order else order @ [lanPeerStateKey s]) (seen @ [s])"
proof -
  have "ps_UpdatedAt t \<le> ps_UpdatedAt s" if t: "t \<in> set seen" "reportable t" "lanPeerStateKey t = lanPeerStateKey s" for t
  proof -
    have "lanPeerStateKey t \<in> dom byKey" using assms(1) t(1,2) unfolding latest_inv_def by blast
    then obtain p where p: "byKey (lanPeerStateKey s) = Some p" using t(3) by auto
    then have "ps_UpdatedAt t \<le> ps_UpdatedAt p" using assms(1) t unfolding latest_inv_def by blast
    then show ?thesis using assms(3) [OF p] by (rule order_trans)
  qed
  then show ?thesis using assms(1,2) unfolding latest_inv_def by (auto simp: insert_absorb)
qed

lemma latest_loop_inv:
  "latest_loop (byKey, order) states = (byKey', order') \<Longrightarrow> latest_inv byKey order seen \<Longrightarrow> latest_inv byKey' order' (seen @ states)"
proof (induction states arbitrary: byKey order seen)
  case (Cons s states)
  show ?case
  proof (cases "reportable s")
    case False
    then have "latest_inv byKey order (seen @ [s])" using Cons.prems(2) by (auto simp: latest_inv_def)
    then show ?thesis using Cons.IH [of byKey order "seen @ [s]"] Cons.prems(1) False blank_key_iff [of s] by simp
  next
    case True
    show ?thesis
    proof (cases "byKey (lanPeerStateKey s)")
      case None
      then show ?thesis
        using Cons.IH [of _ _ "seen @ [s]"] Cons.prems True blank_key_iff [of s] latest_inv_put [OF Cons.prems(2) True]
        by (auto simp: Let_def domIff)
    next
      case (Some p)
      have "latest_inv byKey order (seen @ [s])" if "ps_UpdatedAt s < ps_UpdatedAt p"
        using Cons.prems(2) Some that True by (auto simp: latest_inv_def)
      then show ?thesis
        using Cons.IH [of _ _ "seen @ [s]"] Cons.prems True blank_key_iff [of s] latest_inv_put [OF Cons.prems(2) True] Some
        by (auto simp: Let_def domIff not_le split: if_splits)
    qed
  qed
qed simp

text \<open>Of the reports in the table exactly the newest one of each pair survives: the result has one
  report for every network, device and peer that reported at all, and no stored report of the same
  pair is younger (for device names without a NUL byte, which separates the parts of the key).\<close>

theorem latestLANPeerStates_newest:
  assumes "\<forall>s \<in> set states. CHR 0x00 \<notin> set (ps_DeviceID s)"
  shows "distinct (map pair_of (latestLANPeerStates states))
     \<and> pair_of ` set (latestLANPeerStates states) = pair_of ` {s \<in> set states. reportable s}
     \<and> (\<forall>s \<in> set (latestLANPeerStates states). s \<in> set states
          \<and> (\<forall>t \<in> set states. pair_of t = pair_of s \<longrightarrow> ps_UpdatedAt t \<le> ps_UpdatedAt s))"
proof -
  obtain byKey order where loop: "latest_loop (Map.empty, []) states = (byKey, order)" by fastforce
  have "latest_inv byKey order states"
    using latest_loop_inv [OF loop, of "[]"] by (simp add: latest_inv_def)
  then have inv: "distinct order" "set order = dom byKey"
    and val: "\<And>k s. byKey k = Some s \<Longrightarrow> s \<in> set states \<and> reportable s \<and> lanPeerStateKey s = k
        \<and> (\<forall>t \<in> set states. reportable t \<and> lanPeerStateKey t = k \<longrightarrow> ps_UpdatedAt t \<le> ps_UpdatedAt s)"
    and cover: "\<And>t. t \<in> set states \<Longrightarrow> reportable t \<Longrightarrow> lanPeerStateKey t \<in> dom byKey"
    by (auto simp: latest_inv_def)
  let ?r = "map (\<lambda>k. the (byKey k)) order"
  have r: "latestLANPeerStates states = ?r" by (simp add: latestLANPeerStates_def loop)
  have key: "lanPeerStateKey s = lanPeerStateKey t \<longleftrightarrow> pair_of s = pair_of t"
    if "s \<in> set states" "t \<in> set states" "reportable s" "reportable t" for s t
    using that assms by (intro key_eq_iff) auto
  have mem: "s \<in> set ?r \<longleftrightarrow> byKey (lanPeerStateKey s) = Some s \<and> s \<in> set states \<and> reportable s" for s
  proof
    assume "s \<in> set ?r"
    then obtain k where "byKey k = Some s" using inv(2) by auto
    then show "byKey (lanPeerStateKey s) = Some s \<and> s \<in> set states \<and> reportable s" using val [of k s] by simp
  next
    assume "byKey (lanPeerStateKey s) = Some s \<and> s \<in> set states \<and> reportable s"
    then have "lanPeerStateKey s \<in> set order" "the (byKey (lanPeerStateKey s)) = s" using inv(2) by auto
    then show "s \<in> set ?r" by (metis image_eqI list.set_map)
  qed
  have "inj_on (\<lambda>k. pair_of (the (byKey k))) (set order)"
    by (rule inj_onI) (use inv(2) val key in \<open>metis domD option.sel\<close>)
  then have "distinct (map pair_of ?r)" using inv(1) by (simp add: distinct_map o_def)
  moreover have "pair_of ` set ?r = pair_of ` {s \<in> set states. reportable s}"
  proof (intro set_eqI iffI)
    fix x
    assume "x \<in> pair_of ` {s \<in> set states. reportable s}"
    then obtain t where t: "x = pair_of t" "t \<in> set states" "reportable t" by blast
    then obtain s where "byKey (lanPeerStateKey t) = Some s" using cover by blast
    then have "s \<in> set ?r" "pair_of s = pair_of t" using val [of "lanPeerStateKey t" s] key [of s t] t mem [of s] by auto
    then show "x \<in> pair_of ` set ?r" using t(1) by (metis image_eqI)
  qed (use mem in blast)
  moreover have "reportable t" if "pair_of t = pair_of s" "reportable s" for s t
    using that by (simp add: pair_of_def reportable_def)
  then have "ps_UpdatedAt t \<le> ps_UpdatedAt s" if "s \<in> set ?r" "t \<in> set states" "pair_of t = pair_of s" for s t
    using that mem [of s] val [of "lanPeerStateKey s" s] key [of t s] by blast
  ultimately show ?thesis using mem unfolding r by blast
qed

definition demo_report :: "string \<Rightarrow> string \<Rightarrow> VirtualPeerState" where
  "demo_report peer at = \<lparr>ps_DeviceID = ''a'', ps_PeerID = peer, ps_NetworkID = 1, ps_State = '''', ps_Path = ''p2p'', ps_DataPath = '''',
     ps_PathReason = '''', ps_NATType = '''', ps_FallbackReason = '''', ps_TrafficClass = '''', ps_TCPFastPath = '''',
     ps_AdapterState = '''', ps_RouteConflict = '''', ps_SelectedCIDR = '''', ps_MTU = 0, ps_MSS = 0, ps_RTTMs = 0, ps_EstimatedBps = 0,
     ps_TxBytes = 0, ps_RxBytes = 0, ps_DropReason = '''', ps_LastError = '''', ps_ActiveSessions = 0, ps_HotPaths = 0,
     ps_RelayDisabled = False, ps_SocketRotations = 0, ps_LastRotationAt = '''', ps_LastRotationReason = '''', ps_LastHandshakeAt = '''',
     ps_LastTransitionAt = '''', ps_UpdatedAt = at\<rparr>"

theorem latestLANPeerStates_newest_witness:
  "pair_of ` set (latestLANPeerStates [demo_report ''b'' ''1'', demo_report ''c'' ''1'', demo_report ''b'' ''2'']) =
     {(1, ''a'', ''b''), (1, ''a'', ''c'')}"
proof -
  let ?states = "[demo_report ''b'' ''1'', demo_report ''c'' ''1'', demo_report ''b'' ''2'']"
  have "reportable (demo_report ''b'' y)" "reportable (demo_report ''c'' y)" for y
    by (simp_all add: reportable_def demo_report_def TrimSpace_plain plain_char_def)
  then have "{s \<in> set ?states. reportable s} = set ?states" by auto
  moreover have "pair_of (demo_report x y) = (1, ''a'', x)" for x y by (simp add: pair_of_def demo_report_def)
  ultimately have "pair_of ` {s \<in> set ?states. reportable s} = {(1, ''a'', ''b''), (1, ''a'', ''c'')}" by auto
  then show ?thesis
    by (subst latestLANPeerStates_newest [THEN conjunct2, THEN conjunct1]) (simp_all add: demo_report_def)
qed

section \<open>The summaries account for every report\<close>

definition peers_counted :: "lanDeviceState \<Rightarrow> int" where
  "peers_counted state = lds_P2PPeers state + lds_RelayPeers state + lds_DownPeers state"

definition summary_ok :: "(string \<Rightarrow> int) \<Rightarrow> device_map \<Rightarrow> bool" where
  "summary_ok tally m \<longleftrightarrow> keys_distinct m \<and> (\<forall>(device, state) \<in> set m. lds_DeviceID state = device \<and> peers_counted state = tally device)"

lemma merge_peer_counted [simp]:
  "peers_counted (merge_peer peer state) = peers_counted state + 1" "lds_DeviceID (merge_peer peer state) = lds_DeviceID state"
proof -
  have "peers_counted (count_path p st) = peers_counted st + 1" "lds_DeviceID (count_path p st) = lds_DeviceID st" for p st
    by (simp_all add: count_path_def peers_counted_def Let_def)
  then show "peers_counted (merge_peer peer state) = peers_counted state + 1" "lds_DeviceID (merge_peer peer state) = lds_DeviceID state"
    by (simp_all add: merge_peer_def Let_def peers_counted_def)
qed

lemma add_address_summary:
  assumes "summary_ok (\<lambda>_. 0) m"
  shows "summary_ok (\<lambda>_. 0) (add_address a m)" "fst ` set (add_address a m) = insert (va_DeviceID a) (fst ` set m)"
proof -
  have kd: "keys_distinct m" using assms by (simp add: summary_ok_def)
  define st where "st = (case map_of m (va_DeviceID a) of None \<Rightarrow> new_device_state (va_DeviceID a) (va_NetworkID a) | Some state \<Rightarrow> state)"
  have "lds_DeviceID st = va_DeviceID a \<and> peers_counted st = 0"
  proof (cases "map_of m (va_DeviceID a)")
    case None
    then show ?thesis by (simp add: st_def new_device_state_def peers_counted_def)
  next
    case (Some s)
    then have "(va_DeviceID a, s) \<in> set m" by (rule map_of_SomeD)
    then show ?thesis using assms Some by (auto simp: st_def summary_ok_def)
  qed
  then show "summary_ok (\<lambda>_. 0) (add_address a m)"
    using assms kd unfolding summary_ok_def
    by (auto simp: add_address_def Let_def in_update peers_counted_def simp flip: st_def split: if_splits)
  show "fst ` set (add_address a m) = insert (va_DeviceID a) (fst ` set m)"
    by (simp add: add_address_def Let_def keys_update)
qed

lemma add_addresses_summary:
  "summary_ok (\<lambda>_. 0) m \<Longrightarrow> summary_ok (\<lambda>_. 0) (fold add_address as m)
     \<and> fst ` set (fold add_address as m) = va_DeviceID ` set as \<union> fst ` set m"
  by (induction as arbitrary: m) (auto simp: add_address_summary)

lemma add_peer_summary:
  assumes "summary_ok tally m"
  shows "summary_ok (\<lambda>d. tally d + (if d = ps_DeviceID peer \<and> knownLANPeerState known peer then 1 else 0)) (add_peer known peer m)"
    "fst ` set (add_peer known peer m) = fst ` set m"
proof -
  have kd: "keys_distinct m" using assms by (simp add: summary_ok_def)
  consider "\<not> knownLANPeerState known peer" | "knownLANPeerState known peer" "map_of m (ps_DeviceID peer) = None"
    | st where "knownLANPeerState known peer" "map_of m (ps_DeviceID peer) = Some st" by fastforce
  then have "summary_ok (\<lambda>d. tally d + (if d = ps_DeviceID peer \<and> knownLANPeerState known peer then 1 else 0)) (add_peer known peer m)
    \<and> fst ` set (add_peer known peer m) = fst ` set m"
  proof cases
    case 1
    then show ?thesis using assms by (simp add: add_peer_def)
  next
    case 2
    then have "ps_DeviceID peer \<notin> fst ` set m" by (simp add: map_of_eq_None_iff)
    then show ?thesis using assms 2 by (force simp: add_peer_def summary_ok_def)
  next
    case (3 st)
    then have "(ps_DeviceID peer, st) \<in> set m" by (auto dest: map_of_SomeD)
    moreover from this have "insert (ps_DeviceID peer) (fst ` set m) = fst ` set m" by force
    ultimately show ?thesis using assms 3 kd unfolding summary_ok_def
      by (auto simp: add_peer_def in_update keys_update split: if_splits)
  qed
  then show "summary_ok (\<lambda>d. tally d + (if d = ps_DeviceID peer \<and> knownLANPeerState known peer then 1 else 0)) (add_peer known peer m)"
    "fst ` set (add_peer known peer m) = fst ` set m" by simp_all
qed

definition reports_by :: "(int \<Rightarrow> string \<Rightarrow> bool) \<Rightarrow> VirtualPeerState list \<Rightarrow> string \<Rightarrow> int" where
  "reports_by known peers d = int (length (filter (\<lambda>p. ps_DeviceID p = d \<and> knownLANPeerState known p) peers))"

lemma add_peers_summary:
  "summary_ok tally m \<Longrightarrow> summary_ok (\<lambda>d. tally d + reports_by known peers d) (fold (add_peer known) peers m)
     \<and> fst ` set (fold (add_peer known) peers m) = fst ` set m"
proof (induction peers arbitrary: tally m)
  case Nil
  then show ?case by (simp add: reports_by_def)
next
  case (Cons p peers)
  have "(\<lambda>d. tally d + reports_by known (p # peers) d) =
      (\<lambda>d. tally d + (if d = ps_DeviceID p \<and> knownLANPeerState known p then 1 else 0) + reports_by known peers d)"
    by (auto simp: reports_by_def)
  then show ?case using Cons.IH [OF add_peer_summary(1) [OF Cons.prems, of p known]] add_peer_summary(2) [OF Cons.prems] by simp
qed

text \<open>The summary of a network has exactly one entry for every device with an address, and the peers
  an entry counts as direct, relayed or down add up to the newest reports of that device about known
  peers: no report is counted twice or dropped.\<close>

theorem device_states_account:
  "distinct (map lds_DeviceID (device_states parse now addresses peers))
   \<and> lds_DeviceID ` set (device_states parse now addresses peers) = va_DeviceID ` set addresses
   \<and> list_all (\<lambda>state. peers_counted state =
        reports_by (knownLANDevicesByNetwork addresses) (latestLANPeerStates peers) (lds_DeviceID state))
      (device_states parse now addresses peers)"
proof -
  let ?known = "knownLANDevicesByNetwork addresses" and ?peers = "latestLANPeerStates peers"
  let ?m = "fold (add_peer ?known) ?peers (fold add_address addresses [])"
  let ?f = "\<lambda>(device, state). state\<lparr>lds_LANStatus := lanStatusForDevice parse now state\<rparr>"
  have "summary_ok (\<lambda>_. 0) []" by (simp add: summary_ok_def)
  from add_addresses_summary [OF this, of addresses] add_peers_summary [of "\<lambda>_. 0" _ ?known ?peers]
  have m: "summary_ok (\<lambda>d. 0 + reports_by ?known ?peers d) ?m" "fst ` set ?m = va_DeviceID ` set addresses" by simp_all
  have eq: "device_states parse now addresses peers = map ?f ?m" by (simp add: device_states_def Let_def)
  have ids: "map lds_DeviceID (map ?f ?m) = map fst ?m" using m(1) by (auto simp: summary_ok_def)
  have "distinct (map lds_DeviceID (map ?f ?m))" using m(1) unfolding ids by (simp add: summary_ok_def keys_distinct_def)
  moreover have "lds_DeviceID ` set (map ?f ?m) = va_DeviceID ` set addresses"
    using m(2) arg_cong [OF ids, of set] by (simp only: set_map)
  moreover have "list_all (\<lambda>state. peers_counted state = reports_by ?known ?peers (lds_DeviceID state)) (map ?f ?m)"
    using m(1) by (auto simp: summary_ok_def peers_counted_def list_all_iff)
  ultimately show ?thesis unfolding eq by blast
qed

end
