(* ===== verification/LanHandlers.thy ===== *)
theory LanHandlers
  imports LanAddress LanPolicy LanStatus
begin

text \<open>
  The HTTP handlers of the LAN, from \<^verbatim>\<open>internal/server/handlers_lan.go\<close>: what the administrator's pages
  call (\<^verbatim>\<open>handleAdminLAN\<dots>\<close>) and what the agents call (\<^verbatim>\<open>handleLANBootstrap\<close>, \<^verbatim>\<open>handleLANStatus\<close>).

  \<^item> \<open>lan_store\<close> extends \<open>address_store\<close> by the further operations of \<^verbatim>\<open>controlstore.Store\<close> the handlers call.
  \<^item> A handler is an action whose value is the body of the answer; \<open>respond\<close> turns it into the HTTP
    reply, by \<open>writeJSONOrError\<close>.
  \<^item> The body of a request arrives decoded: \<open>None\<close> stands for an error of the JSON decoder.
\<close>

subsection \<open>The store and the answers\<close>

record 'db lan_store = "'db address_store" +
  ls_CreateVirtualNetwork :: "VirtualNetwork \<Rightarrow> ('db, VirtualNetwork) store_op"
  ls_UpdateVirtualNetwork :: "int \<Rightarrow> VirtualNetwork \<Rightarrow> ('db, unit) store_op"
  ls_DeleteVirtualNetwork :: "int \<Rightarrow> ('db, unit) store_op"
  ls_DeleteVirtualAddress :: "int \<Rightarrow> string \<Rightarrow> ('db, unit) store_op"
  ls_ListVirtualACLRules :: "int \<Rightarrow> ('db, VirtualACLRule list) store_op"
  ls_CreateVirtualACLRule :: "VirtualACLRule \<Rightarrow> ('db, VirtualACLRule) store_op"
  ls_UpdateVirtualACLRule :: "int \<Rightarrow> VirtualACLRule \<Rightarrow> ('db, unit) store_op"
  ls_DeleteVirtualACLRule :: "int \<Rightarrow> ('db, unit) store_op"
  ls_ListVirtualRoutes :: "int \<Rightarrow> string \<Rightarrow> ('db, VirtualRoute list) store_op"
  ls_UpsertVirtualRoute :: "VirtualRoute \<Rightarrow> ('db, unit) store_op"
  ls_DeleteVirtualRoute :: "int \<Rightarrow> ('db, unit) store_op"
  ls_ListVirtualPeerStates :: "int \<Rightarrow> ('db, VirtualPeerState list) store_op"
  ls_PutVirtualPeerState :: "VirtualPeerState \<Rightarrow> ('db, unit) store_op"
  ls_ListVirtualPeerPathEvents :: "int \<Rightarrow> string \<Rightarrow> string \<Rightarrow> int \<Rightarrow> ('db, VirtualPeerPathEvent list) store_op"
  ls_ListVirtualLearnedPaths :: "int \<Rightarrow> string \<Rightarrow> ('db, VirtualLearnedPath list) store_op"
  ls_UpsertVirtualLearnedPath :: "VirtualLearnedPath \<Rightarrow> ('db, unit) store_op"
  ls_SetVirtualLearnedPathPreheat :: "int \<Rightarrow> string \<Rightarrow> string \<Rightarrow> int \<Rightarrow> bool \<Rightarrow> ('db, unit) store_op"
  ls_ListVirtualDeviceKeys :: "('db, VirtualDeviceKey list) store_op"
  ls_UpsertVirtualDeviceKey :: "VirtualDeviceKey \<Rightarrow> ('db, unit) store_op"
  ls_ListVirtualDeviceGroups :: "('db, VirtualDeviceGroup list) store_op"
  ls_UpsertVirtualDeviceGroup :: "VirtualDeviceGroup \<Rightarrow> ('db, VirtualDeviceGroup) store_op"
  ls_DeleteVirtualDeviceGroup :: "string \<Rightarrow> ('db, unit) store_op"
  ls_SetVirtualDeviceGroupMembers :: "string \<Rightarrow> string list \<Rightarrow> ('db, unit) store_op"
  ls_ListVirtualDeviceGroupMembers :: "string \<Rightarrow> ('db, VirtualDeviceGroupMember list) store_op"
  ls_UpsertDevice :: "string \<Rightarrow> string \<Rightarrow> string \<Rightarrow> string \<Rightarrow> string \<Rightarrow> bool \<Rightarrow> ('db, unit) store_op"
  ls_GetDevice :: "string \<Rightarrow> ('db, Device) store_op"
  ls_UpsertDeviceProductState :: "DeviceProductState \<Rightarrow> ('db, unit) store_op"

record lanGroupResponse =
  lg_Group :: VirtualDeviceGroup
  lg_DeviceIDs :: "string list"

record lanBootstrapPeer =
  bp_DeviceID :: string
  bp_VirtualIP :: string
  bp_Hostname :: string
  bp_PublicKey :: string

record lanBootstrapResponse =
  lb_Version :: int
  lb_Capabilities :: "string list"
  lb_ConfigVersion :: string
  lb_Server :: string
  lb_STUNAltPort :: int
  lb_RelayEnabled :: bool
  lb_DeviceID :: string
  lb_DeviceName :: string
  lb_Network :: VirtualNetwork
  lb_Address :: VirtualAddress
  lb_Routes :: "VirtualRoute list"
  lb_ACL :: "VirtualACLRule list"
  lb_Peers :: "lanBootstrapPeer list"
  lb_LearnedPaths :: "VirtualLearnedPath list"

record lanDiagnosticsSnapshot =
  ld_GeneratedAt :: string
  ld_NetworkID :: int
  ld_Networks :: "VirtualNetwork list"
  ld_Addresses :: "VirtualAddress list"
  ld_DeviceKeys :: "VirtualDeviceKey list"
  ld_Groups :: "VirtualDeviceGroup list"
  ld_ACL :: "VirtualACLRule list"
  ld_Routes :: "VirtualRoute list"
  ld_PeerStates :: "VirtualPeerState list"
  ld_DeviceStates :: "lanDeviceState list"
  ld_PathEvents :: "VirtualPeerPathEvent list"
  ld_LearnedPaths :: "VirtualLearnedPath list"

datatype lan_json =
    OkTrue
  | Networks "VirtualNetwork list"
  | Network VirtualNetwork
  | Addresses "VirtualAddress list"
  | DeviceKeys "VirtualDeviceKey list"
  | Groups "lanGroupResponse list"
  | Group lanGroupResponse
  | ACLRules "VirtualACLRule list"
  | ACLRule VirtualACLRule
  | Routes "VirtualRoute list"
  | RouteRow VirtualRoute
  | DeviceStates "lanDeviceState list"
  | PeerStates "VirtualPeerState list"
  | PathEvents "VirtualPeerPathEvent list"
  | LearnedPaths "VirtualLearnedPath list"
  | Diagnostics lanDiagnosticsSnapshot
  | Bootstrap lanBootstrapResponse

definition respond :: "('db, 'v) action \<Rightarrow> 'db \<Rightarrow> ('db \<times> 'v reply) option" where
  "respond m d = map_option (\<lambda>(d', r). (d', writeJSONOrError r)) (m d)"

definition okTrue :: "('db, unit) action \<Rightarrow> ('db, lan_json) action" where
  "okTrue m = andThen m (\<lambda>_. ret OkTrue)"

subsection \<open>Networks and addresses\<close>

definition handleAdminLANNetworks :: "'db lan_store \<Rightarrow> request \<Rightarrow> VirtualNetwork option \<Rightarrow> ('db, lan_json) action" where
  "handleAdminLANNetworks S r body =
     (if r_Method r = ''GET'' then andThen (call (as_ListVirtualNetworks S)) (\<lambda>networks. ret (Networks networks))
      else if r_Method r = ''POST'' then
        andThen (result (decodeVirtualNetwork body)) (\<lambda>network.
        andThen (call (ls_CreateVirtualNetwork S network)) (\<lambda>network. ret (Network network)))
      else fail methodNotAllowed)"

definition in_use :: "string \<Rightarrow> 'a list \<Rightarrow> server_error option" where
  "in_use what rows = (if 0 < length rows then Some (badRequest ''network_in_use'' (''network still has '' @ what)) else None)"

definition ensureVirtualNetworkEmpty :: "'db lan_store \<Rightarrow> int \<Rightarrow> ('db, unit) action" where
  "ensureVirtualNetworkEmpty S networkID =
     andThen (call (as_ListVirtualAddresses S networkID)) (\<lambda>addresses.
     andThen (check (in_use ''virtual addresses'' addresses)) (\<lambda>_.
     andThen (call (ls_ListVirtualACLRules S networkID)) (\<lambda>acl.
     andThen (check (in_use ''acl rules'' acl)) (\<lambda>_.
     andThen (call (ls_ListVirtualRoutes S networkID '''')) (\<lambda>routes.
     andThen (check (in_use ''virtual routes'' routes)) (\<lambda>_.
     andThen (call (ls_ListVirtualPeerStates S networkID)) (\<lambda>states.
       check (in_use ''peer states'' states))))))))"

definition handleAdminLANNetwork :: "'db lan_store \<Rightarrow> request \<Rightarrow> VirtualNetwork option \<Rightarrow> ('db, lan_json) action" where
  "handleAdminLANNetwork S r body =
     andThen (result (parseLANPathID (r_Path r) ''/api/admin/lan/networks/'')) (\<lambda>i.
       if r_Method r = ''PATCH'' then
         okTrue (andThen (result (decodeVirtualNetwork body)) (\<lambda>network. call (ls_UpdateVirtualNetwork S i network)))
       else if r_Method r = ''DELETE'' then
         okTrue (andThen (ensureVirtualNetworkEmpty S i) (\<lambda>_. call (ls_DeleteVirtualNetwork S i)))
       else fail methodNotAllowed)"

definition handleAdminLANAddresses :: "'db lan_store \<Rightarrow> request \<Rightarrow> ('db, lan_json) action" where
  "handleAdminLANAddresses S r =
     (if r_Method r = ''GET'' then
        andThen (result (optionalInt64Query r ''network_id'')) (\<lambda>networkID.
        andThen (call (as_ListVirtualAddresses S networkID)) (\<lambda>addresses. ret (Addresses addresses)))
      else fail methodNotAllowed)"

definition handleAdminLANAddress :: "'db lan_store \<Rightarrow> request \<Rightarrow> VirtualAddress option \<Rightarrow> ('db, lan_json) action" where
  "handleAdminLANAddress S r body =
     (let deviceID = TrimSpace (TrimPrefix (r_Path r) ''/api/admin/lan/addresses/'') in
      if deviceID = '''' then fail (badRequest ''bad_device_id'' ''bad device id'')
      else if r_Method r = ''PATCH'' then
        (case body of
           None \<Rightarrow> fail (badRequest ''bad_json'' ''bad json'')
         | Some address \<Rightarrow>
             let address = address\<lparr>va_DeviceID := deviceID\<rparr> in
             andThen (check (validateVirtualAddress address)) (\<lambda>_.
             andThen (validateVirtualAddressCIDR (address_store.truncate S) address) (\<lambda>_.
               okTrue (call (as_UpsertVirtualAddress S address)))))
      else if r_Method r = ''DELETE'' then
        okTrue (andThen (result (requiredInt64Query r ''network_id'')) (\<lambda>networkID.
          call (ls_DeleteVirtualAddress S networkID deviceID)))
      else fail methodNotAllowed)"

definition handleAdminLANAddressAction :: "'db lan_store \<Rightarrow> request \<Rightarrow> ('db, lan_json) action" where
  "handleAdminLANAddressAction S r =
     (let (deviceID, act) = parseLANAddressAction (r_Path r) in
      if deviceID = '''' \<or> act = '''' then fail (badRequest ''bad_path'' ''bad address action path'')
      else if r_Method r \<noteq> ''POST'' then fail methodNotAllowed
      else andThen (result (requiredInt64Query r ''network_id'')) (\<lambda>networkID.
        if act = ''release'' then okTrue (call (ls_DeleteVirtualAddress S networkID deviceID))
        else if act = ''reassign'' then
          okTrue (onResult (call (ls_DeleteVirtualAddress S networkID deviceID)) (\<lambda>res.
            if (case res of Inr _ \<Rightarrow> True | Inl e \<Rightarrow> e = ErrNoRows) then
              andThen (virtualNetworkByID (address_store.truncate S) networkID) (\<lambda>network.
              andThen (allocateVirtualAddress (address_store.truncate S) network deviceID '''') (\<lambda>_. ret ()))
            else result res))
        else if act = ''bootstrap'' then okTrue (touchVirtualAddress (address_store.truncate S) networkID deviceID)
        else fail (badRequest ''bad_action'' ''unsupported address action'')))"

definition handleAdminLANDeviceKeys :: "'db lan_store \<Rightarrow> request \<Rightarrow> ('db, lan_json) action" where
  "handleAdminLANDeviceKeys S r =
     (if r_Method r = ''GET'' then andThen (call (ls_ListVirtualDeviceKeys S)) (\<lambda>keys. ret (DeviceKeys keys))
      else fail methodNotAllowed)"

subsection \<open>Groups, access rules and routes\<close>

definition listLANGroups :: "'db lan_store \<Rightarrow> ('db, lanGroupResponse list) action" where
  "listLANGroups S =
     andThen (call (ls_ListVirtualDeviceGroups S)) (\<lambda>groups.
     andThen (call (ls_ListVirtualDeviceGroupMembers S '''')) (\<lambda>members.
       ret (map (\<lambda>group. \<lparr>lg_Group = group, lg_DeviceIDs = members_of members (vg_ID group)\<rparr>) groups)))"

definition save_group :: "'db lan_store \<Rightarrow> VirtualDeviceGroup \<Rightarrow> string list \<Rightarrow> ('db, VirtualDeviceGroup) action" where
  "save_group S grp members =
     andThen (call (ls_UpsertVirtualDeviceGroup S grp)) (\<lambda>group.
     andThen (call (ls_SetVirtualDeviceGroupMembers S (vg_ID group) members)) (\<lambda>_. ret group))"

definition handleAdminLANGroups :: "'db lan_store \<Rightarrow> request \<Rightarrow> group_request option \<Rightarrow> ('db, lan_json) action" where
  "handleAdminLANGroups S r body =
     (if r_Method r = ''GET'' then andThen (listLANGroups S) (\<lambda>groups. ret (Groups groups))
      else if r_Method r = ''POST'' then
        andThen (result (decodeLANGroup body)) (\<lambda>(group, members).
        andThen (save_group S group members) (\<lambda>group. ret (Group \<lparr>lg_Group = group, lg_DeviceIDs = members\<rparr>)))
      else fail methodNotAllowed)"

definition handleAdminLANGroup :: "'db lan_store \<Rightarrow> request \<Rightarrow> group_request option \<Rightarrow> ('db, lan_json) action" where
  "handleAdminLANGroup S r body =
     (let i = TrimSpace (TrimPrefix (r_Path r) ''/api/admin/lan/groups/'') in
      if i = '''' then fail (badRequest ''bad_group_id'' ''bad group id'')
      else if r_Method r = ''PATCH'' then
        okTrue (andThen (result (decodeLANGroup body)) (\<lambda>(group, members).
          andThen (save_group S (group\<lparr>vg_ID := i\<rparr>) members) (\<lambda>_. ret ())))
      else if r_Method r = ''DELETE'' then okTrue (call (ls_DeleteVirtualDeviceGroup S i))
      else fail methodNotAllowed)"

definition handleAdminLANACLRules :: "'db lan_store \<Rightarrow> request \<Rightarrow> VirtualACLRule option \<Rightarrow> ('db, lan_json) action" where
  "handleAdminLANACLRules S r body =
     (if r_Method r = ''GET'' then
        andThen (result (optionalInt64Query r ''network_id'')) (\<lambda>networkID.
        andThen (call (ls_ListVirtualACLRules S networkID)) (\<lambda>rules. ret (ACLRules rules)))
      else if r_Method r = ''POST'' then
        andThen (result (decodeVirtualACLRule body)) (\<lambda>rule.
        andThen (call (ls_CreateVirtualACLRule S rule)) (\<lambda>rule. ret (ACLRule rule)))
      else fail methodNotAllowed)"

definition handleAdminLANACLRule :: "'db lan_store \<Rightarrow> request \<Rightarrow> VirtualACLRule option \<Rightarrow> ('db, lan_json) action" where
  "handleAdminLANACLRule S r body =
     andThen (result (parseLANPathID (r_Path r) ''/api/admin/lan/acl/'')) (\<lambda>i.
       if r_Method r = ''PATCH'' then
         okTrue (andThen (result (decodeVirtualACLRule body)) (\<lambda>rule. call (ls_UpdateVirtualACLRule S i rule)))
       else if r_Method r = ''DELETE'' then okTrue (call (ls_DeleteVirtualACLRule S i))
       else fail methodNotAllowed)"

definition decodeVirtualRoute :: "'db lan_store \<Rightarrow> VirtualRoute option \<Rightarrow> ('db, VirtualRoute) action" where
  "decodeVirtualRoute S body =
     (case body of
        None \<Rightarrow> fail (badRequest ''bad_json'' ''bad json'')
      | Some route \<Rightarrow>
          let route = route\<lparr>vr_DeviceID := TrimSpace (vr_DeviceID route), vr_CIDR := TrimSpace (vr_CIDR route)\<rparr> in
          if vr_NetworkID route \<le> 0 \<or> vr_DeviceID route = '''' \<or> vr_CIDR route = ''''
          then fail (badRequest ''bad_route'' ''network_id, device_id and cidr are required'')
          else andThen (check (validateSubnetAdvertisement (vr_CIDR route))) (\<lambda>_.
            onResult (call (ls_GetDevice S (vr_DeviceID route))) (\<lambda>res. case res of
              Inl ErrNoRows \<Rightarrow> fail (badRequest ''device_not_found'' ''device not found'')
            | Inl err \<Rightarrow> fail err
            | Inr _ \<Rightarrow> ret route)))"

definition handleAdminLANRoutes :: "'db lan_store \<Rightarrow> request \<Rightarrow> VirtualRoute option \<Rightarrow> ('db, lan_json) action" where
  "handleAdminLANRoutes S r body =
     (if r_Method r = ''GET'' then
        andThen (result (optionalInt64Query r ''network_id'')) (\<lambda>networkID.
        andThen (call (ls_ListVirtualRoutes S networkID (TrimSpace (r_Query r ''device_id'')))) (\<lambda>routes. ret (Routes routes)))
      else if r_Method r = ''POST'' then
        andThen (decodeVirtualRoute S body) (\<lambda>route.
        andThen (call (ls_UpsertVirtualRoute S route)) (\<lambda>_.
        andThen (call (ls_ListVirtualRoutes S (vr_NetworkID route) (vr_DeviceID route))) (\<lambda>routes.
          ret (RouteRow (case find (\<lambda>item. vr_CIDR item = vr_CIDR route) routes of None \<Rightarrow> route | Some item \<Rightarrow> item)))))
      else fail methodNotAllowed)"

definition handleAdminLANRoute :: "'db lan_store \<Rightarrow> request \<Rightarrow> VirtualRoute option \<Rightarrow> ('db, lan_json) action" where
  "handleAdminLANRoute S r body =
     andThen (result (parseLANPathID (r_Path r) ''/api/admin/lan/routes/'')) (\<lambda>i.
       if r_Method r = ''PATCH'' then
         okTrue (andThen (decodeVirtualRoute S body) (\<lambda>route. call (ls_UpsertVirtualRoute S (route\<lparr>vr_ID := i\<rparr>))))
       else if r_Method r = ''DELETE'' then okTrue (call (ls_DeleteVirtualRoute S i))
       else fail methodNotAllowed)"

subsection \<open>States, events, learned paths, diagnostics\<close>

definition handleAdminLANDeviceStates ::
  "'db lan_store \<Rightarrow> (string \<Rightarrow> time option) \<Rightarrow> time \<Rightarrow> request \<Rightarrow> ('db, lan_json) action"
where
  "handleAdminLANDeviceStates S parse now r =
     (if r_Method r = ''GET'' then
        andThen (result (optionalInt64Query r ''network_id'')) (\<lambda>networkID.
        andThen (lanDeviceStates (as_ListVirtualAddresses S) (ls_ListVirtualPeerStates S) parse now networkID) (\<lambda>states.
          ret (DeviceStates states)))
      else fail methodNotAllowed)"

definition handleAdminLANPeerStates :: "'db lan_store \<Rightarrow> request \<Rightarrow> ('db, lan_json) action" where
  "handleAdminLANPeerStates S r =
     (if r_Method r = ''GET'' then
        andThen (result (optionalInt64Query r ''network_id'')) (\<lambda>networkID.
        andThen (call (ls_ListVirtualPeerStates S networkID)) (\<lambda>states.
        andThen (call (as_ListVirtualAddresses S networkID)) (\<lambda>addresses.
          ret (PeerStates (filterLANPeerStates addresses states)))))
      else fail methodNotAllowed)"

definition handleAdminLANPathEvents :: "'db lan_store \<Rightarrow> request \<Rightarrow> ('db, lan_json) action" where
  "handleAdminLANPathEvents S r =
     (if r_Method r = ''GET'' then
        andThen (result (optionalInt64Query r ''network_id'')) (\<lambda>networkID.
        andThen (result (optionalIntQuery r ''limit'')) (\<lambda>limit.
        andThen (call (ls_ListVirtualPeerPathEvents S networkID (r_Query r ''device_id'') (r_Query r ''peer_id'') limit)) (\<lambda>events.
        andThen (call (as_ListVirtualAddresses S networkID)) (\<lambda>addresses.
          ret (PathEvents (filterLANPathEvents addresses events))))))
      else fail methodNotAllowed)"

record preheat_request =
  ph_NetworkID :: int
  ph_DeviceID :: string
  ph_PeerID :: string
  ph_DstPort :: int
  ph_PreheatEnabled :: bool

definition handleAdminLANLearnedPaths :: "'db lan_store \<Rightarrow> request \<Rightarrow> preheat_request option \<Rightarrow> ('db, lan_json) action" where
  "handleAdminLANLearnedPaths S r body =
     (if r_Method r = ''GET'' then
        andThen (result (optionalInt64Query r ''network_id'')) (\<lambda>networkID.
        andThen (call (ls_ListVirtualLearnedPaths S networkID (r_Query r ''device_id''))) (\<lambda>paths. ret (LearnedPaths paths)))
      else if r_Method r = ''PATCH'' then
        (case body of
           None \<Rightarrow> fail (badRequest ''bad_json'' ''bad json'')
         | Some req \<Rightarrow>
             if ph_NetworkID req \<le> 0 \<or> TrimSpace (ph_DeviceID req) = '''' \<or> TrimSpace (ph_PeerID req) = '''' \<or> ph_DstPort req \<le> 0
             then fail (badRequest ''bad_json'' ''bad json'')
             else okTrue (call (ls_SetVirtualLearnedPathPreheat S (ph_NetworkID req) (ph_DeviceID req) (ph_PeerID req)
                            (ph_DstPort req) (ph_PreheatEnabled req))))
      else fail methodNotAllowed)"

definition lanDiagnosticsSnapshot_of ::
  "'db lan_store \<Rightarrow> (string \<Rightarrow> time option) \<Rightarrow> time \<Rightarrow> string \<Rightarrow> int \<Rightarrow> ('db, lanDiagnosticsSnapshot) action"
where
  "lanDiagnosticsSnapshot_of S parse now nowText networkID =
     andThen (call (as_ListVirtualNetworks S)) (\<lambda>networks.
     andThen (call (as_ListVirtualAddresses S networkID)) (\<lambda>addresses.
     andThen (call (ls_ListVirtualDeviceKeys S)) (\<lambda>keys.
     andThen (call (ls_ListVirtualDeviceGroups S)) (\<lambda>groups.
     andThen (call (ls_ListVirtualACLRules S networkID)) (\<lambda>acl.
     andThen (call (ls_ListVirtualRoutes S networkID '''')) (\<lambda>routes.
     andThen (call (ls_ListVirtualPeerStates S networkID)) (\<lambda>peerStates.
     andThen (lanDeviceStates (as_ListVirtualAddresses S) (ls_ListVirtualPeerStates S) parse now networkID) (\<lambda>deviceStates.
     andThen (call (ls_ListVirtualPeerPathEvents S networkID '''' '''' 500)) (\<lambda>events.
     andThen (call (ls_ListVirtualLearnedPaths S networkID '''')) (\<lambda>paths.
       ret \<lparr>ld_GeneratedAt = nowText, ld_NetworkID = networkID, ld_Networks = networks, ld_Addresses = addresses, ld_DeviceKeys = keys,
            ld_Groups = groups, ld_ACL = acl, ld_Routes = routes, ld_PeerStates = filterLANPeerStates addresses peerStates,
            ld_DeviceStates = deviceStates, ld_PathEvents = filterLANPathEvents addresses events, ld_LearnedPaths = paths\<rparr>))))))))))"

definition handleAdminLANDiagnostics ::
  "'db lan_store \<Rightarrow> (string \<Rightarrow> time option) \<Rightarrow> time \<Rightarrow> string \<Rightarrow> request \<Rightarrow> ('db, lan_json) action"
where
  "handleAdminLANDiagnostics S parse now nowText r =
     (if r_Method r = ''GET'' then
        andThen (result (optionalInt64Query r ''network_id'')) (\<lambda>networkID.
        andThen (lanDiagnosticsSnapshot_of S parse now nowText networkID) (\<lambda>snapshot. ret (Diagnostics snapshot)))
      else fail methodNotAllowed)"

subsection \<open>The agents: bootstrap and status\<close>

record bootstrap_request =
  br_DeviceID :: string
  br_DeviceName :: string
  br_PublicKey :: string
  br_Capabilities :: "string list"

record server_settings =
  set_UDPListen :: string
  set_StunAltListen :: string
  set_LANAllowRelay :: bool

definition no_product_state :: DeviceProductState where
  "no_product_state = \<lparr>dps_DeviceID = '''', dps_Product = '''', dps_Online = False, dps_LastSeenAt = '''', dps_LastSource = '''',
     dps_Version = '''', dps_LastError = '''', dps_Metadata = []\<rparr>"

definition keyByDevice :: "VirtualDeviceKey list \<Rightarrow> string \<Rightarrow> string" where
  "keyByDevice keys device =
     (case map_of (rev (map (\<lambda>k. (vk_DeviceID k, vk_PublicKey k)) (filter (\<lambda>k. vk_Algorithm k = ''ed25519'') keys))) device of
        None \<Rightarrow> '''' | Some k \<Rightarrow> k)"

definition bootstrap_peers :: "string \<Rightarrow> VirtualAddress list \<Rightarrow> VirtualDeviceKey list \<Rightarrow> lanBootstrapPeer list" where
  "bootstrap_peers deviceID addresses keys =
     map (\<lambda>a. \<lparr>bp_DeviceID = va_DeviceID a, bp_VirtualIP = va_VirtualIP a, bp_Hostname = va_Hostname a,
               bp_PublicKey = keyByDevice keys (va_DeviceID a)\<rparr>)
       (filter (\<lambda>a. va_DeviceID a \<noteq> deviceID) addresses)"

definition lanBootstrapVersion :: int where "lanBootstrapVersion = 1"

definition handleLANBootstrap ::
  "'db lan_store \<Rightarrow> server_settings \<Rightarrow> request \<Rightarrow> bootstrap_request option \<Rightarrow> ('db, lan_json) action"
where
  "handleLANBootstrap S cfg r body =
     (case body of
        None \<Rightarrow> fail (badRequest ''bad_json'' ''bad json'')
      | Some req \<Rightarrow>
          let device = br_DeviceID req; A = address_store.truncate S in
          if TrimSpace device = '''' then fail (badRequest ''bad_json'' ''bad json'')
          else
            andThen (lanNetworkAndAddress A device) (\<lambda>(network, address).
            andThen (call (ls_UpsertDevice S device (TrimSpace (br_DeviceName req)) (requestAddr r) '''' '''' False)) (\<lambda>_.
            andThen (if TrimSpace (br_PublicKey req) \<noteq> '''' then
                       call (ls_UpsertVirtualDeviceKey S \<lparr>vk_DeviceID = device, vk_Algorithm = ''ed25519'',
                         vk_PublicKey = TrimSpace (br_PublicKey req), vk_CreatedAt = '''', vk_UpdatedAt = ''''\<rparr>)
                     else ret ()) (\<lambda>_.
            andThen (call (ls_UpsertDeviceProductState S (no_product_state\<lparr>dps_DeviceID := device, dps_Product := ''lan'',
                       dps_Online := False, dps_LastSource := ''lan_bootstrap'',
                       dps_Metadata := [(''network_id'', JInt (vn_ID network)), (''virtual_ip'', JString (va_VirtualIP address))]\<rparr>))) (\<lambda>_.
            andThen (if TrimSpace (va_DeviceID address) = '''' then allocateVirtualAddress A network device (TrimSpace (br_DeviceName req))
                     else if TrimSpace (va_VirtualIP address) = '''' then
                       allocateVirtualAddress A network device (firstNonEmpty [va_Hostname address, TrimSpace (br_DeviceName req)])
                     else ret address) (\<lambda>address.
            andThen (call (ls_ListVirtualRoutes S (vn_ID network) device)) (\<lambda>routes.
            andThen (call (ls_ListVirtualACLRules S (vn_ID network))) (\<lambda>acl.
            andThen (call (as_ListVirtualAddresses S (vn_ID network))) (\<lambda>addresses.
            andThen (call (ls_ListVirtualDeviceKeys S)) (\<lambda>keys.
            andThen (call (ls_ListVirtualLearnedPaths S (vn_ID network) device)) (\<lambda>learnedPaths.
            andThen (expandVirtualACLRules (ls_ListVirtualDeviceGroupMembers S '''') acl addresses) (\<lambda>acl.
              ret (Bootstrap \<lparr>lb_Version = lanBootstrapVersion, lb_Capabilities = [''ipv4'', ''tcp'', ''rdp''],
                lb_ConfigVersion = lanConfigVersion network addresses acl routes, lb_Server = externalUDPAddr r (set_UDPListen cfg),
                lb_STUNAltPort = portFromAddr (set_StunAltListen cfg) 7002, lb_RelayEnabled = set_LANAllowRelay cfg,
                lb_DeviceID = device, lb_DeviceName = TrimSpace (br_DeviceName req), lb_Network = network, lb_Address = address,
                lb_Routes = routes, lb_ACL = acl, lb_Peers = bootstrap_peers device addresses keys,
                lb_LearnedPaths = learnedPaths\<rparr>)))))))))))))"

definition product_state :: "VirtualPeerState \<Rightarrow> lanDeviceState list \<Rightarrow> DeviceProductState" where
  "product_state req states =
     (let summary = (case find (\<lambda>state. lds_DeviceID state = ps_DeviceID req) states of
                       None \<Rightarrow> new_device_state '''' 0 | Some state \<Rightarrow> state);
          summary = (if lds_DeviceID summary = '''' then new_device_state (ps_DeviceID req) (ps_NetworkID req) else summary)
      in no_product_state\<lparr>dps_DeviceID := ps_DeviceID req, dps_Product := ''lan'', dps_Online := True, dps_LastSource := ''lan_status'',
           dps_LastError := firstNonEmpty [ps_LastError req, lds_LastError summary],
           dps_Metadata := [(''network_id'', JInt (ps_NetworkID req)), (''virtual_ip'', JString (lds_VirtualIP summary)),
             (''adapter_state'', JString (firstNonEmpty [ps_AdapterState req, lds_AdapterState summary])),
             (''selected_cidr'', JString (firstNonEmpty [ps_SelectedCIDR req, lds_SelectedCIDR summary])),
             (''route_conflict'', JString (firstNonEmpty [ps_RouteConflict req, lds_RouteConflict summary])),
             (''p2p_peers'', JInt (lds_P2PPeers summary)), (''relay_peers'', JInt (lds_RelayPeers summary)),
             (''down_peers'', JInt (lds_DownPeers summary)), (''active_sessions'', JInt (lds_ActiveSessions summary)),
             (''hot_paths'', JInt (lds_HotPaths summary)), (''socket_rotations'', JInt (uint (lds_SocketRotations summary))),
             (''last_rotation_reason'', JString (firstNonEmpty [ps_LastRotationReason req, lds_LastRotationReason summary])),
             (''relay_disabled'', JBool (ps_RelayDisabled req \<or> lds_RelayDisabled summary))]\<rparr>)"

definition lanProductMetadata ::
  "'db lan_store \<Rightarrow> (string \<Rightarrow> time option) \<Rightarrow> time \<Rightarrow> VirtualPeerState \<Rightarrow> ('db, DeviceProductState) action"
where
  "lanProductMetadata S parse now req =
     andThen (lanDeviceStates (as_ListVirtualAddresses S) (ls_ListVirtualPeerStates S) parse now (ps_NetworkID req)) (\<lambda>states.
       ret (product_state req states))"

fun store_learned :: "'db lan_store \<Rightarrow> VirtualPeerState \<Rightarrow> VirtualLearnedPath list \<Rightarrow> ('db, unit) action" where
  "store_learned S req [] = ret ()"
| "store_learned S req (path # paths) =
     (let path = (if TrimSpace (lp_DeviceID path) = '''' then path\<lparr>lp_DeviceID := ps_DeviceID req\<rparr> else path);
          path = (if lp_NetworkID path \<le> 0 then path\<lparr>lp_NetworkID := ps_NetworkID req\<rparr> else path) in
      if lp_DeviceID path \<noteq> ps_DeviceID req \<or> lp_NetworkID path \<noteq> ps_NetworkID req \<or> TrimSpace (lp_PeerID path) = ''''
         \<or> lp_DstPort path \<le> 0
      then store_learned S req paths
      else
        let path = (if lp_Protocol path = '''' then path\<lparr>lp_Protocol := ''tcp''\<rparr> else path) in
        andThen (call (ls_UpsertVirtualLearnedPath S path)) (\<lambda>_. store_learned S req paths))"

definition handleLANStatus ::
  "'db lan_store \<Rightarrow> (string \<Rightarrow> time option) \<Rightarrow> time \<Rightarrow> (VirtualPeerState \<times> VirtualLearnedPath list) option \<Rightarrow> ('db, lan_json) action"
where
  "handleLANStatus S parse now body =
     (case body of
        None \<Rightarrow> fail (badRequest ''bad_json'' ''bad json'')
      | Some (req, learned) \<Rightarrow>
          if TrimSpace (ps_DeviceID req) = '''' \<or> ps_NetworkID req \<le> 0 then fail (badRequest ''bad_json'' ''bad json'')
          else okTrue
            (andThen (call (ls_PutVirtualPeerState S req)) (\<lambda>_.
             andThen (lanProductMetadata S parse now req) (\<lambda>deviceState.
             andThen (call (ls_UpsertDeviceProductState S deviceState)) (\<lambda>_.
               store_learned S req learned)))))"

section \<open>Properties\<close>

subsection \<open>Deleting a network\<close>

text \<open>Listing rows does not change the tables.\<close>

definition reads_only :: "('db, 'a) store_op \<Rightarrow> bool" where
  "reads_only m \<longleftrightarrow> (\<forall>d. fst (m d) = d)"

lemma reads_onlyD: "reads_only m \<Longrightarrow> m d = (d, snd (m d))"
  by (metis reads_only_def prod.collapse)

lemma andThen_call_read:
  "reads_only m \<Longrightarrow> andThen (call m) f d = (case snd (m d) of Inl e \<Rightarrow> Some (d, Inl e) | Inr x \<Rightarrow> f x d)"
  using reads_onlyD [of m d] by (auto simp: andThen_def call_def split: sum.splits prod.splits)

lemma andThen_check: "andThen (check e) f d = (case e of None \<Rightarrow> f () d | Some err \<Rightarrow> Some (d, Inl err))"
  by (simp add: andThen_def check_def split: option.splits)

lemma okTrue_eq: "okTrue m d = (case m d of None \<Rightarrow> None | Some (d', Inl e) \<Rightarrow> Some (d', Inl e) | Some (d', Inr _) \<Rightarrow> Some (d', Inr OkTrue))"
  by (auto simp: okTrue_def andThen_def ret_def split: option.splits prod.splits sum.splits)

lemma ensureVirtualNetworkEmpty_cases:
  assumes "reads_only (as_ListVirtualAddresses S i)" "reads_only (ls_ListVirtualACLRules S i)"
    "reads_only (ls_ListVirtualRoutes S i '''')" "reads_only (ls_ListVirtualPeerStates S i)"
  shows "ensureVirtualNetworkEmpty S i d = Some (d, Inr ()) \<and> snd (as_ListVirtualAddresses S i d) = Inr []
       \<and> snd (ls_ListVirtualACLRules S i d) = Inr [] \<and> snd (ls_ListVirtualRoutes S i '''' d) = Inr []
       \<and> snd (ls_ListVirtualPeerStates S i d) = Inr []
     \<or> (\<exists>e. ensureVirtualNetworkEmpty S i d = Some (d, Inl e))"
  unfolding ensureVirtualNetworkEmpty_def
  by (simp add: andThen_call_read assms andThen_check in_use_def split: sum.splits) (auto simp: check_def)

text \<open>The server never deletes a network that is in use: a DELETE that succeeds found no address, no
  access rule, no route and no peer state of the network, and one that fails for any of them leaves
  the tables as they were.\<close>

theorem delete_only_empty_networks:
  assumes "reads_only (as_ListVirtualAddresses S i)" "reads_only (ls_ListVirtualACLRules S i)"
    and "reads_only (ls_ListVirtualRoutes S i '''')" "reads_only (ls_ListVirtualPeerStates S i)"
    and "r_Method r = ''DELETE''" "parseLANPathID (r_Path r) ''/api/admin/lan/networks/'' = Inr i"
  shows "(if snd (as_ListVirtualAddresses S i d) = Inr [] \<and> snd (ls_ListVirtualACLRules S i d) = Inr []
             \<and> snd (ls_ListVirtualRoutes S i '''' d) = Inr [] \<and> snd (ls_ListVirtualPeerStates S i d) = Inr []
          then handleAdminLANNetwork S r body d = okTrue (call (ls_DeleteVirtualNetwork S i)) d
          else \<exists>e. handleAdminLANNetwork S r body d = Some (d, Inl e))"
proof -
  have handler: "handleAdminLANNetwork S r body d = okTrue (andThen (ensureVirtualNetworkEmpty S i) (\<lambda>_. call (ls_DeleteVirtualNetwork S i))) d"
    using assms(5,6) by (simp add: handleAdminLANNetwork_def andThen_def result_def)
  have empty: "ensureVirtualNetworkEmpty S i d = Some (d, Inr ())"
    if "snd (as_ListVirtualAddresses S i d) = Inr []" "snd (ls_ListVirtualACLRules S i d) = Inr []"
      "snd (ls_ListVirtualRoutes S i '''' d) = Inr []" "snd (ls_ListVirtualPeerStates S i d) = Inr []"
    using that unfolding ensureVirtualNetworkEmpty_def
    by (simp add: andThen_call_read assms andThen_check in_use_def check_def)
  show ?thesis
    using ensureVirtualNetworkEmpty_cases [OF assms(1-4), of d] empty unfolding handler okTrue_eq
    by (auto simp: andThen_def split: if_splits)
qed

definition demo_lan :: "VirtualAddress list lan_store" where
  "demo_lan = address_store.extend demo_store \<lparr>
     ls_CreateVirtualNetwork = (\<lambda>n d. (d, Inr n)), ls_UpdateVirtualNetwork = (\<lambda>_ _ d. (d, Inr ())),
     ls_DeleteVirtualNetwork = (\<lambda>_ d. (d, Inr ())), ls_DeleteVirtualAddress = (\<lambda>_ _ d. ([], Inr ())),
     ls_ListVirtualACLRules = (\<lambda>_ d. (d, Inr [demo_deny])), ls_CreateVirtualACLRule = (\<lambda>r d. (d, Inr r)),
     ls_UpdateVirtualACLRule = (\<lambda>_ _ d. (d, Inr ())), ls_DeleteVirtualACLRule = (\<lambda>_ d. (d, Inr ())),
     ls_ListVirtualRoutes = (\<lambda>_ _ d. (d, Inr [])), ls_UpsertVirtualRoute = (\<lambda>_ d. (d, Inr ())),
     ls_DeleteVirtualRoute = (\<lambda>_ d. (d, Inr ())), ls_ListVirtualPeerStates = (\<lambda>_ d. (d, Inr [])),
     ls_PutVirtualPeerState = (\<lambda>_ d. (d, Inr ())), ls_ListVirtualPeerPathEvents = (\<lambda>_ _ _ _ d. (d, Inr [])),
     ls_ListVirtualLearnedPaths = (\<lambda>_ _ d. (d, Inr [])), ls_UpsertVirtualLearnedPath = (\<lambda>_ d. (d, Inr ())),
     ls_SetVirtualLearnedPathPreheat = (\<lambda>_ _ _ _ _ d. (d, Inr ())), ls_ListVirtualDeviceKeys = (\<lambda>d. (d, Inr [])),
     ls_UpsertVirtualDeviceKey = (\<lambda>_ d. (d, Inr ())), ls_ListVirtualDeviceGroups = (\<lambda>d. (d, Inr [])),
     ls_UpsertVirtualDeviceGroup = (\<lambda>g d. (d, Inr g)), ls_DeleteVirtualDeviceGroup = (\<lambda>_ d. (d, Inr ())),
     ls_SetVirtualDeviceGroupMembers = (\<lambda>_ _ d. (d, Inr ())), ls_ListVirtualDeviceGroupMembers = (\<lambda>_ d. (d, Inr [demo_member])),
     ls_UpsertDevice = (\<lambda>_ _ _ _ _ _ d. (d, Inr ())), ls_GetDevice = (\<lambda>_ d. (d, Inl ErrNoRows)),
     ls_UpsertDeviceProductState = (\<lambda>_ d. (d, Inr ()))\<rparr>"

lemma demo_lan_ops [simp]:
  "as_ListVirtualAddresses demo_lan = (\<lambda>_ d. (d, Inr d))"
  "ls_ListVirtualACLRules demo_lan = (\<lambda>_ d. (d, Inr [demo_deny]))" "ls_ListVirtualRoutes demo_lan = (\<lambda>_ _ d. (d, Inr []))"
  "ls_ListVirtualPeerStates demo_lan = (\<lambda>_ d. (d, Inr []))"
  "ls_ListVirtualDeviceGroupMembers demo_lan = (\<lambda>_ d. (d, Inr [demo_member]))"
  by (simp_all add: demo_lan_def demo_store_def address_store.defs)

definition delete_request :: request where
  "delete_request = \<lparr>r_Method = ''DELETE'', r_Path = ''/api/admin/lan/networks/'' @ FormatInt 1, r_Query = (\<lambda>_. ''''), r_RemoteAddr = '''', r_Host = ''''\<rparr>"

theorem delete_only_empty_networks_witness:
  "\<exists>e. handleAdminLANNetwork demo_lan delete_request None [] = Some ([], Inl e)"
proof -
  have "parseLANPathID (pre @ FormatInt 1) pre = Inr 1" for pre
    by (simp add: parseLANPathID_def TrimPrefix_def Atoi_FormatInt)
  then show ?thesis
    using delete_only_empty_networks [of demo_lan 1 delete_request "[]" None] by (simp add: reads_only_def delete_request_def del: append.simps)
qed

subsection \<open>What a bootstrap hands out\<close>

lemma lanNetworkAndAddress_result:
  assumes "lanNetworkAndAddress A device d = Some (d', Inr (network, address))"
  shows "address = no_address \<or> va_NetworkID address = vn_ID network"
  using assms
  by (auto simp: lanNetworkAndAddress_def onResult_def call_def andThen_def ret_def fail_def find_Some_iff
      split: sum.splits prod.splits option.splits server_error.splits)


lemma lanNetworkAndAddress_same_network:
  "\<lbrakk>lanNetworkAndAddress A device d = Some (d', Inr (network, address)); TrimSpace (va_DeviceID address) \<noteq> ''''\<rbrakk>
     \<Longrightarrow> va_NetworkID address = vn_ID network"
  using lanNetworkAndAddress_result by (fastforce simp: no_address_def)

end
