(* ===== verification/Traffic.thy ===== *)
theory Traffic
  imports Router
begin

text \<open>
  How the LAN agent classifies the frames the router hands out, from
  \<^verbatim>\<open>cmd/UDPTunnelLAN/packet_runtime.go\<close>: traffic class and priority, candidates of the TCP fast path,
  the key of a session, the path policy of a network, and the packets of the TUN device.
  The addresses in a frame's header are what \<^verbatim>\<open>ParseIPv4\<close> put there, so their text is \<open>IPv4String\<close>;
  a nil address is the empty list.
\<close>

subsection \<open>Constants\<close>

definition lanTrafficCritical :: string where "lanTrafficCritical = ''critical''"

definition lanTrafficInteractive :: string where "lanTrafficInteractive = ''interactive''"

definition lanTrafficThroughput :: string where "lanTrafficThroughput = ''throughput''"

definition lanTCPFastPathOff :: string where "lanTCPFastPathOff = ''off''"

definition lanTCPFastPathFallback :: string where "lanTCPFastPathFallback = ''packet_fallback''"

definition lanTCPFastPathAttempt :: string where "lanTCPFastPathAttempt = ''attempt''"

subsection \<open>Path policy\<close>

definition lanPathPolicy :: "VirtualNetwork \<Rightarrow> string" where
  "lanPathPolicy network =
     (if TrimSpace (vn_PathPolicy network) \<in> {''auto'', ''prefer_relay'', ''relay_only''}
      then TrimSpace (vn_PathPolicy network) else ''prefer_p2p'')"

record lanPathPolicyConfig =
  pp_Name :: string
  pp_PreferRelay :: bool
  pp_RelayOnly :: bool
  pp_RelayEnabled :: bool
  pp_RelayConfigured :: bool

definition newLANPathPolicy :: "VirtualNetwork \<Rightarrow> lanPathPolicyConfig" where
  "newLANPathPolicy network =
     (let name = lanPathPolicy network in
      \<lparr>pp_Name = name, pp_PreferRelay = (name = ''prefer_relay'' \<or> name = ''relay_only''), pp_RelayOnly = (name = ''relay_only''),
       pp_RelayEnabled = True, pp_RelayConfigured = True\<rparr>)"

definition relayAvailable :: "lanPathPolicyConfig \<Rightarrow> bool" where
  "relayAvailable p \<longleftrightarrow> \<not> pp_RelayConfigured p \<or> pp_RelayEnabled p"

subsection \<open>Packets of the TUN device\<close>

definition isSupportedTunPacket :: "bytes \<Rightarrow> bool" where
  "isSupportedTunPacket pkt \<longleftrightarrow> (case pkt of [] \<Rightarrow> False | b # _ \<Rightarrow> drop_bit 4 b = 4)"

record lanWintunReadStats =
  wr_packets :: uint64
  wr_bytes :: uint64
  wr_tcp :: uint64
  wr_udp :: uint64
  wr_icmp :: uint64
  wr_large :: uint64
  wr_noPacket :: uint64
  wr_errors :: uint64
  wr_queueFull :: uint64
  wr_lastLog :: time

text \<open>\<^verbatim>\<open>time.Now\<close> is the parameter \<open>now\<close>; writing to the log is left out.\<close>

definition maybeLog :: "time \<Rightarrow> lanWintunReadStats \<Rightarrow> lanWintunReadStats" where
  "maybeLog now s = (if time_Sub now (wr_lastLog s) < 30 * Second then s else s\<lparr>wr_lastLog := now\<rparr>)"

definition recordPacket :: "time \<Rightarrow> lanWintunReadStats \<Rightarrow> bytes \<Rightarrow> lanWintunReadStats" where
  "recordPacket now s pkt =
     (let s = s\<lparr>wr_packets := wr_packets s + 1, wr_bytes := wr_bytes s + of_nat (length pkt)\<rparr>;
          s = (if 1200 < length pkt then s\<lparr>wr_large := wr_large s + 1\<rparr> else s) in
      maybeLog now (case ParseIPv4 pkt of
        Some (Inr header) \<Rightarrow>
          if ih_Protocol header = IPv4ProtocolTCP then s\<lparr>wr_tcp := wr_tcp s + 1\<rparr>
          else if ih_Protocol header = IPv4ProtocolUDP then s\<lparr>wr_udp := wr_udp s + 1\<rparr>
          else if ih_Protocol header = IPv4ProtocolICMP then s\<lparr>wr_icmp := wr_icmp s + 1\<rparr>
          else s
      | _ \<Rightarrow> s))"

text \<open>One packet read by the loop of \<^verbatim>\<open>readWintunPackets\<close>: \<open>room\<close> says whether the channel \<^verbatim>\<open>outbound\<close> takes a
  frame without blocking.  The frame handed on is the last component.\<close>

definition readWintunPacket ::
  "time \<Rightarrow> lanWintunReadStats \<Rightarrow> Router \<Rightarrow> bool \<Rightarrow> bytes \<Rightarrow> (lanWintunReadStats \<times> Router \<times> RoutedFrame option) option"
where
  "readWintunPacket now stats router room pkt =
     (let stats = recordPacket now stats pkt in
      if \<not> isSupportedTunPacket pkt then Some (stats, router, None)
      else (case RouteOutbound (Some router) pkt of
              Some (Some router, Inr frame) \<Rightarrow>
                if room then Some (stats, router, Some frame)
                else Some (maybeLog now (stats\<lparr>wr_queueFull := wr_queueFull stats + 1\<rparr>), router, None)
            | Some (Some router, Inl _) \<Rightarrow> Some (stats, router, None)
            | _ \<Rightarrow> None))"

subsection \<open>Classes and priorities\<close>

definition isLANInteractivePort :: "int \<Rightarrow> bool" where
  "isLANInteractivePort port \<longleftrightarrow> port \<in> {22, 53, 3389}"

definition isLANFastPathPort :: "int \<Rightarrow> bool" where
  "isLANFastPathPort port \<longleftrightarrow> port \<in> {139, 445, 3389}"

definition isLANHotPathPort :: "int \<Rightarrow> bool" where
  "isLANHotPathPort port \<longleftrightarrow> port \<in> {22, 139, 445, 3389}"

definition classifyLANFrame :: "RoutedFrame \<Rightarrow> string" where
  "classifyLANFrame frame =
     (let header = rf_Header frame; small = length (rf_Payload frame) \<le> 256;
          rest = (if small then lanTrafficInteractive else lanTrafficThroughput) in
      if ih_Protocol header = IPv4ProtocolICMP then lanTrafficCritical
      else if ih_Protocol header = IPv4ProtocolTCP then
        if ih_TCPSYN header then lanTrafficCritical
        else if isLANInteractivePort (ih_SourcePort header) \<or> isLANInteractivePort (ih_DestPort header) \<or> small
        then lanTrafficInteractive
        else rest
      else if ih_Protocol header = IPv4ProtocolUDP then
        if ih_SourcePort header = 53 \<or> ih_DestPort header = 53 \<or> small then lanTrafficInteractive else rest
      else rest)"

definition lanFramePriority :: "RoutedFrame \<Rightarrow> nat" where
  "lanFramePriority frame =
     (if classifyLANFrame frame = lanTrafficCritical then 0
      else if classifyLANFrame frame = lanTrafficInteractive then 1
      else 2)"

subsection \<open>The TCP fast path\<close>

definition isLANTCPFastPathCandidateForPolicy :: "RoutedFrame \<Rightarrow> string \<Rightarrow> bool" where
  "isLANTCPFastPathCandidateForPolicy frame policy =
     (let header = rf_Header frame in
      if TrimSpace policy = ''off'' then False
      else if TrimSpace policy = ''force'' then ih_Protocol header = IPv4ProtocolTCP \<and> \<not> ih_TCPSYN header
      else if ih_Protocol header \<noteq> IPv4ProtocolTCP \<or> ih_TCPSYN header then False
      else if isLANFastPathPort (ih_SourcePort header) \<or> isLANFastPathPort (ih_DestPort header) then True
      else classifyLANFrame frame = lanTrafficThroughput \<and> 1024 \<le> length (rf_Payload frame))"

definition isLANTCPFastPathCandidate :: "RoutedFrame \<Rightarrow> bool" where
  "isLANTCPFastPathCandidate frame = isLANTCPFastPathCandidateForPolicy frame ''auto''"

definition lanTCPFastPathDecision :: "RoutedFrame \<Rightarrow> string \<Rightarrow> bool \<Rightarrow> string" where
  "lanTCPFastPathDecision frame policy available =
     (if TrimSpace policy = ''off'' then lanTCPFastPathOff
      else if \<not> isLANTCPFastPathCandidateForPolicy frame policy then lanTCPFastPathFallback
      else if \<not> available then lanTCPFastPathFallback
      else lanTCPFastPathAttempt)"

subsection \<open>Sessions\<close>

definition nul_text :: string where "nul_text = [CHR 0x00]"

definition lanFrameSessionKey :: "RoutedFrame \<Rightarrow> string" where
  "lanFrameSessionKey frame =
     (let header = rf_Header frame in
      if TrimSpace (rf_DstDevice frame) = '''' \<or> ih_Protocol header = 0 then ''''
      else if ih_Protocol header = IPv4ProtocolTCP \<or> ih_Protocol header = IPv4ProtocolUDP then
        if ih_SourcePort header \<le> 0 \<or> ih_DestPort header \<le> 0 \<or> ih_SourceIP header = [] \<or> ih_DestIP header = [] then ''''
        else Join [FormatInt (rf_NetworkID frame), rf_DstDevice frame, FormatInt (uint (ih_Protocol header)),
                   IPv4String (ih_SourceIP header), IPv4String (ih_DestIP header),
                   FormatInt (ih_SourcePort header), FormatInt (ih_DestPort header)] nul_text
      else '''')"

section \<open>Properties\<close>

lemma classes_distinct [simp]:
  "lanTrafficCritical \<noteq> lanTrafficInteractive" "lanTrafficInteractive \<noteq> lanTrafficCritical"
  "lanTrafficCritical \<noteq> lanTrafficThroughput" "lanTrafficThroughput \<noteq> lanTrafficCritical"
  "lanTrafficInteractive \<noteq> lanTrafficThroughput" "lanTrafficThroughput \<noteq> lanTrafficInteractive"
  by (simp_all add: lanTrafficCritical_def lanTrafficInteractive_def lanTrafficThroughput_def)

lemma classifyLANFrame_cases:
  "classifyLANFrame f \<in> {lanTrafficCritical, lanTrafficInteractive, lanTrafficThroughput}"
  by (simp add: classifyLANFrame_def Let_def)

lemma lanFramePriority_critical:
  "lanFramePriority f = 0 \<longleftrightarrow>
     ih_Protocol (rf_Header f) = IPv4ProtocolICMP \<or> (ih_Protocol (rf_Header f) = IPv4ProtocolTCP \<and> ih_TCPSYN (rf_Header f))"
  by (auto simp: lanFramePriority_def classifyLANFrame_def Let_def IPv4ProtocolTCP_def IPv4ProtocolICMP_def)

end
