(* ===== verification/PendingQueue.thy ===== *)
theory PendingQueue
  imports Traffic Machine "HOL-Library.Sublist"
begin

text \<open>
  The queue of frames the LAN agent could not send yet, from \<^verbatim>\<open>cmd/UDPTunnelLAN/packet_runtime.go\<close>
  (\<^verbatim>\<open>lanPendingQueue\<close>): frames expire after a period, and the queue is kept within limits on its frames,
  its bytes, the frames of a peer and the frames of a session by dropping frames of low priority.

  \<^item> \<open>pq_frames\<close> is the slice \<^verbatim>\<open>frames\<close>; \<open>time.Now\<close> is a parameter of the operations that call it.
  \<^item> The three loops that drop frames are partial functions; \<open>trim_returns\<close> and its companions show
    that they end, and \<open>Pending_Add\<close> is \<open>None\<close> only if one of them does not.
  \<^item> The receiver is never nil: \<^verbatim>\<open>sendPackets\<close>, which owns the queue, creates it.
\<close>

subsection \<open>State\<close>

record lanPendingFrame =
  pf_frame :: RoutedFrame
  pf_at :: time
  pf_size :: nat
  pf_id :: uint64

record lanPendingStats =
  pst_Frames :: int
  pst_Bytes :: int
  pst_Added :: uint64
  pst_Dropped :: uint64
  pst_Expired :: uint64
  pst_TCP :: uint64
  pst_UDP :: uint64
  pst_ICMP :: uint64
  pst_Interactive :: uint64
  pst_Throughput :: uint64

record lanPendingQueue =
  pq_maxFrames :: int
  pq_maxBytes :: int
  pq_maxPerPeer :: int
  pq_maxPerSession :: int
  pq_ttl :: duration
  pq_bytes :: int
  pq_frames :: "lanPendingFrame list"
  pq_nextID :: uint64
  pq_stats :: lanPendingStats

definition lanPendingTTL :: duration where "lanPendingTTL = 5 * Second"

definition lanPendingMaxFrames :: int where "lanPendingMaxFrames = 128"

definition lanPendingMaxBytes :: int where "lanPendingMaxBytes = 1024 * 1024"

definition lanPendingMaxPerPeer :: int where "lanPendingMaxPerPeer = 32"

definition lanPendingMaxPerSession :: int where "lanPendingMaxPerSession = 8"

definition no_pending_stats :: lanPendingStats where
  "no_pending_stats = \<lparr>pst_Frames = 0, pst_Bytes = 0, pst_Added = 0, pst_Dropped = 0, pst_Expired = 0, pst_TCP = 0, pst_UDP = 0,
     pst_ICMP = 0, pst_Interactive = 0, pst_Throughput = 0\<rparr>"

definition newLANPendingQueue :: "int \<Rightarrow> int \<Rightarrow> duration \<Rightarrow> lanPendingQueue" where
  "newLANPendingQueue maxFrames maxBytes ttl =
     \<lparr>pq_maxFrames = maxFrames, pq_maxBytes = maxBytes, pq_maxPerPeer = lanPendingMaxPerPeer,
      pq_maxPerSession = lanPendingMaxPerSession, pq_ttl = ttl, pq_bytes = 0, pq_frames = [], pq_nextID = 0,
      pq_stats = no_pending_stats\<rparr>"

subsection \<open>Expiry and dropping\<close>

fun prune_loop :: "time \<Rightarrow> duration \<Rightarrow> lanPendingFrame list \<Rightarrow> lanPendingFrame list \<Rightarrow> int \<Rightarrow> lanPendingStats \<Rightarrow> lanPendingFrame list \<times> int \<times> lanPendingStats" where
  "prune_loop now ttl [] out bytes stats = (out, bytes, stats)"
| "prune_loop now ttl (item # items) out bytes stats =
     (if ttl < time_Sub now (pf_at item) then prune_loop now ttl items out bytes (stats\<lparr>pst_Expired := pst_Expired stats + 1\<rparr>)
      else prune_loop now ttl items (out @ [item]) (bytes + int (pf_size item)) stats)"

definition prune :: "lanPendingQueue \<Rightarrow> time \<Rightarrow> lanPendingQueue" where
  "prune q now =
     (if pq_ttl q \<le> 0 then q
      else let (frames, bytes, stats) = prune_loop now (pq_ttl q) (pq_frames q) [] 0 (pq_stats q)
           in q\<lparr>pq_frames := frames, pq_bytes := bytes, pq_stats := stats\<rparr>)"

definition dropAt :: "lanPendingQueue \<Rightarrow> nat \<Rightarrow> lanPendingQueue" where
  "dropAt q i =
     (if length (pq_frames q) \<le> i then q
      else q\<lparr>pq_bytes := pq_bytes q - int (pf_size (pq_frames q ! i)),
             pq_stats := (pq_stats q)\<lparr>pst_Dropped := pst_Dropped (pq_stats q) + 1\<rparr>,
             pq_frames := take i (pq_frames q) @ drop (Suc i) (pq_frames q)\<rparr>)"

fun drop_loop :: "nat \<Rightarrow> nat \<Rightarrow> nat \<Rightarrow> lanPendingFrame list \<Rightarrow> nat" where
  "drop_loop i dropIndex dropPriority [] = dropIndex"
| "drop_loop i dropIndex dropPriority (item # items) =
     (if dropPriority < lanFramePriority (pf_frame item) then drop_loop (Suc i) i (lanFramePriority (pf_frame item)) items
      else drop_loop (Suc i) dropIndex dropPriority items)"

definition dropCandidateIndex :: "lanPendingQueue \<Rightarrow> nat" where
  "dropCandidateIndex q =
     (case pq_frames q of [] \<Rightarrow> 0 | item # items \<Rightarrow> drop_loop 1 0 (lanFramePriority (pf_frame item)) items)"

fun matching_loop :: "(RoutedFrame \<Rightarrow> bool) \<Rightarrow> nat \<Rightarrow> (nat \<times> nat) option \<Rightarrow> lanPendingFrame list \<Rightarrow> (nat \<times> nat) option" where
  "matching_loop matches i best [] = best"
| "matching_loop matches i best (item # items) =
     (if \<not> matches (pf_frame item) then matching_loop matches (Suc i) best items
      else let priority = lanFramePriority (pf_frame item) in
        case best of
          None \<Rightarrow> matching_loop matches (Suc i) (Some (i, priority)) items
        | Some (_, dropPriority) \<Rightarrow>
            if dropPriority < priority then matching_loop matches (Suc i) (Some (i, priority)) items
            else matching_loop matches (Suc i) best items)"

definition dropMatchingCandidateIndex :: "lanPendingQueue \<Rightarrow> (RoutedFrame \<Rightarrow> bool) \<Rightarrow> nat" where
  "dropMatchingCandidateIndex q matches =
     (case matching_loop matches 0 None (pq_frames q) of None \<Rightarrow> 0 | Some (dropIndex, _) \<Rightarrow> dropIndex)"

definition dropPeerCandidateIndex :: "lanPendingQueue \<Rightarrow> string \<Rightarrow> nat" where
  "dropPeerCandidateIndex q peerID = dropMatchingCandidateIndex q (\<lambda>frame. rf_DstDevice frame = peerID)"

definition dropSessionCandidateIndex :: "lanPendingQueue \<Rightarrow> string \<Rightarrow> nat" where
  "dropSessionCandidateIndex q sessionKey = dropMatchingCandidateIndex q (\<lambda>frame. lanFrameSessionKey frame = sessionKey)"

definition countPeer :: "lanPendingQueue \<Rightarrow> string \<Rightarrow> nat" where
  "countPeer q peerID = length (filter (\<lambda>item. rf_DstDevice (pf_frame item) = peerID) (pq_frames q))"

definition countSession :: "lanPendingQueue \<Rightarrow> string \<Rightarrow> nat" where
  "countSession q sessionKey = length (filter (\<lambda>item. lanFrameSessionKey (pf_frame item) = sessionKey) (pq_frames q))"

partial_function (option) trim :: "lanPendingQueue \<Rightarrow> lanPendingQueue option" where
  "trim q =
     (if pq_maxFrames q < int (length (pq_frames q)) \<or> (0 < pq_maxBytes q \<and> pq_maxBytes q < pq_bytes q)
      then trim (dropAt q (dropCandidateIndex q)) else Some q)"

partial_function (option) trimPeer_loop :: "string \<Rightarrow> lanPendingQueue \<Rightarrow> lanPendingQueue option" where
  "trimPeer_loop peerID q =
     (if pq_maxPerPeer q < int (countPeer q peerID) then trimPeer_loop peerID (dropAt q (dropPeerCandidateIndex q peerID)) else Some q)"

definition trimPeer :: "lanPendingQueue \<Rightarrow> string \<Rightarrow> lanPendingQueue option" where
  "trimPeer q peerID = (if pq_maxPerPeer q \<le> 0 \<or> TrimSpace peerID = '''' then Some q else trimPeer_loop peerID q)"

partial_function (option) trimSession_loop :: "string \<Rightarrow> lanPendingQueue \<Rightarrow> lanPendingQueue option" where
  "trimSession_loop sessionKey q =
     (if pq_maxPerSession q < int (countSession q sessionKey)
      then trimSession_loop sessionKey (dropAt q (dropSessionCandidateIndex q sessionKey)) else Some q)"

definition trimSession :: "lanPendingQueue \<Rightarrow> string \<Rightarrow> lanPendingQueue option" where
  "trimSession q sessionKey =
     (if pq_maxPerSession q \<le> 0 \<or> TrimSpace sessionKey = '''' then Some q else trimSession_loop sessionKey q)"

declare trim.simps [code] trimPeer_loop.simps [code] trimSession_loop.simps [code]

subsection \<open>The operations\<close>

definition count_frame :: "RoutedFrame \<Rightarrow> lanPendingStats \<Rightarrow> lanPendingStats" where
  "count_frame frame stats =
     (let stats = stats\<lparr>pst_Added := pst_Added stats + 1\<rparr>;
          protocol = ih_Protocol (rf_Header frame);
          stats = (if protocol = IPv4ProtocolTCP then stats\<lparr>pst_TCP := pst_TCP stats + 1\<rparr>
                   else if protocol = IPv4ProtocolUDP then stats\<lparr>pst_UDP := pst_UDP stats + 1\<rparr>
                   else if protocol = IPv4ProtocolICMP then stats\<lparr>pst_ICMP := pst_ICMP stats + 1\<rparr>
                   else stats)
      in if classifyLANFrame frame = lanTrafficInteractive then stats\<lparr>pst_Interactive := pst_Interactive stats + 1\<rparr>
         else if classifyLANFrame frame = lanTrafficThroughput then stats\<lparr>pst_Throughput := pst_Throughput stats + 1\<rparr>
         else stats)"

definition append_frame :: "time \<Rightarrow> RoutedFrame \<Rightarrow> lanPendingQueue \<Rightarrow> lanPendingQueue" where
  "append_frame now frame q =
     (let i = pq_nextID q + 1; n = length (rf_Payload frame) in
      q\<lparr>pq_nextID := i, pq_frames := pq_frames q @ [\<lparr>pf_frame = frame, pf_at = now, pf_size = n, pf_id = i\<rparr>],
        pq_bytes := pq_bytes q + int n, pq_stats := count_frame frame (pq_stats q)\<rparr>)"

definition add_frame :: "time \<Rightarrow> RoutedFrame \<Rightarrow> lanPendingQueue \<Rightarrow> lanPendingQueue option" where
  "add_frame now frame q = do {
     q \<leftarrow> trim (append_frame now frame q);
     q \<leftarrow> trimPeer q (rf_DstDevice frame);
     trimSession q (lanFrameSessionKey frame) }"

fun add_loop :: "time \<Rightarrow> RoutedFrame list \<Rightarrow> lanPendingQueue \<Rightarrow> lanPendingQueue option" where
  "add_loop now [] q = Some q"
| "add_loop now (frame # frames) q = do { q \<leftarrow> add_frame now frame q; add_loop now frames q }"

definition Pending_Add :: "lanPendingQueue \<Rightarrow> time \<Rightarrow> RoutedFrame list \<Rightarrow> lanPendingQueue option" where
  "Pending_Add q now frames = add_loop now frames (prune q now)"

definition by_priority :: "lanPendingFrame list \<Rightarrow> lanPendingFrame list" where
  "by_priority = sort_key (\<lambda>item. lanFramePriority (pf_frame item))"

definition Pending_Frames :: "lanPendingQueue \<Rightarrow> time \<Rightarrow> lanPendingQueue \<times> RoutedFrame list" where
  "Pending_Frames q now = (let q = prune q now in (q, map pf_frame (by_priority (pq_frames q))))"

definition FrameIDs :: "lanPendingQueue \<Rightarrow> time \<Rightarrow> lanPendingQueue \<times> uint64 list" where
  "FrameIDs q now = (let q = prune q now in (q, map pf_id (by_priority (pq_frames q))))"

text \<open>\<open>delivered\<close> is the key set of the map; \<open>now\<close> and \<open>now'\<close> are the times the two calls of \<^verbatim>\<open>prune\<close> read.\<close>

definition Pending_Remove :: "lanPendingQueue \<Rightarrow> time \<Rightarrow> time \<Rightarrow> int list \<Rightarrow> lanPendingQueue" where
  "Pending_Remove q now now' delivered =
     (if length delivered = 0 then prune q now
      else
        let (q, orderedIDs) = FrameIDs q now;
            deliveredIDs = map (\<lambda>i. orderedIDs ! nat i) (filter (\<lambda>i. 0 \<le> i \<and> i < int (length orderedIDs)) delivered);
            rest = filter (\<lambda>item. pf_id item \<notin> set deliveredIDs) (pq_frames q)
        in prune (q\<lparr>pq_frames := rest, pq_bytes := sum_list (map (\<lambda>item. int (pf_size item)) rest)\<rparr>) now')"

definition Pending_Len :: "lanPendingQueue \<Rightarrow> time \<Rightarrow> lanPendingQueue \<times> nat" where
  "Pending_Len q now = (let q = prune q now in (q, length (pq_frames q)))"

definition Pending_Bytes :: "lanPendingQueue \<Rightarrow> time \<Rightarrow> lanPendingQueue \<times> int" where
  "Pending_Bytes q now = (let q = prune q now in (q, pq_bytes q))"

definition Pending_Stats :: "lanPendingQueue \<Rightarrow> time \<Rightarrow> lanPendingQueue \<times> lanPendingStats" where
  "Pending_Stats q now =
     (let q = prune q now in (q, (pq_stats q)\<lparr>pst_Frames := int (length (pq_frames q)), pst_Bytes := pq_bytes q\<rparr>))"

section \<open>Dropping frames\<close>

definition sizes :: "lanPendingFrame list \<Rightarrow> int" where
  "sizes items = sum_list (map (\<lambda>item. int (pf_size item)) items)"

definition priority :: "lanPendingFrame \<Rightarrow> nat" where
  "priority item = lanFramePriority (pf_frame item)"

text \<open>What is always true of a queue: the byte count is that of its frames, and the frames have
  increasing identifiers.\<close>

definition queue_ok :: "lanPendingQueue \<Rightarrow> bool" where
  "queue_ok q \<longleftrightarrow> 0 \<le> pq_maxFrames q \<and> pq_bytes q = sizes (pq_frames q)
     \<and> sorted_wrt (<) (map (\<lambda>item. unat (pf_id item)) (pq_frames q))
     \<and> (\<forall>item \<in> set (pq_frames q). unat (pf_id item) \<le> unat (pq_nextID q) \<and> pf_size item = length (rf_Payload (pf_frame item)))"

definition settings :: "lanPendingQueue \<Rightarrow> int \<times> int \<times> int \<times> int \<times> duration \<times> uint64" where
  "settings q = (pq_maxFrames q, pq_maxBytes q, pq_maxPerPeer q, pq_maxPerSession q, pq_ttl q, pq_nextID q)"

text \<open>The frames that were added and neither dropped nor expired, as the counters say.\<close>

definition accounted :: "lanPendingQueue \<Rightarrow> uint64" where
  "accounted q = pst_Added (pq_stats q) - pst_Dropped (pq_stats q) - pst_Expired (pq_stats q)"

definition unaccounted :: "lanPendingQueue \<Rightarrow> uint64" where
  "unaccounted q = accounted q - of_nat (length (pq_frames q))"

text \<open>\<open>q'\<close> is \<open>q\<close> after dropping frames, each counted.\<close>

definition shrinks :: "lanPendingQueue \<Rightarrow> lanPendingQueue \<Rightarrow> bool" where
  "shrinks q q' \<longleftrightarrow> subseq (pq_frames q') (pq_frames q) \<and> settings q' = settings q \<and> unaccounted q' = unaccounted q"

lemma sizes_simps [simp]:
  "sizes [] = 0" "sizes (x # xs) = int (pf_size x) + sizes xs" "sizes (xs @ ys) = sizes xs + sizes ys"
  by (simp_all add: sizes_def)

lemma sizes_nonneg: "0 \<le> sizes xs"
  by (induction xs) simp_all

lemma shrinks_refl [simp]: "shrinks q q"
  by (simp add: shrinks_def)

lemma shrinks_trans: "shrinks q q' \<Longrightarrow> shrinks q' q'' \<Longrightarrow> shrinks q q''"
  by (auto simp: shrinks_def intro: subseq_order.trans)

definition fewer :: "lanPendingQueue \<Rightarrow> lanPendingQueue \<Rightarrow> bool" where
  "fewer q q' \<longleftrightarrow> subseq (pq_frames q') (pq_frames q) \<and> settings q' = settings q"

lemma shrinks_fewer: "shrinks q q' \<Longrightarrow> fewer q q'"
  by (simp add: shrinks_def fewer_def)

lemma fewer_count:
  assumes "fewer q q'"
  shows "length (pq_frames q') \<le> length (pq_frames q)" "countPeer q' p \<le> countPeer q p" "countSession q' k \<le> countSession q k"
  using assms by (auto simp: fewer_def countPeer_def countSession_def intro!: list_emb_length subseq_filter)

lemma shrinks_frames: "shrinks q q' \<Longrightarrow> set (pq_frames q') \<subseteq> set (pq_frames q)"
  by (auto simp: shrinks_def dest: list_emb_set)

lemma subseq_sizes: "subseq xs ys \<Longrightarrow> sizes xs \<le> sizes ys"
  by (induction rule: list_emb.induct) (auto simp: sizes_nonneg)

lemma delete_nth_split: "i < length xs \<Longrightarrow> xs = take i xs @ xs ! i # drop (Suc i) xs"
  by (simp add: id_take_nth_drop)

lemma subseq_delete_nth: "subseq (take i xs @ drop (Suc i) xs) xs"
proof (cases "i < length xs")
  case True
  show ?thesis by (subst (3) delete_nth_split [OF True]) (intro list_emb_append_mono subseq_order.refl list_emb_Cons)
qed simp

lemma subseq_sorted_wrt: "subseq xs ys \<Longrightarrow> sorted_wrt P ys \<Longrightarrow> sorted_wrt P xs"
  by (induction rule: list_emb.induct) (auto dest: list_emb_set)

lemma shrinks_queue_ok:
  "\<lbrakk>shrinks q q'; queue_ok q; pq_bytes q' = sizes (pq_frames q')\<rbrakk> \<Longrightarrow> queue_ok q'"
  unfolding queue_ok_def
  by (auto simp: shrinks_def settings_def dest: list_emb_set intro: subseq_sorted_wrt [OF subseq_map])

lemma dropAt_shrinks: "shrinks q (dropAt q i)"
  by (auto simp: shrinks_def dropAt_def settings_def unaccounted_def accounted_def subseq_delete_nth of_nat_diff)

lemma dropAt_ok: "queue_ok q \<Longrightarrow> queue_ok (dropAt q i)"
proof (rule shrinks_queue_ok [OF dropAt_shrinks], assumption)
  assume "queue_ok q"
  moreover have "sizes (pq_frames q) = sizes (take i (pq_frames q)) + int (pf_size (pq_frames q ! i)) + sizes (drop (Suc i) (pq_frames q))"
    if "i < length (pq_frames q)"
    by (subst delete_nth_split [OF that]) simp
  ultimately show "pq_bytes (dropAt q i) = sizes (pq_frames (dropAt q i))" by (auto simp: dropAt_def queue_ok_def)
qed

text \<open>The three loops share one contract: while the queue is over a limit they drop the frame they pick,
  which counts towards the limit and has the lowest priority of those that do.\<close>

locale evicting =
  fixes loop :: "lanPendingQueue \<Rightarrow> lanPendingQueue option"
    and over :: "lanPendingQueue \<Rightarrow> bool"
    and pick :: "lanPendingQueue \<Rightarrow> nat"
    and counts :: "RoutedFrame \<Rightarrow> bool"
  assumes unfold: "loop q = (if over q then loop (dropAt q (pick q)) else Some q)"
    and pick_valid: "queue_ok q \<Longrightarrow> over q \<Longrightarrow> pick q < length (pq_frames q) \<and> counts (pf_frame (pq_frames q ! pick q))"
    and pick_lowest: "\<lbrakk>queue_ok q; over q; item \<in> set (pq_frames q); counts (pf_frame item)\<rbrakk>
      \<Longrightarrow> priority item \<le> priority (pq_frames q ! pick q)"
begin

definition evicted_last :: "lanPendingQueue \<Rightarrow> lanPendingQueue \<Rightarrow> bool" where
  "evicted_last q q' \<longleftrightarrow> (\<forall>x \<in> set (pq_frames q) - set (pq_frames q'). counts (pf_frame x)
     \<and> (\<forall>y \<in> set (pq_frames q'). counts (pf_frame y) \<longrightarrow> priority y \<le> priority x))"

lemma returns: "queue_ok q \<Longrightarrow> \<exists>q'. loop q = Some q' \<and> shrinks q q' \<and> queue_ok q' \<and> \<not> over q' \<and> evicted_last q q'"
proof (induction "length (pq_frames q)" arbitrary: q rule: less_induct)
  case (less q)
  show ?case
  proof (cases "over q")
    case False
    then have "loop q = Some q" by (subst unfold) simp
    then show ?thesis using less.prems False shrinks_refl [of q] by (auto simp: evicted_last_def)
  next
    case True
    let ?d = "dropAt q (pick q)" and ?x = "pq_frames q ! pick q"
    have pick: "pick q < length (pq_frames q)" "counts (pf_frame ?x)" using pick_valid [OF less.prems True] by auto
    then have "length (pq_frames ?d) < length (pq_frames q)" by (simp add: dropAt_def)
    then obtain q' where q': "loop ?d = Some q'" "shrinks ?d q'" "queue_ok q'" "\<not> over q'" "evicted_last ?d q'"
      using less.hyps dropAt_ok [OF less.prems] by blast
    have set_d: "set (pq_frames q) \<subseteq> insert ?x (set (pq_frames ?d))"
      using pick(1) arg_cong [OF delete_nth_split [OF pick(1)], of set] by (auto simp: dropAt_def)
    have "shrinks q q'" using q'(2) dropAt_shrinks shrinks_trans by blast
    moreover have "evicted_last q q'" unfolding evicted_last_def
    proof
      fix x assume x: "x \<in> set (pq_frames q) - set (pq_frames q')"
      show "counts (pf_frame x) \<and> (\<forall>y \<in> set (pq_frames q'). counts (pf_frame y) \<longrightarrow> priority y \<le> priority x)"
      proof (cases "x = ?x")
        case True
        then show ?thesis
          using pick(2) pick_lowest [OF less.prems \<open>over q\<close>] shrinks_frames [OF \<open>shrinks q q'\<close>] by blast
      next
        case False
        then have "x \<in> set (pq_frames ?d) - set (pq_frames q')" using x set_d by blast
        then show ?thesis using q'(5) by (auto simp: evicted_last_def)
      qed
    qed
    moreover have "loop q = Some q'" using q'(1) True by (subst unfold) simp
    ultimately show ?thesis using q'(3,4) by blast
  qed
qed

end

subsection \<open>The candidates\<close>

lemma drop_loop_spec:
  assumes "dropIndex < length before" "before ! dropIndex = item" "\<forall>x \<in> set before. priority x \<le> priority item"
  shows "let j = drop_loop (length before) dropIndex (priority item) items in
      j < length (before @ items) \<and> (\<forall>x \<in> set (before @ items). priority x \<le> priority ((before @ items) ! j))"
  using assms
proof (induction items arbitrary: before dropIndex item)
  case (Cons x items)
  show ?case
  proof (cases "priority item < priority x")
    case True
    then have "\<forall>y \<in> set (before @ [x]). priority y \<le> priority x" using Cons.prems(3) by auto
    then show ?thesis
      using Cons.IH [of "length before" "before @ [x]" x] True by (simp add: priority_def nth_append)
  next
    case False
    then have "\<forall>y \<in> set (before @ [x]). priority y \<le> priority item" using Cons.prems(3) by auto
    then show ?thesis
      using Cons.IH [of dropIndex "before @ [x]" item] Cons.prems False by (simp add: priority_def nth_append)
  qed
qed (simp add: nth_append)

lemma dropCandidateIndex_spec:
  assumes "pq_frames q \<noteq> []"
  shows "dropCandidateIndex q < length (pq_frames q)"
    "item \<in> set (pq_frames q) \<Longrightarrow> priority item \<le> priority (pq_frames q ! dropCandidateIndex q)"
  using assms drop_loop_spec [of 0 "[hd (pq_frames q)]" "hd (pq_frames q)" "tl (pq_frames q)"]
  by (cases "pq_frames q"; auto simp: dropCandidateIndex_def priority_def Let_def)+


definition best_match :: "(RoutedFrame \<Rightarrow> bool) \<Rightarrow> lanPendingFrame list \<Rightarrow> (nat \<times> nat) option \<Rightarrow> bool" where
  "best_match matches items best \<longleftrightarrow>
     (case best of
        None \<Rightarrow> \<forall>x \<in> set items. \<not> matches (pf_frame x)
      | Some (j, p) \<Rightarrow> j < length items \<and> matches (pf_frame (items ! j)) \<and> p = priority (items ! j)
          \<and> (\<forall>x \<in> set items. matches (pf_frame x) \<longrightarrow> priority x \<le> p))"

lemma matching_loop_spec:
  "best_match matches before best \<Longrightarrow> best_match matches (before @ items) (matching_loop matches (length before) best items)"
proof (induction items arbitrary: before best)
  case (Cons x items)
  let ?new = "Some (length before, priority x)"
  have new: "best_match matches (before @ [x]) ?new" if "matches (pf_frame x)" "\<forall>y \<in> set before. matches (pf_frame y) \<longrightarrow> priority y \<le> priority x"
    using that by (auto simp: best_match_def)
  have old: "best_match matches (before @ [x]) best" if "matches (pf_frame x) \<longrightarrow> (\<exists>j p. best = Some (j, p) \<and> priority x \<le> p)"
    using that Cons.prems by (auto simp: best_match_def nth_append split: option.splits)
  have new_case: "best = None \<or> (\<exists>j p. best = Some (j, p) \<and> p < priority x) \<Longrightarrow> \<forall>y \<in> set before. matches (pf_frame y) \<longrightarrow> priority y \<le> priority x"
    using Cons.prems by (fastforce simp: best_match_def)
  have step: "matching_loop matches (length before) best (x # items) = matching_loop matches (length (before @ [x]))
      (if matches (pf_frame x) \<and> (best = None \<or> (\<exists>j p. best = Some (j, p) \<and> p < priority x)) then ?new else best) items"
    by (cases best) (auto simp: priority_def Let_def)
  show ?case
    unfolding step using Cons.IH [of "before @ [x]"] new old new_case by (cases best) (auto simp: not_less)
qed simp

lemma dropMatchingCandidateIndex_spec:
  assumes "\<exists>item \<in> set (pq_frames q). matches (pf_frame item)"
  shows "dropMatchingCandidateIndex q matches < length (pq_frames q)
      \<and> matches (pf_frame (pq_frames q ! dropMatchingCandidateIndex q matches))"
    "\<lbrakk>item \<in> set (pq_frames q); matches (pf_frame item)\<rbrakk> \<Longrightarrow> priority item \<le> priority (pq_frames q ! dropMatchingCandidateIndex q matches)"
proof -
  have "best_match matches (pq_frames q) (matching_loop matches 0 None (pq_frames q))"
    using matching_loop_spec [of matches "[]" None "pq_frames q"] by (simp add: best_match_def)
  then obtain j p where "matching_loop matches 0 None (pq_frames q) = Some (j, p)" "best_match matches (pq_frames q) (Some (j, p))"
    using assms by (cases "matching_loop matches 0 None (pq_frames q)") (auto simp: best_match_def)
  then show "dropMatchingCandidateIndex q matches < length (pq_frames q)
      \<and> matches (pf_frame (pq_frames q ! dropMatchingCandidateIndex q matches))"
    "\<lbrakk>item \<in> set (pq_frames q); matches (pf_frame item)\<rbrakk> \<Longrightarrow> priority item \<le> priority (pq_frames q ! dropMatchingCandidateIndex q matches)"
    by (auto simp: dropMatchingCandidateIndex_def best_match_def)
qed

subsection \<open>The loops implement the contract\<close>

definition over_total :: "lanPendingQueue \<Rightarrow> bool" where
  "over_total q \<longleftrightarrow> pq_maxFrames q < int (length (pq_frames q)) \<or> (0 < pq_maxBytes q \<and> pq_maxBytes q < pq_bytes q)"

definition over_peer :: "string \<Rightarrow> lanPendingQueue \<Rightarrow> bool" where
  "over_peer p q \<longleftrightarrow> 0 < pq_maxPerPeer q \<and> TrimSpace p \<noteq> '''' \<and> pq_maxPerPeer q < int (countPeer q p)"

definition over_session :: "string \<Rightarrow> lanPendingQueue \<Rightarrow> bool" where
  "over_session k q \<longleftrightarrow> 0 < pq_maxPerSession q \<and> TrimSpace k \<noteq> '''' \<and> pq_maxPerSession q < int (countSession q k)"

lemma over_total_nonempty: "queue_ok q \<Longrightarrow> over_total q \<Longrightarrow> pq_frames q \<noteq> []"
  by (auto simp: queue_ok_def over_total_def)

lemma dropAt_settings [simp]:
  "pq_maxPerPeer (dropAt q i) = pq_maxPerPeer q" "pq_maxPerSession (dropAt q i) = pq_maxPerSession q"
  by (simp_all add: dropAt_def)

interpretation total: evicting trim over_total dropCandidateIndex "\<lambda>_. True"
proof
  show "trim q = (if over_total q then trim (dropAt q (dropCandidateIndex q)) else Some q)" for q
    by (subst trim.simps) (simp add: over_total_def)
qed (use dropCandidateIndex_spec over_total_nonempty in auto)

interpretation peer: evicting "\<lambda>q. trimPeer q p" "over_peer p" "\<lambda>q. dropPeerCandidateIndex q p" "\<lambda>frame. rf_DstDevice frame = p"
  for p :: string
proof
  have ex: "\<exists>item \<in> set (pq_frames q). rf_DstDevice (pf_frame item) = p" if "over_peer p q" for q
    using that by (auto simp: over_peer_def countPeer_def filter_empty_conv intro: ccontr)
  show "trimPeer q p = (if over_peer p q then trimPeer (dropAt q (dropPeerCandidateIndex q p)) p else Some q)" for q
    by (simp add: trimPeer_def over_peer_def trimPeer_loop.simps [of p q])
  show "dropPeerCandidateIndex q p < length (pq_frames q) \<and> rf_DstDevice (pf_frame (pq_frames q ! dropPeerCandidateIndex q p)) = p"
    if "queue_ok q" "over_peer p q" for q
    using dropMatchingCandidateIndex_spec(1) [OF ex [OF that(2)]] by (simp add: dropPeerCandidateIndex_def)
  show "priority item \<le> priority (pq_frames q ! dropPeerCandidateIndex q p)"
    if "queue_ok q" "over_peer p q" "item \<in> set (pq_frames q)" "rf_DstDevice (pf_frame item) = p" for q item
    using dropMatchingCandidateIndex_spec(2) [OF ex [OF that(2)]] that by (simp add: dropPeerCandidateIndex_def)
qed

interpretation session: evicting "\<lambda>q. trimSession q k" "over_session k" "\<lambda>q. dropSessionCandidateIndex q k" "\<lambda>frame. lanFrameSessionKey frame = k"
  for k :: string
proof
  have ex: "\<exists>item \<in> set (pq_frames q). lanFrameSessionKey (pf_frame item) = k" if "over_session k q" for q
    using that by (auto simp: over_session_def countSession_def filter_empty_conv intro: ccontr)
  show "trimSession q k = (if over_session k q then trimSession (dropAt q (dropSessionCandidateIndex q k)) k else Some q)" for q
    by (simp add: trimSession_def over_session_def trimSession_loop.simps [of k q])
  show "dropSessionCandidateIndex q k < length (pq_frames q) \<and> lanFrameSessionKey (pf_frame (pq_frames q ! dropSessionCandidateIndex q k)) = k"
    if "queue_ok q" "over_session k q" for q
    using dropMatchingCandidateIndex_spec(1) [OF ex [OF that(2)]] by (simp add: dropSessionCandidateIndex_def)
  show "priority item \<le> priority (pq_frames q ! dropSessionCandidateIndex q k)"
    if "queue_ok q" "over_session k q" "item \<in> set (pq_frames q)" "lanFrameSessionKey (pf_frame item) = k" for q item
    using dropMatchingCandidateIndex_spec(2) [OF ex [OF that(2)]] that by (simp add: dropSessionCandidateIndex_def)
qed


section \<open>The queue stays within its limits\<close>

definition within_limits :: "lanPendingQueue \<Rightarrow> bool" where
  "within_limits q \<longleftrightarrow> \<not> over_total q \<and> (\<forall>p. \<not> over_peer p q) \<and> (\<forall>k. \<not> over_session k q)"

lemma fewer_within:
  assumes "fewer q q'" "queue_ok q" "queue_ok q'"
  shows "over_total q' \<Longrightarrow> over_total q" "over_peer p q' \<Longrightarrow> over_peer p q" "over_session k q' \<Longrightarrow> over_session k q"
proof -
  have cfg: "settings q' = settings q" and le: "pq_bytes q' \<le> pq_bytes q"
    using subseq_sizes [of "pq_frames q'" "pq_frames q"] assms by (auto simp: fewer_def queue_ok_def)
  note count = fewer_count [OF assms(1)]
  show "over_total q' \<Longrightarrow> over_total q" using cfg le count(1) by (auto simp: over_total_def settings_def)
  show "over_peer p q' \<Longrightarrow> over_peer p q" using cfg count(2) [of p] by (auto simp: over_peer_def settings_def)
  show "over_session k q' \<Longrightarrow> over_session k q" using cfg count(3) [of k] by (auto simp: over_session_def settings_def)
qed

lemmas shrinks_within = fewer_within [OF shrinks_fewer]

lemma fewer_within_limits: "fewer q q' \<Longrightarrow> queue_ok q \<Longrightarrow> queue_ok q' \<Longrightarrow> within_limits q \<Longrightarrow> within_limits q'"
  unfolding within_limits_def using fewer_within by blast

definition alive :: "lanPendingQueue \<Rightarrow> time \<Rightarrow> lanPendingFrame \<Rightarrow> bool" where
  "alive q now item \<longleftrightarrow> pq_ttl q \<le> 0 \<or> time_Sub now (pf_at item) \<le> pq_ttl q"

lemma prune_loop_eq:
  "prune_loop now ttl items out bytes stats =
     (let keep = filter (\<lambda>item. time_Sub now (pf_at item) \<le> ttl) items in
      (out @ keep, bytes + sizes keep, stats\<lparr>pst_Expired := pst_Expired stats + of_nat (length items - length keep)\<rparr>))"
proof (induction items arbitrary: out bytes stats)
  case (Cons item items)
  have "length (filter P items) \<le> length items" for P :: "lanPendingFrame \<Rightarrow> bool" by simp
  then show ?case by (auto simp: Cons.IH Let_def Suc_diff_le)
qed simp

lemma prune_frames: "pq_frames (prune q now) = filter (alive q now) (pq_frames q)"
  by (auto simp: prune_def prune_loop_eq Let_def alive_def intro: filter_cong)

lemma prune_shrinks: "shrinks q (prune q now)"
  by (auto simp: shrinks_def prune_def prune_loop_eq Let_def settings_def unaccounted_def accounted_def of_nat_diff)

lemma prune_ok: "queue_ok q \<Longrightarrow> queue_ok (prune q now)"
  by (rule shrinks_queue_ok [OF prune_shrinks]) (auto simp: prune_def prune_loop_eq Let_def queue_ok_def)

lemma prune_within: "queue_ok q \<Longrightarrow> within_limits q \<Longrightarrow> within_limits (prune q now)"
  using fewer_within_limits [OF shrinks_fewer [OF prune_shrinks] _ prune_ok] by blast

lemma append_frame_ok:
  assumes "queue_ok q" "unat (pq_nextID q) + 1 < 2 ^ 64"
  shows "queue_ok (append_frame now frame q)"
proof -
  have "unat (pq_nextID q + 1) = unat (pq_nextID q) + 1" using assms(2) by (rule unat_next)
  then show ?thesis using assms(1) by (fastforce simp: queue_ok_def append_frame_def Let_def sorted_wrt_append)
qed


lemma append_frame_over:
  assumes "within_limits q"
  shows "over_peer p (append_frame now frame q) \<Longrightarrow> p = rf_DstDevice frame"
    "over_session k (append_frame now frame q) \<Longrightarrow> k = lanFrameSessionKey frame"
  using assms
  by (auto simp: within_limits_def over_peer_def over_session_def append_frame_def countPeer_def countSession_def Let_def
      split: if_splits)

lemma append_frame_accounted: "unaccounted (append_frame now frame q) = unaccounted q"
  by (simp add: unaccounted_def accounted_def append_frame_def count_frame_def Let_def)

definition added :: "lanPendingQueue \<Rightarrow> nat \<Rightarrow> lanPendingQueue \<Rightarrow> bool" where
  "added q n q' \<longleftrightarrow> queue_ok q' \<and> within_limits q' \<and> pq_maxFrames q' = pq_maxFrames q \<and> pq_maxBytes q' = pq_maxBytes q
     \<and> pq_maxPerPeer q' = pq_maxPerPeer q \<and> pq_maxPerSession q' = pq_maxPerSession q \<and> pq_ttl q' = pq_ttl q
     \<and> pq_nextID q' = pq_nextID q + of_nat n"

lemma add_frame_ok:
  assumes "queue_ok q" "within_limits q" "unat (pq_nextID q) + 1 < 2 ^ 64"
  shows "\<exists>q'. add_frame now frame q = Some q' \<and> added q 1 q' \<and> unaccounted q' = unaccounted q"
proof -
  let ?a = "append_frame now frame q"
  have a: "queue_ok ?a" by (rule append_frame_ok [OF assms(1,3)])
  obtain q1 where q1: "trim ?a = Some q1" "shrinks ?a q1" "queue_ok q1" "\<not> over_total q1" using total.returns [OF a] by blast
  obtain q2 where q2: "trimPeer q1 (rf_DstDevice frame) = Some q2" "shrinks q1 q2" "queue_ok q2" "\<not> over_peer (rf_DstDevice frame) q2"
    using peer.returns [OF q1(3)] by blast
  obtain q3 where q3: "trimSession q2 (lanFrameSessionKey frame) = Some q3" "shrinks q2 q3" "queue_ok q3"
      "\<not> over_session (lanFrameSessionKey frame) q3"
    using session.returns [OF q2(3)] by blast
  have "shrinks q1 q3" and s: "shrinks ?a q3" using q1(2) q2(2) q3(2) shrinks_trans by blast+
  then have "\<not> over_total q3" using q1(3,4) q3(3) shrinks_within(1) by blast
  moreover have "\<not> over_peer p q3" for p
    using append_frame_over(1) [OF assms(2)] shrinks_within(2) [OF s a q3(3)] shrinks_within(2) [OF q3(2) q2(3) q3(3)] q2(4) by blast
  moreover have "\<not> over_session k q3" for k
    using append_frame_over(2) [OF assms(2)] shrinks_within(3) [OF s a q3(3)] q3(4) by blast
  moreover have "settings q3 = settings ?a" "unaccounted q3 = unaccounted q"
    using s append_frame_accounted by (simp_all add: shrinks_def)
  ultimately show ?thesis
    using q1(1) q2(1) q3 by (auto simp: add_frame_def added_def within_limits_def settings_def append_frame_def Let_def)
qed

lemma add_loop_ok:
  "\<lbrakk>queue_ok q; within_limits q; unat (pq_nextID q) + length frames < 2 ^ 64\<rbrakk>
     \<Longrightarrow> \<exists>q'. add_loop now frames q = Some q' \<and> added q (length frames) q' \<and> unaccounted q' = unaccounted q"
proof (induction frames arbitrary: q)
  case Nil
  then show ?case by (simp add: added_def)
next
  case (Cons frame frames)
  obtain q1 where q1: "add_frame now frame q = Some q1" "added q 1 q1" "unaccounted q1 = unaccounted q"
    using add_frame_ok [OF Cons.prems(1,2)] Cons.prems(3) by auto
  have "unat (pq_nextID q1) = unat (pq_nextID q) + 1" using q1(2) Cons.prems(3) unat_next by (simp add: added_def)
  then obtain q' where "add_loop now frames q1 = Some q'" "added q1 (length frames) q'" "unaccounted q' = unaccounted q1"
    using Cons.IH [of q1] q1(2) Cons.prems(3) by (auto simp: added_def)
  then show ?case using q1 by (auto simp: added_def)
qed

lemma Pending_Add_ok:
  assumes "queue_ok q" "within_limits q" "unat (pq_nextID q) + length frames < 2 ^ 64"
  shows "\<exists>q'. Pending_Add q now frames = Some q' \<and> added q (length frames) q' \<and> unaccounted q' = unaccounted q"
proof -
  have "settings (prune q now) = settings q" "unaccounted (prune q now) = unaccounted q"
    using prune_shrinks by (auto simp: shrinks_def)
  then show ?thesis
    using add_loop_ok [OF prune_ok [OF assms(1)] prune_within [OF assms(1,2)], of now frames now] assms(3)
    unfolding Pending_Add_def by (auto simp: settings_def added_def)
qed

definition removal :: "lanPendingQueue \<Rightarrow> (lanPendingFrame \<Rightarrow> bool) \<Rightarrow> lanPendingQueue" where
  "removal q keep = q\<lparr>pq_frames := filter keep (pq_frames q), pq_bytes := sizes (filter keep (pq_frames q))\<rparr>"

definition delivered_ids :: "lanPendingQueue \<Rightarrow> int list \<Rightarrow> uint64 list" where
  "delivered_ids q delivered =
     map (\<lambda>i. map pf_id (by_priority (pq_frames q)) ! nat i) (filter (\<lambda>i. 0 \<le> i \<and> i < int (length (pq_frames q))) delivered)"

lemma length_by_priority [simp]: "length (by_priority xs) = length xs" "set (by_priority xs) = set xs" "mset (by_priority xs) = mset xs"
  by (simp_all add: by_priority_def)

lemma Pending_Remove_eq:
  "Pending_Remove q now now' delivered =
     (if delivered = [] then prune q now
      else prune (removal (prune q now) (\<lambda>item. pf_id item \<notin> set (delivered_ids (prune q now) delivered))) now')"
  by (simp add: Pending_Remove_def FrameIDs_def removal_def delivered_ids_def sizes_def Let_def)

lemma removal_ok:
  assumes "queue_ok q"
  shows "queue_ok (removal q keep)" "within_limits q \<Longrightarrow> within_limits (removal q keep)"
proof -
  have fewer: "fewer q (removal q keep)" by (simp add: removal_def fewer_def settings_def)
  then have "subseq (pq_frames (removal q keep)) (pq_frames q)" by (simp add: fewer_def)
  from subseq_sorted_wrt [OF subseq_map [OF this]] show "queue_ok (removal q keep)"
    using assms by (auto simp: queue_ok_def removal_def)
  then show "within_limits q \<Longrightarrow> within_limits (removal q keep)" by (rule fewer_within_limits [OF fewer assms])
qed


lemma Pending_Remove_ok:
  assumes "queue_ok q" "within_limits q"
  shows "added q 0 (Pending_Remove q now now' delivered)"
proof -
  have prune: "added q 0 (prune q t)" if "queue_ok q" "within_limits q" for q t
    using prune_ok [OF that(1)] prune_within [OF that] prune_shrinks [of q t] by (simp add: added_def shrinks_def settings_def)
  show ?thesis
    unfolding Pending_Remove_eq
    using prune [OF assms, of now] prune [OF removal_ok(1) removal_ok(2), of "prune q now"] prune_ok [OF assms(1)] prune_within [OF assms]
    by (auto simp: added_def removal_def)
qed

text \<open>The calls of the queue's methods; the result is the state after them.\<close>

datatype pending_op = OpAdd time "RoutedFrame list" | OpFrames time | OpFrameIDs time | OpRemove time time "int list"
  | OpLen time | OpBytes time | OpStats time

fun pending_step :: "pending_op \<Rightarrow> lanPendingQueue \<Rightarrow> lanPendingQueue option" where
  "pending_step (OpAdd now frames) q = Pending_Add q now frames"
| "pending_step (OpFrames now) q = Some (fst (Pending_Frames q now))"
| "pending_step (OpFrameIDs now) q = Some (fst (FrameIDs q now))"
| "pending_step (OpRemove now now' delivered) q = Some (Pending_Remove q now now' delivered)"
| "pending_step (OpLen now) q = Some (fst (Pending_Len q now))"
| "pending_step (OpBytes now) q = Some (fst (Pending_Bytes q now))"
| "pending_step (OpStats now) q = Some (fst (Pending_Stats q now))"

fun pending_run :: "pending_op list \<Rightarrow> lanPendingQueue \<Rightarrow> lanPendingQueue option" where
  "pending_run [] q = Some q"
| "pending_run (op # ops) q = do { q \<leftarrow> pending_step op q; pending_run ops q }"

fun frames_in :: "pending_op \<Rightarrow> nat" where
  "frames_in (OpAdd now frames) = length frames"
| "frames_in _ = 0"

lemma pending_step_ok:
  assumes "queue_ok q" "within_limits q" "unat (pq_nextID q) + frames_in op < 2 ^ 64"
  shows "\<exists>q'. pending_step op q = Some q' \<and> added q (frames_in op) q'"
proof -
  have prune: "added q 0 (prune q t)" for t
    using prune_ok [OF assms(1)] prune_within [OF assms(1,2)] prune_shrinks [of q t] by (simp add: added_def shrinks_def settings_def)
  have add: "\<exists>q'. Pending_Add q now frames = Some q' \<and> added q (length frames) q'" if "op = OpAdd now frames" for now frames
    using Pending_Add_ok [OF assms(1,2), of frames now] assms(3) that by auto
  show ?thesis
    using add Pending_Remove_ok [OF assms(1,2)] prune
    by (cases op) (auto simp: Pending_Frames_def FrameIDs_def Pending_Len_def Pending_Bytes_def Pending_Stats_def Let_def)
qed

lemma pending_run_ok:
  "\<lbrakk>queue_ok q; within_limits q; unat (pq_nextID q) + sum_list (map frames_in ops) < 2 ^ 64\<rbrakk>
     \<Longrightarrow> \<exists>q'. pending_run ops q = Some q' \<and> added q (sum_list (map frames_in ops)) q'"
proof (induction ops arbitrary: q)
  case Nil
  then show ?case by (simp add: added_def)
next
  case (Cons op ops)
  let ?n = "frames_in op" and ?m = "sum_list (map frames_in ops)"
  obtain q1 where q1: "pending_step op q = Some q1" "added q ?n q1" using pending_step_ok [OF Cons.prems(1,2), of op] Cons.prems(3) by auto
  then have "unat (pq_nextID q1) = unat (pq_nextID q) + ?n"
    using Cons.prems(3) by (simp add: added_def unat_word_ariths unat_of_nat take_bit_eq_mod mod_simps)
  then obtain q' where "pending_run ops q1 = Some q'" "added q1 ?m q'"
    using Cons.IH [of q1] q1(2) Cons.prems(3) by (auto simp: added_def)
  then show ?case using q1 by (auto simp: added_def algebra_simps)
qed

text \<open>C40. The pending queue is bounded, and none of its loops runs for ever: after any calls of its methods
  the queue holds no more frames and bytes than it was created for, no more than 32 frames of a peer
  and 8 of a session, its byte count is that of the payloads it holds, and its frames are in the order
  they came in.  (The identifiers, which would wrap, bound the number of frames ever added.)\<close>

theorem pending_queue_bounded:
  assumes "0 \<le> maxFrames" "sum_list (map frames_in ops) < 2 ^ 64"
  shows "\<exists>q. pending_run ops (newLANPendingQueue maxFrames maxBytes ttl) = Some q
     \<and> int (length (pq_frames q)) \<le> maxFrames
     \<and> (0 < maxBytes \<longrightarrow> pq_bytes q \<le> maxBytes)
     \<and> pq_bytes q = sum_list (map (\<lambda>item. int (length (rf_Payload (pf_frame item)))) (pq_frames q))
     \<and> (\<forall>p. TrimSpace p \<noteq> '''' \<longrightarrow> countPeer q p \<le> 32)
     \<and> (\<forall>k. TrimSpace k \<noteq> '''' \<longrightarrow> countSession q k \<le> 8)
     \<and> sorted_wrt (<) (map (\<lambda>item. unat (pf_id item)) (pq_frames q))"
proof -
  let ?q = "newLANPendingQueue maxFrames maxBytes ttl"
  have "queue_ok ?q" "within_limits ?q" "pq_nextID ?q = 0"
    using assms(1)
    by (auto simp: queue_ok_def within_limits_def newLANPendingQueue_def over_total_def over_peer_def over_session_def countPeer_def countSession_def)
  then obtain q where q: "pending_run ops ?q = Some q" "added ?q (sum_list (map frames_in ops)) q"
    using pending_run_ok [of ?q ops] assms(2) by auto
  then have "queue_ok q" "within_limits q" by (simp_all add: added_def)
  moreover have "sizes (pq_frames q) = sum_list (map (\<lambda>item. int (length (rf_Payload (pf_frame item)))) (pq_frames q))"
    unfolding sizes_def using \<open>queue_ok q\<close> by (intro arg_cong [where f = sum_list] map_cong) (auto simp: queue_ok_def)
  ultimately show ?thesis
    using q by (auto simp: added_def queue_ok_def within_limits_def over_total_def over_peer_def over_session_def newLANPendingQueue_def
        lanPendingMaxPerPeer_def lanPendingMaxPerSession_def)
qed

text \<open>Frames of low priority go first: when the queue is over one of its limits, a frame is dropped only
  if it counts towards the limit and no frame that counts and is kept has a lower priority.  In
  particular no TCP SYN and no ICMP packet is dropped while a frame of another class could have been.\<close>

theorem eviction_by_priority:
  assumes "queue_ok q"
  shows "\<exists>q1 q2 q3. trim q = Some q1 \<and> trimPeer q p = Some q2 \<and> trimSession q k = Some q3
    \<and> (\<forall>x \<in> set (pq_frames q) - set (pq_frames q1). \<forall>y \<in> set (pq_frames q1). priority y \<le> priority x)
    \<and> (\<forall>x \<in> set (pq_frames q) - set (pq_frames q2). rf_DstDevice (pf_frame x) = p
         \<and> (\<forall>y \<in> set (pq_frames q2). rf_DstDevice (pf_frame y) = p \<longrightarrow> priority y \<le> priority x))
    \<and> (\<forall>x \<in> set (pq_frames q) - set (pq_frames q3). lanFrameSessionKey (pf_frame x) = k
         \<and> (\<forall>y \<in> set (pq_frames q3). lanFrameSessionKey (pf_frame y) = k \<longrightarrow> priority y \<le> priority x))"
proof -
  obtain q1 where "trim q = Some q1" "total.evicted_last q q1" using total.returns [OF assms] by blast
  moreover obtain q2 where "trimPeer q p = Some q2" "peer.evicted_last p q q2" using peer.returns [OF assms] by blast
  moreover obtain q3 where "trimSession q k = Some q3" "session.evicted_last k q q3" using session.returns [OF assms] by blast
  ultimately show ?thesis unfolding total.evicted_last_def peer.evicted_last_def session.evicted_last_def by blast
qed


section \<open>Removing what was delivered\<close>

lemma nths_below: "(\<And>i. i < length xs \<Longrightarrow> i \<in> A \<longleftrightarrow> i \<in> B) \<Longrightarrow> nths xs A = nths xs B"
  unfolding nths_def by (intro arg_cong [where f = "map fst"] filter_cong) (auto simp: set_zip)

lemma filter_by_keys:
  assumes "distinct (map key xs)"
  shows "filter (\<lambda>x. key x \<notin> set (map (\<lambda>i. map key xs ! nat i) (filter (\<lambda>i. 0 \<le> i \<and> i < int (length xs)) is))) xs
      = nths xs {i. int i \<notin> set is}"
proof -
  let ?D = "set (map (\<lambda>i. map key xs ! nat i) (filter (\<lambda>i. 0 \<le> i \<and> i < int (length xs)) is))"
  have "key (xs ! j) \<in> ?D \<longleftrightarrow> int j \<in> set is" if j: "j < length xs" for j
  proof
    assume "key (xs ! j) \<in> ?D"
    then obtain i where "i \<in> set is" "0 \<le> i" "i < int (length xs)" "map key xs ! j = map key xs ! nat i" using j by auto
    then show "int j \<in> set is" using nth_eq_iff_index_eq [OF assms, of j "nat i"] j by (auto simp: nat_less_iff)
  qed (use j in \<open>force intro: image_eqI [of _ _ "int j"]\<close>)
  then have "{i. i < length xs \<and> key (xs ! i) \<notin> ?D} = {i. i < length xs \<and> int i \<notin> set is}" by blast
  then show ?thesis unfolding filter_eq_nths [of "\<lambda>x. key x \<notin> ?D"] by (auto intro: nths_below)
qed

lemma queue_ok_distinct: "queue_ok q \<Longrightarrow> distinct (map pf_id (by_priority (pq_frames q)))"
proof -
  assume "queue_ok q"
  then have "distinct (map unat (map pf_id (pq_frames q)))" using strict_sorted_iff by (fastforce simp: queue_ok_def comp_def)
  then have "distinct (map pf_id (pq_frames q))" by (auto simp: distinct_map inj_on_def)
  then show ?thesis by (simp add: distinct_map by_priority_def)
qed

lemma prune_nothing:
  assumes "queue_ok q" "\<forall>item \<in> set (pq_frames q). alive q now item"
  shows "prune q now = q"
proof -
  have "filter (\<lambda>item. time_Sub now (pf_at item) \<le> pq_ttl q) (pq_frames q) = pq_frames q" if "\<not> pq_ttl q \<le> 0"
    using assms(2) that by (auto simp: alive_def filter_id_conv)
  then show ?thesis using assms(1) by (auto simp: prune_def prune_loop_eq Let_def queue_ok_def)
qed

lemma alive_earlier: "alive q now' item \<Longrightarrow> now \<le> now' \<Longrightarrow> alive q now item"
  using time_Sub_mono [of now now' "pf_at item"] by (auto simp: alive_def)

text \<open>What was delivered is removed and nothing else, as long as no frame expires between the moment the
  frames were listed and the moment the delivered ones are removed: the positions in the list handed
  out by \<open>Pending_Frames\<close> name the frames to remove, and the rest is handed out next, in the same order.\<close>

theorem Pending_Remove_exact:
  assumes "queue_ok q" "\<forall>item \<in> set (pq_frames q). alive q now2 item" "now0 \<le> now1" "now1 \<le> now2"
  shows "let q' = Pending_Remove (fst (Pending_Frames q now0)) now1 now2 delivered in
     snd (Pending_Frames q' now2) = nths (snd (Pending_Frames q now0)) {i. int i \<notin> set delivered}
     \<and> accounted q' = accounted q"
proof -
  have same: "prune q t = q" if "t \<le> now2" for t
    using assms(2) that alive_earlier by (intro prune_nothing [OF assms(1)]) blast
  let ?keep = "\<lambda>item. pf_id item \<notin> set (delivered_ids q delivered)" and ?B = "by_priority (pq_frames q)"
  have rest: "prune (removal q ?keep) now2 = removal q ?keep"
    using assms(2) by (intro prune_nothing [OF removal_ok(1) [OF assms(1)]]) (auto simp: removal_def alive_def)
  have "filter ?keep ?B = nths ?B {i. int i \<notin> set delivered}"
    using filter_by_keys [OF queue_ok_distinct [OF assms(1)], of delivered] by (simp add: delivered_ids_def)
  moreover have "by_priority (filter ?keep (pq_frames q)) = filter ?keep ?B" by (simp add: by_priority_def filter_sort)
  moreover have "nths ?B {i. int i \<notin> set delivered} = ?B" if "delivered = []" using that by (simp add: nths_all)
  ultimately show ?thesis
    using same [of now0] same [of now1] same [of now2] assms(3,4) rest
    by (auto simp: Pending_Frames_def Pending_Remove_eq Let_def removal_def accounted_def nths_map)
qed

text \<open>When a frame expires in between, the positions are read in the shorter list: the frame that was
  delivered expired, and another one, which nobody sent, is removed in its place.\<close>

theorem Pending_Remove_after_expiry:
  assumes "0 < pq_ttl q" "pq_frames q = [a, b]" "priority a \<le> priority b" "alive q now0 a" "\<not> alive q now1 a" "alive q now1 b" "now0 \<le> now1"
  shows "snd (Pending_Frames q now0) = [pf_frame a, pf_frame b]
     \<and> pq_frames (Pending_Remove (fst (Pending_Frames q now0)) now1 now1 [0]) = []"
proof -
  have "alive q now0 b" using assms(6,7) alive_earlier by blast
  then have p0: "pq_frames (prune q now0) = [a, b]" "by_priority [a, b] = [a, b]"
    using assms by (simp_all add: prune_frames by_priority_def priority_def)
  have ttl: "alive (prune q now0) = alive q" by (auto simp: alive_def prune_def prune_loop_eq Let_def fun_eq_iff)
  have p1: "pq_frames (prune (prune q now0) now1) = [b]" using p0 assms ttl by (simp add: prune_frames [of "prune q now0"])
  then have "pq_frames (prune (removal (prune (prune q now0) now1) (\<lambda>item. pf_id item \<noteq> pf_id b)) now1) = []"
    by (subst prune_frames) (simp add: removal_def)
  then show ?thesis
    using p0 p1 by (simp add: Pending_Frames_def Pending_Remove_eq Let_def delivered_ids_def by_priority_def)
qed

section \<open>Witnesses\<close>

definition demo_routed :: RoutedFrame where
  "demo_routed = \<lparr>rf_NetworkID = 1, rf_SrcDevice = ''a'', rf_DstDevice = ''b'', rf_PacketType = 1, rf_Payload = [1, 2, 3],
     rf_Header = empty_header\<rparr>"

definition demo_queue :: lanPendingQueue where
  "demo_queue = append_frame 4 demo_routed (append_frame 0 demo_routed (newLANPendingQueue 1 100 5))"

lemma demo_queue_ok: "queue_ok demo_queue"
  by (simp add: queue_ok_def demo_queue_def append_frame_def newLANPendingQueue_def demo_routed_def Let_def)

lemma demo_queue_frames:
  "pq_frames demo_queue = [\<lparr>pf_frame = demo_routed, pf_at = 0, pf_size = 3, pf_id = 1\<rparr>, \<lparr>pf_frame = demo_routed, pf_at = 4, pf_size = 3, pf_id = 2\<rparr>]"
  "pq_ttl demo_queue = 5"
  by (simp_all add: demo_queue_def append_frame_def newLANPendingQueue_def demo_routed_def Let_def)

theorem pending_queue_bounded_witness:
  "\<exists>q. pending_run [OpAdd 0 [demo_routed, demo_routed], OpLen 1] (newLANPendingQueue 1 100 5) = Some q \<and> int (length (pq_frames q)) \<le> 1"
  using pending_queue_bounded [of 1 "[OpAdd 0 [demo_routed, demo_routed], OpLen 1]" 100 5] by auto

theorem eviction_by_priority_witness: "\<exists>q. trim demo_queue = Some q"
  using eviction_by_priority [OF demo_queue_ok, of "''b''" "''''"] by blast

theorem Pending_Remove_exact_witness:
  "snd (Pending_Frames (Pending_Remove (fst (Pending_Frames demo_queue 4)) 4 5 [0]) 5) = [demo_routed]"
proof -
  have "snd (Pending_Frames demo_queue 4) = [demo_routed, demo_routed]"
    by (simp add: Pending_Frames_def Let_def prune_frames demo_queue_frames alive_def time_Sub_def by_priority_def)
  moreover have "nths [demo_routed, demo_routed] {i. int i \<notin> set [0]} = [demo_routed]" by (simp add: nths_Cons)
  ultimately show ?thesis
    using Pending_Remove_exact [OF demo_queue_ok, of 5 4 4 "[0]"] by (simp add: demo_queue_frames alive_def time_Sub_def Let_def)
qed

theorem Pending_Remove_after_expiry_witness:
  "pq_frames (Pending_Remove (fst (Pending_Frames demo_queue 5)) 6 6 [0]) = []"
  using Pending_Remove_after_expiry [of demo_queue _ _ 5 6] by (simp add: demo_queue_frames alive_def time_Sub_def priority_def)

end
