(* ===== verification/HotPaths.thy ===== *)
theory HotPaths
  imports Traffic Machine
begin

text \<open>
  What the LAN agent remembers of its TCP sessions and of the addresses that worked for them, from
  \<^verbatim>\<open>cmd/UDPTunnelLAN/packet_runtime.go\<close>: the maps \<^verbatim>\<open>sessionIntents\<close> and \<^verbatim>\<open>hotPaths\<close> of \<^verbatim>\<open>lanP2P\<close>.

  \<^item> Each map is an association list (see \<^verbatim>\<open>Machine\<close>); the operations take and return it, and the mutexes
    that make each of them one step are left out.
  \<^item> \<open>now\<close> is \<^verbatim>\<open>time.Now\<close>; \<open>parse\<close> and \<open>format\<close> are \<^verbatim>\<open>time.Parse\<close> and \<^verbatim>\<open>Time.Format\<close> with the layout
    \<^verbatim>\<open>time.RFC3339\<close>.
\<close>

subsection \<open>Data\<close>

definition lanSessionIntentTTL :: duration where "lanSessionIntentTTL = 30 * Second"

definition lanSessionIntentMax :: nat where "lanSessionIntentMax = 256"

definition lanHotPathTTL :: duration where "lanHotPathTTL = 20 * Minute"

definition lanHotPathKeepAliveMin :: duration where "lanHotPathKeepAliveMin = 30 * Second"

definition lanHotPathKeepAliveMid :: duration where "lanHotPathKeepAliveMid = 60 * Second"

definition lanHotPathKeepAliveMax :: duration where "lanHotPathKeepAliveMax = 2 * Minute"

record lanSessionIntent =
  si_Key :: string
  si_PeerID :: string
  si_Protocol :: string
  si_SrcIP :: string
  si_DstIP :: string
  si_SrcPort :: int
  si_DstPort :: int
  si_TrafficClass :: string
  si_FirstSeen :: time
  si_LastSeen :: time
  si_Packets :: int

record lanHotPath =
  hp_Key :: string
  hp_PeerID :: string
  hp_DstPort :: int
  hp_PublicAddr :: string
  hp_Path :: string
  hp_TrafficClass :: string
  hp_Successes :: int
  hp_Failures :: int
  hp_LastSuccess :: time
  hp_LastUsed :: time
  hp_NextKeepAliveAt :: time
  hp_LastFailure :: string

type_synonym intents = "(string \<times> lanSessionIntent) list"

type_synonym hot_paths = "(string \<times> lanHotPath) list"

subsection \<open>Session intents\<close>

definition newLANSessionIntent :: "RoutedFrame \<Rightarrow> time \<Rightarrow> lanSessionIntent option" where
  "newLANSessionIntent frame now =
     (let header = rf_Header frame; key = lanFrameSessionKey frame in
      if ih_Protocol header \<noteq> IPv4ProtocolTCP \<or> \<not> ih_TCPSYN header \<or> TrimSpace (rf_DstDevice frame) = '''' then None
      else if key = '''' then None
      else Some \<lparr>si_Key = key, si_PeerID = rf_DstDevice frame, si_Protocol = ''tcp'', si_SrcIP = IPv4String (ih_SourceIP header),
        si_DstIP = IPv4String (ih_DestIP header), si_SrcPort = ih_SourcePort header, si_DstPort = ih_DestPort header,
        si_TrafficClass = classifyLANFrame frame, si_FirstSeen = now, si_LastSeen = now, si_Packets = 1\<rparr>)"

fun oldest_loop :: "string \<Rightarrow> time \<Rightarrow> intents \<Rightarrow> string" where
  "oldest_loop oldestKey oldest [] = oldestKey"
| "oldest_loop oldestKey oldest ((key, intent) # rest) =
     (if oldestKey = '''' \<or> si_LastSeen intent < oldest then oldest_loop key (si_LastSeen intent) rest
      else oldest_loop oldestKey oldest rest)"

lemma oldest_loop_in: "oldest_loop k t m \<in> insert k (fst ` set m)"
  by (induction k t m rule: oldest_loop.induct) auto

lemma oldest_loop_key: "m \<noteq> [] \<Longrightarrow> oldest_loop '''' t m \<in> fst ` set m"
proof (cases m)
  case (Cons p m')
  then show ?thesis using oldest_loop_in [of "fst p" "si_LastSeen (snd p)" m'] by (cases p) simp
qed simp

function evict_oldest :: "intents \<Rightarrow> intents" where
  "evict_oldest m = (if lanSessionIntentMax < length m then evict_oldest (AList.delete (oldest_loop '''' 0 m) m) else m)"
  by pat_completeness auto
termination
proof (relation "measure length", simp_all)
  fix m :: intents
  assume "lanSessionIntentMax < length m"
  then have "oldest_loop '''' 0 m \<in> fst ` set m" by (intro oldest_loop_key) auto
  then obtain x where "x \<in> set m" "\<not> fst x \<noteq> oldest_loop '''' 0 m" by auto
  then show "length (AList.delete (oldest_loop '''' 0 m) m) < length m"
    unfolding AList.delete_eq using length_filter_less [of x m] by (simp add: case_prod_unfold)
qed

declare evict_oldest.simps [simp del]

definition pruneSessionIntentsLocked :: "intents \<Rightarrow> time \<Rightarrow> intents" where
  "pruneSessionIntentsLocked m now =
     (if length m = 0 then m
      else evict_oldest (filter (\<lambda>(_, intent). \<not> lanSessionIntentTTL < time_Sub now (si_LastSeen intent)) m))"

text \<open>The part of \<^verbatim>\<open>RecordSessionIntent\<close> under the mutex.\<close>

definition record_intent :: "intents \<Rightarrow> lanSessionIntent \<Rightarrow> time \<Rightarrow> intents" where
  "record_intent m intent now =
     (let m = pruneSessionIntentsLocked m now in
      case map_of m (si_Key intent) of
        None \<Rightarrow> AList.update (si_Key intent) intent m
      | Some existing \<Rightarrow>
          AList.update (si_Key intent)
            (existing\<lparr>si_LastSeen := now, si_Packets := si_Packets existing + 1, si_TrafficClass := si_TrafficClass intent\<rparr>) m)"

definition sessionIntent :: "intents \<Rightarrow> time \<Rightarrow> string \<Rightarrow> int \<Rightarrow> int \<Rightarrow> intents \<times> lanSessionIntent option" where
  "sessionIntent m now peerID srcPort dstPort =
     (let m = pruneSessionIntentsLocked m now in
      (m, find (\<lambda>intent. si_PeerID intent = peerID \<and> si_SrcPort intent = srcPort \<and> si_DstPort intent = dstPort) (map snd m)))"

definition activeSessionIntentsForPeer :: "intents \<Rightarrow> string \<Rightarrow> time \<Rightarrow> intents \<times> lanSessionIntent list" where
  "activeSessionIntentsForPeer m peerID now =
     (let m = pruneSessionIntentsLocked m now in (m, filter (\<lambda>intent. si_PeerID intent = peerID) (map snd m)))"

definition sessionIntentCount :: "intents \<Rightarrow> time \<Rightarrow> intents \<times> nat" where
  "sessionIntentCount m now = (let m = pruneSessionIntentsLocked m now in (m, length m))"

subsection \<open>Hot paths\<close>

definition hotPathKey :: "string \<Rightarrow> int \<Rightarrow> string" where
  "hotPathKey peerID dstPort = (if TrimSpace peerID = '''' \<or> dstPort \<le> 0 then '''' else peerID @ nul_text @ FormatInt dstPort)"

definition expired_hot :: "time \<Rightarrow> lanHotPath \<Rightarrow> bool" where
  "expired_hot now hot \<longleftrightarrow> lanHotPathTTL < time_Sub now (hp_LastUsed hot) \<or> lanHotPathTTL < time_Sub now (hp_LastSuccess hot)"

definition pruneHotPathsLocked :: "hot_paths \<Rightarrow> time \<Rightarrow> hot_paths" where
  "pruneHotPathsLocked m now = filter (\<lambda>(_, hot). \<not> expired_hot now hot) m"

definition hotPath :: "hot_paths \<Rightarrow> string \<Rightarrow> int \<Rightarrow> time \<Rightarrow> hot_paths \<times> lanHotPath option" where
  "hotPath m peerID dstPort now =
     (let m = pruneHotPathsLocked m now in
      case map_of m (hotPathKey peerID dstPort) of
        None \<Rightarrow> (m, None)
      | Some hot \<Rightarrow> let hot = hot\<lparr>hp_LastUsed := now\<rparr> in (AList.update (hotPathKey peerID dstPort) hot m, Some hot))"

definition parseLANTimeOr :: "(string \<Rightarrow> time option) \<Rightarrow> string \<Rightarrow> time \<Rightarrow> time" where
  "parseLANTimeOr parse v fallback = (case parse (TrimSpace v) of None \<Rightarrow> fallback | Some t \<Rightarrow> t)"

definition load_path :: "(string \<Rightarrow> time option) \<Rightarrow> time \<Rightarrow> VirtualLearnedPath \<Rightarrow> hot_paths \<Rightarrow> hot_paths" where
  "load_path parse now path m =
     (if lp_DstPort path \<le> 0 \<or> TrimSpace (lp_PeerID path) = '''' \<or> TrimSpace (lp_PublicAddr path) = '''' \<or> \<not> lp_PreheatEnabled path then m
      else let key = hotPathKey (lp_PeerID path) (lp_DstPort path) in
        AList.update key
          \<lparr>hp_Key = key, hp_PeerID = lp_PeerID path, hp_DstPort = lp_DstPort path, hp_PublicAddr = lp_PublicAddr path,
           hp_Path = lp_Path path, hp_TrafficClass = lp_Quality path, hp_Successes = lp_SuccessCount path,
           hp_Failures = lp_FailureCount path, hp_LastSuccess = parseLANTimeOr parse (lp_LastSuccessAt path) now, hp_LastUsed = now,
           hp_NextKeepAliveAt = now + lanHotPathKeepAliveMin, hp_LastFailure = lp_LastFailure path\<rparr> m)"

definition LoadLearnedPaths :: "(string \<Rightarrow> time option) \<Rightarrow> hot_paths \<Rightarrow> time \<Rightarrow> VirtualLearnedPath list \<Rightarrow> hot_paths" where
  "LoadLearnedPaths parse m now paths = fold (load_path parse now) paths m"

definition hotPathKeepAliveEvery :: "duration \<Rightarrow> duration" where
  "hotPathKeepAliveEvery idle =
     (if idle < 2 * Minute then lanHotPathKeepAliveMin
      else if idle < 10 * Minute then lanHotPathKeepAliveMid
      else lanHotPathKeepAliveMax)"

definition new_hot :: "string \<Rightarrow> string \<Rightarrow> int \<Rightarrow> lanHotPath" where
  "new_hot key peerID dstPort = \<lparr>hp_Key = key, hp_PeerID = peerID, hp_DstPort = dstPort, hp_PublicAddr = '''', hp_Path = '''',
     hp_TrafficClass = '''', hp_Successes = 0, hp_Failures = 0, hp_LastSuccess = 0, hp_LastUsed = 0, hp_NextKeepAliveAt = 0,
     hp_LastFailure = ''''\<rparr>"

definition learn :: "string \<Rightarrow> string \<Rightarrow> time \<Rightarrow> lanSessionIntent \<Rightarrow> lanHotPath \<Rightarrow> lanHotPath" where
  "learn addr path now intent hot =
     hot\<lparr>hp_PublicAddr := addr, hp_Path := path, hp_TrafficClass := si_TrafficClass intent,
         hp_Successes := (if Minute < time_Sub now (hp_LastSuccess hot) \<or> hp_Successes hot = 0 then hp_Successes hot + 1 else hp_Successes hot),
         hp_LastSuccess := now, hp_LastUsed := now, hp_LastFailure := '''',
         hp_NextKeepAliveAt := now + hotPathKeepAliveEvery (time_Sub now now)\<rparr>"

definition remember_intent :: "string \<Rightarrow> string \<Rightarrow> string \<Rightarrow> time \<Rightarrow> lanSessionIntent \<Rightarrow> hot_paths \<Rightarrow> hot_paths" where
  "remember_intent peerID addr path now intent m =
     (if \<not> isLANHotPathPort (si_DstPort intent) then m
      else let key = hotPathKey peerID (si_DstPort intent);
               hot = (case map_of m key of None \<Rightarrow> new_hot key peerID (si_DstPort intent) | Some hot \<Rightarrow> hot)
           in AList.update key (learn addr path now intent hot) m)"

text \<open>\<^verbatim>\<open>rememberHotPath\<close> for a peer that is not relayed and whose address is \<open>addr\<close>.\<close>

definition rememberHotPath_at :: "intents \<Rightarrow> hot_paths \<Rightarrow> string \<Rightarrow> string \<Rightarrow> string \<Rightarrow> time \<Rightarrow> intents \<times> hot_paths" where
  "rememberHotPath_at im m peerID addr path now =
     (let (im, active) = activeSessionIntentsForPeer im peerID now in
      if length active = 0 then (im, m)
      else (im, fold (remember_intent peerID addr path now) active (pruneHotPathsLocked m now)))"

definition fail_hot :: "string \<Rightarrow> lanHotPath \<Rightarrow> lanHotPath" where
  "fail_hot reason hot = hot\<lparr>hp_Failures := hp_Failures hot + 1, hp_LastFailure := reason\<rparr>"

definition markHotPathFailure :: "hot_paths \<Rightarrow> string \<Rightarrow> int \<Rightarrow> string \<Rightarrow> hot_paths" where
  "markHotPathFailure m peerID dstPort reason =
     (case map_of m (hotPathKey peerID dstPort) of
        None \<Rightarrow> m
      | Some hot \<Rightarrow>
          let hot = fail_hot reason hot; m = AList.update (hotPathKey peerID dstPort) hot m in
          if 2 \<le> hp_Failures hot then AList.delete (hp_Key hot) m else m)"

definition markHotPathsForPeerFailed :: "hot_paths \<Rightarrow> string \<Rightarrow> string \<Rightarrow> hot_paths" where
  "markHotPathsForPeerFailed m peerID reason =
     filter (\<lambda>(_, hot). hp_PeerID hot \<noteq> peerID \<or> hp_Failures hot < 2)
       (map (\<lambda>(key, hot). (key, if hp_PeerID hot \<noteq> peerID then hot else fail_hot reason hot)) m)"

definition hotPathCount :: "hot_paths \<Rightarrow> time \<Rightarrow> hot_paths \<times> nat" where
  "hotPathCount m now = (let m = pruneHotPathsLocked m now in (m, length m))"

text \<open>The part of \<^verbatim>\<open>sendDueHotPathKeepAlive\<close> under the mutex: the ports that are due, and the table with their
  next instants.\<close>

definition keepalive_is_due :: "string \<Rightarrow> time \<Rightarrow> lanHotPath \<Rightarrow> bool" where
  "keepalive_is_due peerID now hot \<longleftrightarrow>
     \<not> (hp_PeerID hot \<noteq> peerID \<or> IsZero (hp_NextKeepAliveAt hot) \<or> now < hp_NextKeepAliveAt hot)"

definition dueHotPaths :: "hot_paths \<Rightarrow> string \<Rightarrow> time \<Rightarrow> hot_paths \<times> int list" where
  "dueHotPaths m peerID now =
     (let m = pruneHotPathsLocked m now in
      (map (\<lambda>(key, hot). (key, if keepalive_is_due peerID now hot
           then hot\<lparr>hp_NextKeepAliveAt := now + hotPathKeepAliveEvery (time_Sub now (hp_LastUsed hot))\<rparr> else hot)) m,
       map hp_DstPort (filter (keepalive_is_due peerID now) (map snd m))))"

definition formatLANTime :: "(time \<Rightarrow> string) \<Rightarrow> time \<Rightarrow> string" where
  "formatLANTime format t = (if IsZero t then '''' else format t)"

definition learnedPathQuality :: "int \<Rightarrow> int \<Rightarrow> string \<Rightarrow> string" where
  "learnedPathQuality successes failures lastFailure =
     (if 3 \<le> successes \<and> failures = 0 then ''good''
      else if failures < successes then ''ok''
      else if lastFailure \<noteq> '''' then ''degraded''
      else ''unknown'')"

definition learned_row :: "(time \<Rightarrow> string) \<Rightarrow> time \<Rightarrow> string \<Rightarrow> int \<Rightarrow> lanHotPath \<Rightarrow> VirtualLearnedPath" where
  "learned_row format now deviceID networkID hot =
     \<lparr>lp_DeviceID = deviceID, lp_PeerID = hp_PeerID hot, lp_NetworkID = networkID, lp_DstPort = hp_DstPort hot,
      lp_Protocol = ''tcp'', lp_Path = hp_Path hot, lp_PublicAddr = hp_PublicAddr hot, lp_SuccessCount = hp_Successes hot,
      lp_FailureCount = hp_Failures hot, lp_LastSuccessAt = formatLANTime format (hp_LastSuccess hot),
      lp_LastFailureAt = '''', lp_LastFailure = hp_LastFailure hot,
      lp_Quality = learnedPathQuality (hp_Successes hot) (hp_Failures hot) (hp_LastFailure hot), lp_PreheatEnabled = True,
      lp_UpdatedAt = formatLANTime format now\<rparr>"

definition LearnedPathsSnapshot ::
  "(time \<Rightarrow> string) \<Rightarrow> hot_paths \<Rightarrow> time \<Rightarrow> string \<Rightarrow> int \<Rightarrow> hot_paths \<times> VirtualLearnedPath list"
where
  "LearnedPathsSnapshot format m now deviceID networkID =
     (let m = pruneHotPathsLocked m now in
      (m, map (learned_row format now deviceID networkID)
            (filter (\<lambda>hot. \<not> (hp_Successes hot < 2 \<and> hp_Failures hot = 0)) (map snd m))))"

section \<open>Tables whose entries know their keys\<close>

definition keyed_ok :: "('v \<Rightarrow> string) \<Rightarrow> ('v \<Rightarrow> bool) \<Rightarrow> (string \<times> 'v) list \<Rightarrow> bool" where
  "keyed_ok key good m \<longleftrightarrow> keys_distinct m \<and> (\<forall>(k, v) \<in> set m. k = key v \<and> good v)"

lemma keyed_ok_Nil [simp]: "keyed_ok key good []"
  by (simp add: keyed_ok_def)

lemma keyed_ok_filter [simp]: "keyed_ok key good m \<Longrightarrow> keyed_ok key good (filter P m)"
  by (auto simp: keyed_ok_def)

lemma keyed_ok_delete [simp]: "keyed_ok key good m \<Longrightarrow> keyed_ok key good (AList.delete k m)"
  by (auto simp: keyed_ok_def set_delete)

lemma keyed_ok_update [simp]: "keyed_ok key good m \<Longrightarrow> key v = k \<Longrightarrow> good v \<Longrightarrow> keyed_ok key good (AList.update k v m)"
  by (auto simp: keyed_ok_def in_update split: if_splits)

lemma keyed_ok_map:
  "keyed_ok key good m \<Longrightarrow> (\<And>v. good v \<Longrightarrow> key (f v) = key v \<and> good (f v)) \<Longrightarrow> keyed_ok key good (map (\<lambda>(k, v). (k, f v)) m)"
  by (fastforce simp: keyed_ok_def keys_distinct_map_snd)

lemma keyed_lookup: "keyed_ok key good m \<Longrightarrow> map_of m k = Some v \<Longrightarrow> key v = k \<and> good v"
  by (auto simp: keyed_ok_def dest: map_of_SomeD)

lemma map_of_filter_snd:
  "keys_distinct m \<Longrightarrow> map_of (filter (\<lambda>(_, v). P v) m) k = (case map_of m k of None \<Rightarrow> None | Some v \<Rightarrow> if P v then Some v else None)"
  by (induction m) (auto simp: keys_distinct_def map_of_eq_None_iff split: option.splits dest: map_of_SomeD)

section \<open>Session intents\<close>

definition intents_ok :: "intents \<Rightarrow> bool" where
  "intents_ok = keyed_ok si_Key (\<lambda>intent. si_Key intent \<noteq> '''')"

lemma intents_ok_filter [simp]: "intents_ok m \<Longrightarrow> intents_ok (filter P m)"
  by (simp add: intents_ok_def)

lemma intents_ok_delete [simp]: "intents_ok m \<Longrightarrow> intents_ok (AList.delete k m)"
  by (simp add: intents_ok_def)

lemma intents_key_neq: "intents_ok m \<Longrightarrow> (k, i) \<in> set m \<Longrightarrow> k \<noteq> ''''"
  by (auto simp: intents_ok_def keyed_ok_def)

lemma oldest_loop_oldest:
  assumes "k \<noteq> ''''" "\<forall>(k, i) \<in> set m. k \<noteq> ''''"
  shows "\<exists>t'. t' \<le> t \<and> (\<forall>(_, i) \<in> set m. t' \<le> si_LastSeen i)
    \<and> ((oldest_loop k t m, t') = (k, t) \<or> (\<exists>i. (oldest_loop k t m, i) \<in> set m \<and> si_LastSeen i = t'))"
  using assms
proof (induction m arbitrary: k t)
  case (Cons p m)
  obtain k1 i1 where p: "p = (k1, i1)" by (cases p)
  show ?case
  proof (cases "si_LastSeen i1 < t")
    case True
    have "k1 \<noteq> ''''" "\<forall>(k, i) \<in> set m. k \<noteq> ''''" using Cons.prems p by auto
    from Cons.IH [OF this, of "si_LastSeen i1"] obtain t' where t': "t' \<le> si_LastSeen i1" "\<forall>(_, i) \<in> set m. t' \<le> si_LastSeen i"
        "(oldest_loop k1 (si_LastSeen i1) m, t') = (k1, si_LastSeen i1) \<or> (\<exists>i. (oldest_loop k1 (si_LastSeen i1) m, i) \<in> set m \<and> si_LastSeen i = t')"
      by blast
    then show ?thesis using True p by (intro exI [of _ t']) auto
  next
    case False
    have "\<forall>(k, i) \<in> set m. k \<noteq> ''''" using Cons.prems by auto
    from Cons.IH [OF Cons.prems(1) this, of t] obtain t' where "t' \<le> t" "\<forall>(_, i) \<in> set m. t' \<le> si_LastSeen i"
        "(oldest_loop k t m, t') = (k, t) \<or> (\<exists>i. (oldest_loop k t m, i) \<in> set m \<and> si_LastSeen i = t')"
      by blast
    then show ?thesis using False Cons.prems(1) p by (intro exI [of _ t']) auto
  qed
qed simp

lemma oldest_entry:
  assumes "intents_ok m" "m \<noteq> []"
  obtains i where "(oldest_loop '''' 0 m, i) \<in> set m" "\<forall>(_, j) \<in> set m. si_LastSeen i \<le> si_LastSeen j"
proof -
  obtain k1 i1 m' where m: "m = (k1, i1) # m'" using assms(2) by (cases m) auto
  have k: "k1 \<noteq> ''''" "\<forall>(k, i) \<in> set m'. k \<noteq> ''''" using intents_key_neq [OF assms(1)] m by auto
  from oldest_loop_oldest [OF this, of "si_LastSeen i1"] show ?thesis
    by (rule exE) (use that m in fastforce)
qed

definition kept_newest :: "intents \<Rightarrow> intents \<Rightarrow> bool" where
  "kept_newest m m' \<longleftrightarrow> set m' \<subseteq> set m
     \<and> (\<forall>x \<in> set m - set m'. \<forall>y \<in> set m'. si_LastSeen (snd x) \<le> si_LastSeen (snd y))"

lemma evict_oldest_spec:
  "intents_ok m \<Longrightarrow> intents_ok (evict_oldest m) \<and> length (evict_oldest m) = min (length m) lanSessionIntentMax
     \<and> kept_newest m (evict_oldest m)"
proof (induction m rule: evict_oldest.induct)
  case (1 m)
  show ?case
  proof (cases "lanSessionIntentMax < length m")
    case False
    then show ?thesis using "1.prems" by (simp add: evict_oldest.simps [of m] kept_newest_def)
  next
    case True
    then have "m \<noteq> []" by auto
    with "1.prems" obtain i where i: "(oldest_loop '''' 0 m, i) \<in> set m" "\<forall>(_, j) \<in> set m. si_LastSeen i \<le> si_LastSeen j"
      by (rule oldest_entry)
    let ?d = "AList.delete (oldest_loop '''' 0 m) m"
    have kd: "keys_distinct m" using "1.prems" by (simp add: intents_ok_def keyed_ok_def)
    have "map_of m (oldest_loop '''' 0 m) = Some i" using i(1) kd by (simp add: map_of_in)
    then have len: "length ?d + 1 = length m" using length_delete [OF kd] by simp
    have IH: "intents_ok (evict_oldest ?d)" "length (evict_oldest ?d) = min (length ?d) lanSessionIntentMax" "kept_newest ?d (evict_oldest ?d)"
      using "1.IH" [OF True] "1.prems" by auto
    have only: "x = (oldest_loop '''' 0 m, i)" if "x \<in> set m" "x \<notin> set ?d" for x
    proof -
      have "fst x = oldest_loop '''' 0 m" using that by (simp add: set_delete)
      then have "(oldest_loop '''' 0 m, snd x) \<in> set m" using that(1) by (metis prod.collapse)
      then have "snd x = i" using i(1) kd by (auto simp: keys_distinct_def dest: eq_key_imp_eq_value)
      then show ?thesis using \<open>fst x = oldest_loop '''' 0 m\<close> by (metis prod.collapse)
    qed
    have "kept_newest m (evict_oldest ?d)"
      unfolding kept_newest_def
    proof (intro conjI ballI)
      show sub: "set (evict_oldest ?d) \<subseteq> set m" using IH(3) by (auto simp: kept_newest_def set_delete)
      fix x y assume x: "x \<in> set m - set (evict_oldest ?d)" and y: "y \<in> set (evict_oldest ?d)"
      show "si_LastSeen (snd x) \<le> si_LastSeen (snd y)"
      proof (cases "x \<in> set ?d")
        case True
        then show ?thesis using IH(3) x y by (auto simp: kept_newest_def)
      next
        case False
        then have "snd x = i" using only [of x] x by simp
        then show ?thesis using i(2) sub y by (cases y) auto
      qed
    qed
    moreover have "evict_oldest m = evict_oldest ?d" using True by (simp add: evict_oldest.simps [of m])
    ultimately show ?thesis using IH len True by auto
  qed
qed


lemma pruneSessionIntents_ok:
  assumes "intents_ok m"
  shows "intents_ok (pruneSessionIntentsLocked m now)" "length (pruneSessionIntentsLocked m now) \<le> lanSessionIntentMax"
    "kept_newest (filter (\<lambda>(_, i). \<not> lanSessionIntentTTL < time_Sub now (si_LastSeen i)) m) (pruneSessionIntentsLocked m now)"
  using evict_oldest_spec [of "filter (\<lambda>(_, i). \<not> lanSessionIntentTTL < time_Sub now (si_LastSeen i)) m"] assms
  by (auto simp: pruneSessionIntentsLocked_def kept_newest_def)

lemma record_intent_ok:
  assumes "intents_ok m" "si_Key intent \<noteq> ''''"
  shows "intents_ok (record_intent m intent now)" "length (record_intent m intent now) \<le> lanSessionIntentMax + 1"
proof -
  let ?m = "pruneSessionIntentsLocked m now"
  note p = pruneSessionIntents_ok [OF assms(1), of now]
  show "intents_ok (record_intent m intent now)"
  proof (cases "map_of ?m (si_Key intent)")
    case None
    then show ?thesis using p(1) assms(2) by (simp add: record_intent_def intents_ok_def Let_def)
  next
    case (Some existing)
    have "si_Key existing = si_Key intent" using keyed_lookup [OF p(1) [unfolded intents_ok_def] Some] by simp
    then show ?thesis using Some p(1) assms(2) by (simp add: record_intent_def intents_ok_def Let_def)
  qed
  show "length (record_intent m intent now) \<le> lanSessionIntentMax + 1"
    using p(2) by (auto simp: record_intent_def length_update Let_def split: option.splits)
qed

lemma newLANSessionIntent_key: "newLANSessionIntent frame now = Some intent \<Longrightarrow> si_Key intent \<noteq> ''''"
  by (auto simp: newLANSessionIntent_def Let_def split: if_splits)

text \<open>The table of session intents stays small: recording the SYN of a frame leaves at most 257 intents (the
  limit of 256 is enforced before the new one is stored), each under its own key; what is discarded had
  been idle for longer than the period, or was seen no later than everything that is kept.\<close>

theorem session_intents_bounded:
  assumes "intents_ok m" "newLANSessionIntent frame now = Some intent"
  shows "intents_ok (record_intent m intent now) \<and> length (record_intent m intent now) \<le> 257
    \<and> map_of (record_intent m intent now) (si_Key intent) \<noteq> None
    \<and> (\<forall>x \<in> set m. fst x \<noteq> si_Key intent \<and> x \<notin> set (record_intent m intent now) \<longrightarrow>
          lanSessionIntentTTL < time_Sub now (si_LastSeen (snd x))
          \<or> (\<forall>y \<in> set (record_intent m intent now). fst y \<noteq> si_Key intent \<longrightarrow> si_LastSeen (snd x) \<le> si_LastSeen (snd y)))"
proof -
  let ?m = "pruneSessionIntentsLocked m now" and ?r = "record_intent m intent now"
  note p = pruneSessionIntents_ok [OF assms(1), of now]
  note r = record_intent_ok [OF assms(1) newLANSessionIntent_key [OF assms(2)], of now]
  have kd: "keys_distinct ?m" using p(1) by (simp add: intents_ok_def keyed_ok_def)
  obtain v where v: "?r = AList.update (si_Key intent) v ?m"
    by (cases "map_of ?m (si_Key intent)") (auto simp: record_intent_def Let_def)
  have others: "x \<in> set ?r \<longleftrightarrow> x \<in> set ?m" if "fst x \<noteq> si_Key intent" for x
    using that in_update [OF kd, of "fst x" "snd x"] by (simp add: v)
  have "lanSessionIntentTTL < time_Sub now (si_LastSeen (snd x)) \<or> (\<forall>y \<in> set ?r. fst y \<noteq> si_Key intent \<longrightarrow> si_LastSeen (snd x) \<le> si_LastSeen (snd y))"
    if "x \<in> set m" "fst x \<noteq> si_Key intent" "x \<notin> set ?r" for x
    using p(3) that others unfolding kept_newest_def by (fastforce simp: case_prod_unfold)
  moreover have "map_of ?r (si_Key intent) \<noteq> None" by (simp add: v update_conv')
  ultimately show ?thesis using r by (auto simp: lanSessionIntentMax_def)
qed

section \<open>Hot paths\<close>

definition hot_ok :: "lanHotPath \<Rightarrow> bool" where
  "hot_ok hot \<longleftrightarrow> hp_Key hot = hotPathKey (hp_PeerID hot) (hp_DstPort hot)"

definition hots_ok :: "hot_paths \<Rightarrow> bool" where
  "hots_ok = keyed_ok hp_Key hot_ok"

lemma last_nul_split:
  "\<lbrakk>CHR 0x00 \<notin> set b; CHR 0x00 \<notin> set d; a @ CHR 0x00 # b = c @ CHR 0x00 # d\<rbrakk> \<Longrightarrow> a = c \<and> b = d"
proof -
  assume "CHR 0x00 \<notin> set b" "CHR 0x00 \<notin> set d" and eq: "a @ CHR 0x00 # b = c @ CHR 0x00 # d"
  moreover have "rev b @ CHR 0x00 # rev a = rev d @ CHR 0x00 # rev c" using arg_cong [OF eq, of rev] by simp
  ultimately have "rev b = rev d \<and> rev a = rev c" by (intro split_at_nul) simp_all
  then show ?thesis by simp
qed

lemma FormatInt_no_nul: "CHR 0x00 \<notin> set (FormatInt i)"
  using dec_nat_not_sign by (fastforce simp: FormatInt_def is_digit_def split: if_splits)

lemma hotPathKey_inject:
  "hotPathKey p n = hotPathKey p' n' \<Longrightarrow> hotPathKey p n \<noteq> '''' \<Longrightarrow> p = p' \<and> n = n'"
  using last_nul_split [OF FormatInt_no_nul FormatInt_no_nul, of p n p' n']
  by (auto simp: hotPathKey_def nul_text_def FormatInt_inject split: if_splits)


lemma hots_ok_Nil [simp]: "hots_ok []"
  by (simp add: hots_ok_def)

lemma hots_ok_prune [simp]: "hots_ok m \<Longrightarrow> hots_ok (pruneHotPathsLocked m now)"
  by (simp add: hots_ok_def pruneHotPathsLocked_def)

lemma hots_ok_update: "hots_ok m \<Longrightarrow> hot_ok hot \<Longrightarrow> hp_Key hot = k \<Longrightarrow> hots_ok (AList.update k hot m)"
  by (simp add: hots_ok_def)

lemma hots_lookup: "hots_ok m \<Longrightarrow> map_of m k = Some hot \<Longrightarrow> hp_Key hot = k \<and> hot_ok hot"
  unfolding hots_ok_def by (rule keyed_lookup)

lemma hots_ok_load: "hots_ok m \<Longrightarrow> hots_ok (load_path parse now path m)"
  by (auto simp: load_path_def Let_def intro!: hots_ok_update) (simp add: hot_ok_def)

lemma hots_ok_LoadLearnedPaths: "hots_ok m \<Longrightarrow> hots_ok (LoadLearnedPaths parse m now paths)"
  unfolding LoadLearnedPaths_def by (induction paths arbitrary: m) (simp_all add: hots_ok_load)

lemma learn_keeps [simp]: "hp_Key (learn addr path now i hot) = hp_Key hot" "hot_ok (learn addr path now i hot) = hot_ok hot"
  by (simp_all add: learn_def hot_ok_def)

lemma hots_ok_remember_intent: "hots_ok m \<Longrightarrow> hots_ok (remember_intent p addr path now i m)"
  by (auto simp: remember_intent_def Let_def intro!: hots_ok_update split: option.splits dest: hots_lookup)
    (simp_all add: new_hot_def hot_ok_def)

lemma hots_ok_fold_remember: "hots_ok m \<Longrightarrow> hots_ok (fold (remember_intent p addr path now) is m)"
  by (induction "is" arbitrary: m) (simp_all add: hots_ok_remember_intent)

lemma hots_ok_rememberHotPath: "hots_ok m \<Longrightarrow> hots_ok (snd (rememberHotPath_at im m p addr path now))"
  by (auto simp: rememberHotPath_at_def hots_ok_fold_remember split: prod.splits)

lemma hots_ok_hotPath: "hots_ok m \<Longrightarrow> hots_ok (fst (hotPath m p n now))"
  using hots_lookup [of "pruneHotPathsLocked m now" "hotPathKey p n"]
  by (auto simp: hotPath_def Let_def hot_ok_def intro!: hots_ok_update split: option.splits)

lemma hots_ok_markHotPathFailure: "hots_ok m \<Longrightarrow> hots_ok (markHotPathFailure m p n reason)"
proof -
  assume ok: "hots_ok m"
  have del: "hots_ok (AList.delete k m')" if "hots_ok m'" for k m' using that by (simp add: hots_ok_def)
  show ?thesis
  proof (cases "map_of m (hotPathKey p n)")
    case None
    then show ?thesis using ok by (simp add: markHotPathFailure_def)
  next
    case (Some hot)
    have "hots_ok (AList.update (hotPathKey p n) (fail_hot reason hot) m)"
      using hots_lookup [OF ok Some] by (intro hots_ok_update ok) (auto simp: fail_hot_def hot_ok_def)
    then show ?thesis using Some del by (simp add: markHotPathFailure_def Let_def)
  qed
qed

lemma hots_ok_markHotPathsForPeerFailed: "hots_ok m \<Longrightarrow> hots_ok (markHotPathsForPeerFailed m p reason)"
  unfolding hots_ok_def markHotPathsForPeerFailed_def
  by (intro keyed_ok_filter keyed_ok_map) (auto simp: fail_hot_def hot_ok_def)

lemma hots_ok_dueHotPaths: "hots_ok m \<Longrightarrow> hots_ok (fst (dueHotPaths m p now))"
  unfolding hots_ok_def dueHotPaths_def Let_def fst_conv pruneHotPathsLocked_def
  by (intro keyed_ok_map keyed_ok_filter) (auto simp: hot_ok_def)

lemmas hots_ok_ops = hots_ok_prune hots_ok_LoadLearnedPaths hots_ok_rememberHotPath hots_ok_hotPath
  hots_ok_markHotPathFailure hots_ok_markHotPathsForPeerFailed hots_ok_dueHotPaths

subsection \<open>Looking up what was learnt\<close>

lemma map_of_prune:
  "hots_ok m \<Longrightarrow> map_of (pruneHotPathsLocked m now) k = (case map_of m k of None \<Rightarrow> None | Some h \<Rightarrow> if expired_hot now h then None else Some h)"
  by (auto simp: pruneHotPathsLocked_def hots_ok_def keyed_ok_def map_of_filter_snd split: option.splits)

lemma hotPath_lookup:
  "snd (hotPath m p n now) = map_option (\<lambda>h. h\<lparr>hp_LastUsed := now\<rparr>) (map_of (pruneHotPathsLocked m now) (hotPathKey p n))"
  by (simp add: hotPath_def Let_def split: option.splits)

lemma remember_intent_lookup:
  "\<exists>h. hp_PublicAddr h = addr \<and> hp_Path h = path \<and> \<not> expired_hot now h
     \<and> map_of (remember_intent p addr path now i m) k =
         (if isLANHotPathPort (si_DstPort i) \<and> k = hotPathKey p (si_DstPort i) then Some h else map_of m k)"
proof -
  let ?h = "learn addr path now i (case map_of m (hotPathKey p (si_DstPort i)) of
      None \<Rightarrow> new_hot (hotPathKey p (si_DstPort i)) p (si_DstPort i) | Some hot \<Rightarrow> hot)"
  have "hp_PublicAddr ?h = addr" "hp_Path ?h = path" "\<not> expired_hot now ?h"
    by (simp_all add: learn_def expired_hot_def lanHotPathTTL_def duration_defs)
  then show ?thesis by (intro exI [of _ ?h]) (auto simp: remember_intent_def Let_def update_conv')
qed

lemma fold_remember_lookup:
  "if \<exists>i \<in> set is. isLANHotPathPort (si_DstPort i) \<and> k = hotPathKey p (si_DstPort i)
   then \<exists>h. hp_PublicAddr h = addr \<and> hp_Path h = path \<and> \<not> expired_hot now h
          \<and> map_of (fold (remember_intent p addr path now) is m) k = Some h
   else map_of (fold (remember_intent p addr path now) is m) k = map_of m k"
proof (induction "is" rule: rev_induct)
  case (snoc i "is")
  obtain h where "hp_PublicAddr h = addr \<and> hp_Path h = path \<and> \<not> expired_hot now h"
    "map_of (remember_intent p addr path now i (fold (remember_intent p addr path now) is m)) k =
         (if isLANHotPathPort (si_DstPort i) \<and> k = hotPathKey p (si_DstPort i) then Some h
          else map_of (fold (remember_intent p addr path now) is m) k)"
    using remember_intent_lookup by blast
  then show ?case using snoc.IH by (auto split: if_splits)
qed simp

text \<open>What a peer-to-peer path taught is found again: after a path to a peer worked, looking up the peer and
  the port of one of its active sessions on a port worth remembering gives the address and the path that
  worked, and every other lookup answers as before.\<close>

theorem rememberHotPath_lookup:
  assumes "hots_ok m" "TrimSpace p \<noteq> ''''"
  shows "let active = snd (activeSessionIntentsForPeer im p now);
             m' = snd (rememberHotPath_at im m p addr path now) in
     hots_ok m'
     \<and> (if p' = p \<and> isLANHotPathPort n \<and> n \<in> si_DstPort ` set active
        then \<exists>h. snd (hotPath m' p' n now) = Some h \<and> hp_PublicAddr h = addr \<and> hp_Path h = path
        else snd (hotPath m' p' n now) = snd (hotPath m p' n now))"
proof -
  obtain im' active where act: "activeSessionIntentsForPeer im p now = (im', active)" by fastforce
  let ?m0 = "pruneHotPathsLocked m now"
  let ?m' = "if active = [] then m else fold (remember_intent p addr path now) active ?m0" and ?k = "hotPathKey p' n"
  have m': "snd (rememberHotPath_at im m p addr path now) = ?m'" by (simp add: rememberHotPath_at_def act)
  have ok: "hots_ok ?m'" using hots_ok_rememberHotPath [OF assms(1), of im p addr path now] m' by simp
  have key: "(\<exists>i \<in> set active. isLANHotPathPort (si_DstPort i) \<and> ?k = hotPathKey p (si_DstPort i))
      \<longleftrightarrow> p' = p \<and> isLANHotPathPort n \<and> n \<in> si_DstPort ` set active"
  proof
    assume "\<exists>i \<in> set active. isLANHotPathPort (si_DstPort i) \<and> ?k = hotPathKey p (si_DstPort i)"
    then obtain i where i: "i \<in> set active" "isLANHotPathPort (si_DstPort i)" "hotPathKey p (si_DstPort i) = ?k" by auto
    then have "hotPathKey p (si_DstPort i) \<noteq> ''''" using assms(2) by (auto simp: hotPathKey_def isLANHotPathPort_def nul_text_def)
    from hotPathKey_inject [OF i(3) this] i show "p' = p \<and> isLANHotPathPort n \<and> n \<in> si_DstPort ` set active" by blast
  qed auto
  show ?thesis
  proof (cases "p' = p \<and> isLANHotPathPort n \<and> n \<in> si_DstPort ` set active")
    case True
    then have "active \<noteq> []" "\<exists>i \<in> set active. isLANHotPathPort (si_DstPort i) \<and> ?k = hotPathKey p (si_DstPort i)"
      using key by auto
    then obtain h where "hp_PublicAddr h = addr \<and> hp_Path h = path \<and> \<not> expired_hot now h" "map_of ?m' ?k = Some h"
      using fold_remember_lookup [of active ?k p addr path now ?m0] by (simp split: if_splits) blast
    then show ?thesis using ok True by (simp add: act m' Let_def hotPath_lookup map_of_prune)
  next
    case False
    have "map_of (pruneHotPathsLocked ?m' now) ?k = map_of ?m0 ?k"
    proof (cases "active = []")
      case False
      then have "map_of ?m' ?k = map_of ?m0 ?k"
        using fold_remember_lookup [of active ?k p addr path now ?m0] key \<open>\<not> (p' = p \<and> _)\<close> by simp
      then show ?thesis using ok assms(1) by (simp add: map_of_prune split: option.splits)
    qed simp
    then show ?thesis using ok False by (auto simp: act m' Let_def hotPath_lookup simp del: if_split_asm split del: if_split)
  qed
qed

subsection \<open>Reporting and loading paths\<close>

definition loadable :: "VirtualLearnedPath \<Rightarrow> bool" where
  "loadable path \<longleftrightarrow> 0 < lp_DstPort path \<and> TrimSpace (lp_PeerID path) \<noteq> '''' \<and> TrimSpace (lp_PublicAddr path) \<noteq> '''' \<and> lp_PreheatEnabled path"

definition path_key :: "VirtualLearnedPath \<Rightarrow> string" where
  "path_key path = hotPathKey (lp_PeerID path) (lp_DstPort path)"

lemma load_path_lookup:
  "map_of (load_path parse now path m) k =
     (if loadable path \<and> k = path_key path
      then map_of (load_path parse now path []) k else map_of m k)"
  by (auto simp: load_path_def loadable_def path_key_def Let_def update_conv')

lemma fold_load_other:
  "k \<notin> path_key ` set paths \<Longrightarrow> map_of (fold (load_path parse now) paths m) k = map_of m k"
proof (induction paths arbitrary: m)
  case (Cons path paths)
  have "map_of (load_path parse now path m) k = map_of m k" using Cons.prems by (subst load_path_lookup) simp
  then show ?case using Cons by simp
qed simp

lemma fold_load_lookup:
  assumes "distinct (map path_key paths)" "path \<in> set paths" "loadable path"
  shows "map_of (fold (load_path parse now) paths m) (path_key path) = map_of (load_path parse now path []) (path_key path)"
proof -
  obtain xs ys where split: "paths = xs @ path # ys" using assms(2) by (meson split_list)
  then have "path_key path \<notin> path_key ` set ys" using assms(1) by auto
  then have "map_of (fold (load_path parse now) paths m) (path_key path)
      = map_of (load_path parse now path (fold (load_path parse now) xs m)) (path_key path)"
    by (simp add: split fold_load_other)
  then show ?thesis using assms(3) by (subst (asm) load_path_lookup) simp
qed

text \<open>What an agent reports of its hot paths, it gets back: loading the reported paths gives, for every
  reported path with a peer, a port and an address, a hot path under the same key with the same peer,
  port, address, path and counters.\<close>

theorem learned_paths_roundtrip:
  assumes "hots_ok m" "(k, hot) \<in> set (pruneHotPathsLocked m now)" "2 \<le> hp_Successes hot \<or> hp_Failures hot \<noteq> 0"
    and "TrimSpace (hp_PeerID hot) \<noteq> ''''" "0 < hp_DstPort hot" "TrimSpace (hp_PublicAddr hot) \<noteq> ''''"
  shows "\<exists>h. map_of (LoadLearnedPaths parse [] now' (snd (LearnedPathsSnapshot format m now deviceID networkID))) k = Some h
     \<and> hp_PeerID h = hp_PeerID hot \<and> hp_DstPort h = hp_DstPort hot \<and> hp_PublicAddr h = hp_PublicAddr hot \<and> hp_Path h = hp_Path hot
     \<and> hp_Successes h = hp_Successes hot \<and> hp_Failures h = hp_Failures hot \<and> hp_Key h = hp_Key hot"
proof -
  let ?m = "pruneHotPathsLocked m now"
  let ?reported = "filter (\<lambda>hot. \<not> (hp_Successes hot < 2 \<and> hp_Failures hot = 0)) (map snd ?m)"
  define row where "row = learned_row format now deviceID networkID"
  have rows: "snd (LearnedPathsSnapshot format m now deviceID networkID) = map row ?reported"
    by (simp add: LearnedPathsSnapshot_def row_def Let_def)
  have row: "lp_PeerID (row h) = hp_PeerID h \<and> lp_DstPort (row h) = hp_DstPort h \<and> lp_PublicAddr (row h) = hp_PublicAddr h
      \<and> lp_Path (row h) = hp_Path h \<and> lp_SuccessCount (row h) = hp_Successes h \<and> lp_FailureCount (row h) = hp_Failures h
      \<and> lp_PreheatEnabled (row h)" for h
    by (simp add: row_def learned_row_def)
  have ok: "hots_ok ?m" using assms(1) by simp
  then have keys: "hp_Key h = path_key (row h)" "k' = hp_Key h" if "(k', h) \<in> set ?m" for h k'
    using that row by (auto simp: hots_ok_def keyed_ok_def hot_ok_def path_key_def)
  have "map fst ?m = map (path_key \<circ> row) (map snd ?m)" using keys by (auto simp: comp_def)
  moreover have "distinct (map fst ?m)" using ok by (simp add: hots_ok_def keyed_ok_def keys_distinct_def)
  ultimately have "distinct (map (path_key \<circ> row) (map snd ?m))" by (simp only:)
  then have "distinct (map path_key (map row ?reported))"
    using distinct_map_filter [of "path_key \<circ> row" "map snd ?m"] by simp
  moreover have "row hot \<in> set (map row ?reported)" using assms(2,3) by force
  moreover have "loadable (row hot)" using row assms(4-6) by (simp add: loadable_def)
  ultimately have "map_of (LoadLearnedPaths parse [] now' (map row ?reported)) (path_key (row hot))
      = map_of (load_path parse now' (row hot) []) (path_key (row hot))"
    unfolding LoadLearnedPaths_def by (rule fold_load_lookup)
  moreover have "path_key (row hot) = k" "hp_Key hot = k" using keys [OF assms(2)] by auto
  ultimately show ?thesis using row assms(4-6) \<open>loadable (row hot)\<close>
    by (auto simp: rows load_path_def loadable_def path_key_def Let_def)
qed

section \<open>Witnesses\<close>

definition demo_intent :: lanSessionIntent where
  "demo_intent = \<lparr>si_Key = ''k'', si_PeerID = ''b'', si_Protocol = ''tcp'', si_SrcIP = '''', si_DstIP = '''', si_SrcPort = 1, si_DstPort = 22,
     si_TrafficClass = '''', si_FirstSeen = 1, si_LastSeen = 1, si_Packets = 1\<rparr>"

definition demo_syn_frame :: RoutedFrame where
  "demo_syn_frame = \<lparr>rf_NetworkID = 1, rf_SrcDevice = ''a'', rf_DstDevice = ''b'', rf_PacketType = 1, rf_Payload = [],
     rf_Header = empty_header\<lparr>ih_Protocol := IPv4ProtocolTCP, ih_TCPSYN := True, ih_SourceIP := [10, 0, 0, 1], ih_DestIP := [10, 0, 0, 2],
       ih_SourcePort := 4000, ih_DestPort := 22\<rparr>\<rparr>"

lemma demo_syn_intent: "newLANSessionIntent demo_syn_frame 5 \<noteq> None"
proof -
  have "TrimSpace ''b'' = ''b''" by (simp add: TrimSpace_plain plain_char_def)
  then show ?thesis
    by (simp add: newLANSessionIntent_def lanFrameSessionKey_def demo_syn_frame_def IPv4ProtocolTCP_def nul_text_def Let_def)
qed

theorem session_intents_bounded_witness:
  "\<exists>intent. newLANSessionIntent demo_syn_frame 5 = Some intent \<and> length (record_intent [(''k'', demo_intent)] intent 5) \<le> 257"
proof -
  have "intents_ok [(''k'', demo_intent)]" by (simp add: intents_ok_def keyed_ok_def keys_distinct_def demo_intent_def)
  then show ?thesis using demo_syn_intent session_intents_bounded [of "[(''k'', demo_intent)]" demo_syn_frame 5] by auto
qed

theorem rememberHotPath_lookup_witness:
  "\<exists>h. snd (hotPath (snd (rememberHotPath_at [(''k'', demo_intent)] [] ''b'' ''1.2.3.4:5'' ''p2p_kcp'' 1)) ''b'' 22 1) = Some h
     \<and> hp_PublicAddr h = ''1.2.3.4:5''"
proof -
  have "TrimSpace ''b'' \<noteq> ''''" by (simp add: TrimSpace_plain plain_char_def)
  moreover have "activeSessionIntentsForPeer [(''k'', demo_intent)] ''b'' 1 = ([(''k'', demo_intent)], [demo_intent])"
    by (simp add: activeSessionIntentsForPeer_def pruneSessionIntentsLocked_def evict_oldest.simps demo_intent_def lanSessionIntentTTL_def
        lanSessionIntentMax_def duration_defs Let_def)
  ultimately show ?thesis
    using rememberHotPath_lookup [of "[]" "''b''" "[(''k'', demo_intent)]" 1 "''1.2.3.4:5''" "''p2p_kcp''" "''b''" 22]
    by (auto simp: Let_def isLANHotPathPort_def demo_intent_def)
qed

definition demo_hot :: lanHotPath where
  "demo_hot = (new_hot (hotPathKey ''b'' 22) ''b'' 22)\<lparr>hp_PublicAddr := ''x'', hp_Successes := 2, hp_LastSuccess := 1, hp_LastUsed := 1\<rparr>"

theorem learned_paths_roundtrip_witness:
  "\<exists>h. map_of (LoadLearnedPaths (\<lambda>_. None) [] 9 (snd (LearnedPathsSnapshot (\<lambda>_. '''') [(hp_Key demo_hot, demo_hot)] 2 ''a'' 1))) (hp_Key demo_hot)
     = Some h \<and> hp_PublicAddr h = ''x''"
proof -
  have t: "TrimSpace ''b'' \<noteq> ''''" "TrimSpace ''x'' \<noteq> ''''" by (simp_all add: TrimSpace_plain plain_char_def)
  have ok: "hots_ok [(hp_Key demo_hot, demo_hot)]"
    by (simp add: hots_ok_def keyed_ok_def keys_distinct_def hot_ok_def demo_hot_def new_hot_def)
  have "(hp_Key demo_hot, demo_hot) \<in> set (pruneHotPathsLocked [(hp_Key demo_hot, demo_hot)] 2)"
    by (simp add: pruneHotPathsLocked_def expired_hot_def demo_hot_def lanHotPathTTL_def time_Sub_def duration_defs)
  from learned_paths_roundtrip [OF ok this, of "\<lambda>_. None" 9 "\<lambda>_. ''''" "''a''" 1] t show ?thesis
    by (auto simp: demo_hot_def new_hot_def)
qed

end
