(* ===== verification/LanPeer.thy ===== *)
theory LanPeer
  imports HotPaths Link Transport LanIdentity Protocol
begin

text \<open>
  The peer-to-peer side of the LAN agent, \<^verbatim>\<open>lanP2P\<close> of \<^verbatim>\<open>cmd/UDPTunnelLAN/packet_runtime.go\<close>: for every
  peer a small state machine of atomic flags that goes from registering over punching to a datagram
  path, a KCP tunnel or the relay.

  \<^item> \<open>lanP2P\<close> and \<open>lanP2PPeer\<close> have the fields of the structs.  The map of peers is an association list; a
    pointer to a peer is its id, which is its key in the map, since peers are never removed.
  \<^item> An operation returns the new state and its effects: what it writes to the socket, to the TUN
    adapter and to the tunnels, and the goroutines it starts.  A goroutine that waits (for a timer, for
    a tunnel to open, for a frame) is one definition per step between two waits.
  \<^item> Addresses are texts, as the code compares and prints them.  \<open>pr_kcp\<close> names a tunnel connection by a
    number, \<open>pr_pc\<close> only says whether the packet connection is there.
  \<^item> \<open>pr_throughputTx\<close> and \<open>pr_throughputRx\<close> say whether the pointers are set: they are only ever assigned
    from \<open>pr_tx\<close> and \<open>pr_rx\<close>, so they are the same objects, with the same sequence numbers.
  \<^item> Parameters: \<open>p2p_crypto\<close> has X25519, HKDF, HMAC, the AEAD and Ed25519; \<open>resolve\<close> is \<^verbatim>\<open>net.ResolveUDPAddr\<close>;
    \<open>now\<close> is \<^verbatim>\<open>time.Now\<close>.
\<close>

subsection \<open>Time\<close>

definition unix_epoch :: time where "unix_epoch = 62135596800 * Second"

definition UnixNano :: "time \<Rightarrow> int" where
  "UnixNano t = t - unix_epoch"

definition unix_nano_time :: "int \<Rightarrow> time" where
  "unix_nano_time ns = ns + unix_epoch"

definition lanPunchTimeout :: duration where "lanPunchTimeout = 30 * Second"

definition lanTunnelRetryDelay :: duration where "lanTunnelRetryDelay = 3 * Second"

definition lanRelayRotateAfter :: uint64 where "lanRelayRotateAfter = 3"

definition lanRelayMaxAge :: duration where "lanRelayMaxAge = 60 * Second"

definition lanRotationCooldown :: duration where "lanRotationCooldown = 60 * Second"

definition lanLongPunchInterval :: duration where "lanLongPunchInterval = 2 * Second"

definition lanActiveTrafficTTL :: duration where "lanActiveTrafficTTL = 30 * Second"

definition lanDatagramReadyFrame :: string where "lanDatagramReadyFrame = ''UDPTunnelLAN-DATAGRAM-READY''"

definition lanPathP2PDatagram :: string where "lanPathP2PDatagram = ''p2p_datagram''"

definition lanPathP2PKCP :: string where "lanPathP2PKCP = ''p2p_kcp''"

definition lanPathRelayUDP :: string where "lanPathRelayUDP = ''relay_udp''"

definition lanPathRelayHTTP :: string where "lanPathRelayHTTP = ''relay_http''"

definition lanPunchSignalNone :: uint32 where "lanPunchSignalNone = 0"

definition lanPunchSignalIncoming :: uint32 where "lanPunchSignalIncoming = 1"

definition lanPunchSignalAck :: uint32 where "lanPunchSignalAck = 2"

subsection \<open>State\<close>

record lanP2PPeer =
  pr_id :: string
  pr_publicKey :: string
  pr_x25519Pub :: string
  pr_addr :: "string option"
  pr_upnpAddr :: "string option"
  pr_punched :: bool
  pr_punching :: bool
  pr_datagramReady :: bool
  pr_connected :: bool
  pr_isRelay :: bool
  pr_longPunching :: bool
  pr_registers :: uint64
  pr_openFailures :: uint64
  pr_punchSignals :: uint32
  pr_relaySince :: int
  pr_lastTrafficAt :: int
  pr_lastTrafficClass :: "string option"
  pr_tx :: "Codec option"
  pr_rx :: "Codec option"
  pr_throughputTx :: bool
  pr_throughputRx :: bool
  pr_pc :: bool
  pr_throughputPC :: bool
  pr_kcp :: "nat option"
  pr_throughputKCP :: "nat option"

record lanP2P =
  p2_conn :: bool
  p2_upnpAddr :: string
  p2_peers :: "(string \<times> lanP2PPeer) list"
  p2_peerConv :: "uint32 \<rightharpoonup> string"
  p2_peerConvProfile :: "uint32 \<rightharpoonup> string"
  p2_server :: string
  p2_pathPolicy :: lanPathPolicyConfig
  p2_tcpFastPath :: string
  p2_deviceID :: string
  p2_identity :: Identity
  p2_router :: Router
  p2_link :: LinkManager
  p2_x25519Priv :: bytes
  p2_x25519Pub :: string
  p2_registering :: "string \<Rightarrow> bool"
  p2_relayTimers :: "string \<Rightarrow> bool"
  p2_openRetries :: "string \<Rightarrow> bool"
  p2_sessionIntents :: intents
  p2_hotPaths :: hot_paths
  p2_readLoopGen :: uint64
  p2_rotating :: bool
  p2_lastRotation :: int
  p2_rotationCount :: uint64
  p2_lastRotationReason :: "string option"
  p2_natType :: "string option"

datatype goroutine =
    RegisterLoop string
  | PunchLoop string
  | RelayFallbackTimer string
  | EnableRelayMode string string
  | OpenTunnel string
  | OpenRetry string
  | OpenThroughputTunnel string
  | ReadTunnelFrames string nat
  | ReadThroughputTunnelFrames string nat
  | RotateSocket string
  | ReadLoop uint64

datatype p2p_effect =
    Control string Message
  | Datagram string bytes
  | ToAdapter bytes
  | KCPWrite nat bytes
  | FeedPacketConn string bool bytes
  | CloseKCP nat
  | Go goroutine

record p2p_crypto =
  pc_X25519 :: "bytes \<Rightarrow> bytes \<Rightarrow> bytes option"
  pc_hkdf :: "bytes \<Rightarrow> bytes \<Rightarrow> bytes \<Rightarrow> string + bytes"
  pc_aead :: "bytes \<Rightarrow> string + cipherAEAD"
  pc_hmac :: "bytes \<Rightarrow> bytes \<Rightarrow> bytes"
  pc_ed :: ed25519

definition new_peer :: "string \<Rightarrow> string \<Rightarrow> lanP2PPeer" where
  "new_peer peerID publicKey = \<lparr>pr_id = peerID, pr_publicKey = publicKey, pr_x25519Pub = '''', pr_addr = None, pr_upnpAddr = None,
     pr_punched = False, pr_punching = False, pr_datagramReady = False, pr_connected = False, pr_isRelay = False,
     pr_longPunching = False, pr_registers = 0, pr_openFailures = 0, pr_punchSignals = 0, pr_relaySince = 0, pr_lastTrafficAt = 0,
     pr_lastTrafficClass = None, pr_tx = None, pr_rx = None, pr_throughputTx = False, pr_throughputRx = False, pr_pc = False,
     pr_throughputPC = False, pr_kcp = None, pr_throughputKCP = None\<rparr>"

definition p2p_peer :: "lanP2P \<Rightarrow> string \<Rightarrow> lanP2PPeer option" where
  "p2p_peer p i = map_of (p2_peers p) i"

text \<open>Writing through the pointer to a peer.\<close>

definition set_peer :: "lanP2PPeer \<Rightarrow> lanP2P \<Rightarrow> lanP2P" where
  "set_peer peer p = p\<lparr>p2_peers := AList.update (pr_id peer) peer (p2_peers p)\<rparr>"

definition writeControl_p2p :: "lanP2P \<Rightarrow> string \<Rightarrow> Message \<Rightarrow> p2p_effect list" where
  "writeControl_p2p p dst msg = (if p2_conn p then [Control dst msg] else [])"

subsection \<open>Codecs\<close>

definition lanPeerCodecsFromX25519 ::
  "p2p_crypto \<Rightarrow> bytes \<Rightarrow> string \<Rightarrow> string \<Rightarrow> string \<Rightarrow> (string + packet_error) + Codec \<times> Codec"
where
  "lanPeerCodecsFromX25519 cr selfPriv peerPub selfID peerID =
     (case DecodeString peerPub of
        None \<Rightarrow> Inl (Inl ''bad peer x25519 public key'')
      | Some peerRaw \<Rightarrow>
          if length peerRaw \<noteq> 32 then Inl (Inl ''bad peer x25519 public key'')
          else (case pc_X25519 cr selfPriv peerRaw of
                  None \<Rightarrow> Inl (Inl ''x25519'')
                | Some secret \<Rightarrow>
                    (case DeriveSessionKeys (pc_hkdf cr) secret 0 ''x25519-v1'' selfID peerID of
                       Inl err \<Rightarrow> Inl (Inr err)
                     | Inr keys \<Rightarrow>
                         let (txKey, rxKey) = (if selfID < peerID then (keys_AB keys, keys_BA keys) else (keys_BA keys, keys_AB keys)) in
                         (case NewCodec (pc_aead cr) txKey 0 TypeIPv4 of
                            Inl err \<Rightarrow> Inl (Inr err)
                          | Inr tx \<Rightarrow>
                              (case NewCodec (pc_aead cr) rxKey 0 TypeIPv4 of
                                 Inl err \<Rightarrow> Inl (Inr err)
                               | Inr rx \<Rightarrow> Inr (tx, rx))))))"

definition ensurePeerCodecs :: "p2p_crypto \<Rightarrow> lanP2P \<Rightarrow> lanP2PPeer \<Rightarrow> lanP2PPeer" where
  "ensurePeerCodecs cr p peer =
     (if pr_tx peer \<noteq> None \<and> pr_rx peer \<noteq> None then peer
      else if TrimSpace (pr_x25519Pub peer) = '''' then peer
      else (case lanPeerCodecsFromX25519 cr (p2_x25519Priv p) (pr_x25519Pub peer) (p2_deviceID p) (pr_id peer) of
              Inl _ \<Rightarrow> peer
            | Inr (tx, rx) \<Rightarrow> peer\<lparr>pr_tx := Some tx, pr_rx := Some rx\<rparr>))"

subsection \<open>Punching\<close>

definition hasActiveTraffic :: "lanP2PPeer \<Rightarrow> duration \<Rightarrow> time \<Rightarrow> bool" where
  "hasActiveTraffic peer ttl now \<longleftrightarrow>
     \<not> (ttl \<le> 0) \<and> \<not> (pr_lastTrafficAt peer \<le> 0) \<and> time_Sub now (unix_nano_time (pr_lastTrafficAt peer)) \<le> ttl"

definition startPunchLoop :: "lanP2P \<Rightarrow> lanP2PPeer \<Rightarrow> lanP2PPeer \<times> p2p_effect list" where
  "startPunchLoop p peer = (if pr_punching peer then (peer, []) else (peer\<lparr>pr_punching := True\<rparr>, [Go (PunchLoop (pr_id peer))]))"

definition punch_message :: "lanP2P \<Rightarrow> string \<Rightarrow> Message" where
  "punch_message p kind = no_message\<lparr>msg_Type := kind, msg_From := p2_deviceID p, msg_Profile := ProfileLANPacket,
     msg_Payload := lanDatagramReadyFrame\<rparr>"

text \<open>One tick of the loop: the peer, what is sent, and the interval to the next tick, or \<open>None\<close> when the loop ends.\<close>

definition punchLoop_tick :: "lanP2P \<Rightarrow> lanP2PPeer \<Rightarrow> duration \<Rightarrow> time \<Rightarrow> lanP2PPeer \<times> p2p_effect list \<times> duration option" where
  "punchLoop_tick p peer interval now =
     (if pr_punched peer then (peer, [], None)
      else (case pr_addr peer of
              None \<Rightarrow> (peer, [], Some interval)
            | Some addr \<Rightarrow>
                let msg = punch_message p MsgPunch;
                    out = writeControl_p2p p addr msg
                          @ (case pr_upnpAddr peer of None \<Rightarrow> [] | Some upnpAddr \<Rightarrow> if upnpAddr \<noteq> addr then writeControl_p2p p upnpAddr msg else []);
                    interval = (if pr_longPunching peer then lanLongPunchInterval else interval)
                in if pr_longPunching peer \<and> \<not> hasActiveTraffic peer lanActiveTrafficTTL now
                   then (peer\<lparr>pr_longPunching := False, pr_punching := False\<rparr>, out, None)
                   else (peer, out, Some interval)))"


subsection \<open>Hot paths and readiness\<close>

definition rememberHotPath :: "lanP2P \<Rightarrow> string \<Rightarrow> string \<Rightarrow> time \<Rightarrow> lanP2P" where
  "rememberHotPath p i path now =
     (case p2p_peer p i of
        None \<Rightarrow> p
      | Some peer \<Rightarrow>
          if pr_isRelay peer then p
          else (case pr_addr peer of
                  None \<Rightarrow> p
                | Some addr \<Rightarrow>
                    let (im, hm) = rememberHotPath_at (p2_sessionIntents p) (p2_hotPaths p) (pr_id peer) addr path now
                    in p\<lparr>p2_sessionIntents := im, p2_hotPaths := hm\<rparr>))"

definition both_signals :: uint32 where
  "both_signals = lanPunchSignalIncoming OR lanPunchSignalAck"

definition markDatagramReadyIfConfirmed :: "lanP2P \<Rightarrow> string \<Rightarrow> time \<Rightarrow> lanP2P \<times> bool" where
  "markDatagramReadyIfConfirmed p i now =
     (case p2p_peer p i of
        None \<Rightarrow> (p, False)
      | Some peer \<Rightarrow>
          if pr_tx peer = None \<or> pr_rx peer = None then (p, False)
          else if pr_punchSignals peer AND both_signals \<noteq> both_signals then (p, False)
          else (rememberHotPath (set_peer (peer\<lparr>pr_datagramReady := True\<rparr>) p) i lanPathP2PDatagram now, True))"

definition markPunchSignal :: "lanP2P \<Rightarrow> string \<Rightarrow> uint32 \<Rightarrow> time \<Rightarrow> lanP2P \<times> bool" where
  "markPunchSignal p i signal now =
     (case p2p_peer p i of
        None \<Rightarrow> (p, False)
      | Some peer \<Rightarrow>
          if signal = lanPunchSignalNone then (p, False)
          else markDatagramReadyIfConfirmed (set_peer (peer\<lparr>pr_punchSignals := pr_punchSignals peer OR signal\<rparr>) p) i now)"

definition udp_relay :: PeerEndpoint where
  "udp_relay = no_endpoint\<lparr>pe_Addr := ''udp-relay''\<rparr>"

definition link_upsert :: "lanP2P \<Rightarrow> time \<Rightarrow> string \<Rightarrow> string \<Rightarrow> bool \<Rightarrow> lanP2P" where
  "link_upsert p now device addr ready =
     p\<lparr>p2_link := fst (UpsertPeer (p2_link p) now (no_endpoint\<lparr>pe_DeviceID := device, pe_Addr := addr\<rparr>) udp_relay ready)\<rparr>"

definition useDatagramFastPath :: "lanP2P \<Rightarrow> string \<Rightarrow> time \<Rightarrow> lanP2P \<times> bool" where
  "useDatagramFastPath p i now =
     (case p2p_peer p i of
        None \<Rightarrow> (p, False)
      | Some peer \<Rightarrow>
          if \<not> pr_datagramReady peer \<or> pr_tx peer = None \<or> pr_rx peer = None then (p, False)
          else if pr_isRelay peer \<and> pp_RelayOnly (p2_pathPolicy p) then (p, False)
          else (case pr_addr peer of
                  None \<Rightarrow> (p, False)
                | Some addr \<Rightarrow>
                    let p = set_peer (peer\<lparr>pr_isRelay := False, pr_relaySince := 0\<rparr>) p;
                        p = link_upsert p now (pr_id peer) addr True
                    in (rememberHotPath p i lanPathP2PDatagram now, True)))"

definition openTunnelUnlessDatagramReady :: "lanP2P \<Rightarrow> string \<Rightarrow> time \<Rightarrow> lanP2P \<times> p2p_effect list" where
  "openTunnelUnlessDatagramReady p i now =
     (if pp_RelayOnly (p2_pathPolicy p) then (p, [])
      else (case useDatagramFastPath p i now of
              (p, True) \<Rightarrow> (p, [])
            | (p, False) \<Rightarrow> (p, [Go (OpenTunnel i)])))"

subsection \<open>Relay mode, timers and socket rotation\<close>

definition enableLongPunching :: "lanP2P \<Rightarrow> string \<Rightarrow> lanP2P \<times> p2p_effect list" where
  "enableLongPunching p i =
     (case p2p_peer p i of
        None \<Rightarrow> (p, [])
      | Some peer \<Rightarrow>
          if pr_datagramReady peer \<or> pr_connected peer then (p, [])
          else
            let peer = peer\<lparr>pr_longPunching := True, pr_isRelay := False, pr_relaySince := 0, pr_punched := False, pr_punching := False\<rparr>;
                (peer, out) = startPunchLoop p peer
            in (set_peer peer p, out))"

definition enableRelayMode :: "lanP2P \<Rightarrow> string \<Rightarrow> time \<Rightarrow> lanP2P \<times> p2p_effect list" where
  "enableRelayMode p i now =
     (if \<not> relayAvailable (p2_pathPolicy p) then enableLongPunching p i
      else (case p2p_peer p i of
              None \<Rightarrow> (p, [])
            | Some peer \<Rightarrow>
                if pr_punched peer then (p, [])
                else
                  let peer = peer\<lparr>pr_longPunching := False, pr_addr := Some (p2_server p), pr_isRelay := True, pr_relaySince := UnixNano now,
                                  pr_pc := pr_pc peer \<or> p2_conn p, pr_punched := True\<rparr>
                  in (set_peer peer p, if pp_RelayOnly (p2_pathPolicy p) then [] else [Go (OpenTunnel i)])))"

definition relayFallbackTimer_fires :: "lanP2P \<Rightarrow> string \<Rightarrow> time \<Rightarrow> lanP2P \<times> p2p_effect list" where
  "relayFallbackTimer_fires p i now =
     (let p = p\<lparr>p2_relayTimers := (p2_relayTimers p)(i := False)\<rparr> in
      if \<not> relayAvailable (p2_pathPolicy p) then enableLongPunching p i else enableRelayMode p i now)"

definition resetRelayTimer :: "lanP2P \<Rightarrow> string \<Rightarrow> lanP2P \<times> p2p_effect list" where
  "resetRelayTimer p i =
     (if p2_relayTimers p i then (p, [])
      else (p\<lparr>p2_relayTimers := (p2_relayTimers p)(i := True)\<rparr>, [Go (RelayFallbackTimer i)]))"

definition scheduleOpenRetry :: "lanP2P \<Rightarrow> string \<Rightarrow> lanP2P \<times> p2p_effect list" where
  "scheduleOpenRetry p i =
     (if p2_openRetries p i then (p, [])
      else (p\<lparr>p2_openRetries := (p2_openRetries p)(i := True)\<rparr>, [Go (OpenRetry i)]))"

definition openRetry_fires :: "lanP2P \<Rightarrow> string \<Rightarrow> time \<Rightarrow> lanP2P \<times> p2p_effect list" where
  "openRetry_fires p i now =
     (let p = p\<lparr>p2_openRetries := (p2_openRetries p)(i := False)\<rparr> in
      case p2p_peer p i of
        None \<Rightarrow> (p, [])
      | Some peer \<Rightarrow>
          if pr_connected peer \<or> \<not> pr_punched peer then (p, [])
          else (case useDatagramFastPath p i now of
                  (p, True) \<Rightarrow> (p, [])
                | (p, False) \<Rightarrow> (p, [Go (OpenTunnel i)])))"

definition hasReadyPeer :: "lanP2P \<Rightarrow> string \<Rightarrow> bool" where
  "hasReadyPeer p except \<longleftrightarrow> (\<exists>(i, peer) \<in> set (p2_peers p). i \<noteq> except \<and> pr_connected peer \<and> pr_kcp peer \<noteq> None)"

text \<open>The reason handed to the rotation is the short one; the code appends the peer, the failures and the
  age of the relay for the log.\<close>

definition maybeRotateSocketAfterRelayFailure :: "lanP2P \<Rightarrow> string \<Rightarrow> string \<Rightarrow> time \<Rightarrow> lanP2P \<times> p2p_effect list \<times> bool" where
  "maybeRotateSocketAfterRelayFailure p i reason now =
     (case p2p_peer p i of
        None \<Rightarrow> (p, [], False)
      | Some peer \<Rightarrow>
          if \<not> pr_isRelay peer \<or> \<not> relayAvailable (p2_pathPolicy p) \<or> hasActiveTraffic peer lanActiveTrafficTTL now then (p, [], False)
          else
            let failures = pr_openFailures peer + 1;
                p = set_peer (peer\<lparr>pr_openFailures := failures\<rparr>) p;
                relayAge = (if 0 < pr_relaySince peer then time_Sub now (unix_nano_time (pr_relaySince peer)) else 0)
            in if failures < lanRelayRotateAfter \<and> relayAge < lanRelayMaxAge then (p, [], False)
               else if hasReadyPeer p (pr_id peer) then (p, [], False)
               else (p, [Go (RotateSocket reason)], True))"

definition reset_peer :: "lanP2PPeer \<Rightarrow> lanP2PPeer" where
  "reset_peer peer = peer\<lparr>pr_kcp := None, pr_pc := False, pr_connected := False, pr_punched := False, pr_punching := False, pr_isRelay := False,
     pr_datagramReady := False, pr_longPunching := False, pr_punchSignals := 0, pr_openFailures := 0, pr_relaySince := 0,
     pr_addr := None, pr_upnpAddr := None\<rparr>"

fun reset_loop :: "string list \<Rightarrow> lanP2P \<Rightarrow> lanP2P \<times> p2p_effect list" where
  "reset_loop [] p = (p, [])"
| "reset_loop (i # is) p =
     (case p2p_peer p i of
        None \<Rightarrow> reset_loop is p
      | Some peer \<Rightarrow>
          let closed = (case pr_kcp peer of None \<Rightarrow> [] | Some c \<Rightarrow> [CloseKCP c]);
              (p, out) = resetRelayTimer (set_peer (reset_peer peer) p) i;
              (p, rest) = reset_loop is p
          in (p, closed @ out @ rest))"

definition resetAllPeersAfterSocketRotation :: "lanP2P \<Rightarrow> lanP2P \<times> p2p_effect list" where
  "resetAllPeersAfterSocketRotation p =
     reset_loop (map fst (p2_peers p)) (p\<lparr>p2_relayTimers := (\<lambda>_. False), p2_openRetries := (\<lambda>_. False)\<rparr>)"

definition register_message :: "p2p_crypto \<Rightarrow> lanP2P \<Rightarrow> string \<Rightarrow> int \<Rightarrow> Message option" where
  "register_message cr p peerID ts =
     (case SignRegisterPayload (pc_ed cr) (p2_identity p) (p2_deviceID p) peerID ProfileLANPacket ts (p2_x25519Pub p) of
        Inl _ \<Rightarrow> None
      | Inr sig \<Rightarrow>
          Some (no_message\<lparr>msg_Type := MsgLANRegister, msg_From := p2_deviceID p, msg_Peer := peerID, msg_Profile := ProfileLANPacket,
            msg_UpnpAddr := p2_upnpAddr p, msg_Payload := p2_x25519Pub p, msg_Timestamp := ts, msg_Signature := sig\<rparr>))"

definition writeLANRegister :: "p2p_crypto \<Rightarrow> lanP2P \<Rightarrow> string \<Rightarrow> time \<Rightarrow> lanP2P \<times> p2p_effect list" where
  "writeLANRegister cr p i now =
     (case p2p_peer p i of
        None \<Rightarrow> (p, [])
      | Some peer \<Rightarrow>
          (case register_message cr p i (UnixNano now div Second) of
             None \<Rightarrow> (p, [])
           | Some msg \<Rightarrow> (set_peer (peer\<lparr>pr_registers := pr_registers peer + 1\<rparr>) p, writeControl_p2p p (p2_server p) msg)))"

fun register_all :: "p2p_crypto \<Rightarrow> string list \<Rightarrow> lanP2P \<Rightarrow> time \<Rightarrow> lanP2P \<times> p2p_effect list" where
  "register_all cr [] p now = (p, [])"
| "register_all cr (i # is) p now =
     (let (p, out) = writeLANRegister cr p i now; (p, rest) = register_all cr is p now in (p, out @ rest))"

definition reregisterAllPeers :: "p2p_crypto \<Rightarrow> lanP2P \<Rightarrow> time \<Rightarrow> lanP2P \<times> p2p_effect list" where
  "reregisterAllPeers cr p now = register_all cr (map fst (p2_peers p)) p now"

definition startReadLoop :: "lanP2P \<Rightarrow> lanP2P \<times> p2p_effect list" where
  "startReadLoop p =
     (if \<not> p2_conn p then (p, [])
      else (p\<lparr>p2_readLoopGen := p2_readLoopGen p + 1\<rparr>, [Go (ReadLoop (p2_readLoopGen p + 1))]))"

text \<open>\<open>listens\<close> says whether a new socket could be opened, \<open>upnp\<close> is the address of its UPnP mapping.  The flag
  \<open>p2_rotating\<close> is set during the call only.\<close>

definition rotateSocketAndRestartPunch ::
  "p2p_crypto \<Rightarrow> lanP2P \<Rightarrow> string \<Rightarrow> bool \<Rightarrow> string \<Rightarrow> time \<Rightarrow> lanP2P \<times> p2p_effect list"
where
  "rotateSocketAndRestartPunch cr p reason listens upnp now =
     (if p2_rotating p then (p, [])
      else
        let last = unix_nano_time (p2_lastRotation p) in
        if \<not> IsZero last \<and> time_Sub now last < lanRotationCooldown then (p, [])
        else if \<not> listens then (p, [])
        else
          let p = p\<lparr>p2_conn := True, p2_upnpAddr := upnp, p2_lastRotation := UnixNano now, p2_rotationCount := p2_rotationCount p + 1,
                    p2_lastRotationReason := Some reason\<rparr>;
              (p, out1) = resetAllPeersAfterSocketRotation p;
              (p, out2) = startReadLoop p;
              (p, out3) = reregisterAllPeers cr p now
          in (p, out1 @ out2 @ out3))"

definition enableRelayForBadNAT :: "lanP2P \<Rightarrow> time \<Rightarrow> lanP2P \<times> p2p_effect list" where
  "enableRelayForBadNAT p now =
     (if p2_natType p \<noteq> Some ''symmetric_nat'' then (p, [])
      else fold (\<lambda>i (p, out). let (p, more) = enableRelayMode p i now in (p, out @ more)) (map fst (p2_peers p)) (p, []))"

definition stunPort :: "string \<Rightarrow> int" where
  "stunPort addr =
     (case SplitHostPort (TrimSpace addr) of
        None \<Rightarrow> 0
      | Some (_, port) \<Rightarrow> (case Atoi port of None \<Rightarrow> 0 | Some n \<Rightarrow> n))"

text \<open>The NAT type from the two answers of the STUN servers; \<open>None\<close> is no answer.\<close>

definition detectLANNAT :: "int \<Rightarrow> string option \<Rightarrow> string option \<Rightarrow> string" where
  "detectLANNAT altPort primary secondary =
     (if altPort \<le> 0 then ''unknown''
      else (case (primary, secondary) of
              (Some a, Some b) \<Rightarrow>
                if stunPort a \<noteq> 0 \<and> stunPort b \<noteq> 0 \<and> stunPort a \<noteq> stunPort b then ''symmetric_nat'' else ''stable_mapping''
            | _ \<Rightarrow> ''unknown''))"


subsection \<open>Tunnels\<close>

definition resetPeerAfterOpenFailure :: "lanP2P \<Rightarrow> string \<Rightarrow> nat option \<Rightarrow> time \<Rightarrow> lanP2P \<times> p2p_effect list" where
  "resetPeerAfterOpenFailure p i kcpConn now =
     (case p2p_peer p i of
        None \<Rightarrow> (p, [])
      | Some peer \<Rightarrow>
          let closed = (case kcpConn of None \<Rightarrow> [] | Some c \<Rightarrow> [CloseKCP c]);
              peer = (if pr_kcp peer = kcpConn then peer\<lparr>pr_kcp := None\<rparr> else peer);
              peer = peer\<lparr>pr_connected := False, pr_pc := False\<rparr>
          in if pr_isRelay peer then
               let p = set_peer (peer\<lparr>pr_addr := Some (p2_server p), pr_pc := p2_conn p, pr_punched := True, pr_punching := False\<rparr>) p in
               (case maybeRotateSocketAfterRelayFailure p i ''relay_open_failed'' now of
                  (p, out, True) \<Rightarrow> (p, closed @ out)
                | (p, out, False) \<Rightarrow> let (p, retry) = scheduleOpenRetry p i in (p, closed @ out @ retry))
             else
               let p = set_peer (peer\<lparr>pr_punched := False, pr_punching := False, pr_datagramReady := False, pr_punchSignals := 0\<rparr>) p;
                   (p, out) = resetRelayTimer p i
               in (p, closed @ out))"

text \<open>\<^verbatim>\<open>openTunnel\<close> up to the call of \<^verbatim>\<open>tunnel.Open\<close>; the last component says whether it gets there.\<close>

definition openTunnel_begin :: "lanP2P \<Rightarrow> string \<Rightarrow> time \<Rightarrow> lanP2P \<times> bool" where
  "openTunnel_begin p i now =
     (case useDatagramFastPath p i now of
        (p, True) \<Rightarrow> (p, False)
      | (p, False) \<Rightarrow>
          (case p2p_peer p i of
             None \<Rightarrow> (p, False)
           | Some peer \<Rightarrow>
               if pr_connected peer then (p, False)
               else (set_peer (peer\<lparr>pr_connected := True, pr_pc := pr_pc peer \<or> p2_conn p\<rparr>) p, True)))"

text \<open>What \<^verbatim>\<open>tunnel.Open\<close> and the check of readiness gave: no connection, a connection that is not ready, or
  a ready one.\<close>

datatype open_result = OpenFailed | NotReady nat | Ready nat

definition valueOrDash :: "string \<Rightarrow> string" where
  "valueOrDash v = (if TrimSpace v = '''' then ''-'' else TrimSpace v)"

definition shouldOpenThroughputFastPath :: "lanP2P \<Rightarrow> bool" where
  "shouldOpenThroughputFastPath p \<longleftrightarrow> TrimSpace (p2_tcpFastPath p) \<noteq> ''off''"

definition openTunnel_end :: "lanP2P \<Rightarrow> string \<Rightarrow> open_result \<Rightarrow> time \<Rightarrow> lanP2P \<times> p2p_effect list" where
  "openTunnel_end p i res now =
     (case res of
        OpenFailed \<Rightarrow> resetPeerAfterOpenFailure p i None now
      | NotReady c \<Rightarrow> resetPeerAfterOpenFailure p i (Some c) now
      | Ready c \<Rightarrow>
          (case p2p_peer p i of
             None \<Rightarrow> (p, [])
           | Some peer \<Rightarrow>
               let p = set_peer (peer\<lparr>pr_kcp := Some c, pr_openFailures := 0, pr_relaySince := 0\<rparr>) p;
                   addr = (case pr_addr peer of None \<Rightarrow> '''' | Some a \<Rightarrow> a);
                   p = link_upsert p now (pr_id peer) (valueOrDash addr) (\<not> pr_isRelay peer);
                   p = (if pr_isRelay peer then p else rememberHotPath p i lanPathP2PKCP now)
               in (p, Go (ReadTunnelFrames i c) # (if shouldOpenThroughputFastPath p then [Go (OpenThroughputTunnel i)] else []))))"

definition openThroughputTunnel_begin :: "lanP2P \<Rightarrow> string \<Rightarrow> lanP2P \<times> bool" where
  "openThroughputTunnel_begin p i =
     (case p2p_peer p i of
        None \<Rightarrow> (p, False)
      | Some peer \<Rightarrow>
          let peer = peer\<lparr>pr_throughputPC := pr_throughputPC peer \<or> p2_conn p, pr_throughputTx := pr_tx peer \<noteq> None,
                          pr_throughputRx := pr_rx peer \<noteq> None\<rparr>
          in (set_peer peer p, pr_throughputPC peer))"

definition openThroughputTunnel_end :: "lanP2P \<Rightarrow> string \<Rightarrow> open_result \<Rightarrow> lanP2P \<times> p2p_effect list" where
  "openThroughputTunnel_end p i res =
     (case (p2p_peer p i, res) of
        (Some peer, Ready c) \<Rightarrow>
          (set_peer (peer\<lparr>pr_throughputKCP := Some c, pr_throughputTx := pr_tx peer \<noteq> None, pr_throughputRx := pr_rx peer \<noteq> None\<rparr>) p,
           [Go (ReadThroughputTunnelFrames i c)])
      | (_, NotReady c) \<Rightarrow> (p, [CloseKCP c])
      | _ \<Rightarrow> (p, []))"

text \<open>A packet that came in: it is counted by the router and by the link, and handed to the adapter.\<close>

definition inbound_frame :: "string \<Rightarrow> string \<Rightarrow> bytes \<Rightarrow> RoutedFrame" where
  "inbound_frame src dst payload = \<lparr>rf_NetworkID = 0, rf_SrcDevice = src, rf_DstDevice = dst, rf_PacketType = TypeIPv4, rf_Payload = payload,
     rf_Header = empty_header\<rparr>"

definition inbound :: "lanP2P \<Rightarrow> string \<Rightarrow> bytes \<Rightarrow> string \<Rightarrow> time \<Rightarrow> lanP2P \<times> p2p_effect list" where
  "inbound p i payload path now =
     (p\<lparr>p2_router := the (RecordInbound (Some (p2_router p)) (inbound_frame i (p2_deviceID p) payload)),
        p2_link := fst (Receive (p2_link p) now i payload path)\<rparr>, [ToAdapter payload])"

text \<open>A frame read from the tunnel \<open>c\<close> by \<^verbatim>\<open>readTunnelFrames\<close>, or the error that ends the loop.  \<open>None\<close> is a panic of
  the codec, which \<open>Codec_Open_step\<close> excludes.\<close>

definition readTunnelFrames_frame :: "lanP2P \<Rightarrow> string \<Rightarrow> bytes \<Rightarrow> time \<Rightarrow> (lanP2P \<times> p2p_effect list) option" where
  "readTunnelFrames_frame p i payload now =
     (case p2p_peer p i of
        None \<Rightarrow> Some (p, [])
      | Some peer \<Rightarrow>
          let path = (if pr_isRelay peer then LinkPathRelay else LinkPathP2P) in
          (case pr_rx peer of
             None \<Rightarrow> Some (inbound p i payload path now)
           | Some rx \<Rightarrow> do {
               (rx, res) \<leftarrow> Codec_Open (Some rx) payload;
               let p = set_peer (peer\<lparr>pr_rx := rx\<rparr>) p;
               (case res of Inl _ \<Rightarrow> Some (p, []) | Inr plain \<Rightarrow> Some (inbound p i plain path now)) }))"

definition readTunnelFrames_error :: "lanP2P \<Rightarrow> string \<Rightarrow> nat \<Rightarrow> lanP2P \<times> p2p_effect list" where
  "readTunnelFrames_error p i c =
     (case p2p_peer p i of
        None \<Rightarrow> (p, [CloseKCP c])
      | Some peer \<Rightarrow>
          if pr_kcp peer = Some c then
            let p = set_peer (peer\<lparr>pr_kcp := None, pr_connected := False, pr_punched := False, pr_punching := False, pr_isRelay := False,
                              pr_datagramReady := False, pr_punchSignals := 0\<rparr>) p;
                p = p\<lparr>p2_hotPaths := markHotPathsForPeerFailed (p2_hotPaths p) (pr_id peer) ''kcp_read_failed''\<rparr>;
                (p, out) = resetRelayTimer p i
            in (p, out @ [CloseKCP c])
          else (p, [CloseKCP c]))"

definition readThroughputTunnelFrames_frame :: "lanP2P \<Rightarrow> string \<Rightarrow> bytes \<Rightarrow> time \<Rightarrow> (lanP2P \<times> p2p_effect list) option" where
  "readThroughputTunnelFrames_frame p i payload now =
     (case p2p_peer p i of
        None \<Rightarrow> Some (p, [])
      | Some peer \<Rightarrow>
          if \<not> pr_throughputRx peer then Some (inbound p i payload LinkPathP2P now)
          else do {
            (rx, res) \<leftarrow> Codec_Open (pr_rx peer) payload;
            let p = set_peer (peer\<lparr>pr_rx := rx\<rparr>) p;
            (case res of Inl _ \<Rightarrow> Some (p, []) | Inr plain \<Rightarrow> Some (inbound p i plain LinkPathP2P now)) })"

definition readThroughputTunnelFrames_error :: "lanP2P \<Rightarrow> string \<Rightarrow> nat \<Rightarrow> lanP2P \<times> p2p_effect list" where
  "readThroughputTunnelFrames_error p i c =
     (case p2p_peer p i of
        None \<Rightarrow> (p, [CloseKCP c])
      | Some peer \<Rightarrow>
          (if pr_throughputKCP peer = Some c then set_peer (peer\<lparr>pr_throughputKCP := None, pr_throughputPC := False\<rparr>) p else p, [CloseKCP c]))"

subsection \<open>Datagrams\<close>

definition handleDatagramFrame :: "lanP2P \<Rightarrow> string \<Rightarrow> bytes \<Rightarrow> time \<Rightarrow> (lanP2P \<times> p2p_effect list) option" where
  "handleDatagramFrame p i data now =
     (case p2p_peer p i of
        None \<Rightarrow> Some (p, [])
      | Some peer \<Rightarrow>
          if pr_rx peer = None then Some (p, [])
          else do {
            (rx, res) \<leftarrow> Transport_Open (pr_rx peer) data;
            let p = set_peer (peer\<lparr>pr_rx := rx\<rparr>) p;
            (case res of Inl _ \<Rightarrow> Some (p, []) | Inr payload \<Rightarrow> Some (inbound p i payload LinkPathP2P now)) })"

definition handleUDPRelayFrame :: "lanP2P \<Rightarrow> bytes \<Rightarrow> time \<Rightarrow> (lanP2P \<times> p2p_effect list) option" where
  "handleUDPRelayFrame p data now = do {
     res \<leftarrow> UnpackRelayFrameView data;
     (case res of
        Inl _ \<Rightarrow> Some (p, [])
      | Inr frame \<Rightarrow>
          (case p2p_peer p (rl_SrcDevice frame) of
             None \<Rightarrow> Some (p, [])
           | Some peer \<Rightarrow>
               if pr_rx peer = None then Some (p, [])
               else do {
                 (rx, res) \<leftarrow> Codec_Open (pr_rx peer) (rl_Payload frame);
                 let p = set_peer (peer\<lparr>pr_rx := rx\<rparr>) p;
                 (case res of Inl _ \<Rightarrow> Some (p, []) | Inr payload \<Rightarrow> Some (inbound p (rl_SrcDevice frame) payload LinkPathRelay now)) })) }"

definition control_peer_info :: "p2p_crypto \<Rightarrow> (string \<Rightarrow> string option) \<Rightarrow> lanP2P \<Rightarrow> Message \<Rightarrow> time \<Rightarrow> lanP2P \<times> p2p_effect list" where
  "control_peer_info cr resolve p msg now =
     (case p2p_peer p (msg_Peer msg) of
        None \<Rightarrow> (p, [])
      | Some peer \<Rightarrow>
          let peer = ensurePeerCodecs cr p (peer\<lparr>pr_x25519Pub := msg_Payload msg\<rparr>) in
          (case resolve (msg_Addr msg) of
             None \<Rightarrow> (set_peer peer p, [])
           | Some addr \<Rightarrow>
               let relayActive = pr_isRelay peer;
                   peer = (if \<not> relayActive \<or> \<not> pp_RelayOnly (p2_pathPolicy p) then peer\<lparr>pr_addr := Some addr\<rparr> else peer);
                   peer = peer\<lparr>pr_pc := pr_pc peer \<or> p2_conn p\<rparr>;
                   peer = (if TrimSpace (msg_UpnpAddr msg) \<noteq> '''' then
                             (case resolve (msg_UpnpAddr msg) of None \<Rightarrow> peer | Some u \<Rightarrow> peer\<lparr>pr_upnpAddr := Some u\<rparr>) else peer);
                   p = (if pr_tx peer \<noteq> None \<and> pr_rx peer \<noteq> None then link_upsert p now (pr_id peer) addr True else p);
                   (peer, out) = startPunchLoop p peer;
                   p = set_peer peer p
               in if \<not> relayActive \<and> pr_punched peer \<and> \<not> pr_connected peer
                  then let (p, more) = openTunnelUnlessDatagramReady p (pr_id peer) now in (p, out @ more)
                  else (p, out)))"

text \<open>The common part of the cases \<^verbatim>\<open>MsgPunch\<close> and \<^verbatim>\<open>MsgPunchAck\<close>.\<close>

definition punch_observed :: "lanP2P \<Rightarrow> string \<Rightarrow> Message \<Rightarrow> uint32 \<Rightarrow> time \<Rightarrow> lanP2P \<times> p2p_effect list" where
  "punch_observed p src msg signal now =
     (case p2p_peer p (msg_From msg) of
        None \<Rightarrow> (p, [])
      | Some peer \<Rightarrow>
          let i = msg_From msg;
              peer = (if \<not> pr_isRelay peer \<or> \<not> pp_RelayOnly (p2_pathPolicy p) then peer\<lparr>pr_addr := Some src\<rparr> else peer);
              p = set_peer peer p;
              (p, datagramConfirmed) = (if msg_Payload msg = lanDatagramReadyFrame then markPunchSignal p i signal now else (p, False))
          in (case p2p_peer p i of
               None \<Rightarrow> (p, [])
             | Some peer \<Rightarrow>
                 let (p, out) =
                   (if \<not> pr_punched peer then openTunnelUnlessDatagramReady (set_peer (peer\<lparr>pr_punched := True\<rparr>) p) i now
                    else if pr_isRelay peer \<and> datagramConfirmed \<and> \<not> pp_RelayOnly (p2_pathPolicy p)
                    then openTunnelUnlessDatagramReady p i now
                    else (p, []))
                 in (link_upsert p now (pr_id peer) src True, out)))"

definition handleControl ::
  "p2p_crypto \<Rightarrow> (string \<Rightarrow> string option) \<Rightarrow> lanP2P \<Rightarrow> Message option \<Rightarrow> string \<Rightarrow> time \<Rightarrow> lanP2P \<times> p2p_effect list"
where
  "handleControl cr resolve p decoded src now =
     (case decoded of
        None \<Rightarrow> (p, [])
      | Some msg \<Rightarrow>
          if NormalizeProfile (msg_Profile msg) \<noteq> ProfileLANPacket then (p, [])
          else if msg_Type msg = MsgPeerInfo then control_peer_info cr resolve p msg now
          else if msg_Type msg = MsgPunch then
            (if p2p_peer p (msg_From msg) = None then (p, [])
             else let (p, out) = punch_observed p src msg lanPunchSignalIncoming now
                  in (p, out @ writeControl_p2p p src (punch_message p MsgPunchAck)))
          else if msg_Type msg = MsgPunchAck then punch_observed p src msg lanPunchSignalAck now
          else (p, []))"

definition peerIDByAddr :: "lanP2P \<Rightarrow> string \<Rightarrow> string" where
  "peerIDByAddr p addr = (case find (\<lambda>(_, peer). pr_addr peer = Some addr) (p2_peers p) of None \<Rightarrow> '''' | Some (i, _) \<Rightarrow> i)"

definition le32 :: "bytes \<Rightarrow> uint32" where
  "le32 bs = (case Uint32 (rev (take 4 bs)) of None \<Rightarrow> 0 | Some w \<Rightarrow> w)"

definition peerIDByConv :: "lanP2P \<Rightarrow> bytes \<Rightarrow> string \<times> string" where
  "peerIDByConv p data =
     (if length data < 4 then ('''', '''')
      else let conv = le32 data in
        (case p2_peerConv p conv of None \<Rightarrow> '''' | Some i \<Rightarrow> i, case p2_peerConvProfile p conv of None \<Rightarrow> '''' | Some pr \<Rightarrow> pr))"

definition peerForPacket :: "lanP2P \<Rightarrow> bytes \<Rightarrow> string \<Rightarrow> lanP2PPeer option \<times> string" where
  "peerForPacket p data addr =
     (let (i, profile) = peerIDByConv p data in
      if i \<noteq> '''' then (p2p_peer p i, profile) else (p2p_peer p (peerIDByAddr p addr), ''''))"

definition peerIDByPacket :: "lanP2P \<Rightarrow> bytes \<Rightarrow> string \<Rightarrow> string" where
  "peerIDByPacket p data addr = (case fst (peerForPacket p data addr) of None \<Rightarrow> '''' | Some peer \<Rightarrow> pr_id peer)"

text \<open>One datagram of \<^verbatim>\<open>readLoop\<close>; \<open>decode\<close> is the JSON decoder of messages.\<close>

definition readLoop_datagram ::
  "p2p_crypto \<Rightarrow> (string \<Rightarrow> string option) \<Rightarrow> (bytes \<Rightarrow> Message option) \<Rightarrow> lanP2P \<Rightarrow> bytes \<Rightarrow> string \<Rightarrow> time \<Rightarrow> (lanP2P \<times> p2p_effect list) option"
where
  "readLoop_datagram cr resolve decode p data src now =
     (if IsRelayFrame data then handleUDPRelayFrame p data now
      else if 0 < length data \<and> data ! 0 = of_char CHR ''{'' then Some (handleControl cr resolve p (decode data) src now)
      else (case peerForPacket p data src of
              (None, _) \<Rightarrow> Some (p, [])
            | (Some peer, profile) \<Rightarrow>
                if IsFrame data then handleDatagramFrame p (pr_id peer) data now
                else if profile = ProfileBulk \<and> pr_throughputPC peer then Some (p, [FeedPacketConn (pr_id peer) True data])
                else if pr_pc peer then Some (p, [FeedPacketConn (pr_id peer) False data])
                else Some (p, [])))"


subsection \<open>Sending\<close>

text \<open>\<open>io\<close> says which writes succeed: \<open>udp\<close> for the socket and \<open>kcp\<close> for a frame to a tunnel.  \<open>None\<close> as the error
  of an operation is success.\<close>

record p2p_io =
  io_udp :: "bytes \<Rightarrow> string \<Rightarrow> string option"
  io_kcp :: "nat \<Rightarrow> bytes \<Rightarrow> string option"

datatype send_error = LinkUnavailable | SealFailed packet_error | WriteFailed string | RelayFailed transport_error

definition lanKCPFrameMax :: nat where "lanKCPFrameMax = 64 * 1024"

definition kcp_write :: "p2p_io \<Rightarrow> nat \<Rightarrow> bytes \<Rightarrow> string option" where
  "kcp_write io c payload =
     (if length payload = 0 \<or> lanKCPFrameMax < length payload then Some ''bad LAN frame size'' else io_kcp io c payload)"

definition sendViaFastPath :: "p2p_io \<Rightarrow> lanP2P \<Rightarrow> RoutedFrame \<Rightarrow> lanP2PPeer \<Rightarrow> lanP2PPeer \<times> p2p_effect list \<times> bool" where
  "sendViaFastPath io p frame peer =
     (if \<not> isLANTCPFastPathCandidate frame then (peer, [], False)
      else if EqualFold (TrimSpace (p2_tcpFastPath p)) ''off'' \<or> pr_datagramReady peer then (peer, [], False)
      else (case pr_throughputKCP peer of
              None \<Rightarrow> (peer, [], False)
            | Some c \<Rightarrow>
                if \<not> pr_throughputTx peer then (peer, [], False)
                else (case Codec_Seal (pr_tx peer) (rf_Payload frame) of
                        (tx, Inl _) \<Rightarrow> (peer\<lparr>pr_tx := tx\<rparr>, [], False)
                      | (tx, Inr sealed) \<Rightarrow>
                          (case kcp_write io c sealed of
                             Some _ \<Rightarrow> (peer\<lparr>pr_tx := tx\<rparr>, [], False)
                           | None \<Rightarrow> (peer\<lparr>pr_tx := tx\<rparr>, [KCPWrite c sealed], True)))))"

text \<open>\<^verbatim>\<open>lantransport.Send\<close> of the payload to the peer's address.\<close>

definition send_datagram :: "p2p_io \<Rightarrow> lanP2P \<Rightarrow> lanP2PPeer \<Rightarrow> bytes \<Rightarrow> lanP2PPeer \<times> p2p_effect list \<times> bool" where
  "send_datagram io p peer payload =
     (case (p2_conn p, pr_addr peer, pr_tx peer) of
        (True, Some addr, Some c) \<Rightarrow>
          (case Transport_Seal (Some c) payload of
             (tx, Inl _) \<Rightarrow> (peer\<lparr>pr_tx := tx\<rparr>, [], False)
           | (tx, Inr sealed) \<Rightarrow>
               if io_udp io sealed addr = None then (peer\<lparr>pr_tx := tx\<rparr>, [Datagram addr sealed], True) else (peer\<lparr>pr_tx := tx\<rparr>, [], False))
      | _ \<Rightarrow> (peer, [], False))"

definition send_kcp :: "p2p_io \<Rightarrow> lanP2PPeer \<Rightarrow> bytes \<Rightarrow> lanP2PPeer \<times> p2p_effect list \<times> send_error option" where
  "send_kcp io peer payload =
     (case pr_kcp peer of
        None \<Rightarrow> (peer, [], Some LinkUnavailable)
      | Some c \<Rightarrow>
          (case pr_tx peer of
             None \<Rightarrow> (case kcp_write io c payload of Some e \<Rightarrow> (peer, [], Some (WriteFailed e)) | None \<Rightarrow> (peer, [KCPWrite c payload], None))
           | Some tx \<Rightarrow>
               (case Codec_Seal (Some tx) payload of
                  (tx, Inl err) \<Rightarrow> (peer\<lparr>pr_tx := tx\<rparr>, [], Some (SealFailed err))
                | (tx, Inr sealed) \<Rightarrow>
                    (case kcp_write io c sealed of
                       Some e \<Rightarrow> (peer\<lparr>pr_tx := tx\<rparr>, [], Some (WriteFailed e))
                     | None \<Rightarrow> (peer\<lparr>pr_tx := tx\<rparr>, [KCPWrite c sealed], None)))))"

definition P2P_Send :: "p2p_io \<Rightarrow> lanP2P \<Rightarrow> RoutedFrame \<Rightarrow> time \<Rightarrow> lanP2P \<times> p2p_effect list \<times> send_error option" where
  "P2P_Send io p frame now =
     (case p2p_peer p (rf_DstDevice frame) of
        None \<Rightarrow> (p, [], Some LinkUnavailable)
      | Some peer \<Rightarrow>
          if pp_RelayOnly (p2_pathPolicy p) then (p, [], Some LinkUnavailable)
          else
            let peer = peer\<lparr>pr_lastTrafficClass := Some (classifyLANFrame frame), pr_lastTrafficAt := UnixNano now\<rparr> in
            if pp_PreferRelay (p2_pathPolicy p) \<and> \<not> pr_datagramReady peer then (set_peer peer p, [], Some LinkUnavailable)
            else (case sendViaFastPath io p frame peer of
                    (peer, out, True) \<Rightarrow> (set_peer peer p, out, None)
                  | (peer, _, False) \<Rightarrow>
                      (case (if pr_datagramReady peer then send_datagram io p peer (rf_Payload frame) else (peer, [], False)) of
                         (peer, out, True) \<Rightarrow> (set_peer peer p, out, None)
                       | (peer, _, False) \<Rightarrow>
                           if \<not> pr_connected peer then (set_peer peer p, [], Some LinkUnavailable)
                           else (case send_kcp io peer (rf_Payload frame) of (peer, out, err) \<Rightarrow> (set_peer peer p, out, err)))))"

definition SendDatagram :: "p2p_io \<Rightarrow> lanP2P \<Rightarrow> RoutedFrame \<Rightarrow> lanP2P \<times> p2p_effect list \<times> bool" where
  "SendDatagram io p frame =
     (case p2p_peer p (rf_DstDevice frame) of
        None \<Rightarrow> (p, [], False)
      | Some peer \<Rightarrow>
          if \<not> pr_datagramReady peer then (p, [], False)
          else (case send_datagram io p peer (rf_Payload frame) of (peer, out, ok) \<Rightarrow> (set_peer peer p, out, ok)))"

definition CanRelay :: "lanP2P \<Rightarrow> string \<Rightarrow> bool" where
  "CanRelay p i \<longleftrightarrow> (case p2p_peer p i of None \<Rightarrow> False | Some peer \<Rightarrow> pr_tx peer \<noteq> None \<and> pr_rx peer \<noteq> None)"

definition SendUDPRelayFrame :: "p2p_io \<Rightarrow> lanP2P \<Rightarrow> RoutedFrame \<Rightarrow> p2p_effect list \<times> send_error option" where
  "SendUDPRelayFrame io p frame =
     (if \<not> relayAvailable (p2_pathPolicy p) then ([], Some LinkUnavailable)
      else (case PackRelayFrame \<lparr>rl_SrcDevice = rf_SrcDevice frame, rl_DstDevice = rf_DstDevice frame, rl_Payload = rf_Payload frame\<rparr> of
              Inl err \<Rightarrow> ([], Some (RelayFailed err))
            | Inr wire \<Rightarrow>
                if \<not> p2_conn p then ([], Some LinkUnavailable)
                else (case io_udp io wire (p2_server p) of
                        Some e \<Rightarrow> ([], Some (WriteFailed e))
                      | None \<Rightarrow> ([Datagram (p2_server p) wire], None))))"

fun seal_relay_loop :: "RoutedFrame list \<Rightarrow> lanP2P \<Rightarrow> lanP2P \<times> (packet_error + RoutedFrame list)" where
  "seal_relay_loop [] p = (p, Inr [])"
| "seal_relay_loop (frame # frames) p =
     (case p2p_peer p (rf_DstDevice frame) of
        None \<Rightarrow> seal_relay_loop frames p
      | Some peer \<Rightarrow>
          if pr_tx peer = None then seal_relay_loop frames p
          else (case Codec_Seal (pr_tx peer) (rf_Payload frame) of
                  (tx, Inl err) \<Rightarrow> (set_peer (peer\<lparr>pr_tx := tx\<rparr>) p, Inl err)
                | (tx, Inr sealed) \<Rightarrow>
                    (case seal_relay_loop frames (set_peer (peer\<lparr>pr_tx := tx\<rparr>) p) of
                       (p, Inl err) \<Rightarrow> (p, Inl err)
                     | (p, Inr rest) \<Rightarrow> (p, Inr (frame\<lparr>rf_Payload := sealed\<rparr> # rest)))))"

definition SealRelayFrames :: "lanP2P \<Rightarrow> RoutedFrame list \<Rightarrow> lanP2P \<times> (packet_error + RoutedFrame list)" where
  "SealRelayFrames p frames = seal_relay_loop frames p"

datatype open_error = OpenPeerNotFound | OpenCodec packet_error

definition OpenRelayFrame :: "lanP2P \<Rightarrow> RoutedFrame \<Rightarrow> (lanP2P \<times> (open_error + RoutedFrame)) option" where
  "OpenRelayFrame p frame =
     (case p2p_peer p (rf_SrcDevice frame) of
        None \<Rightarrow> Some (p, Inl OpenPeerNotFound)
      | Some peer \<Rightarrow>
          if pr_rx peer = None then Some (p, Inl OpenPeerNotFound)
          else do {
            (rx, res) \<leftarrow> Codec_Open (pr_rx peer) (rf_Payload frame);
            let p = set_peer (peer\<lparr>pr_rx := rx\<rparr>) p;
            (case res of Inl err \<Rightarrow> Some (p, Inl (OpenCodec err)) | Inr plain \<Rightarrow> Some (p, Inr (frame\<lparr>rf_Payload := plain\<rparr>))) })"

subsection \<open>Peers, sessions and keep-alives\<close>

definition registerPeerConvs :: "p2p_crypto \<Rightarrow> lanP2P \<Rightarrow> string \<Rightarrow> lanP2P option" where
  "registerPeerConvs cr p peerID =
     (if TrimSpace peerID = '''' then Some p
      else do {
        lanConv \<leftarrow> ConvID (pc_hmac cr) '''' (p2_deviceID p) peerID ProfileLANPacket;
        bulkConv \<leftarrow> ConvID (pc_hmac cr) '''' (p2_deviceID p) peerID ProfileBulk;
        Some (p\<lparr>p2_peerConv := (p2_peerConv p)(lanConv \<mapsto> peerID, bulkConv \<mapsto> peerID),
                p2_peerConvProfile := (p2_peerConvProfile p)(lanConv \<mapsto> ProfileLANPacket, bulkConv \<mapsto> ProfileBulk)\<rparr>) })"

text \<open>One peer of the list \<^verbatim>\<open>UpsertPeers\<close> walks through, as its device id and public key.\<close>

definition upsert_one :: "p2p_crypto \<Rightarrow> lanP2P \<Rightarrow> string \<times> string \<Rightarrow> (lanP2P \<times> p2p_effect list) option" where
  "upsert_one cr p info =
     (let peerID = TrimSpace (fst info) in
      if peerID = '''' \<or> peerID = p2_deviceID p then Some (p, [])
      else do {
        let shouldRegister = (p2p_peer p peerID = None \<or> \<not> p2_registering p peerID);
        let peer = (case p2p_peer p peerID of None \<Rightarrow> new_peer peerID (snd info) | Some existing \<Rightarrow> existing\<lparr>pr_publicKey := snd info\<rparr>);
        p \<leftarrow> registerPeerConvs cr (p\<lparr>p2_peers := AList.update peerID peer (p2_peers p)\<rparr>) peerID;
        let p = (if shouldRegister then p\<lparr>p2_registering := (p2_registering p)(peerID := True)\<rparr> else p);
        let (p, timer) =
          (if pp_PreferRelay (p2_pathPolicy p) \<and> relayAvailable (p2_pathPolicy p)
           then (p, [Go (EnableRelayMode peerID (''path_policy_'' @ pp_Name (p2_pathPolicy p)))])
           else resetRelayTimer p peerID);
        Some (p, timer @ (if shouldRegister then [Go (RegisterLoop peerID)] else [])) })"

fun UpsertPeers :: "p2p_crypto \<Rightarrow> (string \<times> string) list \<Rightarrow> lanP2P \<Rightarrow> (lanP2P \<times> p2p_effect list) option" where
  "UpsertPeers cr [] p = Some (p, [])"
| "UpsertPeers cr (info # infos) p = do {
     (p, out) \<leftarrow> upsert_one cr p info;
     (p, rest) \<leftarrow> UpsertPeers cr infos p;
     Some (p, out @ rest) }"

definition tryUseHotPath ::
  "(string \<Rightarrow> string option) \<Rightarrow> lanP2P \<Rightarrow> string \<Rightarrow> lanSessionIntent \<Rightarrow> time \<Rightarrow> lanP2P \<times> p2p_effect list"
where
  "tryUseHotPath resolve p i intent now =
     (case p2p_peer p i of
        None \<Rightarrow> (p, [])
      | Some peer \<Rightarrow>
          if \<not> isLANHotPathPort (si_DstPort intent) \<or> pp_RelayOnly (p2_pathPolicy p) then (p, [])
          else (case hotPath (p2_hotPaths p) (si_PeerID intent) (si_DstPort intent) now of
                  (hm, None) \<Rightarrow> (p\<lparr>p2_hotPaths := hm\<rparr>, [])
                | (hm, Some hot) \<Rightarrow>
                    (case resolve (hp_PublicAddr hot) of
                       None \<Rightarrow> (p\<lparr>p2_hotPaths := markHotPathFailure hm (si_PeerID intent) (si_DstPort intent) ''bad_addr''\<rparr>, [])
                     | Some addr \<Rightarrow>
                         let p = p\<lparr>p2_hotPaths := hm\<rparr> in
                         if \<not> pr_datagramReady peer \<and> \<not> pr_connected peer then
                           let (peer, out) = startPunchLoop p (peer\<lparr>pr_addr := Some addr, pr_longPunching := False, pr_punched := False\<rparr>)
                           in (set_peer peer p, out)
                         else (p, []))))"

definition RecordSessionIntent ::
  "(string \<Rightarrow> string option) \<Rightarrow> lanP2P \<Rightarrow> RoutedFrame \<Rightarrow> time \<Rightarrow> lanP2P \<times> p2p_effect list"
where
  "RecordSessionIntent resolve p frame now =
     (case newLANSessionIntent frame now of
        None \<Rightarrow> (p, [])
      | Some intent \<Rightarrow>
          (case p2p_peer p (si_PeerID intent) of
             None \<Rightarrow> (p, [])
           | Some peer \<Rightarrow>
               let p = p\<lparr>p2_sessionIntents := record_intent (p2_sessionIntents p) intent now\<rparr>;
                   p = set_peer (peer\<lparr>pr_lastTrafficClass := Some (si_TrafficClass intent), pr_lastTrafficAt := UnixNano now\<rparr>) p;
                   (p, out) = tryUseHotPath resolve p (pr_id peer) intent now
               in (case p2p_peer p (pr_id peer) of
                     None \<Rightarrow> (p, out)
                   | Some peer \<Rightarrow>
                       if \<not> pr_datagramReady peer \<and> \<not> pr_connected peer \<and> \<not> pp_RelayOnly (p2_pathPolicy p) then
                         let peer = (if \<not> relayAvailable (p2_pathPolicy p) then peer\<lparr>pr_longPunching := True\<rparr> else peer);
                             (peer, more) = startPunchLoop p (peer\<lparr>pr_punched := False\<rparr>)
                         in (set_peer peer p, out @ more)
                       else (p, out))))"

text \<open>One hot path of \<^verbatim>\<open>preheatLearnedPaths\<close>.\<close>

definition preheat_one :: "(string \<Rightarrow> string option) \<Rightarrow> lanP2P \<Rightarrow> lanHotPath \<Rightarrow> lanP2P \<times> p2p_effect list" where
  "preheat_one resolve p hot =
     (case p2p_peer p (hp_PeerID hot) of
        None \<Rightarrow> (p, [])
      | Some peer \<Rightarrow>
          if pr_datagramReady peer \<or> pp_RelayOnly (p2_pathPolicy p) then (p, [])
          else (case resolve (hp_PublicAddr hot) of
                  None \<Rightarrow> (p\<lparr>p2_hotPaths := markHotPathFailure (p2_hotPaths p) (hp_PeerID hot) (hp_DstPort hot) ''preheat_bad_addr''\<rparr>, [])
                | Some addr \<Rightarrow>
                    let (peer, out) = startPunchLoop p (peer\<lparr>pr_addr := Some addr, pr_punched := False\<rparr>) in (set_peer peer p, out)))"

definition sendDueHotPathKeepAlive :: "lanP2P \<Rightarrow> string \<Rightarrow> time \<Rightarrow> lanP2P \<times> p2p_effect list" where
  "sendDueHotPathKeepAlive p i now =
     (case p2p_peer p i of
        None \<Rightarrow> (p, [])
      | Some peer \<Rightarrow>
          if \<not> pr_datagramReady peer \<or> pr_isRelay peer then (p, [])
          else (case pr_addr peer of
                  None \<Rightarrow> (p, [])
                | Some addr \<Rightarrow>
                    let (hm, due) = dueHotPaths (p2_hotPaths p) (pr_id peer) now; p = p\<lparr>p2_hotPaths := hm\<rparr> in
                    if length due = 0 then (p, []) else (p, writeControl_p2p p addr (punch_message p MsgPunch))))"

subsection \<open>Reports\<close>

definition peerDataPath :: "lanP2P \<Rightarrow> string \<Rightarrow> time \<Rightarrow> string \<times> string" where
  "peerDataPath p i now =
     (case p2p_peer p i of
        None \<Rightarrow> ('''', ''peer_unavailable'')
      | Some peer \<Rightarrow>
          if pr_datagramReady peer \<and> \<not> pr_isRelay peer then (lanPathP2PDatagram, ''p2p_ready'')
          else if pr_connected peer then
            if pr_isRelay peer then (lanPathRelayUDP, ''relay_mode'') else (lanPathP2PKCP, ''kcp_connected'')
          else if pr_isRelay peer then
            if \<not> relayAvailable (p2_pathPolicy p) then ('''', ''relay_disabled'') else (lanPathRelayUDP, ''p2p_timeout'')
          else if pr_longPunching peer then ('''', ''long_punching'')
          else if pr_punched peer then
            if pr_punchSignals peer \<noteq> 0 then ('''', ''one_way_p2p'') else ('''', ''punched_waiting_tunnel'')
          else if \<not> relayAvailable (p2_pathPolicy p) \<and> \<not> hasActiveTraffic peer lanActiveTrafficTTL now then ('''', ''unreachable'')
          else ('''', ''p2p_connecting''))"

definition currentTrafficClass :: "lanP2P \<Rightarrow> string \<Rightarrow> string" where
  "currentTrafficClass p i =
     (case p2p_peer p i of None \<Rightarrow> '''' | Some peer \<Rightarrow> (case pr_lastTrafficClass peer of None \<Rightarrow> '''' | Some c \<Rightarrow> c))"

record lanRuntimeDiagnostics =
  rd_RelayDisabled :: bool
  rd_SocketRotations :: uint64
  rd_LastRotationAt :: string
  rd_LastRotationReason :: string
  rd_HotPaths :: nat
  rd_ActiveSessions :: nat

definition diagnosticsSnapshot :: "(time \<Rightarrow> string) \<Rightarrow> lanP2P \<Rightarrow> time \<Rightarrow> lanP2P \<times> lanRuntimeDiagnostics" where
  "diagnosticsSnapshot format p now =
     (let (hm, hots) = hotPathCount (p2_hotPaths p) now; (im, sessions) = sessionIntentCount (p2_sessionIntents p) now in
      (p\<lparr>p2_hotPaths := hm, p2_sessionIntents := im\<rparr>,
       \<lparr>rd_RelayDisabled = (\<not> relayAvailable (p2_pathPolicy p)), rd_SocketRotations = p2_rotationCount p,
        rd_LastRotationAt = (if 0 < p2_lastRotation p then format (unix_nano_time (p2_lastRotation p)) else ''''),
        rd_LastRotationReason = (case p2_lastRotationReason p of None \<Rightarrow> '''' | Some r \<Rightarrow> r), rd_HotPaths = hots, rd_ActiveSessions = sessions\<rparr>))"

definition lanDataPathFromSession :: "PeerSession \<Rightarrow> string" where
  "lanDataPathFromSession session =
     (if pses_Path session = LinkPathP2P then lanPathP2PKCP else if pses_Path session = LinkPathRelay then lanPathRelayHTTP else '''')"

definition lanPathReasonFromSession :: "PeerSession \<Rightarrow> string" where
  "lanPathReasonFromSession session =
     (if pses_Path session = LinkPathP2P then ''link_p2p'' else if pses_Path session = LinkPathRelay then ''link_relay'' else ''link_unavailable'')"

definition nat_from_policy :: "lanP2P \<Rightarrow> string \<Rightarrow> string \<Rightarrow> string" where
  "nat_from_policy p peerID dataPath =
     (if pp_RelayOnly (p2_pathPolicy p) then ''relay_only''
      else if pp_PreferRelay (p2_pathPolicy p) \<and> prefix ''relay_'' dataPath then ''relay_first''
      else (case p2p_peer p peerID of
              Some peer \<Rightarrow> if pr_isRelay peer then ''relay_required'' else ''unknown''
            | None \<Rightarrow> ''unknown''))"

definition lanNATTypeForPeer :: "lanP2P option \<Rightarrow> string \<Rightarrow> string \<Rightarrow> string" where
  "lanNATTypeForPeer q peerID dataPath =
     (case q of
        None \<Rightarrow> ''''
      | Some p \<Rightarrow>
          if \<not> relayAvailable (p2_pathPolicy p) \<and> TrimSpace dataPath = '''' then ''relay_disabled''
          else if TrimSpace (p2_upnpAddr p) \<noteq> '''' then ''upnp_mapped''
          else (case p2_natType p of
                  Some v \<Rightarrow> if TrimSpace v \<noteq> '''' \<and> v \<noteq> ''unknown'' then v else nat_from_policy p peerID dataPath
                | None \<Rightarrow> nat_from_policy p peerID dataPath))"

definition lanFallbackReason :: "lanP2P option \<Rightarrow> string \<Rightarrow> string \<Rightarrow> string" where
  "lanFallbackReason q dataPath pathReason =
     (if \<not> prefix ''relay_'' dataPath then
        (case q of
           Some p \<Rightarrow> if \<not> relayAvailable (p2_pathPolicy p) \<and> TrimSpace pathReason = ''relay_disabled'' then ''relay_disabled'' else ''''
         | None \<Rightarrow> '''')
      else
        let rest = (if TrimSpace pathReason \<noteq> '''' then pathReason else ''relay_fallback'') in
        (case q of
           Some p \<Rightarrow>
             if pp_RelayOnly (p2_pathPolicy p) then ''path_policy_relay_only''
             else if pp_PreferRelay (p2_pathPolicy p) then ''path_policy_prefer_relay''
             else rest
         | None \<Rightarrow> rest))"

definition lanTCPFastPathState :: "string \<Rightarrow> string \<Rightarrow> string" where
  "lanTCPFastPathState policy trafficClass =
     (let policy = (if TrimSpace policy = '''' then ''auto'' else TrimSpace policy) in
      if policy = ''off'' then ''off''
      else if policy = ''force'' then ''force_candidate''
      else if trafficClass = lanTrafficThroughput then ''auto_candidate''
      else ''auto_idle'')"

subsection \<open>Start and stop\<close>

text \<open>What \<^verbatim>\<open>startLANP2P\<close> is given and what the calls it makes outside answer: the resolved server, whether a socket
  could be opened, the key pair, the address of the UPnP mapping if there is one, and the NAT type.\<close>

record lanStart =
  st_server :: "string option"
  st_listens :: bool
  st_keypair :: "(bytes \<times> string) option"
  st_upnp :: "string option"
  st_nat :: string
  st_TCPFastPath :: string
  st_RelayEnabled :: bool
  st_peers :: "(string \<times> string) list"
  st_learned :: "VirtualLearnedPath list"

definition new_p2p ::
  "string \<Rightarrow> string \<Rightarrow> lanPathPolicyConfig \<Rightarrow> string \<Rightarrow> string \<Rightarrow> Identity \<Rightarrow> Router \<Rightarrow> LinkManager \<Rightarrow> bytes \<Rightarrow> string \<Rightarrow> lanP2P"
where
  "new_p2p server upnpAddr pathPolicy tcpFastPath deviceID identity router link priv pub =
     \<lparr>p2_conn = True, p2_upnpAddr = upnpAddr, p2_peers = [], p2_peerConv = Map.empty, p2_peerConvProfile = Map.empty,
      p2_server = server, p2_pathPolicy = pathPolicy, p2_tcpFastPath = TrimSpace tcpFastPath, p2_deviceID = deviceID,
      p2_identity = identity, p2_router = router, p2_link = link, p2_x25519Priv = priv, p2_x25519Pub = pub,
      p2_registering = (\<lambda>_. False), p2_relayTimers = (\<lambda>_. False), p2_openRetries = (\<lambda>_. False), p2_sessionIntents = [],
      p2_hotPaths = [], p2_readLoopGen = 0, p2_rotating = False, p2_lastRotation = 0, p2_rotationCount = 0,
      p2_lastRotationReason = None, p2_natType = None\<rparr>"

text \<open>The inner \<open>None\<close> is the nil of a disabled agent; the goroutines that only repeat an operation on a timer are
  not listed.\<close>

definition startLANP2P ::
  "p2p_crypto \<Rightarrow> (string \<Rightarrow> time option) \<Rightarrow> lanStart \<Rightarrow> Router \<Rightarrow> LinkManager \<Rightarrow> Identity \<Rightarrow> string \<Rightarrow> lanPathPolicyConfig \<Rightarrow> time
     \<Rightarrow> (lanP2P \<times> p2p_effect list) option option"
where
  "startLANP2P cr parse st router link identity deviceID pathPolicy now =
     (case (st_server st, st_keypair st) of
        (Some server, Some (priv, pub)) \<Rightarrow>
          if \<not> st_listens st then Some None
          else do {
            let p = new_p2p server (case st_upnp st of None \<Rightarrow> '''' | Some a \<Rightarrow> a) pathPolicy (st_TCPFastPath st) deviceID identity router link priv pub;
            let p = p\<lparr>p2_pathPolicy := (p2_pathPolicy p)\<lparr>pp_RelayEnabled := st_RelayEnabled st, pp_RelayConfigured := True\<rparr>\<rparr>;
            let p = p\<lparr>p2_natType := Some (if st_upnp st \<noteq> None then ''upnp_mapped'' else st_nat st)\<rparr>;
            (p, out1) \<leftarrow> UpsertPeers cr (st_peers st) p;
            let p = p\<lparr>p2_hotPaths := LoadLearnedPaths parse (p2_hotPaths p) now (st_learned st)\<rparr>;
            let (p, out2) = enableRelayForBadNAT p now;
            let (p, out3) = startReadLoop p;
            Some (Some (p, out1 @ out2 @ out3)) }
      | _ \<Rightarrow> Some None)"

definition closeCurrentSocket :: "lanP2P \<Rightarrow> lanP2P" where
  "closeCurrentSocket p = p\<lparr>p2_conn := False, p2_upnpAddr := ''''\<rparr>"

fun hot_keepalive_loop :: "string list \<Rightarrow> lanP2P \<Rightarrow> time \<Rightarrow> lanP2P \<times> p2p_effect list" where
  "hot_keepalive_loop [] p now = (p, [])"
| "hot_keepalive_loop (i # is) p now =
     (let (p, out) = sendDueHotPathKeepAlive p i now; (p, rest) = hot_keepalive_loop is p now in (p, out @ rest))"

definition sendDueHotPathKeepAlives :: "lanP2P \<Rightarrow> time \<Rightarrow> lanP2P \<times> p2p_effect list" where
  "sendDueHotPathKeepAlives p now = hot_keepalive_loop (map fst (p2_peers p)) p now"

text \<open>The paths \<^verbatim>\<open>preheatLearnedPaths\<close> walks through.\<close>

definition preheat_paths :: "lanP2P \<Rightarrow> lanHotPath list" where
  "preheat_paths p = filter (\<lambda>hot. hp_PublicAddr hot \<noteq> '''') (map snd (p2_hotPaths p))"

end
