(* ===== verification/LanPeerProps.thy ===== *)
theory LanPeerProps
  imports LanPeer
begin

text \<open>
  Properties of the peers of the LAN agent.  \<open>p2p_step\<close> is the step relation of the agent: an event from
  outside (a datagram, a frame to send, the list of peers of a configuration) or the next step of a
  goroutine that was started before.  A state of the system is the state of \<open>lanP2P\<close> with the set of the
  goroutines started so far; leaving ended goroutines in the set only adds runs.
\<close>

section \<open>The system\<close>

record p2p_env =
  en_crypto :: p2p_crypto
  en_resolve :: "string \<Rightarrow> string option"
  en_decode :: "bytes \<Rightarrow> Message option"
  en_io :: p2p_io
  en_parse :: "string \<Rightarrow> time option"

datatype p2p_event =
    EvPeers "(string \<times> string) list"
  | EvDatagram bytes string
  | EvSend RoutedFrame
  | EvSendDatagram RoutedFrame
  | EvSealRelay "RoutedFrame list"
  | EvSendUDPRelay RoutedFrame
  | EvOpenRelay RoutedFrame
  | EvIntent RoutedFrame
  | EvPreheat lanHotPath
  | EvKeepAlive string
  | EvBadNAT
  | EvRun goroutine
  | EvOpened string open_result
  | EvThroughputOpened string open_result
  | EvTunnelFrame string bytes
  | EvTunnelError string nat
  | EvThroughputFrame string bytes
  | EvThroughputError string nat
  | EvPunchTick string duration
  | EvRotate string bool string
  | EvLearned "VirtualLearnedPath list"
  | EvStartRead
  | EvClose

text \<open>The goroutine an event belongs to, if any.\<close>

fun needs :: "p2p_event \<Rightarrow> goroutine option" where
  "needs (EvRun g) = Some g"
| "needs (EvOpened i _) = Some (OpenTunnel i)"
| "needs (EvThroughputOpened i _) = Some (OpenThroughputTunnel i)"
| "needs (EvPunchTick i _) = Some (PunchLoop i)"
| "needs (EvRotate reason _ _) = Some (RotateSocket reason)"
| "needs (EvTunnelError i c) = Some (ReadTunnelFrames i c)"
| "needs (EvThroughputError i c) = Some (ReadThroughputTunnelFrames i c)"
| "needs _ = None"

definition on_peer :: "lanP2P \<Rightarrow> string \<Rightarrow> (lanP2PPeer \<Rightarrow> lanP2PPeer \<times> p2p_effect list) \<Rightarrow> lanP2P \<times> p2p_effect list" where
  "on_peer p i f = (case p2p_peer p i of None \<Rightarrow> (p, []) | Some peer \<Rightarrow> let (peer, out) = f peer in (set_peer peer p, out))"

fun run_goroutine :: "p2p_env \<Rightarrow> goroutine \<Rightarrow> lanP2P \<Rightarrow> time \<Rightarrow> lanP2P \<times> p2p_effect list" where
  "run_goroutine E (RegisterLoop i) p now = writeLANRegister (en_crypto E) p i now"
| "run_goroutine E (RelayFallbackTimer i) p now = relayFallbackTimer_fires p i now"
| "run_goroutine E (EnableRelayMode i _) p now = enableRelayMode p i now"
| "run_goroutine E (OpenRetry i) p now = openRetry_fires p i now"
| "run_goroutine E (OpenTunnel i) p now = (fst (openTunnel_begin p i now), [])"
| "run_goroutine E (OpenThroughputTunnel i) p now = (fst (openThroughputTunnel_begin p i), [])"
| "run_goroutine E _ p now = (p, [])"

fun p2p_exec :: "p2p_env \<Rightarrow> p2p_event \<Rightarrow> lanP2P \<Rightarrow> time \<Rightarrow> (lanP2P \<times> p2p_effect list) option" where
  "p2p_exec E (EvPeers infos) p now = UpsertPeers (en_crypto E) infos p"
| "p2p_exec E (EvDatagram data src) p now = readLoop_datagram (en_crypto E) (en_resolve E) (en_decode E) p data src now"
| "p2p_exec E (EvSend frame) p now = Some (case P2P_Send (en_io E) p frame now of (p, out, _) \<Rightarrow> (p, out))"
| "p2p_exec E (EvSendDatagram frame) p now = Some (case SendDatagram (en_io E) p frame of (p, out, _) \<Rightarrow> (p, out))"
| "p2p_exec E (EvSealRelay frames) p now = Some (fst (SealRelayFrames p frames), [])"
| "p2p_exec E (EvSendUDPRelay frame) p now = Some (p, fst (SendUDPRelayFrame (en_io E) p frame))"
| "p2p_exec E (EvOpenRelay frame) p now = map_option (\<lambda>(p, _). (p, [])) (OpenRelayFrame p frame)"
| "p2p_exec E (EvIntent frame) p now = Some (RecordSessionIntent (en_resolve E) p frame now)"
| "p2p_exec E (EvPreheat hot) p now = Some (preheat_one (en_resolve E) p hot)"
| "p2p_exec E (EvKeepAlive i) p now = Some (sendDueHotPathKeepAlive p i now)"
| "p2p_exec E EvBadNAT p now = Some (enableRelayForBadNAT p now)"
| "p2p_exec E (EvRun g) p now = Some (run_goroutine E g p now)"
| "p2p_exec E (EvOpened i res) p now = Some (openTunnel_end p i res now)"
| "p2p_exec E (EvThroughputOpened i res) p now = Some (openThroughputTunnel_end p i res)"
| "p2p_exec E (EvTunnelFrame i payload) p now = readTunnelFrames_frame p i payload now"
| "p2p_exec E (EvTunnelError i c) p now = Some (readTunnelFrames_error p i c)"
| "p2p_exec E (EvThroughputFrame i payload) p now = readThroughputTunnelFrames_frame p i payload now"
| "p2p_exec E (EvThroughputError i c) p now = Some (readThroughputTunnelFrames_error p i c)"
| "p2p_exec E (EvPunchTick i interval) p now = Some (on_peer p i (\<lambda>peer. case punchLoop_tick p peer interval now of (peer, out, _) \<Rightarrow> (peer, out)))"
| "p2p_exec E (EvRotate reason listens upnp) p now = Some (rotateSocketAndRestartPunch (en_crypto E) p reason listens upnp now)"
| "p2p_exec E (EvLearned paths) p now = Some (p\<lparr>p2_hotPaths := LoadLearnedPaths (en_parse E) (p2_hotPaths p) now paths\<rparr>, [])"
| "p2p_exec E EvStartRead p now = Some (startReadLoop p)"
| "p2p_exec E EvClose p now = Some (closeCurrentSocket p, [])"

definition started :: "p2p_effect list \<Rightarrow> goroutine set" where
  "started out = {g. Go g \<in> set out}"

inductive p2p_step :: "p2p_env \<Rightarrow> lanP2P \<times> goroutine set \<Rightarrow> p2p_effect list \<Rightarrow> lanP2P \<times> goroutine set \<Rightarrow> bool" for E where
  step: "\<lbrakk>needs ev = None \<or> (\<exists>g \<in> G. needs ev = Some g); p2p_exec E ev p now = Some (p', out)\<rbrakk>
     \<Longrightarrow> p2p_step E (p, G) out (p', G \<union> started out)"

inductive_cases p2p_stepE: "p2p_step E (p, G) out s"

definition p2p_initial :: "lanP2P \<Rightarrow> bool" where
  "p2p_initial p \<longleftrightarrow> p2_peers p = [] \<and> p2_sessionIntents p = [] \<and> p2_hotPaths p = []"

inductive p2p_reachable :: "p2p_env \<Rightarrow> lanPathPolicyConfig \<Rightarrow> lanP2P \<times> goroutine set \<Rightarrow> bool" for E pol where
  init: "p2p_initial p \<Longrightarrow> p2_pathPolicy p = pol \<Longrightarrow> p2p_reachable E pol (p, {})"
| after: "p2p_reachable E pol s \<Longrightarrow> p2p_step E s out s' \<Longrightarrow> p2p_reachable E pol s'"

section \<open>Frame conditions\<close>

lemma p2p_peer_set [simp]: "p2p_peer (set_peer x p) i = (if i = pr_id x then Some x else p2p_peer p i)"
  by (simp add: p2p_peer_def set_peer_def update_conv')

definition peer_ok :: "lanPathPolicyConfig \<Rightarrow> lanP2PPeer \<Rightarrow> bool" where
  "peer_ok pol peer \<longleftrightarrow>
     (pr_datagramReady peer \<longrightarrow> pr_tx peer \<noteq> None \<and> pr_rx peer \<noteq> None \<and> pr_punchSignals peer AND both_signals = both_signals)
     \<and> (pr_isRelay peer \<longrightarrow> relayAvailable pol)"

definition p2p_ok :: "lanP2P \<Rightarrow> bool" where
  "p2p_ok p \<longleftrightarrow> keys_distinct (p2_peers p)
     \<and> (\<forall>(i, peer) \<in> set (p2_peers p). pr_id peer = i \<and> i \<noteq> '''' \<and> i \<noteq> p2_deviceID p \<and> peer_ok (p2_pathPolicy p) peer)
     \<and> intents_ok (p2_sessionIntents p) \<and> hots_ok (p2_hotPaths p)"

lemma p2p_ok_peer:
  assumes "p2p_ok p" "p2p_peer p i = Some peer"
  shows "pr_id peer = i" "i \<noteq> ''''" "i \<noteq> p2_deviceID p" "peer_ok (p2_pathPolicy p) peer"
  using assms by (auto simp: p2p_ok_def p2p_peer_def dest: map_of_SomeD)

lemma p2p_ok_set_peer:
  assumes "p2p_ok p" "p2p_peer p (pr_id peer) \<noteq> None" "peer_ok (p2_pathPolicy p) peer"
  shows "p2p_ok (set_peer peer p)"
proof -
  have "pr_id peer \<noteq> ''''" "pr_id peer \<noteq> p2_deviceID p" using assms(1,2) p2p_ok_peer by blast+
  then show ?thesis using assms(1,3) by (auto simp: p2p_ok_def set_peer_def in_update split: if_splits)
qed


lemma p2p_ok_fields [simp]:
  "p2p_ok (p\<lparr>p2_link := l\<rparr>) = p2p_ok p" "p2p_ok (p\<lparr>p2_router := r\<rparr>) = p2p_ok p" "p2p_ok (p\<lparr>p2_relayTimers := t\<rparr>) = p2p_ok p"
  "p2p_ok (p\<lparr>p2_openRetries := t\<rparr>) = p2p_ok p" "p2p_ok (p\<lparr>p2_registering := t\<rparr>) = p2p_ok p" "p2p_ok (p\<lparr>p2_readLoopGen := g\<rparr>) = p2p_ok p"
  "p2p_ok (p\<lparr>p2_peerConv := c\<rparr>) = p2p_ok p" "p2p_ok (p\<lparr>p2_peerConvProfile := c\<rparr>) = p2p_ok p" "p2p_ok (p\<lparr>p2_conn := k\<rparr>) = p2p_ok p"
  "p2p_ok (p\<lparr>p2_upnpAddr := u\<rparr>) = p2p_ok p" "p2p_ok (p\<lparr>p2_lastRotation := n\<rparr>) = p2p_ok p" "p2p_ok (p\<lparr>p2_rotationCount := n'\<rparr>) = p2p_ok p"
  "p2p_ok (p\<lparr>p2_lastRotationReason := rr\<rparr>) = p2p_ok p"
  by (simp_all add: p2p_ok_def)

lemma p2p_peer_fields [simp]:
  "p2p_peer (p\<lparr>p2_link := l\<rparr>) = p2p_peer p" "p2p_peer (p\<lparr>p2_router := r\<rparr>) = p2p_peer p" "p2p_peer (p\<lparr>p2_relayTimers := t\<rparr>) = p2p_peer p"
  "p2p_peer (p\<lparr>p2_openRetries := t\<rparr>) = p2p_peer p" "p2p_peer (p\<lparr>p2_registering := t\<rparr>) = p2p_peer p" "p2p_peer (p\<lparr>p2_readLoopGen := g\<rparr>) = p2p_peer p"
  "p2p_peer (p\<lparr>p2_peerConv := c\<rparr>) = p2p_peer p" "p2p_peer (p\<lparr>p2_peerConvProfile := c\<rparr>) = p2p_peer p" "p2p_peer (p\<lparr>p2_conn := k\<rparr>) = p2p_peer p"
  "p2p_peer (p\<lparr>p2_upnpAddr := u\<rparr>) = p2p_peer p" "p2p_peer (p\<lparr>p2_lastRotation := n\<rparr>) = p2p_peer p" "p2p_peer (p\<lparr>p2_rotationCount := n'\<rparr>) = p2p_peer p"
  "p2p_peer (p\<lparr>p2_lastRotationReason := rr\<rparr>) = p2p_peer p" "p2p_peer (p\<lparr>p2_hotPaths := hm\<rparr>) = p2p_peer p"
  "p2p_peer (p\<lparr>p2_sessionIntents := im\<rparr>) = p2p_peer p"
  by (simp_all add: p2p_peer_def fun_eq_iff)

lemma p2p_ok_tables [simp]:
  "p2p_ok p \<Longrightarrow> hots_ok hm \<Longrightarrow> p2p_ok (p\<lparr>p2_hotPaths := hm\<rparr>)" "p2p_ok p \<Longrightarrow> intents_ok im \<Longrightarrow> p2p_ok (p\<lparr>p2_sessionIntents := im\<rparr>)"
  by (simp_all add: p2p_ok_def)

lemma p2p_ok_hots: "p2p_ok p \<Longrightarrow> hots_ok (p2_hotPaths p)" and p2p_ok_intents: "p2p_ok p \<Longrightarrow> intents_ok (p2_sessionIntents p)"
  by (simp_all add: p2p_ok_def)

lemma set_peer_fields [simp]:
  "p2_pathPolicy (set_peer x p) = p2_pathPolicy p" "p2_deviceID (set_peer x p) = p2_deviceID p" "p2_server (set_peer x p) = p2_server p"
  "p2_hotPaths (set_peer x p) = p2_hotPaths p" "p2_sessionIntents (set_peer x p) = p2_sessionIntents p"
  "p2_relayTimers (set_peer x p) = p2_relayTimers p" "p2_openRetries (set_peer x p) = p2_openRetries p" "p2_conn (set_peer x p) = p2_conn p"
  by (simp_all add: set_peer_def)

text \<open>An operation keeps the invariant, the policy and the identity of the agent.\<close>

definition keeps :: "lanP2P \<Rightarrow> lanP2P \<Rightarrow> bool" where
  "keeps p p' \<longleftrightarrow> (p2p_ok p \<longrightarrow> p2p_ok p' \<and> p2_pathPolicy p' = p2_pathPolicy p \<and> p2_deviceID p' = p2_deviceID p)"

lemma keeps_refl [simp]: "keeps p p"
  by (simp add: keeps_def)

lemma keeps_trans: "keeps p p' \<Longrightarrow> keeps p' p'' \<Longrightarrow> keeps p p''"
  by (simp add: keeps_def)

lemma keeps_fields [simp]:
  "keeps p (p'\<lparr>p2_link := l\<rparr>) = keeps p p'" "keeps p (p'\<lparr>p2_router := r\<rparr>) = keeps p p'" "keeps p (p'\<lparr>p2_relayTimers := t\<rparr>) = keeps p p'"
  "keeps p (p'\<lparr>p2_openRetries := t\<rparr>) = keeps p p'" "keeps p (p'\<lparr>p2_registering := t\<rparr>) = keeps p p'"
  "keeps p (p'\<lparr>p2_readLoopGen := g\<rparr>) = keeps p p'" "keeps p (p'\<lparr>p2_peerConv := c\<rparr>) = keeps p p'"
  "keeps p (p'\<lparr>p2_peerConvProfile := c\<rparr>) = keeps p p'" "keeps p (p'\<lparr>p2_conn := k\<rparr>) = keeps p p'" "keeps p (p'\<lparr>p2_upnpAddr := u\<rparr>) = keeps p p'"
  "keeps p (p'\<lparr>p2_lastRotation := n\<rparr>) = keeps p p'" "keeps p (p'\<lparr>p2_rotationCount := n'\<rparr>) = keeps p p'"
  "keeps p (p'\<lparr>p2_lastRotationReason := rr\<rparr>) = keeps p p'"
  by (simp_all add: keeps_def)

lemma keeps_hots: "keeps p p' \<Longrightarrow> (hots_ok (p2_hotPaths p') \<Longrightarrow> hots_ok hm) \<Longrightarrow> keeps p (p'\<lparr>p2_hotPaths := hm\<rparr>)"
  by (auto simp: keeps_def p2p_ok_hots)

lemma keeps_intents: "keeps p p' \<Longrightarrow> (intents_ok (p2_sessionIntents p') \<Longrightarrow> intents_ok im) \<Longrightarrow> keeps p (p'\<lparr>p2_sessionIntents := im\<rparr>)"
  by (auto simp: keeps_def p2p_ok_intents)

lemma keeps_set_peer:
  assumes "keeps p p'" "p2p_peer p' i = Some old" "pr_id peer = pr_id old" "peer_ok (p2_pathPolicy p') old \<Longrightarrow> peer_ok (p2_pathPolicy p') peer"
  shows "keeps p (set_peer peer p')"
  unfolding keeps_def
proof
  assume "p2p_ok p"
  with assms(1) have ok: "p2p_ok p'" "p2_pathPolicy p' = p2_pathPolicy p" "p2_deviceID p' = p2_deviceID p" by (auto simp: keeps_def)
  have "pr_id peer = i" "peer_ok (p2_pathPolicy p') peer" using p2p_ok_peer [OF ok(1) assms(2)] assms(3,4) by auto
  then have "p2p_ok (set_peer peer p')" using ok(1) assms(2) by (intro p2p_ok_set_peer) auto
  then show "p2p_ok (set_peer peer p') \<and> p2_pathPolicy (set_peer peer p') = p2_pathPolicy p \<and> p2_deviceID (set_peer peer p') = p2_deviceID p"
    using ok by simp
qed


section \<open>Every operation keeps the invariant\<close>

lemma peer_ok_simps [simp]:
  "peer_ok pol (peer\<lparr>pr_publicKey := a\<rparr>) = peer_ok pol peer" "peer_ok pol (peer\<lparr>pr_x25519Pub := a\<rparr>) = peer_ok pol peer"
  "peer_ok pol (peer\<lparr>pr_addr := b\<rparr>) = peer_ok pol peer" "peer_ok pol (peer\<lparr>pr_upnpAddr := b\<rparr>) = peer_ok pol peer"
  "peer_ok pol (peer\<lparr>pr_punched := c\<rparr>) = peer_ok pol peer" "peer_ok pol (peer\<lparr>pr_punching := c\<rparr>) = peer_ok pol peer"
  "peer_ok pol (peer\<lparr>pr_connected := c\<rparr>) = peer_ok pol peer" "peer_ok pol (peer\<lparr>pr_longPunching := c\<rparr>) = peer_ok pol peer"
  "peer_ok pol (peer\<lparr>pr_registers := d\<rparr>) = peer_ok pol peer" "peer_ok pol (peer\<lparr>pr_openFailures := d\<rparr>) = peer_ok pol peer"
  "peer_ok pol (peer\<lparr>pr_relaySince := n\<rparr>) = peer_ok pol peer" "peer_ok pol (peer\<lparr>pr_lastTrafficAt := n\<rparr>) = peer_ok pol peer"
  "peer_ok pol (peer\<lparr>pr_lastTrafficClass := k\<rparr>) = peer_ok pol peer" "peer_ok pol (peer\<lparr>pr_throughputTx := c\<rparr>) = peer_ok pol peer"
  "peer_ok pol (peer\<lparr>pr_throughputRx := c\<rparr>) = peer_ok pol peer" "peer_ok pol (peer\<lparr>pr_pc := c\<rparr>) = peer_ok pol peer"
  "peer_ok pol (peer\<lparr>pr_throughputPC := c\<rparr>) = peer_ok pol peer" "peer_ok pol (peer\<lparr>pr_kcp := e\<rparr>) = peer_ok pol peer"
  "peer_ok pol (peer\<lparr>pr_throughputKCP := e\<rparr>) = peer_ok pol peer"
  by (simp_all add: peer_ok_def)

lemma peer_ok_flags [simp]:
  "peer_ok pol peer \<Longrightarrow> peer_ok pol (peer\<lparr>pr_isRelay := False\<rparr>)"
  "peer_ok pol peer \<Longrightarrow> relayAvailable pol \<Longrightarrow> peer_ok pol (peer\<lparr>pr_isRelay := r\<rparr>)"
  "peer_ok pol peer \<Longrightarrow> peer_ok pol (peer\<lparr>pr_tx := Some c\<rparr>)" "peer_ok pol peer \<Longrightarrow> peer_ok pol (peer\<lparr>pr_rx := Some c\<rparr>)"
  "peer_ok pol peer \<Longrightarrow> pr_tx peer \<noteq> None \<Longrightarrow> pr_rx peer \<noteq> None \<Longrightarrow> pr_punchSignals peer AND both_signals = both_signals
     \<Longrightarrow> peer_ok pol (peer\<lparr>pr_datagramReady := True\<rparr>)"
  "peer_ok pol peer \<Longrightarrow> peer_ok pol (peer\<lparr>pr_datagramReady := False, pr_punchSignals := s\<rparr>)"
  by (auto simp: peer_ok_def)

lemma signals_grow: "(a :: uint32) AND m = m \<Longrightarrow> (a OR b) AND m = m"
proof (rule bit_eqI)
  fix n assume "a AND m = m" "possible_bit TYPE(uint32) n"
  then have "bit (a AND m) n = bit m n" by simp
  then show "bit ((a OR b) AND m) n = bit m n" by (auto simp: bit_simps)
qed

lemma peer_ok_signal [simp]: "peer_ok pol peer \<Longrightarrow> peer_ok pol (peer\<lparr>pr_punchSignals := pr_punchSignals peer OR s\<rparr>)"
  by (simp add: peer_ok_def signals_grow)

lemma startPunchLoop_peer [simp]: "pr_id (fst (startPunchLoop p peer)) = pr_id peer" "peer_ok pol (fst (startPunchLoop p peer)) = peer_ok pol peer"
  by (simp_all add: startPunchLoop_def)


lemma keeps_rememberHotPath [simp]: "keeps p p' \<Longrightarrow> keeps p (rememberHotPath p' i path now)"
  using hots_ok_rememberHotPath [of "p2_hotPaths p'" "p2_sessionIntents p'"] pruneSessionIntents_ok(1) [of "p2_sessionIntents p'"]
  by (auto simp: rememberHotPath_def Let_def rememberHotPath_at_def activeSessionIntentsForPeer_def hots_ok_fold_remember
      split: option.splits prod.splits intro!: keeps_hots keeps_intents)

lemma keeps_markDatagramReady [simp]: "keeps p p' \<Longrightarrow> keeps p (fst (markDatagramReadyIfConfirmed p' i now))"
  by (auto simp: markDatagramReadyIfConfirmed_def split: option.splits intro!: keeps_rememberHotPath keeps_set_peer)

lemma keeps_markPunchSignal [simp]: "keeps p p' \<Longrightarrow> keeps p (fst (markPunchSignal p' i s now))"
  by (auto simp: markPunchSignal_def split: option.splits intro!: keeps_markDatagramReady keeps_set_peer)

lemma keeps_link_upsert [simp]: "keeps p (link_upsert p' now i a r) = keeps p p'"
  by (simp add: link_upsert_def)

lemma keeps_useDatagramFastPath [simp]: "keeps p p' \<Longrightarrow> keeps p (fst (useDatagramFastPath p' i now))"
  by (auto simp: useDatagramFastPath_def Let_def split: option.splits intro!: keeps_rememberHotPath keeps_set_peer)

lemma keeps_openTunnelUnless [simp]: "keeps p p' \<Longrightarrow> keeps p (fst (openTunnelUnlessDatagramReady p' i now))"
  by (simp add: openTunnelUnlessDatagramReady_def case_prod_unfold split: bool.splits)

lemma keeps_enableLongPunching [simp]: "keeps p p' \<Longrightarrow> keeps p (fst (enableLongPunching p' i))"
  by (auto simp: enableLongPunching_def startPunchLoop_def Let_def split: option.splits intro!: keeps_set_peer)

lemma keeps_enableRelayMode [simp]: "keeps p p' \<Longrightarrow> keeps p (fst (enableRelayMode p' i now))"
  by (auto simp: enableRelayMode_def Let_def split: option.splits intro!: keeps_set_peer)

lemma keeps_timers [simp]:
  "keeps p p' \<Longrightarrow> keeps p (fst (relayFallbackTimer_fires p' i now))" "keeps p (fst (resetRelayTimer p' i)) = keeps p p'"
  "keeps p (fst (scheduleOpenRetry p' i)) = keeps p p'"
  by (simp_all add: relayFallbackTimer_fires_def resetRelayTimer_def scheduleOpenRetry_def Let_def)

lemma keeps_openRetry_fires [simp]: "keeps p p' \<Longrightarrow> keeps p (fst (openRetry_fires p' i now))"
  by (simp add: openRetry_fires_def Let_def case_prod_unfold split: option.splits bool.splits)

lemma keeps_maybeRotate [simp]: "keeps p p' \<Longrightarrow> keeps p (fst (maybeRotateSocketAfterRelayFailure p' i reason now))"
  by (auto simp: maybeRotateSocketAfterRelayFailure_def Let_def split: option.splits intro!: keeps_set_peer)

lemma keeps_reset_loop [simp]: "keeps p p' \<Longrightarrow> keeps p (fst (reset_loop is p'))"
proof (induction "is" arbitrary: p')
  case (Cons i "is")
  show ?case
  proof (cases "p2p_peer p' i")
    case (Some peer)
    then have "keeps p (set_peer (reset_peer peer) p')" using Cons.prems
      by (auto intro!: keeps_set_peer simp: reset_peer_def peer_ok_def)
    then have "keeps p (fst (resetRelayTimer (set_peer (reset_peer peer) p') i))" by simp
    then show ?thesis using Cons.IH Some by (simp add: Let_def case_prod_unfold)
  qed (simp add: Cons)
qed simp

lemma keeps_writeLANRegister [simp]: "keeps p p' \<Longrightarrow> keeps p (fst (writeLANRegister cr p' i now))"
  by (auto simp: writeLANRegister_def split: option.splits intro!: keeps_set_peer)

lemma keeps_register_all [simp]: "keeps p p' \<Longrightarrow> keeps p (fst (register_all cr is p' now))"
proof (induction "is" arbitrary: p')
  case (Cons i "is")
  then have "keeps p (fst (writeLANRegister cr p' i now))" by simp
  then show ?case using Cons.IH by (simp add: Let_def case_prod_unfold)
qed simp

lemma keeps_rotate [simp]: "keeps p p' \<Longrightarrow> keeps p (fst (rotateSocketAndRestartPunch cr p' reason listens upnp now))"
proof -
  assume k: "keeps p p'"
  define q where "q = p'\<lparr>p2_conn := True, p2_upnpAddr := upnp, p2_lastRotation := UnixNano now, p2_rotationCount := p2_rotationCount p' + 1,
                    p2_lastRotationReason := Some reason\<rparr>"
  have "keeps p (fst (resetAllPeersAfterSocketRotation q))" using k by (simp add: resetAllPeersAfterSocketRotation_def q_def)
  then have "keeps p (fst (startReadLoop (fst (resetAllPeersAfterSocketRotation q))))" by (simp add: startReadLoop_def)
  then show ?thesis using k
    by (simp add: rotateSocketAndRestartPunch_def Let_def q_def reregisterAllPeers_def case_prod_unfold)
qed


lemma Codec_Seal_Some: "\<exists>c' r. Codec_Seal (Some c) payload = (Some c', r)"
  by (simp add: Codec_Seal_def Let_def split: option.split)

lemma Codec_Open_Some: "\<exists>c' r. Codec_Open (Some c) frame = Some (Some c', r)"
  using Codec_Open_step [of c frame] by blast

lemma Transport_Some:
  "\<exists>c' r. Transport_Seal (Some c) payload = (Some c', r)" "\<exists>c' r. Transport_Open (Some c) frame = Some (Some c', r)"
  using Codec_Seal_Some [of c payload] Codec_Open_Some [of c frame]
  by (auto simp: Transport_Seal_def Transport_Open_def split: sum.splits)

lemma keeps_resetPeer [simp]: "keeps p p' \<Longrightarrow> keeps p (fst (resetPeerAfterOpenFailure p' i c now))"
  by (auto simp: resetPeerAfterOpenFailure_def Let_def case_prod_unfold split: option.splits bool.splits intro!: keeps_maybeRotate keeps_set_peer)

lemma keeps_openTunnel_begin [simp]: "keeps p p' \<Longrightarrow> keeps p (fst (openTunnel_begin p' i now))"
  by (auto simp: openTunnel_begin_def Let_def case_prod_unfold split: option.splits bool.splits intro!: keeps_set_peer)

lemma keeps_openTunnel_end [simp]: "keeps p p' \<Longrightarrow> keeps p (fst (openTunnel_end p' i res now))"
  by (auto simp: openTunnel_end_def Let_def split: open_result.splits option.splits
      intro!: keeps_resetPeer keeps_rememberHotPath keeps_set_peer)

lemma keeps_openThroughput [simp]:
  "keeps p p' \<Longrightarrow> keeps p (fst (openThroughputTunnel_begin p' i))" "keeps p p' \<Longrightarrow> keeps p (fst (openThroughputTunnel_end p' i res))"
  by (auto simp: openThroughputTunnel_begin_def openThroughputTunnel_end_def Let_def split: open_result.splits option.splits intro!: keeps_set_peer)

lemma keeps_inbound [simp]: "keeps p (fst (inbound p' i payload path now)) = keeps p p'"
  by (simp add: inbound_def)

lemma keeps_set_rx: "keeps p p' \<Longrightarrow> p2p_peer p' i = Some peer \<Longrightarrow> keeps p (set_peer (peer\<lparr>pr_rx := Some c\<rparr>) p')"
  using keeps_set_peer by fastforce

lemma keeps_set_tx: "keeps p p' \<Longrightarrow> p2p_peer p' i = Some peer \<Longrightarrow> keeps p (set_peer (peer\<lparr>pr_tx := Some c\<rparr>) p')"
  using keeps_set_peer by fastforce

lemma keeps_readTunnelFrames_frame:
  assumes "keeps p p'" shows "\<exists>q out. readTunnelFrames_frame p' i payload now = Some (q, out) \<and> keeps p q"
proof (cases "p2p_peer p' i")
  case (Some peer)
  show ?thesis
  proof (cases "pr_rx peer")
    case None
    then show ?thesis using assms Some by (simp add: readTunnelFrames_frame_def Let_def inbound_def)
  next
    case (Some rx)
    with Codec_Open_Some [of rx payload] obtain c' r where "Codec_Open (Some rx) payload = Some (Some c', r)" by blast
    then show ?thesis using assms Some \<open>p2p_peer p' i = Some peer\<close> keeps_set_rx [OF assms \<open>p2p_peer p' i = Some peer\<close>]
      by (auto simp: readTunnelFrames_frame_def Let_def inbound_def split: sum.splits)
  qed
qed (use assms in \<open>simp add: readTunnelFrames_frame_def\<close>)

lemma keeps_tunnel_errors [simp]:
  "keeps p p' \<Longrightarrow> keeps p (fst (readTunnelFrames_error p' i c))" "keeps p p' \<Longrightarrow> keeps p (fst (readThroughputTunnelFrames_error p' i c))"
  by (auto simp: readTunnelFrames_error_def readThroughputTunnelFrames_error_def Let_def case_prod_unfold hots_ok_ops
      split: option.splits intro!: keeps_set_peer keeps_hots)

lemma keeps_readThroughputTunnelFrames_frame:
  assumes "keeps p p'" shows "\<exists>q out. readThroughputTunnelFrames_frame p' i payload now = Some (q, out) \<and> keeps p q"
proof (cases "p2p_peer p' i")
  case (Some peer)
  show ?thesis
  proof (cases "pr_rx peer")
    case None
    then show ?thesis using assms Some keeps_set_peer [OF assms Some, of "peer\<lparr>pr_rx := None\<rparr>"]
      by (auto simp: readThroughputTunnelFrames_frame_def Let_def inbound_def Codec_Open_def peer_ok_def)
  next
    case (Some rx)
    with Codec_Open_Some [of rx payload] obtain c' r where "Codec_Open (Some rx) payload = Some (Some c', r)" by blast
    then show ?thesis using assms Some \<open>p2p_peer p' i = Some peer\<close> keeps_set_rx [OF assms \<open>p2p_peer p' i = Some peer\<close>]
      by (auto simp: readThroughputTunnelFrames_frame_def Let_def inbound_def split: sum.splits)
  qed
qed (use assms in \<open>simp add: readThroughputTunnelFrames_frame_def\<close>)

lemma keeps_handleDatagramFrame:
  assumes "keeps p p'" shows "\<exists>q out. handleDatagramFrame p' i data now = Some (q, out) \<and> keeps p q"
proof (cases "\<exists>peer rx. p2p_peer p' i = Some peer \<and> pr_rx peer = Some rx")
  case True
  then obtain peer rx where p: "p2p_peer p' i = Some peer" "pr_rx peer = Some rx" by blast
  with Transport_Some(2) [of rx data] obtain c' r where "Transport_Open (Some rx) data = Some (Some c', r)" by blast
  then show ?thesis using assms p keeps_set_rx [OF assms p(1)]
    by (auto simp: handleDatagramFrame_def inbound_def Let_def split: sum.splits)
qed (use assms in \<open>auto simp: handleDatagramFrame_def split: option.splits\<close>)

lemma keeps_OpenRelayFrame:
  assumes "keeps p p'" shows "\<exists>q res. OpenRelayFrame p' frame = Some (q, res) \<and> keeps p q"
proof (cases "\<exists>peer rx. p2p_peer p' (rf_SrcDevice frame) = Some peer \<and> pr_rx peer = Some rx")
  case True
  then obtain peer rx where p: "p2p_peer p' (rf_SrcDevice frame) = Some peer" "pr_rx peer = Some rx" by blast
  with Codec_Open_Some [of rx "rf_Payload frame"] obtain c' r where "Codec_Open (Some rx) (rf_Payload frame) = Some (Some c', r)" by blast
  then show ?thesis using assms p keeps_set_rx [OF assms p(1)] by (auto simp: OpenRelayFrame_def Let_def split: sum.splits)
qed (use assms in \<open>auto simp: OpenRelayFrame_def split: option.splits\<close>)

lemma keeps_handleUDPRelayFrame:
  assumes "keeps p p'" shows "\<exists>q out. handleUDPRelayFrame p' data now = Some (q, out) \<and> keeps p q"
proof -
  obtain res where res: "UnpackRelayFrameView data = Some res" using UnpackRelayFrameView_total by blast
  show ?thesis
  proof (cases "\<exists>frame peer rx. res = Inr frame \<and> p2p_peer p' (rl_SrcDevice frame) = Some peer \<and> pr_rx peer = Some rx")
    case True
    then obtain frame peer rx where p: "res = Inr frame" "p2p_peer p' (rl_SrcDevice frame) = Some peer" "pr_rx peer = Some rx" by blast
    with Codec_Open_Some [of rx "rl_Payload frame"] obtain c' r where "Codec_Open (Some rx) (rl_Payload frame) = Some (Some c', r)" by blast
    then show ?thesis using assms p res keeps_set_rx [OF assms p(2)]
      by (auto simp: handleUDPRelayFrame_def inbound_def Let_def split: sum.splits)
  qed (use assms res in \<open>auto simp: handleUDPRelayFrame_def split: sum.splits option.splits\<close>)
qed


lemma ensurePeerCodecs_peer [simp]: "pr_id (ensurePeerCodecs cr p peer) = pr_id peer" "peer_ok pol peer \<Longrightarrow> peer_ok pol (ensurePeerCodecs cr p peer)"
  by (auto simp: ensurePeerCodecs_def split: sum.splits)

lemma keeps_peer_info [simp]:
  assumes "keeps p p'" shows "keeps p (fst (control_peer_info cr resolve p' msg now))"
proof (cases "p2p_peer p' (msg_Peer msg)")
  case (Some peer)
  have set: "keeps p (set_peer x p')" if "pr_id x = pr_id peer" "peer_ok (p2_pathPolicy p') peer \<Longrightarrow> peer_ok (p2_pathPolicy p') x" for x
    using keeps_set_peer [OF assms Some] that by blast
  have set_link: "keeps p (set_peer x (link_upsert p' now i a r))"
    if "pr_id x = pr_id peer" "peer_ok (p2_pathPolicy p') peer \<Longrightarrow> peer_ok (p2_pathPolicy p') x" for x i a r
    using keeps_set_peer [of p "link_upsert p' now i a r" "msg_Peer msg" peer x] assms Some that by (simp add: link_upsert_def)
  define e where "e = ensurePeerCodecs cr p' (peer\<lparr>pr_x25519Pub := msg_Payload msg\<rparr>)"
  define e1 where "e1 addr = (if \<not> pr_isRelay e \<or> \<not> pp_RelayOnly (p2_pathPolicy p') then e\<lparr>pr_addr := Some addr\<rparr> else e)" for addr
  define e2 where "e2 addr = (e1 addr)\<lparr>pr_pc := pr_pc (e1 addr) \<or> p2_conn p'\<rparr>" for addr
  define e3 where "e3 addr = (if TrimSpace (msg_UpnpAddr msg) \<noteq> '''' then
      (case resolve (msg_UpnpAddr msg) of None \<Rightarrow> e2 addr | Some u \<Rightarrow> (e2 addr)\<lparr>pr_upnpAddr := Some u\<rparr>) else e2 addr)" for addr
  have e: "pr_id e = pr_id peer" "peer_ok (p2_pathPolicy p') peer \<Longrightarrow> peer_ok (p2_pathPolicy p') e" by (simp_all add: e_def)
  have e3: "pr_id (e3 addr) = pr_id peer" "peer_ok (p2_pathPolicy p') peer \<Longrightarrow> peer_ok (p2_pathPolicy p') (e3 addr)" for addr
    using e by (auto simp: e3_def e2_def e1_def split: option.splits)
  show ?thesis
    unfolding control_peer_info_def Some Let_def case_prod_unfold option.case e_def [symmetric]
    unfolding e1_def [symmetric]
    unfolding e2_def [symmetric]
    unfolding e3_def [symmetric]
    by (simp add: set set_link e e3 split: option.split)
qed (use assms in \<open>simp add: control_peer_info_def\<close>)

lemma keeps_punch_observed [simp]:
  assumes "keeps p p'" shows "keeps p (fst (punch_observed p' src msg signal now))"
proof (cases "p2p_peer p' (msg_From msg)")
  case (Some peer)
  define e where "e = (if \<not> pr_isRelay peer \<or> \<not> pp_RelayOnly (p2_pathPolicy p') then peer\<lparr>pr_addr := Some src\<rparr> else peer)"
  have 1: "keeps p (set_peer e p')" using keeps_set_peer [OF assms Some, of e] by (simp add: e_def split: if_splits)
  define s where "s = (if msg_Payload msg = lanDatagramReadyFrame then markPunchSignal (set_peer e p') (msg_From msg) signal now
      else (set_peer e p', False))"
  have 2: "keeps p (fst s)" using 1 by (simp add: s_def)
  have 3: "keeps p (set_peer (x\<lparr>pr_punched := True\<rparr>) (fst s))" if "p2p_peer (fst s) (msg_From msg) = Some x" for x
    using keeps_set_peer [OF 2 that, of "x\<lparr>pr_punched := True\<rparr>"] by simp
  show ?thesis
    unfolding punch_observed_def Some Let_def case_prod_unfold option.case e_def [symmetric]
    unfolding s_def [symmetric]
    using 2 3 by (cases "p2p_peer (fst s) (msg_From msg)") simp_all
qed (use assms in \<open>simp add: punch_observed_def\<close>)

lemma keeps_handleControl [simp]: "keeps p p' \<Longrightarrow> keeps p (fst (handleControl cr resolve p' decoded src now))"
  by (simp add: handleControl_def Let_def case_prod_unfold split: option.splits)

lemma keeps_readLoop_datagram:
  assumes "keeps p p'" shows "\<exists>q out. readLoop_datagram cr resolve decode p' data src now = Some (q, out) \<and> keeps p q"
  using keeps_handleUDPRelayFrame [OF assms, of data now] keeps_handleDatagramFrame [OF assms, of _ data now]
    keeps_handleControl [OF assms, of cr resolve "decode data" src now] assms
  by (cases "handleControl cr resolve p' (decode data) src now") (auto simp: readLoop_datagram_def split: prod.splits option.splits)

text \<open>The senders write back the peer they looked up, with a codec where there was one.\<close>

definition sends :: "lanP2PPeer \<Rightarrow> lanP2PPeer \<Rightarrow> bool" where
  "sends peer peer' \<longleftrightarrow> pr_id peer' = pr_id peer \<and> (\<forall>pol. peer_ok pol peer \<longrightarrow> peer_ok pol peer') \<and> pr_kcp peer' = pr_kcp peer
     \<and> pr_throughputKCP peer' = pr_throughputKCP peer"

lemma sends_refl [simp]: "sends peer peer"
  by (simp add: sends_def)

lemma sends_trans: "sends a b \<Longrightarrow> sends b c \<Longrightarrow> sends a c"
  by (simp add: sends_def)

lemma Codec_Seal_tx: "Codec_Seal (pr_tx peer) payload = (tx, r) \<Longrightarrow> sends peer (peer\<lparr>pr_tx := tx\<rparr>)"
  using Codec_Seal_Some [of "the (pr_tx peer)" payload]
  by (cases "pr_tx peer") (auto simp: sends_def Codec_Seal_def peer_ok_def)

lemma sends_sendViaFastPath [simp]: "sends peer (fst (sendViaFastPath io p frame peer))"
  by (auto simp: sendViaFastPath_def split: option.splits prod.splits sum.splits intro: Codec_Seal_tx)

lemma sends_send_datagram [simp]: "sends peer (fst (send_datagram io p peer payload))"
  using Transport_Some(1) [of "the (pr_tx peer)" payload]
  by (auto simp: send_datagram_def sends_def split: option.splits prod.splits sum.splits bool.splits)

lemma sends_send_kcp [simp]: "sends peer (fst (send_kcp io peer payload))"
  using Codec_Seal_Some [of "the (pr_tx peer)" payload]
  by (auto simp: send_kcp_def sends_def split: option.splits prod.splits sum.splits)

lemma keeps_sends: "keeps p p' \<Longrightarrow> p2p_peer p' i = Some peer \<Longrightarrow> sends peer peer' \<Longrightarrow> keeps p (set_peer peer' p')"
  by (rule keeps_set_peer [of p p' i peer]) (auto simp: sends_def)

lemma keeps_SendDatagram [simp]: "keeps p p' \<Longrightarrow> keeps p (fst (SendDatagram io p' frame))"
  by (auto simp: SendDatagram_def case_prod_unfold split: option.splits intro!: keeps_sends)

lemma keeps_P2P_Send [simp]:
  assumes "keeps p p'" shows "keeps p (fst (P2P_Send io p' frame now))"
proof (cases "p2p_peer p' (rf_DstDevice frame)")
  case (Some peer)
  let ?peer = "peer\<lparr>pr_lastTrafficClass := Some (classifyLANFrame frame), pr_lastTrafficAt := UnixNano now\<rparr>"
  have 0: "sends peer ?peer" by (simp add: sends_def)
  have 1: "sends peer (fst (sendViaFastPath io p' frame ?peer))" using sends_trans [OF 0 sends_sendViaFastPath] .
  have 2: "sends peer (fst (send_datagram io p' (fst (sendViaFastPath io p' frame ?peer)) (rf_Payload frame)))"
    using sends_trans [OF 1 sends_send_datagram] .
  note 3 = sends_trans [OF 1 sends_send_kcp] sends_trans [OF 2 sends_send_kcp]
  note [simp] = keeps_sends [OF assms Some]
  show ?thesis using assms 0 1 2 3
    by (simp add: P2P_Send_def Some Let_def case_prod_unfold split: bool.splits)
qed (use assms in \<open>simp add: P2P_Send_def\<close>)


lemma keeps_seal_relay_loop [simp]: "keeps p p' \<Longrightarrow> keeps p (fst (seal_relay_loop frames p'))"
proof (induction frames arbitrary: p')
  case (Cons frame frames)
  show ?case
  proof (cases "\<exists>peer tx. p2p_peer p' (rf_DstDevice frame) = Some peer \<and> pr_tx peer = Some tx")
    case True
    then obtain peer tx where p: "p2p_peer p' (rf_DstDevice frame) = Some peer" "pr_tx peer = Some tx" by blast
    with Codec_Seal_Some [of tx "rf_Payload frame"] obtain c' r where c: "Codec_Seal (Some tx) (rf_Payload frame) = (Some c', r)" by blast
    have "keeps p (set_peer (peer\<lparr>pr_tx := Some c'\<rparr>) p')" using keeps_set_tx [OF Cons.prems p(1)] .
    with Cons.IH show ?thesis using p c by (cases r) (simp_all add: case_prod_unfold split: sum.splits)
  qed (use Cons in \<open>auto split: option.splits\<close>)
qed simp

lemma keeps_punch_tick [simp]:
  "keeps p p' \<Longrightarrow> keeps p (fst (on_peer p' i (\<lambda>peer. case punchLoop_tick p' peer interval now of (peer, out, _) \<Rightarrow> (peer, out))))"
  by (auto simp: on_peer_def punchLoop_tick_def Let_def split: option.splits intro!: keeps_set_peer)

lemma keeps_badNAT_fold:
  "keeps p (fst s) \<Longrightarrow> keeps p (fst (fold (\<lambda>i (p, out). let (p, more) = enableRelayMode p i now in (p, out @ more)) is s))"
  by (induction "is" arbitrary: s) (simp_all add: Let_def case_prod_unfold)

lemma keeps_enableRelayForBadNAT [simp]: "keeps p p' \<Longrightarrow> keeps p (fst (enableRelayForBadNAT p' now))"
  using keeps_badNAT_fold [of p "(p', [])" now "map fst (p2_peers p')"] by (simp add: enableRelayForBadNAT_def)

lemma keeps_tryUseHotPath [simp]:
  assumes "keeps p p'" shows "keeps p (fst (tryUseHotPath resolve p' i intent now))"
proof (cases "p2p_peer p' i")
  case (Some peer)
  note hots = hots_ok_hotPath [of "p2_hotPaths p'" "si_PeerID intent" "si_DstPort intent" now]
  have 1: "keeps p (p'\<lparr>p2_hotPaths := fst (hotPath (p2_hotPaths p') (si_PeerID intent) (si_DstPort intent) now)\<rparr>)"
    "keeps p (p'\<lparr>p2_hotPaths := markHotPathFailure (fst (hotPath (p2_hotPaths p') (si_PeerID intent) (si_DstPort intent) now)) (si_PeerID intent) (si_DstPort intent) r\<rparr>)" for r
    using assms hots by (auto intro!: keeps_hots hots_ok_markHotPathFailure)
  have 2: "keeps p (set_peer (fst (startPunchLoop q (peer\<lparr>pr_addr := a, pr_longPunching := False, pr_punched := False\<rparr>)))
      (p'\<lparr>p2_hotPaths := fst (hotPath (p2_hotPaths p') (si_PeerID intent) (si_DstPort intent) now)\<rparr>))" for q a
    by (rule keeps_set_peer [OF 1(1), of i peer]) (simp_all add: Some)
  show ?thesis using assms 1 2 by (simp add: tryUseHotPath_def Some Let_def case_prod_unfold split: option.splits)
qed (use assms in \<open>simp add: tryUseHotPath_def\<close>)

lemma keeps_preheat_one [simp]: "keeps p p' \<Longrightarrow> keeps p (fst (preheat_one resolve p' hot))"
  by (auto simp: preheat_one_def Let_def case_prod_unfold split: option.splits intro!: keeps_set_peer keeps_hots hots_ok_markHotPathFailure)

lemma keeps_keepAlive [simp]: "keeps p p' \<Longrightarrow> keeps p (fst (sendDueHotPathKeepAlive p' i now))"
  by (auto simp: sendDueHotPathKeepAlive_def Let_def case_prod_unfold split: option.splits intro!: keeps_hots hots_ok_dueHotPaths)

lemma keeps_RecordSessionIntent [simp]:
  assumes "keeps p p'" shows "keeps p (fst (RecordSessionIntent resolve p' frame now))"
proof (cases "newLANSessionIntent frame now")
  case (Some intent)
  show ?thesis
  proof (cases "p2p_peer p' (si_PeerID intent)")
    case (Some peer)
    define q where "q = p'\<lparr>p2_sessionIntents := record_intent (p2_sessionIntents p') intent now\<rparr>"
    have 1: "keeps p q" using assms record_intent_ok(1) newLANSessionIntent_key [OF \<open>newLANSessionIntent frame now = Some intent\<close>]
      by (auto simp: q_def intro!: keeps_intents)
    define q1 where "q1 = set_peer (peer\<lparr>pr_lastTrafficClass := Some (si_TrafficClass intent), pr_lastTrafficAt := UnixNano now\<rparr>) q"
    have 2: "keeps p q1" unfolding q1_def by (rule keeps_set_peer [OF 1, of "si_PeerID intent" peer]) (simp_all add: q_def Some)
    define q2 where "q2 = tryUseHotPath resolve q1 (pr_id peer) intent now"
    have 3: "keeps p (fst q2)" using 2 by (simp add: q2_def)
    have 4: "keeps p (set_peer (fst (startPunchLoop r ((if c then x\<lparr>pr_longPunching := True\<rparr> else x)\<lparr>pr_punched := False\<rparr>))) (fst q2))"
      if "p2p_peer (fst q2) (pr_id peer) = Some x" for x c r
      by (rule keeps_set_peer [OF 3 that]) simp_all
    show ?thesis unfolding RecordSessionIntent_def \<open>newLANSessionIntent frame now = Some intent\<close> option.case Some Let_def q_def [symmetric]
      unfolding q1_def [symmetric] unfolding q2_def [symmetric]
      using 3 4 by (simp add: case_prod_unfold split: option.split)
  qed (use assms Some in \<open>simp add: RecordSessionIntent_def\<close>)
qed (use assms in \<open>simp add: RecordSessionIntent_def\<close>)

lemma keeps_start_stop [simp]:
  "keeps p p' \<Longrightarrow> keeps p (p'\<lparr>p2_hotPaths := LoadLearnedPaths parse (p2_hotPaths p') now paths\<rparr>)"
  "keeps p (fst (startReadLoop p')) = keeps p p'" "keeps p (closeCurrentSocket p') = keeps p p'"
  by (auto simp: startReadLoop_def closeCurrentSocket_def hots_ok_LoadLearnedPaths intro!: keeps_hots)

lemma keeps_run_goroutine [simp]: "keeps p (fst (run_goroutine E g p now))"
  by (cases g) simp_all

lemma keeps_new_peer:
  assumes "keeps p p'" "i \<noteq> ''''" "i \<noteq> p2_deviceID p'" "pr_id peer = i"
    "\<And>old. p2p_peer p' i = Some old \<Longrightarrow> peer_ok (p2_pathPolicy p') old \<Longrightarrow> peer_ok (p2_pathPolicy p') peer"
    "p2p_peer p' i = None \<Longrightarrow> peer_ok (p2_pathPolicy p') peer"
  shows "keeps p (p'\<lparr>p2_peers := AList.update i peer (p2_peers p')\<rparr>)"
  unfolding keeps_def
proof
  assume "p2p_ok p"
  with assms(1) have ok: "p2p_ok p'" "p2_pathPolicy p' = p2_pathPolicy p" "p2_deviceID p' = p2_deviceID p" by (auto simp: keeps_def)
  have "peer_ok (p2_pathPolicy p') peer"
    using assms(5,6) p2p_ok_peer(4) [OF ok(1)] by (cases "p2p_peer p' i") auto
  then show "p2p_ok (p'\<lparr>p2_peers := AList.update i peer (p2_peers p')\<rparr>) \<and>
      p2_pathPolicy (p'\<lparr>p2_peers := AList.update i peer (p2_peers p')\<rparr>) = p2_pathPolicy p \<and>
      p2_deviceID (p'\<lparr>p2_peers := AList.update i peer (p2_peers p')\<rparr>) = p2_deviceID p"
    using ok assms(2-4) by (auto simp: p2p_ok_def in_update split: if_splits)
qed

lemma keeps_registerPeerConvs: "keeps p p' \<Longrightarrow> registerPeerConvs cr p' i = Some q \<Longrightarrow> keeps p q"
  by (auto simp: registerPeerConvs_def bind_eq_Some_conv split: if_splits)

lemma keeps_upsert_one:
  assumes "keeps p p'" "p2p_ok p" "upsert_one cr p' info = Some (q, out)" shows "keeps p q"
proof (cases "TrimSpace (fst info) = '''' \<or> TrimSpace (fst info) = p2_deviceID p'")
  case False
  let ?i = "TrimSpace (fst info)"
  define peer where "peer = (case p2p_peer p' ?i of None \<Rightarrow> new_peer ?i (snd info) | Some existing \<Rightarrow> existing\<lparr>pr_publicKey := snd info\<rparr>)"
  have "p2p_ok p'" using assms(1,2) by (simp add: keeps_def)
  then have id: "pr_id peer = ?i" using p2p_ok_peer(1) [of p' ?i] by (auto simp: peer_def new_peer_def split: option.split)
  have 1: "keeps p (p'\<lparr>p2_peers := AList.update ?i peer (p2_peers p')\<rparr>)"
    by (rule keeps_new_peer [OF assms(1) _ _ id]) (use False in \<open>auto simp: peer_def peer_ok_def new_peer_def\<close>)
  from assms(3) False obtain r where r: "registerPeerConvs cr (p'\<lparr>p2_peers := AList.update ?i peer (p2_peers p')\<rparr>) ?i = Some r"
    "q = r \<or> q = r\<lparr>p2_registering := (p2_registering r)(?i := True)\<rparr>
      \<or> q = fst (resetRelayTimer r ?i) \<or> q = fst (resetRelayTimer (r\<lparr>p2_registering := (p2_registering r)(?i := True)\<rparr>) ?i)"
    by (auto simp: upsert_one_def Let_def peer_def [symmetric] case_prod_unfold bind_eq_Some_conv split: if_splits)
  then show ?thesis using keeps_registerPeerConvs [OF 1 r(1)] by auto
qed (use assms in \<open>auto simp: upsert_one_def\<close>)

lemma keeps_UpsertPeers: "keeps p p' \<Longrightarrow> p2p_ok p \<Longrightarrow> UpsertPeers cr infos p' = Some (q, out) \<Longrightarrow> keeps p q"
proof (induction infos arbitrary: p' q out)
  case (Cons info infos)
  then obtain r o1 o2 where "upsert_one cr p' info = Some (r, o1)" "UpsertPeers cr infos r = Some (q, o2)"
    by (auto simp: bind_eq_Some_conv)
  then show ?case using Cons.IH keeps_upsert_one Cons.prems by blast
qed simp

lemma p2p_exec_keeps:
  assumes "p2p_ok p" "p2p_exec E ev p now = Some (p', out)" shows "keeps p p'"
proof (cases ev)
  case (EvPeers infos)
  then show ?thesis using keeps_UpsertPeers [OF keeps_refl assms(1)] assms(2) by simp
next
  case (EvDatagram data src)
  then show ?thesis using keeps_readLoop_datagram [OF keeps_refl, of "en_crypto E" "en_resolve E" "en_decode E" p data src now] assms(2) by auto
next
  case (EvTunnelFrame i payload)
  then show ?thesis using keeps_readTunnelFrames_frame [OF keeps_refl, of p i payload now] assms(2) by auto
next
  case (EvThroughputFrame i payload)
  then show ?thesis using keeps_readThroughputTunnelFrames_frame [OF keeps_refl, of p i payload now] assms(2) by auto
next
  case (EvOpenRelay frame)
  then show ?thesis using keeps_OpenRelayFrame [OF keeps_refl, of p frame] assms(2) by auto
next
  case (EvSend frame)
  then show ?thesis using keeps_P2P_Send [of p p "en_io E" frame now] assms(2) by (auto simp: case_prod_unfold)
next
  case (EvSendDatagram frame)
  then show ?thesis using keeps_SendDatagram [of p p "en_io E" frame] assms(2) by (auto simp: case_prod_unfold)
next
  case (EvSealRelay frames)
  then show ?thesis using keeps_seal_relay_loop [of p p frames] assms(2) by (auto simp: SealRelayFrames_def)
next
  case (EvPunchTick i interval)
  then show ?thesis using keeps_punch_tick [of p p i interval now] assms(2) by (auto simp: case_prod_unfold)
qed (use assms(2) in \<open>auto dest: arg_cong [of _ _ fst] simp: prod_eq_iff\<close>)


section \<open>The invariant\<close>

lemma p2p_initial_ok: "p2p_initial p \<Longrightarrow> p2p_ok p"
  by (simp add: p2p_initial_def p2p_ok_def intents_ok_def keyed_ok_def)

lemma reachable_ok:
  assumes "p2p_reachable E pol s" shows "p2p_ok (fst s) \<and> p2_pathPolicy (fst s) = pol"
  using assms
proof (induction rule: p2p_reachable.induct)
  case (after s out s')
  then show ?case using p2p_exec_keeps by (fastforce elim!: p2p_step.cases simp: keeps_def)
qed (simp add: p2p_initial_ok)

definition demo_agent :: "lanPathPolicyConfig \<Rightarrow> lanP2P" where
  "demo_agent pol = new_p2p ''s:1'' '''' pol ''auto'' ''a'' \<lparr>id_Algorithm = '''', id_PrivateKey = '''', id_PublicKey = ''''\<rparr>
     demo_router demo_link (replicate 32 1) ''''"

definition demo_policy :: "bool \<Rightarrow> lanPathPolicyConfig" where
  "demo_policy relayOnly = \<lparr>pp_Name = '''', pp_PreferRelay = relayOnly, pp_RelayOnly = relayOnly, pp_RelayEnabled = True, pp_RelayConfigured = True\<rparr>"

definition demo_crypto :: p2p_crypto where
  "demo_crypto = \<lparr>pc_X25519 = (\<lambda>a b. Some (map2 (+) a b)), pc_hkdf = (\<lambda>s salt info. Inr (take 32 (s @ replicate 32 0))),
     pc_aead = (\<lambda>_. Inr sum_aead), pc_hmac = (\<lambda>k m. replicate 32 (of_nat (length m))),
     pc_ed = \<lparr>ed_Sign = (\<lambda>_ _. replicate 64 0), ed_Verify = (\<lambda>_ _ _. True), ed_Public = id\<rparr>\<rparr>"

definition demo_env :: p2p_env where
  "demo_env = \<lparr>en_crypto = demo_crypto, en_resolve = Some, en_decode = (\<lambda>_. None),
     en_io = \<lparr>io_udp = (\<lambda>_ _. None), io_kcp = (\<lambda>_ _. None)\<rparr>, en_parse = (\<lambda>_. None)\<rparr>"

lemma registerPeerConvs_total:
  assumes "\<And>k m. 4 \<le> length (pc_hmac cr k m)"
  shows "\<exists>c c'. registerPeerConvs cr p i = Some (p\<lparr>p2_peerConv := c, p2_peerConvProfile := c'\<rparr>)"
proof -
  have conv: "\<exists>v. ConvID (pc_hmac cr) psk a b profile = Some v" for psk a b profile
    using assms Uint32_Some [of "take 4 (pc_hmac cr (bytes_of psk) (conv_message a b profile))"] by (auto simp: ConvID_def slice_ok)
  obtain v w where "ConvID (pc_hmac cr) '''' (p2_deviceID p) i ProfileLANPacket = Some v"
    "ConvID (pc_hmac cr) '''' (p2_deviceID p) i ProfileBulk = Some w" using conv by meson
  moreover have "\<exists>c c'. p = p\<lparr>p2_peerConv := c, p2_peerConvProfile := c'\<rparr>"
    by (intro exI [of _ "p2_peerConv p"] exI [of _ "p2_peerConvProfile p"]) simp
  ultimately show ?thesis by (cases "TrimSpace i = ''''") (auto simp: registerPeerConvs_def)
qed

lemma upsert_one_total:
  assumes "\<And>k m. 4 \<le> length (pc_hmac cr k m)" shows "\<exists>q out. upsert_one cr p info = Some (q, out)"
proof -
  let ?i = "TrimSpace (fst info)"
  let ?peer = "case p2p_peer p ?i of None \<Rightarrow> new_peer ?i (snd info) | Some existing \<Rightarrow> existing\<lparr>pr_publicKey := snd info\<rparr>"
  obtain r where "registerPeerConvs cr (p\<lparr>p2_peers := AList.update ?i ?peer (p2_peers p)\<rparr>) ?i = Some r"
    using registerPeerConvs_total [OF assms] by meson
  then show ?thesis by (simp add: upsert_one_def Let_def case_prod_unfold)
qed

lemma UpsertPeers_total:
  assumes "\<And>k m. 4 \<le> length (pc_hmac cr k m)" shows "\<exists>q out. UpsertPeers cr infos p = Some (q, out)"
proof (induction infos arbitrary: p)
  case (Cons info infos)
  obtain r out where "upsert_one cr p info = Some (r, out)" using upsert_one_total [OF assms] by blast
  then show ?case using Cons.IH [of r] by auto
qed simp



text \<open>A run of the concrete agent: a configuration with one peer arrives.\<close>

lemma upsert_one_adds:
  assumes "upsert_one cr p info = Some (q, out)" "TrimSpace (fst info) \<noteq> ''''" "TrimSpace (fst info) \<noteq> p2_deviceID p"
  shows "p2p_peer q (TrimSpace (fst info)) \<noteq> None"
proof -
  let ?i = "TrimSpace (fst info)"
  define peer where "peer = (case p2p_peer p ?i of None \<Rightarrow> new_peer ?i (snd info) | Some existing \<Rightarrow> existing\<lparr>pr_publicKey := snd info\<rparr>)"
  obtain r where r: "registerPeerConvs cr (p\<lparr>p2_peers := AList.update ?i peer (p2_peers p)\<rparr>) ?i = Some r"
    using assms by (cases "registerPeerConvs cr (p\<lparr>p2_peers := AList.update ?i peer (p2_peers p)\<rparr>) ?i")
      (simp_all add: upsert_one_def Let_def peer_def [symmetric])
  with assms have "p2_peers q = p2_peers r"
    by (auto simp: upsert_one_def Let_def peer_def [symmetric] resetRelayTimer_def split: if_splits)
  then have "p2_peers q = AList.update ?i peer (p2_peers p)" using r by (auto simp: registerPeerConvs_def bind_eq_Some_conv split: if_splits)
  then show ?thesis by (simp add: p2p_peer_def update_conv')
qed

lemma demo_hmac: "4 \<le> length (pc_hmac demo_crypto k m)"
  by (simp add: demo_crypto_def)

lemma demo_peer_added: "\<exists>p G peer. p2p_reachable demo_env pol (p, G) \<and> p2p_peer p ''b'' = Some peer"
proof -
  have trim: "TrimSpace ''b'' = ''b''" by (rule TrimSpace_plain) (simp_all add: plain_char_def)
  obtain q out where u: "upsert_one demo_crypto (demo_agent pol) (''b'', ''k'') = Some (q, out)"
    using upsert_one_total [OF demo_hmac] by blast
  have init: "p2p_reachable demo_env pol (demo_agent pol, {})"
    by (rule p2p_reachable.init) (simp_all add: p2p_initial_def demo_agent_def new_p2p_def)
  have "p2p_step demo_env (demo_agent pol, {}) out (q, {} \<union> started out)"
    by (rule p2p_step.step [of "EvPeers [(''b'', ''k'')]" _ _ _ 0]) (simp_all add: u demo_env_def)
  from p2p_reachable.after [OF init this] show ?thesis using upsert_one_adds [OF u] by (auto simp: trim demo_agent_def new_p2p_def)
qed




section \<open>The relay-only policy\<close>

text \<open>Under the policy \<^verbatim>\<open>relay_only\<close> packets go over the server alone.  \<open>direct\<close> are the goroutines of a direct
  tunnel, \<open>quiet\<close> the states without one, and \<open>relayed\<close> the effects that carry no packet to a peer.\<close>

fun direct :: "goroutine \<Rightarrow> bool" where
  "direct (OpenTunnel _) = True"
| "direct (OpenRetry _) = True"
| "direct (OpenThroughputTunnel _) = True"
| "direct (ReadTunnelFrames _ _) = True"
| "direct (ReadThroughputTunnelFrames _ _) = True"
| "direct (RotateSocket _) = True"
| "direct _ = False"

fun relayed :: "string \<Rightarrow> p2p_effect \<Rightarrow> bool" where
  "relayed server (KCPWrite _ _) = False"
| "relayed server (Datagram dst _) = (dst = server)"
| "relayed server (Go g) = (\<not> direct g)"
| "relayed server _ = True"

definition tunnelless :: "lanP2PPeer \<Rightarrow> bool" where
  "tunnelless peer \<longleftrightarrow> \<not> pr_connected peer \<and> pr_kcp peer = None \<and> pr_throughputKCP peer = None"

definition quiet :: "lanP2P \<Rightarrow> bool" where
  "quiet p \<longleftrightarrow> pp_RelayOnly (p2_pathPolicy p) \<and> (\<forall>i peer. p2p_peer p i = Some peer \<longrightarrow> tunnelless peer)"

definition calm :: "lanP2P \<Rightarrow> lanP2P \<times> p2p_effect list \<Rightarrow> bool" where
  "calm p r \<longleftrightarrow> (quiet p \<longrightarrow> quiet (fst r) \<and> p2_server (fst r) = p2_server p \<and> list_all (relayed (p2_server p)) (snd r))"

lemma calmI [intro]:
  "(quiet p \<Longrightarrow> quiet (fst r)) \<Longrightarrow> (quiet p \<Longrightarrow> p2_server (fst r) = p2_server p) \<Longrightarrow> (quiet p \<Longrightarrow> list_all (relayed (p2_server p)) (snd r)) \<Longrightarrow> calm p r"
  by (simp add: calm_def)

lemma quiet_fields [simp]:
  "quiet (p\<lparr>p2_link := l\<rparr>) = quiet p" "quiet (p\<lparr>p2_router := r\<rparr>) = quiet p" "quiet (p\<lparr>p2_relayTimers := t\<rparr>) = quiet p"
  "quiet (p\<lparr>p2_registering := t\<rparr>) = quiet p" "quiet (p\<lparr>p2_peerConv := c\<rparr>) = quiet p" "quiet (p\<lparr>p2_peerConvProfile := c\<rparr>) = quiet p"
  "quiet (p\<lparr>p2_conn := k\<rparr>) = quiet p" "quiet (p\<lparr>p2_upnpAddr := u\<rparr>) = quiet p" "quiet (p\<lparr>p2_readLoopGen := g\<rparr>) = quiet p"
  "quiet (p\<lparr>p2_hotPaths := hm\<rparr>) = quiet p" "quiet (p\<lparr>p2_sessionIntents := im\<rparr>) = quiet p"
  by (simp_all add: quiet_def)

lemma quietD: "quiet p \<Longrightarrow> pp_RelayOnly (p2_pathPolicy p)" "quiet p \<Longrightarrow> p2p_peer p i = Some peer \<Longrightarrow> tunnelless peer"
  by (auto simp: quiet_def)

lemma quiet_set_peer [simp]: "quiet p \<Longrightarrow> tunnelless peer \<Longrightarrow> quiet (set_peer peer p)"
  by (auto simp: quiet_def)

lemma tunnelless_fields [simp]:
  "tunnelless (peer\<lparr>pr_addr := b\<rparr>) = tunnelless peer" "tunnelless (peer\<lparr>pr_upnpAddr := b\<rparr>) = tunnelless peer"
  "tunnelless (peer\<lparr>pr_x25519Pub := a\<rparr>) = tunnelless peer" "tunnelless (peer\<lparr>pr_publicKey := a\<rparr>) = tunnelless peer"
  "tunnelless (peer\<lparr>pr_punched := c\<rparr>) = tunnelless peer" "tunnelless (peer\<lparr>pr_punching := c\<rparr>) = tunnelless peer"
  "tunnelless (peer\<lparr>pr_datagramReady := c\<rparr>) = tunnelless peer" "tunnelless (peer\<lparr>pr_isRelay := c\<rparr>) = tunnelless peer"
  "tunnelless (peer\<lparr>pr_longPunching := c\<rparr>) = tunnelless peer" "tunnelless (peer\<lparr>pr_registers := d\<rparr>) = tunnelless peer"
  "tunnelless (peer\<lparr>pr_punchSignals := e\<rparr>) = tunnelless peer" "tunnelless (peer\<lparr>pr_relaySince := n\<rparr>) = tunnelless peer"
  "tunnelless (peer\<lparr>pr_lastTrafficAt := n\<rparr>) = tunnelless peer" "tunnelless (peer\<lparr>pr_lastTrafficClass := k\<rparr>) = tunnelless peer"
  "tunnelless (peer\<lparr>pr_tx := x\<rparr>) = tunnelless peer" "tunnelless (peer\<lparr>pr_rx := x\<rparr>) = tunnelless peer" "tunnelless (peer\<lparr>pr_pc := c\<rparr>) = tunnelless peer"
  by (simp_all add: tunnelless_def)

lemma tunnelless_ops [simp]:
  "tunnelless (fst (startPunchLoop p peer)) = tunnelless peer" "tunnelless (ensurePeerCodecs cr p peer) = tunnelless peer"
  "tunnelless (new_peer i k)"
  by (simp_all add: startPunchLoop_def ensurePeerCodecs_def new_peer_def tunnelless_def split: sum.splits prod.splits)

lemma relayed_ops [simp]:
  "list_all (relayed s) (writeControl_p2p p a m)" "list_all (relayed s) (snd (startPunchLoop p peer))"
  by (simp_all add: writeControl_p2p_def startPunchLoop_def)

lemma quiet_remember [simp]: "quiet (rememberHotPath p i path now) = quiet p" "p2_server (rememberHotPath p i path now) = p2_server p"
  by (simp_all add: rememberHotPath_def case_prod_unfold Let_def split: option.splits)

lemma quiet_signal [simp]:
  "quiet p \<Longrightarrow> quiet (fst (markPunchSignal p i s now))" "p2_server (fst (markPunchSignal p i s now)) = p2_server p"
  using quietD(2) [of p i]
  by (auto simp: markPunchSignal_def markDatagramReadyIfConfirmed_def split: option.splits)

lemma quiet_link_upsert [simp]: "quiet (link_upsert p now i a r) = quiet p" "p2_server (link_upsert p now i a r) = p2_server p"
  by (simp_all add: link_upsert_def)

lemma calm_openTunnelUnless: "quiet p \<Longrightarrow> openTunnelUnlessDatagramReady p i now = (p, [])"
  using quietD(1) [of p] by (simp add: openTunnelUnlessDatagramReady_def)

lemma calm_enableRelayMode: "calm p (enableRelayMode p i now)"
  using quietD [of p]
  by (auto simp: enableRelayMode_def enableLongPunching_def Let_def case_prod_unfold split: option.splits)

lemma calm_timer: "calm p (relayFallbackTimer_fires p i now)" "calm p (resetRelayTimer p i)"
  using calm_enableRelayMode [of "p\<lparr>p2_relayTimers := (p2_relayTimers p)(i := False)\<rparr>" i now] quietD(2) [of p i]
  by (auto simp: relayFallbackTimer_fires_def resetRelayTimer_def Let_def calm_def enableLongPunching_def case_prod_unfold split: option.splits)

lemma calm_writeLANRegister: "calm p (writeLANRegister cr p i now)"
  using quietD(2) [of p i] by (auto simp: writeLANRegister_def split: option.splits)

lemma calm_run_goroutine: "\<not> direct g \<Longrightarrow> calm p (run_goroutine E g p now)"
  by (cases g) (simp_all add: calm_writeLANRegister calm_timer calm_enableRelayMode, auto)


lemma calm_badNAT_fold:
  "quiet (fst s) \<Longrightarrow> list_all (relayed (p2_server (fst s))) (snd s) \<Longrightarrow>
   quiet (fst (fold (\<lambda>i (p, out). let (p, more) = enableRelayMode p i now in (p, out @ more)) is s))
   \<and> p2_server (fst (fold (\<lambda>i (p, out). let (p, more) = enableRelayMode p i now in (p, out @ more)) is s)) = p2_server (fst s)
   \<and> list_all (relayed (p2_server (fst s))) (snd (fold (\<lambda>i (p, out). let (p, more) = enableRelayMode p i now in (p, out @ more)) is s))"
proof (induction "is" arbitrary: s)
  case (Cons i "is")
  let ?s = "(fst (enableRelayMode (fst s) i now), snd s @ snd (enableRelayMode (fst s) i now))"
  have "quiet (fst ?s)" "p2_server (fst ?s) = p2_server (fst s)" "list_all (relayed (p2_server (fst ?s))) (snd ?s)"
    using calm_enableRelayMode [of "fst s" i now] Cons.prems by (simp_all add: calm_def)
  then show ?case using Cons.IH [of ?s] by (simp add: Let_def case_prod_unfold)
qed simp

lemma calm_enableRelayForBadNAT: "calm p (enableRelayForBadNAT p now)"
  using calm_badNAT_fold [of "(p, [])" now "map fst (p2_peers p)"] by (auto simp: calm_def enableRelayForBadNAT_def)

lemma calm_inbound: "calm p (inbound p i payload path now)"
  by (auto simp: inbound_def)

lemma calm_set_inbound:
  "quiet p \<Longrightarrow> p2p_peer p i = Some peer \<Longrightarrow> calm p (inbound (set_peer (peer\<lparr>pr_rx := rx\<rparr>) p) j payload path now)"
  "quiet p \<Longrightarrow> p2p_peer p i = Some peer \<Longrightarrow> calm p (set_peer (peer\<lparr>pr_rx := rx\<rparr>) p, [])"
  using quietD(2) [of p i peer] by (auto simp: inbound_def calm_def)

lemma calm_open:
  assumes "quiet p" "p2p_peer p i = Some peer"
    "opened \<bind> (\<lambda>(rx, res). let p = set_peer (peer\<lparr>pr_rx := rx\<rparr>) p in
       case res of Inl _ \<Rightarrow> Some (p, []) | Inr plain \<Rightarrow> Some (inbound p j plain path now)) = Some r"
  shows "calm p r"
  using assms(3) calm_set_inbound [OF assms(1,2)] by (cases opened) (auto simp: Let_def split: sum.split_asm)

lemma calm_refl: "calm p (p, [])"
  by (simp add: calm_def)

lemmas receive_defs = readTunnelFrames_frame_def readThroughputTunnelFrames_frame_def handleDatagramFrame_def

lemma calm_receive:
  assumes "quiet p"
  shows "readTunnelFrames_frame p i payload now = Some r \<Longrightarrow> calm p r"
    "readThroughputTunnelFrames_frame p i payload now = Some r \<Longrightarrow> calm p r"
    "handleDatagramFrame p i payload now = Some r \<Longrightarrow> calm p r"
  unfolding receive_defs
  by (cases "p2p_peer p i"; cases "pr_rx (the (p2p_peer p i))"; cases "pr_throughputRx (the (p2p_peer p i))",
      auto simp: Let_def [of "if _ then _ else _"] calm_inbound calm_refl dest: calm_open [OF assms])+

lemma calm_handleUDPRelayFrame:
  assumes "quiet p" "handleUDPRelayFrame p data now = Some r" shows "calm p r"
proof -
  obtain res where res: "UnpackRelayFrameView data = Some res" using UnpackRelayFrameView_total by blast
  show ?thesis
  proof (cases "\<exists>frame peer. res = Inr frame \<and> p2p_peer p (rl_SrcDevice frame) = Some peer \<and> pr_rx peer \<noteq> None")
    case True
    then obtain frame peer where "res = Inr frame" "p2p_peer p (rl_SrcDevice frame) = Some peer" "pr_rx peer \<noteq> None" by blast
    then show ?thesis using res assms(2) unfolding handleUDPRelayFrame_def by (auto dest: calm_open [OF assms(1)])
  qed (use assms res in \<open>auto simp: handleUDPRelayFrame_def calm_refl split: sum.splits option.splits if_splits\<close>)
qed

lemma calm_peer_info: "calm p (control_peer_info cr resolve p msg now)"
proof (cases "p2p_peer p (msg_Peer msg)")
  case (Some peer)
  define e where "e = ensurePeerCodecs cr p (peer\<lparr>pr_x25519Pub := msg_Payload msg\<rparr>)"
  define e1 where "e1 addr = (if \<not> pr_isRelay e \<or> \<not> pp_RelayOnly (p2_pathPolicy p) then e\<lparr>pr_addr := Some addr\<rparr> else e)" for addr
  define e2 where "e2 addr = (e1 addr)\<lparr>pr_pc := pr_pc (e1 addr) \<or> p2_conn p\<rparr>" for addr
  define e3 where "e3 addr = (if TrimSpace (msg_UpnpAddr msg) \<noteq> '''' then
      (case resolve (msg_UpnpAddr msg) of None \<Rightarrow> e2 addr | Some u \<Rightarrow> (e2 addr)\<lparr>pr_upnpAddr := Some u\<rparr>) else e2 addr)" for addr
  have e: "quiet p \<Longrightarrow> tunnelless e" using quietD(2) [OF _ Some] by (simp add: e_def)
  then have e3: "quiet p \<Longrightarrow> tunnelless (e3 addr)" for addr by (auto simp: e3_def e2_def e1_def split: option.splits)
  show ?thesis
    unfolding control_peer_info_def Some Let_def case_prod_unfold option.case e_def [symmetric]
    unfolding e1_def [symmetric]
    unfolding e2_def [symmetric]
    unfolding e3_def [symmetric]
    by (simp add: calm_def calm_openTunnelUnless e e3 split: option.split)
qed (simp add: control_peer_info_def calm_def)

lemma calm_punch_observed: "calm p (punch_observed p src msg signal now)"
proof (cases "p2p_peer p (msg_From msg)")
  case (Some peer)
  define e where "e = (if \<not> pr_isRelay peer \<or> \<not> pp_RelayOnly (p2_pathPolicy p) then peer\<lparr>pr_addr := Some src\<rparr> else peer)"
  define s where "s = (if msg_Payload msg = lanDatagramReadyFrame then markPunchSignal (set_peer e p) (msg_From msg) signal now
      else (set_peer e p, False))"
  have 1: "quiet p \<Longrightarrow> quiet (fst s)" "p2_server (fst s) = p2_server p"
    using quietD(2) [OF _ Some] by (auto simp: s_def e_def)
  have 2: "quiet p \<Longrightarrow> quiet (set_peer (x\<lparr>pr_punched := True\<rparr>) (fst s))" if "p2p_peer (fst s) (msg_From msg) = Some x" for x
    using 1(1) quietD(2) [OF _ that] by auto
  show ?thesis
    unfolding punch_observed_def Some Let_def case_prod_unfold option.case e_def [symmetric]
    unfolding s_def [symmetric]
    using 1 2 by (cases "p2p_peer (fst s) (msg_From msg)") (simp_all add: calm_def calm_openTunnelUnless)
qed (simp add: punch_observed_def calm_def)

lemma calm_handleControl: "calm p (handleControl cr resolve p decoded src now)"
  using calm_punch_observed [of p src "the decoded" _ now] calm_peer_info [of p cr resolve "the decoded" now]
  by (auto simp: handleControl_def calm_def Let_def case_prod_unfold split: option.splits)

lemma calm_readLoop_datagram:
  assumes "quiet p" "readLoop_datagram cr resolve decode p data src now = Some r" shows "calm p r"
  using assms calm_receive [OF assms(1)] calm_handleUDPRelayFrame [OF assms(1)]
  by (auto simp: readLoop_datagram_def calm_handleControl calm_def [of p "(p, _)"] split: if_splits option.splits prod.splits)


lemma calm_seal_relay_loop: "quiet p \<Longrightarrow> quiet (fst (seal_relay_loop frames p)) \<and> p2_server (fst (seal_relay_loop frames p)) = p2_server p"
proof (induction frames arbitrary: p)
  case (Cons frame frames)
  show ?case
  proof (cases "p2p_peer p (rf_DstDevice frame)")
    case (Some peer)
    then have "quiet (set_peer (peer\<lparr>pr_tx := tx\<rparr>) p)" for tx using quietD(2) [OF Cons.prems Some] Cons.prems by simp
    with Cons.IH show ?thesis using Some Cons.prems by (simp add: case_prod_unfold split: sum.split)
  qed (simp add: Cons)
qed simp

lemma calm_OpenRelayFrame: "quiet p \<Longrightarrow> OpenRelayFrame p frame = Some (q, res) \<Longrightarrow> calm p (q, [])"
  using quietD(2) [of p "rf_SrcDevice frame"]
  by (cases "p2p_peer p (rf_SrcDevice frame)"; cases "Codec_Open (pr_rx (the (p2p_peer p (rf_SrcDevice frame)))) (rf_Payload frame)")
    (auto simp: OpenRelayFrame_def calm_def Let_def split: if_split_asm sum.split_asm)

lemma calm_tryUseHotPath: "quiet p \<Longrightarrow> tryUseHotPath resolve p i intent now = (p, [])"
  using quietD(1) [of p] by (simp add: tryUseHotPath_def split: option.split)

lemma calm_RecordSessionIntent: "calm p (RecordSessionIntent resolve p frame now)"
proof
  assume q: "quiet p"
  define p1 where "p1 intent peer = set_peer (peer\<lparr>pr_lastTrafficClass := Some (si_TrafficClass intent), pr_lastTrafficAt := UnixNano now\<rparr>)
      (p\<lparr>p2_sessionIntents := record_intent (p2_sessionIntents p) intent now\<rparr>)" for intent peer
  have p1: "quiet (p1 intent peer)" "p2_server (p1 intent peer) = p2_server p"
    if "p2p_peer p (si_PeerID intent) = Some peer" for intent peer
    using q quietD(2) [OF q that] by (simp_all add: p1_def)
  note eval = RecordSessionIntent_def Let_def p1_def [symmetric] calm_tryUseHotPath [OF p1(1)] quietD(1) [OF p1(1)] p1
  show "quiet (fst (RecordSessionIntent resolve p frame now))" "p2_server (fst (RecordSessionIntent resolve p frame now)) = p2_server p"
    "list_all (relayed (p2_server p)) (snd (RecordSessionIntent resolve p frame now))"
    using q by (auto simp: eval split: option.split)
qed

lemma calm_intents:
  "calm p (preheat_one resolve p hot)" "calm p (sendDueHotPathKeepAlive p i now)"
  using quietD [of p]
  by (auto simp: preheat_one_def sendDueHotPathKeepAlive_def Let_def case_prod_unfold split: option.splits)

lemma calm_punch_tick: "calm p (on_peer p i (\<lambda>peer. case punchLoop_tick p peer interval now of (peer, out, _) \<Rightarrow> (peer, out)))"
  using quietD(2) [of p i] by (auto simp: on_peer_def punchLoop_tick_def Let_def split: option.splits)

lemma calm_upsert_one:
  assumes "quiet p" "upsert_one cr p info = Some (q, out)" shows "calm p (q, out)"
proof (cases "TrimSpace (fst info) = '''' \<or> TrimSpace (fst info) = p2_deviceID p")
  case False
  let ?i = "TrimSpace (fst info)"
  define peer where "peer = (case p2p_peer p ?i of None \<Rightarrow> new_peer ?i (snd info) | Some existing \<Rightarrow> existing\<lparr>pr_publicKey := snd info\<rparr>)"
  have t: "tunnelless peer" using quietD(2) [OF assms(1)] by (auto simp: peer_def split: option.split)
  obtain r where r: "registerPeerConvs cr (p\<lparr>p2_peers := AList.update ?i peer (p2_peers p)\<rparr>) ?i = Some r"
    using assms(2) False by (cases "registerPeerConvs cr (p\<lparr>p2_peers := AList.update ?i peer (p2_peers p)\<rparr>) ?i")
      (simp_all add: upsert_one_def Let_def peer_def [symmetric])
  have "quiet (p\<lparr>p2_peers := AList.update ?i peer (p2_peers p)\<rparr>)" using assms(1) t by (auto simp: quiet_def p2p_peer_def update_conv' split: if_splits)
  then have q: "quiet r" "p2_server r = p2_server p" using r by (auto simp: registerPeerConvs_def bind_eq_Some_conv split: if_splits)
  show ?thesis using assms(2) False r q
    by (auto simp: upsert_one_def Let_def peer_def [symmetric] resetRelayTimer_def calm_def split: if_split_asm)
qed (use assms in \<open>auto simp: upsert_one_def calm_refl\<close>)

lemma calm_UpsertPeers: "quiet p \<Longrightarrow> UpsertPeers cr infos p = Some (q, out) \<Longrightarrow> calm p (q, out)"
proof (induction infos arbitrary: p q out)
  case (Cons info infos)
  then obtain r o1 o2 where u: "upsert_one cr p info = Some (r, o1)" "UpsertPeers cr infos r = Some (q, o2)" "out = o1 @ o2"
    by (auto simp: bind_eq_Some_conv)
  have "calm p (r, o1)" using calm_upsert_one [OF Cons.prems(1) u(1)] .
  moreover from this have "calm r (q, o2)" using Cons.IH [OF _ u(2)] Cons.prems(1) by (simp add: calm_def [of p])
  ultimately show ?case using Cons.prems(1) u(3) by (simp add: calm_def)
qed (simp add: calm_refl)

lemma quiet_Send: "quiet p \<Longrightarrow> P2P_Send io p frame now = (p, [], Some LinkUnavailable)"
  using quietD(1) [of p] by (simp add: P2P_Send_def split: option.split)

lemma calm_start_stop: "calm p (startReadLoop p)" "calm p (closeCurrentSocket p, [])" "calm p (p\<lparr>p2_hotPaths := hm\<rparr>, [])"
  by (auto simp: startReadLoop_def closeCurrentSocket_def)

lemma calm_exec:
  assumes "quiet p" "p2p_exec E ev p now = Some r" "\<forall>g. needs ev = Some g \<longrightarrow> \<not> direct g" "\<forall>frame. ev \<noteq> EvSendDatagram frame"
  shows "calm p r"
proof (cases ev)
  case (EvSealRelay frames)
  then show ?thesis using assms(1,2) calm_seal_relay_loop [of p frames] by (auto simp: SealRelayFrames_def)
next
  case (EvOpenRelay frame)
  then show ?thesis using assms(1,2) calm_OpenRelayFrame [of p frame] by auto
next
  case (EvSendUDPRelay frame)
  then show ?thesis using assms(1,2) by (auto simp: SendUDPRelayFrame_def split: sum.splits option.splits)
next
  case (EvRun g)
  then show ?thesis using assms(2,3) calm_run_goroutine by auto
next
  case (EvPunchTick i interval)
  then show ?thesis using assms(2) calm_punch_tick [of p i interval now] by simp
next
  case (EvPeers infos)
  then show ?thesis using assms(1,2) calm_UpsertPeers [of p "en_crypto E" infos] by (cases r) simp
next
  case (EvDatagram data src)
  then show ?thesis using assms(1,2) calm_readLoop_datagram [OF assms(1)] by simp
qed (use assms in \<open>auto simp: calm_receive calm_intents calm_RecordSessionIntent calm_start_stop calm_enableRelayForBadNAT quiet_Send calm_refl\<close>)


lemma SendDatagram_quiet:
  assumes "quiet p" shows "quiet (fst (SendDatagram io p frame))" "Go g \<notin> set (fst (snd (SendDatagram io p frame)))"
  using assms quietD(2) [OF assms, of "rf_DstDevice frame"]
  by (auto simp: SendDatagram_def send_datagram_def case_prod_unfold split: option.splits sum.splits bool.splits)

lemma reachable_quiet:
  assumes "p2p_reachable E pol s" "pp_RelayOnly pol" shows "quiet (fst s) \<and> (\<forall>g \<in> snd s. \<not> direct g)"
  using assms
proof (induction rule: p2p_reachable.induct)
  case (init p)
  then show ?case by (simp add: p2p_initial_def quiet_def p2p_peer_def)
next
  case (after s out s')
  then have IH: "quiet (fst s)" "\<forall>g \<in> snd s. \<not> direct g" by auto
  from after.hyps(2) show ?case
  proof (cases rule: p2p_step.cases)
    case (step ev G p now p')
    show ?thesis
    proof (cases "\<exists>frame. ev = EvSendDatagram frame")
      case True
      then show ?thesis using IH step SendDatagram_quiet [of p] by (auto simp: started_def case_prod_unfold)
    next
      case False
      have "calm p (p', out)" by (rule calm_exec [OF _ step(4)]) (use IH step False in auto)
      then show ?thesis using IH step by (auto simp: calm_def started_def list_all_iff)
    qed
  qed
qed

text \<open>C12. Under the policy \<^verbatim>\<open>relay_only\<close> no packet leaves over a direct path.  In every reachable state no peer
  has a tunnel, and no event starts one, writes to one, or sends a packet in a datagram to anyone but the
  server.  \<^verbatim>\<open>SendDatagram\<close>, which no other code calls, is the one entry point that does not look at the policy.\<close>

theorem relay_only_respected:
  assumes "p2p_reachable E pol (p, G)" "pp_RelayOnly pol" "p2p_exec E ev p now = Some (p', out)"
    "\<forall>g. needs ev = Some g \<longrightarrow> g \<in> G" "\<forall>frame. ev \<noteq> EvSendDatagram frame"
  shows "(\<forall>i peer. p2p_peer p' i = Some peer \<longrightarrow> \<not> pr_connected peer \<and> pr_kcp peer = None \<and> pr_throughputKCP peer = None)
    \<and> (\<forall>c data. KCPWrite c data \<notin> set out) \<and> (\<forall>dst data. Datagram dst data \<in> set out \<longrightarrow> dst = p2_server p)
    \<and> (\<forall>i. Go (OpenTunnel i) \<notin> set out \<and> Go (OpenThroughputTunnel i) \<notin> set out)"
proof -
  have q: "quiet p" "\<forall>g \<in> G. \<not> direct g" using reachable_quiet [OF assms(1,2)] by auto
  have "calm p (p', out)" by (rule calm_exec [OF q(1) assms(3) _ assms(5)]) (use q(2) assms(4) in auto)
  then have "quiet p'" "list_all (relayed (p2_server p)) out" using q(1) by (auto simp: calm_def)
  then show ?thesis by (auto simp: quiet_def tunnelless_def list_all_iff)
qed

theorem relay_only_respected_witness:
  "\<exists>p G peer p' out. p2p_reachable demo_env (demo_policy True) (p, G) \<and> p2p_peer p ''b'' = Some peer
    \<and> p2p_exec demo_env (EvDatagram [1, 2, 3] ''x:1'') p 5 = Some (p', out) \<and> (\<forall>c data. KCPWrite c data \<notin> set out)"
proof -
  obtain p G peer where r: "p2p_reachable demo_env (demo_policy True) (p, G)" "p2p_peer p ''b'' = Some peer" using demo_peer_added by blast
  obtain p' out where e: "p2p_exec demo_env (EvDatagram [1, 2, 3] ''x:1'') p 5 = Some (p', out)"
    using keeps_readLoop_datagram [OF keeps_refl] by fastforce
  have "pp_RelayOnly (demo_policy True)" by (simp add: demo_policy_def)
  from relay_only_respected [OF r(1) this e] r e show ?thesis by auto
qed


section \<open>The started agent\<close>

lemma reachable_step:
  assumes "p2p_reachable E pol (p, G)" "p2p_exec E ev p now = Some (p', out)" "needs ev = None"
  shows "p2p_reachable E pol (p', G \<union> started out)"
  by (rule p2p_reachable.after [OF assms(1) p2p_step.step [OF _ assms(2)]]) (simp add: assms(3))

text \<open>The agent that \<^verbatim>\<open>startLANP2P\<close> returns is a reachable state of the system, under the policy of the network with
  the relay switched as the server says, and with exactly the goroutines it started.\<close>

theorem startLANP2P_reachable:
  assumes "startLANP2P (en_crypto E) (en_parse E) st router link identity deviceID pathPolicy now = Some (Some (p, out))"
  shows "p2p_reachable E (pathPolicy\<lparr>pp_RelayEnabled := st_RelayEnabled st, pp_RelayConfigured := True\<rparr>) (p, started out)
    \<and> p2_deviceID p = deviceID"
proof -
  let ?pol = "pathPolicy\<lparr>pp_RelayEnabled := st_RelayEnabled st, pp_RelayConfigured := True\<rparr>"
  from assms obtain server priv pub where s: "st_server st = Some server" "st_keypair st = Some (priv, pub)" "st_listens st"
    by (auto simp: startLANP2P_def split: option.splits if_splits)
  define p0 where "p0 = (new_p2p server (case st_upnp st of None \<Rightarrow> '''' | Some a \<Rightarrow> a) pathPolicy (st_TCPFastPath st) deviceID identity router link priv pub)
    \<lparr>p2_pathPolicy := ?pol, p2_natType := Some (if st_upnp st \<noteq> None then ''upnp_mapped'' else st_nat st)\<rparr>"
  obtain p1 o1 where 1: "UpsertPeers (en_crypto E) (st_peers st) p0 = Some (p1, o1)"
    "(let p = p1\<lparr>p2_hotPaths := LoadLearnedPaths (en_parse E) (p2_hotPaths p1) now (st_learned st)\<rparr>;
          (p, out2) = enableRelayForBadNAT p now; (p, out3) = startReadLoop p in (p, o1 @ out2 @ out3)) = (p, out)"
    using assms s by (auto simp: startLANP2P_def p0_def new_p2p_def Let_def bind_eq_Some_conv case_prod_unfold)
  define p2 where "p2 = p1\<lparr>p2_hotPaths := LoadLearnedPaths (en_parse E) (p2_hotPaths p1) now (st_learned st)\<rparr>"
  obtain p3 o2 where 3: "enableRelayForBadNAT p2 now = (p3, o2)" by fastforce
  obtain o3 where 4: "startReadLoop p3 = (p, o3)" "out = o1 @ o2 @ o3" using 1(2) 3 by (cases "startReadLoop p3") (auto simp: Let_def p2_def)
  have 0: "p2p_reachable E ?pol (p0, {})" by (rule p2p_reachable.init) (simp_all add: p0_def new_p2p_def p2p_initial_def)
  have r1: "p2p_reachable E ?pol (p1, {} \<union> started o1)" by (rule reachable_step [OF 0, of "EvPeers (st_peers st)" 0]) (simp_all add: 1(1))
  have r2: "p2p_reachable E ?pol (p2, ({} \<union> started o1) \<union> started [])" by (rule reachable_step [OF r1, of "EvLearned (st_learned st)" now]) (simp_all add: p2_def)
  have r3: "p2p_reachable E ?pol (p3, (({} \<union> started o1) \<union> started []) \<union> started o2)" by (rule reachable_step [OF r2, of EvBadNAT now]) (simp_all add: 3)
  have r4: "p2p_reachable E ?pol (p, ((({} \<union> started o1) \<union> started []) \<union> started o2) \<union> started o3)"
    by (rule reachable_step [OF r3, of EvStartRead now]) (simp_all add: 4(1))
  have ok: "p2p_ok p0" "p2p_ok p2" "p2p_ok p3" using reachable_ok [OF 0] reachable_ok [OF r2] reachable_ok [OF r3] by simp_all
  have "p2_deviceID p1 = deviceID" using keeps_UpsertPeers [OF keeps_refl ok(1) 1(1)] ok(1) by (simp add: keeps_def p0_def new_p2p_def)
  then have "p2_deviceID p = deviceID"
    using keeps_enableRelayForBadNAT [of p2 p2 now] ok 3 4(1) by (auto simp: keeps_def p2_def startReadLoop_def split: if_splits)
  moreover have "((({} \<union> started o1) \<union> started []) \<union> started o2) \<union> started o3 = started out" by (auto simp: started_def 4(2))
  ultimately show ?thesis using r4 by simp
qed

theorem startLANP2P_reachable_witness:
  "\<exists>p out. startLANP2P demo_crypto (\<lambda>_. None) \<lparr>st_server = Some ''s:1'', st_listens = True, st_keypair = Some (replicate 32 1, ''k''), st_upnp = None,
       st_nat = ''unknown'', st_TCPFastPath = ''auto'', st_RelayEnabled = False, st_peers = [], st_learned = []\<rparr>
       demo_router demo_link \<lparr>id_Algorithm = '''', id_PrivateKey = '''', id_PublicKey = ''''\<rparr> ''a'' (demo_policy False) 5 = Some (Some (p, out))
     \<and> p2p_reachable demo_env ((demo_policy False)\<lparr>pp_RelayEnabled := False, pp_RelayConfigured := True\<rparr>) (p, started out)"
proof -
  let ?st = "\<lparr>st_server = Some ''s:1'', st_listens = True, st_keypair = Some (replicate 32 1, ''k''), st_upnp = None,
       st_nat = ''unknown'', st_TCPFastPath = ''auto'', st_RelayEnabled = False, st_peers = [], st_learned = []\<rparr>"
  obtain p out where s: "startLANP2P demo_crypto (\<lambda>_. None) ?st demo_router demo_link \<lparr>id_Algorithm = '''', id_PrivateKey = '''', id_PublicKey = ''''\<rparr> ''a''
      (demo_policy False) 5 = Some (Some (p, out))"
    by (auto simp: startLANP2P_def Let_def enableRelayForBadNAT_def startReadLoop_def new_p2p_def)
  have "startLANP2P (en_crypto demo_env) (en_parse demo_env) ?st demo_router demo_link \<lparr>id_Algorithm = '''', id_PrivateKey = '''', id_PublicKey = ''''\<rparr> ''a''
      (demo_policy False) 5 = Some (Some (p, out))" using s by (simp add: demo_env_def)
  from startLANP2P_reachable [OF this] s show ?thesis by auto
qed

end
