(* ===== verification/LanSession.thy ===== *)
theory LanSession
  imports LanPeerProps
begin

text \<open>
  Two LAN agents and the keys between them: \<^verbatim>\<open>lanPeerCodecsFromX25519\<close> gives both ends of a pair codecs that
  fit, and a packet one agent sends as a datagram is handed to the adapter of the other.  The last two
  sections show two ways in which a peer gets stuck.
\<close>


section \<open>Key agreement\<close>

text \<open>The codec of the sender and the codec of the receiver of one direction fit, and the receiver has seen
  nothing newer than what the sender will number next.\<close>

definition synced :: "cipherAEAD \<Rightarrow> Codec \<Rightarrow> Codec \<Rightarrow> bool" where
  "synced A tx rx \<longleftrightarrow> paired A tx rx \<and> rw_max (codec_replay rx) < codec_nextSeq tx"

lemma NewCodec_synced:
  assumes "NewCodec new_aead key n t = Inr tx" "NewCodec new_aead key n t = Inr rx"
  shows "\<exists>A. synced A tx rx"
  using assms by (auto simp: NewCodec_def synced_def paired_def new_window_def Let_def split: sum.splits)

lemma codecs_from:
  assumes "lanPeerCodecsFromX25519 cr priv pub self other = Inr (tx, rx)" "DecodeString pub = Some raw" "pc_X25519 cr priv raw = Some secret"
    "self \<noteq> other"
  obtains keys where "DeriveSessionKeys (pc_hkdf cr) secret 0 ''x25519-v1'' self other = Inr keys"
    "NewCodec (pc_aead cr) (if self < other then keys_AB keys else keys_BA keys) 0 TypeIPv4 = Inr tx"
    "NewCodec (pc_aead cr) (if self < other then keys_BA keys else keys_AB keys) 0 TypeIPv4 = Inr rx"
proof (cases "DeriveSessionKeys (pc_hkdf cr) secret 0 ''x25519-v1'' self other")
  case (Inr keys)
  then show ?thesis using assms that [OF Inr]
    by (cases "self < other") (auto simp: lanPeerCodecsFromX25519_def split: sum.splits if_splits)
qed (use assms in \<open>simp add: lanPeerCodecsFromX25519_def split: if_splits\<close>)

text \<open>C7. Two agents that exchange X25519 public keys get matching codecs: what either seals, the other can
  open, and the two directions use the keys the other way round.  The hypothesis is the law of
  Diffie-Hellman: both sides compute one secret.\<close>

theorem lan_key_agreement:
  assumes "lanPeerCodecsFromX25519 cr privA pubB idA idB = Inr (txA, rxA)" "lanPeerCodecsFromX25519 cr privB pubA idB idA = Inr (txB, rxB)"
    "DecodeString pubA = Some rawA" "DecodeString pubB = Some rawB" "pc_X25519 cr privA rawB = Some secret" "pc_X25519 cr privB rawA = Some secret"
    "idA \<noteq> idB"
  shows "(\<exists>A. synced A txA rxB) \<and> (\<exists>B. synced B txB rxA)"
proof -
  obtain keys where a: "DeriveSessionKeys (pc_hkdf cr) secret 0 ''x25519-v1'' idA idB = Inr keys"
    "NewCodec (pc_aead cr) (if idA < idB then keys_AB keys else keys_BA keys) 0 TypeIPv4 = Inr txA"
    "NewCodec (pc_aead cr) (if idA < idB then keys_BA keys else keys_AB keys) 0 TypeIPv4 = Inr rxA"
    by (rule codecs_from [OF assms(1,4,5,7)])
  obtain keys' where b: "DeriveSessionKeys (pc_hkdf cr) secret 0 ''x25519-v1'' idB idA = Inr keys'"
    "NewCodec (pc_aead cr) (if idB < idA then keys_AB keys' else keys_BA keys') 0 TypeIPv4 = Inr txB"
    "NewCodec (pc_aead cr) (if idB < idA then keys_BA keys' else keys_AB keys') 0 TypeIPv4 = Inr rxB"
    by (rule codecs_from [OF assms(2,3,6) assms(7) [symmetric]])
  have "keys' = keys" using a(1) b(1) DeriveSessionKeys_sym [of "pc_hkdf cr" secret 0 "''x25519-v1''" idA idB] by simp
  then have "(if idA < idB then keys_AB keys else keys_BA keys) = (if idB < idA then keys_BA keys' else keys_AB keys')"
    "(if idB < idA then keys_AB keys' else keys_BA keys') = (if idA < idB then keys_BA keys else keys_AB keys)"
    using assms(7) by auto
  then show ?thesis using NewCodec_synced [OF a(2), of rxB] NewCodec_synced [OF b(2), of rxA] a(3) b(3) by simp
qed

section \<open>A packet from one agent to the other\<close>

lemma sealed_IsFrame:
  assumes "aead_correct A" "codec_aead tx = Some A" "Codec_Seal (Some tx) m = (c, Inr wire)"
  shows "IsFrame wire"
proof -
  let ?h = "Codec_header (tx\<lparr>codec_nextSeq := codec_nextSeq tx + 1\<rparr>) (codec_nextSeq tx)"
  have "wire = aead_Seal A ?h (nonceFrom (codec_networkID tx) (codec_nextSeq tx)) m ?h"
    using assms(2,3) by (simp add: Codec_Seal_def Let_def)
  moreover obtain body where "aead_Seal A ?h (nonceFrom (codec_networkID tx) (codec_nextSeq tx)) m ?h = ?h @ body"
    using assms(1) unfolding aead_correct_def by blast
  ultimately obtain rest where "wire = magic @ rest" by (simp add: header_layout)
  then show ?thesis by (simp add: IsFrame_def magic_def bytes_of_def nth_Cons')
qed

text \<open>Agent \<open>pA\<close> sends to device \<open>b\<close>, agent \<open>pB\<close> receives from device \<open>a\<close>.\<close>

definition linked :: "cipherAEAD \<Rightarrow> lanP2P \<Rightarrow> string \<Rightarrow> lanP2P \<Rightarrow> string \<Rightarrow> bool" where
  "linked A pA b pB a \<longleftrightarrow> (case (p2p_peer pA b, p2p_peer pB a) of
     (Some toB, Some fromA) \<Rightarrow> (case (pr_tx toB, pr_rx fromA) of
        (Some tx, Some rx) \<Rightarrow> pr_id toB = b \<and> pr_id fromA = a \<and> synced A tx rx
      | _ \<Rightarrow> False)
   | _ \<Rightarrow> False)"



theorem lan_key_agreement_witness:
  "\<exists>txA rxA txB rxB.
     lanPeerCodecsFromX25519 demo_crypto (replicate 32 1) (EncodeToString (replicate 32 2)) ''a'' ''b'' = Inr (txA, rxA)
   \<and> lanPeerCodecsFromX25519 demo_crypto (replicate 32 2) (EncodeToString (replicate 32 1)) ''b'' ''a'' = Inr (txB, rxB)
   \<and> (\<exists>A. synced A txA rxB) \<and> (\<exists>B. synced B txB rxA)"
proof -
  have dh: "pc_X25519 demo_crypto (replicate 32 1) (replicate 32 2) = Some (replicate 32 3)"
    "pc_X25519 demo_crypto (replicate 32 2) (replicate 32 1) = Some (replicate 32 3)"
    by (simp_all add: demo_crypto_def zip_replicate)
  obtain txA rxA where a: "lanPeerCodecsFromX25519 demo_crypto (replicate 32 1) (EncodeToString (replicate 32 2)) ''a'' ''b'' = Inr (txA, rxA)"
    using dh by (auto simp: lanPeerCodecsFromX25519_def DeriveSessionKeys_def hkdfKey_def NewCodec_def Let_def demo_crypto_def)
  obtain txB rxB where b: "lanPeerCodecsFromX25519 demo_crypto (replicate 32 2) (EncodeToString (replicate 32 1)) ''b'' ''a'' = Inr (txB, rxB)"
    using dh by (auto simp: lanPeerCodecsFromX25519_def DeriveSessionKeys_def hkdfKey_def NewCodec_def Let_def demo_crypto_def)
  from lan_key_agreement [OF a b _ _ dh(1,2)] a b show ?thesis by auto
qed

definition demo_sender :: lanP2P where
  "demo_sender = set_peer ((new_peer ''b'' '''')\<lparr>pr_tx := Some (demo_codec 0), pr_datagramReady := True, pr_addr := Some ''y:1''\<rparr>) (demo_agent (demo_policy False))"

definition demo_receiver :: lanP2P where
  "demo_receiver = set_peer ((new_peer ''a'' '''')\<lparr>pr_rx := Some (demo_codec 0), pr_addr := Some ''x:1''\<rparr>) ((demo_agent (demo_policy False))\<lparr>p2_deviceID := ''b''\<rparr>)"



section \<open>A peer that changes its key\<close>

lemma p2p_peer_openTunnelUnless_codecs:
  assumes "p2p_peer p i = Some peer" "pr_id peer = i"
  shows "\<exists>peer'. p2p_peer (fst (openTunnelUnlessDatagramReady p i now)) i = Some peer' \<and> pr_tx peer' = pr_tx peer \<and> pr_rx peer' = pr_rx peer
    \<and> pr_x25519Pub peer' = pr_x25519Pub peer"
  using assms
  by (simp add: openTunnelUnlessDatagramReady_def useDatagramFastPath_def rememberHotPath_def link_upsert_def Let_def case_prod_unfold
      split: option.splits bool.splits)



section \<open>A punch loop that does not start again\<close>

text \<open>The loop ends when \<^verbatim>\<open>punched\<close> is set, as by relay mode, and leaves \<^verbatim>\<open>punching\<close> set.  When traffic then clears
  \<^verbatim>\<open>punched\<close> to punch again, \<^verbatim>\<open>startPunchLoop\<close> believes that the loop is running and starts none.\<close>

lemma punch_loop_not_restarted:
  assumes "p2p_peer p i = Some peer" "pr_id peer = i" "pr_punching peer" "\<not> pr_punched peer" "relayAvailable (p2_pathPolicy p)"
  shows "\<exists>peer'. p2p_peer (fst (enableRelayMode p i now)) i = Some peer' \<and> punchLoop_tick q peer' interval later = (peer', [], None)
    \<and> startPunchLoop q (peer'\<lparr>pr_punched := False\<rparr>) = (peer'\<lparr>pr_punched := False\<rparr>, [])"
  using assms by (simp add: enableRelayMode_def punchLoop_tick_def startPunchLoop_def Let_def)

end
