(* ===== verification/LanSend.thy ===== *)
theory LanSend
  imports LanPeerProps PendingQueue LanRelay
begin

text \<open>
  The loops of the LAN agent that move packets, from \<^verbatim>\<open>cmd/UDPTunnelLAN/packet_runtime.go\<close>: \<^verbatim>\<open>sendPackets\<close> with its
  \<^verbatim>\<open>flush\<close>, the requests to the relay of the server and what comes back from it, and the frames on a tunnel.

  \<^item> \<open>lanSender\<close> has the variables of \<^verbatim>\<open>sendPackets\<close>: the batch, the pending queue and the time until which the relay is left
    alone.  The link manager it is given is the one of \<open>lanP2P\<close>.
  \<^item> One call of \<^verbatim>\<open>flush\<close> reads the clock several times; \<open>now\<close> is the time of the calls that list the frames and
    \<open>later\<close> the time of the ones after the frames were sent.
  \<^item> \<open>flush\<close> records what it did for which frame of the list: \<open>SentDirect\<close>, \<open>SentRelay\<close> and \<open>Posted\<close> carry the position.
  \<^item> \<^verbatim>\<open>pollRelayPackets\<close> is modelled for an agent whose peer-to-peer side is running; without one it hands on
    what it gets undecrypted.
  \<^item> Parameters: \<open>io\<close> for the socket and the tunnels, and \<open>post\<close>, which says whether the request with these frames succeeds.
\<close>

subsection \<open>Frames on a tunnel\<close>

definition writeLANFrame :: "bytes \<Rightarrow> string + bytes" where
  "writeLANFrame payload =
     (if length payload = 0 \<or> lanKCPFrameMax < length payload then Inl ''bad LAN frame size''
      else Inr (be32 (of_nat (length payload)) @ payload))"

datatype read_error = ReadEOF | UnexpectedEOF | BadFrameSize

definition ReadFull :: "nat \<Rightarrow> bytes \<Rightarrow> read_error + (bytes \<times> bytes)" where
  "ReadFull n stream =
     (if length stream = 0 \<and> 0 < n then Inl ReadEOF
      else if length stream < n then Inl UnexpectedEOF
      else Inr (take n stream, drop n stream))"

text \<open>\<open>stream\<close> is what the peer writes until it closes the connection.\<close>

definition readLANFrame :: "bytes \<Rightarrow> read_error + (bytes \<times> bytes)" where
  "readLANFrame stream =
     (case ReadFull 4 stream of
        Inl err \<Rightarrow> Inl err
      | Inr (hdr, rest) \<Rightarrow>
          let n = (case Uint32 hdr of None \<Rightarrow> 0 | Some n \<Rightarrow> n) in
          if n = 0 \<or> of_nat lanKCPFrameMax < n then Inl BadFrameSize else ReadFull (unat n) rest)"

definition lanKCPReadyFrame :: bytes where "lanKCPReadyFrame = 0 # bytes_of ''LAN-KCP-READY'' @ [10]"

datatype ready_error = ReadAck read_error | UnexpectedAck bytes | HandshakeFailed | SendAck string

definition waitLANKCPReadyAck :: "bytes \<Rightarrow> ready_error option" where
  "waitLANKCPReadyAck stream =
     (case readLANFrame stream of
        Inl err \<Rightarrow> Some (ReadAck err)
      | Inr (payload, _) \<Rightarrow> if payload \<noteq> lanKCPReadyFrame then Some (UnexpectedAck payload) else None)"

text \<open>\<open>handshake\<close> says whether \<^verbatim>\<open>tunnel.ConsumeHandshake\<close> succeeds; the result is the error and what is written.\<close>

definition confirmLANKCPReady :: "bool \<Rightarrow> bool \<Rightarrow> bytes \<Rightarrow> ready_error option \<times> bytes" where
  "confirmLANKCPReady listener handshake stream =
     (if listener then
        if \<not> handshake then (Some HandshakeFailed, [])
        else (case writeLANFrame lanKCPReadyFrame of Inl e \<Rightarrow> (Some (SendAck e), []) | Inr wire \<Rightarrow> (None, wire))
      else (waitLANKCPReadyAck stream, []))"

subsection \<open>Sending\<close>

definition lanPacketBatchSize :: nat where "lanPacketBatchSize = 64"

definition lanPacketPollInterval :: duration where "lanPacketPollInterval = 10 * Millisecond"

definition lanThroughputBatchMax :: nat where "lanThroughputBatchMax = 16"

definition lanThroughputBatchDelay :: duration where "lanThroughputBatchDelay = 15 * Millisecond"

definition lanRelayBackoff :: duration where "lanRelayBackoff = 500 * Millisecond"

record lanSender =
  sn_batch :: "RoutedFrame list"
  sn_pending :: lanPendingQueue
  sn_relayBackoffUntil :: time
  sn_timer :: "duration option"

definition new_sender :: lanSender where
  "new_sender = \<lparr>sn_batch = [], sn_pending = newLANPendingQueue lanPendingMaxFrames lanPendingMaxBytes lanPendingTTL,
     sn_relayBackoffUntil = 0, sn_timer = None\<rparr>"

datatype send_effect =
    SentDirect nat "p2p_effect list"
  | SentRelay nat RoutedFrame "p2p_effect list"
  | Posted "(nat \<times> RoutedFrame) list" bool

text \<open>The first loop of \<^verbatim>\<open>flush\<close>: the positions delivered, the candidates for the relay, and what was sent.\<close>

fun direct_loop ::
  "p2p_io \<Rightarrow> nat \<Rightarrow> RoutedFrame list \<Rightarrow> lanP2P option \<Rightarrow> time \<Rightarrow> lanP2P option \<times> nat list \<times> (nat \<times> RoutedFrame) list \<times> send_effect list"
where
  "direct_loop io i [] q now = (q, [], [], [])"
| "direct_loop io i (frame # frames) None now = direct_loop io (Suc i) frames None now"
| "direct_loop io i (frame # frames) (Some p) now =
     (case P2P_Send io p frame now of
        (p, effs, None) \<Rightarrow>
          let p = p\<lparr>p2_link := fst (Send (p2_link p) now (rf_DstDevice frame) (rf_Payload frame))\<rparr>;
              (q, delivered, relay, out) = direct_loop io (Suc i) frames (Some p) now
          in (q, i # delivered, relay, SentDirect i effs # out)
      | (p, _, Some _) \<Rightarrow>
          let (q, delivered, relay, out) = direct_loop io (Suc i) frames (Some p) now
          in if CanRelay p (rf_DstDevice frame) then (q, delivered, (i, frame) # relay, out) else (q, delivered, relay, out))"

text \<open>The loop over the sealed frames: the positions it delivers and how many it sent.\<close>

fun relay_loop ::
  "p2p_io \<Rightarrow> lanP2P \<Rightarrow> nat \<Rightarrow> RoutedFrame list \<Rightarrow> nat list \<Rightarrow> nat list \<times> nat \<times> send_effect list"
where
  "relay_loop io p k [] relayIndexes = ([], 0, [])"
| "relay_loop io p k (frame # frames) relayIndexes =
     (let (delivered, sent, out) = relay_loop io p (Suc k) frames relayIndexes in
      case SendUDPRelayFrame io p frame of
        (effs, None) \<Rightarrow>
          if k < length relayIndexes then (relayIndexes ! k # delivered, Suc sent, SentRelay (relayIndexes ! k) frame effs # out)
          else (delivered, Suc sent, out)
      | (_, Some _) \<Rightarrow> (delivered, sent, out))"

definition remove_delivered :: "lanSender \<Rightarrow> time \<Rightarrow> nat list \<Rightarrow> lanSender" where
  "remove_delivered s later delivered = s\<lparr>sn_pending := Pending_Remove (sn_pending s) later later (map int delivered)\<rparr>"

text \<open>The part of \<^verbatim>\<open>flush\<close> after the candidates for the relay are known.\<close>

definition flush_relay ::
  "p2p_io \<Rightarrow> (RoutedFrame list \<Rightarrow> bool) \<Rightarrow> string \<Rightarrow> lanSender \<Rightarrow> lanP2P \<Rightarrow> nat list \<Rightarrow> (nat \<times> RoutedFrame) list \<Rightarrow> time
     \<Rightarrow> lanSender \<times> lanP2P \<times> send_effect list"
where
  "flush_relay io post serverHTTP s p delivered relay later =
     (let relayInput = map snd relay; relayIndexes = map fst relay in
      case SealRelayFrames p relayInput of
        (p, Inl _) \<Rightarrow> (remove_delivered (s\<lparr>sn_relayBackoffUntil := later + lanRelayBackoff\<rparr>) later delivered, p, [])
      | (p, Inr relayFrames) \<Rightarrow>
          if length relayFrames = 0 then (remove_delivered s later delivered, p, [])
          else
            let (udpDelivered, sent, out) = relay_loop io p 0 relayFrames relayIndexes;
                delivered = delivered @ udpDelivered
            in if sent = length relayFrames then (remove_delivered s later delivered, p, out)
               else if TrimSpace serverHTTP = '''' then (remove_delivered s later delivered, p, out)
               else if \<not> post relayFrames
               then (remove_delivered (s\<lparr>sn_relayBackoffUntil := later + lanRelayBackoff\<rparr>) later delivered, p,
                     out @ [Posted (zip relayIndexes relayFrames) False])
               else (remove_delivered s later (delivered @ relayIndexes), p, out @ [Posted (zip relayIndexes relayFrames) True]))"

definition flush ::
  "p2p_io \<Rightarrow> (RoutedFrame list \<Rightarrow> bool) \<Rightarrow> string \<Rightarrow> lanSender \<Rightarrow> lanP2P option \<Rightarrow> time \<Rightarrow> time \<Rightarrow> (lanSender \<times> lanP2P option \<times> send_effect list) option"
where
  "flush io post serverHTTP s q now later = do {
     s \<leftarrow> (if 0 < length (sn_batch s) then do {
              pending \<leftarrow> Pending_Add (sn_pending s) now (sn_batch s);
              Some (s\<lparr>sn_pending := pending, sn_batch := []\<rparr>) }
           else Some s);
     let (pending, frames) = Pending_Frames (sn_pending s) now;
     let s = s\<lparr>sn_pending := pending\<rparr>;
     if length frames = 0 then Some (s, q, [])
     else
       let s = s\<lparr>sn_pending := fst (Pending_Stats (sn_pending s) now)\<rparr>;
           (q, delivered, relay, out) = direct_loop io 0 frames q now
       in if length relay = 0 then Some (remove_delivered s later delivered, q, out)
          else if \<not> IsZero (sn_relayBackoffUntil s) \<and> later < sn_relayBackoffUntil s then Some (remove_delivered s later delivered, q, out)
          else (case q of
                  None \<Rightarrow> Some (remove_delivered s later delivered, q, out)
                | Some p \<Rightarrow>
                    let (s, p, more) = flush_relay io post serverHTTP s p delivered relay later in Some (s, Some p, out @ more)) }"

definition armTimer :: "duration \<Rightarrow> lanSender \<Rightarrow> lanSender" where
  "armTimer d s = s\<lparr>sn_timer := Some (if d \<le> 0 then lanThroughputBatchDelay else d)\<rparr>"

text \<open>The two cases of the loop of \<^verbatim>\<open>sendPackets\<close>: a frame from the adapter and the timer.\<close>

definition sendPackets_frame ::
  "(string \<Rightarrow> string option) \<Rightarrow> p2p_io \<Rightarrow> (RoutedFrame list \<Rightarrow> bool) \<Rightarrow> string \<Rightarrow> lanSender \<Rightarrow> lanP2P option \<Rightarrow> RoutedFrame \<Rightarrow> time \<Rightarrow> time
     \<Rightarrow> (lanSender \<times> lanP2P option \<times> p2p_effect list \<times> send_effect list) option"
where
  "sendPackets_frame resolve io post serverHTTP s q frame now later =
     (let (q, effs) = (case q of None \<Rightarrow> (None, []) | Some p \<Rightarrow> (case RecordSessionIntent resolve p frame now of (p, effs) \<Rightarrow> (Some p, effs)));
          s = s\<lparr>sn_batch := sn_batch s @ [frame]\<rparr>
      in if lanFramePriority frame \<le> 1 \<or> lanThroughputBatchMax \<le> length (sn_batch s) then do {
           (s, q, out) \<leftarrow> flush io post serverHTTP (s\<lparr>sn_timer := None\<rparr>) q now later;
           let (pending, n) = Pending_Len (sn_pending s) later;
           let s = (if 0 < length (sn_batch s) then s else s\<lparr>sn_pending := pending\<rparr>);
           Some (if 0 < length (sn_batch s) \<or> 0 < n then armTimer lanPacketPollInterval s else s, q, effs, out) }
         else Some (if length (sn_batch s) = 1 then armTimer lanThroughputBatchDelay s else s, q, effs, []))"

definition sendPackets_timer ::
  "p2p_io \<Rightarrow> (RoutedFrame list \<Rightarrow> bool) \<Rightarrow> string \<Rightarrow> lanSender \<Rightarrow> lanP2P option \<Rightarrow> time \<Rightarrow> time \<Rightarrow> (lanSender \<times> lanP2P option \<times> send_effect list) option"
where
  "sendPackets_timer io post serverHTTP s q now later = do {
     (s, q, out) \<leftarrow> flush io post serverHTTP (s\<lparr>sn_timer := None\<rparr>) q now later;
     let (pending, n) = Pending_Len (sn_pending s) later;
     let s = s\<lparr>sn_pending := pending\<rparr>;
     Some (if 0 < n then armTimer lanPacketPollInterval s else s, q, out) }"


subsection \<open>The relay of the server\<close>

definition relay_frame_of :: "RoutedFrame \<Rightarrow> lanPacketRelayFrame" where
  "relay_frame_of frame = \<lparr>prf_NetworkID = rf_NetworkID frame, prf_SrcDevice = rf_SrcDevice frame, prf_DstDevice = rf_DstDevice frame,
     prf_Type = rf_PacketType frame, prf_Payload = EncodeToString (rf_Payload frame), prf_QueuedAt = ''''\<rparr>"

fun first_source :: "RoutedFrame list \<Rightarrow> string" where
  "first_source [] = ''''"
| "first_source (frame # frames) = (if rf_SrcDevice frame \<noteq> '''' then rf_SrcDevice frame else first_source frames)"

text \<open>The body of the request, as the server decodes it.\<close>

definition post_request :: "RoutedFrame list \<Rightarrow> send_request" where
  "post_request frames = \<lparr>sr_DeviceID = first_source frames, sr_Frames = map relay_frame_of frames\<rparr>"

text \<open>\<open>request\<close> is \<^verbatim>\<open>postLANJSON\<close>: an error, or the number of accepted frames in the answer.\<close>

definition postRelayFrames :: "(send_request \<Rightarrow> string + nat) \<Rightarrow> RoutedFrame list \<Rightarrow> string option" where
  "postRelayFrames request frames =
     (case request (post_request frames) of
        Inl err \<Rightarrow> Some err
      | Inr accepted \<Rightarrow> if accepted = 0 \<and> 0 < length frames then Some ''relay accepted no frames'' else None)"

definition poll_request_of :: "string \<Rightarrow> poll_request" where
  "poll_request_of deviceID = \<lparr>pr_DeviceID = deviceID, pr_Max = int lanPacketBatchSize\<rparr>"

text \<open>One frame of the answer in \<^verbatim>\<open>pollRelayPackets\<close>, for an agent \<open>p\<close>: what is handed to the adapter.\<close>

definition receive_frame :: "lanP2P \<Rightarrow> lanPacketRelayFrame \<Rightarrow> time \<Rightarrow> (lanP2P \<times> p2p_effect list) option" where
  "receive_frame p frame now =
     (case DecodeString (prf_Payload frame) of
        None \<Rightarrow> Some (p, [])
      | Some payload \<Rightarrow>
          let routed = \<lparr>rf_NetworkID = prf_NetworkID frame, rf_SrcDevice = prf_SrcDevice frame, rf_DstDevice = prf_DstDevice frame,
                        rf_PacketType = prf_Type frame, rf_Payload = payload, rf_Header = empty_header\<rparr>
          in do {
            (p, res) \<leftarrow> OpenRelayFrame p routed;
            (case res of
               Inl _ \<Rightarrow> Some (p, [])
             | Inr plain \<Rightarrow>
                 Some (p\<lparr>p2_router := the (RecordInbound (Some (p2_router p)) plain),
                         p2_link := fst (Receive (p2_link p) now (prf_SrcDevice frame) (rf_Payload plain) LinkPathRelay)\<rparr>,
                       [ToAdapter (rf_Payload plain)])) })"

fun receive_frames :: "lanP2P \<Rightarrow> lanPacketRelayFrame list \<Rightarrow> time \<Rightarrow> (lanP2P \<times> p2p_effect list) option" where
  "receive_frames p [] now = Some (p, [])"
| "receive_frames p (frame # frames) now = do {
     (p, out) \<leftarrow> receive_frame p frame now;
     (p, rest) \<leftarrow> receive_frames p frames now;
     Some (p, out @ rest) }"

section \<open>What a flush does\<close>

definition has_tx :: "lanP2P \<Rightarrow> string \<Rightarrow> bool" where
  "has_tx p i \<longleftrightarrow> (\<exists>peer. p2p_peer p i = Some peer \<and> pr_tx peer \<noteq> None)"

definition seals :: "RoutedFrame \<Rightarrow> RoutedFrame \<Rightarrow> bool" where
  "seals frame sealed \<longleftrightarrow> (\<exists>tx wire. snd (Codec_Seal (Some tx) (rf_Payload frame)) = Inr wire \<and> sealed = frame\<lparr>rf_Payload := wire\<rparr>)"

lemma sendViaFastPath_sent:
  "sendViaFastPath io p frame peer = (peer', effs, True) \<Longrightarrow> effs \<noteq> []"
  by (auto simp: sendViaFastPath_def split: if_splits option.splits prod.splits sum.splits)

lemma send_datagram_sent: "send_datagram io p peer payload = (peer', effs, True) \<Longrightarrow> effs \<noteq> []"
  by (auto simp: send_datagram_def split: if_splits option.splits prod.splits sum.splits bool.splits)

lemma send_kcp_sent: "send_kcp io peer payload = (peer', effs, None) \<Longrightarrow> effs \<noteq> []"
  by (auto simp: send_kcp_def split: if_splits option.splits prod.splits sum.splits)

lemma P2P_Send_sent:
  assumes "P2P_Send io p frame now = (p', effs, None)" shows "effs \<noteq> []"
  using assms sendViaFastPath_sent send_datagram_sent send_kcp_sent
  by (fastforce simp: P2P_Send_def Let_def split: option.splits if_splits prod.splits bool.splits)

text \<open>Sending keeps the codecs there are.\<close>

lemma sendViaFastPath_tx: "pr_tx peer \<noteq> None \<Longrightarrow> pr_tx (fst (sendViaFastPath io p frame peer)) \<noteq> None"
  using Codec_Seal_Some [of "the (pr_tx peer)" "rf_Payload frame"]
  by (auto simp: sendViaFastPath_def split: option.splits prod.splits sum.splits)

lemma send_datagram_tx: "pr_tx peer \<noteq> None \<Longrightarrow> pr_tx (fst (send_datagram io p peer payload)) \<noteq> None"
  using Transport_Some(1) [of "the (pr_tx peer)" payload]
  by (auto simp: send_datagram_def split: option.splits prod.splits sum.splits bool.splits)

lemma send_kcp_tx: "pr_tx peer \<noteq> None \<Longrightarrow> pr_tx (fst (send_kcp io peer payload)) \<noteq> None"
  using Codec_Seal_Some [of "the (pr_tx peer)" payload]
  by (auto simp: send_kcp_def split: option.splits prod.splits sum.splits)

lemma has_tx_set_peer:
  assumes "p2p_ok p" "p2p_peer p j = Some peer" "sends peer peer'" "pr_tx peer \<noteq> None \<Longrightarrow> pr_tx peer' \<noteq> None" "has_tx p i"
  shows "has_tx (set_peer peer' p) i"
  using assms p2p_ok_peer(1) [OF assms(1,2)] by (auto simp: has_tx_def sends_def)

lemma has_tx_Send:
  assumes "p2p_ok p" "has_tx p i" shows "has_tx (fst (P2P_Send io p frame now)) i"
proof (cases "p2p_peer p (rf_DstDevice frame)")
  case (Some peer)
  let ?peer = "peer\<lparr>pr_lastTrafficClass := Some (classifyLANFrame frame), pr_lastTrafficAt := UnixNano now\<rparr>"
  let ?a = "fst (sendViaFastPath io p frame ?peer)"
  have 0: "sends peer ?peer" by (simp add: sends_def)
  have 1: "sends peer ?a" using sends_trans [OF 0 sends_sendViaFastPath] .
  have 2: "sends peer (fst (send_datagram io p ?a (rf_Payload frame)))" using sends_trans [OF 1 sends_send_datagram] .
  note s = 0 1 2 sends_trans [OF 1 sends_send_kcp] sends_trans [OF 2 sends_send_kcp]
  have t: "pr_tx peer \<noteq> None \<Longrightarrow> pr_tx ?a \<noteq> None" using sendViaFastPath_tx [of ?peer] by simp
  note t' = t send_datagram_tx [of ?a io p "rf_Payload frame"] send_kcp_tx [of ?a io "rf_Payload frame"]
    send_kcp_tx [of "fst (send_datagram io p ?a (rf_Payload frame))" io "rf_Payload frame"]
  have "has_tx (set_peer x p) i" if "sends peer x" "pr_tx peer \<noteq> None \<Longrightarrow> pr_tx x \<noteq> None" for x
    using has_tx_set_peer [OF assms(1) Some that assms(2)] .
  then show ?thesis using s t' assms(2)
    by (simp add: P2P_Send_def Some Let_def case_prod_unfold split: bool.splits)
qed (use assms in \<open>simp add: P2P_Send_def\<close>)

lemma has_tx_link [simp]: "has_tx (p\<lparr>p2_link := l\<rparr>) i = has_tx p i"
  by (simp add: has_tx_def)

lemma keeps_ok: "p2p_ok p \<Longrightarrow> keeps p p' \<Longrightarrow> p2p_ok p'"
  by (simp add: keeps_def)


definition directly :: "send_effect list \<Rightarrow> nat set" where
  "directly out = {i. \<exists>effs. SentDirect i effs \<in> set out}"

lemma directly_simps [simp]: "directly [] = {}" "directly (SentDirect i effs # out) = insert i (directly out)"
  by (auto simp: directly_def)

lemma direct_loop_spec:
  assumes "direct_loop io k frames (Some p) now = (q, D, relay, out)" "p2p_ok p"
  shows "\<exists>p'. q = Some p' \<and> p2p_ok p' \<and> (\<forall>i. has_tx p i \<longrightarrow> has_tx p' i) \<and> set D = directly out
    \<and> (\<forall>e \<in> set out. \<exists>i effs. e = SentDirect i effs \<and> effs \<noteq> [] \<and> k \<le> i \<and> i < k + length frames)
    \<and> (\<forall>(i, f) \<in> set relay. k \<le> i \<and> i < k + length frames \<and> f = frames ! (i - k) \<and> has_tx p' (rf_DstDevice f))"
  using assms
proof (induction frames arbitrary: k p q D relay out)
  case (Cons frame frames)
  obtain p1 effs err where s: "P2P_Send io p frame now = (p1, effs, err)" using prod_cases3 by blast
  have p1: "p2p_ok p1" "\<And>i. has_tx p i \<Longrightarrow> has_tx p1 i"
    using keeps_ok [OF Cons.prems(2) keeps_P2P_Send [OF keeps_refl, of p io frame now]] has_tx_Send [OF Cons.prems(2), of _ io frame now] s by auto
  show ?case
  proof (cases err)
    case None
    let ?p = "p1\<lparr>p2_link := fst (Send (p2_link p1) now (rf_DstDevice frame) (rf_Payload frame))\<rparr>"
    obtain D' out' where r: "direct_loop io (Suc k) frames (Some ?p) now = (q, D', relay, out')" "D = k # D'" "out = SentDirect k effs # out'"
      using Cons.prems(1) s None by (auto simp: Let_def split: prod.splits)
    from Cons.IH [OF r(1)] p1 obtain p' where p': "q = Some p'" "p2p_ok p'" "\<forall>i. has_tx ?p i \<longrightarrow> has_tx p' i" "set D' = directly out'"
      "\<forall>e \<in> set out'. \<exists>i effs. e = SentDirect i effs \<and> effs \<noteq> [] \<and> Suc k \<le> i \<and> i < Suc k + length frames"
      "\<forall>(i, f) \<in> set relay. Suc k \<le> i \<and> i < Suc k + length frames \<and> f = frames ! (i - Suc k) \<and> has_tx p' (rf_DstDevice f)"
      by auto
    have "(frame # frames) ! (i - k) = frames ! (i - Suc k)" if "Suc k \<le> i" for i using that by (simp add: nth_Cons')
    then show ?thesis using p' p1(2) r(2,3) P2P_Send_sent [of io p frame now p1 effs] s None by fastforce
  next
    case (Some e)
    obtain relay' where r: "direct_loop io (Suc k) frames (Some p1) now = (q, D, relay', out)"
      "relay = (if CanRelay p1 (rf_DstDevice frame) then (k, frame) # relay' else relay')"
      using Cons.prems(1) s Some by (cases "direct_loop io (Suc k) frames (Some p1) now") (auto simp: Let_def split: if_splits prod.splits)
    from Cons.IH [OF r(1) p1(1)] obtain p' where p': "q = Some p'" "p2p_ok p'" "\<forall>i. has_tx p1 i \<longrightarrow> has_tx p' i" "set D = directly out"
      "\<forall>e \<in> set out. \<exists>i effs. e = SentDirect i effs \<and> effs \<noteq> [] \<and> Suc k \<le> i \<and> i < Suc k + length frames"
      "\<forall>(i, f) \<in> set relay'. Suc k \<le> i \<and> i < Suc k + length frames \<and> f = frames ! (i - Suc k) \<and> has_tx p' (rf_DstDevice f)"
      by auto
    have "(frame # frames) ! (i - k) = frames ! (i - Suc k)" if "Suc k \<le> i" for i using that by (simp add: nth_Cons')
    moreover have "CanRelay p1 j \<Longrightarrow> has_tx p1 j" for j by (auto simp: CanRelay_def has_tx_def split: option.splits)
    ultimately show ?thesis using p' p1(2) r(2) by (fastforce split: if_splits)
  qed
qed auto


lemma seal_relay_loop_spec:
  assumes "p2p_ok p" "\<forall>f \<in> set frames. has_tx p (rf_DstDevice f)" "seal_relay_loop frames p = (p', Inr sealed)"
  shows "list_all2 seals frames sealed"
  using assms
proof (induction frames arbitrary: p sealed)
  case (Cons frame frames)
  then obtain peer tx where p: "p2p_peer p (rf_DstDevice frame) = Some peer" "pr_tx peer = Some tx" by (auto simp: has_tx_def)
  with Codec_Seal_Some [of tx "rf_Payload frame"] obtain c' r where c: "Codec_Seal (Some tx) (rf_Payload frame) = (Some c', r)" by blast
  let ?p = "set_peer (peer\<lparr>pr_tx := Some c'\<rparr>) p"
  obtain wire rest where w: "r = Inr wire" "seal_relay_loop frames ?p = (p', Inr rest)" "sealed = frame\<lparr>rf_Payload := wire\<rparr> # rest"
    using Cons.prems(3) p c by (auto split: sum.splits prod.splits)
  have "p2p_ok ?p" using keeps_ok [OF Cons.prems(1) keeps_set_tx [OF keeps_refl p(1)]] .
  moreover have "\<forall>f \<in> set frames. has_tx ?p (rf_DstDevice f)" using Cons.prems(2) by (auto simp: has_tx_def)
  ultimately show ?case using Cons.IH w(2,3) c w(1) by (auto simp: seals_def intro!: exI [of _ tx])
qed simp

definition relayed_at :: "send_effect list \<Rightarrow> nat set" where
  "relayed_at out = {i. \<exists>f effs. SentRelay i f effs \<in> set out}"

definition relay_note :: "lanP2P \<Rightarrow> nat list \<Rightarrow> nat \<Rightarrow> RoutedFrame list \<Rightarrow> send_effect \<Rightarrow> bool" where
  "relay_note p idx k sealed e \<longleftrightarrow>
     (\<exists>j wire. k \<le> j \<and> j < k + length sealed \<and> e = SentRelay (idx ! j) (sealed ! (j - k)) [Datagram (p2_server p) wire])"

lemma relay_note_Cons: "relay_note p idx (Suc k) sealed e \<Longrightarrow> relay_note p idx k (frame # sealed) e"
  unfolding relay_note_def by (elim exE conjE, rule exI, rule exI, intro conjI) (auto simp: nth_Cons')

lemma relay_loop_spec:
  assumes "relay_loop io p k sealed idx = (D, sent, out)" "k + length sealed \<le> length idx"
  shows "set D = relayed_at out \<and> list_all (relay_note p idx k sealed) out
    \<and> sent \<le> length sealed \<and> (sent = length sealed \<longrightarrow> set D = (!) idx ` {k..<k + length sealed})"
  using assms
proof (induction sealed arbitrary: k D sent out)
  case (Cons frame sealed)
  obtain D' sent' out' where r: "relay_loop io p (Suc k) sealed idx = (D', sent', out')" using prod_cases3 by blast
  from Cons.IH [OF r] Cons.prems(2) have IH: "set D' = relayed_at out'" "list_all (relay_note p idx (Suc k) sealed) out'"
    "sent' \<le> length sealed" "sent' = length sealed \<longrightarrow> set D' = (!) idx ` {Suc k..<Suc k + length sealed}" by auto
  have noted: "list_all (relay_note p idx k (frame # sealed)) out'" using IH(2) relay_note_Cons by (simp add: list_all_iff)
  show ?case
  proof (cases "snd (SendUDPRelayFrame io p frame)")
    case None
    then obtain wire where w: "SendUDPRelayFrame io p frame = ([Datagram (p2_server p) wire], None)"
      by (auto simp: SendUDPRelayFrame_def split: if_splits sum.splits option.splits)
    then have o: "D = idx ! k # D'" "sent = Suc sent'" "out = SentRelay (idx ! k) frame [Datagram (p2_server p) wire] # out'"
      using Cons.prems r by auto
    have "{k..<k + length (frame # sealed)} = insert k {Suc k..<Suc k + length sealed}" by auto
    moreover have "relay_note p idx k (frame # sealed) (SentRelay (idx ! k) frame [Datagram (p2_server p) wire])"
      unfolding relay_note_def by (intro exI [of _ k] exI [of _ wire]) simp
    moreover have "set D = relayed_at out" using o IH(1) by (auto simp: relayed_at_def)
    ultimately show ?thesis using IH(3,4) o noted by auto
  next
    case (Some e)
    then have "D = D'" "sent = sent'" "out = out'" using Cons.prems r by (auto split: prod.splits)
    then show ?thesis using IH(1,3) noted by simp
  qed
qed (auto simp: relayed_at_def)


definition posted_at :: "send_effect list \<Rightarrow> nat set" where
  "posted_at out = {i. \<exists>fs f. Posted fs True \<in> set out \<and> (i, f) \<in> set fs}"

definition sent_at :: "send_effect list \<Rightarrow> nat set" where
  "sent_at out = directly out \<union> relayed_at out \<union> posted_at out"

fun effect_ok :: "RoutedFrame list \<Rightarrow> send_effect \<Rightarrow> bool" where
  "effect_ok frames (SentDirect i effs) = (i < length frames \<and> effs \<noteq> [])"
| "effect_ok frames (SentRelay i f effs) = (i < length frames \<and> seals (frames ! i) f \<and> effs \<noteq> [])"
| "effect_ok frames (Posted fs accepted) = (\<forall>(i, f) \<in> set fs. i < length frames \<and> seals (frames ! i) f)"

lemma sent_at_append [simp]: "sent_at (a @ b) = sent_at a \<union> sent_at b"
  by (auto simp: sent_at_def directly_def relayed_at_def posted_at_def)

lemma sent_at_relay: "list_all (relay_note p idx k sealed) out \<Longrightarrow> sent_at out = relayed_at out"
  by (auto simp: sent_at_def directly_def posted_at_def list_all_iff relay_note_def)

lemma sent_at_posted [simp]: "sent_at [Posted fs b] = (if b then fst ` set fs else {})" "sent_at [] = {}"
  by (force simp: sent_at_def directly_def relayed_at_def posted_at_def)+

lemma flush_relay_spec:
  assumes "flush_relay io post http s p D relay later = (s', p', out)" "p2p_ok p"
    "\<forall>(i, f) \<in> set relay. i < length frames \<and> f = frames ! i \<and> has_tx p (rf_DstDevice f)"
  shows "\<exists>D' b. s' = remove_delivered (s\<lparr>sn_relayBackoffUntil := b\<rparr>) later D' \<and> set D' = set D \<union> sent_at out \<and> list_all (effect_ok frames) out"
proof (cases "SealRelayFrames p (map snd relay)")
  case (Pair p1 res)
  show ?thesis
  proof (cases res)
    case (Inl e)
    then show ?thesis using assms(1) Pair by (intro exI [of _ D] exI [of _ "later + lanRelayBackoff"]) (auto simp: flush_relay_def)
  next
    case (Inr sealed)
    have same: "s = s\<lparr>sn_relayBackoffUntil := sn_relayBackoffUntil s\<rparr>" by simp
    show ?thesis
    proof (cases "sealed = []")
      case True
      then show ?thesis using assms(1) Pair Inr by (intro exI [of _ D] exI [of _ "sn_relayBackoffUntil s"]) (auto simp: flush_relay_def)
    next
      case False
      have fit: "list_all2 seals (map snd relay) sealed"
        using seal_relay_loop_spec [OF assms(2), of "map snd relay" p1 sealed] assms(3) Pair Inr by (fastforce simp: SealRelayFrames_def)
      then have len: "length sealed = length relay" by (simp add: list_all2_lengthD [symmetric])
      have item: "fst (relay ! j) < length frames \<and> seals (frames ! fst (relay ! j)) (sealed ! j)" if "j < length relay" for j
        using list_all2_nthD [OF fit, of j] that assms(3) nth_mem [OF that] by (cases "relay ! j") (auto simp: len)
      obtain U n o1 where l: "relay_loop io p1 0 sealed (map fst relay) = (U, n, o1)" using prod_cases3 by blast
      have U: "set U = relayed_at o1" "list_all (relay_note p1 (map fst relay) 0 sealed) o1" using relay_loop_spec [OF l] len by auto
      have o1: "sent_at o1 = set U" using sent_at_relay [OF U(2)] U(1) by simp
      have "list_all (effect_ok frames) o1" using U(2) item len by (fastforce simp: list_all_iff relay_note_def)
      moreover have "effect_ok frames (Posted (zip (map fst relay) sealed) b)" for b
        using item len by (auto simp: in_set_zip)
      moreover have "fst ` set (zip (map fst relay) sealed) = fst ` set relay"
        using len by (metis list.set_map map_fst_zip length_map)
      ultimately have eff: "list_all (effect_ok frames) o1" "\<And>b. effect_ok frames (Posted (zip (map fst relay) sealed) b)"
        "fst ` set (zip (map fst relay) sealed) = fst ` set relay" by auto
      note eval = flush_relay_def Let_def Pair Inr False l
      consider "s' = remove_delivered s later (D @ U)" "out = o1"
        | "s' = remove_delivered (s\<lparr>sn_relayBackoffUntil := later + lanRelayBackoff\<rparr>) later (D @ U)" "out = o1 @ [Posted (zip (map fst relay) sealed) False]"
        | "s' = remove_delivered s later ((D @ U) @ map fst relay)" "out = o1 @ [Posted (zip (map fst relay) sealed) True]"
        using assms(1) by (auto simp: eval split: if_splits)
      then show ?thesis
      proof cases
        case 1
        then show ?thesis using o1 eff(1) by (intro exI [of _ "D @ U"] exI [of _ "sn_relayBackoffUntil s"]) simp
      next
        case 2
        then show ?thesis using o1 eff(1,2) by (intro exI [of _ "D @ U"] exI [of _ "later + lanRelayBackoff"]) simp
      next
        case 3
        then show ?thesis using o1 eff by (intro exI [of _ "(D @ U) @ map fst relay"] exI [of _ "sn_relayBackoffUntil s"]) auto
      qed
    qed
  qed
qed


text \<open>The queue whose frames a flush tries to send: the batch is put into it first.\<close>

definition to_send :: "lanSender \<Rightarrow> time \<Rightarrow> lanPendingQueue option" where
  "to_send s now = (if 0 < length (sn_batch s) then Pending_Add (sn_pending s) now (sn_batch s) else Some (sn_pending s))"

lemma flush_eq:
  assumes "to_send s now = Some q1" "prune q1 now = q1"
  shows "flush io post http s q now later =
    (let frames = snd (Pending_Frames q1 now); s = s\<lparr>sn_pending := q1, sn_batch := []\<rparr> in
     if frames = [] then Some (s, q, [])
     else let (q, delivered, relay, out) = direct_loop io 0 frames q now in
       if relay = [] \<or> \<not> IsZero (sn_relayBackoffUntil s) \<and> later < sn_relayBackoffUntil s then Some (remove_delivered s later delivered, q, out)
       else (case q of
               None \<Rightarrow> Some (remove_delivered s later delivered, q, out)
             | Some p \<Rightarrow> let (s, p, more) = flush_relay io post http s p delivered relay later in Some (s, Some p, out @ more)))"
proof -
  have p: "Pending_Frames q1 now = (q1, snd (Pending_Frames q1 now))" "fst (Pending_Stats q1 now) = q1"
    using assms(2) by (simp_all add: Pending_Frames_def Pending_Stats_def Let_def)
  show ?thesis
  proof (cases "sn_batch s = []")
    case True
    then have "sn_pending s = q1" using assms(1) by (auto simp: to_send_def)
    then show ?thesis using True p by (cases s) (auto simp: flush_def Let_def split: prod.splits option.splits)
  next
    case False
    then have "Pending_Add (sn_pending s) now (sn_batch s) = Some q1" using assms(1) by (simp add: to_send_def)
    then show ?thesis using False p by (cases s) (auto simp: flush_def Let_def split: prod.splits option.splits)
  qed
qed

lemma next_frames:
  assumes "queue_ok q1" "\<forall>item \<in> set (pq_frames q1). alive q1 later item" "now \<le> later" "prune q1 now = q1" "set D = A"
  shows "snd (Pending_Frames (sn_pending (remove_delivered (s\<lparr>sn_pending := q1\<rparr>) later D)) later) = nths (snd (Pending_Frames q1 now)) {i. i \<notin> A}"
proof -
  have "{i. int i \<notin> set (map int D)} = {i. i \<notin> A}" using assms(5) by auto
  then show ?thesis
    using Pending_Remove_exact [OF assms(1,2,3) order_refl, of "map int D"] assms(4)
    by (simp add: remove_delivered_def Let_def Pending_Frames_def)
qed




section \<open>Frames on a tunnel\<close>

lemma readLANFrame_layout:
  assumes "0 < length payload" "length payload \<le> lanKCPFrameMax"
  shows "readLANFrame (be32 (of_nat (length payload)) @ payload @ rest) = Inr (payload, rest)"
proof -
  have "length payload < 2 ^ 32" using assms(2) by (simp add: lanKCPFrameMax_def)
  then have n: "unat (of_nat (length payload) :: uint32) = length payload" by (simp add: unat_of_nat)
  then have b: "(of_nat (length payload) :: uint32) \<noteq> 0" "\<not> of_nat lanKCPFrameMax < (of_nat (length payload) :: uint32)"
    using assms by (auto simp: word_less_nat_alt lanKCPFrameMax_def)
  have "Uint32 (be32 w) = Some w" for w using Uint32_be32 [of w "[]"] by simp
  then show ?thesis using assms n b by (simp add: readLANFrame_def ReadFull_def)
qed

text \<open>Frames on a tunnel round-trip: what \<^verbatim>\<open>writeLANFrame\<close> writes, \<^verbatim>\<open>readLANFrame\<close> reads back, leaving the rest of the stream for
  the next frame; a frame that is empty or too long is refused on both sides; and the acknowledgement the listening end
  of a new tunnel writes is the one the dialling end waits for.\<close>

theorem lan_frame_roundtrip:
  "(case writeLANFrame payload of
      Inl _ \<Rightarrow> payload = [] \<or> 65536 < length payload
    | Inr wire \<Rightarrow> readLANFrame (wire @ rest) = Inr (payload, rest))
   \<and> (case readLANFrame stream of Inl _ \<Rightarrow> True | Inr (frame, left) \<Rightarrow> 0 < length frame \<and> length frame \<le> 65536 \<and> length stream = 4 + length frame + length left)
   \<and> waitLANKCPReadyAck (snd (confirmLANKCPReady True True stream) @ rest) = None"
proof -
  have 1: "case writeLANFrame payload of Inl _ \<Rightarrow> payload = [] \<or> 65536 < length payload | Inr wire \<Rightarrow> readLANFrame (wire @ rest) = Inr (payload, rest)"
    using readLANFrame_layout [of payload rest] by (simp add: writeLANFrame_def lanKCPFrameMax_def)
  have 2: "0 < length frame \<and> length frame \<le> 65536 \<and> length stream = 4 + length frame + length left" if "readLANFrame stream = Inr (frame, left)" for frame left
  proof -
    let ?n = "case Uint32 (take 4 stream) of None \<Rightarrow> 0 | Some n \<Rightarrow> n"
    from that have r: "4 \<le> length stream" "\<not> (?n = 0 \<or> of_nat lanKCPFrameMax < ?n)" "ReadFull (unat ?n) (drop 4 stream) = Inr (frame, left)"
      by (auto simp: readLANFrame_def ReadFull_def Let_def split: if_splits)
    then have "0 < unat ?n" "unat ?n \<le> 65536" by (auto simp: word_less_nat_alt lanKCPFrameMax_def unat_gt_0 not_less)
    then show ?thesis using r(1,3) by (auto simp: ReadFull_def split: if_splits)
  qed
  have "writeLANFrame lanKCPReadyFrame = Inr (be32 (of_nat (length lanKCPReadyFrame)) @ lanKCPReadyFrame)"
    by (simp add: writeLANFrame_def lanKCPReadyFrame_def lanKCPFrameMax_def)
  then have "snd (confirmLANKCPReady True True stream) = be32 (of_nat (length lanKCPReadyFrame)) @ lanKCPReadyFrame"
    by (simp add: confirmLANKCPReady_def)
  moreover have "0 < length lanKCPReadyFrame" "length lanKCPReadyFrame \<le> lanKCPFrameMax" by (simp_all add: lanKCPReadyFrame_def lanKCPFrameMax_def)
  ultimately have "waitLANKCPReadyAck (snd (confirmLANKCPReady True True stream) @ rest) = None"
    using readLANFrame_layout [of lanKCPReadyFrame rest] by (simp add: waitLANKCPReadyAck_def)
  then show ?thesis using 1 2 by (auto split: sum.splits)
qed

end
