(* ===== verification/AgentStart.thy ===== *)
theory AgentStart
  imports LanSend LanHandlers "HOL-Library.Signed_Division"
begin

text \<open>
  The start of the LAN agent and its two periodic exchanges with the server: \<^verbatim>\<open>bootstrapAndRun\<close> with the
  configuration of the adapter from \<^verbatim>\<open>cmd/UDPTunnelLAN/main.go\<close>, the requests of \<^verbatim>\<open>bootstrap.go\<close>, \<^verbatim>\<open>InspectSystem\<close> of
  \<^verbatim>\<open>internal/wintun/adapter.go\<close>, and \<^verbatim>\<open>refreshLANPeers\<close> and \<^verbatim>\<open>reportLANPeerRuntime\<close> of \<^verbatim>\<open>packet_runtime.go\<close>.

  \<^item> \<open>world\<close> has the calls that leave the program, each a function of the state \<open>'s\<close> of the host and the server:
    the routes of the host, the driver of the adapter \<open>'a\<close>, and the two HTTP requests, which answer an error or a
    status with the decoded body.
  \<^item> \<open>agent\<close> holds the objects the goroutines share.  With a peer-to-peer side these are the router and the link manager
    it points at; without one they stand alone.
  \<^item> A \<^verbatim>\<open>select\<close> on a ticker is one call of a step function per tick.
\<close>

subsection \<open>The outside\<close>

definition DefaultAdapterName :: string where "DefaultAdapterName = ''UDP Tunnel LAN''"

definition wintun_DefaultMTU :: int where "wintun_DefaultMTU = 1280"

record wintun_config =
  wc_Name :: string
  wc_IP :: ip
  wc_CIDR :: string
  wc_MTU :: int

record SystemState =
  sys_Routes :: "Route list"
  sys_Conflict :: Conflict
  sys_SelectedCIDR :: string
  sys_MSS :: int

datatype agent_error =
    HostError string
  | CIDRError vnet_error
  | RouteConflict string string string
  | CIDRMismatch string string
  | OutsideCIDR string string
  | RuntimeError router_error
  | ServerEmpty
  | RequestFailed string
  | BadStatus int
  | DecodeFailed
  | UnsupportedVersion int

type_synonym status_report = "VirtualPeerState \<times> VirtualLearnedPath list"

record ('s, 'a) world =
  w_listRoutes :: "'s \<Rightarrow> 's \<times> (string + Route list)"
  w_openOrCreate :: "wintun_config \<Rightarrow> 's \<Rightarrow> 's \<times> (string + 'a)"
  w_Configure :: "'a \<Rightarrow> wintun_config \<Rightarrow> 's \<Rightarrow> 's \<times> string option"
  w_Close :: "'a \<Rightarrow> 's \<Rightarrow> 's"
  w_bootstrap :: "string \<Rightarrow> bootstrap_request \<Rightarrow> 's \<Rightarrow> 's \<times> (string + int \<times> lanBootstrapResponse option)"
  w_status :: "string \<Rightarrow> status_report \<Rightarrow> 's \<Rightarrow> 's \<times> (string + int)"
  w_errorText :: "agent_error \<Rightarrow> string"

definition no_system_state :: SystemState where
  "no_system_state = \<lparr>sys_Routes = [], sys_Conflict = \<lparr>conflict_CIDR = '''', conflict_Existing = empty_route, conflict_Conflicts = False\<rparr>,
     sys_SelectedCIDR = '''', sys_MSS = 0\<rparr>"

definition no_peer_state :: VirtualPeerState where
  "no_peer_state = \<lparr>ps_DeviceID = '''', ps_PeerID = '''', ps_NetworkID = 0, ps_State = '''', ps_Path = '''', ps_DataPath = '''',
     ps_PathReason = '''', ps_NATType = '''', ps_FallbackReason = '''', ps_TrafficClass = '''', ps_TCPFastPath = '''', ps_AdapterState = '''',
     ps_RouteConflict = '''', ps_SelectedCIDR = '''', ps_MTU = 0, ps_MSS = 0, ps_RTTMs = 0, ps_EstimatedBps = 0, ps_TxBytes = 0,
     ps_RxBytes = 0, ps_DropReason = '''', ps_LastError = '''', ps_ActiveSessions = 0, ps_HotPaths = 0, ps_RelayDisabled = False,
     ps_SocketRotations = 0, ps_LastRotationAt = '''', ps_LastRotationReason = '''', ps_LastHandshakeAt = '''',
     ps_LastTransitionAt = '''', ps_UpdatedAt = ''''\<rparr>"

subsection \<open>Requests to the server\<close>

definition server_base :: "string \<Rightarrow> string" where
  "server_base serverHTTP = TrimRight (TrimSpace serverHTTP) ''/''"

definition ok_status :: "int \<Rightarrow> bool" where
  "ok_status code \<longleftrightarrow> \<not> (code < 200 \<or> 300 \<le> code)"

definition requestLANBootstrap ::
  "('s, 'a) world \<Rightarrow> string \<Rightarrow> bootstrap_request \<Rightarrow> 's \<Rightarrow> 's \<times> (agent_error + lanBootstrapResponse)"
where
  "requestLANBootstrap W serverHTTP req s =
     (if server_base serverHTTP = '''' then (s, Inl ServerEmpty)
      else (case w_bootstrap W (server_base serverHTTP @ ''/api/lan/bootstrap'') req s of
              (s, Inl err) \<Rightarrow> (s, Inl (RequestFailed err))
            | (s, Inr (code, body)) \<Rightarrow>
                (s, if \<not> ok_status code then Inl (BadStatus code)
                    else (case body of
                            None \<Rightarrow> Inl DecodeFailed
                          | Some out \<Rightarrow> if lanBootstrapVersion < lb_Version out then Inl (UnsupportedVersion (lb_Version out)) else Inr out))))"

definition reportLANStatusPayload :: "('s, 'a) world \<Rightarrow> string \<Rightarrow> status_report \<Rightarrow> 's \<Rightarrow> 's \<times> agent_error option" where
  "reportLANStatusPayload W serverHTTP report s =
     (if server_base serverHTTP = '''' then (s, Some ServerEmpty)
      else (case w_status W (server_base serverHTTP @ ''/api/lan/status'') report s of
              (s, Inl err) \<Rightarrow> (s, Some (RequestFailed err))
            | (s, Inr code) \<Rightarrow> (s, if \<not> ok_status code then Some (BadStatus code) else None)))"

definition reportLANStatus :: "('s, 'a) world \<Rightarrow> string \<Rightarrow> VirtualPeerState \<Rightarrow> 's \<Rightarrow> 's \<times> agent_error option" where
  "reportLANStatus W serverHTTP state s = reportLANStatusPayload W serverHTTP (state, []) s"

definition agent_request :: "Identity \<Rightarrow> string \<Rightarrow> string \<Rightarrow> bootstrap_request" where
  "agent_request identity deviceID deviceName = \<lparr>br_DeviceID = deviceID, br_DeviceName = deviceName, br_PublicKey = id_PublicKey identity,
     br_Capabilities = [''ipv4'', ''tcp'', ''rdp'', ''wintun'']\<rparr>"

subsection \<open>The adapter\<close>

text \<open>\<^verbatim>\<open>InspectSystem\<close> returns the zero state beside an error; the outer \<open>None\<close> is a panic of the parsers.\<close>

definition InspectSystem ::
  "('s, 'a) world \<Rightarrow> string \<Rightarrow> int \<Rightarrow> 's \<Rightarrow> ('s \<times> SystemState \<times> agent_error option) option"
where
  "InspectSystem W preferredCIDR mtu s =
     (case w_listRoutes W s of
        (s, Inl err) \<Rightarrow> Some (s, no_system_state, Some (HostError err))
      | (s, Inr routes) \<Rightarrow> do {
          conflict \<leftarrow> DetectConflict preferredCIDR routes;
          case conflict of
            Inl err \<Rightarrow> Some (s, no_system_state, Some (CIDRError err))
          | Inr conflict \<Rightarrow> do {
              selected \<leftarrow> NextAvailableCIDR preferredCIDR routes;
              case selected of
                Inl err \<Rightarrow> Some (s, no_system_state, Some (CIDRError err))
              | Inr selected \<Rightarrow> Some (s, \<lparr>sys_Routes = routes, sys_Conflict = conflict, sys_SelectedCIDR = selected,
                                          sys_MSS = MSSForMTU mtu\<rparr>, None) } })"

definition validateLANRouteSelection :: "string \<Rightarrow> string \<Rightarrow> SystemState \<Rightarrow> agent_error option" where
  "validateLANRouteSelection virtualIP cidr state =
     (if conflict_Conflicts (sys_Conflict state)
      then Some (RouteConflict cidr (route_CIDR (conflict_Existing (sys_Conflict state))) (route_Interface (conflict_Existing (sys_Conflict state))))
      else
        let selected = TrimSpace (sys_SelectedCIDR state);
            selected = (if selected = '''' then cidr else selected)
        in if selected \<noteq> cidr then Some (CIDRMismatch cidr selected)
           else
             let ip = To4 (ParseIP (TrimSpace virtualIP)) in
             case ParseCIDR cidr of
               None \<Rightarrow> Some (OutsideCIDR virtualIP cidr)
             | Some (_, network) \<Rightarrow> if ip = [] \<or> \<not> Contains network ip then Some (OutsideCIDR virtualIP cidr) else None)"

definition lanRouteConflictStatus :: "SystemState \<Rightarrow> string" where
  "lanRouteConflictStatus state =
     (if \<not> conflict_Conflicts (sys_Conflict state) then ''none''
      else
        let existing = TrimSpace (route_CIDR (conflict_Existing (sys_Conflict state)));
            existing = (if existing = '''' then TrimSpace (conflict_CIDR (sys_Conflict state)) else existing);
            iface = TrimSpace (route_Interface (conflict_Existing (sys_Conflict state)))
        in if iface = '''' then existing else existing @ '' via '' @ iface)"

definition lan_config :: "string \<Rightarrow> string \<Rightarrow> int \<Rightarrow> wintun_config" where
  "lan_config virtualIP cidr mtu = \<lparr>wc_Name = DefaultAdapterName, wc_IP = ParseIP virtualIP, wc_CIDR = cidr, wc_MTU = mtu\<rparr>"

definition configureLANAdapter ::
  "('s, 'a) world \<Rightarrow> string \<Rightarrow> string \<Rightarrow> int \<Rightarrow> 's \<Rightarrow> ('s \<times> SystemState \<times> (agent_error + 'a)) option"
where
  "configureLANAdapter W virtualIP cidr mtu s = do {
     (s, state, err) \<leftarrow> InspectSystem W cidr mtu s;
     case err of
       Some err \<Rightarrow> Some (s, state, Inl err)
     | None \<Rightarrow>
         (case validateLANRouteSelection virtualIP cidr state of
            Some err \<Rightarrow> Some (s, state, Inl err)
          | None \<Rightarrow>
              (case w_openOrCreate W (lan_config virtualIP cidr mtu) s of
                 (s, Inl err) \<Rightarrow> Some (s, state, Inl (HostError err))
               | (s, Inr adapter) \<Rightarrow>
                   (case w_Configure W adapter (lan_config virtualIP cidr mtu) s of
                      (s, Some err) \<Rightarrow> Some (w_Close W adapter s, state, Inl (HostError err))
                    | (s, None) \<Rightarrow> Some (s, state, Inr adapter)))) }"

definition lanNetworkMTU :: "VirtualNetwork \<Rightarrow> int" where
  "lanNetworkMTU network = (if 0 < vn_MTU network then vn_MTU network else wintun_DefaultMTU)"

definition lanNetworkMSS :: "VirtualNetwork \<Rightarrow> int \<Rightarrow> int" where
  "lanNetworkMSS network mtu = (if 0 < vn_MSS network then vn_MSS network else MSSForMTU mtu)"

subsection \<open>The router and the link manager of a configuration\<close>

definition peer_address :: "int \<Rightarrow> lanBootstrapPeer \<Rightarrow> VirtualAddress" where
  "peer_address networkID peer = \<lparr>va_DeviceID = bp_DeviceID peer, va_NetworkID = networkID, va_VirtualIP = bp_VirtualIP peer,
     va_Hostname = bp_Hostname peer, va_DNSEnabled = False, va_CreatedAt = '''', va_UpdatedAt = ''''\<rparr>"

definition runtimeAddresses :: "lanBootstrapResponse \<Rightarrow> VirtualAddress list \<times> (string \<rightharpoonup> bool)" where
  "runtimeAddresses resp =
     (lb_Address resp # map (peer_address (vn_ID (lb_Network resp))) (lb_Peers resp),
      fold (\<lambda>peer available. available(bp_DeviceID peer \<mapsto> True)) (lb_Peers resp) Map.empty)"

definition http_relay :: PeerEndpoint where
  "http_relay = no_endpoint\<lparr>pe_Addr := ''http-relay''\<rparr>"

fun upsertLinkPeers :: "LinkManager \<Rightarrow> time \<Rightarrow> lanBootstrapPeer list \<Rightarrow> bool \<Rightarrow> LinkManager" where
  "upsertLinkPeers link now [] p2pReady = link"
| "upsertLinkPeers link now (peer # peers) p2pReady =
     upsertLinkPeers (fst (UpsertPeer link now (no_endpoint\<lparr>pe_DeviceID := bp_DeviceID peer\<rparr>) http_relay p2pReady)) now peers p2pReady"

definition buildPacketRuntime :: "lanBootstrapResponse \<Rightarrow> string \<Rightarrow> int \<Rightarrow> time \<Rightarrow> agent_error + Router \<times> LinkManager" where
  "buildPacketRuntime resp deviceID mtu now =
     (let (addresses, available) = runtimeAddresses resp in
      case NewRouter \<lparr>rc_NetworkID = vn_ID (lb_Network resp), rc_SourceDeviceID = deviceID, rc_MTU = mtu, rc_Addresses = addresses,
                      rc_ACLRules = lb_ACL resp, rc_PeerAvailable = available\<rparr> of
        Inl err \<Rightarrow> Inl (RuntimeError err)
      | Inr router \<Rightarrow>
          let pathPolicy = newLANPathPolicy (lb_Network resp);
              link = NewLinkManager \<lparr>lc_DeviceID = deviceID, lc_ForceRelay = pp_RelayOnly pathPolicy, lc_MaxPeerSessions = 0,
                       lc_KeepAliveEvery = 0, lc_IdleTimeout = 0\<rparr>
          in Inr (router, upsertLinkPeers link now (lb_Peers resp) False))"

subsection \<open>Start\<close>

text \<open>The local variables of \<^verbatim>\<open>bootstrapAndRun\<close> after the adapter and the runtime were tried.\<close>

record 'a prepared =
  pre_adapter :: "'a option"
  pre_runtime :: "(Router \<times> LinkManager) option"
  pre_adapterState :: string
  pre_runtimeState :: string
  pre_routeConflict :: string
  pre_lastError :: string
  pre_selectedCIDR :: string
  pre_mtu :: int
  pre_mss :: int

definition prepareLAN ::
  "('s, 'a) world \<Rightarrow> lanBootstrapResponse \<Rightarrow> string \<Rightarrow> time \<Rightarrow> 's \<Rightarrow> ('s \<times> 'a prepared) option"
where
  "prepareLAN W resp deviceID now s =
     (let network = lb_Network resp; virtualIP = va_VirtualIP (lb_Address resp); mtu = lanNetworkMTU network;
          v = \<lparr>pre_adapter = None, pre_runtime = None, pre_adapterState = ''not_configured'', pre_runtimeState = ''bootstrap'',
               pre_routeConflict = ''none'', pre_lastError = '''', pre_selectedCIDR = vn_CIDR network, pre_mtu = mtu,
               pre_mss = lanNetworkMSS network mtu\<rparr>
      in if virtualIP = '''' then Some (s, v)
         else do {
           (s, state, configured) \<leftarrow> configureLANAdapter W virtualIP (vn_CIDR network) mtu s;
           case configured of
             Inl err \<Rightarrow> Some (s, v\<lparr>pre_adapterState := ''error'', pre_runtimeState := ''error'', pre_lastError := w_errorText W err,
                                  pre_routeConflict := lanRouteConflictStatus state\<rparr>)
           | Inr adapter \<Rightarrow>
               let v = v\<lparr>pre_adapter := Some adapter, pre_adapterState := ''up'', pre_runtimeState := ''running'',
                         pre_selectedCIDR := sys_SelectedCIDR state,
                         pre_mss := (if vn_MSS network \<le> 0 then sys_MSS state else pre_mss v)\<rparr>
               in Some (s, case buildPacketRuntime resp deviceID mtu now of
                             Inl err \<Rightarrow> v\<lparr>pre_runtimeState := ''error'', pre_lastError := w_errorText W err\<rparr>
                           | Inr runtime \<Rightarrow> v\<lparr>pre_runtime := Some runtime\<rparr>) })"

definition prepared_state :: "lanBootstrapResponse \<Rightarrow> string \<Rightarrow> string \<Rightarrow> 'a prepared \<Rightarrow> VirtualPeerState" where
  "prepared_state resp deviceID stamp v =
     no_peer_state\<lparr>ps_DeviceID := deviceID, ps_NetworkID := vn_ID (lb_Network resp), ps_State := pre_runtimeState v,
       ps_AdapterState := pre_adapterState v, ps_RouteConflict := pre_routeConflict v, ps_SelectedCIDR := pre_selectedCIDR v,
       ps_MTU := pre_mtu v, ps_MSS := pre_mss v, ps_LastError := pre_lastError v, ps_LastTransitionAt := stamp\<rparr>"

text \<open>The result: the error, and what \<^verbatim>\<open>runPacketForwarding\<close> is started with, if it is.\<close>

definition bootstrapAndRun ::
  "('s, 'a) world \<Rightarrow> string \<Rightarrow> Identity \<Rightarrow> string \<Rightarrow> string \<Rightarrow> (time \<Rightarrow> string) \<Rightarrow> time \<Rightarrow> 's
     \<Rightarrow> ('s \<times> agent_error option \<times> ('a \<times> Router \<times> LinkManager \<times> lanBootstrapResponse) option) option"
where
  "bootstrapAndRun W serverHTTP identity deviceID deviceName format now s =
     (case requestLANBootstrap W serverHTTP (agent_request identity deviceID deviceName) s of
        (s, Inl err) \<Rightarrow> Some (s, Some err, None)
      | (s, Inr resp) \<Rightarrow> do {
          (s, v) \<leftarrow> prepareLAN W resp deviceID now s;
          case reportLANStatus W serverHTTP (prepared_state resp deviceID (format now) v) s of
            (s, Some err) \<Rightarrow> Some (s, Some err, None)
          | (s, None) \<Rightarrow>
              Some (s, None, case (pre_adapter v, pre_runtime v) of
                               (Some adapter, Some (router, link)) \<Rightarrow> Some (adapter, router, link, resp)
                             | _ \<Rightarrow> None) })"

subsection \<open>Forwarding\<close>

datatype agent = Alone Router LinkManager | Connected lanP2P

fun agent_router :: "agent \<Rightarrow> Router" where
  "agent_router (Alone router link) = router"
| "agent_router (Connected p) = p2_router p"

fun agent_link :: "agent \<Rightarrow> LinkManager" where
  "agent_link (Alone router link) = link"
| "agent_link (Connected p) = p2_link p"

fun agent_p2p :: "agent \<Rightarrow> lanP2P option" where
  "agent_p2p (Alone router link) = None"
| "agent_p2p (Connected p) = Some p"

fun with_objects :: "Router \<Rightarrow> LinkManager \<Rightarrow> agent \<Rightarrow> agent" where
  "with_objects router link (Alone _ _) = Alone router link"
| "with_objects router link (Connected p) = Connected (p\<lparr>p2_router := router, p2_link := link\<rparr>)"

text \<open>What the network answers to \<^verbatim>\<open>startLANP2P\<close>: the resolver, the local socket, the key pair, UPnP and STUN.\<close>

record net_answers =
  na_resolve :: "string \<Rightarrow> string option"
  na_listens :: bool
  na_keypair :: "(bytes \<times> string) option"
  na_upnp :: "string option"
  na_nat :: "int \<Rightarrow> string"

definition start_of :: "net_answers \<Rightarrow> lanBootstrapResponse \<Rightarrow> lanStart" where
  "start_of net resp = \<lparr>st_server = na_resolve net (TrimSpace (lb_Server resp)), st_listens = na_listens net, st_keypair = na_keypair net,
     st_upnp = na_upnp net, st_nat = na_nat net (lb_STUNAltPort resp), st_TCPFastPath = vn_TCPFastPath (lb_Network resp),
     st_RelayEnabled = lb_RelayEnabled resp, st_peers = map (\<lambda>peer. (bp_DeviceID peer, bp_PublicKey peer)) (lb_Peers resp),
     st_learned = lb_LearnedPaths resp\<rparr>"

definition forwarding_policy :: "lanBootstrapResponse \<Rightarrow> lanPathPolicyConfig" where
  "forwarding_policy resp = (newLANPathPolicy (lb_Network resp))\<lparr>pp_RelayEnabled := lb_RelayEnabled resp, pp_RelayConfigured := True\<rparr>"

definition runPacketForwarding ::
  "p2p_crypto \<Rightarrow> (string \<Rightarrow> time option) \<Rightarrow> net_answers \<Rightarrow> Router \<Rightarrow> LinkManager \<Rightarrow> lanBootstrapResponse \<Rightarrow> Identity \<Rightarrow> string \<Rightarrow> time
     \<Rightarrow> (agent \<times> p2p_effect list) option"
where
  "runPacketForwarding cr parse net router link resp identity deviceID now = do {
     res \<leftarrow> startLANP2P cr parse (start_of net resp) router link identity deviceID (forwarding_policy resp) now;
     Some (case res of None \<Rightarrow> (Alone router link, []) | Some (p, out) \<Rightarrow> (Connected p, out)) }"

text \<open>One tick of \<^verbatim>\<open>refreshLANPeers\<close>.\<close>

definition refreshLANPeers ::
  "p2p_crypto \<Rightarrow> ('s, 'a) world \<Rightarrow> string \<Rightarrow> Identity \<Rightarrow> string \<Rightarrow> string \<Rightarrow> time \<Rightarrow> agent \<Rightarrow> 's \<Rightarrow> ('s \<times> agent \<times> p2p_effect list) option"
where
  "refreshLANPeers cr W serverHTTP identity deviceID deviceName now a s =
     (case requestLANBootstrap W serverHTTP (agent_request identity deviceID deviceName) s of
        (s, Inl err) \<Rightarrow> Some (s, a, [])
      | (s, Inr resp) \<Rightarrow> do {
          let (addresses, available) = runtimeAddresses resp;
          router \<leftarrow> UpdateConfig (Some (agent_router a)) addresses (lb_ACL resp) available;
          let a = with_objects router (upsertLinkPeers (agent_link a) now (lb_Peers resp) False) a;
          (case a of
             Alone _ _ \<Rightarrow> Some (s, a, [])
           | Connected p \<Rightarrow> do {
               (p, out) \<leftarrow> UpsertPeers cr (map (\<lambda>peer. (bp_DeviceID peer, bp_PublicKey peer)) (lb_Peers resp)) p;
               Some (s, Connected p, out) }) })"

subsection \<open>Reports\<close>

definition lanCurrentTrafficClass :: "lanP2P option \<Rightarrow> string \<Rightarrow> string" where
  "lanCurrentTrafficClass q peerID = (case q of None \<Rightarrow> '''' | Some p \<Rightarrow> currentTrafficClass p peerID)"

definition estimated_bps :: "uint64 \<Rightarrow> uint64 \<Rightarrow> int" where
  "estimated_bps total_bytes prev = (if prev \<le> total_bytes then sint (total_bytes - prev) sdiv 10 else 0)"

text \<open>The report on one session, and the table of byte counts; the snapshots prune the tables of the agent.\<close>

definition session_report ::
  "(time \<Rightarrow> string) \<Rightarrow> lanBootstrapResponse \<Rightarrow> string \<Rightarrow> int \<Rightarrow> RouterStats \<Rightarrow> time \<Rightarrow> (string \<Rightarrow> uint64) \<Rightarrow> agent \<Rightarrow> PeerSession
     \<Rightarrow> agent \<times> (string \<Rightarrow> uint64) \<times> status_report"
where
  "session_report format resp deviceID networkID routerStats now lastBytes a session =
     (let peerID = pses_PeerID session; mtu = lanNetworkMTU (lb_Network resp); mss = lanNetworkMSS (lb_Network resp) mtu;
          tx = pses_TxBytes session; rx = pses_RxBytes session; bytes = tx + rx; prev = lastBytes peerID;
          (dataPath, reason) = (case agent_p2p a of None \<Rightarrow> ('''', '''') | Some p \<Rightarrow> peerDataPath p peerID now);
          dataPath = (if dataPath = '''' then lanDataPathFromSession session else dataPath);
          reason = (if reason = '''' then lanPathReasonFromSession session else reason);
          natType = lanNATTypeForPeer (agent_p2p a) peerID dataPath;
          fallbackReason = lanFallbackReason (agent_p2p a) dataPath reason;
          trafficClass = lanCurrentTrafficClass (agent_p2p a) peerID;
          (a, diag) = (case a of
             Alone _ _ \<Rightarrow> (a, \<lparr>rd_RelayDisabled = False, rd_SocketRotations = 0, rd_LastRotationAt = '''', rd_LastRotationReason = '''',
                             rd_HotPaths = 0, rd_ActiveSessions = 0\<rparr>)
           | Connected p \<Rightarrow> (case diagnosticsSnapshot format p now of (p, diag) \<Rightarrow> (Connected p, diag)));
          state = no_peer_state\<lparr>ps_DeviceID := deviceID, ps_PeerID := peerID, ps_NetworkID := networkID, ps_State := pses_State session,
            ps_Path := pses_Path session, ps_DataPath := dataPath, ps_PathReason := reason, ps_NATType := natType,
            ps_FallbackReason := fallbackReason, ps_TrafficClass := trafficClass,
            ps_TCPFastPath := lanTCPFastPathState (vn_TCPFastPath (lb_Network resp)) trafficClass, ps_AdapterState := ''up'',
            ps_MTU := mtu, ps_MSS := mss, ps_TxBytes := sint tx, ps_RxBytes := sint rx, ps_EstimatedBps := estimated_bps bytes prev,
            ps_LastError := pses_LastError session, ps_ActiveSessions := int (rd_ActiveSessions diag), ps_HotPaths := int (rd_HotPaths diag),
            ps_RelayDisabled := rd_RelayDisabled diag, ps_SocketRotations := rd_SocketRotations diag,
            ps_LastRotationAt := rd_LastRotationAt diag, ps_LastRotationReason := rd_LastRotationReason diag,
            ps_LastTransitionAt := format (pses_LastSeenAt session)\<rparr>;
          state = (if pses_LastSentAt session < pses_LastRecvAt session then state\<lparr>ps_LastHandshakeAt := format (pses_LastRecvAt session)\<rparr>
                   else if pses_LastSentAt session \<noteq> 0 then state\<lparr>ps_LastHandshakeAt := format (pses_LastSentAt session)\<rparr>
                   else state);
          state = (if 0 < ds_PeerUnavailable (rs_Drops routerStats) then state\<lparr>ps_DropReason := ''peer_unavailable''\<rparr> else state);
          (a, learned) = (case a of
             Alone _ _ \<Rightarrow> (a, [])
           | Connected p \<Rightarrow> (case LearnedPathsSnapshot format (p2_hotPaths p) now (p2_deviceID p) networkID of
                              (hots, rows) \<Rightarrow> (Connected (p\<lparr>p2_hotPaths := hots\<rparr>), rows)))
      in (a, lastBytes(peerID := bytes), (state, learned)))"

fun report_sessions ::
  "('s, 'a) world \<Rightarrow> string \<Rightarrow> (time \<Rightarrow> string) \<Rightarrow> lanBootstrapResponse \<Rightarrow> string \<Rightarrow> int \<Rightarrow> RouterStats \<Rightarrow> time \<Rightarrow> PeerSession list
     \<Rightarrow> (string \<Rightarrow> uint64) \<Rightarrow> agent \<Rightarrow> 's \<Rightarrow> 's \<times> agent \<times> (string \<Rightarrow> uint64)"
where
  "report_sessions W serverHTTP format resp deviceID networkID stats now [] lastBytes a s = (s, a, lastBytes)"
| "report_sessions W serverHTTP format resp deviceID networkID stats now (session # sessions) lastBytes a s =
     (case session_report format resp deviceID networkID stats now lastBytes a session of
        (a, lastBytes, report) \<Rightarrow>
          report_sessions W serverHTTP format resp deviceID networkID stats now sessions lastBytes a
            (fst (reportLANStatusPayload W serverHTTP report s)))"

text \<open>One tick of \<^verbatim>\<open>reportLANPeerRuntime\<close>.\<close>

definition reportLANPeerRuntime ::
  "('s, 'a) world \<Rightarrow> string \<Rightarrow> (time \<Rightarrow> string) \<Rightarrow> lanBootstrapResponse \<Rightarrow> string \<Rightarrow> int \<Rightarrow> time \<Rightarrow> (string \<Rightarrow> uint64) \<Rightarrow> agent \<Rightarrow> 's
     \<Rightarrow> 's \<times> agent \<times> (string \<Rightarrow> uint64)"
where
  "reportLANPeerRuntime W serverHTTP format resp deviceID networkID now lastBytes a s =
     (if server_base serverHTTP = '''' then (s, a, lastBytes)
      else report_sessions W serverHTTP format resp deviceID networkID (Stats (Some (agent_router a))) now (Sessions (agent_link a)) lastBytes a s)"

section \<open>Starting\<close>

lemma InspectSystem_ok:
  assumes "InspectSystem W cidr mtu s = Some (s', state, None)"
  obtains routes where "w_listRoutes W s = (s', Inr routes)" "DetectConflict cidr routes = Some (Inr (sys_Conflict state))"
    "NextAvailableCIDR cidr routes = Some (Inr (sys_SelectedCIDR state))" "sys_MSS state = MSSForMTU mtu"
  using assms by (fastforce simp: InspectSystem_def split: prod.splits sum.splits Option.bind_splits)

lemma InspectSystem_total: "\<exists>s' state err. InspectSystem W cidr mtu s = Some (s', state, err)"
proof -
  obtain s1 r where r: "w_listRoutes W s = (s1, r)" by fastforce
  show ?thesis
  proof (cases r)
    case (Inr routes)
    obtain c where "DetectConflict cidr routes = Some c" using DetectConflict_no_panic by blast
    moreover obtain t where "NextAvailableCIDR cidr routes = Some t" using NextAvailableCIDR_total by blast
    ultimately show ?thesis using r Inr by (cases c; cases t) (simp_all add: InspectSystem_def)
  qed (use r in \<open>simp add: InspectSystem_def\<close>)
qed

lemma NextAvailableCIDR_preferred:
  "DetectConflict cidr routes = Some (Inr k) \<Longrightarrow> \<not> conflict_Conflicts k \<Longrightarrow> NextAvailableCIDR cidr routes = Some (Inr cidr)"
  by (simp add: NextAvailableCIDR_def)

lemma DetectConflict_free:
  assumes "DetectConflict cidr routes = Some (Inr k)" "\<not> conflict_Conflicts k"
  shows "\<exists>i net. ParseCIDR cidr = Some (i, net) \<and> find_conflict net routes = Some None"
  using assms by (auto simp: DetectConflict_def split: option.splits)

text \<open>A network that the routes of the host do not meet.\<close>

definition clear_of :: "IPNet \<Rightarrow> Route list \<Rightarrow> bool" where
  "clear_of net routes \<longleftrightarrow>
     (\<forall>r \<in> set routes. \<forall>j e m n. ParseCIDR (route_CIDR r) = Some (j, e) \<and> net4 net m \<and> net4 e n \<and> \<not> isDefaultRoute e
        \<longrightarrow> \<not> (\<exists>x. length x = 4 \<and> Contains net x \<and> Contains e x))"

lemma find_conflict_clear: "find_conflict net routes = Some None \<Longrightarrow> clear_of net routes"
  unfolding clear_of_def using find_conflict_None [of net routes] cidrOverlap_iff by fastforce

text \<open>What holds once an adapter was configured.\<close>

definition adapter_ok :: "('s, 'a) world \<Rightarrow> string \<Rightarrow> string \<Rightarrow> int \<Rightarrow> 'a \<Rightarrow> bool" where
  "adapter_ok W virtualIP cidr mtu adapter \<longleftrightarrow>
     (\<exists>i net ip s0 routes s1 s2. ParseCIDR cidr = Some (i, net) \<and> ip = To4 (ParseIP (TrimSpace virtualIP)) \<and> ip \<noteq> [] \<and> Contains net ip
        \<and> snd (w_listRoutes W s0) = Inr routes \<and> clear_of net routes
        \<and> w_Configure W adapter (lan_config virtualIP cidr mtu) s1 = (s2, None))"

lemma configureLANAdapter_ok:
  assumes "configureLANAdapter W virtualIP cidr mtu s = Some (s', state, Inr adapter)"
  shows "adapter_ok W virtualIP cidr mtu adapter \<and> sys_SelectedCIDR state = cidr \<and> sys_MSS state = MSSForMTU mtu"
proof -
  from assms obtain s1 s2 where i: "InspectSystem W cidr mtu s = Some (s1, state, None)"
    and v: "validateLANRouteSelection virtualIP cidr state = None"
    and c: "w_Configure W adapter (lan_config virtualIP cidr mtu) s2 = (s', None)"
    by (auto simp: configureLANAdapter_def split: Option.bind_splits option.splits prod.splits sum.splits)
  from i obtain routes where r: "w_listRoutes W s = (s1, Inr routes)" "DetectConflict cidr routes = Some (Inr (sys_Conflict state))"
    "NextAvailableCIDR cidr routes = Some (Inr (sys_SelectedCIDR state))" "sys_MSS state = MSSForMTU mtu"
    by (rule InspectSystem_ok)
  have n: "\<not> conflict_Conflicts (sys_Conflict state)" using v by (auto simp: validateLANRouteSelection_def split: if_splits)
  obtain i net where p: "ParseCIDR cidr = Some (i, net)" "find_conflict net routes = Some None" using DetectConflict_free [OF r(2) n] by blast
  have "To4 (ParseIP (TrimSpace virtualIP)) \<noteq> [] \<and> Contains net (To4 (ParseIP (TrimSpace virtualIP)))"
    using v p(1) by (auto simp: validateLANRouteSelection_def Let_def split: if_splits)
  then have "adapter_ok W virtualIP cidr mtu adapter"
    unfolding adapter_ok_def using p(1) find_conflict_clear [OF p(2)] c r(1)
    by (intro exI [of _ i] exI [of _ net] exI [of _ "To4 (ParseIP (TrimSpace virtualIP))"] exI [of _ s] exI [of _ routes] exI [of _ s2]
        exI [of _ s'] conjI) simp_all
  with NextAvailableCIDR_preferred [OF r(2) n] r(3,4) show ?thesis by simp
qed

lemma configureLANAdapter_total: "\<exists>s' state res. configureLANAdapter W virtualIP cidr mtu s = Some (s', state, res)"
  using InspectSystem_total [of W cidr mtu s]
  by (auto simp: configureLANAdapter_def split: option.splits prod.splits sum.splits)

lemma prepareLAN_total: "\<exists>s' v. prepareLAN W resp deviceID now s = Some (s', v)"
  using configureLANAdapter_total [of W "va_VirtualIP (lb_Address resp)" "vn_CIDR (lb_Network resp)" "lanNetworkMTU (lb_Network resp)" s]
  by (auto simp: prepareLAN_def Let_def split: sum.splits)

lemma prepareLAN_runtime:
  assumes "prepareLAN W resp deviceID now s = Some (s', v)" "pre_runtime v = Some (router, link)"
  shows "\<exists>adapter. pre_adapter v = Some adapter
     \<and> adapter_ok W (va_VirtualIP (lb_Address resp)) (vn_CIDR (lb_Network resp)) (lanNetworkMTU (lb_Network resp)) adapter
     \<and> buildPacketRuntime resp deviceID (lanNetworkMTU (lb_Network resp)) now = Inr (router, link)
     \<and> pre_runtimeState v = ''running'' \<and> pre_adapterState v = ''up'' \<and> pre_selectedCIDR v = vn_CIDR (lb_Network resp)
     \<and> pre_mss v = lanNetworkMSS (lb_Network resp) (lanNetworkMTU (lb_Network resp)) \<and> pre_lastError v = ''''"
  using assms
  by (auto simp: prepareLAN_def Let_def lanNetworkMSS_def split: if_splits Option.bind_splits sum.splits
      dest!: configureLANAdapter_ok)


definition demo_lan_network :: VirtualNetwork where
  "demo_lan_network = \<lparr>vn_ID = 1, vn_Name = ''lan'', vn_CIDR = DefaultCIDR, vn_MTU = 0, vn_MSS = 0, vn_PathPolicy = '''', vn_TCPFastPath = '''',
     vn_Enabled = True, vn_CreatedAt = '''', vn_UpdatedAt = ''''\<rparr>"

definition demo_resp :: lanBootstrapResponse where
  "demo_resp = \<lparr>lb_Version = 1, lb_Capabilities = [], lb_ConfigVersion = '''', lb_Server = '''', lb_STUNAltPort = 0, lb_RelayEnabled = True,
     lb_DeviceID = ''a'', lb_DeviceName = '''', lb_Network = demo_lan_network,
     lb_Address = \<lparr>va_DeviceID = ''a'', va_NetworkID = 1, va_VirtualIP = IPv4String [172, 16, 10, 2], va_Hostname = '''', va_DNSEnabled = False,
       va_CreatedAt = '''', va_UpdatedAt = ''''\<rparr>,
     lb_Routes = [], lb_ACL = [], lb_Peers = [\<lparr>bp_DeviceID = ''b'', bp_VirtualIP = IPv4String [172, 16, 10, 3], bp_Hostname = '''', bp_PublicKey = ''''\<rparr>],
     lb_LearnedPaths = []\<rparr>"

text \<open>A host without routes, whose state is the set of open adapters, and a server that answers every report with \<open>code\<close>.\<close>

definition demo_world :: "int \<Rightarrow> (nat set, nat) world" where
  "demo_world code = \<lparr>w_listRoutes = (\<lambda>s. (s, Inr [])), w_openOrCreate = (\<lambda>_ s. (insert 0 s, Inr 0)), w_Configure = (\<lambda>_ _ s. (s, None)),
     w_Close = (\<lambda>a s. s - {a}), w_bootstrap = (\<lambda>_ _ s. (s, Inr (200, Some demo_resp))), w_status = (\<lambda>_ _ s. (s, Inr code)),
     w_errorText = (\<lambda>_. '''')\<rparr>"

definition demo_identity :: Identity where
  "demo_identity = \<lparr>id_Algorithm = ''ed25519'', id_PrivateKey = '''', id_PublicKey = ''''\<rparr>"

lemma demo_conflict:
  "DetectConflict DefaultCIDR [] = Some (Inr \<lparr>conflict_CIDR = DefaultCIDR, conflict_Existing = empty_route, conflict_Conflicts = False\<rparr>)"
  by (simp add: DetectConflict_def ParseCIDR_DefaultCIDR)

lemma demo_adapter:
  "configureLANAdapter (demo_world code) (IPv4String [172, 16, 10, 2]) DefaultCIDR 1280 {} = Some ({0}, \<lparr>sys_Routes = [],
     sys_Conflict = \<lparr>conflict_CIDR = DefaultCIDR, conflict_Existing = empty_route, conflict_Conflicts = False\<rparr>,
     sys_SelectedCIDR = DefaultCIDR, sys_MSS = MSSForMTU 1280\<rparr>, Inr 0)"
proof -
  have d: "TrimSpace DefaultCIDR = DefaultCIDR" "DefaultCIDR \<noteq> ''''" by (simp_all add: DefaultCIDR_def TrimSpace_plain plain_char_def)
  have ip: "To4 (ParseIP (TrimSpace (IPv4String [172, 16, 10, 2]))) = [172, 16, 10, 2]"
    by (simp add: TrimSpace_plain plain_IPv4String ParseIP_String)
  show ?thesis
    by (simp add: configureLANAdapter_def InspectSystem_def demo_world_def demo_conflict NextAvailableCIDR_preferred [OF demo_conflict]
        validateLANRouteSelection_def d ip ParseCIDR_DefaultCIDR Contains4 and_bytes_def)
qed

lemma demo_resp_fields [simp]:
  "lb_Network demo_resp = demo_lan_network" "va_VirtualIP (lb_Address demo_resp) = IPv4String [172, 16, 10, 2]"
  "vn_CIDR demo_lan_network = DefaultCIDR" "lanNetworkMTU demo_lan_network = 1280" "lb_Version demo_resp = 1"
  by (simp_all add: demo_resp_def demo_lan_network_def lanNetworkMTU_def wintun_DefaultMTU_def)

lemma demo_runtime: "\<exists>runtime. buildPacketRuntime demo_resp ''a'' 1280 0 = Inr runtime"
proof -
  have "\<exists>router. NewRouter \<lparr>rc_NetworkID = 1, rc_SourceDeviceID = ''a'', rc_MTU = m, rc_Addresses = as, rc_ACLRules = acl, rc_PeerAvailable = av\<rparr>
     = Inr router" for m as acl av by (simp add: NewRouter_def TrimSpace_plain plain_char_def Let_def)
  then show ?thesis by (auto simp: buildPacketRuntime_def runtimeAddresses_def demo_lan_network_def Let_def split: sum.splits) (metis sum.distinct(1))
qed

lemma demo_prepared:
  "\<exists>v runtime. prepareLAN (demo_world code) demo_resp ''a'' 0 {} = Some ({0}, v) \<and> pre_adapter v = Some 0 \<and> pre_runtime v = Some runtime"
proof -
  obtain runtime where "buildPacketRuntime demo_resp ''a'' 1280 0 = Inr runtime" using demo_runtime by blast
  moreover have "IPv4String [172, 16, 10, 2] \<noteq> ''''" by (simp add: IPv4String_def)
  ultimately show ?thesis by (simp add: prepareLAN_def Let_def demo_adapter)
qed

lemma demo_server: "server_base ''s'' = ''s''"
  by (simp add: server_base_def TrimRight_def TrimSpace_plain plain_char_def)

lemma demo_bootstrap: "requestLANBootstrap (demo_world code) ''s'' req s = (s, Inr demo_resp)"
  by (simp add: requestLANBootstrap_def demo_server demo_world_def ok_status_def lanBootstrapVersion_def)


text \<open>What the agent relies on of the driver and of a request: an adapter that was opened is open, and neither configuring
  it nor a request to the server closes one.\<close>

definition driver_ok :: "('s, 'a) world \<Rightarrow> ('s \<Rightarrow> 'a set) \<Rightarrow> bool" where
  "driver_ok W opened \<longleftrightarrow>
     (\<forall>c s s' a. w_openOrCreate W c s = (s', Inr a) \<longrightarrow> a \<in> opened s')
     \<and> (\<forall>a c s s' e. w_Configure W a c s = (s', e) \<longrightarrow> opened s \<subseteq> opened s')
     \<and> (\<forall>u report s s' r. w_status W u report s = (s', r) \<longrightarrow> opened s \<subseteq> opened s')"

lemma driver_okD:
  assumes "driver_ok W opened"
  shows "w_openOrCreate W c s = (s', Inr a) \<Longrightarrow> a \<in> opened s'" "w_Configure W a c s = (s', e) \<Longrightarrow> opened s \<subseteq> opened s'"
    "w_status W u report s = (s', r) \<Longrightarrow> opened s \<subseteq> opened s'"
  using assms unfolding driver_ok_def by blast+

lemma configured_open:
  assumes "driver_ok W opened" "configureLANAdapter W virtualIP cidr mtu s = Some (s', state, Inr adapter)"
  shows "adapter \<in> opened s'"
  using assms(2) driver_okD(1,2) [OF assms(1)]
  by (fastforce simp: configureLANAdapter_def split: Option.bind_splits option.splits prod.splits sum.splits)

lemma prepared_open:
  assumes "driver_ok W opened" "prepareLAN W resp deviceID now s = Some (s', v)" "pre_adapter v = Some adapter"
  shows "adapter \<in> opened s'"
  using assms(2,3) configured_open [OF assms(1)]
  by (fastforce simp: prepareLAN_def Let_def split: if_splits Option.bind_splits sum.splits)



section \<open>Refreshing\<close>

lemma UpsertPeer_session:
  assumes "map_of (lm_sessions m) i = Some session"
  shows "\<exists>session'. map_of (lm_sessions (fst (UpsertPeer m now peer relay ready))) i = Some session'
     \<and> pses_PeerID session' = pses_PeerID session
     \<and> (if pe_DeviceID peer = i \<and> i \<noteq> '''' then pses_Path session' = (if \<not> lm_forceRelay m \<and> ready then LinkPathP2P else LinkPathRelay)
        else session' = session)"
  using assms by (auto simp: UpsertPeer_def Let_def update_conv')

lemma upsertLinkPeers_session:
  assumes "map_of (lm_sessions m) i = Some session"
  shows "\<exists>session'. map_of (lm_sessions (upsertLinkPeers m now peers False)) i = Some session' \<and> pses_PeerID session' = pses_PeerID session
     \<and> (i \<noteq> '''' \<and> i \<in> bp_DeviceID ` set peers \<or> pses_Path session = LinkPathRelay \<longrightarrow> pses_Path session' = LinkPathRelay)"
  using assms
proof (induction peers arbitrary: m session)
  case (Cons peer peers)
  obtain session1 where s: "map_of (lm_sessions (fst (UpsertPeer m now (no_endpoint\<lparr>pe_DeviceID := bp_DeviceID peer\<rparr>) http_relay False))) i = Some session1"
    "pses_PeerID session1 = pses_PeerID session"
    "if bp_DeviceID peer = i \<and> i \<noteq> '''' then pses_Path session1 = LinkPathRelay else session1 = session"
    using UpsertPeer_session [OF Cons.prems, of now "no_endpoint\<lparr>pe_DeviceID := bp_DeviceID peer\<rparr>" http_relay False] by auto
  show ?case using Cons.IH [OF s(1)] s(2,3) by (auto split: if_splits)
qed auto

lemma resetRelayTimer_keeps [simp]:
  "p2p_peer (fst (resetRelayTimer p i)) = p2p_peer p" "p2_link (fst (resetRelayTimer p i)) = p2_link p"
  by (auto simp: resetRelayTimer_def split: option.splits)

lemma registerPeerConvs_keeps:
  "registerPeerConvs cr p i = Some p' \<Longrightarrow> p2p_peer p' = p2p_peer p \<and> p2_link p' = p2_link p"
  by (auto simp: registerPeerConvs_def split: if_splits Option.bind_splits)

lemma same_key: "\<exists>k. q = q\<lparr>pr_publicKey := k\<rparr>" for q :: lanP2PPeer
  by (rule exI [of _ "pr_publicKey q"]) simp

text \<open>The list of a configuration changes a known peer in its public key only, and leaves the link manager alone.\<close>

lemma upsert_one_keeps:
  assumes "upsert_one cr p info = Some (p', out)"
  shows "p2_link p' = p2_link p \<and> (\<forall>i q. p2p_peer p i = Some q \<longrightarrow> (\<exists>k. p2p_peer p' i = Some (q\<lparr>pr_publicKey := k\<rparr>)))"
proof (cases "TrimSpace (fst info) = '''' \<or> TrimSpace (fst info) = p2_deviceID p")
  case True
  then show ?thesis using assms same_key by (auto simp: upsert_one_def)
next
  case False
  let ?i = "TrimSpace (fst info)"
  define q where "q = (case p2p_peer p ?i of None \<Rightarrow> new_peer ?i (snd info) | Some existing \<Rightarrow> existing\<lparr>pr_publicKey := snd info\<rparr>)"
  from assms False obtain p1 where r: "registerPeerConvs cr (p\<lparr>p2_peers := AList.update ?i q (p2_peers p)\<rparr>) ?i = Some p1"
    and "p2p_peer p' = p2p_peer p1 \<and> p2_link p' = p2_link p1"
    unfolding q_def by (auto simp: upsert_one_def Let_def case_prod_unfold split: Option.bind_splits if_splits)
  then have p': "p2_link p' = p2_link p" "\<And>j. p2p_peer p' j = (if j = ?i then Some q else p2p_peer p j)"
    using registerPeerConvs_keeps [OF r] by (auto simp: p2p_peer_def update_conv')
  moreover have "\<exists>k. q = x\<lparr>pr_publicKey := k\<rparr>" if "p2p_peer p ?i = Some x" for x using that by (auto simp: q_def)
  ultimately show ?thesis using same_key by auto
qed

lemma UpsertPeers_keeps:
  assumes "UpsertPeers cr infos p = Some (p', out)"
  shows "p2_link p' = p2_link p \<and> (\<forall>i q. p2p_peer p i = Some q \<longrightarrow> (\<exists>k. p2p_peer p' i = Some (q\<lparr>pr_publicKey := k\<rparr>)))"
  using assms
proof (induction infos arbitrary: p p' out)
  case Nil
  then show ?case using same_key by auto
next
  case (Cons info infos)
  then obtain p1 out1 rest where "upsert_one cr p info = Some (p1, out1)" "UpsertPeers cr infos p1 = Some (p', rest)"
    by (auto split: Option.bind_splits)
  then have k: "p2_link p1 = p2_link p \<and> (\<forall>i q. p2p_peer p i = Some q \<longrightarrow> (\<exists>k. p2p_peer p1 i = Some (q\<lparr>pr_publicKey := k\<rparr>)))"
    "p2_link p' = p2_link p1 \<and> (\<forall>i q. p2p_peer p1 i = Some q \<longrightarrow> (\<exists>k. p2p_peer p' i = Some (q\<lparr>pr_publicKey := k\<rparr>)))"
    using upsert_one_keeps Cons.IH by blast+
  have "\<exists>k. p2p_peer p' i = Some (q\<lparr>pr_publicKey := k\<rparr>)" if "p2p_peer p i = Some q" for i q
  proof -
    obtain k1 where "p2p_peer p1 i = Some (q\<lparr>pr_publicKey := k1\<rparr>)" using k(1) \<open>p2p_peer p i = Some q\<close> by blast
    then obtain k2 where "p2p_peer p' i = Some (q\<lparr>pr_publicKey := k1\<rparr>\<lparr>pr_publicKey := k2\<rparr>)" using k(2) by blast
    then show ?thesis by auto
  qed
  with k show ?case by simp
qed

lemma session_report_paths:
  assumes "session_report format resp deviceID networkID stats now lastBytes a session = (a', lastBytes', state, learned)"
    and "agent_p2p a = Some p" "p2p_peer p (pses_PeerID session) = Some q" "pr_datagramReady q" "\<not> pr_isRelay q"
  shows "ps_PeerID state = pses_PeerID session \<and> ps_Path state = pses_Path session \<and> ps_DataPath state = lanPathP2PDatagram"
proof -
  have "peerDataPath p (pses_PeerID session) now = (lanPathP2PDatagram, ''p2p_ready'')" using assms(3-5) by (simp add: peerDataPath_def)
  moreover have "lanPathP2PDatagram \<noteq> ''''" by (simp add: lanPathP2PDatagram_def)
  moreover obtain p where "a = Connected p" using assms(2) by (cases a) auto
  ultimately show ?thesis using assms(1,2) by (auto simp: session_report_def Let_def no_peer_state_def case_prod_unfold split: if_splits)
qed

text \<open>C35. Every refresh of the configuration takes the session of a directly connected peer for a relayed one: although
  the peer has the datagram path before and after, its session in the link manager is set to the path \<^verbatim>\<open>relay\<close> (as are the
  bytes counted on it from then on), and the next report to the server carries the path \<^verbatim>\<open>relay\<close> beside the data path
  \<^verbatim>\<open>p2p_datagram\<close>.\<close>

theorem refresh_reports_relay:
  assumes "requestLANBootstrap W serverHTTP (agent_request identity deviceID deviceName) s = (s', Inr resp)"
    and "refreshLANPeers cr W serverHTTP identity deviceID deviceName now (Connected p) s = Some (s', a, out)"
    and "i \<in> bp_DeviceID ` set (lb_Peers resp)" "i \<noteq> ''''"
    and "map_of (lm_sessions (p2_link p)) i = Some session" "pses_PeerID session = i"
    and "p2p_peer p i = Some q" "pr_datagramReady q" "\<not> pr_isRelay q"
  shows "\<exists>session' a' lastBytes' state learned. map_of (lm_sessions (agent_link a)) i = Some session' \<and> pses_Path session' = LinkPathRelay
     \<and> session_report format resp deviceID networkID stats later lastBytes a session' = (a', lastBytes', state, learned)
     \<and> ps_PeerID state = i \<and> ps_Path state = LinkPathRelay \<and> ps_DataPath state = lanPathP2PDatagram"
proof -
  let ?link = "upsertLinkPeers (p2_link p) now (lb_Peers resp) False"
  from assms(1,2) obtain router p' where a: "a = Connected p'"
    and u: "UpsertPeers cr (map (\<lambda>peer. (bp_DeviceID peer, bp_PublicKey peer)) (lb_Peers resp)) (p\<lparr>p2_router := router, p2_link := ?link\<rparr>) = Some (p', out)"
    by (auto simp: refreshLANPeers_def runtimeAddresses_def split: Option.bind_splits)
  obtain k where q: "p2_link p' = ?link" "p2p_peer p' i = Some (q\<lparr>pr_publicKey := k\<rparr>)"
    using UpsertPeers_keeps [OF u] assms(7) by auto
  obtain session' where s: "map_of (lm_sessions ?link) i = Some session'" "pses_PeerID session' = i" "pses_Path session' = LinkPathRelay"
    using upsertLinkPeers_session [OF assms(5), of now "lb_Peers resp"] assms(3,4,6) by auto
  obtain a' lastBytes' state learned
    where r: "session_report format resp deviceID networkID stats later lastBytes a session' = (a', lastBytes', state, learned)"
    by (cases "session_report format resp deviceID networkID stats later lastBytes a session'") auto
  have "ps_PeerID state = i \<and> ps_Path state = LinkPathRelay \<and> ps_DataPath state = lanPathP2PDatagram"
    using session_report_paths [OF r, of p' "q\<lparr>pr_publicKey := k\<rparr>"] q(2) s(2,3) a assms(8,9) by simp
  with s(1,3) q(1) a r show ?thesis by auto
qed

lemma refreshLANPeers_connected:
  assumes "\<And>k m. 4 \<le> length (pc_hmac cr k m)"
    and "requestLANBootstrap W serverHTTP (agent_request identity deviceID deviceName) s = (s', Inr resp)"
  shows "\<exists>p' out. refreshLANPeers cr W serverHTTP identity deviceID deviceName now (Connected p) s = Some (s', Connected p', out)"
proof -
  let ?addresses = "lb_Address resp # map (peer_address (vn_ID (lb_Network resp))) (lb_Peers resp)"
  let ?available = "fold (\<lambda>peer available. available(bp_DeviceID peer \<mapsto> True)) (lb_Peers resp) Map.empty"
  let ?p = "p\<lparr>p2_router := (p2_router p)\<lparr>r_routes := buildRoutes (r_networkID (p2_router p)) ?addresses, r_acl := lb_ACL resp,
      r_peerAvailable := ?available\<rparr>, p2_link := upsertLinkPeers (p2_link p) now (lb_Peers resp) False\<rparr>"
  obtain q out where "UpsertPeers cr (map (\<lambda>peer. (bp_DeviceID peer, bp_PublicKey peer)) (lb_Peers resp)) ?p = Some (q, out)"
    using UpsertPeers_total [OF assms(1)] by blast
  then show ?thesis using assms(2) by (simp add: refreshLANPeers_def runtimeAddresses_def UpdateConfig_def)
qed

definition demo_direct :: lanP2P where
  "demo_direct = set_peer ((new_peer ''b'' '''')\<lparr>pr_datagramReady := True\<rparr>)
     ((demo_agent (demo_policy False))\<lparr>p2_link := \<lparr>lm_deviceID = ''a'', lm_forceRelay = False, lm_maxSessions = 64, lm_keepAliveEvery = 15,
        lm_idleTimeout = 120, lm_sessions = [(''b'', (new_session ''b'' 0)\<lparr>pses_Path := LinkPathP2P\<rparr>)], lm_stats = no_link_stats\<rparr>\<rparr>)"

theorem refresh_reports_relay_witness:
  "\<exists>a out session' a' lastBytes' state learned.
     refreshLANPeers demo_crypto (demo_world 200) ''s'' demo_identity ''a'' ''a'' 0 (Connected demo_direct) {} = Some ({}, a, out)
     \<and> map_of (lm_sessions (agent_link a)) ''b'' = Some session'
     \<and> session_report (\<lambda>_. '''') demo_resp ''a'' 1 no_stats 0 (\<lambda>_. 0) a session' = (a', lastBytes', state, learned)
     \<and> ps_Path state = LinkPathRelay \<and> ps_DataPath state = lanPathP2PDatagram"
proof -
  have req: "requestLANBootstrap (demo_world 200) ''s'' (agent_request demo_identity ''a'' ''a'') {} = ({}, Inr demo_resp)" by (rule demo_bootstrap)
  obtain p' out where r: "refreshLANPeers demo_crypto (demo_world 200) ''s'' demo_identity ''a'' ''a'' 0 (Connected demo_direct) {}
      = Some ({}, Connected p', out)" using refreshLANPeers_connected [OF demo_hmac req] by blast
  have f1: "''b'' \<in> bp_DeviceID ` set (lb_Peers demo_resp)" by (simp add: demo_resp_def)
  have f2: "map_of (lm_sessions (p2_link demo_direct)) ''b'' = Some ((new_session ''b'' 0)\<lparr>pses_Path := LinkPathP2P\<rparr>)"
    by (simp add: demo_direct_def set_peer_def)
  have f3: "pses_PeerID ((new_session ''b'' 0)\<lparr>pses_Path := LinkPathP2P\<rparr>) = ''b''" by (simp add: new_session_def)
  have f4: "p2p_peer demo_direct ''b'' = Some ((new_peer ''b'' '''')\<lparr>pr_datagramReady := True\<rparr>)"
    by (simp add: demo_direct_def p2p_peer_def set_peer_def new_peer_def update_conv')
  have f5: "pr_datagramReady ((new_peer ''b'' '''')\<lparr>pr_datagramReady := True\<rparr>)" "\<not> pr_isRelay ((new_peer ''b'' '''')\<lparr>pr_datagramReady := True\<rparr>)"
    by (simp_all add: new_peer_def)
  from refresh_reports_relay [OF req r f1 _ f2 f3 f4 f5, of "\<lambda>_. ''''" 1 no_stats 0 "\<lambda>_. 0"] r show ?thesis by auto
qed

end
