(* ===== verification/Config.thy ===== *)
theory Config
  imports StoreTypes
begin

text \<open>
  The package \<^verbatim>\<open>internal/config\<close>: the configuration of the server and of the tunnel client, their defaults, the
  JSON form of the client's, and the environment file of the server.

  \<^item> \<open>durations\<close> has \<^verbatim>\<open>time.ParseDuration\<close> and \<^verbatim>\<open>Duration.String\<close>; what the code relies on is that the first reads what
    the second prints.
  \<^item> A file arrives as what was read of it: the lines the scanner returns and whether it then failed, or the
    values \<^verbatim>\<open>encoding/json\<close> found for the fields (\<open>None\<close> for a field that is absent).
\<close>

subsection \<open>Configurations\<close>

record durations =
  du_parse :: "string \<Rightarrow> duration option"
  du_string :: "duration \<Rightarrow> string"

definition durations_ok :: "durations \<Rightarrow> bool" where
  "durations_ok D \<longleftrightarrow> (\<forall>d. du_parse D (du_string D d) = Some d \<and> du_string D d \<noteq> '''')"

record ServerConfig =
  cfg_UDPListen :: string
  cfg_StunAltListen :: string
  cfg_HTTPListen :: string
  cfg_ControlDatabaseDSN :: string
  cfg_AdminJWTSecret :: string
  cfg_AdminAccessTokenTTL :: duration
  cfg_AdminRefreshTokenTTL :: duration
  cfg_PSK :: string
  cfg_PeerTTL :: duration
  cfg_PairTTL :: duration
  cfg_RelayIdleTimeout :: duration
  cfg_AllowRelay :: bool
  cfg_LANAllowRelay :: bool
  cfg_AllowLegacy :: bool
  cfg_ClientNoUPnP :: bool
  cfg_ClientUPnPTimeout :: duration
  cfg_ClientLogLevel :: string
  cfg_ClientTrayEnabled :: bool
  cfg_ClientPunchTimeout :: duration
  cfg_ClientForceRelay :: bool
  cfg_ClientAllowLegacy :: bool
  cfg_ClientReleaseVersion :: string
  cfg_ClientReleaseURL :: string
  cfg_ClientReleaseSHA256 :: string
  cfg_ClientReleasePublishedAt :: string
  cfg_ClientReleaseNotes :: string
  cfg_ClientReleaseMinimumSupported :: string
  cfg_ClientReleaseFile :: string
  cfg_LANReleaseVersion :: string
  cfg_LANReleaseURL :: string
  cfg_LANReleaseSHA256 :: string
  cfg_LANReleasePublishedAt :: string
  cfg_LANReleaseNotes :: string
  cfg_LANReleaseMinimumSupported :: string
  cfg_LANReleaseFile :: string

record ClientConfig =
  cc_Server :: string
  cc_ServerHTTP :: string
  cc_DeviceID :: string
  cc_DeviceName :: string
  cc_PeerID :: string
  cc_PSK :: string
  cc_NoUPnP :: bool
  cc_UPnPTimeout :: duration
  cc_LogLevel :: string
  cc_TrayEnabled :: bool
  cc_PunchTimeout :: duration
  cc_ForceRelay :: bool
  cc_AllowLegacy :: bool
  cc_Forwards :: "string list"

definition DefaultClient :: ClientConfig where
  "DefaultClient = \<lparr>cc_Server = '''', cc_ServerHTTP = '''', cc_DeviceID = '''', cc_DeviceName = '''', cc_PeerID = '''', cc_PSK = '''',
     cc_NoUPnP = False, cc_UPnPTimeout = 4 * Second, cc_LogLevel = ''info'', cc_TrayEnabled = True, cc_PunchTimeout = 30 * Second,
     cc_ForceRelay = False, cc_AllowLegacy = False, cc_Forwards = []\<rparr>"

definition DefaultServer :: ServerConfig where
  "DefaultServer = (let c = DefaultClient in
     \<lparr>cfg_UDPListen = '':7000'', cfg_StunAltListen = '':7002'', cfg_HTTPListen = '':7001'', cfg_ControlDatabaseDSN = '''',
      cfg_AdminJWTSecret = '''', cfg_AdminAccessTokenTTL = 60 * Minute, cfg_AdminRefreshTokenTTL = 30 * 24 * 60 * Minute, cfg_PSK = '''',
      cfg_PeerTTL = 90 * Second, cfg_PairTTL = 2 * Minute, cfg_RelayIdleTimeout = 5 * Minute, cfg_AllowRelay = False,
      cfg_LANAllowRelay = False, cfg_AllowLegacy = False, cfg_ClientNoUPnP = cc_NoUPnP c, cfg_ClientUPnPTimeout = cc_UPnPTimeout c,
      cfg_ClientLogLevel = cc_LogLevel c, cfg_ClientTrayEnabled = cc_TrayEnabled c, cfg_ClientPunchTimeout = cc_PunchTimeout c,
      cfg_ClientForceRelay = cc_ForceRelay c, cfg_ClientAllowLegacy = cc_AllowLegacy c, cfg_ClientReleaseVersion = '''',
      cfg_ClientReleaseURL = '''', cfg_ClientReleaseSHA256 = '''', cfg_ClientReleasePublishedAt = '''', cfg_ClientReleaseNotes = '''',
      cfg_ClientReleaseMinimumSupported = '''', cfg_ClientReleaseFile = '''', cfg_LANReleaseVersion = '''', cfg_LANReleaseURL = '''',
      cfg_LANReleaseSHA256 = '''', cfg_LANReleasePublishedAt = '''', cfg_LANReleaseNotes = '''', cfg_LANReleaseMinimumSupported = '''',
      cfg_LANReleaseFile = ''''\<rparr>)"

subsection \<open>The JSON of the client\<close>

text \<open>The JSON value of a duration: a string, or the text of anything else.\<close>

datatype json_duration = Quoted string | Plain string

definition durationJSON_UnmarshalJSON :: "durations \<Rightarrow> json_duration \<Rightarrow> duration option" where
  "durationJSON_UnmarshalJSON D b = (case b of Quoted s \<Rightarrow> du_parse D s | Plain s \<Rightarrow> Atoi s)"

text \<open>The fields found in the file: of the type \<^verbatim>\<open>clientJSON\<close> of \<^verbatim>\<open>UnmarshalJSON\<close>, a string that is absent is empty.\<close>

record clientJSON =
  cj_Server :: string
  cj_ServerHTTP :: string
  cj_DeviceName :: string
  cj_PeerID :: string
  cj_NoUPnP :: "bool option"
  cj_UPnPTimeout :: "json_duration option"
  cj_LogLevel :: string
  cj_TrayEnabled :: "bool option"
  cj_PunchTimeout :: "json_duration option"
  cj_ForceRelay :: "bool option"
  cj_AllowLegacy :: "bool option"
  cj_Forwards :: "string list"

definition optional_duration :: "durations \<Rightarrow> json_duration option \<Rightarrow> duration option option" where
  "optional_duration D b = (case b of None \<Rightarrow> Some None | Some b \<Rightarrow> map_option Some (durationJSON_UnmarshalJSON D b))"

definition given :: "'a option \<Rightarrow> 'a \<Rightarrow> 'a" where
  "given new old = (case new of None \<Rightarrow> old | Some v \<Rightarrow> v)"

text \<open>\<open>None\<close> is an error of the decoder; the configuration is then left alone.\<close>

definition Client_UnmarshalJSON :: "durations \<Rightarrow> clientJSON \<Rightarrow> ClientConfig \<Rightarrow> ClientConfig option" where
  "Client_UnmarshalJSON D x c = do {
     upnp \<leftarrow> optional_duration D (cj_UPnPTimeout x);
     punch \<leftarrow> optional_duration D (cj_PunchTimeout x);
     Some (c\<lparr>cc_Server := cj_Server x, cc_ServerHTTP := cj_ServerHTTP x, cc_DeviceName := cj_DeviceName x, cc_PeerID := cj_PeerID x,
       cc_NoUPnP := given (cj_NoUPnP x) (cc_NoUPnP c), cc_UPnPTimeout := given upnp (cc_UPnPTimeout c),
       cc_LogLevel := (if cj_LogLevel x \<noteq> '''' then cj_LogLevel x else cc_LogLevel c),
       cc_TrayEnabled := given (cj_TrayEnabled x) (cc_TrayEnabled c), cc_PunchTimeout := given punch (cc_PunchTimeout c),
       cc_ForceRelay := given (cj_ForceRelay x) (cc_ForceRelay c), cc_AllowLegacy := given (cj_AllowLegacy x) (cc_AllowLegacy c),
       cc_Forwards := cj_Forwards x\<rparr>) }"

text \<open>What \<^verbatim>\<open>MarshalJSON\<close> writes, as \<^verbatim>\<open>UnmarshalJSON\<close> finds it again: it has no fields for the device id and the PSK.\<close>

definition Client_MarshalJSON :: "durations \<Rightarrow> ClientConfig \<Rightarrow> (string \<times> string) \<times> clientJSON" where
  "Client_MarshalJSON D c = ((cc_DeviceID c, cc_PSK c),
     \<lparr>cj_Server = cc_Server c, cj_ServerHTTP = cc_ServerHTTP c, cj_DeviceName = cc_DeviceName c, cj_PeerID = cc_PeerID c,
      cj_NoUPnP = Some (cc_NoUPnP c), cj_UPnPTimeout = Some (Quoted (du_string D (cc_UPnPTimeout c))), cj_LogLevel = cc_LogLevel c,
      cj_TrayEnabled = Some (cc_TrayEnabled c), cj_PunchTimeout = Some (Quoted (du_string D (cc_PunchTimeout c))),
      cj_ForceRelay = Some (cc_ForceRelay c), cj_AllowLegacy = Some (cc_AllowLegacy c), cj_Forwards = cc_Forwards c\<rparr>)"

subsection \<open>The environment file of the server\<close>

datatype env_error = BadLine string | BadDuration string | ReadFailed

text \<open>One line: \<open>None\<close> when it is skipped.\<close>

definition env_line :: "string \<Rightarrow> env_error + (string \<times> string) option" where
  "env_line text0 =
     (let line = TrimSpace text0 in
      if line = '''' \<or> HasPrefix line ''#'' then Inr None
      else
        let line = (if HasPrefix line ''export '' then TrimSpace (TrimPrefix line ''export '') else line) in
        case Cut line CHR ''='' of
          None \<Rightarrow> Inl (BadLine line)
        | Some (key, value) \<Rightarrow> Inr (Some (TrimSpace key, Trim (TrimSpace value) [CHR 0x22, CHR 0x27])))"

fun env_values :: "string list \<Rightarrow> (string \<rightharpoonup> string) \<Rightarrow> env_error + (string \<rightharpoonup> string)" where
  "env_values [] values = Inr values"
| "env_values (line # lines) values =
     (case env_line line of
        Inl err \<Rightarrow> Inl err
      | Inr None \<Rightarrow> env_values lines values
      | Inr (Some (key, value)) \<Rightarrow> env_values lines (values(key \<mapsto> value)))"

definition setDuration :: "durations \<Rightarrow> (string \<rightharpoonup> string) \<Rightarrow> string \<Rightarrow> duration \<Rightarrow> env_error + duration" where
  "setDuration D values key old =
     (case values key of
        None \<Rightarrow> Inr old
      | Some v \<Rightarrow> if v = '''' then Inr old else (case du_parse D v of None \<Rightarrow> Inl (BadDuration key) | Some d \<Rightarrow> Inr d))"

text \<open>The error, and the configuration as far as it was changed.\<close>

definition applyServerEnv :: "durations \<Rightarrow> (string \<rightharpoonup> string) \<Rightarrow> ServerConfig \<Rightarrow> env_error option \<times> ServerConfig" where
  "applyServerEnv D values s =
     (let s = s\<lparr>cfg_UDPListen := given (values ''UDP_LISTEN'') (cfg_UDPListen s),
                cfg_StunAltListen := given (values ''STUN_ALT_LISTEN'') (cfg_StunAltListen s),
                cfg_HTTPListen := given (values ''HTTP_LISTEN'') (cfg_HTTPListen s),
                cfg_ControlDatabaseDSN := given (values ''CONTROL_DATABASE_DSN'') (cfg_ControlDatabaseDSN s),
                cfg_AdminJWTSecret := given (values ''ADMIN_JWT_SECRET'') (cfg_AdminJWTSecret s),
                cfg_PSK := given (values ''PSK'') (cfg_PSK s)\<rparr>
      in (case setDuration D values ''ADMIN_ACCESS_TOKEN_TTL'' (cfg_AdminAccessTokenTTL s) of
            Inl err \<Rightarrow> (Some err, s)
          | Inr d \<Rightarrow>
              (let s = s\<lparr>cfg_AdminAccessTokenTTL := d\<rparr> in
               (case setDuration D values ''ADMIN_REFRESH_TOKEN_TTL'' (cfg_AdminRefreshTokenTTL s) of
                  Inl err \<Rightarrow> (Some err, s)
                | Inr d \<Rightarrow> (None, s\<lparr>cfg_AdminRefreshTokenTTL := d\<rparr>)))))"

text \<open>\<open>file\<close> is \<open>None\<close> when it does not exist, otherwise its lines and whether the scanner failed after them.\<close>

definition LoadServerEnv :: "durations \<Rightarrow> string \<Rightarrow> (string list \<times> bool) option \<Rightarrow> ServerConfig \<Rightarrow> env_error option \<times> ServerConfig" where
  "LoadServerEnv D path file cfg =
     (if path = '''' then (None, cfg)
      else case file of
        None \<Rightarrow> (None, cfg)
      | Some (lines, failed) \<Rightarrow>
          (case env_values lines Map.empty of
             Inl err \<Rightarrow> (Some err, cfg)
           | Inr values \<Rightarrow> if failed then (Some ReadFailed, cfg) else applyServerEnv D values cfg))"

section \<open>Properties\<close>

text \<open>A configuration of the client survives being written and read, but for the device id and the PSK: they are written,
  and what is read keeps the ones it had.\<close>

lemma client_config_roundtrip:
  assumes "durations_ok D" "cc_LogLevel c \<noteq> ''''"
  shows "Client_UnmarshalJSON D (snd (Client_MarshalJSON D c)) base = Some (c\<lparr>cc_DeviceID := cc_DeviceID base, cc_PSK := cc_PSK base\<rparr>)"
  using assms by (cases c; cases base)
    (simp add: Client_UnmarshalJSON_def Client_MarshalJSON_def optional_duration_def durationJSON_UnmarshalJSON_def durations_ok_def given_def)

text \<open>A variable has the value of the last line that assigns it.\<close>

lemma env_values_last:
  "env_values lines m = Inr values \<Longrightarrow>
     values key = given (map_option Some (map_of (rev (concat (map (\<lambda>l. case env_line l of Inr (Some kv) \<Rightarrow> [kv] | _ \<Rightarrow> []) lines))) key)) (m key)"
proof (induction lines arbitrary: m)
  case (Cons line lines)
  then show ?case by (auto simp: given_def map_add_def split: sum.splits option.splits)
qed (simp add: given_def)

text \<open>A file that cannot be read to its end, or has a line without \<^verbatim>\<open>=\<close>, changes nothing; otherwise only the eight
  variables of the code are looked at.\<close>

lemma applyServerEnv_only:
  "\<exists>a b c d e f g h. snd (applyServerEnv D values s) = s\<lparr>cfg_UDPListen := a, cfg_StunAltListen := b, cfg_HTTPListen := c, cfg_ControlDatabaseDSN := d,
     cfg_AdminJWTSecret := e, cfg_PSK := f, cfg_AdminAccessTokenTTL := g, cfg_AdminRefreshTokenTTL := h\<rparr>"
  by (cases s) (auto simp: applyServerEnv_def Let_def split: sum.splits)

end
