(* ===== verification/AdminAuth.thy ===== *)
theory AdminAuth
  imports Config ServerApi GoBase64
begin

text \<open>
  Who may use the HTTP interface of the server: \<^verbatim>\<open>internal/server/auth_jwt.go\<close>, \<^verbatim>\<open>internal/server/auth.go\<close> and the change
  of the password in \<^verbatim>\<open>internal/server/handlers_admin.go\<close>.  Access tokens are JSON web tokens signed with HMAC-SHA256; refresh
  tokens are random and stored by their hash.

  \<^item> \<open>auth_env\<close> has the code outside the repository: HMAC, SHA-256, bcrypt, and \<^verbatim>\<open>encoding/json\<close> for the claims.
  \<^item> \<open>admin_store\<close> has the operations of the database on administrators and refresh tokens, over its state \<open>'db\<close>.
  \<^item> A handler is an action over this state, as in \<^verbatim>\<open>ServerApi\<close>; \<open>requireAdmin\<close> and \<open>requireAgent\<close> give the claims of the request, or
    the error that is answered instead of calling the handler behind them.
\<close>

subsection \<open>URL-safe Base64 without padding\<close>

definition url_char :: "char \<Rightarrow> char" where
  "url_char c = (if c = CHR ''+'' then CHR ''-'' else if c = CHR ''/'' then CHR ''_'' else c)"

definition std_char :: "char \<Rightarrow> char" where
  "std_char c = (if c = CHR ''-'' then CHR ''+'' else if c = CHR ''_'' then CHR ''/'' else c)"

definition RawURL_Encode :: "bytes \<Rightarrow> string" where
  "RawURL_Encode bs = map url_char (filter (\<lambda>c. c \<noteq> CHR ''='') (EncodeToString bs))"

definition RawURL_Decode :: "string \<Rightarrow> bytes option" where
  "RawURL_Decode s =
     (let t = filter (\<lambda>c. of_char c \<noteq> (13 :: nat) \<and> of_char c \<noteq> (10 :: nat)) s in
      if list_ex (\<lambda>c. c \<in> {CHR ''+'', CHR ''/'', CHR ''=''}) t \<or> length t mod 4 = 1 then None
      else decode_quads (map std_char t @ replicate ((4 - length t mod 4) mod 4) CHR ''=''))"

subsection \<open>Data\<close>

record AdminUser =
  au_ID :: string
  au_Username :: string
  au_Name :: string
  au_Role :: string
  au_ForcePasswordChange :: bool
  au_PasswordVersion :: int
  au_PasswordHash :: string
  au_CreatedAt :: string
  au_UpdatedAt :: string

record AdminRefreshToken =
  art_ID :: int
  art_UserID :: string
  art_TokenHash :: string
  art_ExpiresAt :: string
  art_RevokedAt :: string
  art_CreatedAt :: string
  art_LastUsedAt :: string
  art_UserAgent :: string
  art_IP :: string

record adminClaims =
  cl_Subject :: string
  cl_Role :: string
  cl_PasswordVersion :: int
  cl_Issued :: int
  cl_Expires :: int

record tokenResponse =
  tr_AccessToken :: string
  tr_AccessExpiresAt :: string
  tr_RefreshToken :: string
  tr_RefreshExpiresAt :: string
  tr_ForcePasswordChange :: bool
  tr_PasswordVersion :: int
  tr_User :: "(string \<times> json_value) list"

record http_request = request +
  hr_Authorization :: string
  hr_PSK :: string
  hr_XForwardedFor :: string
  hr_UserAgent :: string

record auth_env =
  ev_hmac :: "bytes \<Rightarrow> bytes \<Rightarrow> bytes"
  ev_sha256 :: "bytes \<Rightarrow> bytes"
  ev_compare :: "string \<Rightarrow> string \<Rightarrow> bool"
  ev_generate :: "string \<Rightarrow> string option"
  ev_marshal :: "adminClaims \<Rightarrow> bytes"
  ev_unmarshal :: "bytes \<Rightarrow> adminClaims option"
  ev_format :: "time \<Rightarrow> string"
  ev_parse :: "string \<Rightarrow> time option"

record 'db admin_store =
  ad_GetAdminUserByUsername :: "string \<Rightarrow> ('db, AdminUser) store_op"
  ad_GetAdminUserByID :: "string \<Rightarrow> ('db, AdminUser) store_op"
  ad_UpsertAdminUser :: "AdminUser \<Rightarrow> ('db, unit) store_op"
  ad_UpdateAdminPassword :: "string \<Rightarrow> string \<Rightarrow> ('db, unit) store_op"
  ad_ClearAdminPasswordChangeRequired :: "string \<Rightarrow> ('db, unit) store_op"
  ad_GetAdminRefreshToken :: "string \<Rightarrow> ('db, AdminRefreshToken) store_op"
  ad_CreateAdminRefreshToken :: "string \<Rightarrow> string \<Rightarrow> time \<Rightarrow> string \<Rightarrow> string \<Rightarrow> ('db, unit) store_op"
  ad_TouchAdminRefreshToken :: "int \<Rightarrow> ('db, unit) store_op"
  ad_RevokeAdminRefreshToken :: "string \<Rightarrow> ('db, unit) store_op"
  ad_RevokeAdminRefreshTokensByUser :: "string \<Rightarrow> ('db, unit) store_op"
  ad_GetMeta :: "string \<Rightarrow> ('db, string) store_op"

definition denied :: server_error where
  "denied = unauthorized ''unauthorized'' ''unauthorized''"

text \<open>\<^verbatim>\<open>_ = f()\<close>: the call is made and its error ignored.\<close>

definition ignore :: "('db, 'a) store_op \<Rightarrow> ('db, unit) action" where
  "ignore m = onResult (call m) (\<lambda>_. ret ())"

subsection \<open>Tokens\<close>

definition jwtPart :: "bytes \<Rightarrow> string" where
  "jwtPart b = RawURL_Encode b"

definition hmacSHA256 :: "auth_env \<Rightarrow> bytes \<Rightarrow> bytes \<Rightarrow> bytes" where
  "hmacSHA256 E data key = ev_hmac E data key"

definition adminJWTSecret :: "auth_env \<Rightarrow> ServerConfig \<Rightarrow> bytes" where
  "adminJWTSecret E cfg =
     (let secret = TrimSpace (cfg_AdminJWTSecret cfg) in
      if secret \<noteq> '''' then bytes_of secret
      else if cfg_PSK cfg \<noteq> '''' then hmacSHA256 E (bytes_of ''admin-jwt'') (bytes_of (cfg_PSK cfg))
      else bytes_of ''udp-tunnel-dev-admin-jwt-secret'')"

definition jwt_header :: bytes where
  "jwt_header = bytes_of (''{'' @ [CHR 0x22] @ ''alg'' @ [CHR 0x22] @ '':'' @ [CHR 0x22] @ ''HS256'' @ [CHR 0x22] @ '',''
     @ [CHR 0x22] @ ''typ'' @ [CHR 0x22] @ '':'' @ [CHR 0x22] @ ''JWT'' @ [CHR 0x22] @ ''}'')"

definition signAccessToken :: "auth_env \<Rightarrow> ServerConfig \<Rightarrow> adminClaims \<Rightarrow> string" where
  "signAccessToken E cfg claims =
     (let unsigned = jwtPart jwt_header @ ''.'' @ jwtPart (ev_marshal E claims);
          sig = hmacSHA256 E (bytes_of unsigned) (adminJWTSecret E cfg)
      in unsigned @ ''.'' @ jwtPart sig)"

datatype token_error = BadToken | BadSignature | BadPayload | BadClaims | Expired

text \<open>\<open>unix\<close> is \<^verbatim>\<open>time.Now().Unix()\<close>.\<close>

definition verifyAccessToken :: "auth_env \<Rightarrow> ServerConfig \<Rightarrow> int \<Rightarrow> string \<Rightarrow> token_error + adminClaims" where
  "verifyAccessToken E cfg unix token =
     (case Split token CHR ''.'' of
        [p0, p1, p2] \<Rightarrow>
          let unsigned = p0 @ ''.'' @ p1;
              want = jwtPart (hmacSHA256 E (bytes_of unsigned) (adminJWTSecret E cfg))
          in if p2 \<noteq> want then Inl BadSignature
             else (case RawURL_Decode p1 of
                     None \<Rightarrow> Inl BadPayload
                   | Some payload \<Rightarrow>
                       (case ev_unmarshal E payload of
                          None \<Rightarrow> Inl BadClaims
                        | Some claims \<Rightarrow> if cl_Expires claims \<le> unix then Inl Expired else Inr claims))
      | _ \<Rightarrow> Inl BadToken)"

definition bearerToken :: "http_request \<Rightarrow> string" where
  "bearerToken r =
     (let v = TrimSpace (hr_Authorization r); pre = ''Bearer '' in
      if v = '''' then ''''
      else if length v < length pre \<or> \<not> EqualFold (take (length pre) v) pre then ''''
      else TrimSpace (drop (length pre) v))"

fun hex_digits :: "bytes \<Rightarrow> string" where
  "hex_digits [] = ''''"
| "hex_digits (b # bs) = ''0123456789abcdef'' ! (unat b div 16) # ''0123456789abcdef'' ! (unat b mod 16) # hex_digits bs"

definition hashRefreshToken :: "auth_env \<Rightarrow> string \<Rightarrow> string" where
  "hashRefreshToken E token = hex_digits (ev_sha256 E (bytes_of token))"

definition requestIP :: "http_request \<Rightarrow> string" where
  "requestIP r =
     (let xf = TrimSpace (hr_XForwardedFor r) in
      if xf \<noteq> '''' then (case Cut xf CHR '','' of Some (ip, _) \<Rightarrow> TrimSpace ip | None \<Rightarrow> xf)
      else (case Cut (r_RemoteAddr r) CHR '':'' of None \<Rightarrow> r_RemoteAddr r | Some (host, _) \<Rightarrow> host))"

definition adminUser :: "AdminUser \<Rightarrow> (string \<times> json_value) list" where
  "adminUser user =
     (let name = (if au_Name user = '''' then au_Username user else au_Name user) in
      [(''id'', JString (au_ID user)), (''username'', JString (au_Username user)), (''name'', JString name), (''role'', JString (au_Role user)),
       (''force_password_change'', JBool (au_ForcePasswordChange user))])"

text \<open>\<open>rnd\<close> is what \<^verbatim>\<open>crypto/rand\<close> delivers for the 32 bytes of a refresh token; \<open>now\<close> the time in nanoseconds.\<close>

definition issueAdminTokenPair ::
  "auth_env \<Rightarrow> ServerConfig \<Rightarrow> 'db admin_store \<Rightarrow> time \<Rightarrow> bytes option \<Rightarrow> http_request \<Rightarrow> AdminUser \<Rightarrow> ('db, tokenResponse) action"
where
  "issueAdminTokenPair E cfg S now rnd r user =
     (let accessTTL = (if cfg_AdminAccessTokenTTL cfg \<le> 0 then 60 * Minute else cfg_AdminAccessTokenTTL cfg);
          refreshTTL = (if cfg_AdminRefreshTokenTTL cfg \<le> 0 then 30 * 24 * 60 * Minute else cfg_AdminRefreshTokenTTL cfg);
          accessExp = now + accessTTL;
          refreshExp = now + refreshTTL;
          access = signAccessToken E cfg \<lparr>cl_Subject = au_ID user, cl_Role = au_Role user, cl_PasswordVersion = au_PasswordVersion user,
                     cl_Issued = now div Second, cl_Expires = accessExp div Second\<rparr>
      in case rnd of
           None \<Rightarrow> fail (OtherError ''rand'')
         | Some b \<Rightarrow>
             let refresh = RawURL_Encode b in
             andThen (call (ad_CreateAdminRefreshToken S (au_ID user) (hashRefreshToken E refresh) refreshExp (hr_UserAgent r) (requestIP r)))
               (\<lambda>_. ret \<lparr>tr_AccessToken = access, tr_AccessExpiresAt = ev_format E accessExp, tr_RefreshToken = refresh,
                        tr_RefreshExpiresAt = ev_format E refreshExp, tr_ForcePasswordChange = au_ForcePasswordChange user,
                        tr_PasswordVersion = au_PasswordVersion user, tr_User = adminUser user\<rparr>))"

subsection \<open>Handlers\<close>

definition defaultAdminUsername :: string where "defaultAdminUsername = ''admin''"

definition defaultAdminPassword :: string where "defaultAdminPassword = ''admin''"

definition handleAdminLogin ::
  "auth_env \<Rightarrow> ServerConfig \<Rightarrow> 'db admin_store \<Rightarrow> time \<Rightarrow> bytes option \<Rightarrow> http_request \<Rightarrow> (string \<times> string) option \<Rightarrow> ('db, tokenResponse) action"
where
  "handleAdminLogin E cfg S now rnd r body =
     (if r_Method r \<noteq> ''POST'' then fail methodNotAllowed
      else case body of
        None \<Rightarrow> fail (badRequest ''bad_json'' ''bad json'')
      | Some (username, password) \<Rightarrow>
          let username = (if TrimSpace username = '''' then defaultAdminUsername else TrimSpace username) in
          onResult (call (ad_GetAdminUserByUsername S username)) (\<lambda>res. case res of
             Inl _ \<Rightarrow> fail denied
           | Inr user \<Rightarrow> if \<not> ev_compare E (au_PasswordHash user) password then fail denied else issueAdminTokenPair E cfg S now rnd r user))"

definition handleAdminRefresh ::
  "auth_env \<Rightarrow> ServerConfig \<Rightarrow> 'db admin_store \<Rightarrow> time \<Rightarrow> bytes option \<Rightarrow> http_request \<Rightarrow> string option \<Rightarrow> ('db, tokenResponse) action"
where
  "handleAdminRefresh E cfg S now rnd r body =
     (if r_Method r \<noteq> ''POST'' then fail methodNotAllowed
      else case body of
        None \<Rightarrow> fail (badRequest ''bad_json'' ''bad json'')
      | Some token \<Rightarrow>
          if TrimSpace token = '''' then fail (badRequest ''bad_json'' ''bad json'')
          else
            let hash = hashRefreshToken E token in
            onResult (call (ad_GetAdminRefreshToken S hash)) (\<lambda>res. case res of
               Inl _ \<Rightarrow> fail denied
             | Inr stored \<Rightarrow>
                 if art_RevokedAt stored \<noteq> '''' then fail denied
                 else
                   let expired = (case ev_parse E (art_ExpiresAt stored) of None \<Rightarrow> True | Some exp \<Rightarrow> exp < now) in
                   if expired then andThen (ignore (ad_RevokeAdminRefreshToken S hash)) (\<lambda>_. fail denied)
                   else
                     andThen (ignore (ad_TouchAdminRefreshToken S (art_ID stored))) (\<lambda>_.
                     andThen (ignore (ad_RevokeAdminRefreshToken S hash)) (\<lambda>_.
                     onResult (call (ad_GetAdminUserByID S (art_UserID stored))) (\<lambda>res. case res of
                        Inl _ \<Rightarrow> fail denied
                      | Inr user \<Rightarrow> issueAdminTokenPair E cfg S now rnd r user)))))"

definition handleAdminLogout ::
  "auth_env \<Rightarrow> 'db admin_store \<Rightarrow> http_request \<Rightarrow> string \<Rightarrow> ('db, unit) action"
where
  "handleAdminLogout E S r token =
     (if r_Method r \<noteq> ''POST'' then fail methodNotAllowed
      else if TrimSpace token \<noteq> '''' then ignore (ad_RevokeAdminRefreshToken S (hashRefreshToken E token))
      else ret ())"

definition requireAdmin :: "auth_env \<Rightarrow> ServerConfig \<Rightarrow> 'db admin_store \<Rightarrow> int \<Rightarrow> http_request \<Rightarrow> ('db, adminClaims) action" where
  "requireAdmin E cfg S unix r =
     (let token = bearerToken r in
      if token = '''' then fail denied
      else case verifyAccessToken E cfg unix token of
        Inl _ \<Rightarrow> fail denied
      | Inr claims \<Rightarrow>
          if cl_Subject claims = '''' then fail denied
          else onResult (call (ad_GetAdminUserByID S (cl_Subject claims))) (\<lambda>res. case res of
                  Inl _ \<Rightarrow> fail denied
                | Inr user \<Rightarrow> if au_PasswordVersion user \<noteq> cl_PasswordVersion claims then fail denied else ret claims))"

definition handleAdminMe :: "'db admin_store \<Rightarrow> adminClaims \<Rightarrow> ('db, (string \<times> json_value) list) action" where
  "handleAdminMe S claims =
     andThen (call (ad_GetAdminUserByID S (cl_Subject claims))) (\<lambda>user.
       if au_PasswordVersion user \<noteq> cl_PasswordVersion claims then fail denied else ret (adminUser user))"

definition handleChangePassword ::
  "auth_env \<Rightarrow> 'db admin_store \<Rightarrow> http_request \<Rightarrow> adminClaims \<Rightarrow> (string \<times> string) option \<Rightarrow> ('db, unit) action"
where
  "handleChangePassword E S r claims body =
     (if r_Method r \<noteq> ''POST'' then fail methodNotAllowed
      else case body of
        None \<Rightarrow> fail (badRequest ''bad_json'' ''bad json'')
      | Some (currentPassword, newPassword) \<Rightarrow>
          if length newPassword < 8 then fail (badRequest ''password_too_short'' ''new password must be at least 8 chars'')
          else
            andThen (call (ad_GetAdminUserByID S (cl_Subject claims))) (\<lambda>user.
              if cl_PasswordVersion claims \<noteq> 0 \<and> au_PasswordVersion user \<noteq> cl_PasswordVersion claims then fail denied
              else if \<not> ev_compare E (au_PasswordHash user) currentPassword
              then fail (unauthorized ''wrong_current_password'' ''current password is wrong'')
              else case ev_generate E newPassword of
                None \<Rightarrow> fail (OtherError ''bcrypt'')
              | Some hash \<Rightarrow>
                  andThen (call (ad_UpdateAdminPassword S (au_ID user) hash)) (\<lambda>_.
                  andThen (call (ad_ClearAdminPasswordChangeRequired S (au_ID user))) (\<lambda>_.
                  call (ad_RevokeAdminRefreshTokensByUser S (au_ID user))))))"

definition requireAgent :: "ServerConfig \<Rightarrow> http_request \<Rightarrow> server_error option" where
  "requireAgent cfg r = (if cfg_PSK cfg \<noteq> '''' \<and> hr_PSK r \<noteq> cfg_PSK cfg then Some denied else None)"

definition first_admin :: "string \<Rightarrow> AdminUser" where
  "first_admin hash = \<lparr>au_ID = defaultAdminUsername, au_Username = defaultAdminUsername, au_Name = ''Administrator'', au_Role = ''admin'',
     au_ForcePasswordChange = True, au_PasswordVersion = 1, au_PasswordHash = hash,
     au_CreatedAt = '''', au_UpdatedAt = ''''\<rparr>"

definition ensureAdminUser :: "auth_env \<Rightarrow> 'db admin_store \<Rightarrow> ('db, unit) action" where
  "ensureAdminUser E S =
     onResult (call (ad_GetAdminUserByUsername S defaultAdminUsername)) (\<lambda>res. case res of
        Inr _ \<Rightarrow> ret ()
      | Inl ErrNoRows \<Rightarrow>
          onResult (call (ad_GetMeta S ''admin_password_hash'')) (\<lambda>res.
            let legacy = (case res of Inl _ \<Rightarrow> '''' | Inr v \<Rightarrow> v) in
            if legacy \<noteq> '''' then call (ad_UpsertAdminUser S (first_admin legacy))
            else (case ev_generate E defaultAdminPassword of
                    None \<Rightarrow> fail (OtherError ''bcrypt'')
                  | Some hash \<Rightarrow> call (ad_UpsertAdminUser S (first_admin hash))))
      | Inl err \<Rightarrow> fail err)"

section \<open>Tokens\<close>

lemma b64_char_in: "n < 64 \<Longrightarrow> b64_char n \<in> set b64_alphabet"
  using nth_mem [of n b64_alphabet] by (simp add: b64_char_def length_alphabet)

text \<open>An encoding is a run of letters of the alphabet, padded to a multiple of four.\<close>

lemma encoded_shape:
  "\<exists>core. EncodeToString bs = core @ replicate ((4 - length core mod 4) mod 4) CHR ''='' \<and> set core \<subseteq> set b64_alphabet \<and> length core mod 4 \<noteq> 1"
proof (induction bs rule: EncodeToString.induct)
  case (1 a b c rest)
  let ?n = "unat a * 65536 + unat b * 256 + unat c"
  obtain core where core: "EncodeToString rest = core @ replicate ((4 - length core mod 4) mod 4) CHR ''=''" "set core \<subseteq> set b64_alphabet"
    "length core mod 4 \<noteq> 1" using 1 by blast
  have "?n div 262144 < 64" by (rule bytes24(4) [OF unat_byte unat_byte unat_byte])
  then have "set [b64_char (?n div 262144), b64_char (?n div 4096 mod 64), b64_char (?n div 64 mod 64), b64_char (?n mod 64)] \<subseteq> set b64_alphabet"
    by (simp add: b64_char_in)
  with core show ?case
    by (intro exI [of _ "[b64_char (?n div 262144), b64_char (?n div 4096 mod 64), b64_char (?n div 64 mod 64), b64_char (?n mod 64)] @ core"])
      (simp add: Let_def)
next
  case (2 a b)
  let ?n = "unat a * 65536 + unat b * 256"
  have "?n div 262144 < 64" using bytes24(4) [OF unat_byte unat_byte, of 0 a b] by simp
  then show ?case
    by (intro exI [of _ "[b64_char (?n div 262144), b64_char (?n div 4096 mod 64), b64_char (?n div 64 mod 64)]"]) (simp add: Let_def b64_char_in)
next
  case (3 a)
  let ?n = "unat a * 65536"
  have "?n div 262144 < 64" using unat_byte [of a] by simp
  then show ?case
    by (intro exI [of _ "[b64_char (?n div 262144), b64_char (?n div 4096 mod 64)]"]) (simp add: Let_def b64_char_in numeral_2_eq_2)
qed simp

lemma alphabet_forms:
  "list_all (\<lambda>c. std_char (url_char c) = c) b64_alphabet" "list_all (\<lambda>c. url_char c \<notin> {CHR ''+'', CHR ''/'', CHR ''='', CHR ''.''}) b64_alphabet"
  "list_all (\<lambda>c. plain_char (url_char c)) b64_alphabet"
  "list_all (\<lambda>c. of_char (url_char c) \<noteq> (13 :: nat)) b64_alphabet" "list_all (\<lambda>c. of_char (url_char c) \<noteq> (10 :: nat)) b64_alphabet"
  by (simp_all add: b64_alphabet_def url_char_def std_char_def plain_char_def)

lemma alphabet_url:
  "c \<in> set b64_alphabet \<Longrightarrow> std_char (url_char c) = c \<and> url_char c \<notin> {CHR ''+'', CHR ''/'', CHR ''='', CHR ''.''} \<and> plain_char (url_char c)
     \<and> of_char (url_char c) \<noteq> (13 :: nat) \<and> of_char (url_char c) \<noteq> (10 :: nat)"
  using alphabet_forms by (simp add: list_all_iff)

lemma RawURL_core:
  obtains core where "RawURL_Encode bs = map url_char core" "set core \<subseteq> set b64_alphabet" "length core mod 4 \<noteq> 1"
    "EncodeToString bs = core @ replicate ((4 - length core mod 4) mod 4) CHR ''=''"
proof -
  obtain core where c: "EncodeToString bs = core @ replicate ((4 - length core mod 4) mod 4) CHR ''=''" "set core \<subseteq> set b64_alphabet"
    "length core mod 4 \<noteq> 1" using encoded_shape by blast
  have "filter (\<lambda>c. c \<noteq> CHR ''='') core = core" using c(2) alphabet_chars by (intro filter_True) blast
  then have "RawURL_Encode bs = map url_char core" by (simp add: RawURL_Encode_def c(1))
  with c that show thesis by blast
qed

lemma RawURL_chars: "c \<in> set (RawURL_Encode bs) \<Longrightarrow> c \<noteq> CHR ''.'' \<and> plain_char c"
  by (rule RawURL_core [of bs]) (use alphabet_url in auto)

lemma RawURL_Decode_Encode [simp]: "RawURL_Decode (RawURL_Encode bs) = Some bs"
proof -
  obtain core where c: "RawURL_Encode bs = map url_char core" "set core \<subseteq> set b64_alphabet" "length core mod 4 \<noteq> 1"
    "EncodeToString bs = core @ replicate ((4 - length core mod 4) mod 4) CHR ''=''" by (rule RawURL_core)
  have f: "filter (\<lambda>c. of_char c \<noteq> (13 :: nat) \<and> of_char c \<noteq> (10 :: nat)) (map url_char core) = map url_char core"
    using c(2) alphabet_url by (intro filter_True) auto
  have "\<not> list_ex (\<lambda>c. c \<in> {CHR ''+'', CHR ''/'', CHR ''=''}) (map url_char core)"
    using c(2) alphabet_url by (auto simp: list_ex_iff)
  moreover have "map std_char (map url_char core) = core" using c(2) alphabet_url by (auto intro: map_idI simp: o_def)
  ultimately show ?thesis using c(3) decode_encode [of bs] by (simp add: RawURL_Decode_def f c(1) flip: c(4))
qed

lemma jwtPart_no_dot: "CHR ''.'' \<notin> set (jwtPart b)"
  using RawURL_chars by (auto simp: jwtPart_def)

lemma token_parts:
  "Split (signAccessToken E cfg claims) CHR ''.'' = [jwtPart jwt_header, jwtPart (ev_marshal E claims),
     jwtPart (hmacSHA256 E (bytes_of (jwtPart jwt_header @ ''.'' @ jwtPart (ev_marshal E claims))) (adminJWTSecret E cfg))]"
  by (simp add: signAccessToken_def Let_def Split_append Split_no_sep jwtPart_no_dot)

lemma verify_signed:
  assumes "ev_unmarshal E (ev_marshal E claims) = Some claims"
  shows "verifyAccessToken E cfg unix (signAccessToken E cfg claims) = (if cl_Expires claims \<le> unix then Inl Expired else Inr claims)"
  using assms by (simp add: verifyAccessToken_def token_parts jwtPart_def)

lemma signed_plain: "c \<in> set (signAccessToken E cfg claims) \<Longrightarrow> plain_char c"
  using RawURL_chars by (auto simp: signAccessToken_def Let_def jwtPart_def plain_char_def)

lemma bearer_token:
  assumes "hr_Authorization r = ''Bearer '' @ t" "\<forall>c \<in> set t. plain_char c" "t \<noteq> ''''"
  shows "bearerToken r = t"
proof -
  have "TrimSpace (''Bearer '' @ t) = ''Bearer '' @ t"
    using assms(2,3) by (intro TrimSpace_plain) (simp_all add: plain_char_def)
  moreover have "TrimSpace t = t" using assms(2,3) by (intro TrimSpace_plain) simp_all
  ultimately show ?thesis by (simp add: bearerToken_def assms(1) Let_def EqualFold_def)
qed

text \<open>A request passes \<open>requireAdmin\<close> exactly when it carries a token whose signature is the code of the server for the rest of
  it, whose claims are not expired and name an administrator, and whose password version is the one in the table.\<close>

definition token_ok :: "auth_env \<Rightarrow> ServerConfig \<Rightarrow> int \<Rightarrow> string \<Rightarrow> adminClaims \<Rightarrow> bool" where
  "token_ok E cfg unix token claims \<longleftrightarrow>
     (\<exists>h p payload. token = h @ ''.'' @ p @ ''.'' @ jwtPart (hmacSHA256 E (bytes_of (h @ ''.'' @ p)) (adminJWTSecret E cfg))
        \<and> CHR ''.'' \<notin> set h \<and> CHR ''.'' \<notin> set p \<and> RawURL_Decode p = Some payload \<and> ev_unmarshal E payload = Some claims \<and> unix < cl_Expires claims)"

lemma Split_three: "Split s c = [a, b, e] \<Longrightarrow> s = a @ c # b @ c # e \<and> c \<notin> set a \<and> c \<notin> set b \<and> c \<notin> set e"
proof (induction s arbitrary: a b e)
  case (Cons x s)
  show ?case
  proof (cases "x = c")
    case True
    then obtain "a = []" "Split s c = [b, e]" using Cons.prems by simp
    moreover have "s = b @ c # e \<and> c \<notin> set b \<and> c \<notin> set e" if "Split s c = [b, e]" for s b e
      using that
    proof (induction s arbitrary: b e)
      case (Cons y s)
      have one: "Split s c = [e] \<Longrightarrow> s = e \<and> c \<notin> set e" for s e by (induction s arbitrary: e) (auto split: if_splits list.splits)
      show ?case using Cons one by (auto split: if_splits list.splits)
    qed simp
    ultimately show ?thesis using True by simp
  next
    case False
    then obtain a' where "a = x # a'" "Split s c = [a', b, e]" using Cons.prems by (auto split: list.splits)
    with Cons.IH [OF this(2)] False show ?thesis by auto
  qed
qed simp

lemma verifyAccessToken_iff: "verifyAccessToken E cfg unix token = Inr claims \<longleftrightarrow> token_ok E cfg unix token claims"
proof
  assume v: "verifyAccessToken E cfg unix token = Inr claims"
  then obtain h p s where sp: "Split token CHR ''.'' = [h, p, s]" by (auto simp: verifyAccessToken_def split: list.splits)
  with v show "token_ok E cfg unix token claims"
    using Split_three [OF sp] unfolding token_ok_def
    by (intro exI [of _ h] exI [of _ p]) (auto simp: verifyAccessToken_def Let_def split: if_splits option.splits)
next
  assume "token_ok E cfg unix token claims"
  then show "verifyAccessToken E cfg unix token = Inr claims"
    by (auto simp: token_ok_def verifyAccessToken_def Let_def Split_append Split_no_sep jwtPart_no_dot)
qed

lemma requireAdmin_iff:
  "requireAdmin E cfg S unix r d = Some (d', Inr claims) \<longleftrightarrow>
     bearerToken r \<noteq> '''' \<and> token_ok E cfg unix (bearerToken r) claims \<and> cl_Subject claims \<noteq> ''''
     \<and> (\<exists>user. ad_GetAdminUserByID S (cl_Subject claims) d = (d', Inr user) \<and> au_PasswordVersion user = cl_PasswordVersion claims)"
  by (auto simp: requireAdmin_def Let_def fail_def ret_def onResult_def call_def verifyAccessToken_iff [symmetric] split: sum.splits prod.splits)

lemma requireAdmin_total: "\<exists>d' res. requireAdmin E cfg S unix r d = Some (d', res) \<and> (\<forall>e. res = Inl e \<longrightarrow> e = denied)"
  by (auto simp: requireAdmin_def Let_def fail_def ret_def onResult_def call_def split: sum.splits prod.splits)

text \<open>C20. A login lets its administrator in, until the token expires or the password changes: the access token that a login
  returns, presented as a bearer token, passes \<open>requireAdmin\<close> with the claims of the administrator exactly while it has not
  expired and the password version in the table is the one at the login; at every other time the request is refused.\<close>

theorem login_grants_access:
  assumes "\<And>claims. ev_unmarshal E (ev_marshal E claims) = Some claims"
    and "handleAdminLogin E cfg S now rnd r (Some (username, password)) d = Some (d1, Inr resp)"
    and "hr_Authorization r' = ''Bearer '' @ tr_AccessToken resp"
    and "ad_GetAdminUserByID S i d2 = (d3, Inr user)" "i \<noteq> ''''"
    and "snd (ad_GetAdminUserByUsername S (if TrimSpace username = '''' then defaultAdminUsername else TrimSpace username) d) = Inr admin" "au_ID admin = i"
  shows "ev_compare E (au_PasswordHash admin) password
    \<and> ((\<exists>claims. requireAdmin E cfg S unix r' d2 = Some (d3, Inr claims) \<and> cl_Subject claims = i \<and> cl_Role claims = au_Role admin)
       \<longleftrightarrow> unix < (now + (if cfg_AdminAccessTokenTTL cfg \<le> 0 then 60 * Minute else cfg_AdminAccessTokenTTL cfg)) div Second
           \<and> au_PasswordVersion user = au_PasswordVersion admin)"
proof -
  let ?exp = "(now + (if cfg_AdminAccessTokenTTL cfg \<le> 0 then 60 * Minute else cfg_AdminAccessTokenTTL cfg)) div Second"
  let ?claims = "\<lparr>cl_Subject = au_ID admin, cl_Role = au_Role admin, cl_PasswordVersion = au_PasswordVersion admin, cl_Issued = now div Second, cl_Expires = ?exp\<rparr>"
  have login: "ev_compare E (au_PasswordHash admin) password" "tr_AccessToken resp = signAccessToken E cfg ?claims"
    using assms(2,6) unfolding handleAdminLogin_def issueAdminTokenPair_def
    by (auto simp: Let_def fail_def ret_def onResult_def call_def andThen_Inr split: if_splits sum.splits prod.splits option.splits)
  have "signAccessToken E cfg ?claims \<noteq> ''''" by (simp add: signAccessToken_def Let_def)
  then have "bearerToken r' = signAccessToken E cfg ?claims" using assms(3) login(2) signed_plain by (intro bearer_token) auto
  moreover have "token_ok E cfg unix (signAccessToken E cfg ?claims) claims \<longleftrightarrow> unix < ?exp \<and> claims = ?claims" for claims
    unfolding verifyAccessToken_iff [symmetric] verify_signed [OF assms(1)] by auto
  ultimately show ?thesis using login(1) assms(4,5,7) \<open>signAccessToken E cfg ?claims \<noteq> ''''\<close> by (auto simp: requireAdmin_iff)
qed

end
