(* ===== verification/ControlRows.thy ===== *)
theory ControlRows
  imports AdminAuth
begin

text \<open>
  The rows of the control database, \<^verbatim>\<open>internal/controlstore/models.go\<close>, one record per table, and the \<^verbatim>\<open>toStore\<close> methods of
  \<^verbatim>\<open>internal/controlstore/store.go\<close> that turn them into the records of \<^verbatim>\<open>internal/store\<close>.  A nullable column is an option.
\<close>

subsection \<open>Records of the store\<close>

record Session =
  sess_ID :: int
  sess_SourceID :: string
  sess_TargetID :: string
  sess_Profile :: string
  sess_Path :: string
  sess_RelayBytes :: int
  sess_StartedAt :: string
  sess_LastSeen :: string
  sess_EndedAt :: string

record Metrics =
  mt_Devices :: int
  mt_OnlineDevices :: int
  mt_ForwardRules :: int
  mt_ActiveSessions :: int
  mt_RelayBytes :: int

record AuditEvent =
  aev_ID :: int
  aev_Kind :: string
  aev_Detail :: string
  aev_CreatedAt :: string

record AuditFilter =
  af_Kind :: string
  af_Keyword :: string
  af_From :: string
  af_To :: string
  af_Limit :: int

record TunnelState =
  ts_DeviceID :: string
  ts_PeerID :: string
  ts_Profile :: string
  ts_State :: string
  ts_Via :: string
  ts_NATType :: string
  ts_PublicAddr :: string
  ts_ConvID :: int
  ts_RTTMs :: int
  ts_LastError :: string
  ts_Attempt :: int
  ts_NextRetryAt :: string
  ts_LastTransitionAt :: string
  ts_UpdatedAt :: string

subsection \<open>Rows\<close>

record Meta_row =
  me_Key :: string
  me_Value :: string

record SystemSetting_row =
  ss_Key :: string
  ss_Value :: string
  ss_UpdatedAt :: string

record Device_row =
  dv_ID :: string
  dv_Name :: string
  dv_Addr :: string
  dv_UpnpAddr :: string
  dv_Want :: string
  dv_Online :: bool
  dv_Enabled :: bool
  dv_LastSeen :: string
  dv_CreatedAt :: string

record DeviceProductState_row =
  dp_DeviceID :: string
  dp_Product :: string
  dp_Online :: bool
  dp_LastSeenAt :: string
  dp_LastSource :: string
  dp_Version :: string
  dp_LastError :: string
  dp_Metadata :: string

record ForwardRule_row =
  fr_ID :: int
  fr_Name :: string
  fr_SourceID :: string
  fr_TargetID :: string
  fr_Profile :: string
  fr_LocalPort :: int
  fr_TargetHost :: string
  fr_TargetPort :: int
  fr_Enabled :: bool
  fr_CreatedAt :: string
  fr_UpdatedAt :: string

record Session_row =
  se_ID :: int
  se_SourceID :: string
  se_TargetID :: string
  se_Profile :: string
  se_Path :: string
  se_RelayBytes :: int
  se_StartedAt :: string
  se_LastSeen :: string
  se_EndedAt :: string

record AuditEvent_row =
  ae_ID :: int
  ae_Kind :: string
  ae_Detail :: string
  ae_CreatedAt :: string

record TunnelState_row =
  tu_DeviceID :: string
  tu_PeerID :: string
  tu_Profile :: string
  tu_State :: string
  tu_Via :: string
  tu_NATType :: string
  tu_PublicAddr :: string
  tu_ConvID :: int
  tu_RTTMs :: int
  tu_LastError :: string
  tu_Attempt :: int
  tu_NextRetryAt :: string
  tu_LastTransitionAt :: string
  tu_UpdatedAt :: string

record AdminRefreshToken_row =
  tk_ID :: int
  tk_UserID :: string
  tk_TokenHash :: string
  tk_ExpiresAt :: string
  tk_RevokedAt :: string
  tk_CreatedAt :: string
  tk_LastUsedAt :: string
  tk_UserAgent :: string
  tk_IP :: string

record AdminUser_row =
  us_ID :: string
  us_Username :: string
  us_Name :: string
  us_Role :: string
  us_ForcePasswordChange :: bool
  us_PasswordVersion :: int
  us_PasswordHash :: string
  us_CreatedAt :: string
  us_UpdatedAt :: string

record VirtualNetwork_row =
  nw_ID :: int
  nw_Name :: string
  nw_CIDR :: string
  nw_MTU :: int
  nw_MSS :: int
  nw_PathPolicy :: string
  nw_TCPFastPath :: string
  nw_Enabled :: bool
  nw_CreatedAt :: string
  nw_UpdatedAt :: string

record VirtualAddress_row =
  vad_DeviceID :: string
  vad_NetworkID :: int
  vad_VirtualIP :: string
  vad_Hostname :: "string option"
  vad_DNSEnabled :: bool
  vad_CreatedAt :: string
  vad_UpdatedAt :: string

record VirtualDeviceKey_row =
  dk_DeviceID :: string
  dk_Algorithm :: string
  dk_PublicKey :: string
  dk_CreatedAt :: string
  dk_UpdatedAt :: string

record VirtualDeviceGroup_row =
  dg_ID :: string
  dg_Name :: string
  dg_CreatedAt :: string
  dg_UpdatedAt :: string

record VirtualDeviceGroupMember_row =
  dm_GroupID :: string
  dm_DeviceID :: string
  dm_CreatedAt :: string

record VirtualACLRule_row =
  ar_ID :: int
  ar_NetworkID :: int
  ar_SourceDeviceID :: string
  ar_SourceGroupID :: string
  ar_TargetDeviceID :: string
  ar_TargetGroupID :: string
  ar_Protocol :: string
  ar_PortStart :: int
  ar_PortEnd :: int
  ar_Action :: string
  ar_Enabled :: bool
  ar_CreatedAt :: string
  ar_UpdatedAt :: string

record VirtualRoute_row =
  ro_ID :: int
  ro_DeviceID :: string
  ro_NetworkID :: int
  ro_CIDR :: string
  ro_Advertise :: bool
  ro_Accept :: bool
  ro_CreatedAt :: string
  ro_UpdatedAt :: string

record VirtualPeerState_row =
  pp_DeviceID :: string
  pp_PeerID :: string
  pp_NetworkID :: int
  pp_State :: string
  pp_Path :: string
  pp_DataPath :: string
  pp_PathReason :: string
  pp_NATType :: string
  pp_FallbackReason :: string
  pp_TrafficClass :: string
  pp_TCPFastPath :: string
  pp_AdapterState :: string
  pp_RouteConflict :: string
  pp_SelectedCIDR :: string
  pp_MTU :: int
  pp_MSS :: int
  pp_RTTMs :: int
  pp_EstimatedBps :: int
  pp_TxBytes :: int
  pp_RxBytes :: int
  pp_DropReason :: string
  pp_LastError :: string
  pp_ActiveSessions :: int
  pp_HotPaths :: int
  pp_RelayDisabled :: bool
  pp_SocketRotations :: uint64
  pp_LastRotationAt :: string
  pp_LastRotationReason :: string
  pp_LastHandshakeAt :: string
  pp_LastTransitionAt :: string
  pp_UpdatedAt :: string

record VirtualPeerPathEvent_row =
  pe_ID :: int
  pe_DeviceID :: string
  pe_PeerID :: string
  pe_NetworkID :: int
  pe_Path :: string
  pe_DataPath :: string
  pe_PathReason :: string
  pe_TrafficClass :: string
  pe_TxBytes :: int
  pe_RxBytes :: int
  pe_CreatedAt :: string

record VirtualLearnedPath_row =
  ln_DeviceID :: string
  ln_PeerID :: string
  ln_NetworkID :: int
  ln_DstPort :: int
  ln_Protocol :: string
  ln_Path :: string
  ln_PublicAddr :: string
  ln_SuccessCount :: int
  ln_FailureCount :: int
  ln_LastSuccessAt :: string
  ln_LastFailureAt :: string
  ln_LastFailure :: string
  ln_Quality :: string
  ln_PreheatEnabled :: bool
  ln_UpdatedAt :: string

subsection \<open>From rows to records\<close>

definition normalizeVirtualNetworkPathPolicy :: "string \<Rightarrow> string" where
  "normalizeVirtualNetworkPathPolicy policy =
     (if policy \<in> {''auto'', ''prefer_p2p'', ''prefer_relay'', ''relay_only''} then policy else ''prefer_p2p'')"

definition normalizeVirtualNetworkTCPFastPath :: "string \<Rightarrow> string" where
  "normalizeVirtualNetworkTCPFastPath v = (if v \<in> {''auto'', ''off'', ''force''} then v else ''auto'')"

definition Device_toStore :: "Device_row \<Rightarrow> Device" where
  "Device_toStore row =
     \<lparr>dev_ID = dv_ID row, dev_Name = dv_Name row, dev_Addr = dv_Addr row, dev_UpnpAddr = dv_UpnpAddr row, dev_Want = dv_Want row,
       dev_Online = dv_Online row, dev_Enabled = dv_Enabled row, dev_LastSeen = dv_LastSeen row, dev_CreatedAt = dv_CreatedAt row,
       dev_HealthSummary = '''', dev_LastError = '''', dev_ProductCapabilities = [], dev_AgentOnline = False,
       dev_LastAgentSeen = '''', dev_AgentLastSource = '''', dev_LANOnline = False, dev_LastLANSeen = '''', dev_LANLastSource = '''',
       dev_LANLastError = '''', dev_LANVirtualIP = '''', dev_LANNetworkID = 0, dev_LANAdapterState = '''',
       dev_LANSelectedCIDR = '''', dev_LANRouteConflict = '''', dev_LANPathSummary = '''', dev_LANActiveSessions = 0,
       dev_LANHotPaths = 0, dev_LANSocketRotations = 0, dev_LANRotationReason = ''''\<rparr>"

definition ForwardRule_toStore :: "ForwardRule_row \<Rightarrow> ForwardRule" where
  "ForwardRule_toStore row =
     \<lparr>rule_ID = fr_ID row, rule_Name = fr_Name row, rule_SourceID = fr_SourceID row, rule_TargetID = fr_TargetID row,
       rule_Profile = NormalizeProfile (fr_Profile row), rule_LocalPort = fr_LocalPort row, rule_TargetHost = fr_TargetHost row,
       rule_TargetPort = fr_TargetPort row, rule_Enabled = fr_Enabled row, rule_CreatedAt = fr_CreatedAt row,
       rule_UpdatedAt = fr_UpdatedAt row, rule_RuntimeState = '''', rule_LastError = '''', rule_LastUpdatedAt = '''',
       rule_Attempt = 0, rule_NextRetryAt = ''''\<rparr>"

definition Session_toStore :: "Session_row \<Rightarrow> Session" where
  "Session_toStore row =
     \<lparr>sess_ID = se_ID row, sess_SourceID = se_SourceID row, sess_TargetID = se_TargetID row,
       sess_Profile = NormalizeProfile (se_Profile row), sess_Path = se_Path row, sess_RelayBytes = se_RelayBytes row,
       sess_StartedAt = se_StartedAt row, sess_LastSeen = se_LastSeen row, sess_EndedAt = se_EndedAt row\<rparr>"

definition AuditEvent_toStore :: "AuditEvent_row \<Rightarrow> AuditEvent" where
  "AuditEvent_toStore row =
     \<lparr>aev_ID = ae_ID row, aev_Kind = ae_Kind row, aev_Detail = ae_Detail row, aev_CreatedAt = ae_CreatedAt row\<rparr>"

definition TunnelState_toStore :: "TunnelState_row \<Rightarrow> TunnelState" where
  "TunnelState_toStore row =
     \<lparr>ts_DeviceID = tu_DeviceID row, ts_PeerID = tu_PeerID row, ts_Profile = NormalizeProfile (tu_Profile row),
       ts_State = tu_State row, ts_Via = tu_Via row, ts_NATType = tu_NATType row, ts_PublicAddr = tu_PublicAddr row,
       ts_ConvID = tu_ConvID row, ts_RTTMs = tu_RTTMs row, ts_LastError = tu_LastError row, ts_Attempt = tu_Attempt row,
       ts_NextRetryAt = tu_NextRetryAt row, ts_LastTransitionAt = tu_LastTransitionAt row, ts_UpdatedAt = tu_UpdatedAt row\<rparr>"

definition AdminRefreshToken_toStore :: "AdminRefreshToken_row \<Rightarrow> AdminRefreshToken" where
  "AdminRefreshToken_toStore row =
     \<lparr>art_ID = tk_ID row, art_UserID = tk_UserID row, art_TokenHash = tk_TokenHash row, art_ExpiresAt = tk_ExpiresAt row,
       art_RevokedAt = tk_RevokedAt row, art_CreatedAt = tk_CreatedAt row, art_LastUsedAt = tk_LastUsedAt row,
       art_UserAgent = tk_UserAgent row, art_IP = tk_IP row\<rparr>"

definition AdminUser_toStore :: "AdminUser_row \<Rightarrow> AdminUser" where
  "AdminUser_toStore row =
     \<lparr>au_ID = us_ID row, au_Username = us_Username row, au_Name = us_Name row, au_Role = us_Role row,
       au_ForcePasswordChange = us_ForcePasswordChange row, au_PasswordVersion = us_PasswordVersion row,
       au_PasswordHash = us_PasswordHash row, au_CreatedAt = us_CreatedAt row, au_UpdatedAt = us_UpdatedAt row\<rparr>"

definition VirtualNetwork_toStore :: "VirtualNetwork_row \<Rightarrow> VirtualNetwork" where
  "VirtualNetwork_toStore row =
     \<lparr>vn_ID = nw_ID row, vn_Name = nw_Name row, vn_CIDR = nw_CIDR row, vn_MTU = nw_MTU row, vn_MSS = nw_MSS row,
       vn_PathPolicy = normalizeVirtualNetworkPathPolicy (nw_PathPolicy row),
       vn_TCPFastPath = normalizeVirtualNetworkTCPFastPath (nw_TCPFastPath row), vn_Enabled = nw_Enabled row,
       vn_CreatedAt = nw_CreatedAt row, vn_UpdatedAt = nw_UpdatedAt row\<rparr>"

definition VirtualAddress_toStore :: "VirtualAddress_row \<Rightarrow> VirtualAddress" where
  "VirtualAddress_toStore row =
     \<lparr>va_DeviceID = vad_DeviceID row, va_NetworkID = vad_NetworkID row, va_VirtualIP = vad_VirtualIP row,
       va_Hostname = (case vad_Hostname row of None \<Rightarrow> '''' | Some hostname \<Rightarrow> hostname),
       va_DNSEnabled = vad_DNSEnabled row, va_CreatedAt = vad_CreatedAt row, va_UpdatedAt = vad_UpdatedAt row\<rparr>"

definition VirtualDeviceKey_toStore :: "VirtualDeviceKey_row \<Rightarrow> VirtualDeviceKey" where
  "VirtualDeviceKey_toStore row =
     \<lparr>vk_DeviceID = dk_DeviceID row, vk_Algorithm = dk_Algorithm row, vk_PublicKey = dk_PublicKey row,
       vk_CreatedAt = dk_CreatedAt row, vk_UpdatedAt = dk_UpdatedAt row\<rparr>"

definition VirtualDeviceGroup_toStore :: "VirtualDeviceGroup_row \<Rightarrow> VirtualDeviceGroup" where
  "VirtualDeviceGroup_toStore row =
     \<lparr>vg_ID = dg_ID row, vg_Name = dg_Name row, vg_CreatedAt = dg_CreatedAt row, vg_UpdatedAt = dg_UpdatedAt row\<rparr>"

definition VirtualDeviceGroupMember_toStore :: "VirtualDeviceGroupMember_row \<Rightarrow> VirtualDeviceGroupMember" where
  "VirtualDeviceGroupMember_toStore row =
     \<lparr>gm_GroupID = dm_GroupID row, gm_DeviceID = dm_DeviceID row, gm_CreatedAt = dm_CreatedAt row\<rparr>"

definition VirtualACLRule_toStore :: "VirtualACLRule_row \<Rightarrow> VirtualACLRule" where
  "VirtualACLRule_toStore row =
     \<lparr>acl_ID = ar_ID row, acl_NetworkID = ar_NetworkID row, acl_SourceDeviceID = ar_SourceDeviceID row,
       acl_SourceGroupID = ar_SourceGroupID row, acl_TargetDeviceID = ar_TargetDeviceID row,
       acl_TargetGroupID = ar_TargetGroupID row, acl_Protocol = ar_Protocol row, acl_PortStart = ar_PortStart row,
       acl_PortEnd = ar_PortEnd row, acl_Action = ar_Action row, acl_Enabled = ar_Enabled row, acl_CreatedAt = ar_CreatedAt row,
       acl_UpdatedAt = ar_UpdatedAt row\<rparr>"

definition VirtualRoute_toStore :: "VirtualRoute_row \<Rightarrow> VirtualRoute" where
  "VirtualRoute_toStore row =
     \<lparr>vr_ID = ro_ID row, vr_DeviceID = ro_DeviceID row, vr_NetworkID = ro_NetworkID row, vr_CIDR = ro_CIDR row,
       vr_Advertise = ro_Advertise row, vr_Accept = ro_Accept row, vr_CreatedAt = ro_CreatedAt row, vr_UpdatedAt = ro_UpdatedAt row\<rparr>"

definition VirtualPeerState_toStore :: "VirtualPeerState_row \<Rightarrow> VirtualPeerState" where
  "VirtualPeerState_toStore row =
     \<lparr>ps_DeviceID = pp_DeviceID row, ps_PeerID = pp_PeerID row, ps_NetworkID = pp_NetworkID row, ps_State = pp_State row,
       ps_Path = pp_Path row, ps_DataPath = pp_DataPath row, ps_PathReason = pp_PathReason row, ps_NATType = pp_NATType row,
       ps_FallbackReason = pp_FallbackReason row, ps_TrafficClass = pp_TrafficClass row, ps_TCPFastPath = pp_TCPFastPath row,
       ps_AdapterState = pp_AdapterState row, ps_RouteConflict = pp_RouteConflict row, ps_SelectedCIDR = pp_SelectedCIDR row,
       ps_MTU = pp_MTU row, ps_MSS = pp_MSS row, ps_RTTMs = pp_RTTMs row, ps_EstimatedBps = pp_EstimatedBps row,
       ps_TxBytes = pp_TxBytes row, ps_RxBytes = pp_RxBytes row, ps_DropReason = pp_DropReason row, ps_LastError = pp_LastError row,
       ps_ActiveSessions = pp_ActiveSessions row, ps_HotPaths = pp_HotPaths row, ps_RelayDisabled = pp_RelayDisabled row,
       ps_SocketRotations = pp_SocketRotations row, ps_LastRotationAt = pp_LastRotationAt row,
       ps_LastRotationReason = pp_LastRotationReason row, ps_LastHandshakeAt = pp_LastHandshakeAt row,
       ps_LastTransitionAt = pp_LastTransitionAt row, ps_UpdatedAt = pp_UpdatedAt row\<rparr>"

definition VirtualPeerPathEvent_toStore :: "VirtualPeerPathEvent_row \<Rightarrow> VirtualPeerPathEvent" where
  "VirtualPeerPathEvent_toStore row =
     \<lparr>ppe_ID = pe_ID row, ppe_DeviceID = pe_DeviceID row, ppe_PeerID = pe_PeerID row, ppe_NetworkID = pe_NetworkID row,
       ppe_Path = pe_Path row, ppe_DataPath = pe_DataPath row, ppe_PathReason = pe_PathReason row,
       ppe_TrafficClass = pe_TrafficClass row, ppe_TxBytes = pe_TxBytes row, ppe_RxBytes = pe_RxBytes row,
       ppe_CreatedAt = pe_CreatedAt row\<rparr>"

definition VirtualLearnedPath_toStore :: "VirtualLearnedPath_row \<Rightarrow> VirtualLearnedPath" where
  "VirtualLearnedPath_toStore row =
     \<lparr>lp_DeviceID = ln_DeviceID row, lp_PeerID = ln_PeerID row, lp_NetworkID = ln_NetworkID row, lp_DstPort = ln_DstPort row,
       lp_Protocol = ln_Protocol row, lp_Path = ln_Path row, lp_PublicAddr = ln_PublicAddr row,
       lp_SuccessCount = ln_SuccessCount row, lp_FailureCount = ln_FailureCount row, lp_LastSuccessAt = ln_LastSuccessAt row,
       lp_LastFailureAt = ln_LastFailureAt row, lp_LastFailure = ln_LastFailure row, lp_Quality = ln_Quality row,
       lp_PreheatEnabled = ln_PreheatEnabled row, lp_UpdatedAt = ln_UpdatedAt row\<rparr>"

text \<open>\<open>unmarshal\<close> stands for \<^verbatim>\<open>json.Unmarshal\<close> into a map, whose error is ignored.\<close>

definition DeviceProductState_toStore ::
  "(string \<Rightarrow> (string \<times> json_value) list) \<Rightarrow> DeviceProductState_row \<Rightarrow> DeviceProductState"
where
  "DeviceProductState_toStore unmarshal row =
     \<lparr>dps_DeviceID = dp_DeviceID row, dps_Product = dp_Product row, dps_Online = dp_Online row, dps_LastSeenAt = dp_LastSeenAt row,
       dps_LastSource = dp_LastSource row, dps_Version = dp_Version row, dps_LastError = dp_LastError row,
       dps_Metadata = (if TrimSpace (dp_Metadata row) \<noteq> '''' then unmarshal (dp_Metadata row) else [])\<rparr>"

end
