(* ===== verification/ControlStore.thy ===== *)
theory ControlStore
  imports ControlRows LanHandlers "HOL-Library.List_Lexorder" "HOL-Library.Product_Lexorder"
begin

text \<open>
  The control database: the operations of \<^verbatim>\<open>internal/controlstore/store.go\<close> over the tables of \<^verbatim>\<open>ControlRows\<close>.

  The operations are SQL statements written through GORM.  A statement is modelled by what it does to the list of the rows of a table:

  \<^item> \<open>sql_find\<close> and \<open>sql_first\<close> select the rows that satisfy a condition; \<open>sql_update\<close> and \<open>sql_delete\<close> change or remove them and say how
    many rows were affected; \<open>sql_insert\<close> adds a row and fails when it repeats a unique key of the table, and \<open>sql_upsert\<close>
    (\<^verbatim>\<open>OnConflict\<close>, that is \<^verbatim>\<open>ON DUPLICATE KEY UPDATE\<close>) changes the row with that key instead.
  \<^item> \<open>table\<close> describes a table: its rows in the state, and when two rows repeat a unique key.
  \<^item> \<open>control_env\<close> has what depends on the installation or on the libraries: the weights by which the collation compares and orders
    strings, \<^verbatim>\<open>LIKE\<close>, the text of the time of a statement (\<^verbatim>\<open>nowString\<close>, in seconds), whether the connection counts as affected the rows
    that matched or those that changed (\<^verbatim>\<open>clientFoundRows\<close>), whether \<^verbatim>\<open>Create\<close> replaces a zero field by the \<^verbatim>\<open>default\<close> of its
    tag, and JSON.
  \<^item> \<open>cd_faults\<close> says which of the next statements fail, for a connection that is lost and comes back.

  The length limits of the columns are not modelled.  Where \<^verbatim>\<open>ORDER BY\<close> leaves ties, the rows come in the order of the table.
\<close>

subsection \<open>Statements\<close>

record control_env =
  co_weight :: "string \<Rightarrow> nat list"
  co_like :: "string \<Rightarrow> string \<Rightarrow> bool"
  co_now :: string
  co_format :: "time \<Rightarrow> string"
  co_found_rows :: bool
  co_defaults :: bool
  co_marshal :: "(string \<times> json_value) list \<Rightarrow> string option"
  co_unmarshal :: "string \<Rightarrow> (string \<times> json_value) list"

datatype auto_table = RulesTable | SessionsTable | AuditTable | TokensTable | NetworksTable | ACLTable | RoutesTable | EventsTable

record control_db =
  cd_meta :: "Meta_row list"
  cd_settings :: "SystemSetting_row list"
  cd_devices :: "Device_row list"
  cd_products :: "DeviceProductState_row list"
  cd_rules :: "ForwardRule_row list"
  cd_sessions :: "Session_row list"
  cd_audit :: "AuditEvent_row list"
  cd_tunnels :: "TunnelState_row list"
  cd_tokens :: "AdminRefreshToken_row list"
  cd_users :: "AdminUser_row list"
  cd_networks :: "VirtualNetwork_row list"
  cd_addresses :: "VirtualAddress_row list"
  cd_keys :: "VirtualDeviceKey_row list"
  cd_groups :: "VirtualDeviceGroup_row list"
  cd_members :: "VirtualDeviceGroupMember_row list"
  cd_acl :: "VirtualACLRule_row list"
  cd_routes :: "VirtualRoute_row list"
  cd_peers :: "VirtualPeerState_row list"
  cd_events :: "VirtualPeerPathEvent_row list"
  cd_learned :: "VirtualLearnedPath_row list"
  cd_next :: "auto_table \<Rightarrow> int"
  cd_faults :: "bool list"

definition same :: "control_env \<Rightarrow> string \<Rightarrow> string \<Rightarrow> bool" where
  "same C a b \<longleftrightarrow> co_weight C a = co_weight C b"

definition before :: "control_env \<Rightarrow> string \<Rightarrow> string \<Rightarrow> bool" where
  "before C a b \<longleftrightarrow> co_weight C a < co_weight C b"

record 'r table =
  tb_get :: "control_db \<Rightarrow> 'r list"
  tb_update :: "('r list \<Rightarrow> 'r list) \<Rightarrow> control_db \<Rightarrow> control_db"
  tb_clash :: "control_env \<Rightarrow> 'r \<Rightarrow> 'r \<Rightarrow> bool"

definition db_error :: server_error where "db_error = OtherError ''mysql''"

definition statement :: "(control_db, 'a) store_op \<Rightarrow> (control_db, 'a) store_op" where
  "statement m d =
     (case cd_faults d of
        [] \<Rightarrow> m d
      | fault # faults \<Rightarrow> let d = d\<lparr>cd_faults := faults\<rparr> in if fault then (d, Inl db_error) else m d)"

definition give :: "'a \<Rightarrow> (control_db, 'a) store_op" where "give x d = (d, Inr x)"

definition raise :: "server_error \<Rightarrow> (control_db, 'a) store_op" where "raise e d = (d, Inl e)"

definition followed :: "(control_db, 'a) store_op \<Rightarrow> ('a \<Rightarrow> (control_db, 'b) store_op) \<Rightarrow> (control_db, 'b) store_op" where
  "followed m k d = (case m d of (d', Inl e) \<Rightarrow> (d', Inl e) | (d', Inr x) \<Rightarrow> k x d')"

text \<open>A transaction that fails leaves the tables as they were.\<close>

definition transaction :: "(control_db, 'a) store_op \<Rightarrow> (control_db, 'a) store_op" where
  "transaction m d = (case m d of (d', Inl e) \<Rightarrow> (d\<lparr>cd_faults := cd_faults d'\<rparr>, Inl e) | (d', Inr x) \<Rightarrow> (d', Inr x))"

definition keys_ok :: "('r \<Rightarrow> 'r \<Rightarrow> bool) \<Rightarrow> 'r list \<Rightarrow> bool" where
  "keys_ok clash rows \<longleftrightarrow> sorted_wrt (\<lambda>a b. \<not> clash a b) rows"

definition set_rows :: "control_env \<Rightarrow> 'r table \<Rightarrow> 'r list \<Rightarrow> 'a \<Rightarrow> (control_db, 'a) store_op" where
  "set_rows C T rows x d = (if keys_ok (tb_clash T C) rows then (tb_update T (\<lambda>_. rows) d, Inr x) else (d, Inl db_error))"

definition sql_find :: "'r table \<Rightarrow> ('r \<Rightarrow> bool) \<Rightarrow> (control_db, 'r list) store_op" where
  "sql_find T P = statement (\<lambda>d. (d, Inr (filter P (tb_get T d))))"

definition sql_first :: "'r table \<Rightarrow> ('r \<Rightarrow> 'k :: linorder) \<Rightarrow> ('r \<Rightarrow> bool) \<Rightarrow> (control_db, 'r) store_op" where
  "sql_first T key P = followed (sql_find T P) (\<lambda>rows. case sort_key key rows of [] \<Rightarrow> raise ErrNoRows | row # _ \<Rightarrow> give row)"

definition sql_update :: "control_env \<Rightarrow> 'r table \<Rightarrow> ('r \<Rightarrow> bool) \<Rightarrow> ('r \<Rightarrow> 'r) \<Rightarrow> (control_db, nat) store_op" where
  "sql_update C T P f = statement (\<lambda>d.
     set_rows C T (map (\<lambda>row. if P row then f row else row) (tb_get T d))
       (length (filter (\<lambda>row. P row \<and> (co_found_rows C \<or> f row \<noteq> row)) (tb_get T d))) d)"

definition sql_delete :: "'r table \<Rightarrow> ('r \<Rightarrow> bool) \<Rightarrow> (control_db, nat) store_op" where
  "sql_delete T P = statement (\<lambda>d. (tb_update T (filter (\<lambda>row. \<not> P row)) d, Inr (length (filter P (tb_get T d)))))"

definition sql_insert :: "control_env \<Rightarrow> 'r table \<Rightarrow> 'r \<Rightarrow> (control_db, unit) store_op" where
  "sql_insert C T row = statement (\<lambda>d. set_rows C T (tb_get T d @ [row]) () d)"

definition sql_upsert :: "control_env \<Rightarrow> 'r table \<Rightarrow> 'r \<Rightarrow> ('r \<Rightarrow> 'r) \<Rightarrow> (control_db, unit) store_op" where
  "sql_upsert C T row assign = statement (\<lambda>d.
     case find (\<lambda>old. tb_clash T C old row) (tb_get T d) of
       None \<Rightarrow> set_rows C T (tb_get T d @ [row]) () d
     | Some old \<Rightarrow> set_rows C T (map (\<lambda>r. if r = old then assign r else r) (tb_get T d)) () d)"

text \<open>An insertion into a table with an automatic primary key; the number is used up also when the statement fails.\<close>

definition sql_insert_auto :: "control_env \<Rightarrow> 'r table \<Rightarrow> auto_table \<Rightarrow> (int \<Rightarrow> 'r) \<Rightarrow> (control_db, 'r) store_op" where
  "sql_insert_auto C T auto row = statement (\<lambda>d.
     let i = cd_next d auto; d = d\<lparr>cd_next := (cd_next d)(auto := i + 1)\<rparr>
     in set_rows C T (tb_get T d @ [row i]) (row i) d)"

definition exec :: "(control_db, 'a) store_op \<Rightarrow> (control_db, unit) store_op" where
  "exec m = followed m (\<lambda>_. give ())"

definition affecting :: "(control_db, nat) store_op \<Rightarrow> (control_db, unit) store_op" where
  "affecting m = followed m (\<lambda>n. if n = 0 then raise ErrNoRows else give ())"

definition listed :: "('r list \<Rightarrow> 'a list) \<Rightarrow> (control_db, 'r list) store_op \<Rightarrow> (control_db, 'a list) store_op" where
  "listed f m = followed m (\<lambda>rows. give (f rows))"

definition got :: "('r \<Rightarrow> 'a) \<Rightarrow> (control_db, 'r) store_op \<Rightarrow> (control_db, 'a) store_op" where
  "got toStore m = followed m (\<lambda>row. give (toStore row))"

text \<open>\<^verbatim>\<open>default\<close> tags of GORM: \<^verbatim>\<open>Create\<close> writes the default in place of the zero value of the field.\<close>

definition or_default :: "control_env \<Rightarrow> 'a \<Rightarrow> 'a \<Rightarrow> 'a \<Rightarrow> 'a" where
  "or_default C zero dflt v = (if co_defaults C \<and> v = zero then dflt else v)"

subsection \<open>The tables\<close>

definition meta_table :: "Meta_row table" where
  "meta_table = \<lparr>tb_get = cd_meta, tb_update = cd_meta_update, tb_clash = (\<lambda>C a b. same C (me_Key a) (me_Key b))\<rparr>"

definition system_settings :: "SystemSetting_row table" where
  "system_settings = \<lparr>tb_get = cd_settings, tb_update = cd_settings_update, tb_clash = (\<lambda>C a b. same C (ss_Key a) (ss_Key b))\<rparr>"

definition devices_table :: "Device_row table" where
  "devices_table = \<lparr>tb_get = cd_devices, tb_update = cd_devices_update, tb_clash = (\<lambda>C a b. same C (dv_ID a) (dv_ID b))\<rparr>"

definition device_product_states :: "DeviceProductState_row table" where
  "device_product_states = \<lparr>tb_get = cd_products, tb_update = cd_products_update,
     tb_clash = (\<lambda>C a b. same C (dp_DeviceID a) (dp_DeviceID b) \<and> same C (dp_Product a) (dp_Product b))\<rparr>"

definition forward_rules :: "ForwardRule_row table" where
  "forward_rules = \<lparr>tb_get = cd_rules, tb_update = cd_rules_update, tb_clash = (\<lambda>C a b. fr_ID a = fr_ID b)\<rparr>"

definition sessions_table :: "Session_row table" where
  "sessions_table = \<lparr>tb_get = cd_sessions, tb_update = cd_sessions_update, tb_clash = (\<lambda>C a b. se_ID a = se_ID b)\<rparr>"

definition audit_events :: "AuditEvent_row table" where
  "audit_events = \<lparr>tb_get = cd_audit, tb_update = cd_audit_update, tb_clash = (\<lambda>C a b. ae_ID a = ae_ID b)\<rparr>"

definition tunnel_states :: "TunnelState_row table" where
  "tunnel_states = \<lparr>tb_get = cd_tunnels, tb_update = cd_tunnels_update,
     tb_clash = (\<lambda>C a b. same C (tu_DeviceID a) (tu_DeviceID b) \<and> same C (tu_PeerID a) (tu_PeerID b) \<and> same C (tu_Profile a) (tu_Profile b))\<rparr>"

definition admin_refresh_tokens :: "AdminRefreshToken_row table" where
  "admin_refresh_tokens = \<lparr>tb_get = cd_tokens, tb_update = cd_tokens_update,
     tb_clash = (\<lambda>C a b. tk_ID a = tk_ID b \<or> same C (tk_TokenHash a) (tk_TokenHash b))\<rparr>"

definition admin_users :: "AdminUser_row table" where
  "admin_users = \<lparr>tb_get = cd_users, tb_update = cd_users_update,
     tb_clash = (\<lambda>C a b. same C (us_ID a) (us_ID b) \<or> same C (us_Username a) (us_Username b))\<rparr>"

definition virtual_networks :: "VirtualNetwork_row table" where
  "virtual_networks = \<lparr>tb_get = cd_networks, tb_update = cd_networks_update,
     tb_clash = (\<lambda>C a b. nw_ID a = nw_ID b \<or> same C (nw_CIDR a) (nw_CIDR b))\<rparr>"

text \<open>A null hostname repeats no other.\<close>

definition virtual_addresses :: "VirtualAddress_row table" where
  "virtual_addresses = \<lparr>tb_get = cd_addresses, tb_update = cd_addresses_update,
     tb_clash = (\<lambda>C a b. vad_NetworkID a = vad_NetworkID b \<and>
       (same C (vad_DeviceID a) (vad_DeviceID b) \<or> same C (vad_VirtualIP a) (vad_VirtualIP b)
        \<or> (case (vad_Hostname a, vad_Hostname b) of (Some h, Some h') \<Rightarrow> same C h h' | _ \<Rightarrow> False)))\<rparr>"

definition virtual_device_keys :: "VirtualDeviceKey_row table" where
  "virtual_device_keys = \<lparr>tb_get = cd_keys, tb_update = cd_keys_update, tb_clash = (\<lambda>C a b. same C (dk_DeviceID a) (dk_DeviceID b))\<rparr>"

definition virtual_device_groups :: "VirtualDeviceGroup_row table" where
  "virtual_device_groups = \<lparr>tb_get = cd_groups, tb_update = cd_groups_update, tb_clash = (\<lambda>C a b. same C (dg_ID a) (dg_ID b))\<rparr>"

definition virtual_device_group_members :: "VirtualDeviceGroupMember_row table" where
  "virtual_device_group_members = \<lparr>tb_get = cd_members, tb_update = cd_members_update,
     tb_clash = (\<lambda>C a b. same C (dm_GroupID a) (dm_GroupID b) \<and> same C (dm_DeviceID a) (dm_DeviceID b))\<rparr>"

definition virtual_acl_rules :: "VirtualACLRule_row table" where
  "virtual_acl_rules = \<lparr>tb_get = cd_acl, tb_update = cd_acl_update, tb_clash = (\<lambda>C a b. ar_ID a = ar_ID b)\<rparr>"

definition virtual_routes :: "VirtualRoute_row table" where
  "virtual_routes = \<lparr>tb_get = cd_routes, tb_update = cd_routes_update,
     tb_clash = (\<lambda>C a b. ro_ID a = ro_ID b
       \<or> (same C (ro_DeviceID a) (ro_DeviceID b) \<and> ro_NetworkID a = ro_NetworkID b \<and> same C (ro_CIDR a) (ro_CIDR b)))\<rparr>"

definition virtual_peer_states :: "VirtualPeerState_row table" where
  "virtual_peer_states = \<lparr>tb_get = cd_peers, tb_update = cd_peers_update,
     tb_clash = (\<lambda>C a b. same C (pp_DeviceID a) (pp_DeviceID b) \<and> same C (pp_PeerID a) (pp_PeerID b) \<and> pp_NetworkID a = pp_NetworkID b)\<rparr>"

definition virtual_peer_path_events :: "VirtualPeerPathEvent_row table" where
  "virtual_peer_path_events = \<lparr>tb_get = cd_events, tb_update = cd_events_update, tb_clash = (\<lambda>C a b. pe_ID a = pe_ID b)\<rparr>"

definition virtual_learned_paths :: "VirtualLearnedPath_row table" where
  "virtual_learned_paths = \<lparr>tb_get = cd_learned, tb_update = cd_learned_update,
     tb_clash = (\<lambda>C a b. same C (ln_DeviceID a) (ln_DeviceID b) \<and> same C (ln_PeerID a) (ln_PeerID b)
       \<and> ln_NetworkID a = ln_NetworkID b \<and> ln_DstPort a = ln_DstPort b)\<rparr>"

subsection \<open>Settings and metadata\<close>

definition value_or_empty :: "('r \<Rightarrow> string) \<Rightarrow> (control_db, 'r) store_op \<Rightarrow> (control_db, string) store_op" where
  "value_or_empty v m d = (case m d of (d', Inl e) \<Rightarrow> (d', if e = ErrNoRows then Inr '''' else Inl e) | (d', Inr row) \<Rightarrow> (d', Inr (v row)))"

definition PutMeta :: "control_env \<Rightarrow> string \<Rightarrow> string \<Rightarrow> (control_db, unit) store_op" where
  "PutMeta C key v = sql_upsert C meta_table \<lparr>me_Key = key, me_Value = v\<rparr> (\<lambda>row. row\<lparr>me_Value := v\<rparr>)"

definition GetMeta :: "control_env \<Rightarrow> string \<Rightarrow> (control_db, string) store_op" where
  "GetMeta C key = value_or_empty me_Value (sql_first meta_table (co_weight C \<circ> me_Key) (\<lambda>row. same C (me_Key row) key))"

definition PutSystemSetting :: "control_env \<Rightarrow> string \<Rightarrow> string \<Rightarrow> (control_db, unit) store_op" where
  "PutSystemSetting C key v =
     sql_upsert C system_settings \<lparr>ss_Key = key, ss_Value = v, ss_UpdatedAt = co_now C\<rparr> (\<lambda>row. row\<lparr>ss_Value := v, ss_UpdatedAt := co_now C\<rparr>)"

definition GetSystemSetting :: "control_env \<Rightarrow> string \<Rightarrow> (control_db, string) store_op" where
  "GetSystemSetting C key = value_or_empty ss_Value (sql_first system_settings (co_weight C \<circ> ss_Key) (\<lambda>row. same C (ss_Key row) key))"

subsection \<open>Devices\<close>

definition keep_or :: "string \<Rightarrow> string \<Rightarrow> string" where
  "keep_or old new = (if new \<noteq> '''' then new else old)"

definition UpsertDevice :: "control_env \<Rightarrow> string \<Rightarrow> string \<Rightarrow> string \<Rightarrow> string \<Rightarrow> string \<Rightarrow> bool \<Rightarrow> (control_db, unit) store_op" where
  "UpsertDevice C i name addr upnpAddr want online =
     sql_upsert C devices_table
       \<lparr>dv_ID = i, dv_Name = name, dv_Addr = addr, dv_UpnpAddr = upnpAddr, dv_Want = want, dv_Online = online, dv_Enabled = True,
        dv_LastSeen = co_now C, dv_CreatedAt = co_now C\<rparr>
       (\<lambda>row. row\<lparr>dv_Name := keep_or (dv_Name row) name, dv_Addr := keep_or (dv_Addr row) addr, dv_UpnpAddr := keep_or (dv_UpnpAddr row) upnpAddr,
          dv_Want := keep_or (dv_Want row) want, dv_Online := online, dv_LastSeen := co_now C\<rparr>)"

definition UpsertDeviceProductState :: "control_env \<Rightarrow> DeviceProductState \<Rightarrow> (control_db, unit) store_op" where
  "UpsertDeviceProductState C state =
     (if TrimSpace (dps_DeviceID state) = '''' \<or> TrimSpace (dps_Product state) = '''' then give ()
      else
        let lastSeen = (if dps_LastSeenAt state = '''' then co_now C else dps_LastSeenAt state) in
        case (if dps_Metadata state = [] then Some ''{}'' else co_marshal C (dps_Metadata state)) of
          None \<Rightarrow> raise (OtherError ''json'')
        | Some metadata \<Rightarrow>
            sql_upsert C device_product_states
              \<lparr>dp_DeviceID = dps_DeviceID state, dp_Product = dps_Product state, dp_Online = dps_Online state, dp_LastSeenAt = lastSeen,
               dp_LastSource = dps_LastSource state, dp_Version = dps_Version state, dp_LastError = dps_LastError state, dp_Metadata = metadata\<rparr>
              (\<lambda>row. row\<lparr>dp_Online := dps_Online state, dp_LastSeenAt := lastSeen, dp_LastSource := dps_LastSource state,
                 dp_Version := dps_Version state, dp_LastError := dps_LastError state, dp_Metadata := metadata\<rparr>))"

definition ListDeviceProductStates :: "control_env \<Rightarrow> (control_db, DeviceProductState list) store_op" where
  "ListDeviceProductStates C =
     listed (\<lambda>rows. map (DeviceProductState_toStore (co_unmarshal C)) (sort_key (\<lambda>row. (co_weight C (dp_DeviceID row), co_weight C (dp_Product row))) rows))
       (sql_find device_product_states (\<lambda>_. True))"

definition MarkOfflineBefore :: "control_env \<Rightarrow> time \<Rightarrow> (control_db, unit) store_op" where
  "MarkOfflineBefore C cutoff =
     exec (sql_update C devices_table (\<lambda>row. dv_Online row \<and> before C (dv_LastSeen row) (co_format C cutoff)) (\<lambda>row. row\<lparr>dv_Online := False\<rparr>))"

definition ListDevices :: "control_env \<Rightarrow> (control_db, Device list) store_op" where
  "ListDevices C = listed (\<lambda>rows. map Device_toStore (sort_key (co_weight C \<circ> dv_ID) rows)) (sql_find devices_table (\<lambda>_. True))"

definition GetDevice :: "control_env \<Rightarrow> string \<Rightarrow> (control_db, Device) store_op" where
  "GetDevice C i = got Device_toStore (sql_first devices_table (co_weight C \<circ> dv_ID) (\<lambda>row. same C (dv_ID row) i))"

definition SetDeviceEnabled :: "control_env \<Rightarrow> string \<Rightarrow> bool \<Rightarrow> (control_db, unit) store_op" where
  "SetDeviceEnabled C i enabled = affecting (sql_update C devices_table (\<lambda>row. same C (dv_ID row) i) (\<lambda>row. row\<lparr>dv_Enabled := enabled\<rparr>))"

text \<open>GORM refuses to delete without a condition, and a zero primary key is none.\<close>

definition DeleteDevice :: "control_env \<Rightarrow> string \<Rightarrow> (control_db, unit) store_op" where
  "DeleteDevice C i = (if i = '''' then raise db_error else affecting (sql_delete devices_table (\<lambda>row. same C (dv_ID row) i)))"

subsection \<open>Forward rules\<close>

definition involves :: "control_env \<Rightarrow> string \<Rightarrow> ForwardRule_row \<Rightarrow> bool" where
  "involves C deviceID row \<longleftrightarrow> fr_Enabled row \<and> (same C (fr_SourceID row) deviceID \<or> same C (fr_TargetID row) deviceID)"

definition EnabledRuleReferenceCount :: "control_env \<Rightarrow> string \<Rightarrow> (control_db, int) store_op" where
  "EnabledRuleReferenceCount C deviceID = followed (sql_find forward_rules (involves C deviceID)) (\<lambda>rows. give (int (length rows)))"

definition ListRules :: "(control_db, ForwardRule list) store_op" where
  "ListRules = listed (\<lambda>rows. map ForwardRule_toStore (rev (sort_key fr_ID rows))) (sql_find forward_rules (\<lambda>_. True))"

definition RulesForDevice :: "control_env \<Rightarrow> string \<Rightarrow> (control_db, ForwardRule list) store_op" where
  "RulesForDevice C deviceID = listed (\<lambda>rows. map ForwardRule_toStore (sort_key fr_ID rows)) (sql_find forward_rules (involves C deviceID))"

text \<open>The answer of \<^verbatim>\<open>CreateRule\<close> is the rule of the request with the number, profile and times of the row.\<close>

definition CreateRule :: "control_env \<Rightarrow> ForwardRule \<Rightarrow> (control_db, ForwardRule) store_op" where
  "CreateRule C r =
     followed (sql_insert_auto C forward_rules RulesTable (\<lambda>i. \<lparr>fr_ID = i, fr_Name = rule_Name r, fr_SourceID = rule_SourceID r, fr_TargetID = rule_TargetID r,
         fr_Profile = or_default C '''' ''interactive'' (NormalizeProfile (rule_Profile r)), fr_LocalPort = rule_LocalPort r,
         fr_TargetHost = rule_TargetHost r, fr_TargetPort = rule_TargetPort r, fr_Enabled = or_default C False True (rule_Enabled r),
         fr_CreatedAt = co_now C, fr_UpdatedAt = co_now C\<rparr>))
       (\<lambda>row. give (r\<lparr>rule_ID := fr_ID row, rule_Profile := fr_Profile row, rule_CreatedAt := fr_CreatedAt row, rule_UpdatedAt := fr_UpdatedAt row\<rparr>))"

definition UpdateRule :: "control_env \<Rightarrow> int \<Rightarrow> ForwardRule \<Rightarrow> (control_db, unit) store_op" where
  "UpdateRule C i r = affecting (sql_update C forward_rules (\<lambda>row. fr_ID row = i)
     (\<lambda>row. row\<lparr>fr_Name := rule_Name r, fr_SourceID := rule_SourceID r, fr_TargetID := rule_TargetID r, fr_Profile := NormalizeProfile (rule_Profile r),
        fr_LocalPort := rule_LocalPort r, fr_TargetHost := rule_TargetHost r, fr_TargetPort := rule_TargetPort r, fr_Enabled := rule_Enabled r,
        fr_UpdatedAt := co_now C\<rparr>))"

definition DeleteRule :: "int \<Rightarrow> (control_db, unit) store_op" where
  "DeleteRule i = affecting (sql_delete forward_rules (\<lambda>row. fr_ID row = i))"

definition LocalPortConflict :: "control_env \<Rightarrow> string \<Rightarrow> int \<Rightarrow> int \<Rightarrow> (control_db, bool) store_op" where
  "LocalPortConflict C sourceID localPort excludeID =
     followed (sql_find forward_rules (\<lambda>row. same C (fr_SourceID row) sourceID \<and> fr_LocalPort row = localPort \<and> fr_Enabled row \<and> fr_ID row \<noteq> excludeID))
       (\<lambda>rows. give (0 < length rows))"

subsection \<open>Sessions, metrics, tunnels and the audit log\<close>

definition StartSession :: "control_env \<Rightarrow> string \<Rightarrow> string \<Rightarrow> string \<Rightarrow> string \<Rightarrow> (control_db, int) store_op" where
  "StartSession C sourceID targetID profile path =
     got se_ID (sql_insert_auto C sessions_table SessionsTable (\<lambda>i. \<lparr>se_ID = i, se_SourceID = sourceID, se_TargetID = targetID,
       se_Profile = or_default C '''' ''interactive'' (NormalizeProfile profile), se_Path = path, se_RelayBytes = 0, se_StartedAt = co_now C,
       se_LastSeen = co_now C, se_EndedAt = ''''\<rparr>))"

definition TouchSession :: "control_env \<Rightarrow> int \<Rightarrow> int \<Rightarrow> (control_db, unit) store_op" where
  "TouchSession C i relayBytes =
     exec (sql_update C sessions_table (\<lambda>row. se_ID row = i) (\<lambda>row. row\<lparr>se_LastSeen := co_now C, se_RelayBytes := se_RelayBytes row + relayBytes\<rparr>))"

definition open_between :: "control_env \<Rightarrow> string \<Rightarrow> string \<Rightarrow> string \<Rightarrow> Session_row \<Rightarrow> bool" where
  "open_between C aID bID profile row \<longleftrightarrow>
     same C (se_EndedAt row) '''' \<and> same C (se_Profile row) (NormalizeProfile profile)
     \<and> ((same C (se_SourceID row) aID \<and> same C (se_TargetID row) bID) \<or> (same C (se_SourceID row) bID \<and> same C (se_TargetID row) aID))"

definition UpdateSessionPathForPair :: "control_env \<Rightarrow> string \<Rightarrow> string \<Rightarrow> string \<Rightarrow> string \<Rightarrow> (control_db, unit) store_op" where
  "UpdateSessionPathForPair C aID bID profile path d =
     (case sql_first sessions_table (\<lambda>row. - se_ID row) (open_between C aID bID profile) d of
        (d', Inl e) \<Rightarrow> (d', if e = ErrNoRows then Inr () else Inl e)
      | (d', Inr row) \<Rightarrow>
          exec (sql_update C sessions_table (\<lambda>r. se_ID r = se_ID row) (\<lambda>r. r\<lparr>se_Path := path, se_LastSeen := co_now C\<rparr>)) d')"

definition EndIdleSessions :: "control_env \<Rightarrow> time \<Rightarrow> (control_db, unit) store_op" where
  "EndIdleSessions C cutoff =
     exec (sql_update C sessions_table (\<lambda>row. same C (se_EndedAt row) '''' \<and> before C (se_LastSeen row) (co_format C cutoff))
       (\<lambda>row. row\<lparr>se_EndedAt := co_now C\<rparr>))"

definition ListSessions :: "(control_db, Session list) store_op" where
  "ListSessions = listed (\<lambda>rows. map Session_toStore (take 200 (rev (sort_key se_ID rows)))) (sql_find sessions_table (\<lambda>_. True))"

definition count_rows :: "'r table \<Rightarrow> ('r \<Rightarrow> bool) \<Rightarrow> (control_db, int) store_op" where
  "count_rows T P = followed (sql_find T P) (\<lambda>rows. give (int (length rows)))"

definition Metrics_of :: "control_env \<Rightarrow> (control_db, Metrics) store_op" where
  "Metrics_of C =
     followed (count_rows devices_table (\<lambda>_. True)) (\<lambda>devices.
     followed (count_rows devices_table dv_Online) (\<lambda>onlineDevices.
     followed (count_rows forward_rules (\<lambda>_. True)) (\<lambda>rules.
     followed (count_rows sessions_table (\<lambda>row. same C (se_EndedAt row) '''')) (\<lambda>active.
     followed (sql_find sessions_table (\<lambda>_. True)) (\<lambda>rows.
       give \<lparr>mt_Devices = devices, mt_OnlineDevices = onlineDevices, mt_ForwardRules = rules, mt_ActiveSessions = active,
             mt_RelayBytes = sum_list (map se_RelayBytes rows)\<rparr>)))))"

definition PutTunnelState :: "control_env \<Rightarrow> TunnelState \<Rightarrow> (control_db, unit) store_op" where
  "PutTunnelState C ts =
     (let transition = (if ts_LastTransitionAt ts = '''' then co_now C else ts_LastTransitionAt ts) in
      sql_upsert C tunnel_states
        \<lparr>tu_DeviceID = ts_DeviceID ts, tu_PeerID = ts_PeerID ts, tu_Profile = NormalizeProfile (ts_Profile ts), tu_State = ts_State ts,
         tu_Via = ts_Via ts, tu_NATType = ts_NATType ts, tu_PublicAddr = ts_PublicAddr ts, tu_ConvID = ts_ConvID ts, tu_RTTMs = ts_RTTMs ts,
         tu_LastError = ts_LastError ts, tu_Attempt = ts_Attempt ts, tu_NextRetryAt = ts_NextRetryAt ts, tu_LastTransitionAt = transition,
         tu_UpdatedAt = co_now C\<rparr>
        (\<lambda>row. row\<lparr>tu_State := ts_State ts, tu_Via := ts_Via ts, tu_NATType := ts_NATType ts, tu_PublicAddr := ts_PublicAddr ts,
           tu_ConvID := ts_ConvID ts, tu_RTTMs := ts_RTTMs ts, tu_LastError := ts_LastError ts, tu_Attempt := ts_Attempt ts,
           tu_NextRetryAt := ts_NextRetryAt ts, tu_LastTransitionAt := transition, tu_UpdatedAt := co_now C\<rparr>))"

definition ListTunnelStates :: "control_env \<Rightarrow> (control_db, TunnelState list) store_op" where
  "ListTunnelStates C =
     listed (\<lambda>rows. map TunnelState_toStore (take 200 (rev (sort_key (co_weight C \<circ> tu_UpdatedAt) rows)))) (sql_find tunnel_states (\<lambda>_. True))"

definition Audit :: "control_env \<Rightarrow> string \<Rightarrow> string \<Rightarrow> (control_db, unit) store_op" where
  "Audit C kind detail = exec (sql_insert_auto C audit_events AuditTable (\<lambda>i. \<lparr>ae_ID = i, ae_Kind = kind, ae_Detail = detail, ae_CreatedAt = co_now C\<rparr>))"

definition audit_matches :: "control_env \<Rightarrow> AuditFilter \<Rightarrow> AuditEvent_row \<Rightarrow> bool" where
  "audit_matches C flt row \<longleftrightarrow>
     (let kind = TrimSpace (af_Kind flt); f = TrimSpace (af_From flt); t = TrimSpace (af_To flt); word = TrimSpace (af_Keyword flt);
          keyword = ''%'' @ word @ ''%'' in
      (kind = '''' \<or> same C (ae_Kind row) kind) \<and> (f = '''' \<or> \<not> before C (ae_CreatedAt row) f) \<and> (t = '''' \<or> \<not> before C t (ae_CreatedAt row))
      \<and> (word = '''' \<or> co_like C keyword (ae_Kind row) \<or> co_like C keyword (ae_Detail row)))"

definition ListAuditEvents :: "control_env \<Rightarrow> AuditFilter \<Rightarrow> (control_db, AuditEvent list) store_op" where
  "ListAuditEvents C flt =
     (let limit = (if af_Limit flt \<le> 0 \<or> 500 < af_Limit flt then 200 else af_Limit flt) in
      listed (\<lambda>rows. map AuditEvent_toStore (take (nat limit) (rev (sort_key ae_ID rows)))) (sql_find audit_events (audit_matches C flt)))"

subsection \<open>Administrators and refresh tokens\<close>

definition UpsertAdminUser :: "control_env \<Rightarrow> AdminUser \<Rightarrow> (control_db, unit) store_op" where
  "UpsertAdminUser C user =
     sql_upsert C admin_users
       \<lparr>us_ID = au_ID user, us_Username = au_Username user, us_Name = au_Name user, us_Role = or_default C '''' ''admin'' (au_Role user),
        us_ForcePasswordChange = or_default C False True (au_ForcePasswordChange user),
        us_PasswordVersion = or_default C 0 1 (au_PasswordVersion user), us_PasswordHash = au_PasswordHash user,
        us_CreatedAt = (if au_CreatedAt user = '''' then co_now C else au_CreatedAt user), us_UpdatedAt = co_now C\<rparr>
       (\<lambda>row. row\<lparr>us_Username := au_Username user, us_Name := au_Name user, us_Role := au_Role user,
          us_ForcePasswordChange := au_ForcePasswordChange user, us_PasswordVersion := au_PasswordVersion user,
          us_PasswordHash := au_PasswordHash user, us_UpdatedAt := co_now C\<rparr>)"

definition GetAdminUserByUsername :: "control_env \<Rightarrow> string \<Rightarrow> (control_db, AdminUser) store_op" where
  "GetAdminUserByUsername C username =
     got AdminUser_toStore (sql_first admin_users (co_weight C \<circ> us_ID) (\<lambda>row. same C (us_Username row) username))"

definition GetAdminUserByID :: "control_env \<Rightarrow> string \<Rightarrow> (control_db, AdminUser) store_op" where
  "GetAdminUserByID C i = got AdminUser_toStore (sql_first admin_users (co_weight C \<circ> us_ID) (\<lambda>row. same C (us_ID row) i))"

definition UpdateAdminPassword :: "control_env \<Rightarrow> string \<Rightarrow> string \<Rightarrow> (control_db, unit) store_op" where
  "UpdateAdminPassword C userID passwordHash =
     affecting (sql_update C admin_users (\<lambda>row. same C (us_ID row) userID)
       (\<lambda>row. row\<lparr>us_PasswordHash := passwordHash, us_PasswordVersion := us_PasswordVersion row + 1, us_UpdatedAt := co_now C\<rparr>))"

definition ClearAdminPasswordChangeRequired :: "control_env \<Rightarrow> string \<Rightarrow> (control_db, unit) store_op" where
  "ClearAdminPasswordChangeRequired C userID =
     affecting (sql_update C admin_users (\<lambda>row. same C (us_ID row) userID) (\<lambda>row. row\<lparr>us_ForcePasswordChange := False, us_UpdatedAt := co_now C\<rparr>))"

definition CreateAdminRefreshToken :: "control_env \<Rightarrow> string \<Rightarrow> string \<Rightarrow> time \<Rightarrow> string \<Rightarrow> string \<Rightarrow> (control_db, unit) store_op" where
  "CreateAdminRefreshToken C userID tokenHash expiresAt userAgent ip =
     exec (sql_insert_auto C admin_refresh_tokens TokensTable (\<lambda>i. \<lparr>tk_ID = i, tk_UserID = userID, tk_TokenHash = tokenHash,
       tk_ExpiresAt = co_format C expiresAt, tk_RevokedAt = '''', tk_CreatedAt = co_now C, tk_LastUsedAt = '''', tk_UserAgent = userAgent, tk_IP = ip\<rparr>))"

definition GetAdminRefreshToken :: "control_env \<Rightarrow> string \<Rightarrow> (control_db, AdminRefreshToken) store_op" where
  "GetAdminRefreshToken C tokenHash =
     got AdminRefreshToken_toStore (sql_first admin_refresh_tokens tk_ID (\<lambda>row. same C (tk_TokenHash row) tokenHash))"

definition TouchAdminRefreshToken :: "control_env \<Rightarrow> int \<Rightarrow> (control_db, unit) store_op" where
  "TouchAdminRefreshToken C i =
     exec (sql_update C admin_refresh_tokens (\<lambda>row. tk_ID row = i) (\<lambda>row. row\<lparr>tk_LastUsedAt := co_now C\<rparr>))"

definition revoke_where :: "control_env \<Rightarrow> (AdminRefreshToken_row \<Rightarrow> bool) \<Rightarrow> (control_db, unit) store_op" where
  "revoke_where C P =
     exec (sql_update C admin_refresh_tokens (\<lambda>row. P row \<and> same C (tk_RevokedAt row) '''') (\<lambda>row. row\<lparr>tk_RevokedAt := co_now C\<rparr>))"

definition RevokeAdminRefreshToken :: "control_env \<Rightarrow> string \<Rightarrow> (control_db, unit) store_op" where
  "RevokeAdminRefreshToken C tokenHash = revoke_where C (\<lambda>row. same C (tk_TokenHash row) tokenHash)"

definition RevokeAdminRefreshTokensByUser :: "control_env \<Rightarrow> string \<Rightarrow> (control_db, unit) store_op" where
  "RevokeAdminRefreshTokensByUser C userID = revoke_where C (\<lambda>row. same C (tk_UserID row) userID)"

definition RevokeExpiredAdminRefreshTokens :: "control_env \<Rightarrow> time \<Rightarrow> (control_db, unit) store_op" where
  "RevokeExpiredAdminRefreshTokens C cutoff = revoke_where C (\<lambda>row. before C (tk_ExpiresAt row) (co_format C cutoff))"

subsection \<open>Virtual networks and addresses\<close>

text \<open>\<^verbatim>\<open>OnConflict\<close> with \<^verbatim>\<open>DoNothing\<close>.\<close>

definition default_network :: "control_env \<Rightarrow> int \<Rightarrow> VirtualNetwork_row" where
  "default_network C i = \<lparr>nw_ID = i, nw_Name = ''Default Network'', nw_CIDR = ''172.16.10.0/24'', nw_MTU = 0, nw_MSS = 0,
     nw_PathPolicy = ''prefer_p2p'', nw_TCPFastPath = ''auto'', nw_Enabled = True, nw_CreatedAt = co_now C, nw_UpdatedAt = co_now C\<rparr>"

definition EnsureDefaultVirtualNetwork :: "control_env \<Rightarrow> (control_db, VirtualNetwork) store_op" where
  "EnsureDefaultVirtualNetwork C =
     followed (statement (\<lambda>d.
         let i = cd_next d NetworksTable; row = default_network C i; d = d\<lparr>cd_next := (cd_next d)(NetworksTable := i + 1)\<rparr> in
         if list_ex (\<lambda>old. tb_clash virtual_networks C old row) (cd_networks d) then (d, Inr ())
         else (d\<lparr>cd_networks := cd_networks d @ [row]\<rparr>, Inr ())))
       (\<lambda>_ d. case got VirtualNetwork_toStore (sql_first virtual_networks nw_ID (\<lambda>row. same C (nw_CIDR row) ''172.16.10.0/24'')) d of
           (d', Inl e) \<Rightarrow> (d', Inl (if e = ErrNoRows then OtherError ''record not found'' else e))
         | r \<Rightarrow> r)"

definition ListVirtualNetworks :: "(control_db, VirtualNetwork list) store_op" where
  "ListVirtualNetworks = listed (\<lambda>rows. map VirtualNetwork_toStore (sort_key nw_ID rows)) (sql_find virtual_networks (\<lambda>_. True))"

definition CreateVirtualNetwork :: "control_env \<Rightarrow> VirtualNetwork \<Rightarrow> (control_db, VirtualNetwork) store_op" where
  "CreateVirtualNetwork C network =
     got VirtualNetwork_toStore (sql_insert_auto C virtual_networks NetworksTable (\<lambda>i. \<lparr>nw_ID = i,
       nw_Name = (if vn_Name network = '''' then vn_CIDR network else vn_Name network), nw_CIDR = vn_CIDR network, nw_MTU = vn_MTU network,
       nw_MSS = vn_MSS network, nw_PathPolicy = normalizeVirtualNetworkPathPolicy (vn_PathPolicy network),
       nw_TCPFastPath = normalizeVirtualNetworkTCPFastPath (vn_TCPFastPath network), nw_Enabled = or_default C False True (vn_Enabled network),
       nw_CreatedAt = co_now C, nw_UpdatedAt = co_now C\<rparr>))"

definition UpdateVirtualNetwork :: "control_env \<Rightarrow> int \<Rightarrow> VirtualNetwork \<Rightarrow> (control_db, unit) store_op" where
  "UpdateVirtualNetwork C i network =
     affecting (sql_update C virtual_networks (\<lambda>row. nw_ID row = i) (\<lambda>row. row\<lparr>nw_Name := vn_Name network, nw_CIDR := vn_CIDR network,
       nw_MTU := vn_MTU network, nw_MSS := vn_MSS network, nw_PathPolicy := normalizeVirtualNetworkPathPolicy (vn_PathPolicy network),
       nw_TCPFastPath := normalizeVirtualNetworkTCPFastPath (vn_TCPFastPath network), nw_Enabled := vn_Enabled network, nw_UpdatedAt := co_now C\<rparr>))"

definition DeleteVirtualNetwork :: "int \<Rightarrow> (control_db, unit) store_op" where
  "DeleteVirtualNetwork i = affecting (sql_delete virtual_networks (\<lambda>row. nw_ID row = i))"

definition nullableString :: "string \<Rightarrow> string option" where
  "nullableString v = (if TrimSpace v = '''' then None else Some v)"

definition address_of :: "control_env \<Rightarrow> string \<Rightarrow> int \<Rightarrow> VirtualAddress_row \<Rightarrow> bool" where
  "address_of C deviceID networkID row \<longleftrightarrow> same C (vad_DeviceID row) deviceID \<and> vad_NetworkID row = networkID"

definition UpsertVirtualAddress :: "control_env \<Rightarrow> VirtualAddress \<Rightarrow> (control_db, unit) store_op" where
  "UpsertVirtualAddress C address d =
     (let mine = address_of C (va_DeviceID address) (va_NetworkID address) in
      case sql_first virtual_addresses (co_weight C \<circ> vad_DeviceID) mine d of
        (d', Inl e) \<Rightarrow>
          if e = ErrNoRows then
            sql_insert C virtual_addresses
              \<lparr>vad_DeviceID = va_DeviceID address, vad_NetworkID = va_NetworkID address, vad_VirtualIP = va_VirtualIP address,
               vad_Hostname = nullableString (va_Hostname address), vad_DNSEnabled = va_DNSEnabled address,
               vad_CreatedAt = (if va_CreatedAt address = '''' then co_now C else va_CreatedAt address), vad_UpdatedAt = co_now C\<rparr> d'
          else (d', Inl e)
      | (d', Inr _) \<Rightarrow>
          exec (sql_update C virtual_addresses mine (\<lambda>row. row\<lparr>vad_VirtualIP := va_VirtualIP address,
            vad_Hostname := nullableString (va_Hostname address), vad_DNSEnabled := va_DNSEnabled address, vad_UpdatedAt := co_now C\<rparr>)) d')"

definition ListVirtualAddresses :: "control_env \<Rightarrow> int \<Rightarrow> (control_db, VirtualAddress list) store_op" where
  "ListVirtualAddresses C networkID =
     listed (\<lambda>rows. map VirtualAddress_toStore (sort_key (\<lambda>row. (vad_NetworkID row, co_weight C (vad_VirtualIP row))) rows))
       (sql_find virtual_addresses (\<lambda>row. networkID \<le> 0 \<or> vad_NetworkID row = networkID))"

definition GetVirtualAddress :: "control_env \<Rightarrow> int \<Rightarrow> string \<Rightarrow> (control_db, VirtualAddress) store_op" where
  "GetVirtualAddress C networkID deviceID =
     got VirtualAddress_toStore (sql_first virtual_addresses (co_weight C \<circ> vad_DeviceID) (address_of C deviceID networkID))"

text \<open>The address that was updated last.\<close>

definition GetVirtualAddressByDevice :: "control_env \<Rightarrow> string \<Rightarrow> (control_db, VirtualAddress) store_op" where
  "GetVirtualAddressByDevice C deviceID =
     followed (sql_find virtual_addresses (\<lambda>row. same C (vad_DeviceID row) deviceID))
       (\<lambda>rows. case rev (sort_key (co_weight C \<circ> vad_UpdatedAt) rows) of [] \<Rightarrow> raise ErrNoRows | row # _ \<Rightarrow> give (VirtualAddress_toStore row))"

definition DeleteVirtualAddress :: "control_env \<Rightarrow> int \<Rightarrow> string \<Rightarrow> (control_db, unit) store_op" where
  "DeleteVirtualAddress C networkID deviceID = affecting (sql_delete virtual_addresses (address_of C deviceID networkID))"

subsection \<open>Device keys and groups\<close>

definition UpsertVirtualDeviceKey :: "control_env \<Rightarrow> VirtualDeviceKey \<Rightarrow> (control_db, unit) store_op" where
  "UpsertVirtualDeviceKey C key =
     sql_upsert C virtual_device_keys
       \<lparr>dk_DeviceID = vk_DeviceID key, dk_Algorithm = vk_Algorithm key, dk_PublicKey = vk_PublicKey key,
        dk_CreatedAt = (if vk_CreatedAt key = '''' then co_now C else vk_CreatedAt key), dk_UpdatedAt = co_now C\<rparr>
       (\<lambda>row. row\<lparr>dk_Algorithm := vk_Algorithm key, dk_PublicKey := vk_PublicKey key, dk_UpdatedAt := co_now C\<rparr>)"

definition GetVirtualDeviceKey :: "control_env \<Rightarrow> string \<Rightarrow> (control_db, VirtualDeviceKey) store_op" where
  "GetVirtualDeviceKey C deviceID =
     got VirtualDeviceKey_toStore (sql_first virtual_device_keys (co_weight C \<circ> dk_DeviceID) (\<lambda>row. same C (dk_DeviceID row) deviceID))"

definition ListVirtualDeviceKeys :: "control_env \<Rightarrow> (control_db, VirtualDeviceKey list) store_op" where
  "ListVirtualDeviceKeys C =
     listed (\<lambda>rows. map VirtualDeviceKey_toStore (sort_key (co_weight C \<circ> dk_DeviceID) rows)) (sql_find virtual_device_keys (\<lambda>_. True))"

definition UpsertVirtualDeviceGroup :: "control_env \<Rightarrow> VirtualDeviceGroup \<Rightarrow> (control_db, VirtualDeviceGroup) store_op" where
  "UpsertVirtualDeviceGroup C g =
     (let row = \<lparr>dg_ID = TrimSpace (vg_ID g), dg_Name = TrimSpace (vg_Name g),
                 dg_CreatedAt = (if vg_CreatedAt g = '''' then co_now C else vg_CreatedAt g), dg_UpdatedAt = co_now C\<rparr> in
      followed (sql_upsert C virtual_device_groups row (\<lambda>old. old\<lparr>dg_Name := dg_Name row, dg_UpdatedAt := co_now C\<rparr>))
        (\<lambda>_. give (VirtualDeviceGroup_toStore row)))"

definition DeleteVirtualDeviceGroup :: "control_env \<Rightarrow> string \<Rightarrow> (control_db, unit) store_op" where
  "DeleteVirtualDeviceGroup C i =
     transaction (followed (sql_delete virtual_device_group_members (\<lambda>row. same C (dm_GroupID row) i))
       (\<lambda>_. affecting (sql_delete virtual_device_groups (\<lambda>row. same C (dg_ID row) i))))"

definition ListVirtualDeviceGroups :: "control_env \<Rightarrow> (control_db, VirtualDeviceGroup list) store_op" where
  "ListVirtualDeviceGroups C =
     listed (\<lambda>rows. map VirtualDeviceGroup_toStore (sort_key (co_weight C \<circ> dg_ID) rows)) (sql_find virtual_device_groups (\<lambda>_. True))"

fun add_members :: "control_env \<Rightarrow> string \<Rightarrow> string list \<Rightarrow> (control_db, unit) store_op" where
  "add_members C groupID [] = give ()"
| "add_members C groupID (deviceID # deviceIDs) =
     (if TrimSpace deviceID = '''' then add_members C groupID deviceIDs
      else followed (sql_insert C virtual_device_group_members \<lparr>dm_GroupID = groupID, dm_DeviceID = TrimSpace deviceID, dm_CreatedAt = co_now C\<rparr>)
             (\<lambda>_. add_members C groupID deviceIDs))"

definition SetVirtualDeviceGroupMembers :: "control_env \<Rightarrow> string \<Rightarrow> string list \<Rightarrow> (control_db, unit) store_op" where
  "SetVirtualDeviceGroupMembers C groupID deviceIDs =
     transaction (followed (sql_delete virtual_device_group_members (\<lambda>row. same C (dm_GroupID row) groupID)) (\<lambda>_. add_members C groupID deviceIDs))"

definition ListVirtualDeviceGroupMembers :: "control_env \<Rightarrow> string \<Rightarrow> (control_db, VirtualDeviceGroupMember list) store_op" where
  "ListVirtualDeviceGroupMembers C groupID =
     listed (\<lambda>rows. map VirtualDeviceGroupMember_toStore (sort_key (\<lambda>row. (co_weight C (dm_GroupID row), co_weight C (dm_DeviceID row))) rows))
       (sql_find virtual_device_group_members (\<lambda>row. groupID = '''' \<or> same C (dm_GroupID row) groupID))"

subsection \<open>Access rules and routes\<close>

definition CreateVirtualACLRule :: "control_env \<Rightarrow> VirtualACLRule \<Rightarrow> (control_db, VirtualACLRule) store_op" where
  "CreateVirtualACLRule C r =
     got VirtualACLRule_toStore (sql_insert_auto C virtual_acl_rules ACLTable (\<lambda>i. \<lparr>ar_ID = i, ar_NetworkID = acl_NetworkID r,
       ar_SourceDeviceID = acl_SourceDeviceID r, ar_SourceGroupID = acl_SourceGroupID r, ar_TargetDeviceID = acl_TargetDeviceID r,
       ar_TargetGroupID = acl_TargetGroupID r, ar_Protocol = (if acl_Protocol r = '''' then ''tcp'' else acl_Protocol r),
       ar_PortStart = acl_PortStart r, ar_PortEnd = acl_PortEnd r, ar_Action = (if acl_Action r = '''' then ''allow'' else acl_Action r),
       ar_Enabled = or_default C False True (acl_Enabled r), ar_CreatedAt = co_now C, ar_UpdatedAt = co_now C\<rparr>))"

definition ListVirtualACLRules :: "int \<Rightarrow> (control_db, VirtualACLRule list) store_op" where
  "ListVirtualACLRules networkID =
     listed (\<lambda>rows. map VirtualACLRule_toStore (rev (sort_key ar_ID rows)))
       (sql_find virtual_acl_rules (\<lambda>row. networkID \<le> 0 \<or> ar_NetworkID row = networkID))"

definition UpdateVirtualACLRule :: "control_env \<Rightarrow> int \<Rightarrow> VirtualACLRule \<Rightarrow> (control_db, unit) store_op" where
  "UpdateVirtualACLRule C i r =
     affecting (sql_update C virtual_acl_rules (\<lambda>row. ar_ID row = i) (\<lambda>row. row\<lparr>ar_NetworkID := acl_NetworkID r,
       ar_SourceDeviceID := acl_SourceDeviceID r, ar_SourceGroupID := acl_SourceGroupID r, ar_TargetDeviceID := acl_TargetDeviceID r,
       ar_TargetGroupID := acl_TargetGroupID r, ar_Protocol := acl_Protocol r, ar_PortStart := acl_PortStart r, ar_PortEnd := acl_PortEnd r,
       ar_Action := acl_Action r, ar_Enabled := acl_Enabled r, ar_UpdatedAt := co_now C\<rparr>))"

definition DeleteVirtualACLRule :: "int \<Rightarrow> (control_db, unit) store_op" where
  "DeleteVirtualACLRule i = affecting (sql_delete virtual_acl_rules (\<lambda>row. ar_ID row = i))"

text \<open>A route without a number gets one; the number is not checked when the route exists.\<close>

definition UpsertVirtualRoute :: "control_env \<Rightarrow> VirtualRoute \<Rightarrow> (control_db, unit) store_op" where
  "UpsertVirtualRoute C route =
     (if 0 < vr_ID route then
        affecting (sql_update C virtual_routes (\<lambda>row. ro_ID row = vr_ID route) (\<lambda>row. row\<lparr>ro_DeviceID := vr_DeviceID route,
          ro_NetworkID := vr_NetworkID route, ro_CIDR := vr_CIDR route, ro_Advertise := vr_Advertise route, ro_Accept := vr_Accept route,
          ro_UpdatedAt := co_now C\<rparr>))
      else (\<lambda>d.
        let i = (if vr_ID route = 0 then cd_next d RoutesTable else vr_ID route);
            row = \<lparr>ro_ID = i, ro_DeviceID = vr_DeviceID route, ro_NetworkID = vr_NetworkID route, ro_CIDR = vr_CIDR route,
                   ro_Advertise = vr_Advertise route, ro_Accept = or_default C False True (vr_Accept route),
                   ro_CreatedAt = (if vr_CreatedAt route = '''' then co_now C else vr_CreatedAt route), ro_UpdatedAt = co_now C\<rparr>
        in sql_upsert C virtual_routes row (\<lambda>old. old\<lparr>ro_Advertise := vr_Advertise route, ro_Accept := vr_Accept route, ro_UpdatedAt := co_now C\<rparr>)
             (d\<lparr>cd_next := (cd_next d)(RoutesTable := max (cd_next d RoutesTable) (i + 1))\<rparr>)))"

definition ListVirtualRoutes :: "control_env \<Rightarrow> int \<Rightarrow> string \<Rightarrow> (control_db, VirtualRoute list) store_op" where
  "ListVirtualRoutes C networkID deviceID =
     listed (\<lambda>rows. map VirtualRoute_toStore (sort_key (\<lambda>row. (ro_NetworkID row, co_weight C (ro_DeviceID row), co_weight C (ro_CIDR row))) rows))
       (sql_find virtual_routes (\<lambda>row. (networkID \<le> 0 \<or> ro_NetworkID row = networkID) \<and> (deviceID = '''' \<or> same C (ro_DeviceID row) deviceID)))"

definition DeleteVirtualRoute :: "int \<Rightarrow> (control_db, unit) store_op" where
  "DeleteVirtualRoute i = affecting (sql_delete virtual_routes (\<lambda>row. ro_ID row = i))"

subsection \<open>States of peers and learned paths\<close>

definition peer_state_row :: "control_env \<Rightarrow> VirtualPeerState \<Rightarrow> VirtualPeerState_row" where
  "peer_state_row C state =
     \<lparr>pp_DeviceID = ps_DeviceID state, pp_PeerID = ps_PeerID state, pp_NetworkID = ps_NetworkID state,
       pp_State = ps_State state, pp_Path = ps_Path state, pp_DataPath = ps_DataPath state,
       pp_PathReason = ps_PathReason state, pp_NATType = ps_NATType state, pp_FallbackReason = ps_FallbackReason state,
       pp_TrafficClass = ps_TrafficClass state, pp_TCPFastPath = ps_TCPFastPath state,
       pp_AdapterState = ps_AdapterState state, pp_RouteConflict = ps_RouteConflict state,
       pp_SelectedCIDR = ps_SelectedCIDR state, pp_MTU = ps_MTU state, pp_MSS = ps_MSS state, pp_RTTMs = ps_RTTMs state,
       pp_EstimatedBps = ps_EstimatedBps state, pp_TxBytes = ps_TxBytes state, pp_RxBytes = ps_RxBytes state,
       pp_DropReason = ps_DropReason state, pp_LastError = ps_LastError state, pp_ActiveSessions = ps_ActiveSessions state,
       pp_HotPaths = ps_HotPaths state, pp_RelayDisabled = ps_RelayDisabled state,
       pp_SocketRotations = ps_SocketRotations state, pp_LastRotationAt = ps_LastRotationAt state,
       pp_LastRotationReason = ps_LastRotationReason state, pp_LastHandshakeAt = ps_LastHandshakeAt state,
       pp_LastTransitionAt = (if ps_LastTransitionAt state = '''' then co_now C else ps_LastTransitionAt state),
       pp_UpdatedAt = co_now C\<rparr>"

definition assign_peer_state :: "VirtualPeerState_row \<Rightarrow> VirtualPeerState_row \<Rightarrow> VirtualPeerState_row" where
  "assign_peer_state row old =
     old\<lparr>pp_State := pp_State row, pp_Path := pp_Path row, pp_DataPath := pp_DataPath row, pp_PathReason := pp_PathReason row,
         pp_NATType := pp_NATType row, pp_FallbackReason := pp_FallbackReason row, pp_TrafficClass := pp_TrafficClass row,
         pp_TCPFastPath := pp_TCPFastPath row, pp_AdapterState := pp_AdapterState row, pp_RouteConflict := pp_RouteConflict row,
         pp_SelectedCIDR := pp_SelectedCIDR row, pp_MTU := pp_MTU row, pp_MSS := pp_MSS row, pp_RTTMs := pp_RTTMs row,
         pp_EstimatedBps := pp_EstimatedBps row, pp_TxBytes := pp_TxBytes row, pp_RxBytes := pp_RxBytes row,
         pp_DropReason := pp_DropReason row, pp_LastError := pp_LastError row, pp_ActiveSessions := pp_ActiveSessions row,
         pp_HotPaths := pp_HotPaths row, pp_RelayDisabled := pp_RelayDisabled row, pp_SocketRotations := pp_SocketRotations row,
         pp_LastRotationAt := pp_LastRotationAt row, pp_LastRotationReason := pp_LastRotationReason row,
         pp_LastHandshakeAt := pp_LastHandshakeAt row, pp_LastTransitionAt := pp_LastTransitionAt row,
         pp_UpdatedAt := pp_UpdatedAt row\<rparr>"

definition path_event :: "control_env \<Rightarrow> VirtualPeerState_row \<Rightarrow> int \<Rightarrow> VirtualPeerPathEvent_row" where
  "path_event C row i = \<lparr>pe_ID = i, pe_DeviceID = pp_DeviceID row, pe_PeerID = pp_PeerID row, pe_NetworkID = pp_NetworkID row, pe_Path = pp_Path row,
     pe_DataPath = pp_DataPath row, pe_PathReason = pp_PathReason row, pe_TrafficClass = pp_TrafficClass row, pe_TxBytes = pp_TxBytes row,
     pe_RxBytes = pp_RxBytes row, pe_CreatedAt = co_now C\<rparr>"

text \<open>The path of a peer is logged when it differs from the one stored before.\<close>

definition same_path :: "VirtualPeerState_row \<Rightarrow> VirtualPeerState_row \<Rightarrow> bool" where
  "same_path a b \<longleftrightarrow> pp_Path a = pp_Path b \<and> pp_DataPath a = pp_DataPath b \<and> pp_PathReason a = pp_PathReason b"

definition PutVirtualPeerState :: "control_env \<Rightarrow> VirtualPeerState \<Rightarrow> (control_db, unit) store_op" where
  "PutVirtualPeerState C state d =
     (let row = peer_state_row C state;
          put = (\<lambda>previous.
            followed (sql_upsert C virtual_peer_states row (assign_peer_state row)) (\<lambda>_.
              if (case previous of None \<Rightarrow> True | Some p \<Rightarrow> \<not> same_path p row)
              then exec (sql_insert_auto C virtual_peer_path_events EventsTable (path_event C row)) else give ()))
      in case sql_first virtual_peer_states (co_weight C \<circ> pp_DeviceID) (\<lambda>old. tb_clash virtual_peer_states C old row) d of
           (d', Inl e) \<Rightarrow> if e = ErrNoRows then put None d' else (d', Inl e)
         | (d', Inr previous) \<Rightarrow> put (Some previous) d')"

definition ListVirtualPeerStates :: "control_env \<Rightarrow> int \<Rightarrow> (control_db, VirtualPeerState list) store_op" where
  "ListVirtualPeerStates C networkID =
     listed (\<lambda>rows. map VirtualPeerState_toStore (take 200 (rev (sort_key (co_weight C \<circ> pp_UpdatedAt) rows))))
       (sql_find virtual_peer_states (\<lambda>row. networkID \<le> 0 \<or> pp_NetworkID row = networkID))"

definition ListVirtualPeerPathEvents :: "control_env \<Rightarrow> int \<Rightarrow> string \<Rightarrow> string \<Rightarrow> int \<Rightarrow> (control_db, VirtualPeerPathEvent list) store_op" where
  "ListVirtualPeerPathEvents C networkID deviceID peerID limit =
     (let limit = (if limit \<le> 0 \<or> 500 < limit then 200 else limit) in
      listed (\<lambda>rows. map VirtualPeerPathEvent_toStore (take (nat limit) (rev (sort_key pe_ID rows))))
        (sql_find virtual_peer_path_events (\<lambda>row. (networkID \<le> 0 \<or> pe_NetworkID row = networkID)
           \<and> (TrimSpace deviceID = '''' \<or> same C (pe_DeviceID row) (TrimSpace deviceID))
           \<and> (TrimSpace peerID = '''' \<or> same C (pe_PeerID row) (TrimSpace peerID)))))"

definition learnedPathQuality :: "int \<Rightarrow> int \<Rightarrow> string \<Rightarrow> string" where
  "learnedPathQuality successes failures lastFailure =
     (if successes \<le> 0 \<and> 0 < failures then ''bad''
      else if lastFailure \<noteq> '''' \<and> successes \<le> failures then ''degraded''
      else if 3 \<le> successes \<and> failures = 0 then ''good''
      else if failures < successes then ''ok''
      else ''unknown'')"

definition learned_row :: "control_env \<Rightarrow> VirtualLearnedPath \<Rightarrow> VirtualLearnedPath_row" where
  "learned_row C path =
     (let protocol = TrimSpace (ToLower (lp_Protocol path));
          successes = max 0 (lp_SuccessCount path); failures = max 0 (lp_FailureCount path)
      in \<lparr>ln_DeviceID = lp_DeviceID path, ln_PeerID = lp_PeerID path, ln_NetworkID = lp_NetworkID path, ln_DstPort = lp_DstPort path,
          ln_Protocol = (if protocol = '''' then ''tcp'' else protocol), ln_Path = lp_Path path, ln_PublicAddr = lp_PublicAddr path,
          ln_SuccessCount = successes, ln_FailureCount = failures,
          ln_LastSuccessAt = (if lp_LastSuccessAt path = '''' \<and> 0 < successes then co_now C else lp_LastSuccessAt path),
          ln_LastFailureAt = (if lp_LastFailureAt path = '''' \<and> 0 < failures then co_now C else lp_LastFailureAt path),
          ln_LastFailure = lp_LastFailure path,
          ln_Quality = (if lp_Quality path = '''' then learnedPathQuality successes failures (lp_LastFailure path) else lp_Quality path),
          ln_PreheatEnabled = lp_PreheatEnabled path, ln_UpdatedAt = co_now C\<rparr>)"

definition UpsertVirtualLearnedPath :: "control_env \<Rightarrow> VirtualLearnedPath \<Rightarrow> (control_db, unit) store_op" where
  "UpsertVirtualLearnedPath C path =
     (let row = learned_row C path in
      sql_upsert C virtual_learned_paths (row\<lparr>ln_PreheatEnabled := or_default C False True (ln_PreheatEnabled row)\<rparr>)
        (\<lambda>old. old\<lparr>ln_Protocol := ln_Protocol row, ln_Path := ln_Path row, ln_PublicAddr := ln_PublicAddr row,
           ln_SuccessCount := ln_SuccessCount row, ln_FailureCount := ln_FailureCount row, ln_LastSuccessAt := ln_LastSuccessAt row,
           ln_LastFailureAt := ln_LastFailureAt row, ln_LastFailure := ln_LastFailure row, ln_Quality := ln_Quality row,
           ln_PreheatEnabled := ln_PreheatEnabled row, ln_UpdatedAt := ln_UpdatedAt row\<rparr>))"

definition ListVirtualLearnedPaths :: "control_env \<Rightarrow> int \<Rightarrow> string \<Rightarrow> (control_db, VirtualLearnedPath list) store_op" where
  "ListVirtualLearnedPaths C networkID deviceID =
     listed (\<lambda>rows. map VirtualLearnedPath_toStore (rev (sort_key (co_weight C \<circ> ln_UpdatedAt) rows)))
       (sql_find virtual_learned_paths (\<lambda>row. (networkID \<le> 0 \<or> ln_NetworkID row = networkID)
          \<and> (TrimSpace deviceID = '''' \<or> same C (ln_DeviceID row) (TrimSpace deviceID))))"

definition SetVirtualLearnedPathPreheat :: "control_env \<Rightarrow> int \<Rightarrow> string \<Rightarrow> string \<Rightarrow> int \<Rightarrow> bool \<Rightarrow> (control_db, unit) store_op" where
  "SetVirtualLearnedPathPreheat C networkID deviceID peerID dstPort enabled =
     affecting (sql_update C virtual_learned_paths (\<lambda>row. ln_NetworkID row = networkID \<and> same C (ln_DeviceID row) deviceID
         \<and> same C (ln_PeerID row) peerID \<and> ln_DstPort row = dstPort)
       (\<lambda>row. row\<lparr>ln_PreheatEnabled := enabled, ln_UpdatedAt := co_now C\<rparr>))"

subsection \<open>The store the handlers use\<close>

definition control_admin :: "control_env \<Rightarrow> control_db admin_store" where
  "control_admin C = \<lparr>ad_GetAdminUserByUsername = GetAdminUserByUsername C, ad_GetAdminUserByID = GetAdminUserByID C,
     ad_UpsertAdminUser = UpsertAdminUser C, ad_UpdateAdminPassword = UpdateAdminPassword C,
     ad_ClearAdminPasswordChangeRequired = ClearAdminPasswordChangeRequired C, ad_GetAdminRefreshToken = GetAdminRefreshToken C,
     ad_CreateAdminRefreshToken = CreateAdminRefreshToken C, ad_TouchAdminRefreshToken = TouchAdminRefreshToken C,
     ad_RevokeAdminRefreshToken = RevokeAdminRefreshToken C, ad_RevokeAdminRefreshTokensByUser = RevokeAdminRefreshTokensByUser C,
     ad_GetMeta = GetMeta C\<rparr>"

lemma control_admin_simps [simp]:
  "ad_GetAdminUserByUsername (control_admin C) = GetAdminUserByUsername C" "ad_GetAdminUserByID (control_admin C) = GetAdminUserByID C"
  "ad_UpsertAdminUser (control_admin C) = UpsertAdminUser C" "ad_UpdateAdminPassword (control_admin C) = UpdateAdminPassword C"
  "ad_ClearAdminPasswordChangeRequired (control_admin C) = ClearAdminPasswordChangeRequired C"
  "ad_GetAdminRefreshToken (control_admin C) = GetAdminRefreshToken C" "ad_CreateAdminRefreshToken (control_admin C) = CreateAdminRefreshToken C"
  "ad_TouchAdminRefreshToken (control_admin C) = TouchAdminRefreshToken C" "ad_RevokeAdminRefreshToken (control_admin C) = RevokeAdminRefreshToken C"
  "ad_RevokeAdminRefreshTokensByUser (control_admin C) = RevokeAdminRefreshTokensByUser C" "ad_GetMeta (control_admin C) = GetMeta C"
  by (simp_all add: control_admin_def)

definition control_lan :: "control_env \<Rightarrow> control_db lan_store" where
  "control_lan C = \<lparr>as_ListVirtualAddresses = ListVirtualAddresses C, as_UpsertVirtualAddress = UpsertVirtualAddress C,
     as_GetVirtualAddress = GetVirtualAddress C, as_GetVirtualAddressByDevice = GetVirtualAddressByDevice C,
     as_ListVirtualNetworks = ListVirtualNetworks, as_EnsureDefaultVirtualNetwork = EnsureDefaultVirtualNetwork C,
     ls_CreateVirtualNetwork = CreateVirtualNetwork C, ls_UpdateVirtualNetwork = UpdateVirtualNetwork C,
     ls_DeleteVirtualNetwork = DeleteVirtualNetwork, ls_DeleteVirtualAddress = DeleteVirtualAddress C,
     ls_ListVirtualACLRules = ListVirtualACLRules, ls_CreateVirtualACLRule = CreateVirtualACLRule C,
     ls_UpdateVirtualACLRule = UpdateVirtualACLRule C, ls_DeleteVirtualACLRule = DeleteVirtualACLRule,
     ls_ListVirtualRoutes = ListVirtualRoutes C, ls_UpsertVirtualRoute = UpsertVirtualRoute C, ls_DeleteVirtualRoute = DeleteVirtualRoute,
     ls_ListVirtualPeerStates = ListVirtualPeerStates C, ls_PutVirtualPeerState = PutVirtualPeerState C,
     ls_ListVirtualPeerPathEvents = ListVirtualPeerPathEvents C, ls_ListVirtualLearnedPaths = ListVirtualLearnedPaths C,
     ls_UpsertVirtualLearnedPath = UpsertVirtualLearnedPath C, ls_SetVirtualLearnedPathPreheat = SetVirtualLearnedPathPreheat C,
     ls_ListVirtualDeviceKeys = ListVirtualDeviceKeys C, ls_UpsertVirtualDeviceKey = UpsertVirtualDeviceKey C,
     ls_ListVirtualDeviceGroups = ListVirtualDeviceGroups C, ls_UpsertVirtualDeviceGroup = UpsertVirtualDeviceGroup C,
     ls_DeleteVirtualDeviceGroup = DeleteVirtualDeviceGroup C, ls_SetVirtualDeviceGroupMembers = SetVirtualDeviceGroupMembers C,
     ls_ListVirtualDeviceGroupMembers = ListVirtualDeviceGroupMembers C, ls_UpsertDevice = UpsertDevice C, ls_GetDevice = GetDevice C,
     ls_UpsertDeviceProductState = UpsertDeviceProductState C\<rparr>"

section \<open>Statements on a table\<close>

text \<open>What the handlers rely on: a table is a part of the state of its own, and its statements keep its keys unique.\<close>

lemma statement_ok [simp]: "cd_faults d = [] \<Longrightarrow> statement m d = m d"
  by (simp add: statement_def)

lemma statement_cases:
  "statement m d = m d \<or> (\<exists>faults. statement m d = m (d\<lparr>cd_faults := faults\<rparr>)) \<or> (\<exists>faults. statement m d = (d\<lparr>cd_faults := faults\<rparr>, Inl db_error))"
  by (auto simp: statement_def Let_def split: list.splits)

lemma same_refl [simp]: "same C a a"
  by (simp add: same_def)

lemma same_sym: "same C a b \<longleftrightarrow> same C b a"
  by (auto simp: same_def)

lemma keys_ok_Cons [simp]: "keys_ok clash (row # rows) \<longleftrightarrow> (\<forall>r \<in> set rows. \<not> clash row r) \<and> keys_ok clash rows"
  by (simp add: keys_ok_def)

lemma keys_ok_Nil [simp]: "keys_ok clash []"
  by (simp add: keys_ok_def)

lemma keys_ok_append: "keys_ok clash (xs @ ys) \<longleftrightarrow> keys_ok clash xs \<and> keys_ok clash ys \<and> (\<forall>x \<in> set xs. \<forall>y \<in> set ys. \<not> clash x y)"
  by (auto simp: keys_ok_def sorted_wrt_append)

lemma keys_ok_map: "(\<And>a b. clash (f a) (f b) = clash a b) \<Longrightarrow> keys_ok clash (map f rows) = keys_ok clash rows"
  by (induction rows) simp_all

lemma keys_ok_filter: "keys_ok clash rows \<Longrightarrow> keys_ok clash (filter P rows)"
  by (induction rows) auto

text \<open>A condition that selects one key selects at most one row.\<close>

lemma filter_one:
  assumes "keys_ok clash rows" "row \<in> set rows" "P row" "\<And>a b. P a \<Longrightarrow> P b \<Longrightarrow> clash a b"
  shows "filter P rows = [row]"
  using assms(1,2)
proof (induction rows)
  case (Cons r rows)
  show ?case
  proof (cases "r = row")
    case True
    have "filter P rows = []" using Cons.prems(1) assms(3,4) True by (auto simp: filter_empty_conv)
    with True assms(3) show ?thesis by simp
  next
    case False
    then have "row \<in> set rows" "\<not> clash r row" using Cons.prems by auto
    with assms(3,4) have "\<not> P r" by blast
    with Cons \<open>row \<in> set rows\<close> show ?thesis by simp
  qed
qed simp

locale sql_table =
  fixes T :: "'r table"
  assumes get_update: "tb_get T (tb_update T f d) = f (tb_get T d)"
    and faults_update: "cd_faults (tb_update T f d) = cd_faults d"
    and get_faults: "tb_get T (d\<lparr>cd_faults := faults\<rparr>) = tb_get T d"
    and get_next: "tb_get T (d\<lparr>cd_next := n\<rparr>) = tb_get T d"
    and clash_sym: "tb_clash T C a b = tb_clash T C b a"
begin

lemma sql_first_eq:
  "cd_faults d = [] \<Longrightarrow>
     sql_first T key P d = (d, case sort_key key (filter P (tb_get T d)) of [] \<Rightarrow> Inl ErrNoRows | row # _ \<Rightarrow> Inr row)"
  by (simp add: sql_first_def followed_def sql_find_def raise_def give_def split: list.splits)

lemma sql_first_one:
  assumes "cd_faults d = []" "keys_ok (tb_clash T C) (tb_get T d)" "row \<in> set (tb_get T d)" "P row"
    "\<And>a b. P a \<Longrightarrow> P b \<Longrightarrow> tb_clash T C a b"
  shows "sql_first T key P d = (d, Inr row)"
  using filter_one [OF assms(2,3), of P] assms(4,5) by (simp add: sql_first_eq [OF assms(1)] insort_key_def)

lemma sql_first_none:
  "cd_faults d = [] \<Longrightarrow> (\<And>row. row \<in> set (tb_get T d) \<Longrightarrow> \<not> P row) \<Longrightarrow> sql_first T key P d = (d, Inl ErrNoRows)"
  using sort_key_simps(1) [of key] by (simp add: sql_first_eq filter_False)

lemma sql_first_some:
  assumes "cd_faults d = []" "sql_first T key P d = (d', Inr row)"
  shows "d' = d \<and> row \<in> set (tb_get T d) \<and> P row"
proof (cases "sort_key key (filter P (tb_get T d))")
  case Nil
  then show ?thesis using assms(2) unfolding sql_first_eq [OF assms(1)] by simp
next
  case (Cons r rest)
  then have "r \<in> set (sort_key key (filter P (tb_get T d)))" by simp
  then have "r \<in> set (tb_get T d) \<and> P r" by simp
  with Cons show ?thesis using assms(2) unfolding sql_first_eq [OF assms(1)] by simp
qed

text \<open>Whatever statements fail: a query answers with an error, or with a row of the table that satisfies the condition, and an update that
  succeeds has changed the rows that satisfy its condition.\<close>

lemma sql_first_Inr:
  assumes "sql_first T key P d = (d', Inr row)"
  shows "row \<in> set (tb_get T d) \<and> P row"
proof -
  obtain rows where rows: "snd (sql_find T P d) = Inr rows" "sort_key key rows \<noteq> []" "row = hd (sort_key key rows)"
    using assms by (auto simp: sql_first_def followed_def raise_def give_def split: prod.splits sum.splits list.splits)
  have "rows = filter P (tb_get T d)"
    using rows(1) statement_cases [of "\<lambda>d. (d, Inr (filter P (tb_get T d)))" d] by (auto simp: sql_find_def get_faults)
  moreover have "row \<in> set rows" using hd_in_set [OF rows(2)] rows(3) by simp
  ultimately show ?thesis by simp
qed

lemma set_rows_Inr: "set_rows C T rows x d = (d', Inr y) \<Longrightarrow> tb_get T d' = rows \<and> d' = tb_update T (\<lambda>_. rows) d \<and> y = x"
  by (auto simp: set_rows_def get_update split: if_splits)

lemma sql_update_Inr:
  assumes "sql_update C T P f d = (d', Inr n)"
  shows "tb_get T d' = map (\<lambda>row. if P row then f row else row) (tb_get T d)"
proof -
  let ?m = "\<lambda>d. set_rows C T (map (\<lambda>row. if P row then f row else row) (tb_get T d))
    (length (filter (\<lambda>row. P row \<and> (co_found_rows C \<or> f row \<noteq> row)) (tb_get T d))) d"
  have m: "statement ?m d = (d', Inr n)" using assms by (simp add: sql_update_def)
  have ok: "?m e = (d', Inr n) \<Longrightarrow> tb_get T d' = map (\<lambda>row. if P row then f row else row) (tb_get T e)" for e
    by (erule set_rows_Inr [THEN conjunct1])
  from statement_cases [of ?m d] show ?thesis
  proof (elim disjE exE)
    assume "statement ?m d = ?m d"
    with m show ?thesis by (intro ok) (simp only:)
  next
    fix faults
    assume "statement ?m d = ?m (d\<lparr>cd_faults := faults\<rparr>)"
    with m have "?m (d\<lparr>cd_faults := faults\<rparr>) = (d', Inr n)" by (simp only:)
    from ok [OF this] show ?thesis by (simp only: get_faults)
  next
    fix faults
    assume "statement ?m d = (d\<lparr>cd_faults := faults\<rparr>, Inl db_error)"
    with m show ?thesis by simp
  qed
qed

text \<open>An update of columns that are in no key, or that changes no key in effect, succeeds.\<close>

lemma sql_update_eq:
  assumes "cd_faults d = []" "keys_ok (tb_clash T C) (tb_get T d)"
    "\<And>a b. tb_clash T C (if P a then f a else a) (if P b then f b else b) = tb_clash T C a b"
  shows "sql_update C T P f d = (tb_update T (\<lambda>_. map (\<lambda>row. if P row then f row else row) (tb_get T d)) d,
    Inr (length (filter (\<lambda>row. P row \<and> (co_found_rows C \<or> f row \<noteq> row)) (tb_get T d))))"
  using keys_ok_map [of "tb_clash T C" "\<lambda>row. if P row then f row else row", OF assms(3)] assms(1,2)
  by (simp add: sql_update_def set_rows_def)

lemma sql_insert_auto_eq:
  assumes "cd_faults d = []" "d1 = d\<lparr>cd_next := (cd_next d)(auto := cd_next d auto + 1)\<rparr>" "row = mk (cd_next d auto)"
  shows "sql_insert_auto C T auto mk d = set_rows C T (tb_get T d1 @ [row]) row d1"
  using assms by (simp add: sql_insert_auto_def Let_def)

end

lemmas table_defs = meta_table_def system_settings_def devices_table_def device_product_states_def forward_rules_def sessions_table_def audit_events_def
  tunnel_states_def admin_refresh_tokens_def admin_users_def virtual_networks_def virtual_addresses_def virtual_device_keys_def virtual_device_groups_def
  virtual_device_group_members_def virtual_acl_rules_def virtual_routes_def virtual_peer_states_def virtual_peer_path_events_def virtual_learned_paths_def

interpretation meta: sql_table meta_table by unfold_locales (auto simp: table_defs same_def)
interpretation settings: sql_table system_settings by unfold_locales (auto simp: table_defs same_def)
interpretation devices: sql_table devices_table by unfold_locales (auto simp: table_defs same_def)
interpretation products: sql_table device_product_states by unfold_locales (auto simp: table_defs same_def)
interpretation rules: sql_table forward_rules by unfold_locales (auto simp: table_defs same_def)
interpretation sessions: sql_table sessions_table by unfold_locales (auto simp: table_defs same_def)
interpretation audit: sql_table audit_events by unfold_locales (auto simp: table_defs same_def)
interpretation tunnels: sql_table tunnel_states by unfold_locales (auto simp: table_defs same_def)
interpretation tokens: sql_table admin_refresh_tokens by unfold_locales (auto simp: table_defs same_def)
interpretation users: sql_table admin_users by unfold_locales (auto simp: table_defs same_def)
interpretation networks: sql_table virtual_networks by unfold_locales (auto simp: table_defs same_def)
interpretation addresses: sql_table virtual_addresses by unfold_locales (auto simp: table_defs same_def split: option.splits)
interpretation keys: sql_table virtual_device_keys by unfold_locales (auto simp: table_defs same_def)
interpretation groups: sql_table virtual_device_groups by unfold_locales (auto simp: table_defs same_def)
interpretation members: sql_table virtual_device_group_members by unfold_locales (auto simp: table_defs same_def)
interpretation acl: sql_table virtual_acl_rules by unfold_locales (auto simp: table_defs same_def)
interpretation routes: sql_table virtual_routes by unfold_locales (auto simp: table_defs same_def)
interpretation peers: sql_table virtual_peer_states by unfold_locales (auto simp: table_defs same_def)
interpretation events: sql_table virtual_peer_path_events by unfold_locales (auto simp: table_defs same_def)
interpretation learned: sql_table virtual_learned_paths by unfold_locales (auto simp: table_defs same_def)

end
