(* ===== verification/AdminSessions.thy ===== *)
theory AdminSessions
  imports ControlStore Machine "HOL-Library.Countable"
begin

text \<open>
  The life of the sessions of an administrator over the control database: what the handlers of \<^verbatim>\<open>internal/server/auth_jwt.go\<close> and
  \<^verbatim>\<open>handleChangePassword\<close> do when their store is \<^verbatim>\<open>internal/controlstore\<close>.

  \<^item> \<open>admin_contract\<close> is what the handlers rely on: a relation between states of the database that every operation keeps.
  \<^item> \<open>forward\<close> is such a relation: rows of administrators and tokens stay, a revoked token stays revoked, and the version of a
    password never decreases.
  \<^item> \<open>admin_step\<close> is one request, or the loss of the connection for some of the next statements.
\<close>

section \<open>What every request keeps\<close>

definition keeps :: "('db \<Rightarrow> 'db \<Rightarrow> bool) \<Rightarrow> ('db, 'a) action \<Rightarrow> bool" where
  "keeps R m \<longleftrightarrow> (\<forall>d d' res. m d = Some (d', res) \<longrightarrow> R d d')"

text \<open>A relation that is kept by the parts of an action is kept by the action.\<close>

locale kept_relation =
  fixes R :: "'db \<Rightarrow> 'db \<Rightarrow> bool"
  assumes refl: "R d d"
    and trans: "R d d1 \<Longrightarrow> R d1 d2 \<Longrightarrow> R d d2"
begin

lemma keeps_call: "(\<And>d. R d (fst (m d))) \<Longrightarrow> keeps R (call m)"
  by (simp add: keeps_def call_def) (metis fst_conv)

lemma keeps_simple: "keeps R (ret x)" "keeps R (fail e)"
  by (simp_all add: keeps_def ret_def fail_def refl)

lemma keeps_andThen: "keeps R m \<Longrightarrow> (\<And>x. keeps R (f x)) \<Longrightarrow> keeps R (andThen m f)"
  unfolding keeps_def andThen_def by (simp split: option.splits sum.splits prod.splits) (meson trans)

lemma keeps_onResult: "keeps R m \<Longrightarrow> (\<And>res. keeps R (f res)) \<Longrightarrow> keeps R (onResult m f)"
  unfolding keeps_def onResult_def by (simp split: option.splits prod.splits) (meson trans)

lemma keeps_ignore: "(\<And>d. R d (fst (m d))) \<Longrightarrow> keeps R (ignore m)"
  unfolding ignore_def by (intro keeps_onResult keeps_call keeps_simple)

lemma keeps_cases:
  "(b \<Longrightarrow> keeps R m) \<Longrightarrow> (\<not> b \<Longrightarrow> keeps R m') \<Longrightarrow> keeps R (if b then m else m')"
  "(\<And>e. keeps R (f e)) \<Longrightarrow> (\<And>x. keeps R (g x)) \<Longrightarrow> keeps R (case s of Inl e \<Rightarrow> f e | Inr x \<Rightarrow> g x)"
  "keeps R n \<Longrightarrow> (\<And>x. keeps R (h x)) \<Longrightarrow> keeps R (case opt of None \<Rightarrow> n | Some x \<Rightarrow> h x)"
  "(\<And>a b. keeps R (k a b)) \<Longrightarrow> keeps R (case p of (a, b) \<Rightarrow> k a b)"
  by (auto split: sum.splits option.splits prod.splits)

lemma keeps_check: "keeps R (check e)" "keeps R (result res)"
  by (simp_all add: keeps_def check_def result_def refl)

lemmas keeps_rules = keeps_simple keeps_check keeps_andThen keeps_onResult keeps_cases keeps_call keeps_ignore

end

locale admin_contract = kept_relation R
  for R :: "'db \<Rightarrow> 'db \<Rightarrow> bool" +
  fixes S :: "'db admin_store"
  assumes by_username: "R d (fst (ad_GetAdminUserByUsername S username d))"
    and by_id: "R d (fst (ad_GetAdminUserByID S i d))"
    and update_password: "R d (fst (ad_UpdateAdminPassword S i hash d))"
    and clear_required: "R d (fst (ad_ClearAdminPasswordChangeRequired S i d))"
    and get_token: "R d (fst (ad_GetAdminRefreshToken S hash d))"
    and create_token: "R d (fst (ad_CreateAdminRefreshToken S i hash t agent ip d))"
    and touch_token: "R d (fst (ad_TouchAdminRefreshToken S n d))"
    and revoke_token: "R d (fst (ad_RevokeAdminRefreshToken S hash d))"
    and revoke_user: "R d (fst (ad_RevokeAdminRefreshTokensByUser S i d))"
begin

lemmas contract_rules = keeps_rules
  by_username by_id update_password clear_required get_token create_token touch_token revoke_token revoke_user

lemma issue_keeps: "keeps R (issueAdminTokenPair E cfg S now rnd r user)"
  unfolding issueAdminTokenPair_def Let_def by (intro contract_rules)

lemma login_keeps: "keeps R (handleAdminLogin E cfg S now rnd r body)"
  unfolding handleAdminLogin_def Let_def by (intro contract_rules issue_keeps)

lemma refresh_keeps: "keeps R (handleAdminRefresh E cfg S now rnd r body')"
  unfolding handleAdminRefresh_def Let_def by (intro contract_rules issue_keeps)

lemma logout_keeps: "keeps R (handleAdminLogout E S r token)"
  unfolding handleAdminLogout_def by (intro contract_rules)

lemma require_keeps: "keeps R (requireAdmin E cfg S unix r)"
  unfolding requireAdmin_def Let_def by (intro contract_rules)

lemma me_keeps: "keeps R (handleAdminMe S claims)"
  unfolding handleAdminMe_def by (intro contract_rules)

lemma change_keeps: "keeps R (handleChangePassword E S r claims body)"
  unfolding handleChangePassword_def by (intro contract_rules)

end

section \<open>The database moves forward\<close>

type_synonym weights = "string \<Rightarrow> nat list"

definition auth_ok :: "weights \<Rightarrow> control_db \<Rightarrow> bool" where
  "auth_ok W d \<longleftrightarrow> keys_ok (\<lambda>a b. tk_ID a = tk_ID b \<or> W (tk_TokenHash a) = W (tk_TokenHash b)) (cd_tokens d)
     \<and> keys_ok (\<lambda>a b. W (us_ID a) = W (us_ID b) \<or> W (us_Username a) = W (us_Username b)) (cd_users d)"

definition token_kept :: "weights \<Rightarrow> AdminRefreshToken_row \<Rightarrow> AdminRefreshToken_row \<Rightarrow> bool" where
  "token_kept W row row' \<longleftrightarrow> tk_ID row' = tk_ID row \<and> tk_TokenHash row' = tk_TokenHash row \<and> tk_UserID row' = tk_UserID row
     \<and> (W (tk_RevokedAt row) \<noteq> W '''' \<longrightarrow> W (tk_RevokedAt row') \<noteq> W '''')"

definition user_kept :: "AdminUser_row \<Rightarrow> AdminUser_row \<Rightarrow> bool" where
  "user_kept row row' \<longleftrightarrow> us_ID row' = us_ID row \<and> us_Username row' = us_Username row \<and> us_PasswordVersion row \<le> us_PasswordVersion row'"

definition forward :: "weights \<Rightarrow> control_db \<Rightarrow> control_db \<Rightarrow> bool" where
  "forward W d d' \<longleftrightarrow> (auth_ok W d \<longrightarrow> auth_ok W d'
     \<and> (\<forall>row \<in> set (cd_tokens d). \<exists>row' \<in> set (cd_tokens d'). token_kept W row row')
     \<and> (\<forall>row \<in> set (cd_users d). \<exists>row' \<in> set (cd_users d'). user_kept row row'))"

lemma token_kept_refl [simp]: "token_kept W row row"
  by (simp add: token_kept_def)

lemma user_kept_refl [simp]: "user_kept row row"
  by (simp add: user_kept_def)

lemma kept_trans:
  "token_kept W a b \<Longrightarrow> token_kept W b c \<Longrightarrow> token_kept W a c" "user_kept u v \<Longrightarrow> user_kept v w \<Longrightarrow> user_kept u w"
  by (auto simp: token_kept_def user_kept_def)

lemma forward_same: "cd_tokens d' = cd_tokens d \<Longrightarrow> cd_users d' = cd_users d \<Longrightarrow> forward W d d'"
  unfolding forward_def auth_ok_def by (auto intro: token_kept_refl user_kept_refl)

lemma forward_trans: "forward W d d1 \<Longrightarrow> forward W d1 d2 \<Longrightarrow> forward W d d2"
  unfolding forward_def using kept_trans by meson

lemma forward_statement: "(\<And>d. forward W d (fst (m d))) \<Longrightarrow> forward W d (fst (statement m d))"
  using forward_trans [of W d "d\<lparr>cd_faults := f\<rparr>" for f] forward_same [of "d\<lparr>cd_faults := f\<rparr>" d for f]
  by (auto simp: statement_def Let_def split: list.splits)

lemma forward_followed: "(\<And>d. forward W d (fst (m d))) \<Longrightarrow> (\<And>x d. forward W d (fst (k x d))) \<Longrightarrow> forward W d (fst (followed m k d))"
  by (auto simp: followed_def split: prod.splits sum.splits) (metis forward_trans fst_conv)+

lemma forward_pure [simp]: "forward W d (fst (give x d))" "forward W d (fst (raise e d))"
  by (simp_all add: give_def raise_def forward_same)

lemma forward_find [simp]: "forward W d (fst (sql_find T P d))"
  unfolding sql_find_def by (intro forward_statement) (simp add: forward_same)

lemma forward_first [simp]: "forward W d (fst (sql_first T key P d))"
  unfolding sql_first_def by (intro forward_followed) (auto split: list.splits)

lemma forward_read [simp]: "forward W d (fst (got f (sql_first T key P) d))"
  unfolding got_def by (intro forward_followed) auto

lemma forward_exec: "(\<And>d. forward W d (fst (m d))) \<Longrightarrow> forward W d (fst (exec m d))"
  unfolding exec_def by (intro forward_followed) auto

lemma forward_affecting: "(\<And>d. forward W d (fst (m d))) \<Longrightarrow> forward W d (fst (affecting m d))"
  unfolding affecting_def by (intro forward_followed) auto

lemma kept_refl: "row \<in> set rows \<Longrightarrow> \<exists>row' \<in> set rows. token_kept W row row'" "u \<in> set us \<Longrightarrow> \<exists>u' \<in> set us. user_kept u u'"
  using token_kept_refl user_kept_refl by blast+

lemma forward_set_tokens:
  assumes "\<And>row. row \<in> set (cd_tokens d) \<Longrightarrow> \<exists>row' \<in> set rows. token_kept (co_weight C) row row'"
    and "cd_tokens d1 = cd_tokens d" "cd_users d1 = cd_users d"
  shows "forward (co_weight C) d (fst (set_rows C admin_refresh_tokens rows x d1))"
proof (cases "keys_ok (tb_clash admin_refresh_tokens C) rows")
  case True
  then show ?thesis using assms kept_refl(2) unfolding forward_def auth_ok_def set_rows_def by (simp add: admin_refresh_tokens_def same_def)
qed (simp add: set_rows_def forward_same assms(2,3))

lemma forward_set_users:
  assumes "\<And>row. row \<in> set (cd_users d) \<Longrightarrow> \<exists>row' \<in> set rows. user_kept row row'"
  shows "forward (co_weight C) d (fst (set_rows C admin_users rows x d))"
proof (cases "keys_ok (tb_clash admin_users C) rows")
  case True
  then show ?thesis using assms kept_refl(1) unfolding forward_def auth_ok_def set_rows_def by (simp add: admin_users_def same_def)
qed (simp add: set_rows_def forward_same)

lemma forward_tokens:
  assumes "\<And>row. token_kept (co_weight C) row (f row)"
  shows "forward (co_weight C) d (fst (sql_update C admin_refresh_tokens P f d))"
  unfolding sql_update_def
proof (intro forward_statement forward_set_tokens)
  fix d :: control_db and row
  assume "row \<in> set (cd_tokens d)"
  then show "\<exists>row' \<in> set (map (\<lambda>row. if P row then f row else row) (tb_get admin_refresh_tokens d)). token_kept (co_weight C) row row'"
    by (intro bexI [of _ "if P row then f row else row"]) (simp_all add: assms admin_refresh_tokens_def)
qed simp_all

lemma forward_users:
  assumes "\<And>row. user_kept row (f row)"
  shows "forward (co_weight C) d (fst (sql_update C admin_users P f d))"
  unfolding sql_update_def
proof (intro forward_statement forward_set_users)
  fix d :: control_db and row
  assume "row \<in> set (cd_users d)"
  then show "\<exists>row' \<in> set (map (\<lambda>row. if P row then f row else row) (tb_get admin_users d)). user_kept row row'"
    by (intro bexI [of _ "if P row then f row else row"]) (simp_all add: assms admin_users_def)
qed

lemma forward_new_token: "forward (co_weight C) d (fst (sql_insert_auto C admin_refresh_tokens auto mk d))"
  unfolding sql_insert_auto_def Let_def
  by (intro forward_statement forward_set_tokens) (auto simp: admin_refresh_tokens_def Bex_def)

text \<open>A revocation changes only the tokens that are not revoked.\<close>

lemma sql_update_cong: "(\<And>row. P row \<Longrightarrow> f row = g row) \<Longrightarrow> sql_update C T P f = sql_update C T P g"
  by (simp add: sql_update_def cong: if_cong filter_cong conj_cong)

lemma forward_revoke: "forward (co_weight C) d (fst (revoke_where C P d))"
proof -
  let ?f = "\<lambda>row. if same C (tk_RevokedAt row) '''' then row\<lparr>tk_RevokedAt := co_now C\<rparr> else row"
  have "sql_update C admin_refresh_tokens (\<lambda>row. P row \<and> same C (tk_RevokedAt row) '''') (\<lambda>row. row\<lparr>tk_RevokedAt := co_now C\<rparr>)
      = sql_update C admin_refresh_tokens (\<lambda>row. P row \<and> same C (tk_RevokedAt row) '''') ?f"
    by (rule sql_update_cong) simp
  moreover have "token_kept (co_weight C) row (?f row)" for row by (simp add: token_kept_def same_def)
  ultimately show ?thesis unfolding revoke_where_def by (simp add: forward_exec forward_tokens)
qed

interpretation control: admin_contract "forward (co_weight C)" "control_admin C" for C
proof unfold_locales
  show "forward (co_weight C) d d" for d by (simp add: forward_same)
  show "forward (co_weight C) d d1 \<Longrightarrow> forward (co_weight C) d1 d2 \<Longrightarrow> forward (co_weight C) d d2" for d d1 d2 by (rule forward_trans)
  show "forward (co_weight C) d (fst (ad_GetAdminUserByUsername (control_admin C) username d))" for d username
    by (simp add: GetAdminUserByUsername_def)
  show "forward (co_weight C) d (fst (ad_GetAdminUserByID (control_admin C) i d))" for d i
    by (simp add: GetAdminUserByID_def)
  show "forward (co_weight C) d (fst (ad_GetAdminRefreshToken (control_admin C) hash d))" for d hash
    by (simp add: GetAdminRefreshToken_def)
  show "forward (co_weight C) d (fst (ad_UpdateAdminPassword (control_admin C) i hash d))" for d i hash
    unfolding control_admin_simps UpdateAdminPassword_def by (intro forward_affecting forward_users) (simp add: user_kept_def)
  show "forward (co_weight C) d (fst (ad_ClearAdminPasswordChangeRequired (control_admin C) i d))" for d i
    unfolding control_admin_simps ClearAdminPasswordChangeRequired_def by (intro forward_affecting forward_users) (simp add: user_kept_def)
  show "forward (co_weight C) d (fst (ad_CreateAdminRefreshToken (control_admin C) i hash t agent ip d))" for d i hash t agent ip
    unfolding control_admin_simps CreateAdminRefreshToken_def by (intro forward_exec forward_new_token)
  show "forward (co_weight C) d (fst (ad_TouchAdminRefreshToken (control_admin C) n d))" for d n
    unfolding control_admin_simps TouchAdminRefreshToken_def by (intro forward_exec forward_tokens) (simp add: token_kept_def)
  show "forward (co_weight C) d (fst (ad_RevokeAdminRefreshToken (control_admin C) hash d))" for d hash
    unfolding control_admin_simps RevokeAdminRefreshToken_def by (simp add: forward_revoke)
  show "forward (co_weight C) d (fst (ad_RevokeAdminRefreshTokensByUser (control_admin C) i d))" for d i
    unfolding control_admin_simps RevokeAdminRefreshTokensByUser_def by (simp add: forward_revoke)
qed

section \<open>Requests in sequence\<close>

text \<open>Whatever requests arrive, from whatever addresses and at whatever times; the collation \<open>W\<close> of the database and the cryptography
  \<open>E\<close> stay the same.  In \<open>outage\<close>, some of the next statements will fail.\<close>

inductive admin_step :: "auth_env \<Rightarrow> weights \<Rightarrow> control_db \<Rightarrow> control_db \<Rightarrow> bool" for E W where
  login: "co_weight C = W \<Longrightarrow> handleAdminLogin E cfg (control_admin C) now rnd r login d = Some (d', res) \<Longrightarrow> admin_step E W d d'"
| refresh: "co_weight C = W \<Longrightarrow> handleAdminRefresh E cfg (control_admin C) now rnd r token d = Some (d', res) \<Longrightarrow> admin_step E W d d'"
| logout: "co_weight C = W \<Longrightarrow> handleAdminLogout E (control_admin C) r tok d = Some (d', out) \<Longrightarrow> admin_step E W d d'"
| require: "co_weight C = W \<Longrightarrow> requireAdmin E cfg (control_admin C) unix r d = Some (d', auth) \<Longrightarrow> admin_step E W d d'"
| me: "co_weight C = W \<Longrightarrow> handleAdminMe (control_admin C) claims d = Some (d', user) \<Longrightarrow> admin_step E W d d'"
| change: "co_weight C = W \<Longrightarrow> handleChangePassword E (control_admin C) r claims body d = Some (d', changed) \<Longrightarrow> admin_step E W d d'"
| outage: "admin_step E W d (d\<lparr>cd_faults := faults\<rparr>)"

lemma keepsD: "keeps R m \<Longrightarrow> m d = Some (d', res) \<Longrightarrow> R d d'"
  by (auto simp: keeps_def)

lemma admin_step_forward: "admin_step E W d d' \<Longrightarrow> forward W d d'"
proof (induction rule: admin_step.induct)
  case (outage d faults)
  then show ?case by (simp add: forward_same)
qed (auto intro: keepsD [OF control.login_keeps] keepsD [OF control.refresh_keeps] keepsD [OF control.logout_keeps]
       keepsD [OF control.require_keeps] keepsD [OF control.me_keeps] keepsD [OF control.change_keeps])

lemma admin_steps_forward: "(admin_step E W)\<^sup>*\<^sup>* d d' \<Longrightarrow> forward W d d'"
  by (induction rule: rtranclp_induct) (auto intro: forward_same forward_trans admin_step_forward)

text \<open>A token that is revoked and in the table; a password version that is in the past.\<close>

definition spent :: "weights \<Rightarrow> string \<Rightarrow> control_db \<Rightarrow> bool" where
  "spent W hash d \<longleftrightarrow> auth_ok W d \<and> (\<exists>row \<in> set (cd_tokens d). W (tk_TokenHash row) = W hash \<and> W (tk_RevokedAt row) \<noteq> W '''')"

definition outdated :: "weights \<Rightarrow> string \<Rightarrow> int \<Rightarrow> control_db \<Rightarrow> bool" where
  "outdated W i v d \<longleftrightarrow> auth_ok W d \<and> (\<exists>row \<in> set (cd_users d). W (us_ID row) = W i \<and> v < us_PasswordVersion row)"

lemma spent_forward: "spent W hash d \<Longrightarrow> forward W d d' \<Longrightarrow> spent W hash d'"
  unfolding spent_def forward_def token_kept_def by metis

lemma outdated_forward: "outdated W i v d \<Longrightarrow> forward W d d' \<Longrightarrow> outdated W i v d'"
  unfolding outdated_def forward_def user_kept_def by (metis order.strict_trans2)

lemma stored_token:
  assumes "GetAdminRefreshToken C hash d = (d', Inr stored)"
  obtains row where "row \<in> set (cd_tokens d)" "same C (tk_TokenHash row) hash" "stored = AdminRefreshToken_toStore row"
proof -
  obtain row where "sql_first admin_refresh_tokens tk_ID (\<lambda>row. same C (tk_TokenHash row) hash) d = (d', Inr row)" "stored = AdminRefreshToken_toStore row"
    using assms by (auto simp: GetAdminRefreshToken_def got_def followed_def give_def split: prod.splits sum.splits)
  with tokens.sql_first_Inr [OF this(1)] that show thesis by (auto simp: admin_refresh_tokens_def)
qed

lemma stored_user:
  assumes "GetAdminUserByID C i d = (d', Inr user)"
  obtains row where "row \<in> set (cd_users d)" "same C (us_ID row) i" "user = AdminUser_toStore row"
proof -
  obtain row where "sql_first admin_users (co_weight C \<circ> us_ID) (\<lambda>row. same C (us_ID row) i) d = (d', Inr row)" "user = AdminUser_toStore row"
    using assms by (auto simp: GetAdminUserByID_def got_def followed_def give_def split: prod.splits sum.splits)
  with users.sql_first_Inr [OF this(1)] that show thesis by (auto simp: admin_users_def)
qed

text \<open>In a table with unique keys, the row that is found is the one that is known.\<close>

lemma keys_ok_unique: "keys_ok clash rows \<Longrightarrow> a \<in> set rows \<Longrightarrow> b \<in> set rows \<Longrightarrow> clash a b \<Longrightarrow> clash b a \<Longrightarrow> a = b"
  by (induction rows) auto

lemma spent_refused:
  assumes "spent (co_weight C) (hashRefreshToken E token) d"
  shows "\<exists>d' e. handleAdminRefresh E cfg (control_admin C) now rnd r (Some token) d = Some (d', Inl e)"
proof (cases "GetAdminRefreshToken C (hashRefreshToken E token) d")
  case (Pair d' res)
  have "art_RevokedAt stored \<noteq> ''''" if "res = Inr stored" for stored
  proof -
    have get: "GetAdminRefreshToken C (hashRefreshToken E token) d = (d', Inr stored)" using Pair that by simp
    obtain row where row: "row \<in> set (cd_tokens d)" "same C (tk_TokenHash row) (hashRefreshToken E token)" "stored = AdminRefreshToken_toStore row"
      by (rule stored_token [OF get])
    obtain old where "old \<in> set (cd_tokens d)" "co_weight C (tk_TokenHash old) = co_weight C (hashRefreshToken E token)"
      "co_weight C (tk_RevokedAt old) \<noteq> co_weight C ''''" "auth_ok (co_weight C) d" using assms by (auto simp: spent_def)
    moreover from this have "row = old" using row(1,2) keys_ok_unique [of _ "cd_tokens d" row old] by (auto simp: auth_ok_def same_def)
    ultimately show ?thesis using row(3) by (auto simp: AdminRefreshToken_toStore_def)
  qed
  with Pair show ?thesis
    by (auto simp: handleAdminRefresh_def Let_def fail_def onResult_def call_def split: sum.splits)
qed

lemma outdated_refused:
  assumes "outdated (co_weight C) i v d" "co_weight C (cl_Subject claims) = co_weight C i" "cl_PasswordVersion claims \<le> v"
  shows "requireAdmin E cfg (control_admin C) unix r d \<noteq> Some (d', Inr claims)"
proof
  assume "requireAdmin E cfg (control_admin C) unix r d = Some (d', Inr claims)"
  then obtain user where u: "GetAdminUserByID C (cl_Subject claims) d = (d', Inr user)" "au_PasswordVersion user = cl_PasswordVersion claims"
    by (auto simp: requireAdmin_iff)
  obtain row where row: "row \<in> set (cd_users d)" "same C (us_ID row) (cl_Subject claims)" "user = AdminUser_toStore row" using stored_user [OF u(1)] .
  obtain old where "old \<in> set (cd_users d)" "co_weight C (us_ID old) = co_weight C i" "v < us_PasswordVersion old" "auth_ok (co_weight C) d"
    using assms(1) by (auto simp: outdated_def)
  moreover from this have "row = old" using row(1,2) assms(2) keys_ok_unique [of _ "cd_users d" row old] by (auto simp: auth_ok_def same_def)
  ultimately show False using row(3) u(2) assms(3) by (simp add: AdminUser_toStore_def)
qed

text \<open>A revocation that is carried out revokes what it selects.\<close>

lemma revoked_all:
  assumes "revoke_where C P d = (d', Inr x)" "co_weight C (co_now C) \<noteq> co_weight C ''''"
    and "auth_ok (co_weight C) d" "row \<in> set (cd_tokens d)" "P row"
  shows "spent (co_weight C) (tk_TokenHash row) d'"
proof -
  let ?Q = "\<lambda>row. P row \<and> same C (tk_RevokedAt row) ''''"
  let ?g = "\<lambda>row. if ?Q row then row\<lparr>tk_RevokedAt := co_now C\<rparr> else row"
  have ok: "auth_ok (co_weight C) d'" using forward_revoke [of C d P] assms(1,3) by (simp add: forward_def)
  obtain n where n: "sql_update C admin_refresh_tokens ?Q (\<lambda>row. row\<lparr>tk_RevokedAt := co_now C\<rparr>) d = (d', Inr n)"
    using assms(1) by (auto simp: revoke_where_def exec_def followed_def give_def split: prod.splits sum.splits)
  have "cd_tokens d' = map ?g (cd_tokens d)" using tokens.sql_update_Inr [OF n] by (simp add: admin_refresh_tokens_def)
  moreover define row' where "row' = ?g row"
  ultimately have "row' \<in> set (cd_tokens d')" using assms(4) by simp
  moreover have "co_weight C (tk_RevokedAt row') \<noteq> co_weight C ''''" using assms(2,5) by (simp add: same_def row'_def)
  moreover have "tk_TokenHash row' = tk_TokenHash row" by (simp add: row'_def)
  ultimately show ?thesis unfolding spent_def using ok by (auto intro: bexI [of _ row'])
qed

lemma auth_tables:
  "auth_ok (co_weight C) d \<longleftrightarrow> keys_ok (tb_clash admin_refresh_tokens C) (tb_get admin_refresh_tokens d)
     \<and> keys_ok (tb_clash admin_users C) (tb_get admin_users d)"
  by (simp add: auth_ok_def admin_refresh_tokens_def admin_users_def same_def)

text \<open>While the connection holds, touching and revoking tokens succeed.\<close>

lemma token_update_ok:
  assumes "cd_faults d = []" "auth_ok (co_weight C) d" "\<And>row. tk_ID (f row) = tk_ID row \<and> tk_TokenHash (f row) = tk_TokenHash row"
  shows "\<exists>d' n. sql_update C admin_refresh_tokens P f d = (d', Inr n) \<and> cd_faults d' = []"
proof -
  have "tb_clash admin_refresh_tokens C (if P a then f a else a) (if P b then f b else b) = tb_clash admin_refresh_tokens C a b" for a b
    using assms(3) by (simp add: admin_refresh_tokens_def)
  from tokens.sql_update_eq [OF assms(1) _ this] assms(1,2) show ?thesis by (auto simp: auth_tables tokens.faults_update)
qed

lemma touch_ok:
  assumes "cd_faults d = []" "auth_ok (co_weight C) d"
  obtains d' where "TouchAdminRefreshToken C i d = (d', Inr ())" "cd_faults d' = []"
  using token_update_ok [OF assms, of "\<lambda>row. row\<lparr>tk_LastUsedAt := co_now C\<rparr>" "\<lambda>row. tk_ID row = i"]
  by (auto simp: TouchAdminRefreshToken_def exec_def followed_def give_def)

lemma revoke_ok:
  assumes "cd_faults d = []" "auth_ok (co_weight C) d"
  obtains d' where "revoke_where C P d = (d', Inr ())" "cd_faults d' = []"
  using token_update_ok [OF assms, of "\<lambda>row. row\<lparr>tk_RevokedAt := co_now C\<rparr>" "\<lambda>row. P row \<and> same C (tk_RevokedAt row) ''''"]
  by (auto simp: revoke_where_def exec_def followed_def give_def)

lemma refresh_spends:
  assumes "auth_ok (co_weight C) d" "cd_faults d = []" "co_weight C (co_now C) \<noteq> co_weight C ''''"
    and "handleAdminRefresh E cfg (control_admin C) now rnd r (Some token) d = Some (d1, Inr resp)"
  shows "spent (co_weight C) (hashRefreshToken E token) d1"
proof -
  let ?h = "hashRefreshToken E token"
  have pure: "GetAdminRefreshToken C ?h d = (d, snd (GetAdminRefreshToken C ?h d))"
    using assms(2) by (simp add: GetAdminRefreshToken_def got_def followed_def tokens.sql_first_eq give_def split: list.splits)
  then obtain stored where get: "GetAdminRefreshToken C ?h d = (d, Inr stored)"
    using assms(4) unfolding handleAdminRefresh_def
    by (cases "snd (GetAdminRefreshToken C ?h d)") (auto simp: Let_def fail_def onResult_def call_def split: if_splits)
  obtain row where row: "row \<in> set (cd_tokens d)" "same C (tk_TokenHash row) ?h" by (rule stored_token [OF get])
  obtain dT where touch: "TouchAdminRefreshToken C (art_ID stored) d = (dT, Inr ())" "cd_faults dT = []" by (rule touch_ok [OF assms(2,1)])
  have fT: "forward (co_weight C) d dT" using control.touch_token [of C d "art_ID stored"] touch(1) by simp
  then obtain row' where row': "row' \<in> set (cd_tokens dT)" "tk_TokenHash row' = tk_TokenHash row" and okT: "auth_ok (co_weight C) dT"
    using assms(1) row(1) unfolding forward_def token_kept_def by blast
  obtain dR where rev: "revoke_where C (\<lambda>row. same C (tk_TokenHash row) ?h) dT = (dR, Inr ())" "cd_faults dR = []" by (rule revoke_ok [OF touch(2) okT])
  have "spent (co_weight C) (tk_TokenHash row') dR"
    by (rule revoked_all [OF rev(1) assms(3) okT row'(1)]) (simp add: row' row(2))
  then have sp: "spent (co_weight C) ?h dR" using row(2) row'(2) by (simp add: spent_def same_def)
  let ?rest = "onResult (call (ad_GetAdminUserByID (control_admin C) (art_UserID stored))) (\<lambda>res. case res of
    Inl _ \<Rightarrow> fail denied | Inr user \<Rightarrow> issueAdminTokenPair E cfg (control_admin C) now rnd r user)"
  have eq: "?rest dR = Some (d1, Inr resp)"
    using assms(4) get touch(1) rev(1) unfolding handleAdminRefresh_def
    by (auto simp: Let_def fail_def ignore_def ret_def onResult_def call_def andThen_def RevokeAdminRefreshToken_def split: if_splits prod.splits)
  have k: "keeps (forward (co_weight C)) ?rest" by (intro control.contract_rules control.issue_keeps)
  show ?thesis by (rule spent_forward [OF sp keepsD [OF k eq]])
qed


lemma password_updated:
  assumes "UpdateAdminPassword C i hash d = (d', Inr ())" "auth_ok (co_weight C) d" "row \<in> set (cd_users d)" "same C (us_ID row) i"
  shows "outdated (co_weight C) i (us_PasswordVersion row) d'"
proof -
  obtain n where n: "sql_update C admin_users (\<lambda>row. same C (us_ID row) i) (\<lambda>row. row\<lparr>us_PasswordHash := hash,
      us_PasswordVersion := us_PasswordVersion row + 1, us_UpdatedAt := co_now C\<rparr>) d = (d', Inr n)"
    using assms(1) by (auto simp: UpdateAdminPassword_def affecting_def followed_def give_def raise_def split: prod.splits sum.splits if_splits)
  define row' where "row' = row\<lparr>us_PasswordHash := hash, us_PasswordVersion := us_PasswordVersion row + 1, us_UpdatedAt := co_now C\<rparr>"
  have "row' \<in> set (cd_users d')" using users.sql_update_Inr [OF n] assms(3,4) by (force simp: admin_users_def row'_def)
  moreover have "co_weight C (us_ID row') = co_weight C i" "us_PasswordVersion row < us_PasswordVersion row'"
    using assms(4) by (simp_all add: row'_def same_def)
  moreover have "auth_ok (co_weight C) d'" using control.update_password [of C d i hash] assms(1,2) by (simp add: forward_def)
  ultimately show ?thesis unfolding outdated_def by blast
qed

text \<open>The three statements of a change that succeeds.\<close>

lemma change_steps:
  assumes "handleChangePassword E (control_admin C) r claims body d = Some (d1, Inr ())"
  obtains user hash d0 dU dC where "GetAdminUserByID C (cl_Subject claims) d = (d0, Inr user)" "UpdateAdminPassword C (au_ID user) hash d0 = (dU, Inr ())"
    "ClearAdminPasswordChangeRequired C (au_ID user) dU = (dC, Inr ())"
    "revoke_where C (\<lambda>row. same C (tk_UserID row) (au_ID user)) dC = (d1, Inr ())"
  using assms unfolding handleChangePassword_def
  by (auto simp: fail_def andThen_Inr call_eq RevokeAdminRefreshTokensByUser_def call_def split: if_splits option.splits prod.splits)


lemma users_clash:
  assumes "\<And>row. us_ID (h row) = us_ID row \<and> us_Username (h row) = us_Username row"
  shows "tb_clash admin_users C (if P a then h a else a) (if P b then h b else b) = tb_clash admin_users C a b"
  using assms by (simp add: admin_users_def)

lemma UpdateAdminPassword_eq:
  assumes "cd_faults d = []" "auth_ok (co_weight C) d" "admin \<in> set (cd_users d)" "\<not> co_found_rows C"
  shows "UpdateAdminPassword C (us_ID admin) hash d = (d\<lparr>cd_users := map (\<lambda>row. if same C (us_ID row) (us_ID admin) then
    row\<lparr>us_PasswordHash := hash, us_PasswordVersion := us_PasswordVersion row + 1, us_UpdatedAt := co_now C\<rparr> else row) (cd_users d)\<rparr>, Inr ())"
proof -
  let ?P = "\<lambda>row. same C (us_ID row) (us_ID admin)"
  let ?f = "\<lambda>row. row\<lparr>us_PasswordHash := hash, us_PasswordVersion := us_PasswordVersion row + 1, us_UpdatedAt := co_now C\<rparr>"
  have "?f admin \<noteq> admin" by (cases admin) simp
  then have "filter (\<lambda>row. ?P row \<and> ?f row \<noteq> row) (cd_users d) \<noteq> []" using assms(3) by (auto simp: filter_empty_conv intro: bexI [of _ admin])
  moreover have "keys_ok (tb_clash admin_users C) (tb_get admin_users d)" using assms(2) by (simp add: auth_tables)
  ultimately show ?thesis
    using users.sql_update_eq [OF assms(1), of C ?P ?f, OF _ users_clash] assms(4)
    by (simp add: UpdateAdminPassword_def affecting_def followed_def give_def admin_users_def)
qed

lemma clear_flag_again:
  assumes "cd_faults d = []" "auth_ok (co_weight C) d" "\<not> co_found_rows C"
    and "\<And>row. row \<in> set (cd_users d) \<Longrightarrow> same C (us_ID row) i \<Longrightarrow> \<not> us_ForcePasswordChange row \<and> us_UpdatedAt row = co_now C"
  shows "ClearAdminPasswordChangeRequired C i d = (d, Inl ErrNoRows)"
proof -
  let ?P = "\<lambda>row. same C (us_ID row) i"
  let ?g = "\<lambda>row. row\<lparr>us_ForcePasswordChange := False, us_UpdatedAt := co_now C\<rparr>"
  have still: "?g row = row" if "\<not> us_ForcePasswordChange row \<and> us_UpdatedAt row = co_now C" for row
    using that by (cases row) simp
  then have none: "filter (\<lambda>row. ?P row \<and> ?g row \<noteq> row) (cd_users d) = []" using assms(4) by (simp add: filter_empty_conv)
  have "map (\<lambda>row. if ?P row then ?g row else row) (cd_users d) = cd_users d" using still assms(4) by (intro map_idI) simp
  moreover have "keys_ok (tb_clash admin_users C) (tb_get admin_users d)" using assms(2) by (simp add: auth_tables)
  ultimately show ?thesis
    using users.sql_update_eq [OF assms(1), of C ?P ?g, OF _ users_clash] assms(3) none
    by (simp add: ClearAdminPasswordChangeRequired_def affecting_def followed_def raise_def admin_users_def)
qed

text \<open>C36. Except for the first change of the password, a change is carried out and then reported as ``not found'', and the other sessions are not
  ended: on a connection that counts changed rows, as the documented data source name makes it, the second statement, clearing the
  flag that demands a new password, changes nothing within the second of the first, since the flag is already cleared; its
  \<^verbatim>\<open>RowsAffected\<close> of zero is taken for a missing administrator.\<close>

theorem later_password_change_not_found:
  assumes "auth_ok (co_weight C) d" "cd_faults d = []" "\<not> co_found_rows C"
    and "admin \<in> set (cd_users d)" "same C (us_ID admin) (cl_Subject claims)" "\<not> us_ForcePasswordChange admin"
    and "r_Method r = ''POST''" "8 \<le> length new" "cl_PasswordVersion claims = us_PasswordVersion admin"
    and "ev_compare E (us_PasswordHash admin) current" "ev_generate E new = Some hash"
  shows "\<exists>d1. respond (handleChangePassword E (control_admin C) r claims (Some (current, new))) d
           = Some (d1, Failed 404 ''internal_error'' ''sql: no rows in result set'')
       \<and> cd_tokens d1 = cd_tokens d
       \<and> admin\<lparr>us_PasswordHash := hash, us_PasswordVersion := us_PasswordVersion admin + 1, us_UpdatedAt := co_now C\<rparr> \<in> set (cd_users d1)"
proof -
  let ?f = "\<lambda>row. row\<lparr>us_PasswordHash := hash, us_PasswordVersion := us_PasswordVersion row + 1, us_UpdatedAt := co_now C\<rparr>"
  let ?c = "tb_clash admin_users C"
  have keys: "keys_ok ?c (tb_get admin_users d)" using assms(1) by (simp add: auth_tables)
  have mem: "admin \<in> set (tb_get admin_users d)" using assms(4) by (simp add: admin_users_def)
  have one: "row = admin" if "row \<in> set (cd_users d)" "same C (us_ID row) (us_ID admin)" for row
    using that assms(4) keys keys_ok_unique [of ?c "tb_get admin_users d" row admin] by (simp add: admin_users_def same_def)
  have get: "GetAdminUserByID C (cl_Subject claims) d = (d, Inr (AdminUser_toStore admin))"
    using users.sql_first_one [OF assms(2) keys mem, where key = "co_weight C \<circ> us_ID" and P = "\<lambda>row. same C (us_ID row) (cl_Subject claims)"] assms(5)
    by (simp add: GetAdminUserByID_def got_def followed_def give_def admin_users_def same_def)
  define dU where "dU = d\<lparr>cd_users := map (\<lambda>row. if same C (us_ID row) (us_ID admin) then ?f row else row) (cd_users d)\<rparr>"
  have upd: "UpdateAdminPassword C (us_ID admin) hash d = (dU, Inr ())"
    unfolding dU_def by (rule UpdateAdminPassword_eq [OF assms(2,1,4,3)])
  have ok: "auth_ok (co_weight C) dU" using control.update_password [of C d "us_ID admin" hash] upd assms(1) by (simp add: forward_def)
  have "ClearAdminPasswordChangeRequired C (us_ID admin) dU = (dU, Inl ErrNoRows)"
    using assms(2,3,6) one by (intro clear_flag_again [OF _ ok]) (auto simp: dU_def split: if_splits dest!: one)
  then have "handleChangePassword E (control_admin C) r claims (Some (current, new)) d = Some (dU, Inl ErrNoRows)"
    using assms(7-11) get upd by (simp add: handleChangePassword_def andThen_def call_def AdminUser_toStore_def)
  then show ?thesis using assms(4) by (force simp: respond_def writeJSONOrError_def dU_def)
qed

section \<open>A small installation\<close>

definition claims_code :: "adminClaims \<Rightarrow> nat" where
  "claims_code c = to_nat (cl_Subject c, cl_Role c, cl_PasswordVersion c, cl_Issued c, cl_Expires c)"

definition code_claims :: "nat \<Rightarrow> adminClaims" where
  "code_claims n = (case from_nat n of (subject, role, version, issued, expires) \<Rightarrow>
     \<lparr>cl_Subject = subject, cl_Role = role, cl_PasswordVersion = version, cl_Issued = issued, cl_Expires = expires\<rparr>)"

definition demo_auth :: auth_env where
  "demo_auth = \<lparr>ev_hmac = (\<lambda>data key. key), ev_sha256 = (\<lambda>b. b), ev_compare = (\<lambda>hash password. hash = password), ev_generate = Some,
     ev_marshal = (\<lambda>c. replicate (claims_code c) 0), ev_unmarshal = (\<lambda>b. Some (code_claims (length b))),
     ev_format = (\<lambda>_. ''t''), ev_parse = (\<lambda>_. Some 10)\<rparr>"

definition demo_control :: control_env where
  "demo_control = \<lparr>co_weight = map of_char, co_like = (\<lambda>_ _. False), co_now = ''now'', co_format = (\<lambda>_. ''t''), co_found_rows = False,
     co_defaults = True, co_marshal = (\<lambda>_. Some ''{}''), co_unmarshal = (\<lambda>_. [])\<rparr>"

definition demo_admin :: "bool \<Rightarrow> AdminUser_row" where
  "demo_admin must_change = \<lparr>us_ID = ''admin'', us_Username = ''admin'', us_Name = '''', us_Role = ''admin'', us_ForcePasswordChange = must_change,
     us_PasswordVersion = 1, us_PasswordHash = ''admin'', us_CreatedAt = '''', us_UpdatedAt = ''''\<rparr>"

definition demo_token :: AdminRefreshToken_row where
  "demo_token = \<lparr>tk_ID = 1, tk_UserID = ''admin'', tk_TokenHash = ''74'', tk_ExpiresAt = ''t'', tk_RevokedAt = '''', tk_CreatedAt = '''',
     tk_LastUsedAt = '''', tk_UserAgent = '''', tk_IP = ''''\<rparr>"

definition empty_db :: control_db where
  "empty_db = \<lparr>cd_meta = [], cd_settings = [], cd_devices = [], cd_products = [], cd_rules = [], cd_sessions = [], cd_audit = [], cd_tunnels = [],
     cd_tokens = [], cd_users = [], cd_networks = [], cd_addresses = [], cd_keys = [], cd_groups = [], cd_members = [], cd_acl = [], cd_routes = [],
     cd_peers = [], cd_events = [], cd_learned = [], cd_next = (\<lambda>_. 7), cd_faults = []\<rparr>"

definition demo_users :: "bool \<Rightarrow> control_db" where
  "demo_users must_change = empty_db\<lparr>cd_users := [demo_admin must_change], cd_tokens := [demo_token]\<rparr>"

definition bearer_request :: "string \<Rightarrow> http_request" where
  "bearer_request auth = \<lparr>r_Method = ''POST'', r_Path = '''', r_Query = (\<lambda>_. ''''), r_RemoteAddr = ''10.0.0.1:5'', r_Host = '''',
     hr_Authorization = auth, hr_PSK = '''', hr_XForwardedFor = '''', hr_UserAgent = ''''\<rparr>"

lemma code_claims [simp]: "code_claims (claims_code c) = c"
  by (simp add: code_claims_def claims_code_def)

lemmas demo_defs = demo_auth_def demo_control_def demo_admin_def demo_token_def empty_db_def demo_users_def bearer_request_def

lemmas statement_defs = got_def followed_def give_def raise_def exec_def affecting_def sql_first_def sql_find_def sql_update_def sql_insert_auto_def
  set_rows_def same_def before_def

lemma demo_ok: "auth_ok (co_weight demo_control) (demo_users b)" "cd_faults (demo_users b) = []"
  by (simp_all add: auth_ok_def demo_defs)

lemma demo_refresh: "\<exists>d1 resp. handleAdminRefresh demo_auth DefaultServer (control_admin demo_control) 0 (Some []) (bearer_request '''') (Some ''t'') (demo_users False) = Some (d1, Inr resp)"
  by (simp add: handleAdminRefresh_def issueAdminTokenPair_def Let_def onResult_def call_def ignore_def andThen_def ret_def fail_def hashRefreshToken_def
      GetAdminRefreshToken_def TouchAdminRefreshToken_def RevokeAdminRefreshToken_def revoke_where_def GetAdminUserByID_def CreateAdminRefreshToken_def
      statement_defs demo_defs admin_refresh_tokens_def admin_users_def AdminRefreshToken_toStore_def AdminUser_toStore_def bytes_of_def
      TrimSpace_plain plain_char_def RawURL_Encode_def)


definition demo_claims :: adminClaims where
  "demo_claims = \<lparr>cl_Subject = ''admin'', cl_Role = ''admin'', cl_PasswordVersion = 1, cl_Issued = 0, cl_Expires = 100\<rparr>"

lemma demo_change: "\<exists>d1. handleChangePassword demo_auth (control_admin demo_control) (bearer_request '''') demo_claims (Some (''admin'', ''password''))
  (demo_users True) = Some (d1, Inr ())"
  by (simp add: handleChangePassword_def andThen_def call_def fail_def GetAdminUserByID_def UpdateAdminPassword_def ClearAdminPasswordChangeRequired_def
      RevokeAdminRefreshTokensByUser_def revoke_where_def statement_defs demo_defs demo_claims_def admin_refresh_tokens_def admin_users_def AdminUser_toStore_def)


theorem later_password_change_not_found_witness:
  "\<exists>d1. respond (handleChangePassword demo_auth (control_admin demo_control) (bearer_request '''') demo_claims (Some (''admin'', ''password''))) (demo_users False)
       = Some (d1, Failed 404 ''internal_error'' ''sql: no rows in result set'') \<and> cd_tokens d1 = cd_tokens (demo_users False)"
proof -
  have "\<exists>d1. respond (handleChangePassword demo_auth (control_admin demo_control) (bearer_request '''') demo_claims (Some (''admin'', ''password'')))
      (demo_users False) = Some (d1, Failed 404 ''internal_error'' ''sql: no rows in result set'') \<and> cd_tokens d1 = cd_tokens (demo_users False)
    \<and> (demo_admin False)\<lparr>us_PasswordHash := ''password'', us_PasswordVersion := us_PasswordVersion (demo_admin False) + 1,
         us_UpdatedAt := co_now demo_control\<rparr> \<in> set (cd_users d1)"
    by (rule later_password_change_not_found [OF demo_ok]) (simp_all add: demo_defs demo_claims_def)
  then show ?thesis by blast
qed

lemma demo_login: "\<exists>d1 resp. handleAdminLogin demo_auth DefaultServer (control_admin demo_control) 0 (Some []) (bearer_request '''') (Some (''admin'', ''admin''))
  (demo_users False) = Some (d1, Inr resp)"
  by (simp add: handleAdminLogin_def issueAdminTokenPair_def Let_def onResult_def call_def andThen_def ret_def fail_def GetAdminUserByUsername_def
      CreateAdminRefreshToken_def statement_defs demo_defs admin_refresh_tokens_def admin_users_def AdminUser_toStore_def hashRefreshToken_def
      TrimSpace_plain plain_char_def RawURL_Encode_def bytes_of_def)

lemma demo_user:
  "GetAdminUserByID demo_control ''admin'' (demo_users False) = (demo_users False, Inr (AdminUser_toStore (demo_admin False)))"
  "GetAdminUserByUsername demo_control ''admin'' (demo_users False) = (demo_users False, Inr (AdminUser_toStore (demo_admin False)))"
  by (simp_all add: GetAdminUserByID_def GetAdminUserByUsername_def statement_defs demo_defs admin_users_def)

theorem login_grants_access_witness:
  "\<exists>d1 resp. handleAdminLogin demo_auth DefaultServer (control_admin demo_control) 0 (Some []) (bearer_request '''') (Some (''admin'', ''admin''))
       (demo_users False) = Some (d1, Inr resp)
     \<and> (\<exists>claims. requireAdmin demo_auth DefaultServer (control_admin demo_control) 5 (bearer_request (''Bearer '' @ tr_AccessToken resp)) (demo_users False)
           = Some (demo_users False, Inr claims) \<and> cl_Subject claims = ''admin'')
     \<and> \<not> (\<exists>claims. requireAdmin demo_auth DefaultServer (control_admin demo_control) 1000000000 (bearer_request (''Bearer '' @ tr_AccessToken resp)) (demo_users False)
           = Some (demo_users False, Inr claims) \<and> cl_Subject claims = ''admin'' \<and> cl_Role claims = ''admin'')"
proof -
  obtain d1 resp where d1: "handleAdminLogin demo_auth DefaultServer (control_admin demo_control) 0 (Some []) (bearer_request '''') (Some (''admin'', ''admin''))
    (demo_users False) = Some (d1, Inr resp)" using demo_login by blast
  have codec: "ev_unmarshal demo_auth (ev_marshal demo_auth c) = Some c" for c by (simp add: demo_auth_def)
  have auth: "hr_Authorization (bearer_request (''Bearer '' @ tr_AccessToken resp)) = ''Bearer '' @ tr_AccessToken resp" by (simp add: bearer_request_def)
  have found: "ad_GetAdminUserByID (control_admin demo_control) ''admin'' (demo_users False) = (demo_users False, Inr (AdminUser_toStore (demo_admin False)))"
    "snd (ad_GetAdminUserByUsername (control_admin demo_control) (if TrimSpace ''admin'' = '''' then defaultAdminUsername else TrimSpace ''admin'') (demo_users False))
       = Inr (AdminUser_toStore (demo_admin False))" "au_ID (AdminUser_toStore (demo_admin False)) = ''admin''"
    "au_Role (AdminUser_toStore (demo_admin False)) = ''admin''"
    using demo_user by (simp_all add: TrimSpace_plain plain_char_def AdminUser_toStore_def demo_admin_def)
  have ttl: "(0 + (if cfg_AdminAccessTokenTTL DefaultServer \<le> 0 then 60 * Minute else cfg_AdminAccessTokenTTL DefaultServer)) div Second = 3600"
    by (simp add: DefaultServer_def Minute_def Second_def Millisecond_def)
  note grants = login_grants_access [OF codec d1 auth found(1) _ found(2,3)]
  show ?thesis using grants [of 5] grants [of 1000000000] d1 ttl found(4) by auto
qed

end
