(* ===== verification/AgentApi.thy ===== *)
theory AgentApi
  imports AdminSessions
begin

text \<open>
  The HTTP interface of the tunnel agents, \<^verbatim>\<open>internal/server/handlers_agent.go\<close>: bootstrap, registration, heartbeats, reports of
  tunnels, rules and releases.

  \<^item> \<open>agent_store\<close> has the operations of \<^verbatim>\<open>controlstore.Store\<close> that the handlers call; \<open>control_agent\<close> is the control database as such a store.
  \<^item> The body of a request arrives decoded: \<open>None\<close> stands for an error of the JSON decoder.
  \<^item> \<open>agent_api\<close> is the group of routes \<^verbatim>\<open>/api/agent\<close> of \<^verbatim>\<open>http.go\<close>, with the check of the key before all but the bootstrap.
\<close>

subsection \<open>Data\<close>

record agentTunnelReport =
  tr_Peer :: string
  tr_Profile :: string
  tr_State :: string
  tr_Via :: string
  tr_NATType :: string
  tr_PublicAddr :: string
  tr_ConvID :: int
  tr_RTTMs :: int
  tr_LastError :: string
  tr_Attempt :: int
  tr_NextRetryAt :: string
  tr_LastTransitionAt :: string

record agentBootstrapResponse =
  ab_DeviceID :: string
  ab_DeviceName :: string
  ab_Server :: string
  ab_ServerHTTP :: string
  ab_PSK :: string
  ab_STUNAltPort :: int
  ab_NoUPnP :: bool
  ab_UPnPTimeout :: string
  ab_LogLevel :: string
  ab_TrayEnabled :: bool
  ab_PunchTimeout :: string
  ab_ForceRelay :: bool
  ab_AllowLegacy :: bool

record clientReleaseResponse =
  rel_Version :: string
  rel_URL :: string
  rel_SHA256 :: string
  rel_PublishedAt :: string
  rel_Notes :: string
  rel_MinimumSupportedVersion :: string

record agent_request =
  aq_DeviceID :: string
  aq_Name :: string
  aq_Addr :: string
  aq_UpnpAddr :: string
  aq_NATType :: string
  aq_Tunnels :: "agentTunnelReport list"

text \<open>The request of \<^verbatim>\<open>/tunnel-status\<close> is one report, with the fields of the device beside it.\<close>

record tunnel_request = agentTunnelReport +
  tq_DeviceID :: string
  tq_Name :: string
  tq_Addr :: string
  tq_UpnpAddr :: string

record web_request = http_request +
  wr_TLS :: bool
  wr_XForwardedProto :: string

record 'db agent_store =
  ag_GetDevice :: "string \<Rightarrow> ('db, Device) store_op"
  ag_UpsertDevice :: "string \<Rightarrow> string \<Rightarrow> string \<Rightarrow> string \<Rightarrow> string \<Rightarrow> bool \<Rightarrow> ('db, unit) store_op"
  ag_RulesForDevice :: "string \<Rightarrow> ('db, ForwardRule list) store_op"
  ag_PutTunnelState :: "TunnelState \<Rightarrow> ('db, unit) store_op"
  ag_UpdateSessionPathForPair :: "string \<Rightarrow> string \<Rightarrow> string \<Rightarrow> string \<Rightarrow> ('db, unit) store_op"
  ag_UpsertDeviceProductState :: "DeviceProductState \<Rightarrow> ('db, unit) store_op"

definition control_agent :: "control_env \<Rightarrow> control_db agent_store" where
  "control_agent C = \<lparr>ag_GetDevice = GetDevice C, ag_UpsertDevice = UpsertDevice C, ag_RulesForDevice = RulesForDevice C,
     ag_PutTunnelState = PutTunnelState C, ag_UpdateSessionPathForPair = UpdateSessionPathForPair C,
     ag_UpsertDeviceProductState = UpsertDeviceProductState C\<rparr>"

definition requestBaseURL :: "web_request \<Rightarrow> string" where
  "requestBaseURL r =
     (let scheme = (if wr_TLS r then ''https'' else ''http'');
          xf = TrimSpace (wr_XForwardedProto r);
          scheme = (if xf \<noteq> '''' then xf else scheme)
      in scheme @ ''://'' @ r_Host r)"

subsection \<open>Reports\<close>

definition utf8 :: "nat list \<Rightarrow> string" where
  "utf8 bs = map char_of bs"

text \<open>The summaries of the health of a device, in UTF-8: no rules; rules but no link; a tunnel works; waiting to retry.\<close>

definition no_rules :: string where "no_rules = utf8 [0xE6, 0x97, 0xA0, 0xE8, 0xA7, 0x84, 0xE5, 0x88, 0x99]"

definition not_linked :: string where
  "not_linked = utf8 [0xE6, 0x9C, 0x89, 0xE8, 0xA7, 0x84, 0xE5, 0x88, 0x99, 0xE4, 0xBD, 0x86, 0xE6, 0x9C, 0xAA, 0xE5, 0xBB, 0xBA, 0xE9, 0x93, 0xBE]"

definition tunnel_works :: string where
  "tunnel_works = utf8 [0xE8, 0x87, 0xB3, 0xE5, 0xB0, 0x91, 0xE4, 0xB8, 0x80, 0xE6, 0x9D, 0xA1, 0xE9, 0x9A, 0xA7, 0xE9, 0x81, 0x93, 0xE6, 0xAD, 0xA3, 0xE5, 0xB8, 0xB8]"

definition backing_off :: string where
  "backing_off = utf8 [0xE5, 0x9B, 0x9E, 0xE9, 0x80, 0x80, 0xE9, 0x87, 0x8D, 0xE8, 0xAF, 0x95, 0xE4, 0xB8, 0xAD]"

definition agentOnline :: "agentTunnelReport list \<Rightarrow> bool" where
  "agentOnline tunnels = True"

fun health_of :: "string \<Rightarrow> agentTunnelReport list \<Rightarrow> string" where
  "health_of healthSummary [] = healthSummary"
| "health_of healthSummary (t # tunnels) =
     (if tr_State t = ''p2p'' \<or> tr_State t = ''relay'' then tunnel_works
      else health_of (if tr_State t = ''backoff'' then backing_off else healthSummary) tunnels)"

fun first_state :: "agentTunnelReport list \<Rightarrow> string \<times> string" where
  "first_state [] = ('''', '''')"
| "first_state (t # tunnels) = (if TrimSpace (tr_State t) \<noteq> '''' then (tr_State t, tr_Via t) else first_state tunnels)"

fun first_error :: "agentTunnelReport list \<Rightarrow> string" where
  "first_error [] = ''''"
| "first_error (t # tunnels) = (if TrimSpace (tr_LastError t) \<noteq> '''' then tr_LastError t else first_error tunnels)"

definition putAgentProductState ::
  "'db agent_store \<Rightarrow> string \<Rightarrow> string \<Rightarrow> string \<Rightarrow> string \<Rightarrow> string \<Rightarrow> string \<Rightarrow> bool \<Rightarrow> agentTunnelReport list \<Rightarrow> ('db, unit) action"
where
  "putAgentProductState S source deviceID addr upnpAddr want natType online tunnels =
     andThen (call (ag_RulesForDevice S deviceID)) (\<lambda>rules.
       let healthSummary = (if 0 < length rules then health_of not_linked tunnels else no_rules);
           (state, via) = first_state tunnels
       in call (ag_UpsertDeviceProductState S
            \<lparr>dps_DeviceID = deviceID, dps_Product = ''agent'', dps_Online = online, dps_LastSeenAt = '''', dps_LastSource = source, dps_Version = '''',
             dps_LastError = first_error tunnels,
             dps_Metadata = [(''addr'', JString addr), (''upnp_addr'', JString upnpAddr), (''want'', JString want), (''nat_type'', JString natType),
               (''tunnel_state'', JString state), (''tunnel_via'', JString via), (''health_summary'', JString healthSummary),
               (''rule_count'', JInt (int (length rules)))]\<rparr>))"

definition tunnel_state :: "string \<Rightarrow> ('a agentTunnelReport_scheme) \<Rightarrow> TunnelState" where
  "tunnel_state deviceID t =
     \<lparr>ts_DeviceID = deviceID, ts_PeerID = tr_Peer t, ts_Profile = tr_Profile t, ts_State = tr_State t, ts_Via = tr_Via t, ts_NATType = tr_NATType t,
      ts_PublicAddr = tr_PublicAddr t, ts_ConvID = tr_ConvID t, ts_RTTMs = tr_RTTMs t, ts_LastError = tr_LastError t, ts_Attempt = tr_Attempt t,
      ts_NextRetryAt = tr_NextRetryAt t, ts_LastTransitionAt = tr_LastTransitionAt t, ts_UpdatedAt = ''''\<rparr>"

definition report_tunnel :: "'db agent_store \<Rightarrow> string \<Rightarrow> ('a agentTunnelReport_scheme) \<Rightarrow> ('db, unit) action" where
  "report_tunnel S deviceID t =
     andThen (call (ag_PutTunnelState S (tunnel_state deviceID t))) (\<lambda>_.
       if (tr_State t = ''p2p'' \<or> tr_State t = ''relay'') \<and> tr_Via t \<noteq> ''''
       then call (ag_UpdateSessionPathForPair S deviceID (tr_Peer t) (tr_Profile t) (tr_Via t))
       else ret ())"

fun putTunnelReports :: "'db agent_store \<Rightarrow> string \<Rightarrow> agentTunnelReport list \<Rightarrow> ('db, unit) action" where
  "putTunnelReports S deviceID [] = ret ()"
| "putTunnelReports S deviceID (t # tunnels) =
     (if tr_Peer t = '''' then putTunnelReports S deviceID tunnels
      else andThen (report_tunnel S deviceID t) (\<lambda>_. putTunnelReports S deviceID tunnels))"

subsection \<open>Handlers\<close>

definition ensureAgentDeviceAllowed :: "'db agent_store \<Rightarrow> string \<Rightarrow> ('db, unit) action" where
  "ensureAgentDeviceAllowed S deviceID =
     andThen (call (ag_GetDevice S deviceID)) (\<lambda>dev.
       if \<not> dev_Enabled dev then fail (badRequest ''device_disabled'' ''device is disabled'') else ret ())"

definition bad_json :: server_error where "bad_json = badRequest ''bad_json'' ''bad json''"

text \<open>Registration and heartbeat differ only in the source they record.\<close>

definition agent_report :: "string \<Rightarrow> 'db agent_store \<Rightarrow> web_request \<Rightarrow> agent_request option \<Rightarrow> ('db, unit) action" where
  "agent_report source S r body =
     (case body of
        None \<Rightarrow> fail bad_json
      | Some req \<Rightarrow>
          if aq_DeviceID req = '''' then fail bad_json
          else
            andThen (ensureAgentDeviceAllowed S (aq_DeviceID req)) (\<lambda>_.
              let addr = (if aq_Addr req = '''' then requestAddr (request.truncate r) else aq_Addr req);
                  online = agentOnline (aq_Tunnels req)
              in andThen (call (ag_UpsertDevice S (aq_DeviceID req) (aq_Name req) addr (aq_UpnpAddr req) '''' online)) (\<lambda>_.
                 andThen (putAgentProductState S source (aq_DeviceID req) addr (aq_UpnpAddr req) '''' (aq_NATType req) online (aq_Tunnels req)) (\<lambda>_.
                 putTunnelReports S (aq_DeviceID req) (aq_Tunnels req)))))"

definition handleAgentRegister :: "'db agent_store \<Rightarrow> web_request \<Rightarrow> agent_request option \<Rightarrow> ('db, unit) action" where
  "handleAgentRegister = agent_report ''agent_register''"

definition handleAgentHeartbeat :: "'db agent_store \<Rightarrow> web_request \<Rightarrow> agent_request option \<Rightarrow> ('db, unit) action" where
  "handleAgentHeartbeat = agent_report ''agent_heartbeat''"

definition handleAgentTunnelStatus :: "'db agent_store \<Rightarrow> web_request \<Rightarrow> tunnel_request option \<Rightarrow> ('db, unit) action" where
  "handleAgentTunnelStatus S r body =
     (case body of
        None \<Rightarrow> fail bad_json
      | Some req \<Rightarrow>
          if tq_DeviceID req = '''' \<or> tr_Peer req = '''' then fail bad_json
          else
            let req = req\<lparr>tr_Profile := NormalizeProfile (tr_Profile req)\<rparr> in
            andThen (ensureAgentDeviceAllowed S (tq_DeviceID req)) (\<lambda>_.
              let addr = (if tq_Addr req = '''' then requestAddr (request.truncate r) else tq_Addr req);
                  online = (tr_State req \<in> {''connecting'', ''p2p'', ''relay''})
              in andThen (call (ag_UpsertDevice S (tq_DeviceID req) (tq_Name req) addr (tq_UpnpAddr req) (tr_Peer req) online)) (\<lambda>_.
                 andThen (putAgentProductState S ''agent_heartbeat'' (tq_DeviceID req) addr (tq_UpnpAddr req) (tr_Peer req) (tr_NATType req) online
                   [agentTunnelReport.truncate req]) (\<lambda>_.
                 report_tunnel S (tq_DeviceID req) req))))"

definition bootstrapConfig :: "durations \<Rightarrow> ServerConfig \<Rightarrow> web_request \<Rightarrow> string \<Rightarrow> string \<Rightarrow> agentBootstrapResponse" where
  "bootstrapConfig D cfg r deviceID deviceName =
     \<lparr>ab_DeviceID = deviceID, ab_DeviceName = deviceName, ab_Server = externalUDPAddr (request.truncate r) (cfg_UDPListen cfg),
      ab_ServerHTTP = requestBaseURL r, ab_PSK = cfg_PSK cfg, ab_STUNAltPort = portFromAddr (cfg_StunAltListen cfg) 7002,
      ab_NoUPnP = cfg_ClientNoUPnP cfg, ab_UPnPTimeout = du_string D (cfg_ClientUPnPTimeout cfg), ab_LogLevel = cfg_ClientLogLevel cfg,
      ab_TrayEnabled = cfg_ClientTrayEnabled cfg, ab_PunchTimeout = du_string D (cfg_ClientPunchTimeout cfg),
      ab_ForceRelay = cfg_ClientForceRelay cfg, ab_AllowLegacy = cfg_ClientAllowLegacy cfg\<rparr>"

definition handleAgentBootstrap ::
  "durations \<Rightarrow> ServerConfig \<Rightarrow> 'db agent_store \<Rightarrow> web_request \<Rightarrow> (string \<times> string) option \<Rightarrow> ('db, agentBootstrapResponse) action"
where
  "handleAgentBootstrap D cfg S r body =
     (if r_Method r \<noteq> ''POST'' then fail methodNotAllowed
      else case body of
        None \<Rightarrow> fail bad_json
      | Some (deviceID, deviceName) \<Rightarrow>
          if deviceID = '''' then fail bad_json
          else
            onResult (ensureAgentDeviceAllowed S deviceID) (\<lambda>res.
              if (case res of Inr _ \<Rightarrow> True | Inl e \<Rightarrow> e = ErrNoRows) then
                (let name = TrimSpace deviceName in
                 andThen (call (ag_UpsertDevice S deviceID name (requestAddr (request.truncate r)) '''' '''' False)) (\<lambda>_.
                 ret (bootstrapConfig D cfg r deviceID name)))
              else (case res of Inl e \<Rightarrow> fail e | Inr _ \<Rightarrow> fail bad_json)))"

definition handleAgentRules :: "'db agent_store \<Rightarrow> web_request \<Rightarrow> ('db, ForwardRule list) action" where
  "handleAgentRules S r =
     (let deviceID = r_Query r ''device_id'' in
      if deviceID = '''' then fail (badRequest ''device_id_required'' ''device_id required'')
      else andThen (ensureAgentDeviceAllowed S deviceID) (\<lambda>_. call (ag_RulesForDevice S deviceID)))"

definition release_url :: "web_request \<Rightarrow> string \<Rightarrow> string \<Rightarrow> string \<Rightarrow> string" where
  "release_url r url file path = (if TrimSpace url = '''' \<and> TrimSpace file \<noteq> '''' then requestBaseURL r @ path else TrimSpace url)"

definition clientRelease :: "ServerConfig \<Rightarrow> web_request \<Rightarrow> clientReleaseResponse" where
  "clientRelease cfg r =
     \<lparr>rel_Version = cfg_ClientReleaseVersion cfg,
      rel_URL = release_url r (cfg_ClientReleaseURL cfg) (cfg_ClientReleaseFile cfg) ''/downloads/client/installer'',
      rel_SHA256 = cfg_ClientReleaseSHA256 cfg, rel_PublishedAt = cfg_ClientReleasePublishedAt cfg, rel_Notes = cfg_ClientReleaseNotes cfg,
      rel_MinimumSupportedVersion = cfg_ClientReleaseMinimumSupported cfg\<rparr>"

definition lanRelease :: "ServerConfig \<Rightarrow> web_request \<Rightarrow> clientReleaseResponse" where
  "lanRelease cfg r =
     \<lparr>rel_Version = cfg_LANReleaseVersion cfg,
      rel_URL = release_url r (cfg_LANReleaseURL cfg) (cfg_LANReleaseFile cfg) ''/downloads/lan/installer'',
      rel_SHA256 = cfg_LANReleaseSHA256 cfg, rel_PublishedAt = cfg_LANReleasePublishedAt cfg, rel_Notes = cfg_LANReleaseNotes cfg,
      rel_MinimumSupportedVersion = cfg_LANReleaseMinimumSupported cfg\<rparr>"

subsection \<open>Routes\<close>

datatype agent_call =
    Bootstrap_call "(string \<times> string) option"
  | Register_call "agent_request option"
  | Heartbeat_call "agent_request option"
  | Status_call "tunnel_request option"
  | Rules_call

datatype agent_answer = OkAnswer | BootstrapAnswer agentBootstrapResponse | RulesAnswer "ForwardRule list"

definition guarded :: "ServerConfig \<Rightarrow> web_request \<Rightarrow> ('db, 'a) action \<Rightarrow> ('db, 'a) action" where
  "guarded cfg r m = (case requireAgent cfg (http_request.truncate r) of Some e \<Rightarrow> fail e | None \<Rightarrow> m)"

definition agent_api :: "durations \<Rightarrow> ServerConfig \<Rightarrow> 'db agent_store \<Rightarrow> web_request \<Rightarrow> agent_call \<Rightarrow> ('db, agent_answer) action" where
  "agent_api D cfg S r c =
     (let ok = (\<lambda>m. andThen m (\<lambda>_. ret OkAnswer)) in
      case c of
        Bootstrap_call body \<Rightarrow> andThen (handleAgentBootstrap D cfg S r body) (\<lambda>resp. ret (BootstrapAnswer resp))
      | Register_call body \<Rightarrow> guarded cfg r (ok (handleAgentRegister S r body))
      | Heartbeat_call body \<Rightarrow> guarded cfg r (ok (handleAgentHeartbeat S r body))
      | Status_call body \<Rightarrow> guarded cfg r (ok (handleAgentTunnelStatus S r body))
      | Rules_call \<Rightarrow> guarded cfg r (andThen (handleAgentRules S r) (\<lambda>rules. ret (RulesAnswer rules))))"

section \<open>What the bootstrap gives away\<close>

text \<open>A device the database does not know is admitted by the bootstrap and stored.\<close>

lemma unknown_device:
  assumes "cd_faults d = []" "\<And>row. row \<in> set (cd_devices d) \<Longrightarrow> \<not> same C (dv_ID row) deviceID"
  shows "GetDevice C deviceID d = (d, Inl ErrNoRows)"
  using devices.sql_first_none [of d "\<lambda>row. same C (dv_ID row) deviceID" "co_weight C \<circ> dv_ID"] assms
  by (simp add: GetDevice_def got_def followed_def devices_table_def)

lemma UpsertDevice_new:
  assumes "cd_faults d = []" "keys_ok (tb_clash devices_table C) (cd_devices d)"
    and "\<And>row. row \<in> set (cd_devices d) \<Longrightarrow> \<not> same C (dv_ID row) deviceID"
  shows "\<exists>d1. UpsertDevice C deviceID name addr upnp want online d = (d1, Inr ())"
proof -
  have "find (\<lambda>row. same C (dv_ID row) deviceID) (cd_devices d) = None" using assms(3) by (auto simp: find_None_iff)
  moreover have "keys_ok (\<lambda>a b. same C (dv_ID a) (dv_ID b)) (cd_devices d @ [row])" if "dv_ID row = deviceID" for row
    using assms(2,3) that by (auto simp: keys_ok_append devices_table_def)
  ultimately show ?thesis using assms(1) by (simp add: UpsertDevice_def sql_upsert_def set_rows_def devices_table_def)
qed

lemma bootstrap_open:
  assumes "r_Method r = ''POST''" "deviceID \<noteq> ''''" "cd_faults d = []" "keys_ok (tb_clash devices_table C) (cd_devices d)"
    and "\<And>row. row \<in> set (cd_devices d) \<Longrightarrow> \<not> same C (dv_ID row) deviceID"
  shows "\<exists>d1. agent_api D cfg (control_agent C) r (Bootstrap_call (Some (deviceID, name))) d
    = Some (d1, Inr (BootstrapAnswer (bootstrapConfig D cfg r deviceID (TrimSpace name))))"
proof -
  obtain d1 where "UpsertDevice C deviceID (TrimSpace name) (requestAddr (request.truncate r)) '''' '''' False d = (d1, Inr ())"
    using UpsertDevice_new [OF assms(3-5)] by blast
  then show ?thesis
    using unknown_device [OF assms(3,5)] assms(1,2)
    by (simp add: agent_api_def handleAgentBootstrap_def ensureAgentDeviceAllowed_def andThen_def onResult_def call_def ret_def control_agent_def Let_def)
qed

text \<open>C22. Without a secret of its own for the administrators' tokens, the server gives the administration away: the bootstrap of the
  agents answers anybody, without any key, with the pre-shared key, and from that key alone one computes access tokens that
  \<open>requireAdmin\<close> accepts for every administrator of the table.\<close>

theorem bootstrap_hands_out_admin:
  assumes "TrimSpace (cfg_AdminJWTSecret cfg) = ''''" "cfg_PSK cfg \<noteq> ''''"
    and "\<And>claims. ev_unmarshal E (ev_marshal E claims) = Some claims"
    and "r_Method r = ''POST''" "deviceID \<noteq> ''''" "cd_faults d = []" "keys_ok (tb_clash devices_table C) (cd_devices d)"
    and "\<And>row. row \<in> set (cd_devices d) \<Longrightarrow> \<not> same C (dv_ID row) deviceID"
  shows "\<exists>d1 resp. agent_api D cfg (control_agent C) r (Bootstrap_call (Some (deviceID, name))) d = Some (d1, Inr (BootstrapAnswer resp))
    \<and> (\<forall>r' claims user d2 d3 unix. hr_Authorization r' = ''Bearer '' @ signAccessToken E (DefaultServer\<lparr>cfg_PSK := ab_PSK resp\<rparr>) claims
         \<and> cl_Subject claims \<noteq> '''' \<and> unix < cl_Expires claims \<and> GetAdminUserByID C (cl_Subject claims) d2 = (d3, Inr user)
         \<and> au_PasswordVersion user = cl_PasswordVersion claims
         \<longrightarrow> requireAdmin E cfg (control_admin C) unix r' d2 = Some (d3, Inr claims))"
proof -
  obtain d1 where boot: "agent_api D cfg (control_agent C) r (Bootstrap_call (Some (deviceID, name))) d
    = Some (d1, Inr (BootstrapAnswer (bootstrapConfig D cfg r deviceID (TrimSpace name))))" using bootstrap_open [OF assms(4-8)] by blast
  let ?resp = "bootstrapConfig D cfg r deviceID (TrimSpace name)"
  have "adminJWTSecret E (DefaultServer\<lparr>cfg_PSK := ab_PSK ?resp\<rparr>) = adminJWTSecret E cfg"
    using assms(1,2) by (simp add: adminJWTSecret_def bootstrapConfig_def DefaultServer_def)
  then have sign: "signAccessToken E (DefaultServer\<lparr>cfg_PSK := ab_PSK ?resp\<rparr>) claims = signAccessToken E cfg claims" for claims
    by (simp add: signAccessToken_def)
  have "requireAdmin E cfg (control_admin C) unix r' d2 = Some (d3, Inr claims)"
    if "hr_Authorization r' = ''Bearer '' @ signAccessToken E cfg claims" "cl_Subject claims \<noteq> ''''" "unix < cl_Expires claims"
      "GetAdminUserByID C (cl_Subject claims) d2 = (d3, Inr user)" "au_PasswordVersion user = cl_PasswordVersion claims"
    for r' claims user d2 d3 unix
  proof -
    have "signAccessToken E cfg claims \<noteq> ''''" by (simp add: signAccessToken_def Let_def)
    moreover from this have "bearerToken r' = signAccessToken E cfg claims" using that(1) signed_plain by (intro bearer_token) auto
    moreover have "token_ok E cfg unix (signAccessToken E cfg claims) claims"
      using that(3) verify_signed [OF assms(3)] by (simp add: verifyAccessToken_iff [symmetric])
    ultimately show ?thesis using that by (simp add: requireAdmin_iff)
  qed
  then show ?thesis using boot sign by (intro exI [of _ d1] exI [of _ ?resp]) auto
qed

definition demo_web :: web_request where
  "demo_web = \<lparr>r_Method = ''POST'', r_Path = '''', r_Query = (\<lambda>_. ''''), r_RemoteAddr = ''10.0.0.9:5'', r_Host = ''vpn:80'',
     hr_Authorization = '''', hr_PSK = '''', hr_XForwardedFor = '''', hr_UserAgent = '''', wr_TLS = False, wr_XForwardedProto = ''''\<rparr>"

definition demo_durations :: durations where
  "demo_durations = \<lparr>du_parse = (\<lambda>_. Some 0), du_string = (\<lambda>_. ''1s'')\<rparr>"

theorem bootstrap_hands_out_admin_witness:
  "\<exists>d1 resp. agent_api demo_durations (DefaultServer\<lparr>cfg_PSK := ''k''\<rparr>) (control_agent demo_control) demo_web (Bootstrap_call (Some (''x'', ''''))) (demo_users False)
       = Some (d1, Inr (BootstrapAnswer resp))
     \<and> requireAdmin demo_auth (DefaultServer\<lparr>cfg_PSK := ''k''\<rparr>) (control_admin demo_control) 0
         (bearer_request (''Bearer '' @ signAccessToken demo_auth (DefaultServer\<lparr>cfg_PSK := ab_PSK resp\<rparr>) demo_claims)) (demo_users False)
       = Some (demo_users False, Inr demo_claims)"
proof -
  let ?cfg = "DefaultServer\<lparr>cfg_PSK := ''k''\<rparr>"
  have "\<exists>d1 resp. agent_api demo_durations ?cfg (control_agent demo_control) demo_web (Bootstrap_call (Some (''x'', ''''))) (demo_users False)
      = Some (d1, Inr (BootstrapAnswer resp))
    \<and> (\<forall>r' claims user d2 d3 unix. hr_Authorization r' = ''Bearer '' @ signAccessToken demo_auth (DefaultServer\<lparr>cfg_PSK := ab_PSK resp\<rparr>) claims
         \<and> cl_Subject claims \<noteq> '''' \<and> unix < cl_Expires claims \<and> GetAdminUserByID demo_control (cl_Subject claims) d2 = (d3, Inr user)
         \<and> au_PasswordVersion user = cl_PasswordVersion claims
         \<longrightarrow> requireAdmin demo_auth ?cfg (control_admin demo_control) unix r' d2 = Some (d3, Inr claims))"
    by (rule bootstrap_hands_out_admin) (simp_all add: DefaultServer_def demo_auth_def demo_web_def demo_users_def empty_db_def)
  then obtain d1 resp where boot: "agent_api demo_durations ?cfg (control_agent demo_control) demo_web (Bootstrap_call (Some (''x'', ''''))) (demo_users False)
      = Some (d1, Inr (BootstrapAnswer resp))"
    and all: "\<And>r' claims user d2 d3 unix. hr_Authorization r' = ''Bearer '' @ signAccessToken demo_auth (DefaultServer\<lparr>cfg_PSK := ab_PSK resp\<rparr>) claims
         \<and> cl_Subject claims \<noteq> '''' \<and> unix < cl_Expires claims \<and> GetAdminUserByID demo_control (cl_Subject claims) d2 = (d3, Inr user)
         \<and> au_PasswordVersion user = cl_PasswordVersion claims
         \<Longrightarrow> requireAdmin demo_auth ?cfg (control_admin demo_control) unix r' d2 = Some (d3, Inr claims)" by auto
  have "requireAdmin demo_auth ?cfg (control_admin demo_control) 0
      (bearer_request (''Bearer '' @ signAccessToken demo_auth (DefaultServer\<lparr>cfg_PSK := ab_PSK resp\<rparr>) demo_claims)) (demo_users False)
    = Some (demo_users False, Inr demo_claims)"
    by (rule all [where user = "AdminUser_toStore (demo_admin False)"])
      (use demo_user(1) in \<open>simp add: bearer_request_def demo_claims_def AdminUser_toStore_def demo_admin_def\<close>)
  with boot show ?thesis by blast
qed

section \<open>Who is served\<close>

fun device_of :: "web_request \<Rightarrow> agent_call \<Rightarrow> string" where
  "device_of r (Bootstrap_call body) = (case body of None \<Rightarrow> '''' | Some (deviceID, _) \<Rightarrow> deviceID)"
| "device_of r (Register_call body) = (case body of None \<Rightarrow> '''' | Some req \<Rightarrow> aq_DeviceID req)"
| "device_of r (Heartbeat_call body) = (case body of None \<Rightarrow> '''' | Some req \<Rightarrow> aq_DeviceID req)"
| "device_of r (Status_call body) = (case body of None \<Rightarrow> '''' | Some req \<Rightarrow> tq_DeviceID req)"
| "device_of r Rules_call = r_Query r ''device_id''"

lemma disabled_refused:
  assumes "cd_faults d = []" "keys_ok (tb_clash devices_table C) (cd_devices d)" "row \<in> set (cd_devices d)" "same C (dv_ID row) deviceID" "\<not> dv_Enabled row"
  shows "ensureAgentDeviceAllowed (control_agent C) deviceID d = Some (d, Inl (badRequest ''device_disabled'' ''device is disabled''))"
proof -
  have "sql_first devices_table (co_weight C \<circ> dv_ID) (\<lambda>row. same C (dv_ID row) deviceID) d = (d, Inr row)"
    using assms by (intro devices.sql_first_one) (auto simp: devices_table_def same_def)
  then show ?thesis using assms(5)
    by (simp add: ensureAgentDeviceAllowed_def control_agent_def GetDevice_def got_def followed_def give_def andThen_def call_def Device_toStore_def fail_def)
qed

lemma andThen_blocked: "m d = Some (d', Inl e) \<Longrightarrow> andThen m f d = Some (d', Inl e)"
  by (simp add: andThen_def)

text \<open>C23. What keeps an agent out: without the pre-shared key every call but the bootstrap is refused, a device that the administrator disabled
  is refused every call, the bootstrap included, and a call that is refused for these reasons leaves the database as it was.\<close>

theorem agent_api_guarded:
  assumes "cd_faults d = []" "keys_ok (tb_clash devices_table C) (cd_devices d)"
    and "(\<forall>body. c \<noteq> Bootstrap_call body) \<and> cfg_PSK cfg \<noteq> '''' \<and> hr_PSK r \<noteq> cfg_PSK cfg
       \<or> (\<exists>row \<in> set (cd_devices d). same C (dv_ID row) (device_of r c) \<and> \<not> dv_Enabled row)"
  shows "\<exists>e. agent_api D cfg (control_agent C) r c d = Some (d, Inl e)"
proof (cases "\<exists>row \<in> set (cd_devices d). same C (dv_ID row) (device_of r c) \<and> \<not> dv_Enabled row")
  case True
  then have refused: "ensureAgentDeviceAllowed (control_agent C) (device_of r c) d = Some (d, Inl (badRequest ''device_disabled'' ''device is disabled''))"
    using disabled_refused assms(1,2) by blast
  then show ?thesis
    by (cases c) (auto simp: agent_api_def guarded_def fail_def handleAgentBootstrap_def handleAgentRegister_def handleAgentHeartbeat_def agent_report_def
        handleAgentTunnelStatus_def handleAgentRules_def Let_def andThen_blocked onResult_def badRequest_def andThen_def split: option.splits prod.splits)
next
  case False
  then have "requireAgent cfg (http_request.truncate r) = Some denied" and "\<forall>body. c \<noteq> Bootstrap_call body"
    using assms(3) by (auto simp: requireAgent_def http_request.truncate_def)
  then show ?thesis by (cases c) (auto simp: agent_api_def guarded_def fail_def)
qed

definition disabled_device :: Device_row where
  "disabled_device = \<lparr>dv_ID = ''x'', dv_Name = '''', dv_Addr = '''', dv_UpnpAddr = '''', dv_Want = '''', dv_Online = False, dv_Enabled = False,
     dv_LastSeen = '''', dv_CreatedAt = ''''\<rparr>"

theorem agent_api_guarded_witness:
  "(\<exists>e. agent_api demo_durations DefaultServer (control_agent demo_control) demo_web (Bootstrap_call (Some (''x'', '''')))
       (empty_db\<lparr>cd_devices := [disabled_device]\<rparr>) = Some (empty_db\<lparr>cd_devices := [disabled_device]\<rparr>, Inl e))
   \<and> (\<exists>e. agent_api demo_durations (DefaultServer\<lparr>cfg_PSK := ''k''\<rparr>) (control_agent demo_control) demo_web Rules_call empty_db = Some (empty_db, Inl e))"
  using agent_api_guarded [of "empty_db\<lparr>cd_devices := [disabled_device]\<rparr>" demo_control "Bootstrap_call (Some (''x'', ''''))" DefaultServer demo_web demo_durations]
    agent_api_guarded [of empty_db demo_control Rules_call "DefaultServer\<lparr>cfg_PSK := ''k''\<rparr>" demo_web demo_durations]
  by (simp add: empty_db_def disabled_device_def demo_web_def)

end
