(* ===== verification/Views.thy ===== *)
theory Views
  imports AgentApi
begin

text \<open>
  What the administrator sees of devices and rules, \<^verbatim>\<open>internal/server/views.go\<close>: the rows of the database joined with the states that
  agents and LAN clients reported.

  Go maps that are only looked up are functions to options here; \<open>map_of\<close> of a list in its order is a map filled without overwriting,
  and of the reversed list one filled with overwriting.  \<open>parse\<close> is \<^verbatim>\<open>time.Parse\<close> and \<open>now\<close> the time of the request.
\<close>

subsection \<open>Tunnels\<close>

definition zero_char :: char where "zero_char = char_of (0 :: nat)"

definition pairStateKey :: "string \<Rightarrow> string \<Rightarrow> string \<Rightarrow> string" where
  "pairStateKey a b profile =
     (if a \<le> b then a @ [zero_char] @ b @ [zero_char] @ NormalizeProfile profile
      else b @ [zero_char] @ a @ [zero_char] @ NormalizeProfile profile)"

definition latestStateByPair :: "TunnelState list \<Rightarrow> string \<rightharpoonup> TunnelState" where
  "latestStateByPair states = map_of (map (\<lambda>st. (pairStateKey (ts_DeviceID st) (ts_PeerID st) (ts_Profile st), st)) states)"

definition normalizeRuntimeState :: "string \<Rightarrow> string \<Rightarrow> string" where
  "normalizeRuntimeState state via =
     (if state \<in> {''p2p'', ''relay'', ''connecting'', ''down'', ''disabled'', ''backoff''} then state
      else if state = ''connected'' then (if via = ''relay'' then ''relay'' else ''p2p'')
      else if state \<in> {''stopped'', ''''} then ''down''
      else if via = ''relay'' then ''relay''
      else state)"

definition hasBackoff :: "TunnelState list \<Rightarrow> string \<Rightarrow> bool" where
  "hasBackoff states deviceID \<longleftrightarrow>
     list_ex (\<lambda>st. latestStateByPair states (pairStateKey (ts_DeviceID st) (ts_PeerID st) (ts_Profile st)) = Some st
       \<and> (ts_DeviceID st = deviceID \<or> ts_PeerID st = deviceID) \<and> ts_State st = ''backoff'') states"

subsection \<open>Devices\<close>

record lanPeerSummary =
  lsm_p2pPeers :: int
  lsm_relayPeers :: int
  lsm_downPeers :: int
  lsm_adapterState :: string
  lsm_selectedCIDR :: string
  lsm_routeConflict :: string
  lsm_lastError :: string
  lsm_activeSessions :: int
  lsm_hotPaths :: int
  lsm_socketRotations :: uint64
  lsm_lastRotationReason :: string
  lsm_updatedAt :: string

definition no_summary :: lanPeerSummary where
  "no_summary = \<lparr>lsm_p2pPeers = 0, lsm_relayPeers = 0, lsm_downPeers = 0, lsm_adapterState = '''', lsm_selectedCIDR = '''', lsm_routeConflict = '''',
     lsm_lastError = '''', lsm_activeSessions = 0, lsm_hotPaths = 0, lsm_socketRotations = 0, lsm_lastRotationReason = '''', lsm_updatedAt = ''''\<rparr>"

definition add_state :: "VirtualPeerState \<Rightarrow> lanPeerSummary \<Rightarrow> lanPeerSummary" where
  "add_state state s =
     (let s = (if ps_Path state = ''p2p'' then s\<lparr>lsm_p2pPeers := lsm_p2pPeers s + 1\<rparr>
               else if ps_Path state = ''relay'' then s\<lparr>lsm_relayPeers := lsm_relayPeers s + 1\<rparr>
               else if ps_State state = ''down'' \<or> ps_Path state = ''down'' \<or> ps_Path state = '''' then s\<lparr>lsm_downPeers := lsm_downPeers s + 1\<rparr>
               else s);
          s = (if lsm_updatedAt s = '''' \<or> lsm_updatedAt s < ps_UpdatedAt state
               then s\<lparr>lsm_updatedAt := ps_UpdatedAt state, lsm_adapterState := ps_AdapterState state, lsm_selectedCIDR := ps_SelectedCIDR state,
                      lsm_routeConflict := ps_RouteConflict state, lsm_lastError := ps_LastError state,
                      lsm_lastRotationReason := ps_LastRotationReason state\<rparr>
               else s);
          s = s\<lparr>lsm_activeSessions := lsm_activeSessions s + ps_ActiveSessions state, lsm_hotPaths := lsm_hotPaths s + ps_HotPaths state\<rparr>
      in if lsm_socketRotations s < ps_SocketRotations state then s\<lparr>lsm_socketRotations := ps_SocketRotations state\<rparr> else s)"

fun summarizeLANPeerStates :: "(string \<Rightarrow> lanPeerSummary) \<Rightarrow> VirtualPeerState list \<Rightarrow> string \<Rightarrow> lanPeerSummary" where
  "summarizeLANPeerStates acc [] = acc"
| "summarizeLANPeerStates acc (state # states) = summarizeLANPeerStates (acc(ps_DeviceID state := add_state state (acc (ps_DeviceID state)))) states"

definition recentWithin :: "(string \<Rightarrow> time option) \<Rightarrow> time \<Rightarrow> string \<Rightarrow> duration \<Rightarrow> bool" where
  "recentWithin parse now v ttl = (if v = '''' then False else case parse v of None \<Rightarrow> False | Some t \<Rightarrow> time_Sub now t \<le> ttl)"

fun firstString :: "string list \<Rightarrow> string" where
  "firstString [] = ''''"
| "firstString (v # vs) = (if v \<noteq> '''' then v else firstString vs)"

definition applyProductStateToDevice ::
  "(string \<Rightarrow> time option) \<Rightarrow> time \<Rightarrow> (string \<rightharpoonup> DeviceProductState) \<Rightarrow> VirtualAddress \<Rightarrow> lanPeerSummary \<Rightarrow> duration \<Rightarrow> Device \<Rightarrow> Device"
where
  "applyProductStateToDevice parse now states address lan agentTTL d =
     (let d = (case states ''agent'' of
                 None \<Rightarrow> d
               | Some agent \<Rightarrow> d\<lparr>dev_AgentOnline := dps_Online agent \<and> recentWithin parse now (dps_LastSeenAt agent) agentTTL,
                   dev_LastAgentSeen := dps_LastSeenAt agent, dev_AgentLastSource := dps_LastSource agent\<rparr>);
          d = (case states ''lan'' of
                 None \<Rightarrow> d
               | Some lanState \<Rightarrow> d\<lparr>dev_LastLANSeen := dps_LastSeenAt lanState, dev_LANLastSource := dps_LastSource lanState,
                   dev_LANLastError := firstString [lsm_lastError lan, dps_LastError lanState],
                   dev_LANOnline := (dps_LastSource lanState = ''lan_status'' \<and> recentWithin parse now (dps_LastSeenAt lanState) lanOnlineTTL)\<rparr>);
          capabilities = (case states ''agent'' of None \<Rightarrow> [] | Some _ \<Rightarrow> [''Agent''])
            @ (case states ''lan'' of None \<Rightarrow> [] | Some lanState \<Rightarrow> if dps_LastSource lanState = ''lan_status'' then [''UDPTunnelLAN''] else [])
      in d\<lparr>dev_ProductCapabilities := capabilities, dev_LANVirtualIP := va_VirtualIP address, dev_LANNetworkID := va_NetworkID address,
           dev_LANAdapterState := lsm_adapterState lan, dev_LANSelectedCIDR := lsm_selectedCIDR lan, dev_LANRouteConflict := lsm_routeConflict lan,
           dev_LANPathSummary := (if 0 < lsm_p2pPeers lan + lsm_relayPeers lan + lsm_downPeers lan
             then ''P2P '' @ FormatInt (lsm_p2pPeers lan) @ '' / Relay '' @ FormatInt (lsm_relayPeers lan) @ '' / Down '' @ FormatInt (lsm_downPeers lan)
             else dev_LANPathSummary d),
           dev_LANActiveSessions := lsm_activeSessions lan, dev_LANHotPaths := lsm_hotPaths lan, dev_LANSocketRotations := lsm_socketRotations lan,
           dev_LANRotationReason := lsm_lastRotationReason lan\<rparr>)"

definition rule_of :: "ForwardRule \<Rightarrow> string \<Rightarrow> bool" where
  "rule_of r deviceID \<longleftrightarrow> rule_Enabled r \<and> (rule_SourceID r = deviceID \<or> rule_TargetID r = deviceID)"

definition works :: "TunnelState list \<Rightarrow> ForwardRule \<Rightarrow> bool" where
  "works states r \<longleftrightarrow> (case latestStateByPair states (pairStateKey (rule_SourceID r) (rule_TargetID r) (rule_Profile r)) of
     None \<Rightarrow> False | Some st \<Rightarrow> ts_State st = ''p2p'' \<or> ts_State st = ''relay'')"

definition health_summary :: "ForwardRule list \<Rightarrow> TunnelState list \<Rightarrow> string \<Rightarrow> string" where
  "health_summary rules states deviceID =
     (if \<not> list_ex (\<lambda>r. rule_of r deviceID) rules then no_rules
      else if list_ex (\<lambda>r. rule_of r deviceID \<and> works states r) rules then tunnel_works
      else if hasBackoff states deviceID then backing_off
      else not_linked)"

definition device_error :: "TunnelState list \<Rightarrow> string \<Rightarrow> string" where
  "device_error states deviceID =
     (case find (\<lambda>st. ts_DeviceID st = deviceID \<and> ts_LastError st \<noteq> '''') states of None \<Rightarrow> '''' | Some st \<Rightarrow> ts_LastError st)"

record 'db view_store =
  vs_ListDevices :: "('db, Device list) store_op"
  vs_ListRules :: "('db, ForwardRule list) store_op"
  vs_ListTunnelStates :: "('db, TunnelState list) store_op"
  vs_ListDeviceProductStates :: "('db, DeviceProductState list) store_op"
  vs_ListVirtualAddresses :: "int \<Rightarrow> ('db, VirtualAddress list) store_op"
  vs_ListVirtualPeerStates :: "int \<Rightarrow> ('db, VirtualPeerState list) store_op"

definition enrich_device ::
  "(string \<Rightarrow> time option) \<Rightarrow> time \<Rightarrow> duration \<Rightarrow> ForwardRule list \<Rightarrow> TunnelState list \<Rightarrow> DeviceProductState list \<Rightarrow> VirtualAddress list
   \<Rightarrow> VirtualPeerState list \<Rightarrow> Device \<Rightarrow> Device"
where
  "enrich_device parse now ttl rules states products addresses peers d =
     (let productByDevice = map_of (rev (map (\<lambda>p. (dps_Product p, p)) (filter (\<lambda>p. dps_DeviceID p = dev_ID d) products)));
          address = (case map_of (rev (map (\<lambda>a. (va_DeviceID a, a)) addresses)) (dev_ID d) of None \<Rightarrow> no_address | Some a \<Rightarrow> a)
      in applyProductStateToDevice parse now productByDevice address (summarizeLANPeerStates (\<lambda>_. no_summary) peers (dev_ID d)) ttl
           (d\<lparr>dev_HealthSummary := health_summary rules states (dev_ID d), dev_LastError := device_error states (dev_ID d)\<rparr>))"

definition enrichedDevices :: "(string \<Rightarrow> time option) \<Rightarrow> time \<Rightarrow> duration \<Rightarrow> 'db view_store \<Rightarrow> ('db, Device list) action" where
  "enrichedDevices parse now ttl S =
     andThen (call (vs_ListDevices S)) (\<lambda>devices.
     andThen (call (vs_ListRules S)) (\<lambda>rules.
     andThen (call (vs_ListTunnelStates S)) (\<lambda>states.
     andThen (call (vs_ListDeviceProductStates S)) (\<lambda>products.
     andThen (call (vs_ListVirtualAddresses S 0)) (\<lambda>addresses.
     andThen (call (vs_ListVirtualPeerStates S 0)) (\<lambda>peers.
       ret (map (enrich_device parse now ttl rules states products addresses peers) devices)))))))"

subsection \<open>Rules\<close>

definition down :: "string \<Rightarrow> ForwardRule \<Rightarrow> ForwardRule" where
  "down reason r = r\<lparr>rule_RuntimeState := ''down'', rule_LastError := reason, rule_LastUpdatedAt := rule_UpdatedAt r\<rparr>"

definition enrich_rule :: "(string \<rightharpoonup> Device) \<Rightarrow> TunnelState list \<Rightarrow> ForwardRule \<Rightarrow> ForwardRule" where
  "enrich_rule deviceMap states r =
     (if \<not> rule_Enabled r then r\<lparr>rule_RuntimeState := ''disabled'', rule_LastError := '''', rule_LastUpdatedAt := rule_UpdatedAt r\<rparr>
      else case (deviceMap (rule_SourceID r), deviceMap (rule_TargetID r)) of
        (Some src, Some dst) \<Rightarrow>
          if \<not> dev_Enabled src \<or> \<not> dev_Enabled dst then down ''device_disabled'' r
          else (case latestStateByPair states (pairStateKey (rule_SourceID r) (rule_TargetID r) (rule_Profile r)) of
                  None \<Rightarrow> down ''session_not_established'' r
                | Some st \<Rightarrow> r\<lparr>rule_RuntimeState := normalizeRuntimeState (ts_State st) (ts_Via st), rule_LastError := ts_LastError st,
                    rule_LastUpdatedAt := ts_UpdatedAt st, rule_Attempt := ts_Attempt st, rule_NextRetryAt := ts_NextRetryAt st\<rparr>)
      | _ \<Rightarrow> down ''device_not_found'' r)"

definition enrichedRules :: "'db view_store \<Rightarrow> ('db, ForwardRule list) action" where
  "enrichedRules S =
     andThen (call (vs_ListRules S)) (\<lambda>rules.
     andThen (call (vs_ListDevices S)) (\<lambda>devices.
     andThen (call (vs_ListTunnelStates S)) (\<lambda>states.
       ret (map (enrich_rule (map_of (rev (map (\<lambda>d. (dev_ID d, d)) devices))) states) rules))))"

definition control_views :: "control_env \<Rightarrow> control_db view_store" where
  "control_views C = \<lparr>vs_ListDevices = ListDevices C, vs_ListRules = ListRules, vs_ListTunnelStates = ListTunnelStates C,
     vs_ListDeviceProductStates = ListDeviceProductStates C, vs_ListVirtualAddresses = ListVirtualAddresses C,
     vs_ListVirtualPeerStates = ListVirtualPeerStates C\<rparr>"

end
