(* ===== verification/AdminApi.thy ===== *)
theory AdminApi
  imports Views
begin

text \<open>
  The administrator's handlers for devices, forward rules and logs, \<^verbatim>\<open>internal/server/handlers_admin.go\<close>.

  \<open>rule_store\<close> extends \<open>view_store\<close> by the further operations of \<^verbatim>\<open>controlstore.Store\<close> that the handlers call; \<open>control_rules\<close> is the control
  database as such a store.  \<^verbatim>\<open>_ = a.db.Audit(...)\<close> is a call whose error is ignored.
\<close>

record 'db rule_store = "'db view_store" +
  rs_GetDevice :: "string \<Rightarrow> ('db, Device) store_op"
  rs_SetDeviceEnabled :: "string \<Rightarrow> bool \<Rightarrow> ('db, unit) store_op"
  rs_DeleteDevice :: "string \<Rightarrow> ('db, unit) store_op"
  rs_EnabledRuleReferenceCount :: "string \<Rightarrow> ('db, int) store_op"
  rs_CreateRule :: "ForwardRule \<Rightarrow> ('db, ForwardRule) store_op"
  rs_UpdateRule :: "int \<Rightarrow> ForwardRule \<Rightarrow> ('db, unit) store_op"
  rs_DeleteRule :: "int \<Rightarrow> ('db, unit) store_op"
  rs_LocalPortConflict :: "string \<Rightarrow> int \<Rightarrow> int \<Rightarrow> ('db, bool) store_op"
  rs_ListSessions :: "('db, Session list) store_op"
  rs_Metrics :: "('db, Metrics) store_op"
  rs_Audit :: "string \<Rightarrow> string \<Rightarrow> ('db, unit) store_op"
  rs_ListAuditEvents :: "AuditFilter \<Rightarrow> ('db, AuditEvent list) store_op"

definition control_rules :: "control_env \<Rightarrow> control_db rule_store" where
  "control_rules C = \<lparr>vs_ListDevices = ListDevices C, vs_ListRules = ListRules, vs_ListTunnelStates = ListTunnelStates C,
     vs_ListDeviceProductStates = ListDeviceProductStates C, vs_ListVirtualAddresses = ListVirtualAddresses C,
     vs_ListVirtualPeerStates = ListVirtualPeerStates C, rs_GetDevice = GetDevice C, rs_SetDeviceEnabled = SetDeviceEnabled C,
     rs_DeleteDevice = DeleteDevice C, rs_EnabledRuleReferenceCount = EnabledRuleReferenceCount C, rs_CreateRule = CreateRule C,
     rs_UpdateRule = UpdateRule C, rs_DeleteRule = DeleteRule, rs_LocalPortConflict = LocalPortConflict C, rs_ListSessions = ListSessions,
     rs_Metrics = Metrics_of C, rs_Audit = Audit C, rs_ListAuditEvents = ListAuditEvents C\<rparr>"

datatype admin_json =
    Ok_json
  | Devices_json "Device list"
  | Device_json Device
  | Rules_json "ForwardRule list"
  | Rule_json ForwardRule
  | Sessions_json "Session list"
  | Tunnels_json "TunnelState list"
  | Metrics_json Metrics
  | Audit_json "AuditEvent list"

subsection \<open>Devices\<close>

definition handleDevices :: "(string \<Rightarrow> time option) \<Rightarrow> time \<Rightarrow> ServerConfig \<Rightarrow> 'db rule_store \<Rightarrow> ('db, admin_json) action" where
  "handleDevices parse now cfg S = andThen (enrichedDevices parse now (cfg_PeerTTL cfg) (view_store.truncate S)) (\<lambda>devices. ret (Devices_json devices))"

definition bool_text :: "bool \<Rightarrow> string" where
  "bool_text b = (if b then ''true'' else ''false'')"

definition audited :: "'db rule_store \<Rightarrow> string \<Rightarrow> string \<Rightarrow> ('db, unit) action \<Rightarrow> ('db, admin_json) action" where
  "audited S kind detail m = andThen m (\<lambda>_. andThen (ignore (rs_Audit S kind detail)) (\<lambda>_. ret Ok_json))"

definition handleDeviceByID :: "'db rule_store \<Rightarrow> request \<Rightarrow> string \<Rightarrow> bool option \<Rightarrow> ('db, admin_json) action" where
  "handleDeviceByID S r i body =
     (if r_Method r = ''GET'' then andThen (call (rs_GetDevice S i)) (\<lambda>d. ret (Device_json d))
      else if r_Method r = ''PATCH'' then
        (case body of
           None \<Rightarrow> fail bad_json
         | Some enabled \<Rightarrow> audited S ''device_set_enabled'' (i @ '' enabled='' @ bool_text enabled) (call (rs_SetDeviceEnabled S i enabled)))
      else if r_Method r = ''DELETE'' then
        andThen (call (rs_EnabledRuleReferenceCount S i)) (\<lambda>n.
          if 0 < n then fail (badRequest ''device_in_use'' ''device is still referenced by enabled rules'')
          else audited S ''device_delete'' i (call (rs_DeleteDevice S i)))
      else fail methodNotAllowed)"

definition handleAdminDevice :: "'db rule_store \<Rightarrow> request \<Rightarrow> bool option \<Rightarrow> ('db, admin_json) action" where
  "handleAdminDevice S r body = handleDeviceByID S r (TrimPrefix (r_Path r) ''/api/admin/devices/'') body"

subsection \<open>Rules\<close>

definition decodeRule :: "ForwardRule option \<Rightarrow> server_error + ForwardRule" where
  "decodeRule body =
     (case body of None \<Rightarrow> Inl (OtherError ''json'') | Some r \<Rightarrow> Inr (r\<lparr>rule_Profile := NormalizeProfile (rule_Profile r)\<rparr>))"

fun rule_error_text :: "rule_error \<Rightarrow> string" where
  "rule_error_text BadProfile = ''profile must be interactive or bulk''"
| "rule_error_text MissingDevice = ''source_id and target_id are required''"
| "rule_error_text SameDevice = ''source_id and target_id must differ''"
| "rule_error_text BadPorts = ''ports must be 1..65535''"
| "rule_error_text MissingHost = ''target_host is required''"

definition normalizeRuleValidationError :: "rule_error option \<Rightarrow> ForwardRule \<Rightarrow> server_error option" where
  "normalizeRuleValidationError err r =
     (case err of
        None \<Rightarrow> None
      | Some e \<Rightarrow>
          Some (if rule_SourceID r = rule_TargetID r \<and> TrimSpace (rule_SourceID r) \<noteq> ''''
                then badRequest ''same_device_forbidden'' ''source_id and target_id must differ''
                else badRequest ''bad_rule'' (rule_error_text e)))"

definition agentCapableDevices :: "'db rule_store \<Rightarrow> ('db, string \<Rightarrow> bool) action" where
  "agentCapableDevices S =
     andThen (call (vs_ListDeviceProductStates S)) (\<lambda>states.
       ret (\<lambda>i. list_ex (\<lambda>state. dps_DeviceID state = i \<and> dps_Product state = ''agent''
         \<and> (dps_LastSource state = ''agent_register'' \<or> dps_LastSource state = ''agent_heartbeat'')) states))"

definition rule_device :: "'db rule_store \<Rightarrow> string \<Rightarrow> string \<Rightarrow> ('db, Device) action" where
  "rule_device S i message =
     onResult (call (rs_GetDevice S i)) (\<lambda>res. case res of
        Inr d \<Rightarrow> ret d
      | Inl e \<Rightarrow> fail (if e = ErrNoRows then badRequest ''device_not_found'' message else e))"

definition validateRule :: "'db rule_store \<Rightarrow> ForwardRule \<Rightarrow> int \<Rightarrow> ('db, unit) action" where
  "validateRule S r excludeID =
     (if TrimSpace (rule_SourceID r) = '''' \<or> TrimSpace (rule_TargetID r) = ''''
      then fail (badRequest ''device_not_found'' ''source_id and target_id are required'')
      else
        andThen (rule_device S (rule_SourceID r) ''source device not found'') (\<lambda>source.
        andThen (rule_device S (rule_TargetID r) ''target device not found'') (\<lambda>target.
          if dev_ID source = dev_ID target then fail (badRequest ''same_device_forbidden'' ''source_id and target_id must differ'')
          else if \<not> dev_Enabled source \<or> \<not> dev_Enabled target then fail (badRequest ''device_disabled'' ''source or target device is disabled'')
          else
            andThen (agentCapableDevices S) (\<lambda>agentCapable.
              if \<not> agentCapable (dev_ID source) then fail (badRequest ''source_not_agent'' ''source device has no Agent capability'')
              else if \<not> agentCapable (dev_ID target) then fail (badRequest ''target_not_agent'' ''target device has no Agent capability'')
              else if \<not> rule_Enabled r then ret ()
              else
                andThen (call (rs_LocalPortConflict S (rule_SourceID r) (rule_LocalPort r) excludeID)) (\<lambda>conflict.
                  if conflict then fail (badRequest ''local_port_conflict'' ''same source_id cannot reuse local_port across enabled rules'')
                  else ret ())))))"

definition checked_rule :: "'db rule_store \<Rightarrow> ForwardRule option \<Rightarrow> int \<Rightarrow> ('db, ForwardRule) action" where
  "checked_rule S body excludeID =
     andThen (result (decodeRule body)) (\<lambda>r.
     andThen (check (normalizeRuleValidationError (Validate r) r)) (\<lambda>_.
     andThen (validateRule S r excludeID) (\<lambda>_. ret r)))"

definition rule_text :: "int \<Rightarrow> ForwardRule \<Rightarrow> string" where
  "rule_text i r = ''#'' @ FormatInt i @ '' '' @ rule_SourceID r @ ''->'' @ rule_TargetID r @ '':'' @ FormatInt (rule_LocalPort r)"

definition handleForwards :: "'db rule_store \<Rightarrow> request \<Rightarrow> ForwardRule option \<Rightarrow> ('db, admin_json) action" where
  "handleForwards S r body =
     (if r_Method r = ''GET'' then andThen (enrichedRules (view_store.truncate S)) (\<lambda>rules. ret (Rules_json rules))
      else if r_Method r = ''POST'' then
        andThen (checked_rule S body 0) (\<lambda>checked.
        andThen (call (rs_CreateRule S checked)) (\<lambda>created.
        andThen (ignore (rs_Audit S ''rule_create'' (rule_text (rule_ID created) created))) (\<lambda>_. ret (Rule_json created))))
      else fail methodNotAllowed)"

definition handleForwardByID :: "'db rule_store \<Rightarrow> request \<Rightarrow> int option \<Rightarrow> ForwardRule option \<Rightarrow> ('db, admin_json) action" where
  "handleForwardByID S r idOpt body =
     (case idOpt of
        None \<Rightarrow> fail (badRequest ''bad_id'' ''bad id'')
      | Some i \<Rightarrow>
          if r_Method r = ''PATCH'' then
            andThen (checked_rule S body i) (\<lambda>checked. audited S ''rule_update'' (rule_text i checked) (call (rs_UpdateRule S i checked)))
          else if r_Method r = ''DELETE'' then audited S ''rule_delete'' (''#'' @ FormatInt i) (call (rs_DeleteRule S i))
          else fail methodNotAllowed)"

definition handleAdminForward :: "'db rule_store \<Rightarrow> request \<Rightarrow> ForwardRule option \<Rightarrow> ('db, admin_json) action" where
  "handleAdminForward S r body = handleForwardByID S r (Atoi (TrimPrefix (r_Path r) ''/api/admin/rules/'')) body"

subsection \<open>Logs\<close>

definition handleSessions :: "'db rule_store \<Rightarrow> ('db, admin_json) action" where
  "handleSessions S = andThen (call (rs_ListSessions S)) (\<lambda>sessions. ret (Sessions_json sessions))"

definition handleTunnelStates :: "'db rule_store \<Rightarrow> ('db, admin_json) action" where
  "handleTunnelStates S = andThen (call (vs_ListTunnelStates S)) (\<lambda>states. ret (Tunnels_json states))"

definition handleMetrics :: "'db rule_store \<Rightarrow> ('db, admin_json) action" where
  "handleMetrics S = andThen (call (rs_Metrics S)) (\<lambda>metrics. ret (Metrics_json metrics))"

definition handleAuditEvents :: "'db rule_store \<Rightarrow> request \<Rightarrow> ('db, admin_json) action" where
  "handleAuditEvents S r =
     (if r_Method r \<noteq> ''GET'' then fail methodNotAllowed
      else
        let flt = \<lparr>af_Kind = TrimSpace (r_Query r ''kind''), af_Keyword = TrimSpace (r_Query r ''keyword''), af_From = TrimSpace (r_Query r ''from''),
                   af_To = TrimSpace (r_Query r ''to''), af_Limit = (case Atoi (r_Query r ''limit'') of None \<Rightarrow> 0 | Some n \<Rightarrow> n)\<rparr>
        in andThen (call (rs_ListAuditEvents S flt)) (\<lambda>events. ret (Audit_json events)))"

section \<open>Local ports\<close>

text \<open>While the connection holds, a query leaves the database as it is.\<close>

lemma reads:
  assumes "cd_faults d = []"
  shows "fst (GetDevice C i d) = d" "fst (ListDeviceProductStates C d) = d"
    "LocalPortConflict C sourceID localPort excludeID d = (d, Inr (\<exists>row \<in> set (cd_rules d). same C (fr_SourceID row) sourceID \<and> fr_LocalPort row = localPort
       \<and> fr_Enabled row \<and> fr_ID row \<noteq> excludeID))"
  using assms
  by (auto simp: GetDevice_def got_def followed_def devices.sql_first_eq give_def ListDeviceProductStates_def listed_def sql_find_def LocalPortConflict_def
      forward_rules_def filter_empty_conv split: list.splits)

lemma control_rules_simps [simp]:
  "rs_GetDevice (control_rules C) = GetDevice C" "vs_ListDeviceProductStates (control_rules C) = ListDeviceProductStates C"
  "rs_LocalPortConflict (control_rules C) = LocalPortConflict C" "rs_CreateRule (control_rules C) = CreateRule C"
  "rs_UpdateRule (control_rules C) = UpdateRule C" "rs_DeleteRule (control_rules C) = DeleteRule" "rs_Audit (control_rules C) = Audit C"
  by (simp_all add: control_rules_def)

definition holds_port :: "control_env \<Rightarrow> string \<Rightarrow> int \<Rightarrow> ForwardRule_row \<Rightarrow> bool" where
  "holds_port C source port row \<longleftrightarrow> fr_Enabled row \<and> same C (fr_SourceID row) source \<and> fr_LocalPort row = port"

lemma rule_device_pure:
  "cd_faults d = [] \<Longrightarrow> rule_device (control_rules C) i msg d = Some (d1, res) \<Longrightarrow> d1 = d"
  using reads(1) [of d C i] by (cases "GetDevice C i d") (auto simp: rule_device_def onResult_def call_def ret_def fail_def split: sum.splits)

lemma capable_pure:
  "cd_faults d = [] \<Longrightarrow> agentCapableDevices (control_rules C) d = Some (d1, res) \<Longrightarrow> d1 = d"
  using reads(2) [of d C] by (cases "ListDeviceProductStates C d") (auto simp: agentCapableDevices_def andThen_def call_def ret_def split: sum.splits)

lemma validateRule_ok:
  assumes "cd_faults d = []" "validateRule (control_rules C) r excludeID d = Some (d1, Inr ())"
  shows "d1 = d \<and> (rule_Enabled r \<longrightarrow> (\<forall>row \<in> set (cd_rules d). holds_port C (rule_SourceID r) (rule_LocalPort r) row \<longrightarrow> fr_ID row = excludeID))"
proof -
  obtain source target capable d2 d3 d4 where s: "rule_device (control_rules C) (rule_SourceID r) ''source device not found'' d = Some (d2, Inr source)"
    "rule_device (control_rules C) (rule_TargetID r) ''target device not found'' d2 = Some (d3, Inr target)"
    "agentCapableDevices (control_rules C) d3 = Some (d4, Inr capable)"
    "(if \<not> rule_Enabled r then ret () else andThen (call (LocalPortConflict C (rule_SourceID r) (rule_LocalPort r) excludeID)) (\<lambda>conflict.
        if conflict then fail (badRequest ''local_port_conflict'' ''same source_id cannot reuse local_port across enabled rules'') else ret ())) d4 = Some (d1, Inr ())"
    using assms(2) unfolding validateRule_def by (auto simp: andThen_Inr fail_def split: if_splits)
  have "d2 = d" by (rule rule_device_pure [OF assms(1) s(1)])
  moreover from this have "d3 = d" using rule_device_pure [OF assms(1)] s(2) by blast
  moreover from this have "d4 = d" using capable_pure [OF assms(1)] s(3) by blast
  ultimately show ?thesis using s(4) assms(1) by (auto simp: andThen_def call_def reads(3) ret_def fail_def holds_port_def split: if_splits)
qed

lemma checked_rule_ok:
  assumes "cd_faults d = []" "checked_rule (control_rules C) (Some r) excludeID d = Some (d1, Inr checked)"
  shows "d1 = d \<and> checked = r\<lparr>rule_Profile := NormalizeProfile (rule_Profile r)\<rparr>
    \<and> (rule_Enabled r \<longrightarrow> (\<forall>row \<in> set (cd_rules d). holds_port C (rule_SourceID r) (rule_LocalPort r) row \<longrightarrow> fr_ID row = excludeID))"
proof -
  let ?r = "r\<lparr>rule_Profile := NormalizeProfile (rule_Profile r)\<rparr>"
  have "validateRule (control_rules C) ?r excludeID d = Some (d1, Inr ())" "checked = ?r"
    using assms(2) by (auto simp: checked_rule_def decodeRule_def andThen_Inr result_def check_def ret_def split: option.splits)
  then show ?thesis using validateRule_ok [OF assms(1), of C ?r] by simp
qed

lemma Audit_rules: "cd_rules (fst (Audit C kind detail d)) = cd_rules d"
  by (auto simp: Audit_def exec_def followed_def give_def sql_insert_auto_def statement_def set_rows_def audit_events_def Let_def split: prod.splits sum.splits list.splits if_splits)

lemma ignore_Audit: "ignore (Audit C kind detail) d = Some (d1, res) \<Longrightarrow> cd_rules d1 = cd_rules d"
  using Audit_rules [of C kind detail d] by (cases "Audit C kind detail d") (auto simp: ignore_def onResult_def call_def ret_def)

text \<open>The row of a new rule, and what its creation does to the table.\<close>

definition rule_row :: "control_env \<Rightarrow> ForwardRule \<Rightarrow> int \<Rightarrow> ForwardRule_row" where
  "rule_row C r i = \<lparr>fr_ID = i, fr_Name = rule_Name r, fr_SourceID = rule_SourceID r, fr_TargetID = rule_TargetID r,
     fr_Profile = or_default C '''' ''interactive'' (NormalizeProfile (rule_Profile r)), fr_LocalPort = rule_LocalPort r,
     fr_TargetHost = rule_TargetHost r, fr_TargetPort = rule_TargetPort r, fr_Enabled = or_default C False True (rule_Enabled r),
     fr_CreatedAt = co_now C, fr_UpdatedAt = co_now C\<rparr>"

lemma CreateRule_ok:
  assumes "cd_faults d = []" "CreateRule C r d = (d1, Inr created)"
  shows "cd_rules d1 = cd_rules d @ [rule_row C r (cd_next d RulesTable)] \<and> rule_ID created = cd_next d RulesTable \<and> rule_Enabled created = rule_Enabled r"
  using assms
  by (auto simp: CreateRule_def followed_def give_def sql_insert_auto_def Let_def set_rows_def forward_rules_def rule_row_def split: if_splits)

lemma post_rule:
  assumes "cd_faults d = []" "r_Method req = ''POST''"
    and "handleForwards (control_rules C) req (Some r) d = Some (d1, Inr answer)"
  obtains created where "answer = Rule_json created" "rule_Enabled created = rule_Enabled r" "rule_ID created = cd_next d RulesTable"
    "cd_rules d1 = cd_rules d @ [rule_row C (r\<lparr>rule_Profile := NormalizeProfile (rule_Profile r)\<rparr>) (cd_next d RulesTable)]"
    "rule_Enabled r \<longrightarrow> (\<forall>row \<in> set (cd_rules d). holds_port C (rule_SourceID r) (rule_LocalPort r) row \<longrightarrow> fr_ID row = 0)"
proof -
  obtain checked dc created d2 where s: "checked_rule (control_rules C) (Some r) 0 d = Some (dc, Inr checked)"
    "CreateRule C checked dc = (d2, Inr created)" "ignore (Audit C ''rule_create'' (rule_text (rule_ID created) created)) d2 = Some (d1, Inr ())" "answer = Rule_json created"
    using assms(2,3) unfolding handleForwards_def by (auto simp: andThen_Inr call_eq ret_eq)
  note c = checked_rule_ok [OF assms(1) s(1)]
  then have "CreateRule C checked d = (d2, Inr created)" using s(2) by simp
  from CreateRule_ok [OF assms(1) this] c s(4) ignore_Audit [OF s(3)] that show thesis by simp
qed

text \<open>What a request may do before it comes to a statement that writes: nothing, while the connection holds.\<close>

definition untouched :: "control_db \<Rightarrow> control_db \<Rightarrow> bool" where
  "untouched d d' \<longleftrightarrow> (cd_faults d = [] \<longrightarrow> d' = d)"

interpretation pure: kept_relation untouched
  by unfold_locales (auto simp: untouched_def)

lemma untouched_reads:
  "untouched d (fst (GetDevice C i d))" "untouched d (fst (ListDeviceProductStates C d))" "untouched d (fst (LocalPortConflict C sourceID port excl d))"
  "untouched d (fst (ListRules d))" "untouched d (fst (ListDevices C d))" "untouched d (fst (ListTunnelStates C d))"
  using reads [of d] by (auto simp: untouched_def ListRules_def ListDevices_def ListTunnelStates_def listed_def followed_def sql_find_def give_def)

lemma checked_untouched: "keeps untouched (checked_rule (control_rules C) body excludeID)"
  unfolding checked_rule_def validateRule_def rule_device_def agentCapableDevices_def control_rules_simps by (intro pure.keeps_rules untouched_reads)

lemma list_untouched: "keeps untouched (andThen (enrichedRules (view_store.truncate (control_rules C))) (\<lambda>rules. ret (Rules_json rules)))"
  unfolding enrichedRules_def control_rules_def view_store.truncate_def by (simp, intro pure.keeps_rules untouched_reads)

lemma untouchedD: "keeps untouched m \<Longrightarrow> m d = Some (d1, res) \<Longrightarrow> cd_faults d = [] \<Longrightarrow> d1 = d"
  using keepsD [of untouched m d d1 res] by (simp add: untouched_def)

definition ports_apart :: "control_env \<Rightarrow> ForwardRule_row list \<Rightarrow> bool" where
  "ports_apart C rows \<longleftrightarrow> (\<forall>a \<in> set rows. \<forall>b \<in> set rows. fr_Enabled a \<and> fr_Enabled b \<and> same C (fr_SourceID a) (fr_SourceID b)
     \<and> fr_LocalPort a = fr_LocalPort b \<longrightarrow> fr_ID a = fr_ID b)"

lemma ports_apartD:
  "ports_apart C rows \<Longrightarrow> a \<in> set rows \<Longrightarrow> b \<in> set rows \<Longrightarrow> fr_Enabled a \<Longrightarrow> fr_Enabled b \<Longrightarrow> same C (fr_SourceID a) (fr_SourceID b)
     \<Longrightarrow> fr_LocalPort a = fr_LocalPort b \<Longrightarrow> fr_ID a = fr_ID b"
  unfolding ports_apart_def by blast

lemma ports_apart_subset: "set rows' \<subseteq> set rows \<Longrightarrow> ports_apart C rows \<Longrightarrow> ports_apart C rows'"
  unfolding ports_apart_def by blast

lemma ports_apart_new:
  assumes "ports_apart C rows" "\<And>row. fr_Enabled new \<Longrightarrow> row \<in> set rows \<Longrightarrow> \<not> holds_port C (fr_SourceID new) (fr_LocalPort new) row"
  shows "ports_apart C (rows @ [new])"
  unfolding ports_apart_def
proof (intro ballI impI)
  fix a b
  assume ab: "a \<in> set (rows @ [new])" "b \<in> set (rows @ [new])"
    and h: "fr_Enabled a \<and> fr_Enabled b \<and> same C (fr_SourceID a) (fr_SourceID b) \<and> fr_LocalPort a = fr_LocalPort b"
  show "fr_ID a = fr_ID b"
  proof (cases "a = new \<or> b = new")
    case True
    then show ?thesis using ab h assms(2) [of a] assms(2) [of b] by (auto simp: holds_port_def same_def)
  next
    case False
    then show ?thesis using ab h by (intro ports_apartD [OF assms(1)]) auto
  qed
qed

lemma ports_apart_update:
  assumes "ports_apart C rows" "\<And>row. fr_ID (f row) = fr_ID row" "\<And>row. fr_SourceID (f row) = source \<and> fr_LocalPort (f row) = port \<and> fr_Enabled (f row) = enabled"
    and "\<And>row. enabled \<Longrightarrow> row \<in> set rows \<Longrightarrow> holds_port C source port row \<Longrightarrow> fr_ID row = i"
  shows "ports_apart C (map (\<lambda>row. if fr_ID row = i then f row else row) rows)"
  unfolding ports_apart_def
proof (intro ballI impI)
  let ?g = "\<lambda>row. if fr_ID row = i then f row else row"
  fix a' b'
  assume ab: "a' \<in> set (map ?g rows)" "b' \<in> set (map ?g rows)"
    and h: "fr_Enabled a' \<and> fr_Enabled b' \<and> same C (fr_SourceID a') (fr_SourceID b') \<and> fr_LocalPort a' = fr_LocalPort b'"
  from ab obtain a b where a: "a \<in> set rows" "a' = ?g a" "b \<in> set rows" "b' = ?g b" unfolding set_map by (elim imageE)
  then have id: "fr_ID a' = fr_ID a" "fr_ID b' = fr_ID b" using assms(2) by simp_all
  have key: "fr_ID x = i" if "x \<in> set rows" "fr_Enabled (?g x)" "same C (fr_SourceID (?g x)) source" "fr_LocalPort (?g x) = port" enabled for x
    using that assms(4) [of x] by (cases "fr_ID x = i") (simp_all add: holds_port_def)
  show "fr_ID a' = fr_ID b'"
  proof (cases "fr_ID a = i \<or> fr_ID b = i")
    case True
    then have "fr_ID a = i \<and> fr_ID b = i"
    proof (elim disjE)
      assume i: "fr_ID a = i"
      then have "a' = f a" using a(2) by simp
      then have "fr_ID b = i" using h a(4) assms(3) [of a] by (intro key [OF a(3)]) (simp_all add: same_def)
      with i show ?thesis by simp
    next
      assume i: "fr_ID b = i"
      then have "b' = f b" using a(4) by simp
      then have "fr_ID a = i" using h a(2) assms(3) [of b] by (intro key [OF a(1)]) (simp_all add: same_def)
      with i show ?thesis by simp
    qed
    then show ?thesis using id by simp
  next
    case False
    then have "a' = a" "b' = b" using a by simp_all
    then show ?thesis using a h by (intro ports_apartD [OF assms(1)]) auto
  qed
qed

lemma CreateRule_rules:
  assumes "cd_faults d = []"
  shows "cd_rules (fst (CreateRule C r d)) \<in> {cd_rules d, cd_rules d @ [rule_row C r (cd_next d RulesTable)]}"
  using assms by (auto simp: CreateRule_def followed_def give_def sql_insert_auto_def Let_def set_rows_def forward_rules_def rule_row_def split: if_splits)

definition update_rule_row :: "control_env \<Rightarrow> ForwardRule \<Rightarrow> ForwardRule_row \<Rightarrow> ForwardRule_row" where
  "update_rule_row C r row = row\<lparr>fr_Name := rule_Name r, fr_SourceID := rule_SourceID r, fr_TargetID := rule_TargetID r,
     fr_Profile := NormalizeProfile (rule_Profile r), fr_LocalPort := rule_LocalPort r, fr_TargetHost := rule_TargetHost r,
     fr_TargetPort := rule_TargetPort r, fr_Enabled := rule_Enabled r, fr_UpdatedAt := co_now C\<rparr>"

lemma writes_rules:
  assumes "cd_faults d = []"
  shows "cd_rules (fst (UpdateRule C i r d)) \<in> {cd_rules d, map (\<lambda>row. if fr_ID row = i then update_rule_row C r row else row) (cd_rules d)}"
    "set (cd_rules (fst (DeleteRule i d))) \<subseteq> set (cd_rules d)"
  using assms
  by (auto simp: UpdateRule_def DeleteRule_def affecting_def followed_def give_def raise_def sql_update_def sql_delete_def set_rows_def forward_rules_def
      update_rule_row_def split: if_splits)

lemma audited_rules: "audited (control_rules C) kind detail (call m) d = Some (d1, res) \<Longrightarrow> cd_rules d1 = cd_rules (fst (m d))"
  by (cases "m d") (auto simp: audited_def andThen_def call_def ret_def dest: ignore_Audit split: sum.splits option.splits prod.splits)

lemma andThen_cases:
  assumes "andThen m f d = Some (d1, res)"
  obtains (failed) e where "m d = Some (d1, Inl e)" | (went_on) d2 x where "m d = Some (d2, Inr x)" "f x d2 = Some (d1, res)"
  using assms by (auto simp: andThen_def split: option.splits prod.splits sum.splits)

definition rules_ok :: "control_env \<Rightarrow> control_db \<Rightarrow> bool" where
  "rules_ok C d \<longleftrightarrow> cd_faults d = [] \<and> ports_apart C (cd_rules d) \<and> (\<forall>row \<in> set (cd_rules d). 0 < fr_ID row)"

lemma create_apart:
  assumes "rules_ok C d" "\<not> co_defaults C \<or> rule_Enabled r" "handleForwards (control_rules C) req (Some r) d = Some (d1, res)"
  shows "ports_apart C (cd_rules d1)"
proof -
  have ok: "cd_faults d = []" "ports_apart C (cd_rules d)" and pos: "\<And>row. row \<in> set (cd_rules d) \<Longrightarrow> fr_ID row \<noteq> 0"
    using assms(1) by (auto simp: rules_ok_def)
  consider (get) "r_Method req = ''GET''" | (post) "r_Method req = ''POST''" | (other) "r_Method req \<notin> {''GET'', ''POST''}" by auto
  then show ?thesis
  proof cases
    case get
    then have "d1 = d" using assms(3) untouchedD [OF list_untouched _ ok(1)] by (simp add: handleForwards_def)
    then show ?thesis using ok(2) by simp
  next
    case post
    then have "andThen (checked_rule (control_rules C) (Some r) 0) (\<lambda>checked. andThen (call (CreateRule C checked)) (\<lambda>created.
      andThen (ignore (Audit C ''rule_create'' (rule_text (rule_ID created) created))) (\<lambda>_. ret (Rule_json created)))) d = Some (d1, res)"
      using assms(3) by (simp add: handleForwards_def)
    then show ?thesis
    proof (cases rule: andThen_cases)
      case (failed e)
      then show ?thesis using untouchedD [OF checked_untouched _ ok(1)] ok(2) by blast
    next
      case (went_on d2 checked)
      note c = checked_rule_ok [OF ok(1) went_on(1)]
      then have "cd_rules d1 = cd_rules (fst (CreateRule C checked d))"
        using went_on(2) by (cases "CreateRule C checked d") (auto simp: andThen_def call_def ret_def dest: ignore_Audit split: sum.splits option.splits prod.splits)
      moreover have "ports_apart C (cd_rules d @ [rule_row C checked (cd_next d RulesTable)])"
        using c pos assms(2) by (intro ports_apart_new [OF ok(2)]) (auto simp: rule_row_def or_default_def)
      ultimately show ?thesis using CreateRule_rules [OF ok(1), of C checked] ok(2) by auto
    qed
  next
    case other
    then show ?thesis using assms(3) ok(2) by (simp add: handleForwards_def fail_def)
  qed
qed

lemma change_apart:
  assumes "rules_ok C d" "handleForwardByID (control_rules C) req (Some i) (Some r) d = Some (d1, res)"
  shows "ports_apart C (cd_rules d1)"
proof -
  have ok: "cd_faults d = []" "ports_apart C (cd_rules d)" using assms(1) by (auto simp: rules_ok_def)
  consider (patch) "r_Method req = ''PATCH''" | (delete) "r_Method req = ''DELETE''" | (other) "r_Method req \<notin> {''PATCH'', ''DELETE''}" by auto
  then show ?thesis
  proof cases
    case patch
    then have "andThen (checked_rule (control_rules C) (Some r) i) (\<lambda>checked. audited (control_rules C) ''rule_update'' (rule_text i checked)
      (call (UpdateRule C i checked))) d = Some (d1, res)" using assms(2) by (simp add: handleForwardByID_def)
    then show ?thesis
    proof (cases rule: andThen_cases)
      case (failed e)
      then show ?thesis using untouchedD [OF checked_untouched _ ok(1)] ok(2) by blast
    next
      case (went_on d2 checked)
      note c = checked_rule_ok [OF ok(1) went_on(1)]
      then have "cd_rules d1 = cd_rules (fst (UpdateRule C i checked d))" using audited_rules [OF went_on(2)] by simp
      moreover have "ports_apart C (map (\<lambda>row. if fr_ID row = i then update_rule_row C checked row else row) (cd_rules d))"
        using c by (intro ports_apart_update [OF ok(2), where source = "rule_SourceID r" and port = "rule_LocalPort r" and enabled = "rule_Enabled r"])
          (auto simp: update_rule_row_def)
      ultimately show ?thesis using writes_rules(1) [OF ok(1), of C i checked] ok(2) by auto
    qed
  next
    case delete
    then have "audited (control_rules C) ''rule_delete'' (''#'' @ FormatInt i) (call (DeleteRule i)) d = Some (d1, res)"
      using assms(2) by (simp add: handleForwardByID_def)
    then show ?thesis using audited_rules writes_rules(2) [OF ok(1)] ports_apart_subset [OF _ ok(2)] by metis
  next
    case other
    then show ?thesis using assms(2) ok(2) by (simp add: handleForwardByID_def fail_def)
  qed
qed


text \<open>C37. A rule that is created disabled is stored enabled: \<^verbatim>\<open>Create\<close> of GORM takes the zero value of a field with a \<^verbatim>\<open>default\<close> tag for a missing
  one, so that \<^verbatim>\<open>default:true\<close> turns it on, and the answer still says that the rule is disabled.  The check of local ports, which leaves
  disabled rules out, has not been made for it.\<close>

theorem disabled_rule_stored_enabled:
  assumes "co_defaults C" "cd_faults d = []" "r_Method req = ''POST''" "\<not> rule_Enabled r"
    and "handleForwards (control_rules C) req (Some r) d = Some (d1, Inr answer)"
  shows "\<exists>created row. answer = Rule_json created \<and> \<not> rule_Enabled created \<and> row \<in> set (cd_rules d1) \<and> fr_ID row = rule_ID created \<and> fr_Enabled row"
proof -
  obtain created where c: "answer = Rule_json created" "rule_Enabled created = rule_Enabled r" "rule_ID created = cd_next d RulesTable"
    "cd_rules d1 = cd_rules d @ [rule_row C (r\<lparr>rule_Profile := NormalizeProfile (rule_Profile r)\<rparr>) (cd_next d RulesTable)]"
    by (rule post_rule [OF assms(2,3,5)])
  then show ?thesis using assms(1,4)
    by (intro exI [of _ created] exI [of _ "rule_row C (r\<lparr>rule_Profile := NormalizeProfile (rule_Profile r)\<rparr>) (cd_next d RulesTable)"])
      (simp add: rule_row_def or_default_def)
qed

section \<open>A small table of rules\<close>

definition demo_device :: "string \<Rightarrow> Device_row" where
  "demo_device i = \<lparr>dv_ID = i, dv_Name = '''', dv_Addr = '''', dv_UpnpAddr = '''', dv_Want = '''', dv_Online = True, dv_Enabled = True,
     dv_LastSeen = '''', dv_CreatedAt = ''''\<rparr>"

definition demo_product :: "string \<Rightarrow> DeviceProductState_row" where
  "demo_product i = \<lparr>dp_DeviceID = i, dp_Product = ''agent'', dp_Online = True, dp_LastSeenAt = '''', dp_LastSource = ''agent_register'',
     dp_Version = '''', dp_LastError = '''', dp_Metadata = ''{}''\<rparr>"

definition demo_rule :: "bool \<Rightarrow> int \<Rightarrow> ForwardRule" where
  "demo_rule enabled port = \<lparr>rule_ID = 0, rule_Name = '''', rule_SourceID = ''a'', rule_TargetID = ''b'', rule_Profile = '''', rule_LocalPort = port,
     rule_TargetHost = ''h'', rule_TargetPort = 80, rule_Enabled = enabled, rule_CreatedAt = '''', rule_UpdatedAt = '''', rule_RuntimeState = '''',
     rule_LastError = '''', rule_LastUpdatedAt = '''', rule_Attempt = 0, rule_NextRetryAt = ''''\<rparr>"

definition demo_rules :: control_db where
  "demo_rules = empty_db\<lparr>cd_devices := [demo_device ''a'', demo_device ''b''], cd_products := [demo_product ''a'', demo_product ''b''],
     cd_rules := [rule_row demo_control (demo_rule True 8080) 3]\<rparr>"

definition post :: request where
  "post = \<lparr>r_Method = ''POST'', r_Path = ''/api/admin/rules'', r_Query = (\<lambda>_. ''''), r_RemoteAddr = '''', r_Host = ''''\<rparr>"

lemma demo_rules_ok: "rules_ok demo_control demo_rules"
  by (simp add: rules_ok_def ports_apart_def demo_rules_def empty_db_def rule_row_def)

lemma demo_reads:
  "GetDevice demo_control ''a'' demo_rules = (demo_rules, Inr (Device_toStore (demo_device ''a'')))"
  "GetDevice demo_control ''b'' demo_rules = (demo_rules, Inr (Device_toStore (demo_device ''b'')))"
  "ListDeviceProductStates demo_control demo_rules
     = (demo_rules, Inr [DeviceProductState_toStore (\<lambda>_. []) (demo_product ''a''), DeviceProductState_toStore (\<lambda>_. []) (demo_product ''b'')])"
  by (simp_all add: GetDevice_def ListDeviceProductStates_def listed_def statement_defs demo_rules_def empty_db_def demo_control_def demo_device_def
      demo_product_def devices_table_def device_product_states_def)

lemma demo_checked:
  assumes "port \<noteq> 8080 \<or> \<not> enabled" "0 < port" "port < 65536"
  shows "checked_rule (control_rules demo_control) (Some (demo_rule enabled port)) 0 demo_rules
    = Some (demo_rules, Inr ((demo_rule enabled port)\<lparr>rule_Profile := ''interactive''\<rparr>))"
proof -
  have "LocalPortConflict demo_control ''a'' port 0 demo_rules = (demo_rules, Inr (port = 8080))"
    by (simp add: LocalPortConflict_def statement_defs demo_rules_def empty_db_def forward_rules_def rule_row_def demo_rule_def demo_control_def or_default_def)
  then show ?thesis using assms
    by (simp add: checked_rule_def decodeRule_def andThen_def result_def check_def validateRule_def rule_device_def onResult_def call_def ret_def
        agentCapableDevices_def demo_rule_def demo_reads Device_toStore_def demo_device_def DeviceProductState_toStore_def demo_product_def
        normalizeRuleValidationError_def Validate_def ValidProfile_def ProfileInteractive_def ProfileBulk_def TrimSpace_plain plain_char_def)
qed

lemma demo_post:
  assumes "port \<noteq> 8080 \<or> \<not> enabled" "0 < port" "port < 65536"
  shows "\<exists>d1 answer. handleForwards (control_rules demo_control) post (Some (demo_rule enabled port)) demo_rules = Some (d1, Inr answer)
    \<and> cd_rules d1 = [rule_row demo_control (demo_rule True 8080) 3, rule_row demo_control ((demo_rule enabled port)\<lparr>rule_Profile := ''interactive''\<rparr>) 7]"
proof -
  define r where "r = (demo_rule enabled port)\<lparr>rule_Profile := ''interactive''\<rparr>"
  obtain d1 created where c: "CreateRule demo_control r demo_rules = (d1, Inr created)" and rows: "cd_rules d1 = [rule_row demo_control (demo_rule True 8080) 3, rule_row demo_control r 7]"
    by (cases "CreateRule demo_control r demo_rules")
      (auto simp: CreateRule_def statement_defs demo_rules_def empty_db_def forward_rules_def rule_row_def Let_def split: if_splits)
  obtain d2 where "ignore (Audit demo_control ''rule_create'' (rule_text (rule_ID created) created)) d1 = Some (d2, Inr ())"
    by (cases "Audit demo_control ''rule_create'' (rule_text (rule_ID created) created) d1") (auto simp: ignore_def onResult_def call_def ret_def)
  then show ?thesis using c rows demo_checked [OF assms] ignore_Audit unfolding r_def [symmetric]
    by (force simp: handleForwards_def post_def andThen_def call_def ret_def)
qed


theorem disabled_rule_stored_enabled_witness:
  "\<exists>d1 created. handleForwards (control_rules demo_control) post (Some (demo_rule False 8080)) demo_rules = Some (d1, Inr (Rule_json created))
     \<and> \<not> rule_Enabled created \<and> (\<exists>row \<in> set (cd_rules d1). fr_ID row = rule_ID created \<and> fr_Enabled row) \<and> \<not> ports_apart demo_control (cd_rules d1)"
proof -
  obtain d1 answer where d1: "handleForwards (control_rules demo_control) post (Some (demo_rule False 8080)) demo_rules = Some (d1, Inr answer)"
    and rows: "cd_rules d1 = [rule_row demo_control (demo_rule True 8080) 3, rule_row demo_control ((demo_rule False 8080)\<lparr>rule_Profile := ''interactive''\<rparr>) 7]"
    using demo_post [of 8080 False] by auto
  have env: "co_defaults demo_control" "cd_faults demo_rules = []" "r_Method post = ''POST''" "\<not> rule_Enabled (demo_rule False 8080)"
    by (simp_all add: demo_control_def demo_rules_def empty_db_def post_def demo_rule_def)
  have "\<not> ports_apart demo_control (cd_rules d1)"
    unfolding rows ports_apart_def by (simp add: rule_row_def demo_rule_def or_default_def demo_control_def)
  with disabled_rule_stored_enabled [OF env d1] d1 show ?thesis by blast
qed

end
