(* ===== verification/Settings.thy ===== *)
theory Settings
  imports AdminApi
begin

text \<open>
  The settings that administrators change at run time: \<^verbatim>\<open>internal/server/settings.go\<close>, which reads them from the database when the server starts, and
  \<^verbatim>\<open>handleSettings\<close> of \<^verbatim>\<open>handlers_admin.go\<close>, which changes and stores them.

  \<^item> \<open>setting_store\<close> has the operations of \<^verbatim>\<open>controlstore.Store\<close> on settings; \<open>setting_rows\<close> is the contract the two parts rely on.
  \<^item> \<open>order\<close> gives the order in which a \<^verbatim>\<open>range\<close> loop over a Go map visits its entries.
\<close>

subsection \<open>Data\<close>

definition FormatBool :: "bool \<Rightarrow> string" where
  "FormatBool b = (if b then ''true'' else ''false'')"

definition ParseBool :: "string \<Rightarrow> bool option" where
  "ParseBool s =
     (if s \<in> {''1'', ''t'', ''T'', ''true'', ''TRUE'', ''True''} then Some True
      else if s \<in> {''0'', ''f'', ''F'', ''false'', ''FALSE'', ''False''} then Some False
      else None)"

record 'db setting_store =
  st_GetSystemSetting :: "string \<Rightarrow> ('db, string) store_op"
  st_PutSystemSetting :: "string \<Rightarrow> string \<Rightarrow> ('db, unit) store_op"
  st_GetMeta :: "string \<Rightarrow> ('db, string) store_op"

definition control_settings :: "control_env \<Rightarrow> control_db setting_store" where
  "control_settings C = \<lparr>st_GetSystemSetting = GetSystemSetting C, st_PutSystemSetting = PutSystemSetting C, st_GetMeta = GetMeta C\<rparr>"

record settings_request =
  sr_PeerTTL :: string
  sr_PairTTL :: string
  sr_RelayIdleTimeout :: string
  sr_AllowRelay :: bool
  sr_LANAllowRelay :: bool
  sr_AllowLegacy :: bool
  sr_ClientNoUPnP :: bool
  sr_ClientUPnPTimeout :: string
  sr_ClientLogLevel :: string
  sr_ClientTrayEnabled :: bool
  sr_ClientPunchTimeout :: string
  sr_ClientForceRelay :: bool
  sr_ClientAllowLegacy :: bool
  sr_ClientReleaseVersion :: string
  sr_ClientReleaseURL :: string
  sr_ClientReleaseSHA256 :: string
  sr_ClientReleasePublishedAt :: string
  sr_ClientReleaseNotes :: string
  sr_ClientReleaseMinimumSupported :: string
  sr_ClientReleaseFile :: string
  sr_LANReleaseVersion :: string
  sr_LANReleaseURL :: string
  sr_LANReleaseSHA256 :: string
  sr_LANReleasePublishedAt :: string
  sr_LANReleaseNotes :: string
  sr_LANReleaseMinimumSupported :: string
  sr_LANReleaseFile :: string

text \<open>The settings that are kept in the database, as the texts that are stored.\<close>

definition setting_texts :: "durations \<Rightarrow> ServerConfig \<Rightarrow> (string \<times> string) list" where
  "setting_texts D cfg =
     [(''peer_ttl'', du_string D (cfg_PeerTTL cfg)), (''pair_ttl'', du_string D (cfg_PairTTL cfg)),
      (''relay_idle_timeout'', du_string D (cfg_RelayIdleTimeout cfg)), (''allow_relay'', FormatBool (cfg_AllowRelay cfg)),
      (''lan_allow_relay'', FormatBool (cfg_LANAllowRelay cfg)), (''allow_legacy'', FormatBool (cfg_AllowLegacy cfg)),
      (''client_no_upnp'', FormatBool (cfg_ClientNoUPnP cfg)), (''client_upnp_timeout'', du_string D (cfg_ClientUPnPTimeout cfg)),
      (''client_log_level'', cfg_ClientLogLevel cfg), (''client_tray_enabled'', FormatBool (cfg_ClientTrayEnabled cfg)),
      (''client_punch_timeout'', du_string D (cfg_ClientPunchTimeout cfg)),
      (''client_force_relay'', FormatBool (cfg_ClientForceRelay cfg)), (''client_allow_legacy'', FormatBool (cfg_ClientAllowLegacy cfg)),
      (''client_release_version'', cfg_ClientReleaseVersion cfg), (''client_release_url'', cfg_ClientReleaseURL cfg),
      (''client_release_sha256'', cfg_ClientReleaseSHA256 cfg), (''client_release_published_at'', cfg_ClientReleasePublishedAt cfg),
      (''client_release_notes'', cfg_ClientReleaseNotes cfg),
      (''client_release_minimum_supported_version'', cfg_ClientReleaseMinimumSupported cfg),
      (''client_release_file'', cfg_ClientReleaseFile cfg), (''lan_release_version'', cfg_LANReleaseVersion cfg),
      (''lan_release_url'', cfg_LANReleaseURL cfg), (''lan_release_sha256'', cfg_LANReleaseSHA256 cfg),
      (''lan_release_published_at'', cfg_LANReleasePublishedAt cfg), (''lan_release_notes'', cfg_LANReleaseNotes cfg),
      (''lan_release_minimum_supported_version'', cfg_LANReleaseMinimumSupported cfg), (''lan_release_file'', cfg_LANReleaseFile cfg)]"

definition duration_settings :: "(string \<times> (duration \<Rightarrow> ServerConfig \<Rightarrow> ServerConfig)) list" where
  "duration_settings =
     [(''peer_ttl'', \<lambda>x cfg. cfg\<lparr>cfg_PeerTTL := x\<rparr>),
      (''pair_ttl'', \<lambda>x cfg. cfg\<lparr>cfg_PairTTL := x\<rparr>),
      (''relay_idle_timeout'', \<lambda>x cfg. cfg\<lparr>cfg_RelayIdleTimeout := x\<rparr>),
      (''client_upnp_timeout'', \<lambda>x cfg. cfg\<lparr>cfg_ClientUPnPTimeout := x\<rparr>),
      (''client_punch_timeout'', \<lambda>x cfg. cfg\<lparr>cfg_ClientPunchTimeout := x\<rparr>)]"

definition bool_settings :: "(string \<times> (bool \<Rightarrow> ServerConfig \<Rightarrow> ServerConfig)) list" where
  "bool_settings =
     [(''allow_relay'', \<lambda>x cfg. cfg\<lparr>cfg_AllowRelay := x\<rparr>),
      (''lan_allow_relay'', \<lambda>x cfg. cfg\<lparr>cfg_LANAllowRelay := x\<rparr>),
      (''allow_legacy'', \<lambda>x cfg. cfg\<lparr>cfg_AllowLegacy := x\<rparr>),
      (''client_no_upnp'', \<lambda>x cfg. cfg\<lparr>cfg_ClientNoUPnP := x\<rparr>),
      (''client_tray_enabled'', \<lambda>x cfg. cfg\<lparr>cfg_ClientTrayEnabled := x\<rparr>),
      (''client_force_relay'', \<lambda>x cfg. cfg\<lparr>cfg_ClientForceRelay := x\<rparr>),
      (''client_allow_legacy'', \<lambda>x cfg. cfg\<lparr>cfg_ClientAllowLegacy := x\<rparr>)]"

definition string_settings :: "(string \<times> (string \<Rightarrow> ServerConfig \<Rightarrow> ServerConfig)) list" where
  "string_settings =
     [(''client_log_level'', \<lambda>x cfg. cfg\<lparr>cfg_ClientLogLevel := x\<rparr>),
      (''client_release_version'', \<lambda>x cfg. cfg\<lparr>cfg_ClientReleaseVersion := x\<rparr>),
      (''client_release_url'', \<lambda>x cfg. cfg\<lparr>cfg_ClientReleaseURL := x\<rparr>),
      (''client_release_sha256'', \<lambda>x cfg. cfg\<lparr>cfg_ClientReleaseSHA256 := x\<rparr>),
      (''client_release_published_at'', \<lambda>x cfg. cfg\<lparr>cfg_ClientReleasePublishedAt := x\<rparr>),
      (''client_release_notes'', \<lambda>x cfg. cfg\<lparr>cfg_ClientReleaseNotes := x\<rparr>),
      (''client_release_minimum_supported_version'', \<lambda>x cfg. cfg\<lparr>cfg_ClientReleaseMinimumSupported := x\<rparr>),
      (''client_release_file'', \<lambda>x cfg. cfg\<lparr>cfg_ClientReleaseFile := x\<rparr>),
      (''lan_release_version'', \<lambda>x cfg. cfg\<lparr>cfg_LANReleaseVersion := x\<rparr>),
      (''lan_release_url'', \<lambda>x cfg. cfg\<lparr>cfg_LANReleaseURL := x\<rparr>),
      (''lan_release_sha256'', \<lambda>x cfg. cfg\<lparr>cfg_LANReleaseSHA256 := x\<rparr>),
      (''lan_release_published_at'', \<lambda>x cfg. cfg\<lparr>cfg_LANReleasePublishedAt := x\<rparr>),
      (''lan_release_notes'', \<lambda>x cfg. cfg\<lparr>cfg_LANReleaseNotes := x\<rparr>),
      (''lan_release_minimum_supported_version'', \<lambda>x cfg. cfg\<lparr>cfg_LANReleaseMinimumSupported := x\<rparr>),
      (''lan_release_file'', \<lambda>x cfg. cfg\<lparr>cfg_LANReleaseFile := x\<rparr>)]"

subsection \<open>Start of the server\<close>

fun ensure_each :: "'db setting_store \<Rightarrow> (string \<times> string) list \<Rightarrow> ('db, unit) action" where
  "ensure_each S [] = ret ()"
| "ensure_each S ((key, v) # defaults) =
     andThen (call (st_GetSystemSetting S key)) (\<lambda>existing.
       if existing = '''' then
         andThen (call (st_GetMeta S (''setting_'' @ key))) (\<lambda>legacy.
         andThen (call (st_PutSystemSetting S key (if legacy \<noteq> '''' then legacy else v))) (\<lambda>_. ensure_each S defaults))
       else ensure_each S defaults)"

definition ensureDefaultSettings ::
  "durations \<Rightarrow> ((string \<times> string) list \<Rightarrow> (string \<times> string) list) \<Rightarrow> 'db setting_store \<Rightarrow> ServerConfig \<Rightarrow> ('db, unit) action"
where
  "ensureDefaultSettings D order S cfg = ensure_each S (order (setting_texts D cfg))"

text \<open>One loop over settings of a kind; \<open>skip\<close> says whether an empty text leaves the setting as it is.\<close>

fun apply_each :: "(string \<Rightarrow> 'v option) \<Rightarrow> bool \<Rightarrow> 'db setting_store \<Rightarrow> (string \<times> ('v \<Rightarrow> ServerConfig \<Rightarrow> ServerConfig)) list \<Rightarrow> ServerConfig
  \<Rightarrow> ('db, ServerConfig) action" where
  "apply_each parse skip S [] cfg = ret cfg"
| "apply_each parse skip S ((key, assign) # items) cfg =
     andThen (call (st_GetSystemSetting S key)) (\<lambda>v.
       if v = '''' \<and> skip then apply_each parse skip S items cfg
       else case parse v of None \<Rightarrow> fail (OtherError ''parse'') | Some x \<Rightarrow> apply_each parse skip S items (assign x cfg))"

definition applySystemSettingsLocked :: "durations \<Rightarrow> 'db setting_store \<Rightarrow> ServerConfig \<Rightarrow> ('db, ServerConfig) action" where
  "applySystemSettingsLocked D S cfg =
     andThen (apply_each (du_parse D) True S duration_settings cfg) (\<lambda>cfg.
     andThen (apply_each ParseBool True S bool_settings cfg) (\<lambda>cfg.
     apply_each Some False S string_settings cfg))"

definition applyStoredSettings ::
  "durations \<Rightarrow> ((string \<times> string) list \<Rightarrow> (string \<times> string) list) \<Rightarrow> 'db setting_store \<Rightarrow> ServerConfig \<Rightarrow> ('db, ServerConfig) action"
where
  "applyStoredSettings D order S cfg = andThen (ensureDefaultSettings D order S cfg) (\<lambda>_. applySystemSettingsLocked D S cfg)"

subsection \<open>Changes\<close>

definition patched :: "settings_request \<Rightarrow> duration \<Rightarrow> duration \<Rightarrow> duration \<Rightarrow> duration \<Rightarrow> duration \<Rightarrow> ServerConfig \<Rightarrow> ServerConfig" where
  "patched req peerTTL pairTTL relayIdle upnpTimeout punchTimeout cfg =
     cfg\<lparr>cfg_PeerTTL := peerTTL, cfg_PairTTL := pairTTL, cfg_RelayIdleTimeout := relayIdle, cfg_AllowRelay := sr_AllowRelay req,
         cfg_LANAllowRelay := sr_LANAllowRelay req, cfg_AllowLegacy := sr_AllowLegacy req, cfg_ClientNoUPnP := sr_ClientNoUPnP req,
         cfg_ClientUPnPTimeout := upnpTimeout, cfg_ClientLogLevel := sr_ClientLogLevel req, cfg_ClientTrayEnabled := sr_ClientTrayEnabled req,
         cfg_ClientPunchTimeout := punchTimeout, cfg_ClientForceRelay := sr_ClientForceRelay req,
         cfg_ClientAllowLegacy := sr_ClientAllowLegacy req, cfg_ClientReleaseVersion := sr_ClientReleaseVersion req,
         cfg_ClientReleaseURL := sr_ClientReleaseURL req, cfg_ClientReleaseSHA256 := sr_ClientReleaseSHA256 req,
         cfg_ClientReleasePublishedAt := sr_ClientReleasePublishedAt req, cfg_ClientReleaseNotes := sr_ClientReleaseNotes req,
         cfg_ClientReleaseMinimumSupported := sr_ClientReleaseMinimumSupported req, cfg_ClientReleaseFile := sr_ClientReleaseFile req,
         cfg_LANReleaseVersion := sr_LANReleaseVersion req, cfg_LANReleaseURL := sr_LANReleaseURL req,
         cfg_LANReleaseSHA256 := sr_LANReleaseSHA256 req, cfg_LANReleasePublishedAt := sr_LANReleasePublishedAt req,
         cfg_LANReleaseNotes := sr_LANReleaseNotes req, cfg_LANReleaseMinimumSupported := sr_LANReleaseMinimumSupported req,
         cfg_LANReleaseFile := sr_LANReleaseFile req\<rparr>"

definition parse_settings :: "durations \<Rightarrow> settings_request option \<Rightarrow> server_error + (ServerConfig \<Rightarrow> ServerConfig)" where
  "parse_settings D body =
     (case body of
        None \<Rightarrow> Inl bad_json
      | Some req \<Rightarrow>
     (case du_parse D (sr_PeerTTL req) of
        None \<Rightarrow> Inl (badRequest ''bad_peer_ttl'' ''bad peer_ttl'')
      | Some peerTTL \<Rightarrow>
     (case du_parse D (sr_PairTTL req) of
        None \<Rightarrow> Inl (badRequest ''bad_pair_ttl'' ''bad pair_ttl'')
      | Some pairTTL \<Rightarrow>
     (case du_parse D (sr_RelayIdleTimeout req) of
        None \<Rightarrow> Inl (badRequest ''bad_relay_idle_timeout'' ''bad relay_idle_timeout'')
      | Some relayIdle \<Rightarrow>
      if peerTTL < 10 * Second \<or> pairTTL < 10 * Second \<or> relayIdle < 10 * Second
      then Inl (badRequest ''duration_too_short'' ''durations must be at least 10s'')
      else
     (case du_parse D (sr_ClientUPnPTimeout req) of
        None \<Rightarrow> Inl (badRequest ''bad_client_upnp_timeout'' ''bad client_upnp_timeout'')
      | Some upnpTimeout \<Rightarrow>
     (case du_parse D (sr_ClientPunchTimeout req) of
        None \<Rightarrow> Inl (badRequest ''bad_client_punch_timeout'' ''bad client_punch_timeout'')
      | Some punchTimeout \<Rightarrow>
      if upnpTimeout < Second \<or> punchTimeout < Second
      then Inl (badRequest ''client_duration_too_short'' ''client durations must be at least 1s'')
      else Inr (patched req peerTTL pairTTL relayIdle upnpTimeout punchTimeout)))))))"

fun put_each :: "'db setting_store \<Rightarrow> (string \<times> string) list \<Rightarrow> ('db, unit) action" where
  "put_each S [] = ret ()"
| "put_each S ((key, v) # settings) = andThen (call (st_PutSystemSetting S key v)) (\<lambda>_. put_each S settings)"

text \<open>The configuration in memory changes before the settings are stored, and stays changed when that fails.\<close>

definition patchSettings ::
  "durations \<Rightarrow> ((string \<times> string) list \<Rightarrow> (string \<times> string) list) \<Rightarrow> 'db setting_store \<Rightarrow> settings_request option \<Rightarrow> ServerConfig
   \<Rightarrow> ServerConfig \<times> ('db, unit) action"
where
  "patchSettings D order S body cfg =
     (case parse_settings D body of
        Inl e \<Rightarrow> (cfg, fail e)
      | Inr change \<Rightarrow> let cfg = change cfg in (cfg, put_each S (order (setting_texts D cfg))))"

definition settings_view :: "durations \<Rightarrow> ServerConfig \<Rightarrow> (string \<times> json_value) list \<times> string list" where
  "settings_view D cfg =
     ([(''udp_listen'', JString (cfg_UDPListen cfg)), (''stun_alt_listen'', JString (cfg_StunAltListen cfg)), (''http_listen'', JString (cfg_HTTPListen cfg)),
       (''control_database_configured'', JBool (cfg_ControlDatabaseDSN cfg \<noteq> '''')), (''psk_configured'', JBool (cfg_PSK cfg \<noteq> ''''))]
        @ map (\<lambda>(key, v). (key, case ParseBool v of Some b \<Rightarrow> if key \<in> fst ` set bool_settings then JBool b else JString v | None \<Rightarrow> JString v)) (setting_texts D cfg),
      [''udp_listen'', ''stun_alt_listen'', ''http_listen'', ''control_database_dsn'', ''psk''])"

definition handleSettings ::
  "durations \<Rightarrow> ((string \<times> string) list \<Rightarrow> (string \<times> string) list) \<Rightarrow> 'db setting_store \<Rightarrow> request \<Rightarrow> settings_request option \<Rightarrow> ServerConfig
   \<Rightarrow> ServerConfig \<times> ('db, ((string \<times> json_value) list \<times> string list) option) action"
where
  "handleSettings D order S r body cfg =
     (if r_Method r = ''GET'' then (cfg, ret (Some (settings_view D cfg)))
      else if r_Method r = ''PATCH'' then
        (let (cfg', stored) = patchSettings D order S body cfg in (cfg', andThen stored (\<lambda>_. ret None)))
      else (cfg, fail methodNotAllowed))"

section \<open>What a restart makes of the settings\<close>

text \<open>A text setting that was left empty comes back as the legacy value, or as the value of the environment.\<close>

definition kept :: "(string \<Rightarrow> string) \<Rightarrow> string \<Rightarrow> string \<Rightarrow> string \<Rightarrow> string" where
  "kept legacy key v v0 = (if v \<noteq> '''' then v else if legacy (''setting_'' @ key) \<noteq> '''' then legacy (''setting_'' @ key) else v0)"

definition restarted :: "(string \<Rightarrow> string) \<Rightarrow> ServerConfig \<Rightarrow> ServerConfig \<Rightarrow> ServerConfig" where
  "restarted legacy cfg cfg0 =
     cfg0\<lparr>cfg_PeerTTL := cfg_PeerTTL cfg, cfg_PairTTL := cfg_PairTTL cfg, cfg_RelayIdleTimeout := cfg_RelayIdleTimeout cfg,
          cfg_AllowRelay := cfg_AllowRelay cfg, cfg_LANAllowRelay := cfg_LANAllowRelay cfg, cfg_AllowLegacy := cfg_AllowLegacy cfg,
          cfg_ClientNoUPnP := cfg_ClientNoUPnP cfg, cfg_ClientUPnPTimeout := cfg_ClientUPnPTimeout cfg,
          cfg_ClientLogLevel := kept legacy ''client_log_level'' (cfg_ClientLogLevel cfg) (cfg_ClientLogLevel cfg0),
          cfg_ClientTrayEnabled := cfg_ClientTrayEnabled cfg, cfg_ClientPunchTimeout := cfg_ClientPunchTimeout cfg,
          cfg_ClientForceRelay := cfg_ClientForceRelay cfg, cfg_ClientAllowLegacy := cfg_ClientAllowLegacy cfg,
          cfg_ClientReleaseVersion := kept legacy ''client_release_version'' (cfg_ClientReleaseVersion cfg) (cfg_ClientReleaseVersion cfg0),
          cfg_ClientReleaseURL := kept legacy ''client_release_url'' (cfg_ClientReleaseURL cfg) (cfg_ClientReleaseURL cfg0),
          cfg_ClientReleaseSHA256 := kept legacy ''client_release_sha256'' (cfg_ClientReleaseSHA256 cfg) (cfg_ClientReleaseSHA256 cfg0),
          cfg_ClientReleasePublishedAt := kept legacy ''client_release_published_at'' (cfg_ClientReleasePublishedAt cfg) (cfg_ClientReleasePublishedAt cfg0),
          cfg_ClientReleaseNotes := kept legacy ''client_release_notes'' (cfg_ClientReleaseNotes cfg) (cfg_ClientReleaseNotes cfg0),
          cfg_ClientReleaseMinimumSupported := kept legacy ''client_release_minimum_supported_version'' (cfg_ClientReleaseMinimumSupported cfg) (cfg_ClientReleaseMinimumSupported cfg0),
          cfg_ClientReleaseFile := kept legacy ''client_release_file'' (cfg_ClientReleaseFile cfg) (cfg_ClientReleaseFile cfg0),
          cfg_LANReleaseVersion := kept legacy ''lan_release_version'' (cfg_LANReleaseVersion cfg) (cfg_LANReleaseVersion cfg0),
          cfg_LANReleaseURL := kept legacy ''lan_release_url'' (cfg_LANReleaseURL cfg) (cfg_LANReleaseURL cfg0),
          cfg_LANReleaseSHA256 := kept legacy ''lan_release_sha256'' (cfg_LANReleaseSHA256 cfg) (cfg_LANReleaseSHA256 cfg0),
          cfg_LANReleasePublishedAt := kept legacy ''lan_release_published_at'' (cfg_LANReleasePublishedAt cfg) (cfg_LANReleasePublishedAt cfg0),
          cfg_LANReleaseNotes := kept legacy ''lan_release_notes'' (cfg_LANReleaseNotes cfg) (cfg_LANReleaseNotes cfg0),
          cfg_LANReleaseMinimumSupported := kept legacy ''lan_release_minimum_supported_version'' (cfg_LANReleaseMinimumSupported cfg) (cfg_LANReleaseMinimumSupported cfg0),
          cfg_LANReleaseFile := kept legacy ''lan_release_file'' (cfg_LANReleaseFile cfg) (cfg_LANReleaseFile cfg0)\<rparr>"

definition setting_keys :: "string list" where
  "setting_keys = map fst (setting_texts \<lparr>du_parse = (\<lambda>_. None), du_string = (\<lambda>_. '''')\<rparr> DefaultServer)"

lemma texts_keys: "map fst (setting_texts D cfg) = setting_keys"
  by (simp add: setting_keys_def setting_texts_def)

lemma distinct_keys: "distinct setting_keys"
  by (simp add: setting_keys_def setting_texts_def)

locale setting_rows =
  fixes S :: "'db setting_store" and view :: "'db \<Rightarrow> string \<Rightarrow> string" and legacy :: "'db \<Rightarrow> string \<Rightarrow> string" and ok :: "'db \<Rightarrow> bool"
  assumes get: "ok d \<Longrightarrow> st_GetSystemSetting S k d = (d, Inr (view d k))"
    and meta: "ok d \<Longrightarrow> st_GetMeta S k d = (d, Inr (legacy d k))"
    and put: "ok d \<Longrightarrow> k \<in> set setting_keys \<Longrightarrow>
      \<exists>d'. st_PutSystemSetting S k v d = (d', Inr ()) \<and> ok d' \<and> legacy d' = legacy d \<and> (\<forall>k' \<in> set setting_keys. view d' k' = ((view d)(k := v)) k')"
begin

lemma put_each_ok:
  assumes "ok d" "distinct (map fst kvs)" "fst ` set kvs \<subseteq> set setting_keys"
  shows "\<exists>d'. put_each S kvs d = Some (d', Inr ()) \<and> ok d' \<and> legacy d' = legacy d \<and> (\<forall>(k, v) \<in> set kvs. view d' k = v)
    \<and> (\<forall>k \<in> set setting_keys - fst ` set kvs. view d' k = view d k)"
  using assms
proof (induction kvs arbitrary: d)
  case (Cons kv kvs)
  obtain k v where kv: "kv = (k, v)" by force
  obtain d1 where d1: "st_PutSystemSetting S k v d = (d1, Inr ())" "ok d1" "legacy d1 = legacy d"
    "\<forall>k' \<in> set setting_keys. view d1 k' = ((view d)(k := v)) k'" using put [of d k v] Cons.prems(1,3) kv by auto
  obtain d2 where d2: "put_each S kvs d1 = Some (d2, Inr ())" "ok d2" "legacy d2 = legacy d1" "\<forall>(k, v) \<in> set kvs. view d2 k = v"
    "\<forall>k \<in> set setting_keys - fst ` set kvs. view d2 k = view d1 k" using Cons.IH [OF d1(2)] Cons.prems(2,3) by auto
  have "view d2 k = v" using d2(5) d1(4) Cons.prems(2,3) kv by force
  then show ?case using d1 d2 kv by (intro exI [of _ d2]) (auto simp: andThen_def call_def)
qed (simp add: ret_def)

lemma ensure_each_ok:
  assumes "ok d" "distinct (map fst kvs)" "fst ` set kvs \<subseteq> set setting_keys"
  shows "\<exists>d'. ensure_each S kvs d = Some (d', Inr ()) \<and> ok d' \<and> legacy d' = legacy d \<and> (\<forall>(k, v) \<in> set kvs. view d' k = kept (legacy d) k (view d k) v)
    \<and> (\<forall>k \<in> set setting_keys - fst ` set kvs. view d' k = view d k)"
  using assms
proof (induction kvs arbitrary: d)
  case (Cons kv kvs)
  obtain k v where kv: "kv = (k, v)" by force
  let ?v = "if legacy d (''setting_'' @ k) \<noteq> '''' then legacy d (''setting_'' @ k) else v"
  obtain d1 where d1: "ensure_each S (kv # kvs) d = ensure_each S kvs d1" "ok d1" "legacy d1 = legacy d"
    "\<forall>k' \<in> set setting_keys. view d1 k' = ((view d)(k := kept (legacy d) k (view d k) v)) k'"
  proof (cases "view d k = ''''")
    case True
    obtain d1 where "st_PutSystemSetting S k ?v d = (d1, Inr ())" "ok d1" "legacy d1 = legacy d"
      "\<forall>k' \<in> set setting_keys. view d1 k' = ((view d)(k := ?v)) k'" using put [of d k ?v] Cons.prems(1,3) kv by auto
    with True that [of d1] Cons.prems(1) kv show thesis by (simp add: andThen_def call_def get meta kept_def cong: if_cong)
  next
    case False
    with that [of d] Cons.prems(1) kv show thesis by (simp add: andThen_def call_def get kept_def)
  qed
  obtain d2 where d2: "ensure_each S kvs d1 = Some (d2, Inr ())" "ok d2" "legacy d2 = legacy d1" "\<forall>(k, v) \<in> set kvs. view d2 k = kept (legacy d1) k (view d1 k) v"
    "\<forall>k \<in> set setting_keys - fst ` set kvs. view d2 k = view d1 k" using Cons.IH [OF d1(2)] Cons.prems(2,3) by auto
  have "view d2 k = kept (legacy d) k (view d k) v" using d2(5) d1(4) Cons.prems(2,3) kv by force
  moreover have "view d1 k' = view d k'" if "(k', v') \<in> set kvs" for k' v'
  proof -
    have "k' \<in> set setting_keys" "k' \<noteq> k" using that Cons.prems(2,3) kv by (force simp: image_iff)+
    then show ?thesis using d1(4) by simp
  qed
  ultimately have "\<forall>(k', v') \<in> set (kv # kvs). view d2 k' = kept (legacy d) k' (view d k') v'" using d2(4) d1(3) kv by auto
  moreover have "\<forall>k' \<in> set setting_keys - fst ` set (kv # kvs). view d2 k' = view d k'" using d2(5) d1(4) kv by simp
  ultimately show ?case using d1(1,3) d2(1-3) by (intro exI [of _ d2]) simp
qed (simp add: ret_def)

end

text \<open>What a loop over settings makes of the texts in the database.\<close>

fun read_each :: "(string \<Rightarrow> 'v option) \<Rightarrow> bool \<Rightarrow> (string \<Rightarrow> string) \<Rightarrow> (string \<times> ('v \<Rightarrow> ServerConfig \<Rightarrow> ServerConfig)) list \<Rightarrow> ServerConfig
  \<Rightarrow> server_error + ServerConfig" where
  "read_each parse skip look [] cfg = Inr cfg"
| "read_each parse skip look ((key, assign) # items) cfg =
     (if look key = '''' \<and> skip then read_each parse skip look items cfg
      else case parse (look key) of None \<Rightarrow> Inl (OtherError ''parse'') | Some x \<Rightarrow> read_each parse skip look items (assign x cfg))"

context setting_rows
begin

lemma apply_each_ok: "ok d \<Longrightarrow> apply_each parse skip S items cfg d = Some (d, read_each parse skip (view d) items cfg)"
  by (induction items arbitrary: cfg) (auto simp: andThen_def call_def ret_def fail_def get split: option.splits)

end

lemma ParseBool_FormatBool [simp]: "ParseBool (FormatBool b) = Some b" "FormatBool b \<noteq> ''''"
  by (simp_all add: ParseBool_def FormatBool_def)

text \<open>The texts that are in the database after the settings \<open>cfg\<close> were stored and the server started with \<open>cfg0\<close>.\<close>

lemma read_restarted:
  assumes "durations_ok D" "\<forall>(k, v) \<in> set (setting_texts D cfg). view1 k = v" "\<forall>(k, v) \<in> set (setting_texts D cfg0). view2 k = kept legacy k (view1 k) v"
  shows "read_each (du_parse D) True view2 duration_settings cfg0 = Inr (cfg0\<lparr>cfg_PeerTTL := cfg_PeerTTL cfg, cfg_PairTTL := cfg_PairTTL cfg,
      cfg_RelayIdleTimeout := cfg_RelayIdleTimeout cfg, cfg_ClientUPnPTimeout := cfg_ClientUPnPTimeout cfg, cfg_ClientPunchTimeout := cfg_ClientPunchTimeout cfg\<rparr>)"
    "read_each ParseBool True view2 bool_settings cfg1 = Inr (cfg1\<lparr>cfg_AllowRelay := cfg_AllowRelay cfg, cfg_LANAllowRelay := cfg_LANAllowRelay cfg,
      cfg_AllowLegacy := cfg_AllowLegacy cfg, cfg_ClientNoUPnP := cfg_ClientNoUPnP cfg, cfg_ClientTrayEnabled := cfg_ClientTrayEnabled cfg,
      cfg_ClientForceRelay := cfg_ClientForceRelay cfg, cfg_ClientAllowLegacy := cfg_ClientAllowLegacy cfg\<rparr>)"
    "read_each Some False view2 string_settings cfg1 = Inr (foldl (\<lambda>c (k, f). f (view2 k) c) cfg1 string_settings)"
proof -
  note eqs = assms(2,3) [unfolded setting_texts_def, simplified]
  have dur: "du_parse D (du_string D x) = Some x" "du_string D x \<noteq> ''''" for x using assms(1) by (simp_all add: durations_ok_def)
  show "read_each (du_parse D) True view2 duration_settings cfg0 = Inr (cfg0\<lparr>cfg_PeerTTL := cfg_PeerTTL cfg, cfg_PairTTL := cfg_PairTTL cfg,
      cfg_RelayIdleTimeout := cfg_RelayIdleTimeout cfg, cfg_ClientUPnPTimeout := cfg_ClientUPnPTimeout cfg, cfg_ClientPunchTimeout := cfg_ClientPunchTimeout cfg\<rparr>)"
    by (simp add: duration_settings_def eqs kept_def dur)
  show "read_each ParseBool True view2 bool_settings cfg1 = Inr (cfg1\<lparr>cfg_AllowRelay := cfg_AllowRelay cfg, cfg_LANAllowRelay := cfg_LANAllowRelay cfg,
      cfg_AllowLegacy := cfg_AllowLegacy cfg, cfg_ClientNoUPnP := cfg_ClientNoUPnP cfg, cfg_ClientTrayEnabled := cfg_ClientTrayEnabled cfg,
      cfg_ClientForceRelay := cfg_ClientForceRelay cfg, cfg_ClientAllowLegacy := cfg_ClientAllowLegacy cfg\<rparr>)"
    by (simp add: bool_settings_def eqs kept_def)
  show "read_each Some False view2 string_settings cfg1 = Inr (foldl (\<lambda>c (k, f). f (view2 k) c) cfg1 string_settings)"
    by (simp add: string_settings_def)
qed

lemma strings_restarted:
  assumes "\<forall>(k, v) \<in> set (setting_texts D cfg). view1 k = v" "\<forall>(k, v) \<in> set (setting_texts D cfg0). view2 k = kept legacy k (view1 k) v"
  shows "foldl (\<lambda>c (k, f). f (view2 k) c) (cfg0\<lparr>cfg_PeerTTL := cfg_PeerTTL cfg, cfg_PairTTL := cfg_PairTTL cfg,
      cfg_RelayIdleTimeout := cfg_RelayIdleTimeout cfg, cfg_ClientUPnPTimeout := cfg_ClientUPnPTimeout cfg, cfg_ClientPunchTimeout := cfg_ClientPunchTimeout cfg,
      cfg_AllowRelay := cfg_AllowRelay cfg, cfg_LANAllowRelay := cfg_LANAllowRelay cfg, cfg_AllowLegacy := cfg_AllowLegacy cfg,
      cfg_ClientNoUPnP := cfg_ClientNoUPnP cfg, cfg_ClientTrayEnabled := cfg_ClientTrayEnabled cfg, cfg_ClientForceRelay := cfg_ClientForceRelay cfg,
      cfg_ClientAllowLegacy := cfg_ClientAllowLegacy cfg\<rparr>) string_settings = restarted legacy cfg cfg0"
  using assms unfolding setting_texts_def string_settings_def restarted_def by (cases cfg0) simp

context setting_rows
begin

lemma store_restart:
  assumes "durations_ok D" "\<And>kvs. mset (order kvs) = mset kvs" "\<And>kvs. mset (order' kvs) = mset kvs" "ok d"
    and "put_each S (order (setting_texts D cfg)) d = Some (d1, res)"
  shows "\<exists>d2. applyStoredSettings D order' S cfg0 d1 = Some (d2, Inr (restarted (legacy d) cfg cfg0))"
proof -
  have perm: "distinct (map fst (ord kvs)) \<and> fst ` set (ord kvs) = set setting_keys \<and> set (ord kvs) = set kvs"
    if "\<And>kvs. mset (ord kvs) = mset kvs" "map fst kvs = setting_keys" for ord :: "(string \<times> string) list \<Rightarrow> (string \<times> string) list" and kvs
  proof -
    have "mset (map fst (ord kvs)) = mset setting_keys" using that by (metis mset_map)
    then show ?thesis using distinct_keys that(1) by (metis list.set_map mset_eq_imp_distinct_iff set_mset_mset)
  qed
  have p: "distinct (map fst (order (setting_texts D cfg)))" "fst ` set (order (setting_texts D cfg)) \<subseteq> set setting_keys"
    "set (order (setting_texts D cfg)) = set (setting_texts D cfg)" using perm [OF assms(2) texts_keys, of D cfg] by (blast intro: equalityD1)+
  have p': "distinct (map fst (order' (setting_texts D cfg0)))" "fst ` set (order' (setting_texts D cfg0)) \<subseteq> set setting_keys"
    "set (order' (setting_texts D cfg0)) = set (setting_texts D cfg0)" using perm [OF assms(3) texts_keys, of D cfg0] by (blast intro: equalityD1)+
  have d1: "ok d1" "legacy d1 = legacy d" "\<forall>(k, v) \<in> set (setting_texts D cfg). view d1 k = v"
    using put_each_ok [OF assms(4) p(1,2)] assms(5) p(3) by auto
  obtain d2 where d2: "ensure_each S (order' (setting_texts D cfg0)) d1 = Some (d2, Inr ())" "ok d2"
    "\<forall>(k, v) \<in> set (setting_texts D cfg0). view d2 k = kept (legacy d) k (view d1 k) v"
    using ensure_each_ok [OF d1(1) p'(1,2)] d1(2) p'(3) by auto
  note r = read_restarted [OF assms(1) d1(3) d2(3)]
  have "applySystemSettingsLocked D S cfg0 d2 = Some (d2, Inr (restarted (legacy d) cfg cfg0))"
    using strings_restarted [OF d1(3) d2(3)] by (simp add: applySystemSettingsLocked_def andThen_def apply_each_ok [OF d2(2)] r)
  then show ?thesis using d2(1) by (simp add: applyStoredSettings_def ensureDefaultSettings_def andThen_def)
qed

end

section \<open>Settings in the control database\<close>

definition first_value :: "control_env \<Rightarrow> ('r \<Rightarrow> string) \<Rightarrow> ('r \<Rightarrow> string) \<Rightarrow> 'r list \<Rightarrow> string \<Rightarrow> string" where
  "first_value C key v rows k = (case sort_key (co_weight C \<circ> key) (filter (\<lambda>row. same C (key row) k) rows) of [] \<Rightarrow> '''' | row # _ \<Rightarrow> v row)"

definition settings_ok :: "control_env \<Rightarrow> control_db \<Rightarrow> bool" where
  "settings_ok C d \<longleftrightarrow> cd_faults d = [] \<and> keys_ok (tb_clash system_settings C) (cd_settings d) \<and> inj_on (co_weight C) (set setting_keys)"

lemma setting_tables: "tb_get system_settings = cd_settings" "tb_get meta_table = cd_meta"
  by (simp_all add: system_settings_def meta_table_def)

lemma get_value:
  assumes "cd_faults d = []"
  shows "GetSystemSetting C k d = (d, Inr (first_value C ss_Key ss_Value (cd_settings d) k))" "GetMeta C k d = (d, Inr (first_value C me_Key me_Value (cd_meta d) k))"
  using assms by (auto simp: GetSystemSetting_def GetMeta_def value_or_empty_def settings.sql_first_eq meta.sql_first_eq first_value_def
      setting_tables split: list.splits)

lemma put_setting:
  assumes "settings_ok C d" "k \<in> set setting_keys"
  shows "\<exists>rows. PutSystemSetting C k v d = (d\<lparr>cd_settings := rows\<rparr>, Inr ()) \<and> keys_ok (tb_clash system_settings C) rows
    \<and> (\<forall>k' \<in> set setting_keys. first_value C ss_Key ss_Value rows k' = (if k' = k then v else first_value C ss_Key ss_Value (cd_settings d) k'))"
proof -
  let ?P = "\<lambda>k row. same C (ss_Key row) k"
  let ?new = "\<lparr>ss_Key = k, ss_Value = v, ss_UpdatedAt = co_now C\<rparr>"
  let ?c = "tb_clash system_settings C"
  have keys: "keys_ok ?c (cd_settings d)" and faults: "cd_faults d = []" and inj: "\<And>k'. k' \<in> set setting_keys \<Longrightarrow> same C k k' \<longleftrightarrow> k = k'"
    using assms by (auto simp: settings_ok_def same_def dest: inj_onD)
  show ?thesis
  proof (cases "find (?P k) (cd_settings d)")
    case None
    then have none: "\<And>row. row \<in> set (cd_settings d) \<Longrightarrow> \<not> ?P k row" by (auto simp: find_None_iff)
    then have "keys_ok ?c (cd_settings d @ [?new])" using keys by (auto simp: keys_ok_append system_settings_def)
    moreover have "filter (?P k) (cd_settings d) = []" using none by (simp add: filter_empty_conv)
    ultimately show ?thesis using None faults inj
      by (intro exI [of _ "cd_settings d @ [?new]"]) (simp add: PutSystemSetting_def sql_upsert_def set_rows_def system_settings_def first_value_def)
  next
    case (Some old)
    let ?g = "\<lambda>row. if row = old then row\<lparr>ss_Value := v, ss_UpdatedAt := co_now C\<rparr> else row"
    have old: "old \<in> set (cd_settings d)" "?P k old" using Some by (auto simp: find_Some_iff)
    have one: "filter (?P k) (cd_settings d) = [old]" using old by (intro filter_one [OF keys old(1), of "?P k"]) (auto simp: system_settings_def same_def)
    have pg: "?P k' \<circ> ?g = ?P k'" for k' by (rule ext) simp
    have "keys_ok ?c (map ?g (cd_settings d))" using keys keys_ok_map [of ?c ?g "cd_settings d"] by (simp add: system_settings_def)
    moreover have flt: "filter (?P k') (map ?g (cd_settings d)) = map ?g (filter (?P k') (cd_settings d))" for k'
      by (simp only: filter_map pg)
    moreover have "map ?g (filter (?P k') (cd_settings d)) = filter (?P k') (cd_settings d)" if "\<not> same C k k'" for k'
      using that old(2) by (intro map_idI) (auto simp: same_def)
    ultimately show ?thesis using Some faults inj one
      by (intro exI [of _ "map ?g (cd_settings d)"]) (simp add: PutSystemSetting_def sql_upsert_def set_rows_def system_settings_def first_value_def)
  qed
qed

interpretation stored: setting_rows "control_settings C" "\<lambda>d. first_value C ss_Key ss_Value (cd_settings d)" "\<lambda>d. first_value C me_Key me_Value (cd_meta d)"
  "settings_ok C" for C
proof unfold_locales
  fix d k v
  assume ok: "settings_ok C d"
  then show "st_GetSystemSetting (control_settings C) k d = (d, Inr (first_value C ss_Key ss_Value (cd_settings d) k))"
    "st_GetMeta (control_settings C) k d = (d, Inr (first_value C me_Key me_Value (cd_meta d) k))"
    by (simp_all add: control_settings_def get_value settings_ok_def)
  assume "k \<in> set setting_keys"
  from put_setting [OF ok this, of v] ok
  show "\<exists>d'. st_PutSystemSetting (control_settings C) k v d = (d', Inr ()) \<and> settings_ok C d' \<and> first_value C me_Key me_Value (cd_meta d') = first_value C me_Key me_Value (cd_meta d)
    \<and> (\<forall>k' \<in> set setting_keys. first_value C ss_Key ss_Value (cd_settings d') k' = ((first_value C ss_Key ss_Value (cd_settings d))(k := v)) k')"
    by (auto simp: control_settings_def settings_ok_def)
qed


definition coded_durations :: durations where
  "coded_durations = \<lparr>du_parse = (\<lambda>s. Some (from_nat (length s - 1))), du_string = (\<lambda>x. replicate (to_nat x + 1) CHR ''s'')\<rparr>"

definition demo_patch :: settings_request where
  "demo_patch =
     \<lparr>sr_PeerTTL = du_string coded_durations (10 * Second), sr_PairTTL = du_string coded_durations (10 * Second),
       sr_RelayIdleTimeout = du_string coded_durations (10 * Second), sr_AllowRelay = True, sr_LANAllowRelay = True, sr_AllowLegacy = True,
       sr_ClientNoUPnP = True, sr_ClientUPnPTimeout = du_string coded_durations (10 * Second), sr_ClientLogLevel = '''',
       sr_ClientTrayEnabled = True, sr_ClientPunchTimeout = du_string coded_durations (10 * Second), sr_ClientForceRelay = True,
       sr_ClientAllowLegacy = True, sr_ClientReleaseVersion = ''x'', sr_ClientReleaseURL = ''x'', sr_ClientReleaseSHA256 = ''x'',
       sr_ClientReleasePublishedAt = ''x'', sr_ClientReleaseNotes = ''x'', sr_ClientReleaseMinimumSupported = ''x'',
       sr_ClientReleaseFile = ''x'', sr_LANReleaseVersion = ''x'', sr_LANReleaseURL = ''x'', sr_LANReleaseSHA256 = ''x'',
       sr_LANReleasePublishedAt = ''x'', sr_LANReleaseNotes = ''x'', sr_LANReleaseMinimumSupported = ''x'', sr_LANReleaseFile = ''x''\<rparr>"

definition patch_request :: request where
  "patch_request = post\<lparr>r_Method := ''PATCH''\<rparr>"

lemma coded_durations_ok: "durations_ok coded_durations"
  by (simp add: durations_ok_def coded_durations_def)

lemma demo_settings_ok: "settings_ok demo_control empty_db"
  by (simp add: settings_ok_def empty_db_def demo_control_def) (rule inj_on_subset [OF inj_mapI subset_UNIV], simp add: inj_on_def)

lemma demo_patched:
  "parse_settings coded_durations (Some demo_patch) = Inr (patched demo_patch (10 * Second) (10 * Second) (10 * Second) (10 * Second) (10 * Second))"
  using coded_durations_ok by (simp add: parse_settings_def demo_patch_def durations_ok_def Second_def Millisecond_def)


end
