(* ===== verification/ClientTunnel.thy ===== *)
theory ClientTunnel
  imports Config Rendezvous "HOL-Library.Countable"
begin

text \<open>
  One tunnel of the client, \<^verbatim>\<open>runTunnelOnce\<close> and its helpers in \<^verbatim>\<open>cmd/client/main.go\<close>, with the packet connection of
  \<^verbatim>\<open>internal/tunnel/tunnel.go\<close> that carries its KCP session.

  \<^item> The function starts goroutines that share atomic variables and a channel; \<open>tunnel_run\<close> has these variables, and each
    event of \<open>tunnel_step\<close> is what one goroutine does between two waits: a datagram, a tick of one of its tickers, the timer of
    the punching, or the next part of the function itself.  The order of the events is free.
  \<^item> The timer of the punching waits for the channel or for its time, whatever comes first, and acts afterwards: \<open>TimerFires\<close>
    and \<open>TimerActs\<close>.
  \<^item> Addresses are the texts of \<^verbatim>\<open>UDPAddr.String()\<close>, as in \<open>Rendezvous\<close>; control messages that are sent are \<open>Sealed\<close> with a codec
    and \<open>Plain\<close> without one.
  \<^item> The JSON decoder, \<^verbatim>\<open>net.ResolveUDPAddr\<close>, the creation of a codec and HMAC are the environment \<open>tunnel_env\<close>.  UPnP, the socket,
    KCP and smux are third-party or the system's: their results are the arguments of the events.
\<close>

subsection \<open>Data\<close>

record agentTunnelStatus =
  sta_Peer :: string
  sta_Profile :: string
  sta_State :: string
  sta_Via :: string
  sta_PublicAddr :: string
  sta_ConvID :: int
  sta_RTTMs :: int
  sta_NATType :: string
  sta_LastError :: string
  sta_Attempt :: int
  sta_NextRetryAt :: string
  sta_LastTransitionAt :: string

definition no_status :: agentTunnelStatus where
  "no_status = \<lparr>sta_Peer = '''', sta_Profile = '''', sta_State = '''', sta_Via = '''', sta_PublicAddr = '''', sta_ConvID = 0, sta_RTTMs = 0,
     sta_NATType = '''', sta_LastError = '''', sta_Attempt = 0, sta_NextRetryAt = '''', sta_LastTransitionAt = ''''\<rparr>"

record natProbeResult =
  nat_NATType :: string
  nat_PrimaryAddr :: string
  nat_AltAddr :: string
  nat_ForceRelay :: bool

text \<open>An error of a run: the cancellation of its context, or another error with its text.\<close>

datatype run_error = Canceled | Failure string

record tunnel_env =
  te_decode :: "bytes \<Rightarrow> string + Message"
  te_resolve :: "string \<Rightarrow> string option"
  te_newCodec :: "string \<Rightarrow> secure_error + SecureCodec"
  te_text :: "secure_error \<Rightarrow> string"
  te_hmac :: "bytes \<Rightarrow> bytes \<Rightarrow> bytes"

datatype tunnel_phase = Starting | Waiting | Opening | Linked string | Stopped run_error

datatype punch_timer = Armed | Fired | Spent

record tunnel_run =
  tn_cfg :: ClientConfig
  tn_peerID :: string
  tn_profile :: string
  tn_nat :: natProbeResult
  tn_codec :: "SecureCodec option"
  tn_server :: string
  tn_upnp :: string
  tn_peerAddr :: "string option"
  tn_peerUpnpAddr :: "string option"
  tn_punched :: bool
  tn_punchStarted :: bool
  tn_punching :: bool
  tn_isRelay :: bool
  tn_closed :: bool
  tn_rxCount :: uint64
  tn_timer :: punch_timer
  tn_inbox :: "(bytes \<times> string) list"
  tn_phase :: tunnel_phase

datatype tunnel_output =
    Send sent
  | SendData string bytes
  | Report agentTunnelStatus string string

datatype tunnel_event =
    Received string bytes
  | Proceed
  | PunchTick
  | KeepAliveTick
  | RegisterTick
  | TimerFires
  | TimerActs
  | CtxDone
  | PunchedSeen
  | Opened "string + int"
  | StatusTick int
  | IngressFails string
  | MuxCloses
  | KCPReads
  | KCPWrites bytes

subsection \<open>The packet connection\<close>

definition packetInboxSize :: nat where "packetInboxSize = 16 * 1024"

definition Feed :: "tunnel_run \<Rightarrow> bytes \<Rightarrow> string \<Rightarrow> tunnel_run" where
  "Feed t data src = (if length (tn_inbox t) < packetInboxSize then t\<lparr>tn_inbox := tn_inbox t @ [(data, src)]\<rparr> else t)"

definition WriteTo :: "tunnel_run \<Rightarrow> bytes \<Rightarrow> tunnel_output list" where
  "WriteTo t b = (case tn_peerAddr t of None \<Rightarrow> [] | Some dst \<Rightarrow> [SendData dst b])"

subsection \<open>Messages\<close>

definition tunnel_writeControl :: "tunnel_run \<Rightarrow> string \<Rightarrow> Message \<Rightarrow> tunnel_output" where
  "tunnel_writeControl t dst msg = Send (if tn_codec t \<noteq> None then Sealed dst msg else sent.Plain dst msg)"

definition tunnel_register :: "tunnel_run \<Rightarrow> tunnel_output" where
  "tunnel_register t = tunnel_writeControl t (tn_server t) (no_message\<lparr>msg_Type := MsgRegister, msg_From := cc_DeviceID (tn_cfg t),
     msg_Name := cc_DeviceName (tn_cfg t), msg_Peer := tn_peerID t, msg_Profile := tn_profile t, msg_UpnpAddr := tn_upnp t\<rparr>)"

definition client_punch :: "tunnel_run \<Rightarrow> string \<Rightarrow> Message" where
  "client_punch t kind = no_message\<lparr>msg_Type := kind, msg_From := cc_DeviceID (tn_cfg t), msg_Profile := tn_profile t\<rparr>"

definition enterRelay :: "tunnel_run \<Rightarrow> tunnel_run" where
  "enterRelay t =
     (if tn_isRelay t then t
      else t\<lparr>tn_isRelay := True, tn_peerAddr := Some (tn_server t), tn_punched := True, tn_closed := True\<rparr>)"

definition adoptPeerAddr :: "string \<Rightarrow> tunnel_run \<Rightarrow> tunnel_run" where
  "adoptPeerAddr src t = (if tn_peerAddr t \<noteq> Some src then t\<lparr>tn_peerAddr := Some src\<rparr> else t)"

definition adoptPeerAddrSafe :: "string \<Rightarrow> tunnel_run \<Rightarrow> tunnel_run" where
  "adoptPeerAddrSafe src t = (if \<not> tn_isRelay t then adoptPeerAddr src t else t)"

definition hole_punched :: "tunnel_run \<Rightarrow> tunnel_run" where
  "hole_punched t = (if tn_punched t then t else t\<lparr>tn_punched := True, tn_closed := True\<rparr>)"

definition tunnel_peer_info :: "tunnel_env \<Rightarrow> tunnel_run \<Rightarrow> Message \<Rightarrow> tunnel_run" where
  "tunnel_peer_info E t msg =
     (if tn_isRelay t then t
      else case te_resolve E (msg_Addr msg) of
        None \<Rightarrow> t
      | Some paddr \<Rightarrow>
          let t = t\<lparr>tn_peerAddr := Some paddr\<rparr>;
              t = (if msg_UpnpAddr msg \<noteq> '''' then
                     (case te_resolve E (msg_UpnpAddr msg) of None \<Rightarrow> t | Some uaddr \<Rightarrow> t\<lparr>tn_peerUpnpAddr := Some uaddr\<rparr>)
                   else t)
          in if tn_punchStarted t then t else t\<lparr>tn_punchStarted := True, tn_punching := True\<rparr>)"

definition tunnel_message :: "tunnel_env \<Rightarrow> tunnel_run \<Rightarrow> string \<Rightarrow> bytes \<Rightarrow> tunnel_run \<times> tunnel_output list" where
  "tunnel_message E t src data =
     (case te_decode E data of
        Inl err \<Rightarrow> (t, [])
      | Inr msg \<Rightarrow>
          if msg_Type msg \<notin> {MsgPeerInfo, MsgPunch, MsgPunchAck} then (t, [])
          else if NormalizeProfile (msg_Profile msg) \<noteq> tn_profile t then (t, [])
          else if msg_Type msg = MsgPeerInfo then (tunnel_peer_info E t msg, [])
          else
            let t = adoptPeerAddrSafe src (t\<lparr>tn_rxCount := tn_rxCount t + 1\<rparr>)
            in (hole_punched t, if msg_Type msg = MsgPunch then [tunnel_writeControl t src (client_punch t MsgPunchAck)] else []))"

text \<open>What the reading goroutine makes of a datagram.  The two branches for what is neither a frame nor JSON are the source's.\<close>

definition tunnel_receive :: "tunnel_env \<Rightarrow> tunnel_run \<Rightarrow> string \<Rightarrow> bytes \<Rightarrow> tunnel_run \<times> tunnel_output list" where
  "tunnel_receive E t src data =
     (if secure_IsFrame data then
        (if tn_codec t = None then (t, [])
         else case secure_open (tn_codec t) data of
           Inl err \<Rightarrow> (t, [])
         | Inr (kind, payload) \<Rightarrow> if kind = KindKCP then (Feed t payload src, []) else tunnel_message E t src payload)
      else if \<not> cc_AllowLegacy (tn_cfg t) \<and> 0 < length data \<and> data ! 0 \<noteq> of_char CHR ''{'' then (Feed t data src, [])
      else if 0 < length data \<and> data ! 0 \<noteq> of_char CHR ''{'' then (Feed t data src, [])
      else tunnel_message E t src data)"

definition tunnel_punchTick :: "tunnel_run \<Rightarrow> tunnel_run \<times> tunnel_output list" where
  "tunnel_punchTick t =
     (if \<not> tn_punching t then (t, [])
      else if tn_punched t then (t\<lparr>tn_punching := False\<rparr>, [])
      else case tn_peerAddr t of
        None \<Rightarrow> (t\<lparr>tn_punching := False\<rparr>, [])
      | Some paddr \<Rightarrow>
          (t, tunnel_writeControl t paddr (client_punch t MsgPunch)
             # (case tn_peerUpnpAddr t of
                  None \<Rightarrow> []
                | Some uaddr \<Rightarrow> if uaddr \<noteq> paddr then [tunnel_writeControl t uaddr (client_punch t MsgPunch)] else [])))"

subsection \<open>The run\<close>

definition tunnel_status :: "tunnel_env \<Rightarrow> tunnel_run \<Rightarrow> string \<Rightarrow> int \<Rightarrow> agentTunnelStatus" where
  "tunnel_status E t via rtt =
     no_status\<lparr>sta_Peer := tn_peerID t, sta_Profile := tn_profile t, sta_State := via, sta_Via := via, sta_PublicAddr := tn_upnp t,
       sta_ConvID := (case ConvID (te_hmac E) (cc_PSK (tn_cfg t)) (cc_DeviceID (tn_cfg t)) (tn_peerID t) (tn_profile t) of
         None \<Rightarrow> 0 | Some conv \<Rightarrow> uint conv),
       sta_RTTMs := rtt, sta_NATType := nat_NATType (tn_nat t)\<rparr>"

text \<open>The beginning, up to the registration: \<open>socket\<close>, \<open>upnp\<close> and \<open>register\<close> are the error of the socket, the address that was
  mapped, and the error of the first write.\<close>

definition start_tunnel ::
  "tunnel_env \<Rightarrow> ClientConfig \<Rightarrow> string \<Rightarrow> string \<Rightarrow> natProbeResult \<Rightarrow> string option \<Rightarrow> string option \<Rightarrow> string option
   \<Rightarrow> (run_error + tunnel_run) \<times> tunnel_output list"
where
  "start_tunnel E cfg peerID profile natResult socket upnp register =
     (let profile = NormalizeProfile profile in
      (case (if cc_PSK cfg = '''' then Inr None else map_sum id Some (te_newCodec E (cc_PSK cfg))) of
        Inl e \<Rightarrow> (Inl (Failure (te_text E e)), [])
      | Inr codec \<Rightarrow>
     (case te_resolve E (cc_Server cfg) of
        None \<Rightarrow> (Inl (Failure ''resolve''), [])
      | Some srvAddr \<Rightarrow>
     (case socket of
        Some err \<Rightarrow> (Inl (Failure (''local_socket_failed: '' @ err)), [])
      | None \<Rightarrow>
          let upnpAddr = (if cc_NoUPnP cfg then '''' else case upnp of None \<Rightarrow> '''' | Some addr \<Rightarrow> addr);
              t = \<lparr>tn_cfg = cfg, tn_peerID = peerID, tn_profile = profile, tn_nat = natResult, tn_codec = codec, tn_server = srvAddr,
                   tn_upnp = upnpAddr, tn_peerAddr = None, tn_peerUpnpAddr = None, tn_punched = False, tn_punchStarted = False,
                   tn_punching = False, tn_isRelay = False, tn_closed = False, tn_rxCount = 0, tn_timer = Armed, tn_inbox = [],
                   tn_phase = Starting\<rparr>;
              out = [Report (no_status\<lparr>sta_Peer := peerID, sta_Profile := profile, sta_State := ''connecting'',
                       sta_NATType := nat_NATType natResult\<rparr>) '''' upnpAddr,
                     tunnel_register t]
          in (case register of
               Some err \<Rightarrow> (Inl (Failure (''register_failed: '' @ err)), out)
             | None \<Rightarrow> (Inr t, out))))))"

fun tunnel_step :: "tunnel_env \<Rightarrow> tunnel_run \<Rightarrow> tunnel_event \<Rightarrow> tunnel_run \<times> tunnel_output list" where
  "tunnel_step E t (Received src data) = tunnel_receive E t src data"
| "tunnel_step E t Proceed =
     (if tn_phase t = Starting then
        (let t = (if cc_ForceRelay (tn_cfg t) \<or> nat_ForceRelay (tn_nat t) then enterRelay t else t) in (t\<lparr>tn_phase := Waiting\<rparr>, []))
      else (t, []))"
| "tunnel_step E t PunchTick = tunnel_punchTick t"
| "tunnel_step E t KeepAliveTick =
     (t, if tn_punched t then (case tn_peerAddr t of None \<Rightarrow> [] | Some paddr \<Rightarrow> [tunnel_writeControl t paddr (client_punch t MsgKeepAlive)]) else [])"
| "tunnel_step E t RegisterTick = (t, if tn_punched t then [] else [tunnel_register t])"
| "tunnel_step E t TimerFires =
     (if tn_phase t \<noteq> Starting \<and> tn_timer t = Armed then t\<lparr>tn_timer := (if tn_closed t then Spent else Fired)\<rparr> else t, [])"
| "tunnel_step E t TimerActs = (if tn_timer t = Fired then (enterRelay t)\<lparr>tn_timer := Spent\<rparr> else t, [])"
| "tunnel_step E t CtxDone = (if tn_phase t = Waiting then t\<lparr>tn_phase := Stopped Canceled\<rparr> else t, [])"
| "tunnel_step E t PunchedSeen = (if tn_phase t = Waiting \<and> tn_closed t then t\<lparr>tn_phase := Opening\<rparr> else t, [])"
| "tunnel_step E t (Opened res) =
     (if tn_phase t = Opening then
        (case res of
           Inl err \<Rightarrow> (t\<lparr>tn_phase := Stopped (Failure err)\<rparr>, [])
         | Inr rtt \<Rightarrow>
             let via = (if tn_isRelay t then ''relay'' else ''p2p'')
             in (t\<lparr>tn_phase := Linked via\<rparr>, [Report (tunnel_status E t via rtt) '''' (tn_upnp t)]))
      else (t, []))"
| "tunnel_step E t (StatusTick rtt) =
     (t, case tn_phase t of Linked via \<Rightarrow> [Report (tunnel_status E t via rtt) '''' (tn_upnp t)] | _ \<Rightarrow> [])"
| "tunnel_step E t (IngressFails err) =
     (case tn_phase t of Linked via \<Rightarrow> t\<lparr>tn_phase := Stopped (Failure (''ingress_listen_failed: '' @ err))\<rparr> | _ \<Rightarrow> t, [])"
| "tunnel_step E t MuxCloses = (case tn_phase t of Linked via \<Rightarrow> t\<lparr>tn_phase := Stopped (Failure ''kcp_eof: EOF'')\<rparr> | _ \<Rightarrow> t, [])"
| "tunnel_step E t KCPReads = (t\<lparr>tn_inbox := drop 1 (tn_inbox t)\<rparr>, [])"
| "tunnel_step E t (KCPWrites b) = (t, WriteTo t b)"

text \<open>A run through events, with everything it sends and reports.\<close>

fun tunnel_steps :: "tunnel_env \<Rightarrow> tunnel_run \<Rightarrow> tunnel_event list \<Rightarrow> tunnel_run \<times> tunnel_output list" where
  "tunnel_steps E t [] = (t, [])"
| "tunnel_steps E t (e # es) = (let (t, out) = tunnel_step E t e; (t, outs) = tunnel_steps E t es in (t, out @ outs))"

subsection \<open>Facts\<close>

lemma Feed_simps [simp]:
  "tn_peerAddr (Feed t data src) = tn_peerAddr t" "tn_punched (Feed t data src) = tn_punched t" "tn_isRelay (Feed t data src) = tn_isRelay t"
  "tn_closed (Feed t data src) = tn_closed t" "tn_server (Feed t data src) = tn_server t" "tn_cfg (Feed t data src) = tn_cfg t"
  "tn_profile (Feed t data src) = tn_profile t" "tn_codec (Feed t data src) = tn_codec t" "tn_phase (Feed t data src) = tn_phase t"
  "tn_punchStarted (Feed t data src) = tn_punchStarted t"
  by (simp_all add: Feed_def)

lemma Feed_bound: "length (tn_inbox t) \<le> packetInboxSize \<Longrightarrow> length (tn_inbox (Feed t data src)) \<le> packetInboxSize"
  by (simp add: Feed_def)

definition tunnel_inv :: "tunnel_run \<Rightarrow> bool" where
  "tunnel_inv t \<longleftrightarrow>
     (tn_isRelay t \<longrightarrow> tn_peerAddr t = Some (tn_server t) \<and> tn_punched t)
     \<and> tn_closed t = tn_punched t
     \<and> (tn_punched t \<or> tn_punchStarted t \<longrightarrow> tn_peerAddr t \<noteq> None)
     \<and> length (tn_inbox t) \<le> packetInboxSize
     \<and> (tn_phase t = Opening \<longrightarrow> tn_punched t) \<and> (\<forall>via. tn_phase t = Linked via \<longrightarrow> tn_punched t)
     \<and> (tn_phase t = Linked ''relay'' \<longrightarrow> tn_isRelay t)"

definition tunnel_next :: "tunnel_run \<Rightarrow> tunnel_run \<Rightarrow> bool" where
  "tunnel_next t t' \<longleftrightarrow> tn_server t' = tn_server t \<and> tn_cfg t' = tn_cfg t \<and> tn_profile t' = tn_profile t \<and> tn_codec t' = tn_codec t
     \<and> (tn_isRelay t \<longrightarrow> tn_isRelay t') \<and> (tn_punched t \<longrightarrow> tn_punched t')"

lemma tunnel_next_refl [simp]: "tunnel_next t t"
  by (simp add: tunnel_next_def)

lemma peer_info_inv:
  assumes "tunnel_inv t"
  shows "tunnel_inv (tunnel_peer_info E t msg) \<and> tunnel_next t (tunnel_peer_info E t msg)"
proof (cases "tn_isRelay t \<or> te_resolve E (msg_Addr msg) = None")
  case True
  then show ?thesis using assms by (auto simp: tunnel_peer_info_def)
next
  case False
  then obtain paddr where p: "te_resolve E (msg_Addr msg) = Some paddr" "\<not> tn_isRelay t" by auto
  show ?thesis using assms p
    by (simp add: tunnel_peer_info_def tunnel_inv_def tunnel_next_def Let_def split: option.split)
qed

lemma punched_inv:
  assumes "tunnel_inv t"
  shows "tunnel_inv (hole_punched (adoptPeerAddrSafe src (t\<lparr>tn_rxCount := n\<rparr>))) \<and> tunnel_next t (hole_punched (adoptPeerAddrSafe src (t\<lparr>tn_rxCount := n\<rparr>)))"
  using assms
  by (cases "tn_isRelay t"; cases "tn_punched t"; cases "tn_peerAddr t = Some src")
    (simp_all add: hole_punched_def adoptPeerAddrSafe_def adoptPeerAddr_def tunnel_inv_def tunnel_next_def)

lemma message_inv:
  assumes "tunnel_inv t"
  shows "tunnel_inv (fst (tunnel_message E t src data)) \<and> tunnel_next t (fst (tunnel_message E t src data))"
  using assms peer_info_inv [OF assms] punched_inv [OF assms]
  by (simp add: tunnel_message_def Let_def split: sum.split)

lemma relay_inv: "tunnel_inv t \<Longrightarrow> tunnel_inv (enterRelay t) \<and> tunnel_next t (enterRelay t)"
  by (simp add: enterRelay_def tunnel_inv_def tunnel_next_def)

lemma punchTick_inv: "tunnel_inv t \<Longrightarrow> tunnel_inv (fst (tunnel_punchTick t)) \<and> tunnel_next t (fst (tunnel_punchTick t))"
proof -
  have "tunnel_inv (t\<lparr>tn_punching := b\<rparr>) = tunnel_inv t" "tunnel_next t (t\<lparr>tn_punching := b\<rparr>)" for b by (simp_all add: tunnel_inv_def tunnel_next_def)
  then show "tunnel_inv t \<Longrightarrow> tunnel_inv (fst (tunnel_punchTick t)) \<and> tunnel_next t (fst (tunnel_punchTick t))"
    by (simp add: tunnel_punchTick_def split: option.split)
qed

lemma feed_inv: "tunnel_inv t \<Longrightarrow> tunnel_inv (Feed t data src) \<and> tunnel_next t (Feed t data src)"
  using Feed_bound by (auto simp: tunnel_inv_def tunnel_next_def)

lemma receive_inv:
  assumes "tunnel_inv t"
  shows "tunnel_inv (fst (tunnel_receive E t src data)) \<and> tunnel_next t (fst (tunnel_receive E t src data))"
proof -
  have "tunnel_next t t" by (simp add: tunnel_next_def)
  then show ?thesis using message_inv [OF assms] feed_inv [OF assms] assms
    by (auto simp: tunnel_receive_def split: sum.splits)
qed

lemma tunnel_step_inv:
  assumes "tunnel_inv t"
  shows "tunnel_inv (fst (tunnel_step E t e)) \<and> tunnel_next t (fst (tunnel_step E t e))"
proof (cases e)
  case (Received src data)
  then show ?thesis using receive_inv [OF assms] by simp
next
  case PunchTick
  then show ?thesis using punchTick_inv [OF assms] by simp
next
  case Proceed
  then show ?thesis using assms relay_inv [OF assms] by (auto simp: Let_def tunnel_inv_def tunnel_next_def)
next
  case KCPReads
  then show ?thesis using assms by (auto simp: tunnel_inv_def tunnel_next_def)
next
  case TimerActs
  then show ?thesis using assms relay_inv [OF assms] by (auto simp: tunnel_inv_def tunnel_next_def)
qed (use assms in \<open>simp_all add: tunnel_inv_def tunnel_next_def Let_def split: sum.split tunnel_phase.split\<close>)

lemma tunnel_next_trans: "tunnel_next t u \<Longrightarrow> tunnel_next u v \<Longrightarrow> tunnel_next t v"
  by (auto simp: tunnel_next_def)

lemma tunnel_steps_inv:
  "tunnel_inv t \<Longrightarrow> tunnel_inv (fst (tunnel_steps E t es)) \<and> tunnel_next t (fst (tunnel_steps E t es))"
proof (induction es arbitrary: t)
  case (Cons e es)
  from tunnel_step_inv [OF Cons.prems, of E e] Cons.IH [of "fst (tunnel_step E t e)"] tunnel_next_trans
  show ?case by (auto simp: split_beta)
qed (simp add: tunnel_next_def)

lemma start_inv:
  assumes "start_tunnel E cfg peerID profile natResult socket upnp register = (Inr t, out)"
  shows "tunnel_inv t" "tn_isRelay t = False" "tn_phase t = Starting" "tn_profile t = NormalizeProfile profile" "tn_peerID t = peerID" "tn_cfg t = cfg"
  using assms by (auto simp: start_tunnel_def tunnel_inv_def Let_def split: sum.splits option.splits if_splits)

subsection \<open>Relay mode\<close>

text \<open>What a tunnel in relay mode may send: data to the server, status reports, answers to punches and keep-alives.\<close>

definition relay_output :: "string \<Rightarrow> tunnel_output \<Rightarrow> bool" where
  "relay_output server out = (case out of
     SendData dst b \<Rightarrow> dst = server
   | Send (Sealed dst msg) \<Rightarrow> msg_Type msg = MsgPunchAck \<or> msg_Type msg = MsgKeepAlive \<and> dst = server
   | Send (sent.Plain dst msg) \<Rightarrow> msg_Type msg = MsgPunchAck \<or> msg_Type msg = MsgKeepAlive \<and> dst = server
   | Send (Raw dst data) \<Rightarrow> False
   | Report status addr upnp \<Rightarrow> True)"

lemma receive_relay_output:
  assumes "out \<in> set (snd (tunnel_receive E t src data))"
  shows "relay_output server out"
  using assms
  by (auto simp: tunnel_receive_def tunnel_message_def relay_output_def tunnel_writeControl_def client_punch_def Let_def
      split: if_splits sum.splits)

lemma step_relay_output:
  assumes "tunnel_inv t" "tn_isRelay t" "out \<in> set (snd (tunnel_step E t e))"
  shows "relay_output (tn_server t) out"
proof -
  have t: "tn_peerAddr t = Some (tn_server t)" "tn_punched t" using assms(1,2) by (auto simp: tunnel_inv_def)
  show ?thesis
  proof (cases e)
    case (Received src data)
    then show ?thesis using assms(3) receive_relay_output by simp
  qed (use assms(3) t in \<open>auto simp: tunnel_punchTick_def relay_output_def tunnel_writeControl_def client_punch_def WriteTo_def Let_def
      split: if_splits sum.splits tunnel_phase.splits\<close>)
qed

lemma steps_relay_output:
  "tunnel_inv t \<Longrightarrow> tn_isRelay t \<Longrightarrow> out \<in> set (snd (tunnel_steps E t es)) \<Longrightarrow> relay_output (tn_server t) out"
proof (induction es arbitrary: t)
  case (Cons e es)
  let ?u = "fst (tunnel_step E t e)"
  have u: "tunnel_inv ?u" "tn_isRelay ?u" "tn_server ?u = tn_server t"
    using tunnel_step_inv [OF Cons.prems(1), of E e] Cons.prems(2) by (auto simp: tunnel_next_def)
  from Cons.prems(3) have "out \<in> set (snd (tunnel_step E t e)) \<or> out \<in> set (snd (tunnel_steps E ?u es))" by (auto simp: split_beta)
  then show ?case using step_relay_output [OF Cons.prems(1,2)] Cons.IH [OF u(1,2)] u(3) by auto
qed simp


subsection \<open>Who may move a tunnel\<close>

lemma frame_not_json: "data = of_char CHR ''{'' # rest \<Longrightarrow> \<not> secure_IsFrame data"
  by (simp add: secure_IsFrame_def secure_magic_def bytes_of_def)

lemma receive_json:
  "data = of_char CHR ''{'' # rest \<Longrightarrow> tunnel_receive E t src data = tunnel_message E t src data"
  using frame_not_json by (simp add: tunnel_receive_def)

text \<open>C18. The pre-shared key does not keep strangers out of a tunnel, and the setting that forbids unprotected messages does nothing.  Whatever the
  codec and whatever \<^verbatim>\<open>allow_legacy\<close> says, one unsealed punch message from any address moves a tunnel that is not in relay mode to this
  address: the hole counts as punched, and the data of the tunnel is sent there.\<close>

theorem plain_punch_moves_tunnel:
  assumes "te_decode E data = Inr msg" "data = of_char CHR ''{'' # rest" "msg_Type msg \<in> {MsgPunch, MsgPunchAck}"
    and "NormalizeProfile (msg_Profile msg) = tn_profile t" "\<not> tn_isRelay t"
  shows "\<exists>t' out. tunnel_step E t (Received stranger data) = (t', out) \<and> tn_peerAddr t' = Some stranger \<and> tn_punched t' \<and> \<not> tn_isRelay t'
    \<and> (\<forall>b. tunnel_step E t' (KCPWrites b) = (t', [SendData stranger b]))
    \<and> (\<forall>allow. fst (tunnel_step E (t\<lparr>tn_cfg := (tn_cfg t)\<lparr>cc_AllowLegacy := allow\<rparr>\<rparr>) (Received stranger data))
         = t'\<lparr>tn_cfg := (tn_cfg t)\<lparr>cc_AllowLegacy := allow\<rparr>\<rparr>)"
proof -
  let ?t = "adoptPeerAddrSafe stranger (t\<lparr>tn_rxCount := tn_rxCount t + 1\<rparr>)"
  have kinds: "msg_Type msg \<in> {MsgPeerInfo, MsgPunch, MsgPunchAck}" "msg_Type msg \<noteq> MsgPeerInfo"
    using assms(3) by (auto simp: MsgPunch_def MsgPunchAck_def MsgPeerInfo_def)
  have step: "fst (tunnel_step E t (Received stranger data)) = hole_punched ?t"
    using assms(1,4) kinds by (simp add: receive_json [OF assms(2)] tunnel_message_def Let_def)
  have legacy: "fst (tunnel_step E (t\<lparr>tn_cfg := c\<rparr>) (Received stranger data)) = (hole_punched ?t)\<lparr>tn_cfg := c\<rparr>" for c
    using assms(1,4,5) kinds
    by (simp add: receive_json [OF assms(2)] tunnel_message_def Let_def hole_punched_def adoptPeerAddrSafe_def adoptPeerAddr_def)
  have "tn_peerAddr (hole_punched ?t) = Some stranger" "tn_punched (hole_punched ?t)" "\<not> tn_isRelay (hole_punched ?t)"
    using assms(5) by (auto simp: hole_punched_def adoptPeerAddrSafe_def adoptPeerAddr_def)
  then show ?thesis using step legacy
    by (intro exI [of _ "hole_punched ?t"] exI [of _ "snd (tunnel_step E t (Received stranger data))"]) (auto simp: WriteTo_def prod_eq_iff)
qed


subsection \<open>Two tunnels find each other\<close>

definition tunnel_isListener :: "tunnel_run \<Rightarrow> bool" where
  "tunnel_isListener t \<longleftrightarrow> cc_DeviceID (tn_cfg t) < tn_peerID t"

definition tunnel_conv :: "tunnel_env \<Rightarrow> tunnel_run \<Rightarrow> uint32 option" where
  "tunnel_conv E t = ConvID (te_hmac E) (cc_PSK (tn_cfg t)) (cc_DeviceID (tn_cfg t)) (tn_peerID t) (tn_profile t)"

text \<open>A control message as it is written to the socket.\<close>

definition wire :: "(Message \<Rightarrow> bytes) \<Rightarrow> bytes \<Rightarrow> tunnel_run \<Rightarrow> Message \<Rightarrow> bytes" where
  "wire encode nonce t msg =
     (case tn_codec t of None \<Rightarrow> encode msg | Some c \<Rightarrow> projr (SecureCodec_Seal (Some c) (Inr nonce) KindControl (encode msg)))"

definition codec_ok :: "SecureCodec option \<Rightarrow> bool" where
  "codec_ok c \<longleftrightarrow> (case c of None \<Rightarrow> True | Some c \<Rightarrow> aead_correct (sc_aead c) \<and> aead_Overhead (sc_aead c) = 16)"

definition json_ok :: "tunnel_env \<Rightarrow> (Message \<Rightarrow> bytes) \<Rightarrow> bool" where
  "json_ok E encode \<longleftrightarrow> (\<forall>msg. te_decode E (encode msg) = Inr msg \<and> (\<exists>rest. encode msg = of_char CHR ''{'' # rest))"

lemma wire_received:
  assumes "codec_ok (tn_codec t)" "json_ok E encode" "length nonce = NonceSizeX" "tn_codec u = tn_codec t"
  shows "tunnel_receive E u src (wire encode nonce t msg) = tunnel_message E u src (encode msg)"
proof (cases "tn_codec t")
  case None
  obtain rest where "encode msg = of_char CHR ''{'' # rest" using assms(2) unfolding json_ok_def by blast
  then show ?thesis using None receive_json [of "encode msg" rest] by (simp add: wire_def)
next
  case (Some c)
  then obtain frame where f: "SecureCodec_Seal (Some c) (Inr nonce) KindControl (encode msg) = Inr frame"
    "SecureCodec_Open (Some c) frame = Some (Inr (KindControl, encode msg))" "secure_IsFrame frame"
    using Seal_Open [of "sc_aead c" nonce KindControl "encode msg"] assms(1,3) by (cases c) (auto simp: codec_ok_def)
  then show ?thesis using Some assms(4) by (simp add: wire_def tunnel_receive_def secure_open_def KindControl_def KindKCP_def)
qed

text \<open>A message of the punching is heard by a tunnel of the same profile that is not in relay mode.\<close>

lemma punch_heard:
  assumes "json_ok E encode" "msg_Type msg \<in> {MsgPunch, MsgPunchAck}" "NormalizeProfile (msg_Profile msg) = tn_profile t" "\<not> tn_isRelay t"
  shows "tunnel_message E t src (encode msg) = (hole_punched (t\<lparr>tn_rxCount := tn_rxCount t + 1, tn_peerAddr := Some src\<rparr>),
    if msg_Type msg = MsgPunch then [tunnel_writeControl t src (client_punch t MsgPunchAck)] else [])"
proof -
  have adopt: "adoptPeerAddrSafe src (t\<lparr>tn_rxCount := tn_rxCount t + 1\<rparr>) = t\<lparr>tn_rxCount := tn_rxCount t + 1, tn_peerAddr := Some src\<rparr>"
    using assms(4) by (cases t) (simp add: adoptPeerAddrSafe_def adoptPeerAddr_def)
  have "te_decode E (encode msg) = Inr msg" using assms(1) by (simp add: json_ok_def)
  then show ?thesis using assms(2,3)
    by (auto simp: tunnel_message_def Let_def adopt tunnel_writeControl_def client_punch_def MsgPunch_def MsgPunchAck_def MsgPeerInfo_def)
qed

lemma punched_opens:
  assumes "tunnel_inv t" "tn_phase t = Waiting" "t' = hole_punched (t\<lparr>tn_rxCount := n, tn_peerAddr := Some src\<rparr>)"
  shows "tn_phase (fst (tunnel_step E t' PunchedSeen)) = Opening" "tn_peerAddr t' = Some src" "tn_punched t'"
  using assms by (auto simp: hole_punched_def tunnel_inv_def)

text \<open>C14. Two clients that can reach each other find each other: once one of them knows the address of the other and punches, its punch and the answer to
  it, sealed with the pre-shared key or plain without one, make both send to each other and go on to open the tunnel; exactly one of them is
  the listener of the session, and both use the same number for it.\<close>

theorem punching_connects:
  assumes "json_ok E encode" "codec_ok (tn_codec tA)" "length n1 = NonceSizeX" "length n2 = NonceSizeX" "\<And>k m. 4 \<le> length (te_hmac E k m)"
    and "tunnel_inv tA" "tn_phase tA = Waiting" "\<not> tn_isRelay tA" "tn_punching tA" "\<not> tn_punched tA" "tn_peerAddr tA = Some b"
    and "tunnel_inv tB" "tn_phase tB = Waiting" "\<not> tn_isRelay tB"
    and "tn_codec tB = tn_codec tA" "tn_profile tB = tn_profile tA" "NormalizeProfile (tn_profile tA) = tn_profile tA"
    and "tn_peerID tA = cc_DeviceID (tn_cfg tB)" "tn_peerID tB = cc_DeviceID (tn_cfg tA)" "tn_peerID tA \<noteq> tn_peerID tB" "cc_PSK (tn_cfg tA) = cc_PSK (tn_cfg tB)"
  shows "\<exists>more tB' tA'. tunnel_step E tA PunchTick = (tA, tunnel_writeControl tA b (client_punch tA MsgPunch) # more)
    \<and> tunnel_step E tB (Received a (wire encode n1 tA (client_punch tA MsgPunch))) = (tB', [tunnel_writeControl tB a (client_punch tB MsgPunchAck)])
    \<and> tunnel_step E tA (Received b (wire encode n2 tB (client_punch tB MsgPunchAck))) = (tA', [])
    \<and> tn_peerAddr tA' = Some b \<and> tn_peerAddr tB' = Some a
    \<and> tn_phase (fst (tunnel_step E tA' PunchedSeen)) = Opening \<and> tn_phase (fst (tunnel_step E tB' PunchedSeen)) = Opening
    \<and> tunnel_isListener tA = (\<not> tunnel_isListener tB) \<and> tunnel_conv E tA = tunnel_conv E tB \<and> tunnel_conv E tA \<noteq> None"
proof -
  let ?tB = "hole_punched (tB\<lparr>tn_rxCount := tn_rxCount tB + 1, tn_peerAddr := Some a\<rparr>)"
  let ?tA = "hole_punched (tA\<lparr>tn_rxCount := tn_rxCount tA + 1, tn_peerAddr := Some b\<rparr>)"
  have kinds: "msg_Type (client_punch t k) = k" "msg_Profile (client_punch t k) = tn_profile t" for t k by (simp_all add: client_punch_def)
  have punch: "\<exists>more. tunnel_step E tA PunchTick = (tA, tunnel_writeControl tA b (client_punch tA MsgPunch) # more)"
    using assms(9-11) by (simp add: tunnel_punchTick_def)
  have B: "tunnel_step E tB (Received a (wire encode n1 tA (client_punch tA MsgPunch))) = (?tB, [tunnel_writeControl tB a (client_punch tB MsgPunchAck)])"
    using wire_received [OF assms(2,1,3,15)] punch_heard [OF assms(1) _ _ assms(14), of "client_punch tA MsgPunch" a] assms(16,17) by (simp add: kinds)
  have "codec_ok (tn_codec tB)" using assms(2,15) by simp
  then have A: "tunnel_step E tA (Received b (wire encode n2 tB (client_punch tB MsgPunchAck))) = (?tA, [])"
    using wire_received [OF _ assms(1,4) assms(15) [symmetric]] punch_heard [OF assms(1) _ _ assms(8), of "client_punch tB MsgPunchAck" b] assms(16,17)
    by (simp add: kinds MsgPunch_def MsgPunchAck_def)
  have "tunnel_conv E tA = tunnel_conv E tB \<and> tunnel_conv E tA \<noteq> None"
    using ConvID_agrees [where hmac = "te_hmac E", OF assms(5), where psk = "cc_PSK (tn_cfg tA)" and a = "cc_DeviceID (tn_cfg tA)" and b = "tn_peerID tA" and profile = "tn_profile tA"] assms(16,18,19,21)
    by (auto simp: tunnel_conv_def)
  moreover have "tunnel_isListener tA = (\<not> tunnel_isListener tB)" using assms(18-20) by (auto simp: tunnel_isListener_def)
  ultimately show ?thesis
    using punch A B punched_opens [OF assms(6,7) refl, where n = "tn_rxCount tA + 1" and src = b]
      punched_opens [OF assms(12,13) refl, where n = "tn_rxCount tB + 1" and src = a] by blast
qed

subsection \<open>Small tunnels\<close>

definition demo_tunnel_cfg :: "string \<Rightarrow> ClientConfig" where
  "demo_tunnel_cfg device = DefaultClient\<lparr>cc_Server := ''s:7000'', cc_DeviceID := device, cc_NoUPnP := True\<rparr>"

definition demo_nat :: natProbeResult where
  "demo_nat = \<lparr>nat_NATType = ''cone'', nat_PrimaryAddr = '''', nat_AltAddr = '''', nat_ForceRelay = False\<rparr>"

text \<open>Messages with a type as their only content, for a decoder that is a function on small inputs.\<close>

definition demo_punch :: "string \<Rightarrow> Message" where
  "demo_punch kind = no_message\<lparr>msg_Type := kind, msg_Profile := ''interactive''\<rparr>"

definition demo_tunnel_env :: tunnel_env where
  "demo_tunnel_env = \<lparr>te_decode = (\<lambda>data. if data = bytes_of ''{'' then Inr (demo_punch MsgPunch) else Inl ''''), te_resolve = Some,
     te_newCodec = (\<lambda>_. Inr \<lparr>sc_aead = sum_aead\<rparr>), te_text = (\<lambda>_. ''''), te_hmac = (\<lambda>_ _. [0, 0, 0, 1])\<rparr>"

definition demo_tunnel :: "string \<Rightarrow> string \<Rightarrow> tunnel_run" where
  "demo_tunnel device peerID = \<lparr>tn_cfg = demo_tunnel_cfg device, tn_peerID = peerID, tn_profile = ''interactive'', tn_nat = demo_nat, tn_codec = None,
     tn_server = ''s:7000'', tn_upnp = '''', tn_peerAddr = None, tn_peerUpnpAddr = None, tn_punched = False, tn_punchStarted = False,
     tn_punching = False, tn_isRelay = False, tn_closed = False, tn_rxCount = 0, tn_timer = Armed, tn_inbox = [], tn_phase = Starting\<rparr>"

lemma demo_started:
  "\<exists>out. start_tunnel demo_tunnel_env (demo_tunnel_cfg ''a'') ''b'' '''' demo_nat None None None = (Inr (demo_tunnel ''a'' ''b''), out)"
  by (simp add: start_tunnel_def demo_tunnel_cfg_def demo_tunnel_env_def demo_tunnel_def DefaultClient_def Let_def)


theorem plain_punch_moves_tunnel_witness:
  "\<exists>t' out. tunnel_step demo_tunnel_env ((demo_tunnel ''a'' ''b'')\<lparr>tn_codec := Some \<lparr>sc_aead = sum_aead\<rparr>\<rparr>) (Received ''x:1'' (bytes_of ''{'')) = (t', out)
     \<and> tn_peerAddr t' = Some ''x:1'' \<and> tunnel_step demo_tunnel_env t' (KCPWrites [7]) = (t', [SendData ''x:1'' [7]])"
proof -
  let ?t = "(demo_tunnel ''a'' ''b'')\<lparr>tn_codec := Some \<lparr>sc_aead = sum_aead\<rparr>\<rparr>"
  have "te_decode demo_tunnel_env (bytes_of ''{'') = Inr (demo_punch MsgPunch)" by (simp add: demo_tunnel_env_def)
  moreover have "bytes_of ''{'' = of_char CHR ''{'' # []" by (simp add: bytes_of_def)
  moreover have "msg_Type (demo_punch MsgPunch) \<in> {MsgPunch, MsgPunchAck}" "NormalizeProfile (msg_Profile (demo_punch MsgPunch)) = tn_profile ?t"
    "\<not> tn_isRelay ?t" by (simp_all add: demo_punch_def demo_tunnel_def)
  ultimately show ?thesis using plain_punch_moves_tunnel [of demo_tunnel_env "bytes_of ''{''" "demo_punch MsgPunch" "[]" ?t "''x:1''"] by blast
qed

text \<open>An encoding of messages for the witness: the messages are numbered, and the number is written in unary.\<close>

definition message_code :: "Message \<Rightarrow> nat" where
  "message_code msg = to_nat (msg_Type msg, msg_From msg, msg_Name msg, msg_Peer msg, msg_Profile msg, msg_Addr msg, msg_UpnpAddr msg, msg_Payload msg,
     msg_Timestamp msg, msg_Signature msg)"

definition code_message :: "nat \<Rightarrow> Message" where
  "code_message n = (case from_nat n of (kind, sender, name, peer, profile, addr, upnp, payload, timestamp, signature) \<Rightarrow>
     \<lparr>msg_Type = kind, msg_From = sender, msg_Name = name, msg_Peer = peer, msg_Profile = profile, msg_Addr = addr, msg_UpnpAddr = upnp,
      msg_Payload = payload, msg_Timestamp = timestamp, msg_Signature = signature\<rparr>)"

definition unary_encode :: "Message \<Rightarrow> bytes" where
  "unary_encode msg = of_char CHR ''{'' # replicate (message_code msg) 0"

definition unary_env :: tunnel_env where
  "unary_env = demo_tunnel_env\<lparr>te_decode := (\<lambda>data. Inr (code_message (length data - 1)))\<rparr>"

lemma unary_json: "json_ok unary_env unary_encode"
  by (simp add: json_ok_def unary_env_def unary_encode_def code_message_def message_code_def)

theorem punching_connects_witness:
  "\<exists>tA' tB'. tunnel_step unary_env ((demo_tunnel ''b'' ''a'')\<lparr>tn_phase := Waiting\<rparr>)
       (Received ''x:1'' (wire unary_encode (replicate 24 0) (demo_tunnel ''a'' ''b'') (client_punch (demo_tunnel ''a'' ''b'') MsgPunch)))
       = (tB', [Send (sent.Plain ''x:1'' (client_punch (demo_tunnel ''b'' ''a'') MsgPunchAck))])
     \<and> tunnel_step unary_env ((demo_tunnel ''a'' ''b'')\<lparr>tn_phase := Waiting, tn_punching := True, tn_peerAddr := Some ''y:2''\<rparr>)
       (Received ''y:2'' (wire unary_encode (replicate 24 0) (demo_tunnel ''b'' ''a'') (client_punch (demo_tunnel ''b'' ''a'') MsgPunchAck))) = (tA', [])
     \<and> tn_peerAddr tA' = Some ''y:2'' \<and> tn_peerAddr tB' = Some ''x:1''"
proof -
  let ?A = "(demo_tunnel ''a'' ''b'')\<lparr>tn_phase := Waiting, tn_punching := True, tn_peerAddr := Some ''y:2''\<rparr>"
  let ?B = "(demo_tunnel ''b'' ''a'')\<lparr>tn_phase := Waiting\<rparr>"
  have same: "wire e n ?A = wire e n (demo_tunnel ''a'' ''b'')" "wire e n ?B = wire e n (demo_tunnel ''b'' ''a'')"
    "client_punch ?A k = client_punch (demo_tunnel ''a'' ''b'') k" "client_punch ?B k = client_punch (demo_tunnel ''b'' ''a'') k" for e n k
    by (simp_all add: wire_def client_punch_def fun_eq_iff)
  have hmac: "te_hmac unary_env = (\<lambda>_ _. [0, 0, 0, 1])" by (simp add: unary_env_def demo_tunnel_env_def)
  have "\<exists>more tB' tA'. tunnel_step unary_env ?A PunchTick = (?A, tunnel_writeControl ?A ''y:2'' (client_punch ?A MsgPunch) # more)
    \<and> tunnel_step unary_env ?B (Received ''x:1'' (wire unary_encode (replicate 24 0) ?A (client_punch ?A MsgPunch)))
        = (tB', [tunnel_writeControl ?B ''x:1'' (client_punch ?B MsgPunchAck)])
    \<and> tunnel_step unary_env ?A (Received ''y:2'' (wire unary_encode (replicate 24 0) ?B (client_punch ?B MsgPunchAck))) = (tA', [])
    \<and> tn_peerAddr tA' = Some ''y:2'' \<and> tn_peerAddr tB' = Some ''x:1''
    \<and> tn_phase (fst (tunnel_step unary_env tA' PunchedSeen)) = Opening \<and> tn_phase (fst (tunnel_step unary_env tB' PunchedSeen)) = Opening
    \<and> tunnel_isListener ?A = (\<not> tunnel_isListener ?B) \<and> tunnel_conv unary_env ?A = tunnel_conv unary_env ?B \<and> tunnel_conv unary_env ?A \<noteq> None"
    by (rule punching_connects)
      (use unary_json in \<open>simp_all add: codec_ok_def NonceSizeX_def hmac demo_tunnel_def demo_tunnel_cfg_def DefaultClient_def tunnel_inv_def\<close>)
  moreover have "tunnel_writeControl ?B ''x:1'' msg = Send (sent.Plain ''x:1'' msg)" for msg by (simp add: tunnel_writeControl_def demo_tunnel_def)
  ultimately show ?thesis unfolding same by auto
qed

end
