(* ===== verification/ClientAgent.thy ===== *)
theory ClientAgent
  imports AgentApi ClientTunnel
begin

text \<open>
  The agent of the tunnel client, \<^verbatim>\<open>cmd/client/main.go\<close> without \<^verbatim>\<open>runTunnelOnce\<close>: the configuration it takes over from the server, the grouping of the rules into
  tunnels, the loop that starts and stops a worker per tunnel, and the worker that runs a tunnel again and again.

  \<^item> A worker is \<^verbatim>\<open>runPeerWorker\<close> together with its \<^verbatim>\<open>agentPeerSession\<close>; the run it is in is a \<open>tunnel_run\<close>.  The channel \<^verbatim>\<open>wake\<close> holds at most one reason.  The cancel functions of the
    runs are numbered; \<^verbatim>\<open>clearTunnelCancel\<close>, called by the worker only, compares the code pointers of the functions, which are the same
    for every run, and so always clears.
  \<^item> \<^verbatim>\<open>trigger\<close> is called by the loop of the agent while the worker runs: it reads the cancel function, then offers the reason, then cancels.  These are
    three steps, and the worker may do any of its own in between.
  \<^item> Statuses that are posted to the server are outputs; whether the request succeeds has no influence on the worker.
\<close>

subsection \<open>Configuration\<close>

definition needsBootstrapConfig :: "ClientConfig \<Rightarrow> bool \<Rightarrow> bool \<Rightarrow> bool" where
  "needsBootstrapConfig cfg probeMode explicitPeer =
     (if probeMode then False
      else if cc_Server cfg \<noteq> '''' then False
      else if explicitPeer \<and> cc_ServerHTTP cfg = '''' then False
      else TrimSpace (cc_ServerHTTP cfg) = '''')"

definition mergeBootstrap :: "durations \<Rightarrow> ClientConfig \<Rightarrow> agentBootstrapResponse \<Rightarrow> ClientConfig option" where
  "mergeBootstrap D local resp =
     (let cfg = local\<lparr>cc_Server := ab_Server resp, cc_ServerHTTP := ab_ServerHTTP resp, cc_PSK := ab_PSK resp\<rparr>;
          cfg = (if ab_DeviceID resp \<noteq> '''' then cfg\<lparr>cc_DeviceID := ab_DeviceID resp\<rparr> else cfg);
          cfg = (if ab_DeviceName resp \<noteq> '''' then cfg\<lparr>cc_DeviceName := ab_DeviceName resp\<rparr> else cfg);
          cfg = cfg\<lparr>cc_NoUPnP := ab_NoUPnP resp\<rparr>
      in (case du_parse D (ab_UPnPTimeout resp) of
           None \<Rightarrow> None
         | Some upnpTimeout \<Rightarrow>
             let cfg = cfg\<lparr>cc_UPnPTimeout := upnpTimeout, cc_LogLevel := ab_LogLevel resp, cc_TrayEnabled := ab_TrayEnabled resp\<rparr>
             in (case du_parse D (ab_PunchTimeout resp) of
                  None \<Rightarrow> None
                | Some punchTimeout \<Rightarrow>
                    Some (cfg\<lparr>cc_PunchTimeout := punchTimeout, cc_ForceRelay := ab_ForceRelay resp, cc_AllowLegacy := ab_AllowLegacy resp\<rparr>))))"

text \<open>What the service starts with: the configuration and the port of the second STUN server, or nothing when it has to wait for another
  configuration.  \<open>answer\<close> is the response of the server, if any.\<close>

definition runServiceAgent_config :: "durations \<Rightarrow> ClientConfig \<Rightarrow> int \<Rightarrow> agentBootstrapResponse option \<Rightarrow> (ClientConfig \<times> int) option" where
  "runServiceAgent_config D cfg altPort answer =
     (if needsBootstrapConfig cfg False False then None
      else
        let runtime = (if cc_ServerHTTP cfg \<noteq> '''' then
                         (case answer of
                            None \<Rightarrow> if cc_Server cfg = '''' then None else Some (cfg, altPort)
                          | Some resp \<Rightarrow> map_option (\<lambda>merged. (merged, ab_STUNAltPort resp)) (mergeBootstrap D cfg resp))
                       else Some (cfg, altPort))
        in case runtime of
             None \<Rightarrow> None
           | Some (runtimeCfg, port) \<Rightarrow> if cc_Server runtimeCfg = '''' then None else Some (runtimeCfg, port))"

text \<open>\<open>a1\<close> and \<open>a2\<close> are the addresses that the two STUN servers saw.\<close>

definition probeNAT :: "string option \<Rightarrow> string option \<Rightarrow> natProbeResult option" where
  "probeNAT a1 a2 =
     (case (a1, a2) of
        (Some a1, Some a2) \<Rightarrow>
          let port = (\<lambda>a. case SplitHostPort a of None \<Rightarrow> '''' | Some (_, p) \<Rightarrow> p);
              res = \<lparr>nat_NATType = ''unknown'', nat_PrimaryAddr = a1, nat_AltAddr = a2, nat_ForceRelay = False\<rparr>
          in Some (if port a1 = port a2 then res\<lparr>nat_NATType := ''cone''\<rparr> else res\<lparr>nat_NATType := ''symmetric'', nat_ForceRelay := True\<rparr>)
      | _ \<Rightarrow> None)"

definition autoDetectNAT :: "ClientConfig \<Rightarrow> natProbeResult option \<Rightarrow> natProbeResult" where
  "autoDetectNAT cfg probe =
     (let none = \<lparr>nat_NATType = '''', nat_PrimaryAddr = '''', nat_AltAddr = '''', nat_ForceRelay = False\<rparr> in
      if cc_ForceRelay cfg then none\<lparr>nat_NATType := ''manual-relay'', nat_ForceRelay := True\<rparr>
      else case probe of
        None \<Rightarrow> none\<lparr>nat_NATType := ''unknown''\<rparr>
      | Some res \<Rightarrow> if nat_NATType res = ''symmetric'' then res\<lparr>nat_ForceRelay := True\<rparr> else res)"

subsection \<open>Rules and tunnels\<close>

record forward_Rule =
  fw_LocalPort :: int
  fw_Target :: string
  fw_Name :: string
  fw_Profile :: string

record peerRuleSet =
  prs_Peer :: string
  prs_Profile :: string
  prs_Forward :: "forward_Rule list"
  prs_RuleIDs :: "int list"
  prs_LocalPorts :: "int list"

definition no_rule_set :: peerRuleSet where
  "no_rule_set = \<lparr>prs_Peer = '''', prs_Profile = '''', prs_Forward = [], prs_RuleIDs = [], prs_LocalPorts = []\<rparr>"

definition tunnelGroupKey :: "string \<Rightarrow> string \<Rightarrow> string" where
  "tunnelGroupKey peerID profile = peerID @ [CHR 0x00] @ NormalizeProfile profile"

definition forward_of :: "ForwardRule \<Rightarrow> forward_Rule" where
  "forward_of r = \<lparr>fw_LocalPort = rule_LocalPort r, fw_Target = rule_TargetHost r @ '':'' @ FormatInt (rule_TargetPort r), fw_Name = rule_Name r,
     fw_Profile = NormalizeProfile (rule_Profile r)\<rparr>"

definition add_ingress :: "ForwardRule \<Rightarrow> peerRuleSet \<Rightarrow> peerRuleSet" where
  "add_ingress r set0 =
     set0\<lparr>prs_Peer := rule_TargetID r, prs_Profile := NormalizeProfile (rule_Profile r), prs_Forward := prs_Forward set0 @ [forward_of r],
          prs_RuleIDs := prs_RuleIDs set0 @ [rule_ID r], prs_LocalPorts := prs_LocalPorts set0 @ [rule_LocalPort r]\<rparr>"

definition group_rule :: "string \<Rightarrow> (string \<times> peerRuleSet) list \<Rightarrow> ForwardRule \<Rightarrow> (string \<times> peerRuleSet) list" where
  "group_rule deviceID grouped r =
     (if \<not> rule_Enabled r then grouped
      else if deviceID = rule_SourceID r then
        (let key = tunnelGroupKey (rule_TargetID r) (NormalizeProfile (rule_Profile r));
             set0 = (case map_of grouped key of None \<Rightarrow> no_rule_set | Some set0 \<Rightarrow> set0)
         in AList.update key (add_ingress r set0) grouped)
      else if deviceID = rule_TargetID r then
        (let key = tunnelGroupKey (rule_SourceID r) (NormalizeProfile (rule_Profile r))
         in case map_of grouped key of
              None \<Rightarrow> AList.update key (no_rule_set\<lparr>prs_Peer := rule_SourceID r, prs_Profile := NormalizeProfile (rule_Profile r)\<rparr>) grouped
            | Some _ \<Rightarrow> grouped)
      else grouped)"

definition groupRulesByPeer :: "string \<Rightarrow> ForwardRule list \<Rightarrow> (string \<times> peerRuleSet) list" where
  "groupRulesByPeer deviceID rules = foldl (group_rule deviceID) [] rules"

fun signature_parts :: "forward_Rule list \<Rightarrow> int list \<Rightarrow> string list" where
  "signature_parts [] ids = []"
| "signature_parts (r # rules) ids =
     (''#'' @ FormatInt (case ids of [] \<Rightarrow> 0 | i # _ \<Rightarrow> i) @ '':'' @ fw_Profile r @ '':'' @ fw_Name r @ '':'' @ FormatInt (fw_LocalPort r) @ ''->'' @ fw_Target r)
       # signature_parts rules (drop 1 ids)"

definition forwardRulesSignature :: "peerRuleSet \<Rightarrow> string" where
  "forwardRulesSignature rules = Join (sort (signature_parts (prs_Forward rules) (prs_RuleIDs rules))) '',''"

subsection \<open>Errors and delays\<close>

fun text_contains :: "string \<Rightarrow> string \<Rightarrow> bool" where
  "text_contains [] part = (part = [])"
| "text_contains (c # s) part = (HasPrefix (c # s) part \<or> text_contains s part)"

definition classifyTunnelError :: "run_error \<Rightarrow> string" where
  "classifyTunnelError err =
     (case err of
        Canceled \<Rightarrow> ''rule_cancelled''
      | Failure msg \<Rightarrow>
          if text_contains msg ''peer_info_timeout'' then ''peer_info_timeout''
          else if text_contains msg ''punch_timeout'' then ''punch_timeout''
          else if text_contains msg ''register_failed'' then ''register_failed''
          else if text_contains msg ''kcp_open_failed'' then ''kcp_open_failed''
          else if text_contains msg ''ingress_listen_failed'' then ''ingress_listen_failed''
          else if text_contains msg ''local_socket_failed'' then ''local_socket_failed''
          else if text_contains msg ''kcp_eof'' then ''kcp_eof''
          else if text_contains msg ''i/o timeout'' then ''io_timeout''
          else msg)"

definition shouldRetryTunnelError :: "string \<Rightarrow> bool" where
  "shouldRetryTunnelError reason \<longleftrightarrow> reason \<notin> {''rule_cancelled'', ''rule_changed'', ''ingress_listen_failed''}"

definition backoff_steps :: "duration list" where
  "backoff_steps = [Second, 2 * Second, 5 * Second, 10 * Second, 20 * Second, 30 * Second, 60 * Second]"

text \<open>\<open>random\<close> is what \<^verbatim>\<open>Float64\<close> draws; the product is computed without the rounding of 64-bit floats.\<close>

definition nextBackoffDelay :: "rat \<Rightarrow> int \<Rightarrow> duration" where
  "nextBackoffDelay random attempt =
     (if attempt \<le> 0 then backoff_steps ! 0
      else
        let idx = attempt - 1;
            idx = (if int (length backoff_steps) \<le> idx then int (length backoff_steps) - 1 else idx);
            base = backoff_steps ! nat idx;
            jitterMin = of_int base * (1 / 10);
            jitterMax = of_int base * (2 / 10)
        in if jitterMax \<le> jitterMin then base else base + \<lfloor>jitterMin + random * (jitterMax - jitterMin)\<rfloor>)"

subsection \<open>A worker\<close>

datatype worker_pc = Top | Dialing | Dialed | InRun tunnel_run | Ended run_error | Cleared run_error | Down | Backoff | Finished

datatype trigger_state = Quiet | HasRead string "nat option" | Offered "nat option"

record worker =
  wk_cfg :: ClientConfig
  wk_rules :: peerRuleSet
  wk_sig :: string
  wk_cancelled :: bool
  wk_wake :: "string option"
  wk_status :: agentTunnelStatus
  wk_addr :: string
  wk_upnp :: string
  wk_tunnelCancel :: "nat option"
  wk_runs :: nat
  wk_runCancelled :: bool
  wk_attempt :: int
  wk_connected :: bool
  wk_pc :: worker_pc
  wk_trigger :: trigger_state

datatype worker_output = Post agentTunnelStatus string string | Net tunnel_output

definition new_worker :: "ClientConfig \<Rightarrow> peerRuleSet \<Rightarrow> worker" where
  "new_worker cfg rules = \<lparr>wk_cfg = cfg, wk_rules = rules, wk_sig = forwardRulesSignature rules, wk_cancelled = False, wk_wake = None,
     wk_status = no_status, wk_addr = '''', wk_upnp = '''', wk_tunnelCancel = None, wk_runs = 0, wk_runCancelled = False, wk_attempt = 0,
     wk_connected = False, wk_pc = Top, wk_trigger = Quiet\<rparr>"

definition setStatus :: "string \<Rightarrow> agentTunnelStatus \<Rightarrow> worker \<Rightarrow> worker" where
  "setStatus now st w = w\<lparr>wk_status := (if sta_LastTransitionAt st = '''' then st\<lparr>sta_LastTransitionAt := now\<rparr> else st)\<rparr>"

definition setDeviceAddrs :: "string \<Rightarrow> string \<Rightarrow> worker \<Rightarrow> worker" where
  "setDeviceAddrs addr upnp w =
     (let w = (if addr \<noteq> '''' then w\<lparr>wk_addr := addr\<rparr> else w) in if upnp \<noteq> '''' then w\<lparr>wk_upnp := upnp\<rparr> else w)"

definition worker_report :: "string \<Rightarrow> agentTunnelStatus \<Rightarrow> string \<Rightarrow> string \<Rightarrow> worker \<Rightarrow> worker \<times> worker_output list" where
  "worker_report now ts addr upnp w =
     (let ts = ts\<lparr>sta_Peer := prs_Peer (wk_rules w), sta_Profile := NormalizeProfile (prs_Profile (wk_rules w))\<rparr>
      in (setDeviceAddrs addr upnp (setStatus now ts w), if sta_State ts = '''' then [] else [Post ts addr upnp]))"

definition run_report :: "string \<Rightarrow> agentTunnelStatus \<Rightarrow> string \<Rightarrow> string \<Rightarrow> worker \<Rightarrow> worker \<times> worker_output list" where
  "run_report now ts addr upnp w =
     (let w = (if sta_State ts = ''p2p'' \<or> sta_State ts = ''relay'' then w\<lparr>wk_connected := True, wk_attempt := 0\<rparr> else w);
          ts = (if sta_LastTransitionAt ts = '''' then ts\<lparr>sta_LastTransitionAt := now\<rparr> else ts)
      in worker_report now ts addr upnp w)"

fun run_outputs :: "string \<Rightarrow> worker \<Rightarrow> tunnel_output list \<Rightarrow> worker \<times> worker_output list" where
  "run_outputs now w [] = (w, [])"
| "run_outputs now w (Report ts addr upnp # outs) =
     (let (w, out) = run_report now ts addr upnp w; (w, rest) = run_outputs now w outs in (w, out @ rest))"
| "run_outputs now w (out # outs) = (let (w, rest) = run_outputs now w outs in (w, Net out # rest))"

definition worker_stops :: "string \<Rightarrow> worker \<Rightarrow> worker \<times> worker_output list" where
  "worker_stops now w = worker_report now (no_status\<lparr>sta_State := ''disabled'', sta_LastError := ''rule_cancelled''\<rparr>) '''' '''' (w\<lparr>wk_pc := Finished\<rparr>)"

definition reset_attempt :: "string \<Rightarrow> worker \<Rightarrow> worker" where
  "reset_attempt reason w = (if reason \<in> {''addr_changed'', ''upnp_changed'', ''system_resume''} then w\<lparr>wk_attempt := 0\<rparr> else w)"

definition decide :: "string \<Rightarrow> string \<Rightarrow> run_error \<Rightarrow> worker \<Rightarrow> worker \<times> worker_output list" where
  "decide now nextRetry err w =
     (if wk_cancelled w then worker_stops now w
      else case wk_wake w of
        Some reason \<Rightarrow> (reset_attempt reason (w\<lparr>wk_wake := None, wk_pc := Top\<rparr>), [])
      | None \<Rightarrow>
          let reason = classifyTunnelError err;
              w = (if wk_connected w then w\<lparr>wk_attempt := 0\<rparr> else w)
          in if \<not> shouldRetryTunnelError reason then
               worker_report now (no_status\<lparr>sta_State := ''down'', sta_LastError := reason, sta_Attempt := wk_attempt w, sta_LastTransitionAt := now\<rparr>) '''' ''''
                 (w\<lparr>wk_pc := Down\<rparr>)
             else
               let w = w\<lparr>wk_attempt := wk_attempt w + 1, wk_pc := Backoff\<rparr>
               in worker_report now (no_status\<lparr>sta_State := ''backoff'', sta_LastError := reason, sta_Attempt := wk_attempt w, sta_NextRetryAt := nextRetry,
                    sta_LastTransitionAt := now\<rparr>) '''' '''' w)"

datatype worker_event =
    Begin string
  | Dial
  | StartRun string natProbeResult "string option" "string option" "string option"
  | InTunnel string tunnel_event
  | Clear
  | Decide string string
  | Woken
  | BackoffEnds
  | CancelSeen string
  | Cancel
  | TriggerRead string
  | TriggerOffer
  | TriggerCancel

fun worker_step :: "tunnel_env \<Rightarrow> worker \<Rightarrow> worker_event \<Rightarrow> worker \<times> worker_output list" where
  "worker_step E w (Begin now) =
     (if wk_pc w \<noteq> Top then (w, [])
      else if wk_cancelled w then worker_stops now w
      else worker_report now (no_status\<lparr>sta_State := ''connecting'', sta_Attempt := wk_attempt w, sta_LastTransitionAt := now\<rparr>) '''' ''''
        (w\<lparr>wk_connected := False, wk_pc := Dialing\<rparr>))"
| "worker_step E w Dial =
     (if wk_pc w = Dialing
      then w\<lparr>wk_runs := wk_runs w + 1, wk_tunnelCancel := Some (wk_runs w + 1), wk_runCancelled := False, wk_pc := Dialed\<rparr>
      else w, [])"
| "worker_step E w (StartRun now natResult socket upnp register) =
     (if wk_pc w = Dialed then
        (let (res, outs) = start_tunnel E (wk_cfg w) (prs_Peer (wk_rules w)) (prs_Profile (wk_rules w)) natResult socket upnp register;
             (w, posts) = run_outputs now w outs
         in (w\<lparr>wk_pc := (case res of Inl e \<Rightarrow> Ended e | Inr t \<Rightarrow> InRun t)\<rparr>, posts))
      else (w, []))"
| "worker_step E w (InTunnel now e) =
     (case wk_pc w of
        InRun t \<Rightarrow>
          if e = CtxDone \<and> \<not> wk_cancelled w \<and> \<not> wk_runCancelled w then (w, [])
          else
            (let (t, outs) = tunnel_step E t e;
                 (w, posts) = run_outputs now w outs
             in (w\<lparr>wk_pc := (case tn_phase t of Stopped err \<Rightarrow> Ended err | _ \<Rightarrow> InRun t)\<rparr>, posts))
      | _ \<Rightarrow> (w, []))"
| "worker_step E w Clear = (case wk_pc w of Ended e \<Rightarrow> w\<lparr>wk_tunnelCancel := None, wk_pc := Cleared e\<rparr> | _ \<Rightarrow> w, [])"
| "worker_step E w (Decide now nextRetry) = (case wk_pc w of Cleared e \<Rightarrow> decide now nextRetry e w | _ \<Rightarrow> (w, []))"
| "worker_step E w Woken =
     (case wk_wake w of
        Some reason \<Rightarrow> if wk_pc w = Down \<or> wk_pc w = Backoff then reset_attempt reason (w\<lparr>wk_wake := None, wk_pc := Top\<rparr>) else w
      | None \<Rightarrow> w, [])"
| "worker_step E w BackoffEnds = (if wk_pc w = Backoff then w\<lparr>wk_pc := Top\<rparr> else w, [])"
| "worker_step E w (CancelSeen now) = (if wk_cancelled w \<and> (wk_pc w = Down \<or> wk_pc w = Backoff) then worker_stops now w else (w, []))"
| "worker_step E w Cancel = (w\<lparr>wk_cancelled := True\<rparr>, [])"
| "worker_step E w (TriggerRead reason) = (if wk_trigger w = Quiet then w\<lparr>wk_trigger := HasRead reason (wk_tunnelCancel w)\<rparr> else w, [])"
| "worker_step E w TriggerOffer =
     (case wk_trigger w of
        HasRead reason c \<Rightarrow> w\<lparr>wk_wake := (case wk_wake w of None \<Rightarrow> Some reason | Some r \<Rightarrow> Some r), wk_trigger := Offered c\<rparr>
      | _ \<Rightarrow> w, [])"
| "worker_step E w TriggerCancel =
     (case wk_trigger w of
        Offered c \<Rightarrow> w\<lparr>wk_runCancelled := (wk_runCancelled w \<or> c = Some (wk_runs w)), wk_trigger := Quiet\<rparr>
      | _ \<Rightarrow> w, [])"

definition run_worker :: "tunnel_env \<Rightarrow> worker \<Rightarrow> worker_event list \<Rightarrow> worker" where
  "run_worker E w es = foldl (\<lambda>w e. fst (worker_step E w e)) w es"

subsection \<open>The loop of the agent\<close>

type_synonym sessions = "(string \<times> worker) list"

definition kept_session :: "(string \<times> peerRuleSet) list \<Rightarrow> string \<times> worker \<Rightarrow> bool" where
  "kept_session grouped kw \<longleftrightarrow> (case map_of grouped (fst kw) of None \<Rightarrow> False | Some set0 \<Rightarrow> wk_sig (snd kw) = forwardRulesSignature set0)"

text \<open>\<open>rules\<close> is what the server answers, if it does.  A session that is stopped is waited for and forgotten.\<close>

definition syncRules :: "ClientConfig \<Rightarrow> ForwardRule list option \<Rightarrow> sessions \<Rightarrow> sessions \<times> worker_output list" where
  "syncRules cfg rules sessions =
     (case rules of
        None \<Rightarrow> (sessions, [])
      | Some rules \<Rightarrow>
          let grouped = groupRulesByPeer (cc_DeviceID cfg) rules;
              kept = filter (kept_session grouped) sessions;
              stopped = filter (\<lambda>kw. \<not> kept_session grouped kw) sessions;
              started = filter (\<lambda>kv. map_of kept (fst kv) = None) grouped
          in (kept @ map (\<lambda>(key, ruleSet). (key, new_worker cfg ruleSet)) started,
              map (\<lambda>(key, w). Post (no_status\<lparr>sta_Peer := prs_Peer (wk_rules w), sta_Profile := prs_Profile (wk_rules w), sta_State := ''disabled'',
                sta_LastError := ''rule_changed''\<rparr>) '''' '''') stopped))"

fun first_text :: "string list \<Rightarrow> string" where
  "first_text [] = ''''"
| "first_text (v # vs) = (if v \<noteq> '''' then v else first_text vs)"

definition snapshot_status :: "worker \<Rightarrow> agentTunnelStatus" where
  "snapshot_status w =
     (let st = wk_status w;
          st = (if sta_Peer st = '''' then st\<lparr>sta_Peer := prs_Peer (wk_rules w)\<rparr> else st)
      in if sta_Profile st = '''' then st\<lparr>sta_Profile := prs_Profile (wk_rules w)\<rparr> else st)"

definition snapshotAgentSessions :: "sessions \<Rightarrow> string \<times> string \<times> agentTunnelStatus list" where
  "snapshotAgentSessions sessions =
     (let ws = map (\<lambda>key. the (map_of sessions key)) (sort (map fst sessions))
      in (first_text (map wk_addr ws), first_text (map wk_upnp ws), map snapshot_status ws))"

text \<open>The last addresses after a heartbeat, and the reason to reconnect all tunnels, if any.\<close>

definition sendHeartbeat :: "sessions \<Rightarrow> string \<Rightarrow> string \<Rightarrow> string \<times> string \<times> string option" where
  "sendHeartbeat sessions lastAddr lastUPnP =
     (let (addr, upnp, tunnels) = snapshotAgentSessions sessions in
      if addr \<noteq> '''' \<and> lastAddr \<noteq> '''' \<and> addr \<noteq> lastAddr then (addr, upnp, Some ''addr_changed'')
      else
        let lastAddr = (if addr \<noteq> '''' then addr else lastAddr) in
        if upnp \<noteq> '''' then (lastAddr, upnp, if lastUPnP \<noteq> '''' \<and> upnp \<noteq> lastUPnP then Some ''upnp_changed'' else None)
        else (lastAddr, lastUPnP, None))"

subsection \<open>Groups of rules\<close>

text \<open>The rules of a tunnel: those that start at the device, and those that end there.\<close>

definition ingress_rule :: "string \<Rightarrow> string \<Rightarrow> ForwardRule \<Rightarrow> bool" where
  "ingress_rule deviceID key r \<longleftrightarrow> rule_Enabled r \<and> deviceID = rule_SourceID r \<and> key = tunnelGroupKey (rule_TargetID r) (NormalizeProfile (rule_Profile r))"

definition egress_rule :: "string \<Rightarrow> string \<Rightarrow> ForwardRule \<Rightarrow> bool" where
  "egress_rule deviceID key r \<longleftrightarrow> rule_Enabled r \<and> deviceID \<noteq> rule_SourceID r \<and> deviceID = rule_TargetID r
     \<and> key = tunnelGroupKey (rule_SourceID r) (NormalizeProfile (rule_Profile r))"

definition group_ok :: "string \<Rightarrow> ForwardRule list \<Rightarrow> (string \<times> peerRuleSet) list \<Rightarrow> string \<Rightarrow> bool" where
  "group_ok deviceID rules grouped key \<longleftrightarrow> (case map_of grouped key of
     None \<Rightarrow> \<forall>r \<in> set rules. \<not> ingress_rule deviceID key r \<and> \<not> egress_rule deviceID key r
   | Some rs \<Rightarrow> (\<exists>r \<in> set rules. ingress_rule deviceID key r \<or> egress_rule deviceID key r)
       \<and> prs_Forward rs = map forward_of (filter (ingress_rule deviceID key) rules)
       \<and> prs_RuleIDs rs = map rule_ID (filter (ingress_rule deviceID key) rules)
       \<and> prs_LocalPorts rs = map rule_LocalPort (filter (ingress_rule deviceID key) rules))"

lemma group_rule_other:
  assumes "\<not> ingress_rule deviceID key r" "\<not> egress_rule deviceID key r"
  shows "map_of (group_rule deviceID grouped r) key = map_of grouped key"
  using assms by (auto simp: group_rule_def ingress_rule_def egress_rule_def Let_def update_conv' split: option.splits)

lemma group_rule_ingress:
  assumes "ingress_rule deviceID key r"
  shows "map_of (group_rule deviceID grouped r) key = Some (add_ingress r (case map_of grouped key of None \<Rightarrow> no_rule_set | Some rs \<Rightarrow> rs))"
  using assms by (simp add: group_rule_def ingress_rule_def Let_def update_conv')

lemma group_rule_egress:
  assumes "egress_rule deviceID key r"
  shows "map_of (group_rule deviceID grouped r) key = Some (case map_of grouped key of
     None \<Rightarrow> no_rule_set\<lparr>prs_Peer := rule_SourceID r, prs_Profile := NormalizeProfile (rule_Profile r)\<rparr> | Some rs \<Rightarrow> rs)"
  using assms by (auto simp: group_rule_def egress_rule_def Let_def update_conv' split: option.splits)

lemma groups_ok: "group_ok deviceID rules (groupRulesByPeer deviceID rules) key"
proof (induction rules rule: rev_induct)
  case Nil
  then show ?case by (simp add: group_ok_def groupRulesByPeer_def)
next
  case (snoc r rules)
  let ?g = "groupRulesByPeer deviceID rules"
  have step: "groupRulesByPeer deviceID (rules @ [r]) = group_rule deviceID ?g r" by (simp add: groupRulesByPeer_def)
  consider "ingress_rule deviceID key r" | "egress_rule deviceID key r" | "\<not> ingress_rule deviceID key r" "\<not> egress_rule deviceID key r" by blast
  then show ?case
  proof cases
    case 1
    from snoc.IH show ?thesis
      by (cases "map_of ?g key") (auto simp: group_ok_def step group_rule_ingress [OF 1] add_ingress_def no_rule_set_def 1 filter_empty_conv)
  next
    case 2
    then have "\<not> ingress_rule deviceID key r" by (auto simp: ingress_rule_def egress_rule_def)
    with snoc.IH show ?thesis
      by (cases "map_of ?g key") (auto simp: group_ok_def step group_rule_egress [OF 2] no_rule_set_def 2 filter_empty_conv)
  next
    case 3
    with snoc.IH show ?thesis by (cases "map_of ?g key") (auto simp: group_ok_def step group_rule_other [OF 3])
  qed
qed

lemma groups_distinct: "distinct (map fst (groupRulesByPeer deviceID rules))"
proof (induction rules rule: rev_induct)
  case (snoc r rules)
  then show ?case by (auto simp: groupRulesByPeer_def group_rule_def Let_def distinct_update split: option.split)
qed (simp add: groupRulesByPeer_def)

subsection \<open>Sessions\<close>

lemma sessions_filter:
  assumes "distinct (map fst xs)"
  shows "map_of (filter P xs) k = Option.bind (map_of xs k) (\<lambda>w. if P (k, w) then Some w else None)"
  using assms
proof (induction xs)
  case (Cons x xs)
  then have "fst x = k \<Longrightarrow> map_of xs k = None" by (auto simp: map_of_eq_None_iff)
  with Cons show ?case by (cases x) auto
qed simp

lemma disjoint_image: "(\<And>x. x \<in> A \<Longrightarrow> f x \<notin> B) \<Longrightarrow> B \<inter> f ` A = {}"
  by blast

lemma new_worker_sig [simp]: "wk_sig (new_worker cfg rs) = forwardRulesSignature rs"
  by (simp add: new_worker_def)

definition synced_session :: "ClientConfig \<Rightarrow> peerRuleSet \<Rightarrow> worker option \<Rightarrow> worker" where
  "synced_session cfg rs old = (case old of None \<Rightarrow> new_worker cfg rs | Some w \<Rightarrow> if wk_sig w = forwardRulesSignature rs then w else new_worker cfg rs)"

lemma sync_lookup:
  assumes "distinct (map fst sessions)" "distinct (map fst g)" "kept = filter (kept_session g) sessions"
    and "new = map (\<lambda>(key, rs). (key, new_worker cfg rs)) (filter (\<lambda>kv. map_of kept (fst kv) = None) g)"
  shows "distinct (map fst (kept @ new))" "map_of (kept @ new) key = map_option (\<lambda>rs. synced_session cfg rs (map_of sessions key)) (map_of g key)"
proof -
  have keys: "map fst new = map fst (filter (\<lambda>kv. map_of kept (fst kv) = None) g)" using assms(4) by (simp add: case_prod_unfold)
  have k: "map_of kept key = Option.bind (map_of sessions key) (\<lambda>w. if kept_session g (key, w) then Some w else None)"
    unfolding assms(3) by (rule sessions_filter [OF assms(1)])
  have "map_of new key = map_option (new_worker cfg) (map_of (filter (\<lambda>kv. map_of kept (fst kv) = None) g) key)"
    unfolding assms(4) by (simp only: map_of_map comp_apply)
  then have n: "map_of new key = (if map_of kept key = None then map_option (new_worker cfg) (map_of g key) else None)"
    unfolding sessions_filter [OF assms(2)] by (cases "map_of g key"; cases "map_of kept key = None") simp_all
  show "map_of (kept @ new) key = map_option (\<lambda>rs. synced_session cfg rs (map_of sessions key)) (map_of g key)"
    by (cases "map_of sessions key"; cases "map_of g key") (simp_all add: map_add_def n k kept_session_def synced_session_def)
  have "fst kv \<notin> fst ` set kept" if "kv \<in> set (filter (\<lambda>kv. map_of kept (fst kv) = None) g)" for kv
    using that by (simp only: set_filter mem_Collect_eq map_of_eq_None_iff) simp
  then have "set (map fst kept) \<inter> set (map fst new) = {}" unfolding keys set_map by (rule disjoint_image)
  moreover have "distinct (map fst kept)" "distinct (map fst new)" unfolding keys using assms(1-3) by (simp_all add: distinct_map_filter)
  ultimately show "distinct (map fst (kept @ new))" by simp
qed


subsection \<open>Workers\<close>

fun in_run :: "worker_pc \<Rightarrow> bool" where
  "in_run Dialed = True"
| "in_run (InRun t) = True"
| "in_run (Ended e) = True"
| "in_run (Cleared e) = True"
| "in_run _ = False"

definition worker_inv :: "worker \<Rightarrow> bool" where
  "worker_inv w \<longleftrightarrow>
     (\<forall>n. wk_tunnelCancel w = Some n \<longrightarrow> n \<le> wk_runs w)
     \<and> (\<forall>r n. wk_trigger w = HasRead r (Some n) \<longrightarrow> n \<le> wk_runs w)
     \<and> (\<forall>n. wk_trigger w = Offered (Some n) \<longrightarrow> n \<le> wk_runs w \<and> (n = wk_runs w \<and> in_run (wk_pc w) \<longrightarrow> wk_wake w \<noteq> None))
     \<and> (wk_runCancelled w \<and> in_run (wk_pc w) \<longrightarrow> wk_wake w \<noteq> None)
     \<and> (wk_pc w = Ended Canceled \<or> wk_pc w = Cleared Canceled \<longrightarrow> wk_cancelled w \<or> wk_runCancelled w)
     \<and> (\<forall>t e. wk_pc w = InRun t \<longrightarrow> tn_phase t \<noteq> Stopped e)
     \<and> wk_addr w = ''''"

text \<open>Reports change nothing that controls the worker, and an empty address stays empty.\<close>

definition same_control :: "worker \<Rightarrow> worker \<Rightarrow> bool" where
  "same_control w w' \<longleftrightarrow> wk_tunnelCancel w' = wk_tunnelCancel w \<and> wk_runs w' = wk_runs w \<and> wk_trigger w' = wk_trigger w \<and> wk_wake w' = wk_wake w
     \<and> wk_runCancelled w' = wk_runCancelled w \<and> wk_cancelled w' = wk_cancelled w \<and> wk_pc w' = wk_pc w \<and> wk_addr w' = wk_addr w"

lemma same_control_refl [simp]: "same_control w w"
  by (simp add: same_control_def)

lemma same_control_trans: "same_control u v \<Longrightarrow> same_control v w \<Longrightarrow> same_control u w"
  by (simp add: same_control_def)

lemma report_control: "same_control w (fst (worker_report now ts '''' upnp w))"
  by (simp add: worker_report_def setStatus_def setDeviceAddrs_def same_control_def Let_def)

lemma run_report_control: "same_control w (fst (run_report now ts '''' upnp w))"
proof -
  let ?w = "if sta_State ts = ''p2p'' \<or> sta_State ts = ''relay'' then w\<lparr>wk_connected := True, wk_attempt := 0\<rparr> else w"
  have "same_control w ?w" by (simp add: same_control_def)
  then show ?thesis unfolding run_report_def Let_def using report_control same_control_trans by blast
qed

definition no_addr :: "tunnel_output \<Rightarrow> bool" where
  "no_addr out = (case out of Report ts addr upnp \<Rightarrow> addr = '''' | _ \<Rightarrow> True)"

lemma run_outputs_control: "list_all no_addr outs \<Longrightarrow> same_control w (fst (run_outputs now w outs))"
proof (induction outs arbitrary: w)
  case (Cons out outs)
  show ?case
  proof (cases out)
    case (Report ts addr upnp)
    then have "same_control w (fst (run_report now ts addr upnp w))" using Cons.prems run_report_control by (simp add: no_addr_def)
    then show ?thesis using Cons Report same_control_trans by (simp add: split_beta Let_def)
  qed (use Cons in \<open>simp_all add: split_beta Let_def\<close>)
qed simp

lemma no_addr_simps [simp]: "no_addr (tunnel_writeControl t dst msg)" "no_addr (tunnel_register t)" "no_addr (SendData dst b)" "no_addr (Report ts [] upnp)"
  by (simp_all add: no_addr_def tunnel_register_def tunnel_writeControl_def)

lemma receive_no_addr: "list_all no_addr (snd (tunnel_receive E t src data))"
proof -
  have "list_all no_addr (snd (tunnel_message E t src data))" for data by (simp add: tunnel_message_def Let_def split: sum.split)
  then show ?thesis by (simp add: tunnel_receive_def split: sum.split prod.split)
qed

lemma tunnel_no_addr: "list_all no_addr (snd (tunnel_step E t e))"
proof (cases e)
  case (Received src data)
  then show ?thesis using receive_no_addr by simp
qed (simp_all add: tunnel_punchTick_def WriteTo_def Let_def split: sum.split option.split tunnel_phase.split)

lemma start_no_addr: "list_all no_addr (snd (start_tunnel E cfg peerID profile natResult socket upnp register))"
  by (simp add: start_tunnel_def Let_def split: sum.split option.split)

lemma receive_phase: "tn_phase (fst (tunnel_receive E t src data)) = tn_phase t"
proof -
  have "tn_phase (fst (tunnel_message E t src data)) = tn_phase t" for data
    by (simp add: tunnel_message_def tunnel_peer_info_def hole_punched_def adoptPeerAddrSafe_def adoptPeerAddr_def Let_def split: sum.split option.split)
  then show ?thesis by (simp add: tunnel_receive_def split: sum.split prod.split)
qed

text \<open>A run ends with the error of a cancelled context only when its context is done.\<close>

lemma canceled_by_context:
  assumes "tn_phase (fst (tunnel_step E t e)) = Stopped Canceled" "\<And>err. tn_phase t \<noteq> Stopped err"
  shows "e = CtxDone"
proof (cases e)
  case (Received src data)
  then show ?thesis using assms receive_phase by simp
next
  case PunchTick
  then show ?thesis using assms by (auto simp: tunnel_punchTick_def split: if_splits option.splits)
next
  case Proceed
  then show ?thesis using assms by (auto simp: enterRelay_def Let_def split: if_splits)
next
  case TimerActs
  then show ?thesis using assms by (auto simp: enterRelay_def split: if_splits)
qed (use assms in \<open>auto simp: Let_def split: if_splits sum.splits tunnel_phase.splits\<close>)

lemma start_not_canceled: "fst (start_tunnel E cfg peerID profile natResult socket upnp register) \<noteq> Inl Canceled"
  by (auto simp: start_tunnel_def Let_def split: sum.splits option.splits)

lemma inv_same_control: "worker_inv w \<Longrightarrow> same_control w w' \<Longrightarrow> worker_inv w'"
  by (simp add: worker_inv_def same_control_def)

lemma report_inv: "worker_inv w \<Longrightarrow> worker_inv (fst (worker_report now ts '''' upnp w))"
  using inv_same_control report_control by blast

lemma stops_inv: "worker_inv w \<Longrightarrow> worker_inv (fst (worker_stops now w))"
  unfolding worker_stops_def by (rule report_inv) (auto simp: worker_inv_def)

lemma reset_attempt_control: "same_control w (reset_attempt reason w)"
  by (simp add: reset_attempt_def same_control_def)

lemma woken_inv: "worker_inv w \<Longrightarrow> worker_inv (reset_attempt reason (w\<lparr>wk_wake := None, wk_pc := Top\<rparr>))"
  by (rule inv_same_control [OF _ reset_attempt_control]) (auto simp: worker_inv_def)

lemma decide_inv:
  assumes "worker_inv w"
  shows "worker_inv (fst (decide now nextRetry err w))"
proof -
  have idle: "worker_inv (u\<lparr>wk_attempt := n, wk_pc := pc\<rparr>)" if "worker_inv u" "pc = Down \<or> pc = Backoff" for u n pc
    using that by (auto simp: worker_inv_def)
  have idle': "worker_inv (u\<lparr>wk_pc := pc\<rparr>)" if "worker_inv u" "pc = Down \<or> pc = Backoff" for u pc
    using that by (auto simp: worker_inv_def)
  have zero: "worker_inv (w\<lparr>wk_attempt := n\<rparr>)" for n using assms by (simp add: worker_inv_def)
  show ?thesis
    using assms zero stops_inv [OF assms] woken_inv [OF assms]
    by (auto simp: decide_def Let_def split: option.split intro!: report_inv idle idle')
qed

lemma run_step_inv:
  assumes "worker_inv w" "in_run (wk_pc w)" "list_all no_addr outs" "in_run pc"
    and "pc = Ended Canceled \<or> pc = Cleared Canceled \<longrightarrow> wk_cancelled w \<or> wk_runCancelled w" "\<And>t e. pc = InRun t \<Longrightarrow> tn_phase t \<noteq> Stopped e"
  shows "worker_inv ((fst (run_outputs now w outs))\<lparr>wk_pc := pc\<rparr>)"
proof -
  have "worker_inv (w\<lparr>wk_pc := pc\<rparr>)" using assms(1,2,4-6) by (auto simp: worker_inv_def)
  moreover have "same_control (w\<lparr>wk_pc := pc\<rparr>) ((fst (run_outputs now w outs))\<lparr>wk_pc := pc\<rparr>)"
    using run_outputs_control [OF assms(3), of w now] by (simp add: same_control_def)
  ultimately show ?thesis by (rule inv_same_control)
qed

lemma start_run_inv:
  assumes "worker_inv w" "wk_pc w = Dialed"
  shows "worker_inv (fst (worker_step E w (StartRun now natResult socket upnp register)))"
proof -
  obtain res outs where s: "start_tunnel E (wk_cfg w) (prs_Peer (wk_rules w)) (prs_Profile (wk_rules w)) natResult socket upnp register = (res, outs)"
    by fastforce
  have "list_all no_addr outs" "res \<noteq> Inl Canceled" using start_no_addr start_not_canceled s by (metis snd_conv, metis fst_conv)
  moreover have "tn_phase t = Starting" if "res = Inr t" for t using start_inv(3) s that by blast
  ultimately show ?thesis using assms s
    by (auto simp: split_beta Let_def intro!: run_step_inv split: sum.split)
qed

lemma in_tunnel_inv:
  assumes "worker_inv w"
  shows "worker_inv (fst (worker_step E w (InTunnel now e)))"
proof (cases "\<exists>t. wk_pc w = InRun t \<and> \<not> (e = CtxDone \<and> \<not> wk_cancelled w \<and> \<not> wk_runCancelled w)")
  case False
  then show ?thesis using assms by (auto split: worker_pc.split)
next
  case True
  then obtain t where t: "wk_pc w = InRun t" "e = CtxDone \<longrightarrow> wk_cancelled w \<or> wk_runCancelled w" by blast
  obtain u outs where s: "tunnel_step E t e = (u, outs)" by fastforce
  have "\<And>err. tn_phase t \<noteq> Stopped err" using assms t(1) by (simp add: worker_inv_def)
  then have c: "tn_phase u = Stopped Canceled \<longrightarrow> wk_cancelled w \<or> wk_runCancelled w" using canceled_by_context [of E t e] s t(2) by auto
  have o: "list_all no_addr outs" using tunnel_no_addr [of E t e] s by simp
  let ?pc = "case tn_phase u of Stopped err \<Rightarrow> Ended err | _ \<Rightarrow> InRun u"
  have "worker_inv ((fst (run_outputs now w outs))\<lparr>wk_pc := ?pc\<rparr>)"
    by (rule run_step_inv [OF assms _ o]) (use t c in \<open>auto split: tunnel_phase.splits\<close>)
  moreover have "fst (worker_step E w (InTunnel now e)) = (fst (run_outputs now w outs))\<lparr>wk_pc := ?pc\<rparr>"
    using t s by (cases "run_outputs now w outs") auto
  ultimately show ?thesis by simp
qed

lemma worker_step_inv:
  assumes "worker_inv w"
  shows "worker_inv (fst (worker_step E w e))"
proof (cases e)
  case (Begin now)
  have "worker_inv (w\<lparr>wk_connected := False, wk_pc := Dialing\<rparr>)" using assms by (auto simp: worker_inv_def)
  then show ?thesis using Begin assms stops_inv [OF assms] report_inv by simp
next
  case Dial
  then show ?thesis using assms by (auto simp: worker_inv_def)
next
  case (StartRun now natResult socket upnp register)
  then show ?thesis using assms start_run_inv [OF assms] by (cases "wk_pc w = Dialed") auto
next
  case (InTunnel now ev)
  then show ?thesis using in_tunnel_inv [OF assms] by simp
next
  case Clear
  then show ?thesis using assms by (auto simp: worker_inv_def split: worker_pc.splits)
next
  case (Decide now nextRetry)
  then show ?thesis using assms decide_inv [OF assms] by (auto split: worker_pc.split)
next
  case Woken
  then show ?thesis using assms woken_inv [OF assms] by (auto split: option.split)
next
  case (CancelSeen now)
  then show ?thesis using assms stops_inv [OF assms] by simp
next
  case TriggerOffer
  then show ?thesis using assms by (auto simp: worker_inv_def split: trigger_state.splits option.splits)
next
  case TriggerCancel
  then show ?thesis using assms by (auto simp: worker_inv_def split: trigger_state.splits)
qed (use assms in \<open>auto simp: worker_inv_def\<close>)

interpretation workers: invariant_machine "\<lambda>w e. fst (worker_step E w e)" worker_inv for E
  using worker_step_inv by unfold_locales

lemma run_worker_eq: "run_worker E w es = workers.run E w es"
  by (simp add: run_worker_def workers.run_def)

lemma new_worker_inv: "worker_inv (new_worker cfg rules)"
  by (simp add: new_worker_def worker_inv_def)

lemma reached_inv: "worker_inv (run_worker E (new_worker cfg rules) es)"
  unfolding run_worker_eq by (rule workers.run_inv [OF new_worker_inv])

text \<open>C17. An event of the network never ends a tunnel for good: when a run was cancelled although the rule still holds, the cancellation came from
  \<^verbatim>\<open>trigger\<close>, and its reason, or an earlier one, is still waiting, however the three steps of \<^verbatim>\<open>trigger\<close> and those of the worker were interleaved.  So the worker connects again at
  once; it does not take the cancellation for the removal of the rule, after which it would wait without retrying.\<close>

theorem triggered_run_reconnects:
  assumes "wk_pc (run_worker E (new_worker cfg rules) es) = Cleared Canceled" "\<not> wk_cancelled (run_worker E (new_worker cfg rules) es)"
  shows "\<exists>w'. worker_step E (run_worker E (new_worker cfg rules) es) (Decide now nextRetry) = (w', []) \<and> wk_pc w' = Top \<and> wk_wake w' = None"
proof -
  define w where "w = run_worker E (new_worker cfg rules) es"
  have w: "worker_inv w" "wk_pc w = Cleared Canceled" "\<not> wk_cancelled w" using reached_inv assms by (simp_all add: w_def)
  then have "wk_runCancelled w" "in_run (wk_pc w)" by (simp_all add: worker_inv_def)
  then obtain reason where r: "wk_wake w = Some reason" using w(1) by (auto simp: worker_inv_def)
  have "worker_step E w (Decide now nextRetry) = (reset_attempt reason (w\<lparr>wk_wake := None, wk_pc := Top\<rparr>), [])"
    using w(2,3) r by (simp add: decide_def)
  moreover have "wk_pc (reset_attempt reason (w\<lparr>wk_wake := None, wk_pc := Top\<rparr>)) = Top" "wk_wake (reset_attempt reason (w\<lparr>wk_wake := None, wk_pc := Top\<rparr>)) = None"
    by (simp_all add: reset_attempt_def)
  ultimately show ?thesis unfolding w_def by blast
qed

lemma first_text_empty: "(\<And>v. v \<in> set vs \<Longrightarrow> v = '''') \<Longrightarrow> first_text vs = ''''"
  by (induction vs) auto

lemma session_addr:
  assumes "\<And>key w. map_of sessions key = Some w \<Longrightarrow> wk_addr w = ''''" "key \<in> set (map fst sessions)"
  shows "wk_addr (the (map_of sessions key)) = ''''"
proof (cases "map_of sessions key")
  case None
  with assms(2) show ?thesis unfolding map_of_eq_None_iff by simp
next
  case (Some w)
  then show ?thesis using assms(1) by simp
qed

lemma reached_addr: "wk_addr (run_worker E (new_worker cfg rules) es) = ''''"
  using reached_inv [of E cfg rules es] unfolding worker_inv_def by blast

lemma snapshot_addr:
  assumes "\<And>key w. map_of sessions key = Some w \<Longrightarrow> wk_addr w = ''''"
  shows "fst (snapshotAgentSessions sessions) = ''''"
proof -
  have "first_text (map wk_addr (map (\<lambda>key. the (map_of sessions key)) (sort (map fst sessions)))) = ''''"
  proof (rule first_text_empty)
    fix v
    assume "v \<in> set (map wk_addr (map (\<lambda>key. the (map_of sessions key)) (sort (map fst sessions))))"
    then have "v \<in> (\<lambda>key. wk_addr (the (map_of sessions key))) ` set (map fst sessions)" unfolding set_map set_sort image_image .
    then obtain key where "key \<in> set (map fst sessions)" "v = wk_addr (the (map_of sessions key))" unfolding image_iff by blast
    then show "v = ''''" using session_addr [of sessions, OF assms] by simp
  qed
  then show ?thesis unfolding snapshotAgentSessions_def Let_def fst_conv .
qed

text \<open>The agent never learns its own address: no worker is ever told the address of its socket, so that every heartbeat carries an empty one, and the reconnection of all
  tunnels on a change of the address, which the loop provides for, never happens.\<close>

theorem own_address_unknown:
  assumes "\<And>key w. map_of sessions key = Some w \<Longrightarrow> \<exists>cfg rules es. w = run_worker E (new_worker cfg rules) es"
  shows "fst (snapshotAgentSessions sessions) = '''' \<and> snd (snd (sendHeartbeat sessions lastAddr lastUPnP)) \<noteq> Some ''addr_changed''"
proof -
  have "wk_addr w = ''''" if "map_of sessions key = Some w" for key w
    using assms [OF that] reached_addr by blast
  then have "fst (snapshotAgentSessions sessions) = ''''" by (rule snapshot_addr)
  then show ?thesis by (cases "snapshotAgentSessions sessions") (simp add: sendHeartbeat_def)
qed

text \<open>The delays between two attempts: at least a second, never more than 72, and a tenth above the step at least from the first retry on.\<close>

lemma backoff_bounds:
  assumes "0 \<le> random" "random < 1"
  shows "Second \<le> nextBackoffDelay random attempt \<and> nextBackoffDelay random attempt \<le> 72 * Second"
proof (cases "attempt \<le> 0")
  case True
  then show ?thesis by (simp add: nextBackoffDelay_def backoff_steps_def Second_def Millisecond_def)
next
  case False
  define i where "i = (if 7 \<le> attempt - 1 then 6 else nat (attempt - 1))"
  have i: "i < 7" using False by (auto simp: i_def)
  define base where "base = backoff_steps ! i"
  have b: "Second \<le> base" "base \<le> 60 * Second"
    using i by (auto simp: base_def backoff_steps_def Second_def Millisecond_def nth_Cons' )
  define jitter :: rat where "jitter = of_int base * (1 / 10) + random * (of_int base * (2 / 10) - of_int base * (1 / 10))"
  have "nextBackoffDelay random attempt = base + \<lfloor>jitter\<rfloor>"
    using False b(1) by (auto simp: nextBackoffDelay_def Let_def base_def i_def jitter_def backoff_steps_def Second_def Millisecond_def nth_Cons')
  moreover have j: "jitter = of_int base / 10 * (1 + random)" by (simp add: jitter_def algebra_simps)
  have pos: "0 \<le> (of_int base / 10 :: rat)" using b(1) by (simp add: Second_def Millisecond_def)
  have "0 \<le> jitter" unfolding j using pos assms(1) by (intro mult_nonneg_nonneg) auto
  moreover have "jitter \<le> of_int base / 10 * 2" unfolding j using pos assms(2) by (intro mult_left_mono) auto
  then have "jitter \<le> of_int (12 * Second)" using b(2) by (simp add: Second_def Millisecond_def)
  then have "\<lfloor>jitter\<rfloor> \<le> 12 * Second" unfolding floor_le_iff by simp
  moreover have "0 \<le> \<lfloor>jitter\<rfloor>" using \<open>0 \<le> jitter\<close> by simp
  ultimately show ?thesis using b by linarith
qed

text \<open>What the server hands out is what the client runs with.\<close>

lemma bootstrap_configures_client:
  assumes "durations_ok D" "deviceID \<noteq> ''''"
  shows "\<exists>merged. mergeBootstrap D local (bootstrapConfig D cfg r deviceID name) = Some merged \<and> cc_DeviceID merged = deviceID \<and> cc_PSK merged = cfg_PSK cfg
    \<and> cc_ServerHTTP merged = requestBaseURL r \<and> cc_NoUPnP merged = cfg_ClientNoUPnP cfg \<and> cc_UPnPTimeout merged = cfg_ClientUPnPTimeout cfg
    \<and> cc_PunchTimeout merged = cfg_ClientPunchTimeout cfg \<and> cc_ForceRelay merged = cfg_ClientForceRelay cfg \<and> cc_AllowLegacy merged = cfg_ClientAllowLegacy cfg"
  using assms by (simp add: mergeBootstrap_def bootstrapConfig_def durations_ok_def Let_def)

subsection \<open>Examples\<close>

definition demo_forward :: "string \<Rightarrow> string \<Rightarrow> int \<Rightarrow> ForwardRule" where
  "demo_forward source target ruleID = \<lparr>rule_ID = ruleID, rule_Name = ''web'', rule_SourceID = source, rule_TargetID = target, rule_Profile = '''', rule_LocalPort = 8080,
     rule_TargetHost = ''127.0.0.1'', rule_TargetPort = 80, rule_Enabled = True, rule_CreatedAt = '''', rule_UpdatedAt = '''', rule_RuntimeState = '''',
     rule_LastError = '''', rule_LastUpdatedAt = '''', rule_Attempt = 0, rule_NextRetryAt = ''''\<rparr>"

definition demo_rule_set :: "string \<Rightarrow> peerRuleSet" where
  "demo_rule_set peerID = no_rule_set\<lparr>prs_Peer := peerID, prs_Profile := ''interactive''\<rparr>"

definition demo_worker :: worker where
  "demo_worker = new_worker (demo_tunnel_cfg ''a'') (demo_rule_set ''b'')"

definition demo_sync :: "(string \<times> worker) list" where
  "demo_sync = fst (syncRules (demo_tunnel_cfg ''a'') (Some [demo_forward ''a'' ''b'' 1, demo_forward ''c'' ''a'' 2]) [(tunnelGroupKey ''b'' '''', demo_worker)])"


definition demo_triggered :: "worker_event list" where
  "demo_triggered = [Begin ''t'', Dial, StartRun ''t'' demo_nat None None None, InTunnel ''t'' Proceed]
     @ [TriggerRead ''system_resume'', TriggerOffer, TriggerCancel, InTunnel ''t'' CtxDone, Clear]"

lemma report_keeps [simp]: "wk_cfg (fst (worker_report now ts addr upnp w)) = wk_cfg w" "wk_rules (fst (worker_report now ts addr upnp w)) = wk_rules w"
  by (simp_all add: worker_report_def setStatus_def setDeviceAddrs_def Let_def)

text \<open>How a run gets to wait for the peer, and how it is interrupted there.\<close>

lemma run_waits:
  assumes "start_tunnel E cfg (prs_Peer rules) (prs_Profile rules) natResult socket upnp register = (Inr t, outs)" "tn_phase t = Starting"
  shows "\<exists>w u. run_worker E (new_worker cfg rules) [Begin now, Dial, StartRun now natResult socket upnp register, InTunnel now Proceed] = w
    \<and> wk_pc w = InRun u \<and> tn_phase u = Waiting \<and> wk_trigger w = Quiet \<and> wk_tunnelCancel w = Some (wk_runs w) \<and> \<not> wk_cancelled w \<and> \<not> wk_runCancelled w"
proof -
  define v where "v = fst (worker_step E (new_worker cfg rules) (Begin now))"
  have v: "wk_pc v = Dialing" "wk_trigger v = Quiet" "\<not> wk_cancelled v" "wk_cfg v = cfg" "wk_rules v = rules"
    using report_control unfolding v_def same_control_def by (simp_all add: new_worker_def)
  define w where "w = v\<lparr>wk_runs := wk_runs v + 1, wk_tunnelCancel := Some (wk_runs v + 1), wk_runCancelled := False, wk_pc := Dialed\<rparr>"
  have d: "fst (worker_step E v Dial) = w" using v(1) by (simp add: w_def)
  have "list_all no_addr outs" using start_no_addr [of E cfg "prs_Peer rules" "prs_Profile rules" natResult socket upnp register] assms(1) by simp
  then have c: "same_control w (fst (run_outputs now w outs))" by (rule run_outputs_control)
  have s: "fst (worker_step E w (StartRun now natResult socket upnp register)) = (fst (run_outputs now w outs))\<lparr>wk_pc := InRun t\<rparr>"
    using v assms(1) by (simp add: w_def split_beta)
  obtain u where u: "tunnel_step E t Proceed = (u, [])" "tn_phase u = Waiting" using assms(2) by (simp add: Let_def)
  have "fst (worker_step E x (InTunnel now Proceed)) = x\<lparr>wk_pc := InRun u\<rparr>" if "wk_pc x = InRun t" for x
    using that u by (simp del: tunnel_step.simps)
  then have "run_worker E (new_worker cfg rules) [Begin now, Dial, StartRun now natResult socket upnp register, InTunnel now Proceed]
      = (fst (run_outputs now w outs))\<lparr>wk_pc := InRun u\<rparr>"
    unfolding run_worker_def by (simp only: foldl.simps v_def [symmetric] d s) simp
  then show ?thesis using c u(2) v by (simp add: same_control_def w_def)
qed

lemma waiting_run_cancelled:
  assumes "wk_pc w = InRun t" "tn_phase t = Waiting" "wk_trigger w = Quiet" "wk_tunnelCancel w = Some (wk_runs w)" "\<not> wk_cancelled w"
  shows "wk_pc (run_worker E w [TriggerRead reason, TriggerOffer, TriggerCancel, InTunnel now CtxDone, Clear]) = Cleared Canceled
    \<and> \<not> wk_cancelled (run_worker E w [TriggerRead reason, TriggerOffer, TriggerCancel, InTunnel now CtxDone, Clear])"
  using assms by (simp add: run_worker_def)

lemma demo_start:
  "\<exists>outs. start_tunnel demo_tunnel_env (demo_tunnel_cfg ''a'') (prs_Peer (demo_rule_set ''b'')) (prs_Profile (demo_rule_set ''b'')) demo_nat None None None
     = (Inr (demo_tunnel ''a'' ''b''), outs)"
  by (simp add: start_tunnel_def demo_rule_set_def demo_tunnel_cfg_def demo_tunnel_env_def demo_tunnel_def DefaultClient_def Let_def)

lemma run_worker_append: "run_worker E w (es @ es') = run_worker E (run_worker E w es) es'"
  by (simp add: run_worker_def)

lemma demo_triggered_end:
  "wk_pc (run_worker demo_tunnel_env (new_worker (demo_tunnel_cfg ''a'') (demo_rule_set ''b'')) demo_triggered) = Cleared Canceled
   \<and> \<not> wk_cancelled (run_worker demo_tunnel_env (new_worker (demo_tunnel_cfg ''a'') (demo_rule_set ''b'')) demo_triggered)"
proof -
  have t: "tn_phase (demo_tunnel ''a'' ''b'') = Starting" by (simp add: demo_tunnel_def)
  obtain outs where s: "start_tunnel demo_tunnel_env (demo_tunnel_cfg ''a'') (prs_Peer (demo_rule_set ''b'')) (prs_Profile (demo_rule_set ''b'')) demo_nat None None None
     = (Inr (demo_tunnel ''a'' ''b''), outs)" using demo_start by blast
  show ?thesis using run_waits [OF s t] waiting_run_cancelled unfolding demo_triggered_def run_worker_append by metis
qed

theorem triggered_run_reconnects_witness:
  "\<exists>w'. worker_step demo_tunnel_env (run_worker demo_tunnel_env (new_worker (demo_tunnel_cfg ''a'') (demo_rule_set ''b'')) demo_triggered) (Decide ''t'' ''u'') = (w', [])
     \<and> wk_pc w' = Top \<and> wk_wake w' = None"
proof -
  show ?thesis using demo_triggered_end by (intro triggered_run_reconnects) simp_all
qed

definition demo_running :: "(string \<times> worker) list" where
  "demo_running = [(''k'', run_worker demo_tunnel_env (new_worker (demo_tunnel_cfg ''a'') (demo_rule_set ''b'')) demo_triggered)]"

theorem own_address_unknown_witness:
  "fst (snapshotAgentSessions demo_running) = '''' \<and> snd (snd (sendHeartbeat demo_running ''203.0.113.7:9'' '''')) \<noteq> Some ''addr_changed''"
proof (rule own_address_unknown)
  fix key w
  assume "map_of demo_running key = Some w"
  then have "w = run_worker demo_tunnel_env (new_worker (demo_tunnel_cfg ''a'') (demo_rule_set ''b'')) demo_triggered"
    unfolding demo_running_def by (simp only: map_of.simps fun_upd_apply fst_conv snd_conv split: if_splits) simp_all
  then show "\<exists>cfg rules es. w = run_worker demo_tunnel_env (new_worker cfg rules) es" by blast
qed

end
