(* ===== verification/Spec2Isabelle.thy ===== *)
theory Spec2Isabelle
  imports PacketSession Router Link Transport LanRelay LanIdentity Rendezvous Vnet LanHandlers PendingQueue HotPaths LanSession LanSend AgentStart Settings ClientAgent
begin

text \<open>
  A verification development for the UDP tunnel: a control server, agents that forward TCP ports between devices, and
  agents that join devices to a virtual LAN.

  \<^bold>\<open>The program and its parts.\<close>  The server (\<^verbatim>\<open>internal/server\<close>) introduces devices to each other over UDP, relays for those that cannot reach
  each other, hands out configurations over HTTP and keeps its state in a database (\<^verbatim>\<open>internal/controlstore\<close>).  The LAN agent
  (\<^verbatim>\<open>cmd/UDPTunnelLAN\<close>) bootstraps from the server, opens a virtual adapter, and moves IP packets between the adapter and its peers:
  through the overlay router and the packet codec (\<^verbatim>\<open>internal/packet\<close>), directly by punched datagrams, over a tunnel, over the UDP relay or over the
  HTTP relay.  The tunnel client (\<^verbatim>\<open>cmd/client\<close>) keeps one tunnel per peer for the forwarding rules of its device.

  \<^bold>\<open>The theories\<close>, each with its sources and its conventions at its beginning:
  \<^item> Foundations.  \<open>Prelude\<close> (bytes, words, slices, time), \<open>Machine\<close> (components with an invariant, Go maps), \<open>GoText\<close>, \<open>GoNet\<close>, \<open>GoBase64\<close> (what
    the code uses of \<^verbatim>\<open>strings\<close>, \<^verbatim>\<open>strconv\<close>, \<^verbatim>\<open>net\<close> and \<^verbatim>\<open>encoding/base64\<close>), \<open>Protocol\<close>, \<open>StoreTypes\<close>, \<open>Config\<close> (messages, rows, configuration).
  \<^item> Packets.  \<open>PacketSession\<close> (\<^verbatim>\<open>packet/session.go\<close>), \<open>Router\<close> (\<^verbatim>\<open>packet/router.go\<close>), \<open>Link\<close> (\<^verbatim>\<open>packet/link.go\<close>), \<open>Transport\<close> (\<^verbatim>\<open>lantransport\<close>
    and \<^verbatim>\<open>secure\<close>), \<open>Vnet\<close> (\<^verbatim>\<open>vnet/network.go\<close>), \<open>LanIdentity\<close> (\<^verbatim>\<open>lan/identity.go\<close>, \<^verbatim>\<open>lan/signature.go\<close>).
  \<^item> Server over UDP.  \<open>Rendezvous\<close> (\<^verbatim>\<open>server/udp.go\<close>).
  \<^item> Server over HTTP.  \<open>ServerApi\<close> (errors and answers), \<open>LanRelay\<close> (\<^verbatim>\<open>lan_packet_relay.go\<close>), \<open>LanAddress\<close>, \<open>LanPolicy\<close>, \<open>LanStatus\<close>, \<open>LanHandlers\<close>
    (\<^verbatim>\<open>handlers_lan.go\<close>), \<open>AdminAuth\<close> and \<open>AdminSessions\<close> (\<^verbatim>\<open>auth.go\<close>, \<^verbatim>\<open>auth_jwt.go\<close>), \<open>AgentApi\<close> (\<^verbatim>\<open>handlers_agent.go\<close>), \<open>Views\<close> (\<^verbatim>\<open>views.go\<close>),
    \<open>AdminApi\<close> (\<^verbatim>\<open>handlers_admin.go\<close>), \<open>Settings\<close> (\<^verbatim>\<open>settings.go\<close>).
  \<^item> Database.  \<open>ControlRows\<close> and \<open>ControlStore\<close> (\<^verbatim>\<open>controlstore\<close>): the twenty tables and every operation of the store on them.
  \<^item> LAN agent.  \<open>Traffic\<close>, \<open>PendingQueue\<close>, \<open>HotPaths\<close>, \<open>LanPeer\<close>, \<open>LanSend\<close> (\<^verbatim>\<open>packet_runtime.go\<close>), \<open>AgentStart\<close> (\<^verbatim>\<open>main.go\<close>, \<^verbatim>\<open>bootstrap.go\<close>); the
    lemmas on the peers are in \<open>LanPeerProps\<close> and \<open>LanSession\<close>.
  \<^item> Tunnel client.  \<open>ClientTunnel\<close> (\<^verbatim>\<open>runTunnelOnce\<close> of \<^verbatim>\<open>cmd/client/main.go\<close> and \<^verbatim>\<open>internal/tunnel\<close>), \<open>ClientAgent\<close> (the rest of
    \<^verbatim>\<open>cmd/client/main.go\<close>: the configuration from the server, the grouping of rules, the loop that starts and stops the workers, and the worker).
  \<^item> This theory has what spans components: a packet from one agent over the HTTP relay of the server to another, and the access rules of
    the server as the router of an agent applies them.

  \<^bold>\<open>How state and operations are written.\<close>  A struct is a record with the fields of the source, a method is a function that returns the new state
  beside its result, \<open>nil\<close> is \<open>None\<close>, an error is \<open>Inl\<close>, and a panic is \<open>None\<close> in the outermost \<open>option\<close>.  What is sent, logged in the database or
  started as a goroutine is a list of outputs.  Machine integers have their width wherever it matters, times and durations are integers of nanoseconds.
  Code under a mutex, and a goroutine between two waits, is one step; the order of steps of different goroutines, requests and
  ticks is free.  Where the order of two accesses within one goroutine matters, they are two steps (the timer of \<open>ClientTunnel\<close>, \<^verbatim>\<open>trigger\<close> in \<open>ClientAgent\<close>).

  \<^bold>\<open>Parameters.\<close>  Third-party code and the system are arguments, with hypotheses that state their documented behaviour and witnesses that show them satisfiable:
  AEAD ciphers, HKDF, HMAC, SHA-256, Ed25519, X25519, bcrypt; JSON; \<^verbatim>\<open>time.ParseDuration\<close> and time formats; resolution of
  addresses; KCP, smux, UPnP, STUN; the adapter driver; the HTTP client of the agents.  Of MySQL and GORM the environment \<open>control_env\<close> has the collation, \<^verbatim>\<open>LIKE\<close>, the count of changed rows
  and the treatment of defaults, and the database state has the faults that statements will meet.

  \<^bold>\<open>What the lemmas show.\<close>
  \<^item> The codec: the replay window refines a set of seen numbers, no frame is opened twice, what is sealed arrives; a forged frame can block genuine ones.
  \<^item> The router and the links: exactly the admitted packets pass, clamping keeps the checksums right, the tables of sessions keep their invariant.
  \<^item> The rendezvous server: it relays only along introductions it made, LAN peers are authenticated, two registrations connect.
  \<^item> The LAN agent: invariant of the peers, no panic, key agreement, exactness of the send loop, bounds of the queue, relay-only policy, safe start.
  \<^item> The HTTP server: least free address, access rules, relay queues in order; sessions of administrators end when they should, rules keep their ports apart,
    settings survive a restart as far as stated, agents are refused when disabled or without the key.
  \<^item> The tunnel client: two clients connect, relay mode is for good, and who can move a tunnel; the sessions are those of the enabled rules, an event of the network never ends a
    tunnel for good, and the delays between attempts are bounded.

  Interfaces are locales: \<open>invariant_machine\<close> and \<open>framing\<close> for components and encodings, \<open>sql_table\<close> for the tables (twenty interpretations), \<open>kept_relation\<close>,
  \<open>admin_contract\<close> and \<open>setting_rows\<close> for what the handlers rely on of the store; each is interpreted on the definitions of the model.

  \<^bold>\<open>Termination and bounds.\<close>  Recursion is structural or has a measure (the search for a free address ends at the end of the network); no fuel is
  used.  Loops that run for ever are given by their single step, and theorems quantify over all sequences of steps.

  \<^bold>\<open>Not modelled.\<close>  Sockets, files, flags, logging, service control, tray and settings pages; uploads of releases, CORS headers and the routing of the HTTP
  framework; copying of bytes between TCP connections and streams; UPnP, the Windows adapter and machine ids: they are input and output of the
  operating system or third-party code.  Of the tunnel client the flags, the service, the tray, the updates and the copying of streams are not modelled.
\<close>


section \<open>A packet over the relay of the server\<close>

lemma linked_sealed:
  assumes "aead_correct A" "linked A pA b pB a" "rf_DstDevice frame = b" "unat (codec_nextSeq (the (pr_tx (the (p2p_peer pA b))))) + 1 < 2 ^ 64"
  obtains wire pA' pB' where "SealRelayFrames pA [frame] = (pA', Inr [frame\<lparr>rf_Payload := wire\<rparr>])"
    "length wire = 24 + length (rf_Payload frame) + aead_Overhead A"
    "\<forall>g. rf_SrcDevice g = a \<longrightarrow> rf_Payload g = wire \<longrightarrow> OpenRelayFrame pB g = Some (pB', Inr (g\<lparr>rf_Payload := rf_Payload frame\<rparr>))"
    "\<forall>l r. linked A pA' b (pB'\<lparr>p2_router := r, p2_link := l\<rparr>) a"
proof -
  obtain toB fromA tx rx where s: "p2p_peer pA b = Some toB" "p2p_peer pB a = Some fromA" "pr_tx toB = Some tx" "pr_rx fromA = Some rx" "pr_id toB = b"
    "pr_id fromA = a" "paired A tx rx" "rw_max (codec_replay rx) < codec_nextSeq tx"
    using assms(2) by (auto simp: linked_def synced_def split: option.splits)
  let ?tx = "tx\<lparr>codec_nextSeq := codec_nextSeq tx + 1\<rparr>" and ?m = "rf_Payload frame"
  obtain wire w where f: "Codec_Seal (Some tx) ?m = (Some ?tx, Inr wire)"
    "Codec_Open (Some rx) wire = Some (Some (rx\<lparr>codec_replay := w\<rparr>), Inr ?m)" "rw_max w = codec_nextSeq tx"
    by (rule Open_Seal [OF assms(1) s(7,8), of ?m])
  let ?pA = "set_peer (toB\<lparr>pr_tx := Some ?tx\<rparr>) pA" and ?pB = "set_peer (fromA\<lparr>pr_rx := Some (rx\<lparr>codec_replay := w\<rparr>)\<rparr>) pB"
  have len: "length wire = 24 + length ?m + aead_Overhead A"
  proof -
    let ?h = "Codec_header ?tx (codec_nextSeq tx)"
    have A: "codec_aead tx = Some A" using s(7) by (simp add: paired_def)
    obtain body where "aead_Seal A ?h (nonceFrom (codec_networkID tx) (codec_nextSeq tx)) ?m ?h = ?h @ body" "length body = length ?m + aead_Overhead A"
      using assms(1) unfolding aead_correct_def by blast
    moreover from this have "wire = ?h @ body" using f(1) A by (simp add: Codec_Seal_def Let_def)
    ultimately show ?thesis by (simp add: header_layout magic_def)
  qed
  have step: "codec_nextSeq tx < codec_nextSeq tx + 1" using assms(4) unat_next [of "codec_nextSeq tx"] s(1,3) by (simp add: word_less_nat_alt)
  have "synced A ?tx (rx\<lparr>codec_replay := w\<rparr>)" using s(7,8) step f(3) by (simp add: synced_def paired_def)
  then have l: "linked A ?pA b (?pB\<lparr>p2_router := r, p2_link := l\<rparr>) a" for l r using s by (simp add: linked_def)
  show thesis
    by (rule that [of ?pA wire ?pB]) (use s f len l assms(3) in \<open>auto simp: SealRelayFrames_def OpenRelayFrame_def Let_def\<close>)
qed



section \<open>The policy of the administrators, enforced by the agents\<close>

text \<open>The devices named in the rows of addresses and of group members are not blank.\<close>

definition named_rows :: "'db lan_store \<Rightarrow> bool" where
  "named_rows S \<longleftrightarrow>
     (\<forall>n d addresses. snd (as_ListVirtualAddresses S n d) = Inr addresses \<longrightarrow> '''' \<notin> va_DeviceID ` set addresses)
     \<and> (\<forall>d members. snd (ls_ListVirtualDeviceGroupMembers S '''' d) = Inr members \<longrightarrow> '''' \<notin> gm_DeviceID ` set members)"

text \<open>The rows a bootstrap is made of.\<close>

lemma handleLANBootstrap_rows:
  assumes "handleLANBootstrap S cfg r (Some req) d = Some (d', Inr (Bootstrap resp))"
  obtains rules addresses members keys d1 d2 d3
  where "snd (ls_ListVirtualACLRules S (vn_ID (lb_Network resp)) d1) = Inr rules"
    "snd (as_ListVirtualAddresses S (vn_ID (lb_Network resp)) d2) = Inr addresses"
    "snd (ls_ListVirtualDeviceGroupMembers S '''' d3) = Inr members"
    "lb_ACL resp = concat (map (expand_rule (members_of members) (known_devices addresses)) rules)"
    "lb_Peers resp = bootstrap_peers (br_DeviceID req) addresses keys" "TrimSpace (br_DeviceID req) \<noteq> ''''"
proof -
  have dev: "TrimSpace (br_DeviceID req) \<noteq> ''''" using assms by (auto simp: handleLANBootstrap_def fail_def)
  show thesis
    using assms dev
    apply (simp add: handleLANBootstrap_def Let_def expandVirtualACLRules_def andThen_Inr call_eq ret_eq split_beta del: split_paired_Ex)
    apply (elim exE conjE)
    subgoal premises p for d1 x d1a d1b d1c d1d xa d1e xb d1f rules d1g addresses d1h keys d1i xf acl members
      by (rule that [of d1e rules d1f addresses d1i members keys]) (simp_all add: p)
    done
qed

lemma available_true: "fold (\<lambda>peer available. available(bp_DeviceID peer \<mapsto> True)) peers m dev = Some b \<Longrightarrow> b \<or> m dev = Some b"
  by (induction peers arbitrary: m) (fastforce split: if_splits)+

lemma buildPacketRuntime_router:
  assumes "buildPacketRuntime resp deviceID mtu now = Inr (router, link)"
  shows "r_networkID router = vn_ID (lb_Network resp) \<and> r_sourceDeviceID router = deviceID \<and> r_acl router = lb_ACL resp
     \<and> r_routes router = buildRoutes (vn_ID (lb_Network resp)) (lb_Address resp # map (peer_address (vn_ID (lb_Network resp))) (lb_Peers resp))
     \<and> (\<forall>dev. r_peerAvailable router dev \<noteq> Some False)"
  using assms available_true [of "lb_Peers resp" Map.empty _ False]
  by (auto simp: buildPacketRuntime_def runtimeAddresses_def NewRouter_def buildRoutes_def Let_def split: if_splits sum.splits)

text \<open>The device an address belongs to, read from the rows: the last of the own address and the rows of the other devices
  that holds it.\<close>

definition routed_to :: "int \<Rightarrow> VirtualAddress \<Rightarrow> string \<Rightarrow> VirtualAddress list \<Rightarrow> bytes \<Rightarrow> string option" where
  "routed_to n own deviceID addresses ip =
     map_option va_DeviceID (find (owns n ip) (rev (own # map (\<lambda>a. a\<lparr>va_NetworkID := n\<rparr>) (filter (\<lambda>a. va_DeviceID a \<noteq> deviceID) addresses))))"

lemma bootstrap_routes:
  assumes "length ip = 4"
  shows "buildRoutes n (own # map (peer_address n) (bootstrap_peers deviceID addresses keys)) (IPv4String ip) = routed_to n own deviceID addresses ip"
proof -
  let ?peer = "\<lambda>a. peer_address n \<lparr>bp_DeviceID = va_DeviceID a, bp_VirtualIP = va_VirtualIP a, bp_Hostname = va_Hostname a,
      bp_PublicKey = keyByDevice keys (va_DeviceID a)\<rparr>"
  have found: "map_option va_DeviceID (find (owns n ip) (map ?peer xs @ ys)) = map_option va_DeviceID (find (owns n ip) (map (\<lambda>a. a\<lparr>va_NetworkID := n\<rparr>) xs @ ys))"
    for xs ys by (induction xs) (auto simp: owns_def peer_address_def)
  show ?thesis
    unfolding buildRoutes_lookup [OF assms] routed_to_def bootstrap_peers_def by (simp add: rev_map o_def found)
qed


definition demo_known :: "VirtualAddress list lan_store" where
  "demo_known = demo_lan\<lparr>as_GetVirtualAddressByDevice := (\<lambda>_ d. (d, Inr (lb_Address demo_resp))),
     as_ListVirtualNetworks := (\<lambda>d. (d, Inr [demo_lan_network])), as_ListVirtualAddresses := (\<lambda>_ d. (d, Inr [demo_address\<lparr>va_DeviceID := ''b''\<rparr>]))\<rparr>"

definition demo_agent_request :: bootstrap_request where
  "demo_agent_request = \<lparr>br_DeviceID = ''a'', br_DeviceName = '''', br_PublicKey = '''', br_Capabilities = []\<rparr>"

definition demo_settings :: server_settings where
  "demo_settings = \<lparr>set_UDPListen = '''', set_StunAltListen = '''', set_LANAllowRelay = True\<rparr>"

lemma demo_known_rows: "named_rows demo_known"
  by (simp add: named_rows_def demo_known_def demo_lan_def demo_store_def demo_address_def address_store.defs demo_member_def)

lemma demo_known_bootstrap:
  "\<exists>resp. handleLANBootstrap demo_known demo_settings delete_request (Some demo_agent_request) [] = Some ([], Inr (Bootstrap resp)) \<and> lb_Network resp = demo_lan_network"
proof -
  have trim: "TrimSpace ''a'' = ''a''" "TrimSpace '''' = ''''" "TrimSpace (IPv4String [172, 16, 10, 2]) = IPv4String [172, 16, 10, 2]"
    by (simp_all add: TrimSpace_plain plain_char_def plain_IPv4String)
  have ne: "IPv4String [172, 16, 10, 2] \<noteq> ''''" by (simp add: IPv4String_def)
  show ?thesis
    by (simp add: handleLANBootstrap_def demo_agent_request_def trim Let_def lanNetworkAndAddress_def demo_known_def demo_lan_def
        demo_store_def address_store.defs demo_resp_def demo_lan_network_def andThen_def call_def ret_def onResult_def ne expandVirtualACLRules_def)
qed


end
